(* ===== verification/Prelude.thy ===== *)
theory Prelude
  imports Main "HOL-Library.Char_ord"
begin

text \<open>
  Shared vocabulary of the development: the JavaScript values the code inspects (numbers, strings,
  JSON), the string and number routines of the standard library it calls, tables of rows with the
  query operations of the database client, and the transaction combinators. The lemmas about tables
  and transactions are collected in \<open>table_simps\<close> and \<open>tx_rules\<close>.
\<close>

named_theorems table_simps \<open>lookup, update and insert on tables\<close>
named_theorems tx_success \<open>when a transaction combinator succeeds, and with what\<close>
named_theorems tx_rules \<open>how an invariant passes through the transaction combinators\<close>

section \<open>JavaScript numbers\<close>

text \<open>
  A JavaScript number as far as the code looks at it: an integral value, a finite value that is not
  integral (\<open>NFrac m k\<close> is m times 10 to the minus k; every finite double has this form), or one
  of NaN and the infinities.
\<close>

datatype jsnum = NInt int | NFrac int nat | NNonFinite

definition MAX_SAFE_INTEGER :: int where
  "MAX_SAFE_INTEGER = 9007199254740991"

definition INT4_MAX :: int where "INT4_MAX = 2147483647"
definition INT4_MIN :: int where "INT4_MIN = -2147483648"

text \<open>The range of PostgreSQL's INTEGER columns: a value outside it makes the statement fail.\<close>

definition int4 :: "int \<Rightarrow> bool" where
  "int4 x \<longleftrightarrow> INT4_MIN \<le> x \<and> x \<le> INT4_MAX"

definition int4_opt :: "int option \<Rightarrow> bool" where
  "int4_opt x = (case x of None \<Rightarrow> True | Some n \<Rightarrow> int4 n)"

text \<open>\<open>Number.isInteger\<close> and \<open>Number.isSafeInteger\<close>, returning the integer they accept.\<close>

fun as_integer :: "jsnum \<Rightarrow> int option" where
  "as_integer (NInt n) = Some n"
| "as_integer _ = None"

definition as_safe_integer :: "jsnum \<Rightarrow> int option" where
  "as_safe_integer x =
     (case x of NInt n \<Rightarrow> if \<bar>n\<bar> \<le> MAX_SAFE_INTEGER then Some n else None | _ \<Rightarrow> None)"

lemma as_safe_integer_Some: "as_safe_integer x = Some n \<Longrightarrow> x = NInt n \<and> \<bar>n\<bar> \<le> MAX_SAFE_INTEGER"
  by (auto simp: as_safe_integer_def split: jsnum.splits if_splits)

section \<open>Strings\<close>

text \<open>
  Strings are lists of 8-bit characters, read as the code units U+0000 to U+00FF: identifiers,
  status names, codes and setting values of this program are ASCII. Where the code handles wider
  text (notes, typed amounts) the model uses lists of code points instead.
\<close>

definition char_code :: "char \<Rightarrow> nat" where "char_code c = of_char c"

definition is_digit :: "char \<Rightarrow> bool" where
  "is_digit c \<longleftrightarrow> 48 \<le> char_code c \<and> char_code c \<le> 57"

definition digit_val :: "char \<Rightarrow> nat" where "digit_val c = char_code c - 48"

definition is_ws :: "char \<Rightarrow> bool" where
  "is_ws c \<longleftrightarrow> char_code c \<in> {9, 10, 11, 12, 13, 32, 160}"

definition js_trim_start :: "string \<Rightarrow> string" where
  "js_trim_start s = dropWhile is_ws s"

definition js_trim :: "string \<Rightarrow> string" where
  "js_trim s = rev (dropWhile is_ws (rev (dropWhile is_ws s)))"

definition lower_char :: "char \<Rightarrow> char" where
  "lower_char c =
     (let n = char_code c in
      if 65 \<le> n \<and> n \<le> 90 \<or> 192 \<le> n \<and> n \<le> 222 \<and> n \<noteq> 215 then char_of (n + 32) else c)"

definition js_lower :: "string \<Rightarrow> string" where
  "js_lower s = map lower_char s"

definition upper_char :: "char \<Rightarrow> string" where
  "upper_char c =
     (let n = char_code c in
      if n = 223 then ''SS''
      else if 97 \<le> n \<and> n \<le> 122 \<or> 224 \<le> n \<and> n \<le> 254 \<and> n \<noteq> 247 then [char_of (n - 32)]
      else [c])"

definition js_upper :: "string \<Rightarrow> string" where
  "js_upper s = concat (map upper_char s)"

definition starts_with :: "string \<Rightarrow> string \<Rightarrow> bool" where
  "starts_with s p \<longleftrightarrow> take (length p) s = p"

lemma starts_with_refl [simp]: "starts_with s s"
  by (simp add: starts_with_def)

lemma starts_with_take [simp]: "starts_with s (take n s)"
  by (simp add: starts_with_def min_def)

lemma dropWhile_id: "\<forall>x \<in> set xs. \<not> P x \<Longrightarrow> dropWhile P xs = xs"
  by (cases xs) auto

lemma js_trim_id: "\<forall>c \<in> set s. \<not> is_ws c \<Longrightarrow> js_trim s = s"
  by (simp add: js_trim_def dropWhile_id)

lemma js_trim_length: "length (js_trim s) \<le> length s"
proof -
  have "length (dropWhile is_ws (rev (dropWhile is_ws s))) \<le> length (dropWhile is_ws s)"
    by (metis length_dropWhile_le length_rev)
  also have "\<dots> \<le> length s" by (rule length_dropWhile_le)
  finally show ?thesis by (simp add: js_trim_def)
qed

lemma js_lower_id: "\<forall>c \<in> set s. lower_char c = c \<Longrightarrow> js_lower s = s"
  by (simp add: js_lower_def map_idI)

lemma length_js_lower [simp]: "length (js_lower s) = length s"
  by (simp add: js_lower_def)

subsection \<open>Wide text\<close>

text \<open>Typed text is a list of code points. \<open>wide_ws\<close> is what \<open>trim\<close> removes.\<close>

definition wide_ws :: "nat \<Rightarrow> bool" where
  "wide_ws c \<longleftrightarrow> 9 \<le> c \<and> c \<le> 13 \<or> c \<in> {32, 160, 5760, 8232, 8233, 8239, 8287, 12288, 65279}
     \<or> 8192 \<le> c \<and> c \<le> 8202"

definition wide_trim :: "nat list \<Rightarrow> nat list" where
  "wide_trim s = rev (dropWhile wide_ws (rev (dropWhile wide_ws s)))"

lemma wide_trim_id: "\<forall>c \<in> set s. \<not> wide_ws c \<Longrightarrow> wide_trim s = s"
  by (simp add: wide_trim_def dropWhile_id)

subsection \<open>Decimal notation\<close>

definition digit_char :: "nat \<Rightarrow> char" where "digit_char d = char_of (48 + d)"

fun show_nat :: "nat \<Rightarrow> string" where
  "show_nat n = (if n < 10 then [digit_char n] else show_nat (n div 10) @ [digit_char (n mod 10)])"

declare show_nat.simps [simp del]

text \<open>\<open>String(n)\<close> for an integer below 10 to the 21.\<close>

definition show_int :: "int \<Rightarrow> string" where
  "show_int n = (if n < 0 then CHR ''-'' # show_nat (nat (- n)) else show_nat (nat n))"

definition read_nat :: "string \<Rightarrow> nat" where
  "read_nat s = foldl (\<lambda>a c. 10 * a + digit_val c) 0 s"

lemma char_code_digit [simp]: "d < 10 \<Longrightarrow> char_code (digit_char d) = 48 + d"
  by (simp add: char_code_def digit_char_def)

lemma digit_val_digit_char [simp]: "d < 10 \<Longrightarrow> digit_val (digit_char d) = d"
  by (simp add: digit_val_def)

lemma is_digit_digit_char [simp]: "d < 10 \<Longrightarrow> is_digit (digit_char d)"
  by (simp add: is_digit_def)

lemma show_nat_digits: "\<forall>c \<in> set (show_nat n). is_digit c"
proof (induction n rule: show_nat.induct)
  case (1 n)
  then show ?case by (subst show_nat.simps) auto
qed

lemma read_show_nat [simp]: "read_nat (show_nat n) = n"
proof (induction n rule: show_nat.induct)
  case (1 n)
  then show ?case by (subst show_nat.simps) (auto simp: read_nat_def)
qed

lemma show_nat_inject [simp]: "show_nat m = show_nat n \<longleftrightarrow> m = n"
  by (metis read_show_nat)

lemma show_nat_nonempty [simp]: "show_nat n \<noteq> []"
  by (subst show_nat.simps) simp

lemma show_int_inject [simp]: "show_int m = show_int n \<longleftrightarrow> m = n"
proof -
  have minus: "\<not> is_digit CHR ''-''" by (simp add: is_digit_def char_code_def)
  have cons: "show_nat a \<noteq> CHR ''-'' # s" for a s
    using show_nat_digits [of a] minus by auto
  show ?thesis by (auto simp: show_int_def cons cons [symmetric])
qed

lemma show_int_chars: "\<forall>c \<in> set (show_int n). is_digit c \<or> c = CHR ''-''"
  using show_nat_digits by (auto simp: show_int_def)

subsection \<open>Reading numbers\<close>

text \<open>From this magnitude on a decimal literal reads as an infinity.\<close>

definition DOUBLE_OVERFLOW :: int where "DOUBLE_OVERFLOW = 2 ^ 1024 - 2 ^ 970"

definition finite_num :: "jsnum \<Rightarrow> jsnum" where
  "finite_num x = (case x of NInt n \<Rightarrow> if \<bar>n\<bar> \<ge> DOUBLE_OVERFLOW then NNonFinite else x | _ \<Rightarrow> x)"

text \<open>
  \<open>Number.parseInt(s, 10)\<close>: leading white space, an optional sign, then the longest run of
  digits; NaN when there is none.
\<close>

definition js_parseInt :: "string \<Rightarrow> jsnum" where
  "js_parseInt s =
     (let t = js_trim_start s;
          neg = (case t of c # _ \<Rightarrow> c = CHR ''-'' | [] \<Rightarrow> False);
          r = (case t of c # q \<Rightarrow> if c = CHR ''-'' \<or> c = CHR ''+'' then q else t | [] \<Rightarrow> t);
          ds = takeWhile is_digit r
      in if ds = [] then NNonFinite
         else finite_num (NInt (if neg then - int (read_nat ds) else int (read_nat ds))))"

definition scaled_num :: "int \<Rightarrow> int \<Rightarrow> jsnum" where
  "scaled_num m e =
     (if 0 \<le> e then NInt (m * 10 ^ nat e)
      else if m mod 10 ^ nat (- e) = 0 then NInt (m div 10 ^ nat (- e))
      else NFrac m (nat (- e)))"

definition read_exponent :: "string \<Rightarrow> int option" where
  "read_exponent s =
     (case s of [] \<Rightarrow> Some 0
      | c # q \<Rightarrow>
         if c \<noteq> CHR ''e'' \<and> c \<noteq> CHR ''E'' then None
         else (let neg = (case q of d # _ \<Rightarrow> d = CHR ''-'' | [] \<Rightarrow> False);
                   ds = (case q of d # r \<Rightarrow> if d = CHR ''-'' \<or> d = CHR ''+'' then r else q | [] \<Rightarrow> q)
               in if ds = [] \<or> \<not> list_all is_digit ds then None
                  else Some (if neg then - int (read_nat ds) else int (read_nat ds))))"

definition read_decimal :: "string \<Rightarrow> jsnum" where
  "read_decimal t =
     (let neg = (case t of c # _ \<Rightarrow> c = CHR ''-'' | [] \<Rightarrow> False);
          r = (case t of c # q \<Rightarrow> if c = CHR ''-'' \<or> c = CHR ''+'' then q else t | [] \<Rightarrow> t);
          ip = takeWhile is_digit r;
          r1 = dropWhile is_digit r;
          fp = (case r1 of c # q \<Rightarrow> if c = CHR ''.'' then takeWhile is_digit q else [] | [] \<Rightarrow> []);
          r2 = (case r1 of c # q \<Rightarrow> if c = CHR ''.'' then dropWhile is_digit q else r1 | [] \<Rightarrow> []);
          m = int (read_nat (ip @ fp))
      in if ip = [] \<and> fp = [] then NNonFinite
         else (case read_exponent r2 of
                 None \<Rightarrow> NNonFinite
               | Some e \<Rightarrow> finite_num (scaled_num (if neg then - m else m) (e - int (length fp)))))"

definition radix_digit :: "nat \<Rightarrow> char \<Rightarrow> nat option" where
  "radix_digit b c =
     (let n = char_code c;
          v = (if 48 \<le> n \<and> n \<le> 57 then n - 48
               else if 65 \<le> n \<and> n \<le> 70 then n - 55
               else if 97 \<le> n \<and> n \<le> 102 then n - 87 else 99)
      in if v < b then Some v else None)"

definition read_radix :: "nat \<Rightarrow> string \<Rightarrow> jsnum" where
  "read_radix b ds =
     (if ds = [] \<or> (\<exists>c \<in> set ds. radix_digit b c = None) then NNonFinite
      else finite_num (NInt (int (foldl (\<lambda>a c. b * a + the (radix_digit b c)) 0 ds))))"

text \<open>
  \<open>Number(s)\<close>: trimmed; the empty string is 0; hexadecimal, octal and binary with their prefixes;
  otherwise a decimal literal or NaN. Below the overflow to an infinity the value is exact: the
  rounding of literals with more than 15 significant digits is not modelled.
\<close>

definition js_Number :: "string \<Rightarrow> jsnum" where
  "js_Number s =
     (let t = js_trim s in
      case t of
        [] \<Rightarrow> NInt 0
      | [c] \<Rightarrow> read_decimal t
      | c # d # ds \<Rightarrow>
          if c = CHR ''0'' \<and> (d = CHR ''x'' \<or> d = CHR ''X'') then read_radix 16 ds
          else if c = CHR ''0'' \<and> (d = CHR ''o'' \<or> d = CHR ''O'') then read_radix 8 ds
          else if c = CHR ''0'' \<and> (d = CHR ''b'' \<or> d = CHR ''B'') then read_radix 2 ds
          else read_decimal t)"

lemma js_Number_empty: "js_Number '''' = NInt 0"
  by (simp add: js_Number_def js_trim_def)

lemma js_parseInt_empty: "js_parseInt '''' = NNonFinite"
  by (simp add: js_parseInt_def js_trim_start_def)

subsection \<open>Joining\<close>

fun js_join :: "string \<Rightarrow> string list \<Rightarrow> string" where
  "js_join sep [] = []"
| "js_join sep [x] = x"
| "js_join sep (x # y # xs) = x @ sep @ js_join sep (y # xs)"

lemma append_sep_inject:
  assumes "c \<notin> set a" and "c \<notin> set b" and "a @ c # s = b @ c # t"
  shows "a = b \<and> s = t"
  using assms
proof (induction a arbitrary: b)
  case Nil
  then show ?case by (cases b) auto
next
  case (Cons x a)
  then show ?case by (cases b) auto
qed

lemma js_join_inject:
  assumes "length xs = length ys"
    and "\<forall>x \<in> set xs. c \<notin> set x" and "\<forall>y \<in> set ys. c \<notin> set y"
    and "js_join [c] xs = js_join [c] ys"
  shows "xs = ys"
  using assms
proof (induction xs ys rule: list_induct2)
  case Nil
  then show ?case by simp
next
  case (Cons x xs y ys)
  show ?case
  proof (cases xs)
    case Nil
    with Cons show ?thesis by simp
  next
    case (Cons x' xs')
    with Cons.hyps obtain y' ys' where ys: "ys = y' # ys'" by (cases ys) auto
    have "x @ c # js_join [c] xs = y @ c # js_join [c] ys"
      using Cons.prems(3) unfolding \<open>xs = x' # xs'\<close> ys by simp
    moreover have "c \<notin> set x" and "c \<notin> set y" using Cons.prems(1,2) by simp_all
    ultimately have eq: "x = y \<and> js_join [c] xs = js_join [c] ys"
      by (intro append_sep_inject)
    have "\<forall>x \<in> set xs. c \<notin> set x" and "\<forall>y \<in> set ys. c \<notin> set y"
      using Cons.prems(1,2) by simp_all
    then have "xs = ys" using conjunct2 [OF eq] by (rule Cons.IH)
    with eq show ?thesis by blast
  qed
qed

section \<open>JSON\<close>

datatype json = JNull | JBool bool | JNum jsnum | JStr string | JArr "json list"
  | JObj "(string \<times> json) list"

type_synonym json_obj = "(string \<times> json) list"

text \<open>A stored JSON column read as a record; anything but an object reads as the empty one.\<close>

definition as_record :: "json option \<Rightarrow> json_obj" where
  "as_record j = (case j of Some (JObj kvs) \<Rightarrow> kvs | _ \<Rightarrow> [])"

definition jint :: "int \<Rightarrow> json" where "jint n = JNum (NInt n)"

definition jopt :: "('a \<Rightarrow> json) \<Rightarrow> 'a option \<Rightarrow> json" where
  "jopt f x = (case x of None \<Rightarrow> JNull | Some a \<Rightarrow> f a)"

text \<open>\<open>typeof value === "string" && value !== ""\<close>.\<close>

definition nonempty_string :: "json option \<Rightarrow> string option" where
  "nonempty_string j = (case j of Some (JStr s) \<Rightarrow> if s = [] then None else Some s | _ \<Rightarrow> None)"

definition integer_value :: "json option \<Rightarrow> int option" where
  "integer_value j = (case j of Some (JNum n) \<Rightarrow> as_integer n | _ \<Rightarrow> None)"

definition safe_integer_value :: "json option \<Rightarrow> int option" where
  "safe_integer_value j = (case j of Some (JNum n) \<Rightarrow> as_safe_integer n | _ \<Rightarrow> None)"

end
