(* ===== verification/Database.thy ===== *)
theory Database
  imports Prelude
begin

text \<open>
  The rows of the database (packages/database/prisma/schema.prisma) restricted to the columns the
  modelled code reads or writes, the database as a record of tables, and transactions. A table is
  the list of its rows in creation order. Constraints of the schema that the code relies on (unique
  columns, foreign keys, the INTEGER range) are checked by the \<open>create_\<close> operations, which fail the
  way the client does.
\<close>

section \<open>Enumerations of the schema\<close>

datatype UserStatus = UserStatus_ACTIVE | UserStatus_BLOCKED | UserStatus_DISABLED
  | UserStatus_DELETED

datatype UserGroup = UserGroup_F | UserGroup_N | UserGroup_N2

datatype TermsDocumentStatus = Terms_DRAFT | Terms_PUBLISHED | Terms_ARCHIVED

datatype SystemLogLevel = Log_INFO | Log_WARN | Log_ERROR

datatype CheckoutStatus = CheckoutStatus_PENDING | CheckoutStatus_PAID | CheckoutStatus_EXPIRED
  | CheckoutStatus_CANCELLED | CheckoutStatus_FAILED_REFUNDED | CheckoutStatus_COMPLETED

datatype CheckoutPurpose = CheckoutPurpose_WALLET_CHARGE | CheckoutPurpose_ORDER_PAYMENT
  | CheckoutPurpose_PAY_WITH_WALLET

datatype PaymentPurpose = PaymentPurpose_WALLET_CHARGE | PaymentPurpose_ORDER_PAYMENT
  | PaymentPurpose_PAY_WITH_WALLET | PaymentPurpose_SERVICE_SUBSCRIPTION_INITIAL
  | PaymentPurpose_SERVICE_SUBSCRIPTION_RECURRING

datatype PaymentStatus = PaymentStatus_PENDING | PaymentStatus_PENDING_REVIEW
  | PaymentStatus_PROCESSING | PaymentStatus_APPROVED | PaymentStatus_REJECTED
  | PaymentStatus_FAILED | PaymentStatus_EXPIRED | PaymentStatus_CANCELLED | PaymentStatus_DELETED

datatype PaymentSettlementStatus = SettlementStatus_UNSETTLED | SettlementStatus_SETTLED
  | SettlementStatus_DUPLICATE_SUCCESS_REVIEW

datatype OrderStatus = OrderStatus_PENDING_PAYMENT | OrderStatus_WAITING_RECEIPT
  | OrderStatus_PENDING_REVIEW | OrderStatus_PAID | OrderStatus_PROVISIONING
  | OrderStatus_COMPLETED | OrderStatus_FAILED | OrderStatus_CANCELLED | OrderStatus_REFUNDED

datatype OrderType = OrderType_SERVICE_PURCHASE | OrderType_SERVICE_RENEWAL
  | OrderType_EXTRA_VOLUME | OrderType_EXTRA_TIME | OrderType_LOCATION_CHANGE
  | OrderType_OTHER_PRODUCT

datatype WalletTransactionType = WT_CHARGE | WT_SPEND | WT_REFUND | WT_CASHBACK | WT_COMMISSION
  | WT_MANUAL_ADD | WT_MANUAL_DEDUCT | WT_DEBT_ADD | WT_DEBT_PAYMENT | WT_DISCOUNT
  | WT_SYSTEM_ADJUSTMENT

datatype WalletTransactionSource = WS_USER_PAYMENT | WS_ORDER | WS_ADMIN | WS_REFERRAL
  | WS_CASHBACK | WS_SYSTEM | WS_REPRESENTATIVE_DEBT

datatype DiscountType = DiscountType_PERCENT | DiscountType_FIXED_AMOUNT

datatype DiscountAppliesTo = AppliesTo_PURCHASE | AppliesTo_RENEWAL | AppliesTo_BOTH

datatype ReservationStatus = Reservation_HELD | Reservation_BOUND | Reservation_CONSUMED
  | Reservation_RELEASED | Reservation_EXPIRED

datatype ServiceUsernameMode = UsernameMode_CUSTOM | UsernameMode_RANDOM

datatype ServiceStatus = ServiceStatus_CREATING | ServiceStatus_ACTIVE | ServiceStatus_DISABLED
  | ServiceStatus_EXPIRED | ServiceStatus_LIMITED | ServiceStatus_DELETED | ServiceStatus_FAILED

datatype ServiceSource = ServiceSource_PAID | ServiceSource_FREE_TRIAL
  | ServiceSource_ADMIN_CREATED

datatype ServiceLocation = ServiceLocation_MULTI_LOCATION | ServiceLocation_DEDICATED_LOCATION
  | ServiceLocation_TEST

datatype PanelType = PanelType_MARZBAN | PanelType_XUI

datatype PanelStatus = PanelStatus_ACTIVE | PanelStatus_INACTIVE | PanelStatus_MAINTENANCE
  | PanelStatus_FAILED

datatype ProductType = ProductType_SERVICE_PRODUCT | ProductType_OTHER_PRODUCT

datatype TrafficResetCycle = Reset_NO_RESET | Reset_DAY | Reset_WEEK | Reset_MONTH | Reset_YEAR

datatype OtherProductDeliveryType = Delivery_MANUAL_ADMIN | Delivery_STOCK_ITEM

datatype LowBalanceAlertStateValue = ARMED | ALERTED

datatype SupportTicketStatus = Ticket_OPEN | Ticket_ANSWERED | Ticket_WAITING_ADMIN
  | Ticket_WAITING_USER | Ticket_CLOSED

datatype SupportMessageSenderType = Sender_USER | Sender_ADMIN | Sender_SYSTEM

datatype SupportNotificationStatus = Intent_PENDING | Intent_SENDING | Intent_SENT | Intent_FAILED

datatype SupportRecipientStatus = Recipient_PENDING | Recipient_SENDING | Recipient_SENT
  | Recipient_FAILED | Recipient_SKIPPED

section \<open>Rows\<close>

record user_row =
  u_id :: string
  u_status :: UserStatus
  u_group :: UserGroup
  u_balanceToman :: int
  u_totalSpentToman :: int
  u_totalDiscountToman :: int
  u_totalRefundedToman :: int
  u_ordersCount :: int
  u_paidOrdersCount :: int
  u_totalPurchaseAmountToman :: int
  u_lowBalanceNotificationsEnabled :: bool
  u_paymentNotificationsEnabled :: bool
  u_telegramId :: int
  u_forceJoinBypass :: bool

record checkout_row =
  co_id :: string
  co_userId :: string
  co_purpose :: CheckoutPurpose
  co_productId :: "string option"
  co_serviceId :: "string option"
  co_orderType :: "OrderType option"
  co_productSnapshot :: "json option"
  co_otherProductFulfillmentSnapshot :: "json option"
  co_originalPriceToman :: int
  co_discountAmountToman :: int
  co_finalPriceToman :: int
  co_discountCodeId :: "string option"
  co_status :: CheckoutStatus
  co_settledByPaymentId :: "string option"
  co_expiresAt :: int
  co_paidAt :: "int option"

record payment_row =
  pay_id :: string
  pay_userId :: string
  pay_orderId :: "string option"
  pay_checkoutSessionId :: "string option"
  pay_purpose :: PaymentPurpose
  pay_status :: PaymentStatus
  pay_amountToman :: int
  pay_payableAmountToman :: int
  pay_paidAt :: "int option"
  pay_callbackPayload :: "json option"
  pay_idempotencyKey :: "string option"
  pay_settlementStatus :: PaymentSettlementStatus
  pay_settledAt :: "int option"

record order_row =
  o_id :: string
  o_userId :: string
  o_checkoutSessionId :: "string option"
  o_type :: OrderType
  o_status :: OrderStatus
  o_productId :: "string option"
  o_serviceId :: "string option"
  o_paymentId :: "string option"
  o_originalPriceToman :: int
  o_discountAmountToman :: int
  o_finalPriceToman :: int
  o_discountCodeId :: "string option"
  o_productNameSnapshot :: "string option"
  o_productDescriptionSnapshot :: "string option"
  o_productPriceSnapshot :: "int option"
  o_durationDaysSnapshot :: "int option"
  o_volumeGbSnapshot :: "int option"
  o_inboundIdsSnapshot :: "json option"
  o_panelNameSnapshot :: "string option"
  o_locationSnapshot :: "string option"
  o_categorySnapshot :: "string option"
  o_serviceNoteSnapshot :: "string option"
  o_failureReason :: "string option"
  o_paidAt :: "int option"
  o_completedAt :: "int option"
  o_updatedAt :: int

record wallet_tx_row =
  wt_id :: string
  wt_userId :: string
  wt_amountToman :: int
  wt_type :: WalletTransactionType
  wt_source :: WalletTransactionSource
  wt_reason :: "string option"
  wt_relatedOrderId :: "string option"
  wt_relatedPaymentId :: "string option"
  wt_balanceBeforeToman :: int
  wt_balanceAfterToman :: int
  wt_createdAt :: int

record discount_row =
  dc_id :: string
  dc_code :: string
  dc_type :: DiscountType
  dc_value :: int
  dc_totalUsageLimit :: "int option"
  dc_totalUsedCount :: int
  dc_perUserUsageLimit :: "int option"
  dc_allowedGroups :: "json option"
  dc_appliesTo :: DiscountAppliesTo
  dc_startsAt :: "int option"
  dc_expiresAt :: "int option"
  dc_isActive :: bool

record usage_row =
  du_id :: string
  du_discountCodeId :: string
  du_userId :: string
  du_orderId :: "string option"
  du_checkoutSessionId :: "string option"
  du_amountToman :: int

record reservation_row =
  rv_id :: string
  rv_panelId :: string
  rv_userId :: string
  rv_normalizedUsername :: string
  rv_activeUsernameKey :: "string option"
  rv_mode :: ServiceUsernameMode
  rv_status :: ReservationStatus
  rv_draftNonce :: "string option"
  rv_checkoutSessionId :: "string option"
  rv_orderId :: "string option"
  rv_serviceId :: "string option"
  rv_expiresAt :: "int option"
  rv_boundAt :: "int option"
  rv_consumedAt :: "int option"
  rv_releasedAt :: "int option"

record service_row =
  sv_id :: string
  sv_userId :: string
  sv_orderId :: "string option"
  sv_panelId :: string
  sv_productId :: "string option"
  sv_panelType :: PanelType
  sv_username :: string
  sv_note :: "string option"
  sv_userNote :: "string option"
  sv_status :: ServiceStatus
  sv_source :: ServiceSource
  sv_serviceLocation :: ServiceLocation
  sv_convertedToPaidAt :: "int option"
  sv_firstPaidOrderId :: "string option"
  sv_productNameSnapshot :: "string option"
  sv_panelNameSnapshot :: "string option"
  sv_volumeBytes :: int
  sv_usedBytes :: int
  sv_remainingBytes :: int
  sv_durationDays :: int
  sv_startsAt :: int
  sv_expiresAt :: "int option"
  sv_subscriptionUrl :: "string option"
  sv_subscriptionToken :: "string option"
  sv_configLinks :: "json option"
  sv_remoteClientId :: "string option"
  sv_remoteInboundIds :: "json option"
  sv_remoteMetadata :: "json option"
  sv_createdAt :: int
  sv_deletedAt :: "int option"

record event_row =
  ev_id :: string
  ev_serviceId :: string
  ev_userId :: string
  ev_panelId :: string
  ev_eventType :: string
  ev_metadata :: json_obj

record category_row =
  cat_id :: string
  cat_name :: string
  cat_isActive :: bool
  cat_displayOrder :: int
  cat_createdAt :: int

record panel_row =
  pn_id :: string
  pn_type :: PanelType
  pn_name :: string
  pn_baseUrl :: string
  pn_username :: "string option"
  pn_passwordEncrypted :: "string option"
  pn_tokenEncrypted :: "string option"
  pn_status :: PanelStatus
  pn_isVisible :: bool
  pn_displayOrder :: int
  pn_createdAt :: int
  pn_templateUsername :: "string option"
  pn_subscriptionDomain :: "string option"
  pn_resetStrategy :: "string option"
  pn_usernamePatternType :: string
  pn_usernameCustomText :: "string option"
  pn_usernameRandomLength :: "int option"
  pn_representativeUsernamePrefix :: "string option"
  pn_inboundIds :: "json option"
  pn_protocolSettings :: "json option"
  pn_authMode :: "string option"
  pn_apiVariant :: "string option"
  pn_provisioningReady :: "bool option"

record product_row =
  pr_id :: string
  pr_type :: ProductType
  pr_categoryId :: string
  pr_panelId :: "string option"
  pr_name :: string
  pr_displayGroups :: "json option"
  pr_serviceLocation :: "ServiceLocation option"
  pr_volumeGb :: "int option"
  pr_durationDays :: "int option"
  pr_priceToman :: int
  pr_invoiceDescription :: "string option"
  pr_isActive :: bool
  pr_displayOrder :: int
  pr_createdAt :: int
  pr_trafficResetCycle :: "TrafficResetCycle option"
  pr_allLocations :: bool
  pr_inboundIds :: "json option"
  pr_requiredUserInfoEnabled :: bool
  pr_requiredUserInfoPromptText :: "string option"
  pr_deliveryType :: "OtherProductDeliveryType option"

record lb_state_row =
  lb_id :: string
  lb_userId :: string
  lb_state :: LowBalanceAlertStateValue
  lb_alertCycle :: int
  lb_lastObservedBalanceToman :: int
  lb_lastThresholdToman :: int
  lb_lastRearmBoundaryToman :: int
  lb_lastConfigVersion :: int
  lb_alertedAt :: "int option"
  lb_rearmedAt :: "int option"

record notification_row =
  nt_id :: string
  nt_type :: string
  nt_category :: string
  nt_status :: string
  nt_userId :: string
  nt_dedupeKey :: string
  nt_ruleVersion :: int
  nt_scheduledFor :: int
  nt_payloadSnapshot :: json

record setting_row =
  st_key :: string
  st_value :: string
  st_isPublic :: bool

record idem_row =
  ir_id :: string
  ir_userId :: string
  ir_clientRequestId :: string
  ir_operation :: string
  ir_targetTicketId :: "string option"
  ir_fingerprint :: string
  ir_resultTicketId :: string
  ir_resultMessageId :: string
  ir_resultCheckoutSessionId :: "string option"
  ir_resultPaymentId :: "string option"

record admin_row =
  ad_id :: string
  ad_telegramId :: int
  ad_isActive :: bool

record ticket_row =
  tk_id :: string
  tk_userId :: string
  tk_status :: SupportTicketStatus
  tk_subject :: "string option"
  tk_createdAt :: int
  tk_updatedAt :: int
  tk_closedAt :: "int option"
  tk_closedByAdminId :: "string option"
  tk_serviceId :: "string option"
  tk_category :: "string option"
  tk_origin :: "string option"

record message_row =
  sm_id :: string
  sm_ticketId :: string
  sm_senderType :: SupportMessageSenderType
  sm_senderUserId :: "string option"
  sm_senderAdminId :: "string option"
  sm_text :: "string option"
  sm_fileId :: "string option"
  sm_createdAt :: int

record intent_row =
  si_id :: string
  si_ticketId :: string
  si_messageId :: string
  si_kind :: string
  si_status :: SupportNotificationStatus
  si_attempts :: int
  si_deliveredCount :: int
  si_safeErrorCode :: "string option"
  si_nextAttemptAt :: "int option"
  si_claimedAt :: "int option"
  si_sentAt :: "int option"
  si_recipientsExpandedAt :: "int option"
  si_createdAt :: int

record recipient_row =
  sr_id :: string
  sr_intentId :: string
  sr_adminId :: string
  sr_status :: SupportRecipientStatus
  sr_attempts :: int
  sr_safeErrorCode :: "string option"
  sr_nextAttemptAt :: "int option"
  sr_claimedAt :: "int option"
  sr_sentAt :: "int option"
  sr_createdAt :: int

record terms_row =
  td_id :: string
  td_version :: "int option"
  td_status :: TermsDocumentStatus

record acceptance_row =
  ta_id :: string
  ta_userId :: string
  ta_termsDocumentId :: string
  ta_termsVersion :: int

record channel_row =
  fc_id :: string
  fc_chatId :: int
  fc_isPrivate :: bool
  fc_isActive :: bool
  fc_sortOrder :: int
  fc_createdAt :: int
  fc_updatedAt :: int
  fc_lastValidatedAt :: "int option"
  fc_lastValidationErrorCode :: "string option"
  fc_healthFailureCount :: int
  fc_healthFailureFirstAt :: "int option"
  fc_healthFailureLastAt :: "int option"
  fc_unhealthyAt :: "int option"

record syslog_row =
  sl_id :: string
  sl_level :: SystemLogLevel
  sl_eventType :: string

record log_topic_row =
  lt_id :: string
  lt_key :: string
  lt_isEnabled :: bool

record log_delivery_row =
  ld_id :: string
  ld_systemLogId :: string
  ld_logTopicId :: "string option"

section \<open>The database\<close>

text \<open>
  \<open>uuids\<close> is the source of the identifiers the database draws for new rows, \<open>drawn\<close> how many have
  been drawn.
\<close>

record db =
  users :: "user_row list"
  checkouts :: "checkout_row list"
  payments :: "payment_row list"
  orders :: "order_row list"
  wallet_txs :: "wallet_tx_row list"
  discounts :: "discount_row list"
  usages :: "usage_row list"
  reservations :: "reservation_row list"
  services :: "service_row list"
  events :: "event_row list"
  categories :: "category_row list"
  panels :: "panel_row list"
  products :: "product_row list"
  lb_states :: "lb_state_row list"
  notifications :: "notification_row list"
  settings :: "setting_row list"
  idem_rows :: "idem_row list"
  admins :: "admin_row list"
  support_tickets :: "ticket_row list"
  support_messages :: "message_row list"
  support_intents :: "intent_row list"
  support_recipients :: "recipient_row list"
  terms_documents :: "terms_row list"
  terms_acceptances :: "acceptance_row list"
  channels :: "channel_row list"
  system_logs :: "syslog_row list"
  log_topics :: "log_topic_row list"
  log_deliveries :: "log_delivery_row list"
  uuids :: "nat \<Rightarrow> string"
  drawn :: nat

definition empty_db :: "(nat \<Rightarrow> string) \<Rightarrow> db" where
  "empty_db g = \<lparr>users = [], checkouts = [], payments = [], orders = [], wallet_txs = [],
     discounts = [], usages = [], reservations = [], services = [], events = [], categories = [],
     panels = [], products = [], lb_states = [], notifications = [], settings = [],
     idem_rows = [], admins = [], support_tickets = [], support_messages = [], support_intents = [],
     support_recipients = [], terms_documents = [], terms_acceptances = [], channels = [], system_logs = [],
     log_topics = [], log_deliveries = [], uuids = g, drawn = 0\<rparr>"

section \<open>Queries on a table\<close>

text \<open>
  \<open>findUnique\<close> and \<open>findFirst\<close> are \<open>find\<close>, \<open>findMany\<close> is \<open>filter\<close>; \<open>updateMany\<close> changes every row
  that satisfies the condition and returns how many there were.
\<close>

definition update_where :: "('r \<Rightarrow> bool) \<Rightarrow> ('r \<Rightarrow> 'r) \<Rightarrow> 'r list \<Rightarrow> 'r list" where
  "update_where P f t = map (\<lambda>r. if P r then f r else r) t"

definition count_where :: "('r \<Rightarrow> bool) \<Rightarrow> 'r list \<Rightarrow> nat" where
  "count_where P t = length (filter P t)"

definition unique_by :: "('r \<Rightarrow> 'k) \<Rightarrow> 'r list \<Rightarrow> bool" where
  "unique_by k t \<longleftrightarrow> distinct (map k t)"

lemma set_update_where: "set (update_where P f t) = (\<lambda>r. if P r then f r else r) ` set t"
  by (simp add: update_where_def)

lemma length_update_where [simp]: "length (update_where P f t) = length t"
  by (simp add: update_where_def)

lemma map_update_where: "(\<And>r. k (f r) = k r) \<Longrightarrow> map k (update_where P f t) = map k t"
  by (simp add: update_where_def)

lemma unique_by_update_where: "(\<And>r. k (f r) = k r) \<Longrightarrow> unique_by k (update_where P f t) = unique_by k t"
  by (simp add: unique_by_def map_update_where)

lemma update_where_none: "\<forall>r \<in> set t. \<not> P r \<Longrightarrow> update_where P f t = t"
  by (induction t) (auto simp: update_where_def)

lemma update_where_append: "update_where P f (s @ t) = update_where P f s @ update_where P f t"
  by (simp add: update_where_def)

lemma find_update_where:
  "(\<And>r. k (f r) = k r) \<Longrightarrow>
   find (\<lambda>r. k r = x) (update_where P f t) =
   map_option (\<lambda>r. if P r then f r else r) (find (\<lambda>r. k r = x) t)"
  by (induction t) (auto simp: update_where_def)

lemma find_append: "find P (s @ t) = (case find P s of None \<Rightarrow> find P t | Some r \<Rightarrow> Some r)"
  by (induction s) auto

lemma find_Some_in: "find P t = Some r \<Longrightarrow> r \<in> set t \<and> P r"
  by (induction t) (auto split: if_splits)

lemma find_None_all: "find P t = None \<longleftrightarrow> (\<forall>r \<in> set t. \<not> P r)"
  by (induction t) auto

lemma find_unique:
  "unique_by k t \<Longrightarrow> r \<in> set t \<Longrightarrow> find (\<lambda>r'. k r' = k r) t = Some r"
  by (induction t) (auto simp: unique_by_def)

lemma unique_by_inj: "unique_by k t \<Longrightarrow> r \<in> set t \<Longrightarrow> s \<in> set t \<Longrightarrow> k r = k s \<Longrightarrow> r = s"
  by (auto simp: unique_by_def distinct_map inj_on_def)

lemma count_where_0: "count_where P t = 0 \<longleftrightarrow> (\<forall>r \<in> set t. \<not> P r)"
  by (auto simp: count_where_def filter_empty_conv)

lemma count_where_append: "count_where P (s @ t) = count_where P s + count_where P t"
  by (simp add: count_where_def)

lemma count_where_single: "count_where P [r] = (if P r then 1 else 0)"
  by (simp add: count_where_def)

lemma count_where_key:
  assumes "unique_by k t"
  shows "count_where (\<lambda>r. k r = x \<and> P r) t =
    (case find (\<lambda>r. k r = x) t of None \<Rightarrow> 0 | Some r \<Rightarrow> if P r then 1 else 0)"
  using assms
proof (induction t)
  case Nil
  then show ?case by (simp add: count_where_def)
next
  case (Cons r t)
  show ?case
  proof (cases "k r = x")
    case True
    with Cons.prems have "\<forall>s \<in> set t. k s \<noteq> x" by (auto simp: unique_by_def image_iff)
    then have "filter (\<lambda>s. k s = x \<and> P s) t = []" by (auto simp: filter_empty_conv)
    with True show ?thesis by (simp add: count_where_def)
  next
    case False
    with Cons show ?thesis by (simp add: count_where_def unique_by_def)
  qed
qed

lemma count_where_unique: "unique_by k t \<Longrightarrow> count_where (\<lambda>r. k r = x \<and> P r) t \<le> 1"
  by (simp add: count_where_key split: option.split)

lemma count_where_mono: "(\<And>r. P r \<Longrightarrow> Q r) \<Longrightarrow> count_where P t \<le> count_where Q t"
  by (induction t) (auto simp: count_where_def)

lemmas table_basics [table_simps] =
  set_update_where find_append count_where_append count_where_single update_where_append

section \<open>Transactions\<close>

text \<open>
  What a statement or the body of a transaction can throw: an exception of the application, the
  client's P2002 (a unique constraint), or any other fault of the database (a foreign key, a value
  out of range, a missing row of \<open>findUniqueOrThrow\<close> or \<open>update\<close>).
\<close>

datatype 'e thrown = Thrown 'e | UniqueViolation | DbFault

type_synonym ('e, 'a) tx = "db \<Rightarrow> 'e thrown + ('a \<times> db)"

definition tx_return :: "'a \<Rightarrow> ('e, 'a) tx" where
  "tx_return a = (\<lambda>s. Inr (a, s))"

definition tx_fail :: "'e thrown \<Rightarrow> ('e, 'a) tx" where
  "tx_fail e = (\<lambda>s. Inl e)"

definition tx_bind :: "('e, 'a) tx \<Rightarrow> ('a \<Rightarrow> ('e, 'b) tx) \<Rightarrow> ('e, 'b) tx" where
  "tx_bind m f = (\<lambda>s. case m s of Inl e \<Rightarrow> Inl e | Inr (a, s') \<Rightarrow> f a s')"

definition tx_then :: "('e, 'a) tx \<Rightarrow> ('e, 'b) tx \<Rightarrow> ('e, 'b) tx" where
  "tx_then m n = tx_bind m (\<lambda>_. n)"

definition tx_require :: "bool \<Rightarrow> 'e thrown \<Rightarrow> ('e, unit) tx" where
  "tx_require b e = (if b then tx_return () else tx_fail e)"

definition tx_read :: "(db \<Rightarrow> 'a) \<Rightarrow> ('e, 'a) tx" where
  "tx_read f = (\<lambda>s. Inr (f s, s))"

definition tx_do :: "(db \<Rightarrow> 'a \<times> db) \<Rightarrow> ('e, 'a) tx" where
  "tx_do f = (\<lambda>s. Inr (f s))"

definition tx_write :: "(db \<Rightarrow> db) \<Rightarrow> ('e, unit) tx" where
  "tx_write f = (\<lambda>s. Inr ((), f s))"

definition tx_some :: "'a option \<Rightarrow> 'e thrown \<Rightarrow> ('e, 'a) tx" where
  "tx_some x e = (case x of None \<Rightarrow> tx_fail e | Some a \<Rightarrow> tx_return a)"

text \<open>\<open>$transaction\<close>: commit, or roll every change back.\<close>

definition run_transaction :: "('e, 'a) tx \<Rightarrow> db \<Rightarrow> ('e thrown + 'a) \<times> db" where
  "run_transaction m s = (case m s of Inl e \<Rightarrow> (Inl e, s) | Inr (a, s') \<Rightarrow> (Inr a, s'))"

lemmas tx_defs = tx_return_def tx_fail_def tx_bind_def tx_then_def tx_require_def tx_read_def
  tx_do_def tx_write_def tx_some_def

text \<open>The postcondition calculus: \<open>post m s Q\<close> says that if the body succeeds, \<open>Q\<close> holds.\<close>

definition post :: "('e, 'a) tx \<Rightarrow> db \<Rightarrow> ('a \<Rightarrow> db \<Rightarrow> bool) \<Rightarrow> bool" where
  "post m s Q \<longleftrightarrow> (case m s of Inl _ \<Rightarrow> True | Inr (a, s') \<Rightarrow> Q a s')"

lemma post_return [tx_rules]: "post (tx_return a) s Q = Q a s"
  by (simp add: post_def tx_return_def)

lemma post_fail [tx_rules]: "post (tx_fail e) s Q"
  by (simp add: post_def tx_fail_def)

lemma post_bind [tx_rules]: "post (tx_bind m f) s Q = post m s (\<lambda>a s'. post (f a) s' Q)"
  by (auto simp: post_def tx_bind_def split: sum.splits prod.splits)

lemma post_then [tx_rules]: "post (tx_then m n) s Q = post m s (\<lambda>_ s'. post n s' Q)"
  by (simp add: tx_then_def post_bind)

lemma post_require [tx_rules]: "post (tx_require b e) s Q = (b \<longrightarrow> Q () s)"
  by (auto simp: tx_require_def post_return post_fail)

lemma post_read [tx_rules]: "post (tx_read f) s Q = Q (f s) s"
  by (simp add: post_def tx_read_def)

lemma post_do [tx_rules]: "post (tx_do f) s Q = Q (fst (f s)) (snd (f s))"
  by (simp add: post_def tx_do_def split: prod.splits)

lemma post_write [tx_rules]: "post (tx_write f) s Q = Q () (f s)"
  by (simp add: post_def tx_write_def)

lemma post_some [tx_rules]: "post (tx_some x e) s Q = (\<forall>a. x = Some a \<longrightarrow> Q a s)"
  by (auto simp: tx_some_def post_return post_fail split: option.splits)

lemma post_if [tx_rules]:
  "post (if b then m else n) s Q = ((b \<longrightarrow> post m s Q) \<and> (\<not> b \<longrightarrow> post n s Q))"
  by simp

lemma post_mono: "post m s Q \<Longrightarrow> (\<And>a s'. Q a s' \<Longrightarrow> R a s') \<Longrightarrow> post m s R"
  by (auto simp: post_def split: sum.splits prod.splits)

lemma post_conj: "post m s Q \<Longrightarrow> post m s R \<Longrightarrow> post m s (\<lambda>a s'. Q a s' \<and> R a s')"
  by (auto simp: post_def split: sum.splits prod.splits)

lemma post_Inr: "post m s Q \<Longrightarrow> m s = Inr (a, s') \<Longrightarrow> Q a s'"
  by (simp add: post_def)

lemma run_transaction_post:
  "post m s Q \<Longrightarrow> run_transaction m s = (Inr a, s') \<Longrightarrow> Q a s'"
  by (auto simp: post_def run_transaction_def split: sum.splits prod.splits)

lemma run_transaction_rollback: "run_transaction m s = (Inl e, s') \<Longrightarrow> s' = s"
  by (auto simp: run_transaction_def split: sum.splits prod.splits)

lemma run_transaction_invariant:
  "post m s (\<lambda>_. I) \<Longrightarrow> I s \<Longrightarrow> I (snd (run_transaction m s))"
  by (auto simp: post_def run_transaction_def split: sum.splits prod.splits)

text \<open>Success of a combinator, read backwards.\<close>

lemma tx_return_Inr [tx_success]: "tx_return a s = Inr x \<longleftrightarrow> x = (a, s)"
  by (auto simp: tx_return_def)

lemma tx_fail_Inr [tx_success]: "\<not> tx_fail e s = Inr x"
  by (simp add: tx_fail_def)

lemma tx_bind_Inr [tx_success]:
  "tx_bind m f s = Inr x \<longleftrightarrow> (\<exists>a s1. m s = Inr (a, s1) \<and> f a s1 = Inr x)"
  by (auto simp: tx_bind_def split: sum.splits prod.splits)

lemma tx_then_Inr [tx_success]:
  "tx_then m n s = Inr x \<longleftrightarrow> (\<exists>a s1. m s = Inr (a, s1) \<and> n s1 = Inr x)"
  by (simp add: tx_then_def tx_bind_Inr)

lemma tx_require_Inr [tx_success]: "tx_require b e s = Inr x \<longleftrightarrow> b \<and> x = ((), s)"
  by (auto simp: tx_require_def tx_return_def tx_fail_def)

lemma tx_read_Inr [tx_success]: "tx_read f s = Inr x \<longleftrightarrow> x = (f s, s)"
  by (auto simp: tx_read_def)

lemma tx_do_Inr [tx_success]: "tx_do f s = Inr x \<longleftrightarrow> x = f s"
  by (auto simp: tx_do_def)

lemma tx_write_Inr [tx_success]: "tx_write f s = Inr x \<longleftrightarrow> x = ((), f s)"
  by (auto simp: tx_write_def)

lemma tx_some_Inr [tx_success]: "tx_some y e s = Inr x \<longleftrightarrow> (\<exists>a. y = Some a \<and> x = (a, s))"
  by (auto simp: tx_some_def tx_return_def tx_fail_def split: option.splits)

lemma tx_if_Inr: "(if b then m else n) s = Inr x \<longleftrightarrow> (if b then m s = Inr x else n s = Inr x)"
  by simp

section \<open>Inserts\<close>

text \<open>Drawing the identifier of a new row (\<open>@default(uuid())\<close>).\<close>

definition draw_id :: "db \<Rightarrow> string \<times> db" where
  "draw_id s = (uuids s (drawn s), s\<lparr>drawn := Suc (drawn s)\<rparr>)"

definition fk :: "('r \<Rightarrow> string) \<Rightarrow> 'r list \<Rightarrow> string option \<Rightarrow> bool" where
  "fk k t x = (case x of None \<Rightarrow> True | Some i \<Rightarrow> \<exists>r \<in> set t. k r = i)"

definition clash :: "('r \<Rightarrow> string option) \<Rightarrow> 'r list \<Rightarrow> string option \<Rightarrow> bool" where
  "clash k t x = (case x of None \<Rightarrow> False | Some i \<Rightarrow> \<exists>r \<in> set t. k r = Some i)"

text \<open>The range of a valid \<open>Date\<close>; the client rejects any other.\<close>

definition js_date :: "int \<Rightarrow> bool" where
  "js_date t \<longleftrightarrow> \<bar>t\<bar> \<le> 8640000000000000"

definition create_checkout :: "checkout_row \<Rightarrow> ('e, checkout_row) tx" where
  "create_checkout r =
     (\<lambda>s. if \<not> (int4 (co_originalPriceToman r) \<and> int4 (co_discountAmountToman r)
                \<and> int4 (co_finalPriceToman r) \<and> js_date (co_expiresAt r)) then Inl DbFault
          else if \<not> (fk u_id (users s) (Some (co_userId r)) \<and> fk pr_id (products s) (co_productId r)
                \<and> fk sv_id (services s) (co_serviceId r) \<and> fk dc_id (discounts s) (co_discountCodeId r))
            then Inl DbFault
          else Inr (r, s\<lparr>checkouts := checkouts s @ [r]\<rparr>))"

definition create_payment :: "payment_row \<Rightarrow> ('e, payment_row) tx" where
  "create_payment r =
     (\<lambda>s. if \<not> (int4 (pay_amountToman r) \<and> int4 (pay_payableAmountToman r)) then Inl DbFault
          else if \<not> (fk u_id (users s) (Some (pay_userId r)) \<and> fk o_id (orders s) (pay_orderId r)
                \<and> fk co_id (checkouts s) (pay_checkoutSessionId r)) then Inl DbFault
          else if clash pay_idempotencyKey (payments s) (pay_idempotencyKey r) then Inl UniqueViolation
          else Inr (r, s\<lparr>payments := payments s @ [r]\<rparr>))"

definition create_order :: "order_row \<Rightarrow> ('e, order_row) tx" where
  "create_order r =
     (\<lambda>s. if \<not> (int4 (o_originalPriceToman r) \<and> int4 (o_discountAmountToman r)
                \<and> int4 (o_finalPriceToman r) \<and> int4_opt (o_productPriceSnapshot r)
                \<and> int4_opt (o_durationDaysSnapshot r) \<and> int4_opt (o_volumeGbSnapshot r)) then Inl DbFault
          else if \<not> (fk u_id (users s) (Some (o_userId r)) \<and> fk pr_id (products s) (o_productId r)
                \<and> fk sv_id (services s) (o_serviceId r) \<and> fk dc_id (discounts s) (o_discountCodeId r)
                \<and> fk co_id (checkouts s) (o_checkoutSessionId r)
                \<and> fk pay_id (payments s) (o_paymentId r)) then Inl DbFault
          else if clash o_checkoutSessionId (orders s) (o_checkoutSessionId r) then Inl UniqueViolation
          else Inr (r, s\<lparr>orders := orders s @ [r]\<rparr>))"

definition create_wallet_tx :: "wallet_tx_row \<Rightarrow> ('e, wallet_tx_row) tx" where
  "create_wallet_tx r =
     (\<lambda>s. if \<not> (int4 (wt_amountToman r) \<and> int4 (wt_balanceBeforeToman r)
                \<and> int4 (wt_balanceAfterToman r)) then Inl DbFault
          else if \<not> (fk u_id (users s) (Some (wt_userId r)) \<and> fk o_id (orders s) (wt_relatedOrderId r)
                \<and> fk pay_id (payments s) (wt_relatedPaymentId r)) then Inl DbFault
          else Inr (r, s\<lparr>wallet_txs := wallet_txs s @ [r]\<rparr>))"

definition create_usage :: "usage_row \<Rightarrow> ('e, usage_row) tx" where
  "create_usage r =
     (\<lambda>s. if \<not> int4 (du_amountToman r) then Inl DbFault
          else if clash du_checkoutSessionId (usages s) (du_checkoutSessionId r) then Inl UniqueViolation
          else Inr (r, s\<lparr>usages := usages s @ [r]\<rparr>))"

definition create_reservation :: "reservation_row \<Rightarrow> ('e, reservation_row) tx" where
  "create_reservation r =
     (\<lambda>s. if \<not> (fk pn_id (panels s) (Some (rv_panelId r)) \<and> fk u_id (users s) (Some (rv_userId r)))
            then Inl DbFault
          else if clash rv_activeUsernameKey (reservations s) (rv_activeUsernameKey r)
            then Inl UniqueViolation
          else Inr (r, s\<lparr>reservations := reservations s @ [r]\<rparr>))"

text \<open>The range of a BIGINT column.\<close>

definition int8 :: "int \<Rightarrow> bool" where
  "int8 x \<longleftrightarrow> - 9223372036854775808 \<le> x \<and> x \<le> 9223372036854775807"

definition service_in_range :: "service_row \<Rightarrow> bool" where
  "service_in_range r \<longleftrightarrow>
     int4 (sv_durationDays r) \<and> int8 (sv_volumeBytes r) \<and> int8 (sv_usedBytes r)
     \<and> int8 (sv_remainingBytes r) \<and> js_date (sv_startsAt r)
     \<and> (case sv_expiresAt r of None \<Rightarrow> True | Some t \<Rightarrow> js_date t)"

definition create_service :: "service_row \<Rightarrow> ('e, service_row) tx" where
  "create_service r =
     (\<lambda>s. if \<not> service_in_range r then Inl DbFault
          else if \<not> (fk u_id (users s) (Some (sv_userId r)) \<and> fk o_id (orders s) (sv_orderId r)
                \<and> fk pn_id (panels s) (Some (sv_panelId r)) \<and> fk pr_id (products s) (sv_productId r))
            then Inl DbFault
          else if \<exists>x \<in> set (services s). sv_username x = sv_username r then Inl UniqueViolation
          else Inr (r, s\<lparr>services := services s @ [r]\<rparr>))"

definition create_event :: "event_row \<Rightarrow> ('e, event_row) tx" where
  "create_event r =
     (\<lambda>s. if \<not> (fk sv_id (services s) (Some (ev_serviceId r)) \<and> fk u_id (users s) (Some (ev_userId r))
                \<and> fk pn_id (panels s) (Some (ev_panelId r))) then Inl DbFault
          else Inr (r, s\<lparr>events := events s @ [r]\<rparr>))"

definition create_idem :: "idem_row \<Rightarrow> ('e, idem_row) tx" where
  "create_idem r =
     (\<lambda>s. if \<not> fk u_id (users s) (Some (ir_userId r)) then Inl DbFault
          else if \<exists>x \<in> set (idem_rows s). ir_userId x = ir_userId r
              \<and> ir_clientRequestId x = ir_clientRequestId r then Inl UniqueViolation
          else Inr (r, s\<lparr>idem_rows := idem_rows s @ [r]\<rparr>))"

definition create_ticket :: "ticket_row \<Rightarrow> ('e, ticket_row) tx" where
  "create_ticket r =
     (\<lambda>s. if \<not> (fk u_id (users s) (Some (tk_userId r)) \<and> fk sv_id (services s) (tk_serviceId r)
                \<and> fk ad_id (admins s) (tk_closedByAdminId r)) then Inl DbFault
          else Inr (r, s\<lparr>support_tickets := support_tickets s @ [r]\<rparr>))"

definition create_message :: "message_row \<Rightarrow> ('e, message_row) tx" where
  "create_message r =
     (\<lambda>s. if \<not> (fk tk_id (support_tickets s) (Some (sm_ticketId r)) \<and> fk u_id (users s) (sm_senderUserId r)
                \<and> fk ad_id (admins s) (sm_senderAdminId r)) then Inl DbFault
          else Inr (r, s\<lparr>support_messages := support_messages s @ [r]\<rparr>))"

definition create_intent :: "intent_row \<Rightarrow> ('e, intent_row) tx" where
  "create_intent r =
     (\<lambda>s. if \<not> (fk tk_id (support_tickets s) (Some (si_ticketId r))
                \<and> fk sm_id (support_messages s) (Some (si_messageId r))) then Inl DbFault
          else if \<exists>x \<in> set (support_intents s). si_messageId x = si_messageId r \<and> si_kind x = si_kind r
            then Inl UniqueViolation
          else Inr (r, s\<lparr>support_intents := support_intents s @ [r]\<rparr>))"

lemmas create_defs = create_checkout_def create_payment_def create_order_def create_wallet_tx_def
  create_usage_def create_reservation_def create_service_def create_event_def create_idem_def
  create_ticket_def create_message_def create_intent_def

lemma post_create_checkout [tx_rules]:
  "post (create_checkout r) s Q =
     (int4 (co_originalPriceToman r) \<and> int4 (co_discountAmountToman r) \<and> int4 (co_finalPriceToman r)
      \<and> js_date (co_expiresAt r) \<and> fk u_id (users s) (Some (co_userId r)) \<and> fk pr_id (products s) (co_productId r)
      \<and> fk sv_id (services s) (co_serviceId r) \<and> fk dc_id (discounts s) (co_discountCodeId r)
      \<longrightarrow> Q r (s\<lparr>checkouts := checkouts s @ [r]\<rparr>))"
  by (auto simp: post_def create_checkout_def)

lemma post_create_payment [tx_rules]:
  "post (create_payment r) s Q =
     (int4 (pay_amountToman r) \<and> int4 (pay_payableAmountToman r)
      \<and> fk u_id (users s) (Some (pay_userId r)) \<and> fk o_id (orders s) (pay_orderId r)
      \<and> fk co_id (checkouts s) (pay_checkoutSessionId r)
      \<and> \<not> clash pay_idempotencyKey (payments s) (pay_idempotencyKey r)
      \<longrightarrow> Q r (s\<lparr>payments := payments s @ [r]\<rparr>))"
  by (auto simp: post_def create_payment_def)

lemma post_create_order [tx_rules]:
  "post (create_order r) s Q =
     (int4 (o_originalPriceToman r) \<and> int4 (o_discountAmountToman r) \<and> int4 (o_finalPriceToman r)
      \<and> int4_opt (o_productPriceSnapshot r) \<and> int4_opt (o_durationDaysSnapshot r)
      \<and> int4_opt (o_volumeGbSnapshot r) \<and> fk u_id (users s) (Some (o_userId r))
      \<and> fk pr_id (products s) (o_productId r) \<and> fk sv_id (services s) (o_serviceId r)
      \<and> fk dc_id (discounts s) (o_discountCodeId r)
      \<and> fk co_id (checkouts s) (o_checkoutSessionId r) \<and> fk pay_id (payments s) (o_paymentId r)
      \<and> \<not> clash o_checkoutSessionId (orders s) (o_checkoutSessionId r)
      \<longrightarrow> Q r (s\<lparr>orders := orders s @ [r]\<rparr>))"
  by (auto simp: post_def create_order_def)

lemma post_create_wallet_tx [tx_rules]:
  "post (create_wallet_tx r) s Q =
     (int4 (wt_amountToman r) \<and> int4 (wt_balanceBeforeToman r) \<and> int4 (wt_balanceAfterToman r)
      \<and> fk u_id (users s) (Some (wt_userId r)) \<and> fk o_id (orders s) (wt_relatedOrderId r)
      \<and> fk pay_id (payments s) (wt_relatedPaymentId r)
      \<longrightarrow> Q r (s\<lparr>wallet_txs := wallet_txs s @ [r]\<rparr>))"
  by (auto simp: post_def create_wallet_tx_def)

lemma post_create_usage [tx_rules]:
  "post (create_usage r) s Q =
     (int4 (du_amountToman r) \<and> \<not> clash du_checkoutSessionId (usages s) (du_checkoutSessionId r)
      \<longrightarrow> Q r (s\<lparr>usages := usages s @ [r]\<rparr>))"
  by (auto simp: post_def create_usage_def)

lemma post_create_reservation [tx_rules]:
  "post (create_reservation r) s Q =
     (fk pn_id (panels s) (Some (rv_panelId r)) \<and> fk u_id (users s) (Some (rv_userId r))
      \<and> \<not> clash rv_activeUsernameKey (reservations s) (rv_activeUsernameKey r)
      \<longrightarrow> Q r (s\<lparr>reservations := reservations s @ [r]\<rparr>))"
  by (auto simp: post_def create_reservation_def)

lemma post_create_service [tx_rules]:
  "post (create_service r) s Q =
     (service_in_range r \<and> fk u_id (users s) (Some (sv_userId r)) \<and> fk o_id (orders s) (sv_orderId r)
      \<and> fk pn_id (panels s) (Some (sv_panelId r)) \<and> fk pr_id (products s) (sv_productId r)
      \<and> (\<forall>x \<in> set (services s). sv_username x \<noteq> sv_username r)
      \<longrightarrow> Q r (s\<lparr>services := services s @ [r]\<rparr>))"
  by (auto simp: post_def create_service_def)

lemma post_create_event [tx_rules]:
  "post (create_event r) s Q =
     (fk sv_id (services s) (Some (ev_serviceId r)) \<and> fk u_id (users s) (Some (ev_userId r))
      \<and> fk pn_id (panels s) (Some (ev_panelId r)) \<longrightarrow> Q r (s\<lparr>events := events s @ [r]\<rparr>))"
  by (auto simp: post_def create_event_def)

lemma post_create_idem [tx_rules]:
  "post (create_idem r) s Q =
     (fk u_id (users s) (Some (ir_userId r))
      \<and> \<not> (\<exists>x \<in> set (idem_rows s). ir_userId x = ir_userId r \<and> ir_clientRequestId x = ir_clientRequestId r)
      \<longrightarrow> Q r (s\<lparr>idem_rows := idem_rows s @ [r]\<rparr>))"
  by (auto simp: post_def create_idem_def)

lemma post_create_ticket [tx_rules]:
  "post (create_ticket r) s Q =
     (fk u_id (users s) (Some (tk_userId r)) \<and> fk sv_id (services s) (tk_serviceId r)
      \<and> fk ad_id (admins s) (tk_closedByAdminId r)
      \<longrightarrow> Q r (s\<lparr>support_tickets := support_tickets s @ [r]\<rparr>))"
  by (auto simp: post_def create_ticket_def)

lemma post_create_message [tx_rules]:
  "post (create_message r) s Q =
     (fk tk_id (support_tickets s) (Some (sm_ticketId r)) \<and> fk u_id (users s) (sm_senderUserId r)
      \<and> fk ad_id (admins s) (sm_senderAdminId r)
      \<longrightarrow> Q r (s\<lparr>support_messages := support_messages s @ [r]\<rparr>))"
  by (auto simp: post_def create_message_def)

lemma post_create_intent [tx_rules]:
  "post (create_intent r) s Q =
     (fk tk_id (support_tickets s) (Some (si_ticketId r)) \<and> fk sm_id (support_messages s) (Some (si_messageId r))
      \<and> \<not> (\<exists>x \<in> set (support_intents s). si_messageId x = si_messageId r \<and> si_kind x = si_kind r)
      \<longrightarrow> Q r (s\<lparr>support_intents := support_intents s @ [r]\<rparr>))"
  by (auto simp: post_def create_intent_def)

lemma fst_draw_id [simp]: "fst (draw_id s) = uuids s (drawn s)"
  by (simp add: draw_id_def)

lemma snd_draw_id [simp]: "snd (draw_id s) = s\<lparr>drawn := Suc (drawn s)\<rparr>"
  by (simp add: draw_id_def)

text \<open>
  The identifiers still to be drawn are not in a table; with an injective source a drawn one stays
  unique.
\<close>

definition fresh_for :: "('r \<Rightarrow> string) \<Rightarrow> 'r list \<Rightarrow> db \<Rightarrow> bool" where
  "fresh_for k t s \<longleftrightarrow> (\<forall>n. drawn s \<le> n \<longrightarrow> uuids s n \<notin> k ` set t)"

lemma fresh_append:
  assumes "inj (uuids s)" and "fresh_for k t s" and "unique_by k t"
    and "uuids s' = uuids s" and "drawn s' = Suc (drawn s)" and "k r = uuids s (drawn s)"
  shows "fresh_for k (t @ [r]) s' \<and> unique_by k (t @ [r])"
  using assms by (fastforce simp: fresh_for_def unique_by_def dest: injD)

lemma fresh_keep:
  assumes "fresh_for k t s" and "uuids s' = uuids s" and "drawn s \<le> drawn s'"
    and "k ` set t' \<subseteq> k ` set t"
  shows "fresh_for k t' s'"
  using assms by (auto simp: fresh_for_def) (metis imageI image_subset_iff order_trans)

text \<open>The value of a setting row (\<open>Setting.key\<close> is unique).\<close>

definition setting_value :: "string \<Rightarrow> db \<Rightarrow> string option" where
  "setting_value k s = map_option st_value (find (\<lambda>r. st_key r = k) (settings s))"

end
