(* ===== verification/Samples.thy ===== *)
theory Samples
  imports Database
begin

text \<open>
  One plain row of every table. The concrete databases on which the theorems are applied update
  the few columns that matter to them.
\<close>

definition sample_user :: user_row where
  "sample_user = \<lparr>u_id = '''', u_status = UserStatus_ACTIVE, u_group = UserGroup_F, u_balanceToman = 0,
     u_totalSpentToman = 0, u_totalDiscountToman = 0, u_totalRefundedToman = 0,
     u_ordersCount = 0, u_paidOrdersCount = 0, u_totalPurchaseAmountToman = 0,
     u_lowBalanceNotificationsEnabled = True, u_paymentNotificationsEnabled = True,
     u_telegramId = 0, u_forceJoinBypass = False\<rparr>"

definition sample_checkout :: checkout_row where
  "sample_checkout = \<lparr>co_id = '''', co_userId = '''', co_purpose = CheckoutPurpose_ORDER_PAYMENT,
     co_productId = None, co_serviceId = None, co_orderType = None, co_productSnapshot = None,
     co_otherProductFulfillmentSnapshot = None, co_originalPriceToman = 0,
     co_discountAmountToman = 0, co_finalPriceToman = 0, co_discountCodeId = None,
     co_status = CheckoutStatus_PENDING, co_settledByPaymentId = None, co_expiresAt = 0,
     co_paidAt = None\<rparr>"

definition sample_payment :: payment_row where
  "sample_payment = \<lparr>pay_id = '''', pay_userId = '''', pay_orderId = None, pay_checkoutSessionId = None,
     pay_purpose = PaymentPurpose_PAY_WITH_WALLET, pay_status = PaymentStatus_APPROVED,
     pay_amountToman = 0, pay_payableAmountToman = 0, pay_paidAt = None,
     pay_callbackPayload = None, pay_idempotencyKey = None,
     pay_settlementStatus = SettlementStatus_UNSETTLED, pay_settledAt = None\<rparr>"

definition sample_order :: order_row where
  "sample_order = \<lparr>o_id = '''', o_userId = '''', o_checkoutSessionId = None,
     o_type = OrderType_SERVICE_PURCHASE, o_status = OrderStatus_PAID, o_productId = None,
     o_serviceId = None, o_paymentId = None, o_originalPriceToman = 0,
     o_discountAmountToman = 0, o_finalPriceToman = 0, o_discountCodeId = None,
     o_productNameSnapshot = None, o_productDescriptionSnapshot = None,
     o_productPriceSnapshot = None, o_durationDaysSnapshot = None, o_volumeGbSnapshot = None,
     o_inboundIdsSnapshot = None, o_panelNameSnapshot = None, o_locationSnapshot = None,
     o_categorySnapshot = None, o_serviceNoteSnapshot = None, o_failureReason = None,
     o_paidAt = None, o_completedAt = None, o_updatedAt = 0\<rparr>"

definition sample_wallet_tx :: wallet_tx_row where
  "sample_wallet_tx = \<lparr>wt_id = '''', wt_userId = '''', wt_amountToman = 0, wt_type = WT_SPEND,
     wt_source = WS_ORDER, wt_reason = None, wt_relatedOrderId = None,
     wt_relatedPaymentId = None, wt_balanceBeforeToman = 0, wt_balanceAfterToman = 0, wt_createdAt = 0\<rparr>"

definition sample_discount :: discount_row where
  "sample_discount = \<lparr>dc_id = '''', dc_code = '''', dc_type = DiscountType_PERCENT, dc_value = 0,
     dc_totalUsageLimit = None, dc_totalUsedCount = 0, dc_perUserUsageLimit = None,
     dc_allowedGroups = None, dc_appliesTo = AppliesTo_BOTH, dc_startsAt = None,
     dc_expiresAt = None, dc_isActive = True\<rparr>"

definition sample_usage :: usage_row where
  "sample_usage = \<lparr>du_id = '''', du_discountCodeId = '''', du_userId = '''', du_orderId = None,
     du_checkoutSessionId = None, du_amountToman = 0\<rparr>"

definition sample_reservation :: reservation_row where
  "sample_reservation = \<lparr>rv_id = '''', rv_panelId = '''', rv_userId = '''', rv_normalizedUsername = '''',
     rv_activeUsernameKey = None, rv_mode = UsernameMode_CUSTOM, rv_status = Reservation_HELD,
     rv_draftNonce = None, rv_checkoutSessionId = None, rv_orderId = None,
     rv_serviceId = None, rv_expiresAt = None, rv_boundAt = None, rv_consumedAt = None,
     rv_releasedAt = None\<rparr>"

definition sample_service :: service_row where
  "sample_service = \<lparr>sv_id = '''', sv_userId = '''', sv_orderId = None, sv_panelId = '''',
     sv_productId = None, sv_panelType = PanelType_MARZBAN, sv_username = '''',
     sv_note = None, sv_userNote = None, sv_status = ServiceStatus_ACTIVE,
     sv_source = ServiceSource_PAID, sv_serviceLocation = ServiceLocation_MULTI_LOCATION,
     sv_convertedToPaidAt = None, sv_firstPaidOrderId = None, sv_productNameSnapshot = None,
     sv_panelNameSnapshot = None, sv_volumeBytes = 0, sv_usedBytes = 0, sv_remainingBytes = 0,
     sv_durationDays = 0, sv_startsAt = 0, sv_expiresAt = None, sv_subscriptionUrl = None,
     sv_subscriptionToken = None, sv_configLinks = None, sv_remoteClientId = None,
     sv_remoteInboundIds = None, sv_remoteMetadata = None, sv_createdAt = 0, sv_deletedAt = None\<rparr>"

definition sample_event :: event_row where
  "sample_event = \<lparr>ev_id = '''', ev_serviceId = '''', ev_userId = '''', ev_panelId = '''',
     ev_eventType = '''', ev_metadata = []\<rparr>"

definition sample_category :: category_row where
  "sample_category = \<lparr>cat_id = '''', cat_name = '''', cat_isActive = True, cat_displayOrder = 0,
     cat_createdAt = 0\<rparr>"

definition sample_panel :: panel_row where
  "sample_panel = \<lparr>pn_id = '''', pn_type = PanelType_MARZBAN, pn_name = '''', pn_baseUrl = '''', pn_username = None,
     pn_passwordEncrypted = None, pn_tokenEncrypted = None, pn_status = PanelStatus_ACTIVE,
     pn_isVisible = True, pn_displayOrder = 0, pn_createdAt = 0, pn_templateUsername = None,
     pn_subscriptionDomain = None, pn_resetStrategy = None, pn_usernamePatternType = '''',
     pn_usernameCustomText = None, pn_usernameRandomLength = None,
     pn_representativeUsernamePrefix = None, pn_inboundIds = None, pn_protocolSettings = None,
     pn_authMode = None, pn_apiVariant = None, pn_provisioningReady = None\<rparr>"

definition sample_product :: product_row where
  "sample_product = \<lparr>pr_id = '''', pr_type = ProductType_SERVICE_PRODUCT, pr_categoryId = '''',
     pr_panelId = None, pr_name = '''', pr_displayGroups = None, pr_serviceLocation = None,
     pr_volumeGb = None, pr_durationDays = None, pr_priceToman = 0,
     pr_invoiceDescription = None, pr_isActive = True, pr_displayOrder = 0, pr_createdAt = 0,
     pr_trafficResetCycle = None, pr_allLocations = True, pr_inboundIds = None,
     pr_requiredUserInfoEnabled = True, pr_requiredUserInfoPromptText = None,
     pr_deliveryType = None\<rparr>"

definition sample_lb_state :: lb_state_row where
  "sample_lb_state = \<lparr>lb_id = '''', lb_userId = '''', lb_state = ARMED, lb_alertCycle = 0,
     lb_lastObservedBalanceToman = 0, lb_lastThresholdToman = 0,
     lb_lastRearmBoundaryToman = 0, lb_lastConfigVersion = 0, lb_alertedAt = None,
     lb_rearmedAt = None\<rparr>"

definition sample_notification :: notification_row where
  "sample_notification = \<lparr>nt_id = '''', nt_type = '''', nt_category = '''', nt_status = '''', nt_userId = '''',
     nt_dedupeKey = '''', nt_ruleVersion = 0, nt_scheduledFor = 0, nt_payloadSnapshot = JNull\<rparr>"

definition sample_setting :: setting_row where
  "sample_setting = \<lparr>st_key = '''', st_value = '''', st_isPublic = True\<rparr>"

definition sample_idem :: idem_row where
  "sample_idem = \<lparr>ir_id = '''', ir_userId = '''', ir_clientRequestId = '''', ir_operation = '''',
     ir_targetTicketId = None, ir_fingerprint = '''', ir_resultTicketId = '''', ir_resultMessageId = '''',
     ir_resultCheckoutSessionId = None, ir_resultPaymentId = None\<rparr>"

definition sample_admin :: admin_row where
  "sample_admin = \<lparr>ad_id = '''', ad_telegramId = 0, ad_isActive = True\<rparr>"

definition sample_ticket :: ticket_row where
  "sample_ticket = \<lparr>tk_id = '''', tk_userId = '''', tk_status = Ticket_OPEN, tk_subject = None, tk_createdAt = 0,
     tk_updatedAt = 0, tk_closedAt = None, tk_closedByAdminId = None, tk_serviceId = None, tk_category = None,
     tk_origin = None\<rparr>"

definition sample_message :: message_row where
  "sample_message = \<lparr>sm_id = '''', sm_ticketId = '''', sm_senderType = Sender_USER, sm_senderUserId = None,
     sm_senderAdminId = None, sm_text = None, sm_fileId = None, sm_createdAt = 0\<rparr>"

definition sample_intent :: intent_row where
  "sample_intent = \<lparr>si_id = '''', si_ticketId = '''', si_messageId = '''', si_kind = '''', si_status = Intent_PENDING,
     si_attempts = 0, si_deliveredCount = 0, si_safeErrorCode = None, si_nextAttemptAt = None, si_claimedAt = None,
     si_sentAt = None, si_recipientsExpandedAt = None, si_createdAt = 0\<rparr>"

definition sample_recipient :: recipient_row where
  "sample_recipient = \<lparr>sr_id = '''', sr_intentId = '''', sr_adminId = '''', sr_status = Recipient_PENDING,
     sr_attempts = 0, sr_safeErrorCode = None, sr_nextAttemptAt = None, sr_claimedAt = None, sr_sentAt = None,
     sr_createdAt = 0\<rparr>"

definition sample_terms :: terms_row where
  "sample_terms = \<lparr>td_id = '''', td_version = Some 1, td_status = Terms_PUBLISHED\<rparr>"

definition sample_acceptance :: acceptance_row where
  "sample_acceptance = \<lparr>ta_id = '''', ta_userId = '''', ta_termsDocumentId = '''', ta_termsVersion = 1\<rparr>"

definition sample_channel :: channel_row where
  "sample_channel = \<lparr>fc_id = '''', fc_chatId = 0, fc_isPrivate = False, fc_isActive = True, fc_sortOrder = 0,
     fc_createdAt = 0, fc_updatedAt = 0, fc_lastValidatedAt = None, fc_lastValidationErrorCode = None,
     fc_healthFailureCount = 0, fc_healthFailureFirstAt = None, fc_healthFailureLastAt = None,
     fc_unhealthyAt = None\<rparr>"

lemmas sample_defs =
  sample_terms_def
  sample_acceptance_def
  sample_channel_def
  sample_admin_def
  sample_ticket_def
  sample_message_def
  sample_intent_def
  sample_recipient_def
  sample_idem_def
  sample_user_def
  sample_checkout_def
  sample_payment_def
  sample_order_def
  sample_wallet_tx_def
  sample_discount_def
  sample_usage_def
  sample_reservation_def
  sample_service_def
  sample_event_def
  sample_category_def
  sample_panel_def
  sample_product_def
  sample_lb_state_def
  sample_notification_def
  sample_setting_def
  empty_db_def

end
