(* ===== verification/Contract.thy ===== *)
theory Contract
  imports Samples
begin

text \<open>
  The commerce contract (packages/service-renewal/src/contract.ts): operations, result codes and
  their closed sets, the rollout switches (rollout.ts), and the public identifiers (8 hexadecimal
  characters, the prefix of a row's uuid) with the interface every resolver relies on.
\<close>

section \<open>Rollout keys\<close>

definition MINIAPP_WALLET_RENEWAL_ENABLED_KEY :: string where
  "MINIAPP_WALLET_RENEWAL_ENABLED_KEY = ''miniapp_wallet_renewal_enabled''"

definition MINIAPP_WALLET_RENEWAL_ENABLED_DEFAULT :: bool where
  "MINIAPP_WALLET_RENEWAL_ENABLED_DEFAULT = False"

definition MINIAPP_COMMERCE_BROWSE_ENABLED_KEY :: string where
  "MINIAPP_COMMERCE_BROWSE_ENABLED_KEY = ''miniapp_commerce_browse_enabled''"

definition MINIAPP_COMMERCE_CHECKOUT_ENABLED_KEY :: string where
  "MINIAPP_COMMERCE_CHECKOUT_ENABLED_KEY = ''miniapp_commerce_checkout_enabled''"

definition MINIAPP_WALLET_PURCHASE_ENABLED_KEY :: string where
  "MINIAPP_WALLET_PURCHASE_ENABLED_KEY = ''miniapp_wallet_purchase_enabled''"

definition MINIAPP_WALLET_ADDONS_ENABLED_KEY :: string where
  "MINIAPP_WALLET_ADDONS_ENABLED_KEY = ''miniapp_wallet_addons_enabled''"

definition MINIAPP_COMMERCE_ROLLOUT_KEYS :: "string list" where
  "MINIAPP_COMMERCE_ROLLOUT_KEYS =
     [MINIAPP_COMMERCE_BROWSE_ENABLED_KEY, MINIAPP_COMMERCE_CHECKOUT_ENABLED_KEY,
      MINIAPP_WALLET_PURCHASE_ENABLED_KEY, MINIAPP_WALLET_RENEWAL_ENABLED_KEY,
      MINIAPP_WALLET_ADDONS_ENABLED_KEY]"

section \<open>Operations\<close>

datatype ServiceOperation = RENEWAL | EXTRA_VOLUME | EXTRA_TIME

fun operation_name :: "ServiceOperation \<Rightarrow> string" where
  "operation_name RENEWAL = ''RENEWAL''"
| "operation_name EXTRA_VOLUME = ''EXTRA_VOLUME''"
| "operation_name EXTRA_TIME = ''EXTRA_TIME''"

definition SERVICE_OPERATIONS :: "ServiceOperation list" where
  "SERVICE_OPERATIONS = [RENEWAL, EXTRA_VOLUME, EXTRA_TIME]"

definition isServiceOperation :: "json \<Rightarrow> bool" where
  "isServiceOperation v =
     (case v of JStr s \<Rightarrow> s \<in> set (map operation_name SERVICE_OPERATIONS) | _ \<Rightarrow> False)"

datatype CommerceOperation = NewPurchase | OnService ServiceOperation

fun commerce_operation_name :: "CommerceOperation \<Rightarrow> string" where
  "commerce_operation_name NewPurchase = ''NEW_PURCHASE''"
| "commerce_operation_name (OnService x) = operation_name x"

definition COMMERCE_OPERATIONS :: "CommerceOperation list" where
  "COMMERCE_OPERATIONS = NewPurchase # map OnService SERVICE_OPERATIONS"

definition isCommerceOperation :: "json \<Rightarrow> bool" where
  "isCommerceOperation v =
     (case v of JStr s \<Rightarrow> s \<in> set (map commerce_operation_name COMMERCE_OPERATIONS) | _ \<Rightarrow> False)"

fun OPERATION_ORDER_TYPE :: "CommerceOperation \<Rightarrow> OrderType" where
  "OPERATION_ORDER_TYPE NewPurchase = OrderType_SERVICE_PURCHASE"
| "OPERATION_ORDER_TYPE (OnService RENEWAL) = OrderType_SERVICE_RENEWAL"
| "OPERATION_ORDER_TYPE (OnService EXTRA_VOLUME) = OrderType_EXTRA_VOLUME"
| "OPERATION_ORDER_TYPE (OnService EXTRA_TIME) = OrderType_EXTRA_TIME"

fun OPERATION_SETTLE_ROLLOUT_KEY :: "CommerceOperation \<Rightarrow> string" where
  "OPERATION_SETTLE_ROLLOUT_KEY NewPurchase = MINIAPP_WALLET_PURCHASE_ENABLED_KEY"
| "OPERATION_SETTLE_ROLLOUT_KEY (OnService RENEWAL) = MINIAPP_WALLET_RENEWAL_ENABLED_KEY"
| "OPERATION_SETTLE_ROLLOUT_KEY (OnService EXTRA_VOLUME) = MINIAPP_WALLET_ADDONS_ENABLED_KEY"
| "OPERATION_SETTLE_ROLLOUT_KEY (OnService EXTRA_TIME) = MINIAPP_WALLET_ADDONS_ENABLED_KEY"

datatype DiscountPurpose = Purpose_PURCHASE | Purpose_RENEWAL

fun OPERATION_DISCOUNT_PURPOSE :: "CommerceOperation \<Rightarrow> DiscountPurpose" where
  "OPERATION_DISCOUNT_PURPOSE NewPurchase = Purpose_PURCHASE"
| "OPERATION_DISCOUNT_PURPOSE (OnService RENEWAL) = Purpose_RENEWAL"
| "OPERATION_DISCOUNT_PURPOSE (OnService EXTRA_VOLUME) = Purpose_PURCHASE"
| "OPERATION_DISCOUNT_PURPOSE (OnService EXTRA_TIME) = Purpose_PURCHASE"

section \<open>Result codes\<close>

datatype CommerceResultCode = FEATURE_DISABLED | SERVICE_NOT_FOUND | SERVICE_NOT_ELIGIBLE
  | OPTION_UNAVAILABLE | PRODUCT_UNAVAILABLE | CHECKOUT_UNAVAILABLE | DISCOUNT_INVALID
  | QUOTE_EXPIRED | QUOTE_STALE | CODE_INSUFFICIENT_BALANCE | CODE_IDEMPOTENCY_CONFLICT
  | PAYMENT_PENDING | RECONCILIATION_REQUIRED | INTERNAL

fun result_code_name :: "CommerceResultCode \<Rightarrow> string" where
  "result_code_name FEATURE_DISABLED = ''FEATURE_DISABLED''"
| "result_code_name SERVICE_NOT_FOUND = ''SERVICE_NOT_FOUND''"
| "result_code_name SERVICE_NOT_ELIGIBLE = ''SERVICE_NOT_ELIGIBLE''"
| "result_code_name OPTION_UNAVAILABLE = ''OPTION_UNAVAILABLE''"
| "result_code_name PRODUCT_UNAVAILABLE = ''PRODUCT_UNAVAILABLE''"
| "result_code_name CHECKOUT_UNAVAILABLE = ''CHECKOUT_UNAVAILABLE''"
| "result_code_name DISCOUNT_INVALID = ''DISCOUNT_INVALID''"
| "result_code_name QUOTE_EXPIRED = ''QUOTE_EXPIRED''"
| "result_code_name QUOTE_STALE = ''QUOTE_STALE''"
| "result_code_name CODE_INSUFFICIENT_BALANCE = ''INSUFFICIENT_BALANCE''"
| "result_code_name CODE_IDEMPOTENCY_CONFLICT = ''IDEMPOTENCY_CONFLICT''"
| "result_code_name PAYMENT_PENDING = ''PAYMENT_PENDING''"
| "result_code_name RECONCILIATION_REQUIRED = ''RECONCILIATION_REQUIRED''"
| "result_code_name INTERNAL = ''INTERNAL''"

definition COMMERCE_RESULT_CODES :: "CommerceResultCode list" where
  "COMMERCE_RESULT_CODES =
     [FEATURE_DISABLED, SERVICE_NOT_FOUND, SERVICE_NOT_ELIGIBLE, OPTION_UNAVAILABLE,
      PRODUCT_UNAVAILABLE, CHECKOUT_UNAVAILABLE, DISCOUNT_INVALID, QUOTE_EXPIRED, QUOTE_STALE,
      CODE_INSUFFICIENT_BALANCE, CODE_IDEMPOTENCY_CONFLICT, PAYMENT_PENDING,
      RECONCILIATION_REQUIRED, INTERNAL]"

definition COMMERCE_SETTLED_CODES :: "CommerceResultCode list" where
  "COMMERCE_SETTLED_CODES = [PAYMENT_PENDING, RECONCILIATION_REQUIRED]"

definition commerceCodeIsSettled :: "CommerceResultCode \<Rightarrow> bool" where
  "commerceCodeIsSettled c \<longleftrightarrow> c \<in> set COMMERCE_SETTLED_CODES"

definition isCommerceResultCode :: "json \<Rightarrow> bool" where
  "isCommerceResultCode v =
     (case v of JStr s \<Rightarrow> s \<in> set (map result_code_name COMMERCE_RESULT_CODES) | _ \<Rightarrow> False)"

definition RENEWAL_QUOTE_TTL_SECONDS :: int where "RENEWAL_QUOTE_TTL_SECONDS = 120"

definition RENEWAL_IDEMPOTENCY_KEY_MAX_LENGTH :: nat where
  "RENEWAL_IDEMPOTENCY_KEY_MAX_LENGTH = 128"

definition is_key_char :: "char \<Rightarrow> bool" where
  "is_key_char c \<longleftrightarrow> (let n = char_code c in
     65 \<le> n \<and> n \<le> 90 \<or> 97 \<le> n \<and> n \<le> 122 \<or> 48 \<le> n \<and> n \<le> 57 \<or> n = 95 \<or> n = 45)"

definition isRenewalIdempotencyKey :: "json \<Rightarrow> bool" where
  "isRenewalIdempotencyKey v =
     (case v of JStr s \<Rightarrow> 16 \<le> length s \<and> length s \<le> 128 \<and> list_all is_key_char s | _ \<Rightarrow> False)"

lemma commerce_operation_name_inject: "commerce_operation_name a = commerce_operation_name b \<longleftrightarrow> a = b"
  by (cases a rule: OPERATION_ORDER_TYPE.cases; cases b rule: OPERATION_ORDER_TYPE.cases) simp_all

section \<open>Public identifiers\<close>

definition is_hex_char :: "char \<Rightarrow> bool" where
  "is_hex_char c \<longleftrightarrow> (let n = char_code c in
     48 \<le> n \<and> n \<le> 57 \<or> 97 \<le> n \<and> n \<le> 102 \<or> 65 \<le> n \<and> n \<le> 70)"

text \<open>\<open>/^[0-9a-f]{8}$/i\<close>\<close>

definition hex8 :: "string \<Rightarrow> bool" where
  "hex8 s \<longleftrightarrow> length s = 8 \<and> list_all is_hex_char s"

definition SERVICE_SHORT_ID_LENGTH :: nat where "SERVICE_SHORT_ID_LENGTH = 8"

definition serviceShortId :: "string \<Rightarrow> string" where
  "serviceShortId i = take SERVICE_SHORT_ID_LENGTH i"

definition isServicePublicId :: "json \<Rightarrow> bool" where
  "isServicePublicId v = (case v of JStr s \<Rightarrow> hex8 s | _ \<Rightarrow> False)"

definition canonicalPublicId :: "json \<Rightarrow> (string \<Rightarrow> bool) \<Rightarrow> string option" where
  "canonicalPublicId v pattern =
     (case v of JStr s \<Rightarrow> if pattern s then Some (js_lower s) else None | _ \<Rightarrow> None)"

definition canonicalServicePublicId :: "json \<Rightarrow> string option" where
  "canonicalServicePublicId v = canonicalPublicId v hex8"

definition RENEWAL_OPTION_PUBLIC_ID_LENGTH :: nat where "RENEWAL_OPTION_PUBLIC_ID_LENGTH = 8"

definition renewalOptionPublicId :: "product_row \<Rightarrow> string" where
  "renewalOptionPublicId p = take RENEWAL_OPTION_PUBLIC_ID_LENGTH (pr_id p)"

definition isRenewalOptionPublicId :: "json \<Rightarrow> bool" where
  "isRenewalOptionPublicId v = (case v of JStr s \<Rightarrow> hex8 s | _ \<Rightarrow> False)"

text \<open>
  What a resolver may assume of the public identifiers it is handed: a valid one stays valid when
  lower-cased, lower-casing is idempotent on it, and the public identifier of a row is the prefix of
  its uuid of exactly that length.
\<close>

locale public_id =
  fixes valid :: "string \<Rightarrow> bool"
    and public_of :: "string \<Rightarrow> string"
  assumes valid_lower: "valid p \<Longrightarrow> valid (js_lower p)"
    and lower_idem: "valid p \<Longrightarrow> js_lower (js_lower p) = js_lower p"
    and prefix: "valid p \<Longrightarrow> public_of i = take (length p) i"
begin

lemma prefix_match: "valid p \<Longrightarrow> starts_with i (js_lower p) \<longleftrightarrow> public_of i = js_lower p"
  by (simp add: starts_with_def prefix)

lemma case_insensitive: "valid p \<Longrightarrow> starts_with i (js_lower (js_lower p)) = starts_with i (js_lower p)"
  by (simp add: lower_idem)

lemma same_public_id:
  "valid p \<Longrightarrow> starts_with i (js_lower p) \<Longrightarrow> starts_with j (js_lower p) \<Longrightarrow> public_of i = public_of j"
  by (simp add: prefix_match)

end

lemma char_code_lower_char:
  "char_code (lower_char c) =
     (if 65 \<le> char_code c \<and> char_code c \<le> 90
         \<or> 192 \<le> char_code c \<and> char_code c \<le> 222 \<and> char_code c \<noteq> 215
      then char_code c + 32 else char_code c)"
  by (auto simp: lower_char_def Let_def char_code_def of_char_of take_bit_eq_mod)

lemma is_hex_lower: "is_hex_char c \<Longrightarrow> is_hex_char (lower_char c)"
  by (auto simp: is_hex_char_def Let_def char_code_lower_char)

lemma char_code_inject: "char_code c = char_code d \<longleftrightarrow> c = d"
  by (simp add: char_code_def)

lemma lower_char_idem: "lower_char (lower_char c) = lower_char c"
  by (auto simp: char_code_inject [symmetric] char_code_lower_char)

lemma hex8_lower: "hex8 s \<Longrightarrow> hex8 (js_lower s)"
  by (auto simp: hex8_def js_lower_def list_all_iff is_hex_lower)

lemma js_lower_idem: "js_lower (js_lower s) = js_lower s"
  by (simp add: js_lower_def lower_char_idem)

lemma hex8_length: "hex8 s \<Longrightarrow> length s = 8"
  by (simp add: hex8_def)

interpretation service_id: public_id hex8 serviceShortId
  by unfold_locales
    (simp_all add: hex8_lower js_lower_idem serviceShortId_def SERVICE_SHORT_ID_LENGTH_def hex8_length)

section \<open>Rollout switches\<close>

definition TRUE_VALUES :: "string list" where
  "TRUE_VALUES = [''true'', ''1'', ''yes'']"

definition MINIAPP_COMMERCE_ROLLOUT_DEFAULT :: bool where
  "MINIAPP_COMMERCE_ROLLOUT_DEFAULT = False"

text \<open>The database is \<open>None\<close> where the query throws.\<close>

definition isMiniAppRolloutEnabled :: "string \<Rightarrow> db option \<Rightarrow> bool" where
  "isMiniAppRolloutEnabled key d =
     (case d of
        None \<Rightarrow> False
      | Some s \<Rightarrow>
          (case setting_value key s of
             None \<Rightarrow> MINIAPP_COMMERCE_ROLLOUT_DEFAULT
           | Some v \<Rightarrow> js_lower (js_trim v) \<in> set TRUE_VALUES))"

definition setMiniAppRolloutEnabled :: "string \<Rightarrow> bool \<Rightarrow> db \<Rightarrow> db" where
  "setMiniAppRolloutEnabled key enabled s =
     (let v = (if enabled then ''true'' else ''false'') in
      if \<exists>r \<in> set (settings s). st_key r = key
      then s\<lparr>settings := update_where (\<lambda>r. st_key r = key) (\<lambda>r. r\<lparr>st_value := v\<rparr>) (settings s)\<rparr>
      else s\<lparr>settings := settings s @ [\<lparr>st_key = key, st_value = v, st_isPublic = False\<rparr>]\<rparr>)"

definition readMiniAppRolloutState :: "db option \<Rightarrow> (string \<times> bool) list" where
  "readMiniAppRolloutState d =
     map (\<lambda>key. (key, isMiniAppRolloutEnabled key d)) MINIAPP_COMMERCE_ROLLOUT_KEYS"

definition isMiniAppWalletRenewalEnabled :: "db option \<Rightarrow> bool" where
  "isMiniAppWalletRenewalEnabled d = isMiniAppRolloutEnabled MINIAPP_WALLET_RENEWAL_ENABLED_KEY d"

definition setMiniAppWalletRenewalEnabled :: "bool \<Rightarrow> db \<Rightarrow> db" where
  "setMiniAppWalletRenewalEnabled enabled s =
     setMiniAppRolloutEnabled MINIAPP_WALLET_RENEWAL_ENABLED_KEY enabled s"

lemma setting_value_update:
  "setting_value k (s\<lparr>settings := update_where (\<lambda>r. st_key r = key) (\<lambda>r. r\<lparr>st_value := v\<rparr>) (settings s)\<rparr>) =
     (if k = key then map_option (\<lambda>_. v) (setting_value k s) else setting_value k s)"
proof -
  have "find (\<lambda>r. st_key r = k)
      (update_where (\<lambda>r. st_key r = key) (\<lambda>r. r\<lparr>st_value := v\<rparr>) (settings s)) =
    map_option (\<lambda>r. if st_key r = key then r\<lparr>st_value := v\<rparr> else r)
      (find (\<lambda>r. st_key r = k) (settings s))"
    by (rule find_update_where) simp
  then show ?thesis
    by (cases "find (\<lambda>r. st_key r = k) (settings s)")
      (auto simp: setting_value_def dest: find_Some_in)
qed

lemma setting_value_None: "setting_value k s = None \<longleftrightarrow> (\<forall>r \<in> set (settings s). st_key r \<noteq> k)"
  by (simp add: setting_value_def find_None_all)

lemma setting_value_append:
  "setting_value k (s\<lparr>settings := settings s @ [\<lparr>st_key = key, st_value = v, st_isPublic = p\<rparr>]\<rparr>) =
     (case setting_value k s of Some x \<Rightarrow> Some x | None \<Rightarrow> if k = key then Some v else None)"
  by (auto simp: setting_value_def find_append split: option.splits)

lemma setting_value_set:
  "setting_value k (setMiniAppRolloutEnabled key b s) =
     (if k = key then Some (if b then ''true'' else ''false'') else setting_value k s)"
proof (cases "setting_value key s")
  case None
  then have "\<not> (\<exists>r \<in> set (settings s). st_key r = key)"
    by (simp add: setting_value_None)
  with None show ?thesis
    by (simp add: setMiniAppRolloutEnabled_def setting_value_append split: option.split)
next
  case (Some x)
  then have "\<exists>r \<in> set (settings s). st_key r = key"
    using setting_value_None [of key s] by auto
  with Some show ?thesis
    by (simp add: setMiniAppRolloutEnabled_def setting_value_update)
qed

text \<open>
  A rollout switch reads back what was last written to it, writing one switch leaves the others
  as they were, and an unreadable database or a missing row reads as off.
\<close>

theorem rollout_roundtrip:
  "isMiniAppRolloutEnabled k (Some (setMiniAppRolloutEnabled key b s)) =
     (if k = key then b else isMiniAppRolloutEnabled k (Some s))
   \<and> \<not> isMiniAppRolloutEnabled k None
   \<and> \<not> isMiniAppRolloutEnabled k (Some (empty_db g))"
proof -
  have "js_lower (js_trim ''true'') \<in> set TRUE_VALUES"
    and "js_lower (js_trim ''false'') \<notin> set TRUE_VALUES"
    by code_simp+
  then show ?thesis
    by (simp add: isMiniAppRolloutEnabled_def setting_value_set MINIAPP_COMMERCE_ROLLOUT_DEFAULT_def)
      (simp add: setting_value_def empty_db_def MINIAPP_COMMERCE_ROLLOUT_DEFAULT_def)
qed

end
