(* ===== verification/PanelCapability.thy ===== *)
theory PanelCapability
  imports Contract
begin

text \<open>
  What a panel can do (packages/service-renewal/src/panel-capability.ts) and the gate every
  owner-scoped operation passes through (packages/service-renewal/src/resolve-service.ts).
\<close>

section \<open>Capabilities\<close>

datatype PanelCapability = Cap_authenticatedHealth | Cap_createService | Cap_readService
  | Cap_renewService | Cap_addVolume | Cap_addTime | Cap_toggleService
  | Cap_regenerateSubscription | Cap_deleteService | Cap_reconciliation

definition MARZBAN_CAPABILITIES :: "PanelCapability list" where
  "MARZBAN_CAPABILITIES =
     [Cap_authenticatedHealth, Cap_createService, Cap_readService, Cap_renewService, Cap_addVolume,
      Cap_addTime, Cap_toggleService, Cap_regenerateSubscription, Cap_reconciliation]"

definition XUI_CAPABILITIES :: "PanelCapability list" where
  "XUI_CAPABILITIES =
     [Cap_authenticatedHealth, Cap_createService, Cap_readService, Cap_renewService, Cap_addVolume,
      Cap_addTime, Cap_toggleService, Cap_regenerateSubscription, Cap_reconciliation]"

definition SUPPORTED_XUI_VARIANTS :: "string list" where
  "SUPPORTED_XUI_VARIANTS = [''SANAEI'']"

definition trimmed_upper :: "string option \<Rightarrow> string" where
  "trimmed_upper x = (case x of None \<Rightarrow> '''' | Some s \<Rightarrow> js_upper (js_trim s))"

definition resolveXuiVariant :: "panel_row \<Rightarrow> string" where
  "resolveXuiVariant panel =
     (let raw = trimmed_upper (pn_apiVariant panel) in if raw = '''' then ''SANAEI'' else raw)"

definition SUPPORTED_XUI_AUTH_MODES :: "string list" where
  "SUPPORTED_XUI_AUTH_MODES = [''SESSION_COOKIE'', ''API_TOKEN'']"

definition resolveXuiAuthMode :: "panel_row \<Rightarrow> string" where
  "resolveXuiAuthMode panel =
     (let raw = trimmed_upper (pn_authMode panel) in if raw = '''' then ''SESSION_COOKIE'' else raw)"

definition panelCapabilities :: "panel_row \<Rightarrow> PanelCapability list" where
  "panelCapabilities panel =
     (case pn_type panel of
        PanelType_MARZBAN \<Rightarrow> MARZBAN_CAPABILITIES
      | PanelType_XUI \<Rightarrow>
          if resolveXuiVariant panel \<in> set SUPPORTED_XUI_VARIANTS then XUI_CAPABILITIES else [])"

definition panelTypesSupporting :: "PanelCapability \<Rightarrow> PanelType list" where
  "panelTypesSupporting capability =
     (if capability \<in> set MARZBAN_CAPABILITIES then [PanelType_MARZBAN] else [])
     @ (if capability \<in> set XUI_CAPABILITIES then [PanelType_XUI] else [])"

definition panelSupportsOperation :: "panel_row \<Rightarrow> PanelCapability \<Rightarrow> bool" where
  "panelSupportsOperation panel capability \<longleftrightarrow> capability \<in> set (panelCapabilities panel)"

definition panelHasCredentials :: "panel_row \<Rightarrow> bool" where
  "panelHasCredentials panel =
     (if pn_type panel = PanelType_XUI \<and> resolveXuiAuthMode panel = ''API_TOKEN''
      then pn_tokenEncrypted panel \<noteq> None \<and> pn_tokenEncrypted panel \<noteq> Some ''''
      else pn_username panel \<noteq> None \<and> pn_passwordEncrypted panel \<noteq> None)"

definition panelOperationAvailable :: "panel_row \<Rightarrow> PanelCapability \<Rightarrow> bool" where
  "panelOperationAvailable panel capability \<longleftrightarrow>
     pn_status panel = PanelStatus_ACTIVE
     \<and> panelSupportsOperation panel capability
     \<and> panelHasCredentials panel"

section \<open>The remote model of a service\<close>

datatype XuiRemoteModel = GLOBAL_CLIENT | LEGACY_PER_INBOUND | UNKNOWN

definition client_email :: "json \<Rightarrow> string option" where
  "client_email c =
     (case c of JObj kvs \<Rightarrow> (case map_of kvs ''email'' of Some (JStr e) \<Rightarrow> Some e | _ \<Rightarrow> None)
      | _ \<Rightarrow> None)"

definition classify_clients :: "string \<Rightarrow> json list \<Rightarrow> XuiRemoteModel" where
  "classify_clients username clients =
     (let emails = List.map_filter client_email clients in
      if emails = [] then UNKNOWN
      else if \<forall>e \<in> set emails. e = username then GLOBAL_CLIENT
      else if \<exists>e \<in> set emails. starts_with e (username @ ''-'') then LEGACY_PER_INBOUND
      else UNKNOWN)"

definition classifyXuiRemoteModel :: "service_row \<Rightarrow> XuiRemoteModel" where
  "classifyXuiRemoteModel service =
     (if sv_panelType service \<noteq> PanelType_XUI then GLOBAL_CLIENT
      else case sv_remoteMetadata service of
        Some (JObj record) \<Rightarrow>
          (case map_of record ''email'' of
             Some (JStr email) \<Rightarrow> if email = sv_username service then GLOBAL_CLIENT else UNKNOWN
           | _ \<Rightarrow>
               (case map_of record ''clients'' of
                  Some (JArr clients) \<Rightarrow>
                    if clients \<noteq> [] then classify_clients (sv_username service) clients else UNKNOWN
                | _ \<Rightarrow> UNKNOWN))
      | _ \<Rightarrow> UNKNOWN)"

definition serviceSupportsGlobalLifecycle :: "service_row \<Rightarrow> bool" where
  "serviceSupportsGlobalLifecycle service \<longleftrightarrow>
     sv_panelType service \<noteq> PanelType_XUI \<or> classifyXuiRemoteModel service = GLOBAL_CLIENT"

lemma in_map_filter: "y \<in> set (List.map_filter f xs) \<longleftrightarrow> (\<exists>x \<in> set xs. f x = Some y)"
  by (induction xs) (auto simp: List.map_filter_simps split: option.splits)

text \<open>A service that may be mutated names no client but its own.\<close>

lemma global_client_owns_every_label:
  assumes "serviceSupportsGlobalLifecycle sv" and "sv_panelType sv = PanelType_XUI"
  obtains (email) kvs where "sv_remoteMetadata sv = Some (JObj kvs)"
      and "map_of kvs ''email'' = Some (JStr (sv_username sv))"
    | (clients) kvs cs where "sv_remoteMetadata sv = Some (JObj kvs)"
      and "map_of kvs ''clients'' = Some (JArr cs)"
      and "\<exists>c \<in> set cs. client_email c = Some (sv_username sv)"
      and "\<forall>c \<in> set cs. \<forall>e. client_email c = Some e \<longrightarrow> e = sv_username sv"
proof -
  have g: "classifyXuiRemoteModel sv = GLOBAL_CLIENT"
    using assms by (simp add: serviceSupportsGlobalLifecycle_def)
  then obtain kvs where kvs: "sv_remoteMetadata sv = Some (JObj kvs)"
    using assms(2) by (auto simp: classifyXuiRemoteModel_def split: option.splits json.splits)
  show ?thesis
  proof (cases "\<exists>e. map_of kvs ''email'' = Some (JStr e)")
    case True
    with g kvs assms(2) show ?thesis
      by (auto simp: classifyXuiRemoteModel_def split: if_splits intro: email)
  next
    case False
    then have "(case map_of kvs ''clients'' of Some (JArr cs) \<Rightarrow>
        if cs \<noteq> [] then classify_clients (sv_username sv) cs else UNKNOWN | _ \<Rightarrow> UNKNOWN) = GLOBAL_CLIENT"
      using g kvs assms(2)
      by (cases "map_of kvs ''email''")
        (auto simp: classifyXuiRemoteModel_def split: option.splits json.splits)
    then obtain cs where cs: "map_of kvs ''clients'' = Some (JArr cs)"
      and c: "classify_clients (sv_username sv) cs = GLOBAL_CLIENT"
      by (auto split: option.splits json.splits if_splits)
    from c have ne: "List.map_filter client_email cs \<noteq> []"
      and all: "\<forall>e \<in> set (List.map_filter client_email cs). e = sv_username sv"
      by (auto simp: classify_clients_def Let_def split: if_splits)
    from ne obtain e where "e \<in> set (List.map_filter client_email cs)"
      by (cases "List.map_filter client_email cs") auto
    with all have "\<exists>c \<in> set cs. client_email c = Some (sv_username sv)"
      by (auto simp: in_map_filter)
    moreover from all have "\<forall>c \<in> set cs. \<forall>e. client_email c = Some e \<longrightarrow> e = sv_username sv"
      by (auto simp: in_map_filter)
    ultimately show ?thesis using clients kvs cs by blast
  qed
qed

section \<open>Resolving an owned service\<close>

definition OPERABLE_SERVICE_STATUSES :: "ServiceStatus list" where
  "OPERABLE_SERVICE_STATUSES =
     [ServiceStatus_ACTIVE, ServiceStatus_EXPIRED, ServiceStatus_LIMITED, ServiceStatus_DISABLED]"

definition owned_match :: "string \<Rightarrow> string \<Rightarrow> service_row \<Rightarrow> bool" where
  "owned_match userId publicId r \<longleftrightarrow>
     sv_userId r = userId
     \<and> starts_with (sv_id r) (js_lower publicId)
     \<and> sv_deletedAt r = None
     \<and> sv_status r \<in> set OPERABLE_SERVICE_STATUSES"

definition panel_of :: "db \<Rightarrow> service_row \<Rightarrow> panel_row option" where
  "panel_of s sv = find (\<lambda>p. pn_id p = sv_panelId sv) (panels s)"

definition resolveOwnedService ::
  "db \<Rightarrow> string \<Rightarrow> string \<Rightarrow> PanelCapability \<Rightarrow> (service_row \<times> panel_row) option" where
  "resolveOwnedService s userId publicId capability =
     (if \<not> isServicePublicId (JStr publicId) then None
      else case take 2 (filter (owned_match userId publicId) (services s)) of
        [row] \<Rightarrow>
          (case panel_of s row of
             None \<Rightarrow> None
           | Some panel \<Rightarrow>
               if \<not> panelOperationAvailable panel capability then None
               else if \<not> serviceSupportsGlobalLifecycle row then None
               else Some (row, panel))
      | _ \<Rightarrow> None)"

definition servicePublicId :: "service_row \<Rightarrow> string" where
  "servicePublicId service = take SERVICE_SHORT_ID_LENGTH (sv_id service)"

lemma take2_single: "take 2 xs = [x] \<longleftrightarrow> xs = [x]"
  by (cases xs; cases "tl xs") (auto simp: numeral_2_eq_2)

lemma filter_single_iff:
  assumes "distinct xs"
  shows "filter P xs = [x] \<longleftrightarrow> x \<in> set xs \<and> P x \<and> (\<forall>y \<in> set xs. P y \<longrightarrow> y = x)"
proof
  assume f: "filter P xs = [x]"
  then have "set (filter P xs) = {x}" by simp
  then show "x \<in> set xs \<and> P x \<and> (\<forall>y \<in> set xs. P y \<longrightarrow> y = x)" by auto
next
  assume r: "x \<in> set xs \<and> P x \<and> (\<forall>y \<in> set xs. P y \<longrightarrow> y = x)"
  then have "set (filter P xs) = {x}" by auto
  moreover have "distinct (filter P xs)" using assms by simp
  ultimately show "filter P xs = [x]"
    by (cases "filter P xs"; cases "tl (filter P xs)") auto
qed

lemma unique_by_distinct: "unique_by k t \<Longrightarrow> distinct t"
  by (simp add: unique_by_def distinct_map)

lemma resolveOwnedService_Some:
  "resolveOwnedService s u p cap = Some (sv, pn) \<longleftrightarrow>
     isServicePublicId (JStr p)
     \<and> filter (owned_match u p) (services s) = [sv]
     \<and> panel_of s sv = Some pn \<and> panelOperationAvailable pn cap
     \<and> serviceSupportsGlobalLifecycle sv"
proof -
  have c: "(case xs of [row] \<Rightarrow> f row | _ \<Rightarrow> None) = Some y \<longleftrightarrow> (\<exists>row. xs = [row] \<and> f row = Some y)"
    for xs :: "service_row list" and f :: "service_row \<Rightarrow> (service_row \<times> panel_row) option" and y
    by (auto split: list.splits)
  show ?thesis
    by (auto simp: resolveOwnedService_def c take2_single split: option.splits if_splits)
qed

text \<open>
  The owner gate resolves a public identifier to a service exactly when it is well formed and
  names one operable, undeleted service of the caller and no other of the caller's operable
  services, and the service's panel is active, supports the operation and has its credentials, and
  the remote account may be mutated. Identifiers are unique in the table of services.
\<close>

theorem resolveOwnedService_exact:
  assumes "unique_by sv_id (services s)"
  shows "resolveOwnedService s u p cap = Some (sv, pn) \<longleftrightarrow>
    hex8 p \<and> sv \<in> set (services s) \<and> sv_userId sv = u \<and> servicePublicId sv = js_lower p
    \<and> sv_deletedAt sv = None \<and> sv_status sv \<in> set OPERABLE_SERVICE_STATUSES
    \<and> (\<forall>sv' \<in> set (services s). sv_userId sv' = u \<and> servicePublicId sv' = js_lower p
         \<and> sv_deletedAt sv' = None \<and> sv_status sv' \<in> set OPERABLE_SERVICE_STATUSES \<longrightarrow> sv' = sv)
    \<and> panel_of s sv = Some pn \<and> panelOperationAvailable pn cap
    \<and> serviceSupportsGlobalLifecycle sv"
proof (cases "hex8 p")
  case True
  have "owned_match u p r \<longleftrightarrow> sv_userId r = u \<and> servicePublicId r = js_lower p
      \<and> sv_deletedAt r = None \<and> sv_status r \<in> set OPERABLE_SERVICE_STATUSES" for r
    using service_id.prefix_match [OF True, of "sv_id r"]
    by (auto simp: owned_match_def servicePublicId_def serviceShortId_def)
  then show ?thesis
    using True unique_by_distinct [OF assms]
    by (auto simp: resolveOwnedService_Some filter_single_iff isServicePublicId_def)
next
  case False
  then show ?thesis by (simp add: resolveOwnedService_Some isServicePublicId_def)
qed

end
