(* ===== verification/Catalog.thy ===== *)
theory Catalog
  imports PanelCapability "HOL-Library.AList" "HOL-Library.List_Lexorder" "HOL-Library.Multiset"
begin

text \<open>
  Which products a person may see and buy: the catalog predicates
  (packages/service-renewal/src/catalog.ts), the catalog a browser is shown and the resolution of a
  product by its public identifier (catalog-read.ts).
\<close>

section \<open>Products with their relations\<close>

record product_with_relations =
  p_row :: product_row
  p_category :: category_row
  p_panel :: "panel_row option"

definition with_relations :: "db \<Rightarrow> product_row \<Rightarrow> product_with_relations option" where
  "with_relations s p =
     (case find (\<lambda>c. cat_id c = pr_categoryId p) (categories s) of
        None \<Rightarrow> None
      | Some c \<Rightarrow>
          Some \<lparr>p_row = p, p_category = c,
            p_panel = (case pr_panelId p of None \<Rightarrow> None
              | Some i \<Rightarrow> find (\<lambda>x. pn_id x = i) (panels s))\<rparr>)"

definition all_products :: "db \<Rightarrow> product_with_relations list" where
  "all_products s = List.map_filter (with_relations s) (products s)"

section \<open>Visibility\<close>

fun group_name :: "UserGroup \<Rightarrow> string" where
  "group_name UserGroup_F = ''F''"
| "group_name UserGroup_N = ''N''"
| "group_name UserGroup_N2 = ''N2''"

definition valid_group :: "json \<Rightarrow> string option" where
  "valid_group g =
     (case g of JStr x \<Rightarrow> if x \<in> {''F'', ''N'', ''N2'', ''ALL''} then Some x else None | _ \<Rightarrow> None)"

definition groupMatches :: "json option \<Rightarrow> UserGroup \<Rightarrow> bool" where
  "groupMatches displayGroups grp =
     (let valid = (case displayGroups of Some (JArr xs) \<Rightarrow> List.map_filter valid_group xs | _ \<Rightarrow> [])
      in if valid \<noteq> [] then ''ALL'' \<in> set valid \<or> group_name grp \<in> set valid
         else grp = UserGroup_F)"

definition parsePanelInboundIds :: "json option \<Rightarrow> int list" where
  "parsePanelInboundIds raw =
     (case raw of
        Some (JArr xs) \<Rightarrow>
          List.map_filter (\<lambda>v. case v of JNum n \<Rightarrow> as_integer n | _ \<Rightarrow> None) xs
      | _ \<Rightarrow> [])"

text \<open>\<open>[...new Set(xs)]\<close>: first occurrences, in order.\<close>

definition js_unique :: "'a list \<Rightarrow> 'a list" where
  "js_unique xs = rev (remdups (rev xs))"

lemma set_js_unique [simp]: "set (js_unique xs) = set xs"
  by (simp add: js_unique_def)

lemma distinct_js_unique [simp]: "distinct (js_unique xs)"
  by (simp add: js_unique_def)

lemma js_unique_Nil [simp]: "js_unique xs = [] \<longleftrightarrow> xs = []"
  by (simp add: js_unique_def)

datatype ProductInboundResolution =
    InboundOk "int list" bool
  | PanelAllowlistEmpty
  | SubsetViolation "int list"

definition resolveProductInboundIds :: "panel_row \<Rightarrow> json option \<Rightarrow> ProductInboundResolution" where
  "resolveProductInboundIds panel productInboundIds =
     (let allowed = parsePanelInboundIds (pn_inboundIds panel) in
      if allowed = [] then PanelAllowlistEmpty
      else let selected = parsePanelInboundIds productInboundIds in
        if selected = [] then InboundOk allowed True
        else let invalidIds = js_unique (filter (\<lambda>i. i \<notin> set allowed) selected) in
          if invalidIds \<noteq> [] then SubsetViolation invalidIds
          else InboundOk (js_unique selected) False)"

fun inbound_ok :: "ProductInboundResolution \<Rightarrow> bool" where
  "inbound_ok (InboundOk _ _) = True"
| "inbound_ok _ = False"

datatype PanelConfigProblem = Problem_missing_credentials | Problem_no_template_or_protocol_config
  | Problem_unsupported_xui_variant | Problem_unsupported_xui_auth_mode
  | Problem_missing_api_token | Problem_no_inbound_ids

definition panelConfigProblem :: "panel_row \<Rightarrow> PanelConfigProblem option" where
  "panelConfigProblem panel =
     (case pn_type panel of
        PanelType_MARZBAN \<Rightarrow>
          if pn_username panel = None \<or> pn_passwordEncrypted panel = None
          then Some Problem_missing_credentials
          else
            let hasTemplate =
                  (case pn_templateUsername panel of None \<Rightarrow> '''' | Some t \<Rightarrow> js_trim t) \<noteq> '''';
                hasExplicit =
                  (case pn_protocolSettings panel of Some (JObj kvs) \<Rightarrow> kvs \<noteq> [] | _ \<Rightarrow> False)
            in if \<not> hasTemplate \<and> \<not> hasExplicit then Some Problem_no_template_or_protocol_config
               else None
      | PanelType_XUI \<Rightarrow>
          if resolveXuiVariant panel \<notin> set SUPPORTED_XUI_VARIANTS
          then Some Problem_unsupported_xui_variant
          else
            let authMode = resolveXuiAuthMode panel in
            if authMode \<notin> set SUPPORTED_XUI_AUTH_MODES then Some Problem_unsupported_xui_auth_mode
            else if authMode = ''API_TOKEN''
              \<and> (pn_tokenEncrypted panel = None \<or> pn_tokenEncrypted panel = Some '''')
            then Some Problem_missing_api_token
            else if authMode \<noteq> ''API_TOKEN''
              \<and> (pn_username panel = None \<or> pn_passwordEncrypted panel = None)
            then Some Problem_missing_credentials
            else if parsePanelInboundIds (pn_inboundIds panel) = [] then Some Problem_no_inbound_ids
            else None)"

definition isPanelSellable :: "panel_row \<Rightarrow> bool" where
  "isPanelSellable panel \<longleftrightarrow>
     pn_status panel = PanelStatus_ACTIVE
     \<and> panelSupportsOperation panel Cap_createService
     \<and> panelConfigProblem panel = None
     \<and> pn_provisioningReady panel \<noteq> Some False"

definition isProductStructurallySellable :: "product_with_relations \<Rightarrow> bool" where
  "isProductStructurallySellable product =
     (if \<not> pr_isActive (p_row product) \<or> \<not> cat_isActive (p_category product) then False
      else if pr_type (p_row product) = ProductType_SERVICE_PRODUCT then
        (case p_panel product of
           None \<Rightarrow> False
         | Some panel \<Rightarrow>
             if \<not> pn_isVisible panel \<or> \<not> isPanelSellable panel then False
             else if pn_type panel = PanelType_XUI
               \<and> \<not> inbound_ok (resolveProductInboundIds panel (pr_inboundIds (p_row product)))
             then False
             else True)
      else True)"

definition isProductVisible :: "product_with_relations \<Rightarrow> UserGroup \<Rightarrow> bool" where
  "isProductVisible product grp =
     (if \<not> groupMatches (pr_displayGroups (p_row product)) grp then False
      else isProductStructurallySellable product)"

lemma sellable_operation_available: "isPanelSellable pn \<Longrightarrow> panelOperationAvailable pn Cap_createService"
  by (auto simp: isPanelSellable_def panelOperationAvailable_def panelHasCredentials_def
      panelConfigProblem_def Let_def split: PanelType.splits if_splits)

text \<open>
  A product that a group may see provisions: its panel is active, visible, authenticated and
  able to create services, and on an XUI panel the inbounds it provisions into are a non-empty
  selection from the panel's allowlist, so that no buyer pays for a product that has nowhere to go.
\<close>

theorem visible_product_provisionable:
  assumes "isProductVisible p g" and "pr_type (p_row p) = ProductType_SERVICE_PRODUCT"
  shows "\<exists>pn. p_panel p = Some pn \<and> pn_isVisible pn
    \<and> panelOperationAvailable pn Cap_createService
    \<and> (pn_type pn = PanelType_XUI \<longrightarrow>
        (\<exists>ids inh. resolveProductInboundIds pn (pr_inboundIds (p_row p)) = InboundOk ids inh
          \<and> ids \<noteq> [] \<and> set ids \<subseteq> set (parsePanelInboundIds (pn_inboundIds pn))))"
proof -
  obtain pn where pn: "p_panel p = Some pn" "pn_isVisible pn" "isPanelSellable pn"
    and ok: "pn_type pn = PanelType_XUI \<longrightarrow>
      inbound_ok (resolveProductInboundIds pn (pr_inboundIds (p_row p)))"
    using assms by (auto simp: isProductVisible_def isProductStructurallySellable_def
        split: if_splits option.splits)
  have "inbound_ok (resolveProductInboundIds pn j) \<Longrightarrow>
      \<exists>ids inh. resolveProductInboundIds pn j = InboundOk ids inh
        \<and> ids \<noteq> [] \<and> set ids \<subseteq> set (parsePanelInboundIds (pn_inboundIds pn))" for j
    by (auto simp: resolveProductInboundIds_def Let_def filter_empty_conv split: if_splits)
  with pn ok show ?thesis using sellable_operation_available by blast
qed

section \<open>The catalog a browser is shown\<close>

definition CATALOG_PUBLIC_ID_LENGTH :: nat where "CATALOG_PUBLIC_ID_LENGTH = 8"

definition catalogPublicId :: "string \<Rightarrow> string" where
  "catalogPublicId i = take CATALOG_PUBLIC_ID_LENGTH i"

definition isCatalogPublicId :: "json \<Rightarrow> bool" where
  "isCatalogPublicId v = (case v of JStr s \<Rightarrow> hex8 s | _ \<Rightarrow> False)"

interpretation catalog_id: public_id hex8 catalogPublicId
  by unfold_locales
    (simp_all add: hex8_lower js_lower_idem catalogPublicId_def CATALOG_PUBLIC_ID_LENGTH_def hex8_length)

record catalog_product_dto =
  cp_productId :: string
  cp_label :: string
  cp_description :: string
  cp_priceToman :: int
  cp_currency :: string
  cp_durationDays :: "int option"
  cp_trafficGb :: "int option"
  cp_location :: "ServiceLocation option"
  cp_allLocations :: bool

record catalog_category_dto =
  cc_categoryId :: string
  cc_label :: string
  cc_products :: "catalog_product_dto list"

record catalog_location_dto =
  cl_locationId :: string
  cl_label :: string
  cl_categories :: "catalog_category_dto list"
  cl_fromPriceToman :: int
  cl_productCount :: nat

definition toProductDto :: "product_with_relations \<Rightarrow> catalog_product_dto" where
  "toProductDto product =
     \<lparr>cp_productId = catalogPublicId (pr_id (p_row product)),
      cp_label = pr_name (p_row product),
      cp_description = (case pr_invoiceDescription (p_row product) of None \<Rightarrow> '''' | Some d \<Rightarrow> d),
      cp_priceToman = pr_priceToman (p_row product),
      cp_currency = ''IRT'',
      cp_durationDays = pr_durationDays (p_row product),
      cp_trafficGb = pr_volumeGb (p_row product),
      cp_location =
        (if pr_allLocations (p_row product) then None else pr_serviceLocation (p_row product)),
      cp_allLocations = pr_allLocations (p_row product)\<rparr>"

definition catalog_where :: "product_with_relations \<Rightarrow> bool" where
  "catalog_where p \<longleftrightarrow>
     pr_type (p_row p) = ProductType_SERVICE_PRODUCT \<and> pr_isActive (p_row p)
     \<and> cat_isActive (p_category p)
     \<and> (case p_panel p of None \<Rightarrow> False
        | Some pn \<Rightarrow> pn_status pn = PanelStatus_ACTIVE \<and> pn_isVisible pn)"

text \<open>The order of the query; rows that agree on every key keep the order of the table.\<close>

definition catalog_order :: "product_with_relations \<Rightarrow> int list" where
  "catalog_order p =
     (case p_panel p of None \<Rightarrow> [] | Some pn \<Rightarrow> [pn_displayOrder pn, pn_createdAt pn])
     @ [cat_displayOrder (p_category p), cat_createdAt (p_category p),
        pr_displayOrder (p_row p), pr_priceToman (p_row p), pr_createdAt (p_row p)]"

type_synonym category_entry = "category_row \<times> product_with_relations list"
type_synonym panel_entry = "panel_row \<times> (string \<times> category_entry) list"

text \<open>The maps of the code iterate in insertion order: association lists updated in place.\<close>

definition group_product ::
  "UserGroup \<Rightarrow> product_with_relations \<Rightarrow> (string \<times> panel_entry) list \<Rightarrow> (string \<times> panel_entry) list"
  where
  "group_product grp product byPanel =
     (case p_panel product of
        None \<Rightarrow> byPanel
      | Some pn \<Rightarrow>
          if \<not> isProductVisible product grp then byPanel
          else
            let panelEntry = (case map_of byPanel (pn_id pn) of Some e \<Rightarrow> e | None \<Rightarrow> (pn, []));
                catId = pr_categoryId (p_row product);
                categoryEntry =
                  (case map_of (snd panelEntry) catId of
                     Some e \<Rightarrow> e | None \<Rightarrow> (p_category product, []))
            in AList.update (pn_id pn)
                 (fst panelEntry,
                  AList.update catId (fst categoryEntry, snd categoryEntry @ [product])
                    (snd panelEntry))
                 byPanel)"

definition group_products ::
  "UserGroup \<Rightarrow> product_with_relations list \<Rightarrow> (string \<times> panel_entry) list" where
  "group_products grp ps = fold (group_product grp) ps []"

definition category_dto :: "category_entry \<Rightarrow> catalog_category_dto" where
  "category_dto e =
     \<lparr>cc_categoryId = catalogPublicId (cat_id (fst e)), cc_label = cat_name (fst e),
      cc_products = map toProductDto (snd e)\<rparr>"

definition min_price :: "int option \<Rightarrow> product_with_relations \<Rightarrow> int option" where
  "min_price m p =
     (case m of None \<Rightarrow> Some (pr_priceToman (p_row p)) | Some x \<Rightarrow> Some (min x (pr_priceToman (p_row p))))"

definition location_dto :: "panel_entry \<Rightarrow> catalog_location_dto option" where
  "location_dto entry =
     (let shown = filter (\<lambda>e. snd e \<noteq> []) (map snd (snd entry));
          from = foldl min_price None (concat (map snd shown))
      in if shown = [] then None
         else Some \<lparr>cl_locationId = catalogPublicId (pn_id (fst entry)),
           cl_label = pn_name (fst entry),
           cl_categories = map category_dto shown,
           cl_fromPriceToman = (case from of None \<Rightarrow> 0 | Some x \<Rightarrow> x),
           cl_productCount = sum_list (map (\<lambda>e. length (snd e)) shown)\<rparr>)"

definition catalog_candidates :: "db \<Rightarrow> product_with_relations list" where
  "catalog_candidates s = sort_key catalog_order (filter catalog_where (all_products s))"

definition loadMiniAppCatalog :: "db \<Rightarrow> UserGroup \<Rightarrow> catalog_location_dto list" where
  "loadMiniAppCatalog s grp =
     List.map_filter (\<lambda>e. location_dto (snd e)) (group_products grp (catalog_candidates s))"

section \<open>What the catalog contains\<close>

definition cat_bag :: "(string \<times> category_entry) list \<Rightarrow> product_with_relations multiset" where
  "cat_bag cats = (\<Sum>e\<leftarrow>cats. mset (snd (snd e)))"

definition tree_bag :: "(string \<times> panel_entry) list \<Rightarrow> product_with_relations multiset" where
  "tree_bag m = (\<Sum>e\<leftarrow>m. cat_bag (snd (snd e)))"

definition no_empty_group :: "(string \<times> panel_entry) list \<Rightarrow> bool" where
  "no_empty_group m \<longleftrightarrow>
     (\<forall>e \<in> set m. snd (snd e) \<noteq> [] \<and> (\<forall>c \<in> set (snd (snd e)). snd (snd c) \<noteq> []))"

lemma update_contents:
  fixes f :: "'v \<Rightarrow> 'a multiset"
  shows "(\<Sum>e\<leftarrow>AList.update k v m. f (snd e)) + (case map_of m k of None \<Rightarrow> {#} | Some w \<Rightarrow> f w)
    = (\<Sum>e\<leftarrow>m. f (snd e)) + f v"
  by (induction m) (auto simp: ac_simps split: option.splits)

lemma update_contents_append:
  fixes f :: "'v \<Rightarrow> 'a multiset"
  assumes "f v = (case map_of m k of None \<Rightarrow> {#} | Some w \<Rightarrow> f w) + b"
  shows "(\<Sum>e\<leftarrow>AList.update k v m. f (snd e)) = (\<Sum>e\<leftarrow>m. f (snd e)) + b"
  using update_contents [of f k v m] unfolding assms by (simp add: ac_simps)

lemma in_update: "e \<in> set (AList.update k v m) \<Longrightarrow> e = (k, v) \<or> e \<in> set m"
  by (induction m) (auto split: if_splits)

lemma cat_bag_update:
  "cat_bag (AList.update c (r, (case map_of cats c of None \<Rightarrow> [] | Some e \<Rightarrow> snd e) @ [p]) cats)
    = cat_bag cats + {#p#}"
  unfolding cat_bag_def
  by (rule update_contents_append [where f = "\<lambda>e. mset (snd e)"]) (auto split: option.split)

lemma group_product_bag:
  "tree_bag (group_product g p m) =
     tree_bag m + (if p_panel p \<noteq> None \<and> isProductVisible p g then {#p#} else {#})"
proof (cases "p_panel p")
  case None
  then show ?thesis by (simp add: group_product_def)
next
  case (Some pn)
  show ?thesis
  proof (cases "isProductVisible p g")
    case True
    let ?cats = "case map_of m (pn_id pn) of None \<Rightarrow> [] | Some e \<Rightarrow> snd e"
    let ?c = "pr_categoryId (p_row p)"
    let ?new = "AList.update ?c
      (case map_of ?cats ?c of Some e \<Rightarrow> fst e | None \<Rightarrow> p_category p,
       (case map_of ?cats ?c of None \<Rightarrow> [] | Some e \<Rightarrow> snd e) @ [p]) ?cats"
    have "group_product g p m = AList.update (pn_id pn)
        (case map_of m (pn_id pn) of Some e \<Rightarrow> fst e | None \<Rightarrow> pn, ?new) m"
      using True Some by (auto simp: group_product_def Let_def split: option.split)
    moreover have "cat_bag ?new =
        (case map_of m (pn_id pn) of None \<Rightarrow> {#} | Some e \<Rightarrow> cat_bag (snd e)) + {#p#}"
      by (simp add: cat_bag_update) (simp add: cat_bag_def split: option.split)
    ultimately show ?thesis
      using True Some unfolding tree_bag_def
      by (simp add: update_contents_append [where f = "\<lambda>e. cat_bag (snd e)" and b = "{#p#}"])
  next
    case False
    with Some show ?thesis by (simp add: group_product_def)
  qed
qed

lemma group_products_bag:
  "tree_bag (group_products g ps) =
     mset (filter (\<lambda>p. p_panel p \<noteq> None \<and> isProductVisible p g) ps)"
proof -
  have "tree_bag (fold (group_product g) ps m) =
     tree_bag m + mset (filter (\<lambda>p. p_panel p \<noteq> None \<and> isProductVisible p g) ps)" for m
    by (induction ps arbitrary: m) (auto simp: group_product_bag ac_simps)
  then show ?thesis by (simp add: group_products_def tree_bag_def)
qed

lemma group_product_no_empty:
  assumes "no_empty_group m"
  shows "no_empty_group (group_product g p m)"
proof (cases "p_panel p = None \<or> \<not> isProductVisible p g")
  case True
  with assms show ?thesis by (auto simp: group_product_def split: option.split)
next
  case False
  then obtain pn where pn: "p_panel p = Some pn" and v: "isProductVisible p g" by auto
  let ?pe = "case map_of m (pn_id pn) of Some e \<Rightarrow> e | None \<Rightarrow> (pn, [])"
  have old: "\<forall>c \<in> set (snd ?pe). snd (snd c) \<noteq> []"
  proof (cases "map_of m (pn_id pn)")
    case (Some e)
    then have "(pn_id pn, e) \<in> set m" by (rule map_of_SomeD)
    with assms have "\<forall>c \<in> set (snd (snd (pn_id pn, e))). snd (snd c) \<noteq> []"
      unfolding no_empty_group_def by blast
    with Some show ?thesis by simp
  qed simp
  have new: "AList.update k w cats \<noteq> []" for k w and cats :: "(string \<times> category_entry) list"
    by (cases cats) auto
  show ?thesis
    unfolding no_empty_group_def group_product_def pn
    using assms v old new by (auto simp: Let_def no_empty_group_def dest!: in_update)
qed

lemma group_products_no_empty: "no_empty_group (group_products g ps)"
proof -
  have "no_empty_group m \<Longrightarrow> no_empty_group (fold (group_product g) ps m)" for m
    by (induction ps arbitrary: m) (auto simp: group_product_no_empty)
  moreover have "no_empty_group []" by (simp add: no_empty_group_def)
  ultimately show ?thesis by (simp add: group_products_def)
qed

lemma min_price_foldl:
  "\<exists>y. foldl min_price (Some x) ps = Some y \<and> y \<le> x \<and> (\<forall>p \<in> set ps. y \<le> pr_priceToman (p_row p))
     \<and> (y = x \<or> (\<exists>p \<in> set ps. y = pr_priceToman (p_row p)))"
proof (induction ps arbitrary: x)
  case Nil
  then show ?case by simp
next
  case (Cons p ps)
  obtain y where "foldl min_price (Some (min x (pr_priceToman (p_row p)))) ps = Some y"
    and "y \<le> min x (pr_priceToman (p_row p))" and "\<forall>q \<in> set ps. y \<le> pr_priceToman (p_row q)"
    and "y = min x (pr_priceToman (p_row p)) \<or> (\<exists>q \<in> set ps. y = pr_priceToman (p_row q))"
    using Cons.IH by blast
  moreover have "foldl min_price (Some x) (p # ps) =
      foldl min_price (Some (min x (pr_priceToman (p_row p)))) ps"
    by (simp add: min_price_def)
  ultimately show ?case by (auto simp: min_def split: if_splits)
qed

lemma min_price_foldl_None:
  assumes "ps \<noteq> []"
  shows "\<exists>y. foldl min_price None ps = Some y \<and> (\<forall>p \<in> set ps. y \<le> pr_priceToman (p_row p))
     \<and> (\<exists>p \<in> set ps. y = pr_priceToman (p_row p))"
proof -
  obtain p qs where ps: "ps = p # qs" using assms by (cases ps) auto
  have "foldl min_price None ps = foldl min_price (Some (pr_priceToman (p_row p))) qs"
    by (simp add: ps min_price_def)
  then show ?thesis using min_price_foldl [of "pr_priceToman (p_row p)" qs] by (auto simp: ps)
qed

definition location_ok :: "catalog_location_dto \<Rightarrow> bool" where
  "location_ok l \<longleftrightarrow>
     (let ps = concat (map cc_products (cl_categories l)) in
      cl_categories l \<noteq> [] \<and> (\<forall>c \<in> set (cl_categories l). cc_products c \<noteq> [])
      \<and> cl_productCount l = length ps
      \<and> (\<forall>p \<in> set ps. cl_fromPriceToman l \<le> cp_priceToman p)
      \<and> (\<exists>p \<in> set ps. cl_fromPriceToman l = cp_priceToman p))"

lemma location_dto_Some:
  assumes "snd e \<noteq> []" and "\<forall>c \<in> set (snd e). snd (snd c) \<noteq> []"
  shows "\<exists>l. location_dto e = Some l \<and> location_ok l
    \<and> concat (map cc_products (cl_categories l)) = map toProductDto (concat (map (\<lambda>c. snd (snd c)) (snd e)))"
proof -
  let ?shown = "filter (\<lambda>e. snd e \<noteq> []) (map snd (snd e))"
  have shown: "?shown = map snd (snd e)" using assms(2) by (auto intro: filter_True)
  let ?ps = "concat (map (\<lambda>c. snd (snd c)) (snd e))"
  have cat: "concat (map snd (map snd (snd e))) = ?ps" by (simp add: comp_def)
  have "?ps \<noteq> []" using assms by (cases "snd e") auto
  then obtain y where y: "foldl min_price None ?ps = Some y"
      "\<forall>p \<in> set ?ps. y \<le> pr_priceToman (p_row p)" "\<exists>p \<in> set ?ps. y = pr_priceToman (p_row p)"
    using min_price_foldl_None by blast
  let ?l = "\<lparr>cl_locationId = catalogPublicId (pn_id (fst e)), cl_label = pn_name (fst e),
    cl_categories = map category_dto (map snd (snd e)), cl_fromPriceToman = y,
    cl_productCount = sum_list (map (\<lambda>e. length (snd e)) (map snd (snd e)))\<rparr>"
  have l: "location_dto e = Some ?l"
    unfolding location_dto_def Let_def shown cat y(1) using assms(1) by simp
  have c: "concat (map cc_products (cl_categories ?l)) = map toProductDto ?ps"
    by (simp add: category_dto_def comp_def map_concat)
  have "cl_categories ?l \<noteq> []" using assms(1) by simp
  moreover have "\<forall>c \<in> set (cl_categories ?l). cc_products c \<noteq> []"
    using assms(2) by (auto simp: category_dto_def)
  moreover have "cl_productCount ?l = length (map toProductDto ?ps)"
    by (simp add: length_concat comp_def)
  moreover have "\<forall>p \<in> set (map toProductDto ?ps). cl_fromPriceToman ?l \<le> cp_priceToman p"
    using y(2) by (simp add: toProductDto_def)
  moreover have "\<exists>p \<in> set (map toProductDto ?ps). cl_fromPriceToman ?l = cp_priceToman p"
    using y(3) by (simp add: toProductDto_def)
  ultimately have "location_ok ?l" unfolding location_ok_def Let_def c by blast
  with l c show ?thesis by blast
qed

lemma locations_of_groups:
  assumes "no_empty_group m"
  shows "(\<forall>l \<in> set (List.map_filter (\<lambda>e. location_dto (snd e)) m). location_ok l)
    \<and> mset (concat (map (\<lambda>l. concat (map cc_products (cl_categories l)))
        (List.map_filter (\<lambda>e. location_dto (snd e)) m))) = image_mset toProductDto (tree_bag m)"
  using assms
proof (induction m)
  case Nil
  then show ?case by (simp add: List.map_filter_simps tree_bag_def)
next
  case (Cons e m)
  have e: "snd (snd e) \<noteq> []" "\<forall>c \<in> set (snd (snd e)). snd (snd c) \<noteq> []" and m: "no_empty_group m"
    using Cons.prems by (auto simp: no_empty_group_def)
  obtain l where l: "location_dto (snd e) = Some l" "location_ok l"
    "concat (map cc_products (cl_categories l)) =
       map toProductDto (concat (map (\<lambda>c. snd (snd c)) (snd (snd e))))"
    using location_dto_Some [OF e] by blast
  have bag: "mset (concat (map (\<lambda>c. snd (snd c)) cs)) = cat_bag cs"
    for cs :: "(string \<times> category_entry) list"
    by (induction cs) (simp_all add: cat_bag_def)
  show ?case
    using Cons.IH [OF m] l(1,2)
    by (simp add: List.map_filter_simps l(3) bag tree_bag_def del: mset_concat)
qed

lemma catalog_exact:
  "mset (concat (map (\<lambda>l. concat (map cc_products (cl_categories l))) (loadMiniAppCatalog s g))) =
     mset (map toProductDto (filter (\<lambda>p. catalog_where p \<and> isProductVisible p g) (all_products s)))
   \<and> list_all location_ok (loadMiniAppCatalog s g)"
proof -
  let ?m = "group_products g (catalog_candidates s)"
  note r = locations_of_groups [OF group_products_no_empty, of g "catalog_candidates s"]
  have w: "catalog_where p \<Longrightarrow> p_panel p \<noteq> None" for p
    by (auto simp: catalog_where_def split: option.splits)
  have "tree_bag ?m = filter_mset (\<lambda>p. p_panel p \<noteq> None \<and> isProductVisible p g)
      (filter_mset catalog_where (mset (all_products s)))"
    by (simp add: group_products_bag catalog_candidates_def)
  also have "\<dots> = filter_mset (\<lambda>p. catalog_where p \<and> isProductVisible p g) (mset (all_products s))"
    using w by (auto simp: filter_filter_mset intro!: filter_mset_cong)
  finally show ?thesis using r by (simp add: loadMiniAppCatalog_def list_all_iff)
qed

lemmas catalog_bag = catalog_exact [THEN conjunct1]

text \<open>
  The catalog shows exactly the products the user's group may buy, each exactly once with its
  own price and terms; no location or category in it is empty, every location counts its products
  right and quotes the lowest price among them.
\<close>

theorem catalog_shows_exactly_the_visible_products:
  "mset (concat (map (\<lambda>l. concat (map cc_products (cl_categories l))) (loadMiniAppCatalog s g))) =
     mset (map toProductDto (filter (\<lambda>p. catalog_where p \<and> isProductVisible p g) (all_products s)))
   \<and> list_all location_ok (loadMiniAppCatalog s g)"
  by (rule catalog_exact)

section \<open>Resolving a product\<close>

definition product_match :: "string \<Rightarrow> product_with_relations \<Rightarrow> bool" where
  "product_match publicProductId p \<longleftrightarrow>
     starts_with (pr_id (p_row p)) (js_lower publicProductId) \<and> catalog_where p"

text \<open>
  The query has no order of its own: \<open>rows\<close> is the table in the order the database returns it.
\<close>

definition resolve_purchasable ::
  "product_with_relations list \<Rightarrow> UserGroup \<Rightarrow> string \<Rightarrow> product_with_relations option" where
  "resolve_purchasable rows grp publicProductId =
     (if \<not> isCatalogPublicId (JStr publicProductId) then None
      else
        let matches = take 2 (filter (product_match publicProductId) rows);
            eligible = filter (\<lambda>p. isProductVisible p grp) matches
        in case eligible of [p] \<Rightarrow> Some p | _ \<Rightarrow> None)"

definition resolvePurchasableProduct ::
  "db \<Rightarrow> UserGroup \<Rightarrow> string \<Rightarrow> product_with_relations option" where
  "resolvePurchasableProduct s grp publicProductId =
     resolve_purchasable (all_products s) grp publicProductId"

lemma single_case: "(case xs of [p] \<Rightarrow> Some p | _ \<Rightarrow> None) = Some y \<longleftrightarrow> xs = [y]"
  by (auto split: list.splits)

lemma resolve_purchasable_Some:
  assumes "resolve_purchasable rows g pid = Some p"
  shows "hex8 pid \<and> p \<in> set rows \<and> product_match pid p \<and> isProductVisible p g"
proof -
  have "filter (\<lambda>p. isProductVisible p g) (take 2 (filter (product_match pid) rows)) = [p]"
    and h: "hex8 pid"
    using assms by (auto simp: resolve_purchasable_def Let_def single_case isCatalogPublicId_def
        split: if_splits)
  then have "p \<in> set (filter (\<lambda>p. isProductVisible p g) (take 2 (filter (product_match pid) rows)))"
    by simp
  with h show ?thesis by (auto dest: in_set_takeD)
qed

lemma resolve_purchasable_unique:
  assumes "hex8 pid" and "filter (product_match pid) rows = [p]" and "isProductVisible p g"
  shows "resolve_purchasable rows g pid = Some p"
  using assms by (simp add: resolve_purchasable_def isCatalogPublicId_def)

text \<open>
  What the buyer can order is what the catalog offered: a resolved product is one the catalog
  shows to that group, under the identifier asked for; and a product of the catalog whose identifier
  no other sellable row shares is resolved by it, in upper or lower case.
\<close>

theorem resolve_catalog_product:
  "(resolvePurchasableProduct s g pid = Some p \<longrightarrow>
      catalogPublicId (pr_id (p_row p)) = js_lower pid
      \<and> toProductDto p \<in> set (concat (map (\<lambda>l. concat (map cc_products (cl_categories l)))
          (loadMiniAppCatalog s g))))
   \<and> (hex8 pid \<and> filter (product_match pid) (all_products s) = [p] \<and> isProductVisible p g \<longrightarrow>
      resolvePurchasableProduct s g pid = Some p)"
proof -
  have shown: "toProductDto p \<in> set (concat (map (\<lambda>l. concat (map cc_products (cl_categories l)))
          (loadMiniAppCatalog s g)))"
    if "p \<in> set (all_products s)" "catalog_where p" "isProductVisible p g"
  proof -
    let ?l = "concat (map (\<lambda>l. concat (map cc_products (cl_categories l))) (loadMiniAppCatalog s g))"
    have "set_mset (mset ?l) = set (map toProductDto
        (filter (\<lambda>p. catalog_where p \<and> isProductVisible p g) (all_products s)))"
      using catalog_bag by (metis set_mset_mset)
    with that show ?thesis unfolding set_mset_mset by auto
  qed
  show ?thesis
    using resolve_purchasable_Some [of "all_products s" g pid p] shown catalog_id.prefix_match [of pid]
      resolve_purchasable_unique [of pid "all_products s" p g]
    by (auto simp: resolvePurchasableProduct_def product_match_def)
qed

end
