(* ===== verification/Discount.thy ===== *)
theory Discount
  imports Catalog
begin

text \<open>
  Discount codes (packages/service-renewal/src/discount.ts): the read-only validation shown to the
  user and the claim of one usage inside the payment transaction. The row lock of the claim is the
  atomicity of the transaction.
\<close>

datatype DiscountRejection = MALFORMED | UNKNOWN_CODE | NOT_STARTED | CODE_EXPIRED | EXHAUSTED
  | NOT_FOR_PURCHASE | NOT_FOR_RENEWAL | GROUP_NOT_ALLOWED | USER_LIMIT_REACHED

record discount_valid =
  dv_discountCode :: discount_row
  dv_discountAmountToman :: int
  dv_finalPriceToman :: int

text \<open>
  Prices and values are INTEGER columns and a percentage is at most 100, so that the product and the
  quotient are exact in the double arithmetic of the code; \<open>div\<close> is \<open>Math.floor\<close> of the quotient.
\<close>

definition calculateDiscountAmount :: "discount_row \<Rightarrow> int \<Rightarrow> int" where
  "calculateDiscountAmount code priceToman =
     (let amount = (case dc_type code of
            DiscountType_PERCENT \<Rightarrow> priceToman * dc_value code div 100
          | DiscountType_FIXED_AMOUNT \<Rightarrow> min (dc_value code) priceToman)
      in max 0 (min amount priceToman))"

definition find_code :: "db \<Rightarrow> string \<Rightarrow> discount_row option" where
  "find_code s c = find (\<lambda>r. dc_code r = c) (discounts s)"

definition lookup_code :: "db \<Rightarrow> string \<Rightarrow> discount_row option" where
  "lookup_code s input =
     (case find_code s input of
        None \<Rightarrow> if input \<noteq> js_upper input then find_code s (js_upper input) else None
      | Some c \<Rightarrow> Some c)"

definition not_started :: "int \<Rightarrow> int option \<Rightarrow> bool" where
  "not_started now t = (case t of None \<Rightarrow> False | Some x \<Rightarrow> now < x)"

definition has_expired :: "int \<Rightarrow> int option \<Rightarrow> bool" where
  "has_expired now t = (case t of None \<Rightarrow> False | Some x \<Rightarrow> x \<le> now)"

definition limit_reached :: "int \<Rightarrow> int option \<Rightarrow> bool" where
  "limit_reached used limit = (case limit of None \<Rightarrow> False | Some x \<Rightarrow> x \<le> used)"

definition group_allowed :: "json option \<Rightarrow> UserGroup \<Rightarrow> bool" where
  "group_allowed groups g =
     (case groups of
        Some (JArr xs) \<Rightarrow>
          xs = [] \<or> JStr ''ALL'' \<in> set xs \<or> JStr (group_name g) \<in> set xs
      | _ \<Rightarrow> True)"

definition usage_count :: "db \<Rightarrow> string \<Rightarrow> string \<Rightarrow> int" where
  "usage_count s code userId =
     int (count_where (\<lambda>u. du_discountCodeId u = code \<and> du_userId u = userId) (usages s))"

definition validateDiscountCode ::
  "db \<Rightarrow> int \<Rightarrow> string \<Rightarrow> string \<Rightarrow> UserGroup \<Rightarrow> int \<Rightarrow> DiscountPurpose \<Rightarrow> DiscountRejection + discount_valid"
  where
  "validateDiscountCode s now rawCode userId grp priceToman purpose =
     (let input = js_trim rawCode in
      if length input = 0 \<or> 64 < length input then Inl MALFORMED
      else case lookup_code s input of
        None \<Rightarrow> Inl UNKNOWN_CODE
      | Some code \<Rightarrow>
          if \<not> dc_isActive code then Inl UNKNOWN_CODE
          else if not_started now (dc_startsAt code) then Inl NOT_STARTED
          else if has_expired now (dc_expiresAt code) then Inl CODE_EXPIRED
          else if limit_reached (dc_totalUsedCount code) (dc_totalUsageLimit code) then Inl EXHAUSTED
          else if purpose = Purpose_PURCHASE \<and> dc_appliesTo code = AppliesTo_RENEWAL
            then Inl NOT_FOR_PURCHASE
          else if purpose = Purpose_RENEWAL \<and> dc_appliesTo code = AppliesTo_PURCHASE
            then Inl NOT_FOR_RENEWAL
          else if \<not> group_allowed (dc_allowedGroups code) grp then Inl GROUP_NOT_ALLOWED
          else if limit_reached (usage_count s (dc_id code) userId) (dc_perUserUsageLimit code)
            then Inl USER_LIMIT_REACHED
          else
            let amount = calculateDiscountAmount code priceToman in
            Inr \<lparr>dv_discountCode = code, dv_discountAmountToman = amount,
              dv_finalPriceToman = max 0 (priceToman - amount)\<rparr>)"

section \<open>Claiming a usage\<close>

record claim_args =
  ca_discountCodeId :: string
  ca_userId :: string
  ca_orderId :: string
  ca_checkoutSessionId :: string
  ca_amountToman :: int

datatype DiscountClaimOutcome = ClaimOk bool | CLAIM_FAILED

definition code_usable :: "int \<Rightarrow> discount_row \<Rightarrow> bool" where
  "code_usable now code \<longleftrightarrow>
     dc_isActive code \<and> \<not> not_started now (dc_startsAt code) \<and> \<not> has_expired now (dc_expiresAt code)
     \<and> \<not> limit_reached (dc_totalUsedCount code) (dc_totalUsageLimit code)"

definition bump_used :: "string \<Rightarrow> db \<Rightarrow> nat \<times> db" where
  "bump_used code s =
     (let P = (\<lambda>r. dc_id r = code \<and> dc_isActive r) in
      (count_where P (discounts s),
       s\<lparr>discounts :=
         update_where P (\<lambda>r. r\<lparr>dc_totalUsedCount := dc_totalUsedCount r + 1\<rparr>) (discounts s)\<rparr>))"

definition claim_row :: "claim_args \<Rightarrow> string \<Rightarrow> usage_row" where
  "claim_row args i =
     \<lparr>du_id = i, du_discountCodeId = ca_discountCodeId args, du_userId = ca_userId args,
      du_orderId = Some (ca_orderId args), du_checkoutSessionId = Some (ca_checkoutSessionId args),
      du_amountToman = ca_amountToman args\<rparr>"

definition claimDiscountUsage :: "int \<Rightarrow> claim_args \<Rightarrow> ('e, DiscountClaimOutcome) tx" where
  "claimDiscountUsage now args =
     tx_bind (tx_read (\<lambda>s. \<exists>u \<in> set (usages s). du_checkoutSessionId u = Some (ca_checkoutSessionId args)))
      (\<lambda>existing. if existing then tx_return (ClaimOk True) else
     tx_bind (tx_read (\<lambda>s. find (\<lambda>r. dc_id r = ca_discountCodeId args) (discounts s)))
      (\<lambda>code. case code of
         None \<Rightarrow> tx_return CLAIM_FAILED
       | Some c \<Rightarrow>
           if \<not> code_usable now c then tx_return CLAIM_FAILED else
     tx_bind (tx_read (\<lambda>s. usage_count s (ca_discountCodeId args) (ca_userId args)))
      (\<lambda>used. if limit_reached used (dc_perUserUsageLimit c) then tx_return CLAIM_FAILED else
     tx_bind (tx_do draw_id) (\<lambda>i.
     tx_bind (create_usage (claim_row args i)) (\<lambda>_.
     tx_bind (tx_do (bump_used (ca_discountCodeId args))) (\<lambda>bumped.
     if bumped \<noteq> 1 then tx_return CLAIM_FAILED
     else tx_return (ClaimOk False)))))))"

section \<open>Properties\<close>

lemma calculateDiscountAmount_range:
  "0 \<le> p \<Longrightarrow> 0 \<le> calculateDiscountAmount c p \<and> calculateDiscountAmount c p \<le> p"
  by (auto simp: calculateDiscountAmount_def Let_def)

lemma validateDiscountCode_Inr:
  assumes "validateDiscountCode s now raw u g p purpose = Inr v"
  shows "lookup_code s (js_trim raw) = Some (dv_discountCode v)
    \<and> code_usable now (dv_discountCode v)
    \<and> group_allowed (dc_allowedGroups (dv_discountCode v)) g
    \<and> \<not> limit_reached (usage_count s (dc_id (dv_discountCode v)) u) (dc_perUserUsageLimit (dv_discountCode v))
    \<and> dv_discountAmountToman v = calculateDiscountAmount (dv_discountCode v) p
    \<and> dv_finalPriceToman v = max 0 (p - dv_discountAmountToman v)"
  using assms
  by (auto simp: validateDiscountCode_def Let_def code_usable_def split: option.splits if_splits)

lemma lookup_code_in: "lookup_code s i = Some c \<Longrightarrow> c \<in> set (discounts s)"
  by (auto simp: lookup_code_def find_code_def dest: find_Some_in split: option.splits if_splits)

text \<open>
  Whatever code a user types, the validated discount lies between zero and the price, the
  final price is the price less the discount and never negative, and a percentage code takes exactly
  its share rounded down.
\<close>

theorem validated_discount_amounts:
  assumes "validateDiscountCode s now raw u g p purpose = Inr v" and "0 \<le> p"
  shows "0 \<le> dv_discountAmountToman v \<and> dv_discountAmountToman v \<le> p
    \<and> dv_finalPriceToman v = p - dv_discountAmountToman v \<and> 0 \<le> dv_finalPriceToman v
    \<and> (dc_type (dv_discountCode v) = DiscountType_PERCENT \<and> 0 \<le> dc_value (dv_discountCode v)
         \<and> dc_value (dv_discountCode v) \<le> 100 \<longrightarrow>
       dv_discountAmountToman v = p * dc_value (dv_discountCode v) div 100)"
proof -
  let ?c = "dv_discountCode v"
  have a: "dv_discountAmountToman v = calculateDiscountAmount ?c p"
    and f: "dv_finalPriceToman v = max 0 (p - dv_discountAmountToman v)"
    using validateDiscountCode_Inr [OF assms(1)] by blast+
  have "calculateDiscountAmount ?c p = p * dc_value ?c div 100"
    if "dc_type ?c = DiscountType_PERCENT" "0 \<le> dc_value ?c" "dc_value ?c \<le> 100"
  proof -
    have "p * dc_value ?c \<le> p * 100" using that(3) assms(2) by (rule mult_left_mono)
    then have "p * dc_value ?c div 100 \<le> p" by simp
    moreover have "0 \<le> p * dc_value ?c div 100"
      using that(2) assms(2) by (simp add: pos_imp_zdiv_nonneg_iff)
    ultimately show ?thesis using that(1) by (simp add: calculateDiscountAmount_def)
  qed
  then show ?thesis using a f calculateDiscountAmount_range [OF assms(2), of ?c] by auto
qed

lemma count_active_code:
  assumes "unique_by dc_id t" and "find (\<lambda>r. dc_id r = x) t = Some c" and "dc_isActive c"
  shows "count_where (\<lambda>r. dc_id r = x \<and> dc_isActive r) t = 1"
  using assms by (simp add: count_where_key)

definition claimed_db :: "claim_args \<Rightarrow> db \<Rightarrow> db" where
  "claimed_db a s = s\<lparr>drawn := Suc (drawn s),
     usages := usages s @ [claim_row a (uuids s (drawn s))],
     discounts := update_where (\<lambda>r. dc_id r = ca_discountCodeId a \<and> dc_isActive r)
       (\<lambda>r. r\<lparr>dc_totalUsedCount := dc_totalUsedCount r + 1\<rparr>) (discounts s)\<rparr>"

definition claim_allowed :: "int \<Rightarrow> claim_args \<Rightarrow> db \<Rightarrow> bool" where
  "claim_allowed now a s \<longleftrightarrow>
     (case find (\<lambda>r. dc_id r = ca_discountCodeId a) (discounts s) of
        None \<Rightarrow> False
      | Some c \<Rightarrow> code_usable now c
          \<and> \<not> limit_reached (usage_count s (ca_discountCodeId a) (ca_userId a)) (dc_perUserUsageLimit c))"

lemma claimDiscountUsage_exact:
  assumes "unique_by dc_id (discounts s)"
  shows "claimDiscountUsage now a s =
    (if \<exists>u \<in> set (usages s). du_checkoutSessionId u = Some (ca_checkoutSessionId a)
       then Inr (ClaimOk True, s)
     else if \<not> claim_allowed now a s then Inr (CLAIM_FAILED, s)
     else if \<not> int4 (ca_amountToman a) then Inl DbFault
     else Inr (ClaimOk False, claimed_db a s))"
proof -
  have act: "code_usable now c \<Longrightarrow> dc_isActive c" for c by (simp add: code_usable_def)
  show ?thesis
    using count_active_code [OF assms, of "ca_discountCodeId a"] act
    by (auto simp: claimDiscountUsage_def tx_defs claim_allowed_def create_usage_def clash_def
        claim_row_def bump_used_def Let_def claimed_db_def draw_id_def split: option.splits)
qed

lemma post_claim:
  assumes "unique_by dc_id (discounts s)"
  shows "post (claimDiscountUsage now a) s Q =
    (if \<exists>u \<in> set (usages s). du_checkoutSessionId u = Some (ca_checkoutSessionId a)
       then Q (ClaimOk True) s
     else if \<not> claim_allowed now a s then Q CLAIM_FAILED s
     else int4 (ca_amountToman a) \<longrightarrow> Q (ClaimOk False) (claimed_db a s))"
  by (simp add: post_def claimDiscountUsage_exact [OF assms])

text \<open>
  Claiming a discount usage in the payment transaction never passes a limit and never counts a
  checkout twice. A checkout that already holds its usage changes nothing; a refused claim changes
  nothing; a successful one appends exactly one usage row for that checkout and raises the used
  count of that one code by one, after which neither the code's total limit nor the user's own limit
  is exceeded.
\<close>

theorem claim_respects_limits:
  assumes "unique_by dc_id (discounts s)" and "claimDiscountUsage now a s = Inr (r, s')"
  shows "(r = CLAIM_FAILED \<or> r = ClaimOk True \<longrightarrow> s' = s)
    \<and> (r = ClaimOk False \<longrightarrow>
        (\<forall>u \<in> set (usages s). du_checkoutSessionId u \<noteq> Some (ca_checkoutSessionId a))
        \<and> usages s' = usages s @ [claim_row a (uuids s (drawn s))]
        \<and> (\<exists>c c'. find (\<lambda>r. dc_id r = ca_discountCodeId a) (discounts s) = Some c
            \<and> find (\<lambda>r. dc_id r = ca_discountCodeId a) (discounts s') = Some c'
            \<and> c' = c\<lparr>dc_totalUsedCount := dc_totalUsedCount c + 1\<rparr>
            \<and> (\<forall>n. dc_totalUsageLimit c = Some n \<longrightarrow> dc_totalUsedCount c' \<le> n)
            \<and> (\<forall>n. dc_perUserUsageLimit c = Some n \<longrightarrow>
                 usage_count s' (ca_discountCodeId a) (ca_userId a) \<le> n)))"
proof (cases "r = ClaimOk False")
  case False
  then show ?thesis using assms(2) by (auto simp: claimDiscountUsage_exact [OF assms(1)] split: if_splits)
next
  case True
  then have fresh: "\<forall>u \<in> set (usages s). du_checkoutSessionId u \<noteq> Some (ca_checkoutSessionId a)"
    and allowed: "claim_allowed now a s" and s': "s' = claimed_db a s"
    using assms(2) by (auto simp: claimDiscountUsage_exact [OF assms(1)] split: if_splits)
  from allowed obtain c where c: "find (\<lambda>r. dc_id r = ca_discountCodeId a) (discounts s) = Some c"
    and use: "code_usable now c"
    and per: "\<not> limit_reached (usage_count s (ca_discountCodeId a) (ca_userId a)) (dc_perUserUsageLimit c)"
    by (auto simp: claim_allowed_def split: option.splits)
  have cid: "dc_id c = ca_discountCodeId a" using c by (auto dest: find_Some_in)
  let ?c' = "c\<lparr>dc_totalUsedCount := dc_totalUsedCount c + 1\<rparr>"
  have "find (\<lambda>r. dc_id r = ca_discountCodeId a) (discounts s') = Some ?c'"
    using c use cid by (simp add: s' claimed_db_def find_update_where code_usable_def)
  moreover have "\<forall>n. dc_totalUsageLimit c = Some n \<longrightarrow> dc_totalUsedCount ?c' \<le> n"
    using use by (auto simp: code_usable_def limit_reached_def)
  moreover have "usage_count s' (ca_discountCodeId a) (ca_userId a) =
      usage_count s (ca_discountCodeId a) (ca_userId a) + 1"
    by (simp add: s' claimed_db_def usage_count_def count_where_append count_where_single claim_row_def)
  moreover have "usages s' = usages s @ [claim_row a (uuids s (drawn s))]"
    by (simp add: s' claimed_db_def)
  ultimately show ?thesis using True c per fresh by (auto simp: limit_reached_def)
qed

text \<open>
  What the screen promises, the payment keeps: a code the validation accepts is accepted by the
  claim of any checkout that has no usage yet, in the same database at the same time.
\<close>

theorem validated_code_can_be_claimed:
  assumes "validateDiscountCode s now raw u g p purpose = Inr v"
    and "unique_by dc_id (discounts s)"
    and "ca_discountCodeId a = dc_id (dv_discountCode v)" and "ca_userId a = u"
    and "ca_amountToman a = dv_discountAmountToman v" and "0 \<le> p" and "p \<le> INT4_MAX"
  shows "\<exists>again s'. claimDiscountUsage now a s = Inr (ClaimOk again, s')
    \<and> (again \<longleftrightarrow> (\<exists>x \<in> set (usages s). du_checkoutSessionId x = Some (ca_checkoutSessionId a)))"
proof -
  note v = validateDiscountCode_Inr [OF assms(1)]
  have "find (\<lambda>r. dc_id r = ca_discountCodeId a) (discounts s) = Some (dv_discountCode v)"
    using v lookup_code_in assms(2,3) find_unique by metis
  then have "claim_allowed now a s" using v assms(3,4) by (simp add: claim_allowed_def)
  moreover have "int4 (ca_amountToman a)"
    using v assms(5-7) calculateDiscountAmount_range [OF assms(6), of "dv_discountCode v"]
    by (auto simp: int4_def INT4_MIN_def INT4_MAX_def)
  ultimately show ?thesis by (simp add: claimDiscountUsage_exact [OF assms(2)])
qed

end
