(* ===== verification/LowBalance.thy ===== *)
theory LowBalance
  imports Contract
begin

text \<open>
  The low-balance contract shared by the observer, the sweep and the admin screens
  (packages/shared/src/low-balance.ts): boundaries, the alert machine as a pure function, the
  notification identity, the parser of typed amounts and the payload of a notification.
\<close>

section \<open>Configuration and boundaries\<close>

definition LOW_BALANCE_ENABLED_KEY :: string where
  "LOW_BALANCE_ENABLED_KEY = ''low_balance_notification_enabled''"

definition LOW_BALANCE_THRESHOLD_KEY :: string where
  "LOW_BALANCE_THRESHOLD_KEY = ''low_balance_threshold''"

definition LOW_BALANCE_REARM_MARGIN_KEY :: string where
  "LOW_BALANCE_REARM_MARGIN_KEY = ''low_balance_rearm_margin''"

definition LOW_BALANCE_CONFIG_VERSION_KEY :: string where
  "LOW_BALANCE_CONFIG_VERSION_KEY = ''low_balance_config_version''"

definition LOW_BALANCE_TEMPLATE_KEY :: string where
  "LOW_BALANCE_TEMPLATE_KEY = ''low_balance_notification_text''"

definition INT32_MAX :: int where "INT32_MAX = 2147483647"

definition LOW_BALANCE_RULE_VERSION :: int where "LOW_BALANCE_RULE_VERSION = 1"

record LowBalanceConfig =
  lc_enabled :: bool
  lc_thresholdToman :: int
  lc_rearmMarginToman :: int
  lc_configVersion :: int

definition DEFAULT_LOW_BALANCE_THRESHOLD_TOMAN :: int where
  "DEFAULT_LOW_BALANCE_THRESHOLD_TOMAN = 100000"

definition DEFAULT_LOW_BALANCE_REARM_MARGIN_TOMAN :: int where
  "DEFAULT_LOW_BALANCE_REARM_MARGIN_TOMAN = 20000"

definition DEFAULT_LOW_BALANCE_CONFIG :: LowBalanceConfig where
  "DEFAULT_LOW_BALANCE_CONFIG =
     \<lparr>lc_enabled = False, lc_thresholdToman = DEFAULT_LOW_BALANCE_THRESHOLD_TOMAN,
      lc_rearmMarginToman = DEFAULT_LOW_BALANCE_REARM_MARGIN_TOMAN, lc_configVersion = 1\<rparr>"

definition rearmBoundaryToman :: "LowBalanceConfig \<Rightarrow> int" where
  "rearmBoundaryToman config =
     (let s = lc_thresholdToman config + lc_rearmMarginToman config
      in if s > INT32_MAX then INT32_MAX else s)"

definition isLowBalance :: "int \<Rightarrow> LowBalanceConfig \<Rightarrow> bool" where
  "isLowBalance balanceToman config \<longleftrightarrow> balanceToman \<le> lc_thresholdToman config"

definition isRearmed :: "int \<Rightarrow> LowBalanceConfig \<Rightarrow> bool" where
  "isRearmed balanceToman config \<longleftrightarrow> balanceToman > rearmBoundaryToman config"

datatype LowBalanceTransition = Transition_alert | Transition_rearm | Transition_none

definition evaluateLowBalanceTransition ::
  "LowBalanceAlertStateValue \<Rightarrow> int \<Rightarrow> LowBalanceConfig \<Rightarrow> LowBalanceTransition" where
  "evaluateLowBalanceTransition state balanceToman config =
     (if state = ARMED
      then if isLowBalance balanceToman config then Transition_alert else Transition_none
      else if isRearmed balanceToman config then Transition_rearm else Transition_none)"

section \<open>The identity of a notification\<close>

definition LOW_BALANCE_DEDUPE_PREFIX :: string where
  "LOW_BALANCE_DEDUPE_PREFIX = ''wallet-low-balance:v'' @ show_int LOW_BALANCE_RULE_VERSION @ '':''"

definition LOW_BALANCE_DEDUPE_SEPARATOR :: string where
  "LOW_BALANCE_DEDUPE_SEPARATOR = '':''"

definition lowBalanceDedupeKey :: "string \<Rightarrow> int \<Rightarrow> string" where
  "lowBalanceDedupeKey userId cycle =
     LOW_BALANCE_DEDUPE_PREFIX @ userId @ LOW_BALANCE_DEDUPE_SEPARATOR @ show_int cycle"

definition lowBalanceBackfillDedupeKey :: "string \<Rightarrow> int \<Rightarrow> string" where
  "lowBalanceBackfillDedupeKey userId cycle = lowBalanceDedupeKey userId cycle"

lemma append_sep_inject_right:
  assumes "c \<notin> set s" and "c \<notin> set t" and "a @ c # s = b @ c # t"
  shows "a = b \<and> s = t"
proof -
  have "rev s @ c # rev a = rev t @ c # rev b"
    using arg_cong [OF assms(3), of rev] by simp
  then have "rev s = rev t \<and> rev a = rev b"
    using assms(1,2) by (intro append_sep_inject) simp_all
  then show ?thesis by simp
qed

lemma lowBalanceDedupeKey_inject:
  "lowBalanceDedupeKey u c = lowBalanceDedupeKey v d \<longleftrightarrow> u = v \<and> c = d"
proof
  have colon: "CHR '':'' \<notin> set (show_int x)" for x
    using show_int_chars [of x] by (auto simp: is_digit_def char_code_def)
  assume "lowBalanceDedupeKey u c = lowBalanceDedupeKey v d"
  then have "u @ CHR '':'' # show_int c = v @ CHR '':'' # show_int d"
    by (simp add: lowBalanceDedupeKey_def LOW_BALANCE_DEDUPE_SEPARATOR_def)
  then have "u = v \<and> show_int c = show_int d"
    using colon by (intro append_sep_inject_right) simp_all
  then show "u = v \<and> c = d" by simp
qed simp

section \<open>Typed amounts\<close>

datatype LowBalanceAmountError = NOT_A_NUMBER | NOT_AN_INTEGER | NEGATIVE | TOO_LARGE

definition DIGIT_MAP :: "nat \<Rightarrow> nat option" where
  "DIGIT_MAP c =
     (if 1776 \<le> c \<and> c \<le> 1785 then Some (48 + (c - 1776))
      else if 1632 \<le> c \<and> c \<le> 1641 then Some (48 + (c - 1632))
      else None)"

definition amount_separator :: "nat \<Rightarrow> bool" where
  "amount_separator c \<longleftrightarrow> c \<in> {44, 32, 160, 1644, 1548, 95}"

definition normalize_amount :: "nat list \<Rightarrow> nat list" where
  "normalize_amount raw =
     map (\<lambda>c. case DIGIT_MAP c of Some d \<Rightarrow> d | None \<Rightarrow> c)
       (filter (\<lambda>c. \<not> amount_separator c) (wide_trim raw))"

definition ascii_digit :: "nat \<Rightarrow> bool" where
  "ascii_digit c \<longleftrightarrow> 48 \<le> c \<and> c \<le> 57"

definition drop_sign :: "nat list \<Rightarrow> nat list" where
  "drop_sign s = (case s of c # r \<Rightarrow> if c = 45 \<or> c = 43 then r else s | [] \<Rightarrow> [])"

text \<open>\<open>/^[-+]?\d+$/\<close> and \<open>/^[-+]?\d+([.\<dots>]\d+)$/\<close>, with U+066B as the second decimal point.\<close>

definition matches_integer :: "nat list \<Rightarrow> bool" where
  "matches_integer s \<longleftrightarrow> drop_sign s \<noteq> [] \<and> list_all ascii_digit (drop_sign s)"

definition matches_decimal :: "nat list \<Rightarrow> bool" where
  "matches_decimal s =
     (let ds = drop_sign s; ip = takeWhile ascii_digit ds
      in ip \<noteq> [] \<and> (case dropWhile ascii_digit ds of
            p # fp \<Rightarrow> (p = 46 \<or> p = 1643) \<and> fp \<noteq> [] \<and> list_all ascii_digit fp
          | [] \<Rightarrow> False))"

definition wide_nat :: "nat list \<Rightarrow> nat" where
  "wide_nat s = foldl (\<lambda>a c. 10 * a + (c - 48)) 0 s"

definition wide_int :: "nat list \<Rightarrow> int" where
  "wide_int s =
     (case s of c # r \<Rightarrow> if c = 45 then - int (wide_nat r) else int (wide_nat (drop_sign s)) | [] \<Rightarrow> 0)"

definition parseTomanAmount :: "nat list \<Rightarrow> LowBalanceAmountError + int" where
  "parseTomanAmount raw =
     (let normalized = normalize_amount raw in
      if normalized = [] then Inl NOT_A_NUMBER
      else if matches_decimal normalized then Inl NOT_AN_INTEGER
      else if \<not> matches_integer normalized then Inl NOT_A_NUMBER
      else let v = wide_int normalized in
        if \<bar>v\<bar> \<ge> DOUBLE_OVERFLOW then Inl NOT_A_NUMBER
        else if v < 0 then Inl NEGATIVE
        else if v > INT32_MAX then Inl TOO_LARGE
        else Inr v)"

section \<open>Amounts on the screen\<close>

text \<open>\<open>toLocaleString("en-US")\<close> of an integer: groups of three digits, from the right.\<close>

fun comma_groups :: "string \<Rightarrow> string" where
  "comma_groups (a # b # c # d # r) = a # b # c # CHR '','' # comma_groups (d # r)"
| "comma_groups ds = ds"

definition locale_int :: "int \<Rightarrow> string" where
  "locale_int n =
     (if n < 0 then CHR ''-'' # rev (comma_groups (rev (show_nat (nat (- n)))))
      else rev (comma_groups (rev (show_nat (nat n)))))"

text \<open>The currency word, as its UTF-8 bytes.\<close>

definition toman_word :: string where
  "toman_word = map char_of [216, 170, 217, 136, 217, 133, 216, 167, 217, 134 :: nat]"

definition formatTomanAmount :: "int \<Rightarrow> string" where
  "formatTomanAmount value = locale_int value @ '' '' @ toman_word"

section \<open>The payload of a notification\<close>

datatype AlertOrigin = Origin_event | Origin_backfill | Origin_reconcile

fun origin_name :: "AlertOrigin \<Rightarrow> string" where
  "origin_name Origin_event = ''event''"
| "origin_name Origin_backfill = ''backfill''"
| "origin_name Origin_reconcile = ''reconcile''"

record LowBalanceSnapshotArgs =
  ls_balanceToman :: int
  ls_thresholdToman :: int
  ls_rearmBoundaryToman :: int
  ls_configVersion :: int
  ls_alertCycle :: int
  ls_origin :: AlertOrigin

definition snapshot_button :: "string \<Rightarrow> string \<Rightarrow> json" where
  "snapshot_button action key = JObj [(''action'', JStr action), (''buttonTextKey'', JStr key)]"

definition buildLowBalanceSnapshot :: "LowBalanceSnapshotArgs \<Rightarrow> json" where
  "buildLowBalanceSnapshot args =
     JObj
       [(''templateKey'', JStr LOW_BALANCE_TEMPLATE_KEY),
        (''variables'', JObj
          [(''balance'', JStr (formatTomanAmount (ls_balanceToman args))),
           (''threshold'', JStr (formatTomanAmount (ls_thresholdToman args)))]),
        (''buttons'', JArr
          [snapshot_button ''t'' ''low_balance_topup'',
           snapshot_button ''w'' ''low_balance_view_wallet'']),
        (''meta'', JObj
          [(''kind'', JStr ''low-balance''),
           (''alertCycle'', jint (ls_alertCycle args)),
           (''configVersion'', jint (ls_configVersion args)),
           (''thresholdToman'', jint (ls_thresholdToman args)),
           (''rearmBoundaryToman'', jint (ls_rearmBoundaryToman args)),
           (''origin'', JStr (origin_name (ls_origin args)))])]"

section \<open>Properties of the parser\<close>

lemma parseTomanAmount_range: "parseTomanAmount raw = Inr v \<Longrightarrow> 0 \<le> v \<and> v \<le> INT32_MAX"
  by (auto simp: parseTomanAmount_def Let_def split: if_splits)

lemma comma_groups_chars: "filter (\<lambda>c. c \<noteq> CHR '','') (comma_groups ds) = filter (\<lambda>c. c \<noteq> CHR '','') ds"
  by (induction ds rule: comma_groups.induct) simp_all

lemma set_comma_groups: "set (comma_groups ds) \<subseteq> insert CHR '','' (set ds)"
  by (induction ds rule: comma_groups.induct) auto

lemma foldl_wide_nat:
  "foldl (\<lambda>a c. 10 * a + (c - 48)) x (map char_code s) = foldl (\<lambda>a c. 10 * a + digit_val c) x s"
  by (induction s arbitrary: x) (simp_all add: digit_val_def)

lemma wide_nat_codes: "wide_nat (map char_code s) = read_nat s"
  by (simp add: wide_nat_def read_nat_def foldl_wide_nat)

lemma drop_sign_digits: "list_all ascii_digit s \<Longrightarrow> drop_sign s = s"
  by (auto simp: drop_sign_def ascii_digit_def split: list.split)

lemma wide_int_digits: "list_all ascii_digit s \<Longrightarrow> wide_int s = int (wide_nat s)"
  by (auto simp: wide_int_def drop_sign_digits ascii_digit_def wide_nat_def split: list.split)

lemma not_decimal_digits: "list_all ascii_digit s \<Longrightarrow> \<not> matches_decimal s"
proof -
  assume d: "list_all ascii_digit s"
  then have n: "dropWhile ascii_digit s = []" by (simp add: list_all_iff)
  show ?thesis unfolding matches_decimal_def drop_sign_digits [OF d] Let_def n by simp
qed

lemma parse_digits:
  assumes "normalize_amount raw = map char_code (show_nat n)" and "int n \<le> INT32_MAX"
  shows "parseTomanAmount raw = Inr (int n)"
proof -
  let ?s = "map char_code (show_nat n)"
  have d: "list_all ascii_digit ?s"
    using show_nat_digits [of n] by (auto simp: list_all_iff ascii_digit_def is_digit_def)
  have v: "wide_int ?s = int n" by (simp add: wide_int_digits [OF d] wide_nat_codes)
  have "int n < DOUBLE_OVERFLOW" using assms(2) by (simp add: INT32_MAX_def DOUBLE_OVERFLOW_def)
  moreover have "matches_integer ?s" using d by (simp add: matches_integer_def drop_sign_digits)
  ultimately show ?thesis
    using assms v not_decimal_digits [OF d] by (simp add: parseTomanAmount_def)
qed

lemma normalize_grouped:
  "normalize_amount (map char_code (rev (comma_groups (rev (show_nat n))))) = map char_code (show_nat n)"
proof -
  let ?g = "rev (comma_groups (rev (show_nat n)))"
  have set: "\<forall>c \<in> set ?g. is_digit c \<or> c = CHR '',''"
    using set_comma_groups [of "rev (show_nat n)"] show_nat_digits [of n] by auto
  have comma: "char_code CHR '','' = 44" by (simp add: char_code_def)
  have trim: "wide_trim (map char_code ?g) = map char_code ?g"
    by (rule wide_trim_id) (use set comma in \<open>auto simp: wide_ws_def is_digit_def\<close>)
  have keep: "amount_separator (char_code c) \<longleftrightarrow> c = CHR '',''" if "c \<in> set ?g" for c
    using set that comma by (auto simp: amount_separator_def is_digit_def)
  have "filter (\<lambda>c. \<not> amount_separator c) (map char_code ?g) = map char_code (filter (\<lambda>c. c \<noteq> CHR '','') ?g)"
    using keep by (auto simp: filter_map comp_def intro!: arg_cong [where f = "map char_code"] filter_cong)
  also have "filter (\<lambda>c. c \<noteq> CHR '','') ?g = show_nat n"
  proof -
    have "filter (\<lambda>c. c \<noteq> CHR '','') ?g = rev (filter (\<lambda>c. c \<noteq> CHR '','') (rev (show_nat n)))"
      by (simp add: rev_filter [symmetric] comma_groups_chars)
    also have "\<dots> = filter (\<lambda>c. c \<noteq> CHR '','') (show_nat n)" by (simp add: rev_filter)
    also have "\<dots> = show_nat n"
      using show_nat_digits [of n] comma by (auto simp: filter_id_conv is_digit_def)
    finally show ?thesis .
  qed
  finally show ?thesis
    using show_nat_digits [of n]
    by (auto simp: normalize_amount_def trim DIGIT_MAP_def is_digit_def)
qed

text \<open>
  An operator's typed amount is accepted only as a whole, non-negative number that fits the
  INTEGER column, and every such amount is read back from the way the screens group it.
\<close>

theorem toman_amount_roundtrip:
  "(parseTomanAmount raw = Inr v \<longrightarrow> 0 \<le> v \<and> v \<le> INT32_MAX)
   \<and> (0 \<le> n \<and> n \<le> INT32_MAX \<longrightarrow> parseTomanAmount (map char_code (locale_int n)) = Inr n)"
  using parseTomanAmount_range parse_digits [OF normalize_grouped, of "nat n"]
  by (auto simp: locale_int_def)

end
