(* ===== verification/LowBalanceCore.thy ===== *)
theory LowBalanceCore
  imports LowBalance
begin

text \<open>
  The one state transition of the low-balance machine (packages/database/src/low-balance-core.ts)
  and the observer every wallet mutation calls inside its transaction
  (packages/service-renewal/src/low-balance.ts), with the interface the wallet paths rely on.
\<close>

section \<open>The observation\<close>

record notification_draft =
  nd_dedupeKey :: string
  nd_ruleVersion :: int
  nd_payloadSnapshot :: json

record observation_input =
  ob_userId :: string
  ob_balanceBeforeToman :: "int option"
  ob_balanceAfterToman :: int
  ob_thresholdToman :: int
  ob_rearmBoundaryToman :: int
  ob_configVersion :: int
  ob_eligible :: bool
  ob_forceAlert :: bool
  ob_authorizeForceAlert :: "(int \<Rightarrow> db \<Rightarrow> bool) option"
  ob_buildNotification :: "int \<Rightarrow> notification_draft"

datatype observation_outcome =
    SeededArmed int
  | SeededBaseline int
  | Alerted int "string option"
  | Rearmed int
  | Unchanged int

text \<open>The one exception of the module's own.\<close>

datatype low_balance_error = STATE_ROW_VANISHED

definition lb_row_fits :: "lb_state_row \<Rightarrow> bool" where
  "lb_row_fits r \<longleftrightarrow>
     int4 (lb_alertCycle r) \<and> int4 (lb_lastObservedBalanceToman r) \<and> int4 (lb_lastThresholdToman r)
     \<and> int4 (lb_lastRearmBoundaryToman r) \<and> int4 (lb_lastConfigVersion r)"

definition seed_row :: "int \<Rightarrow> observation_input \<Rightarrow> string \<Rightarrow> lb_state_row" where
  "seed_row now input i =
     (let seedBalance = (case ob_balanceBeforeToman input of
            Some b \<Rightarrow> b | None \<Rightarrow> ob_balanceAfterToman input);
          seedLow = seedBalance \<le> ob_thresholdToman input
      in \<lparr>lb_id = i, lb_userId = ob_userId input,
          lb_state = (if seedLow then ALERTED else ARMED), lb_alertCycle = 0,
          lb_lastObservedBalanceToman = seedBalance,
          lb_lastThresholdToman = ob_thresholdToman input,
          lb_lastRearmBoundaryToman = ob_rearmBoundaryToman input,
          lb_lastConfigVersion = ob_configVersion input,
          lb_alertedAt = (if seedLow then Some now else None), lb_rearmedAt = None\<rparr>)"

text \<open>\<open>createMany\<close> with \<open>skipDuplicates\<close>: insert unless the unique column already has the value.\<close>

definition insert_state :: "lb_state_row \<Rightarrow> ('e, bool) tx" where
  "insert_state r =
     (\<lambda>s. if \<not> lb_row_fits r then Inl DbFault
          else if \<exists>x \<in> set (lb_states s). lb_userId x = lb_userId r then Inr (False, s)
          else if \<not> (\<exists>u \<in> set (users s). u_id u = lb_userId r) then Inl DbFault
          else Inr (True, s\<lparr>lb_states := lb_states s @ [r]\<rparr>))"

definition seedAndLockState ::
  "int \<Rightarrow> observation_input \<Rightarrow> (low_balance_error, lb_state_row \<times> bool) tx" where
  "seedAndLockState now input =
     tx_bind (tx_do draw_id) (\<lambda>i.
     tx_bind (insert_state (seed_row now input i)) (\<lambda>created.
     tx_bind (tx_read (\<lambda>s. find (\<lambda>r. lb_userId r = ob_userId input) (lb_states s))) (\<lambda>row.
     tx_bind (tx_some row (Thrown STATE_ROW_VANISHED)) (\<lambda>state.
     tx_return (state, created)))))"

text \<open>\<open>update\<close> by identifier: fails when the new values do not fit or the row is gone.\<close>

definition update_state :: "string \<Rightarrow> (lb_state_row \<Rightarrow> lb_state_row) \<Rightarrow> ('e, unit) tx" where
  "update_state i f =
     (\<lambda>s. case find (\<lambda>r. lb_id r = i) (lb_states s) of
            None \<Rightarrow> Inl DbFault
          | Some r \<Rightarrow> if \<not> lb_row_fits (f r) then Inl DbFault
              else Inr ((), s\<lparr>lb_states := update_where (\<lambda>r. lb_id r = i) f (lb_states s)\<rparr>))"

definition record_observation :: "observation_input \<Rightarrow> lb_state_row \<Rightarrow> lb_state_row" where
  "record_observation input r =
     r\<lparr>lb_lastObservedBalanceToman := ob_balanceAfterToman input,
       lb_lastThresholdToman := ob_thresholdToman input,
       lb_lastRearmBoundaryToman := ob_rearmBoundaryToman input,
       lb_lastConfigVersion := ob_configVersion input\<rparr>"

definition touch :: "string \<Rightarrow> observation_input \<Rightarrow> ('e, unit) tx" where
  "touch i input = update_state i (record_observation input)"

definition rearm :: "int \<Rightarrow> string \<Rightarrow> observation_input \<Rightarrow> ('e, unit) tx" where
  "rearm now i input =
     update_state i (\<lambda>r. (record_observation input r)\<lparr>lb_state := ARMED, lb_rearmedAt := Some now\<rparr>)"

definition notification_of :: "int \<Rightarrow> observation_input \<Rightarrow> notification_draft \<Rightarrow> string \<Rightarrow> notification_row"
  where
  "notification_of now input draft i =
     \<lparr>nt_id = i, nt_type = ''WALLET_LOW_BALANCE'', nt_category = ''PAYMENT'', nt_status = ''SCHEDULED'',
      nt_userId = ob_userId input, nt_dedupeKey = nd_dedupeKey draft,
      nt_ruleVersion = nd_ruleVersion draft, nt_scheduledFor = now,
      nt_payloadSnapshot = nd_payloadSnapshot draft\<rparr>"

definition insert_notification :: "notification_row \<Rightarrow> ('e, nat) tx" where
  "insert_notification r =
     (\<lambda>s. if \<not> int4 (nt_ruleVersion r) then Inl DbFault
          else if \<exists>x \<in> set (notifications s). nt_dedupeKey x = nt_dedupeKey r then Inr (0, s)
          else Inr (1, s\<lparr>notifications := notifications s @ [r]\<rparr>))"

definition find_notification :: "string \<Rightarrow> db \<Rightarrow> string option" where
  "find_notification key s = map_option nt_id (find (\<lambda>n. nt_dedupeKey n = key) (notifications s))"

definition openCycle :: "int \<Rightarrow> lb_state_row \<Rightarrow> observation_input \<Rightarrow> ('e, observation_outcome) tx" where
  "openCycle now state input =
     (let cycle = lb_alertCycle state + 1 in
      tx_then
        (update_state (lb_id state)
          (\<lambda>r. (record_observation input r)\<lparr>lb_state := ALERTED, lb_alertCycle := cycle,
                 lb_alertedAt := Some now\<rparr>))
        (if \<not> ob_eligible input then tx_return (Alerted cycle None)
         else
           let draft = ob_buildNotification input cycle in
           tx_bind (tx_do draw_id) (\<lambda>i.
           tx_bind (insert_notification (notification_of now input draft i)) (\<lambda>created.
           if created = 0
           then tx_bind (tx_read (find_notification (nd_dedupeKey draft)))
                  (\<lambda>existing. tx_return (Alerted cycle existing))
           else tx_bind (tx_read (find_notification (nd_dedupeKey draft)))
                  (\<lambda>row. tx_return (Alerted cycle row))))))"

definition current_balance :: "string \<Rightarrow> db \<Rightarrow> int option" where
  "current_balance userId s =
     map_option u_balanceToman (find (\<lambda>u. u_id u = userId) (users s))"

definition applyLowBalanceObservation ::
  "int \<Rightarrow> observation_input \<Rightarrow> (low_balance_error, observation_outcome) tx" where
  "applyLowBalanceObservation now input =
     tx_bind (seedAndLockState now input) (\<lambda>(state, created).
     tx_bind (tx_read (\<lambda>s. case ob_balanceBeforeToman input of
         None \<Rightarrow> (case current_balance (ob_userId input) s of
             Some b \<Rightarrow> b | None \<Rightarrow> ob_balanceAfterToman input)
       | Some _ \<Rightarrow> ob_balanceAfterToman input))
     (\<lambda>balanceAfter.
       let effective = input\<lparr>ob_balanceAfterToman := balanceAfter\<rparr>;
           isLow = balanceAfter \<le> ob_thresholdToman input;
           isRecovered = balanceAfter > ob_rearmBoundaryToman input;
           cycle = lb_alertCycle state
       in if lb_state state = ALERTED then
            if isRecovered then tx_then (rearm now (lb_id state) effective) (tx_return (Rearmed cycle))
            else if ob_forceAlert input \<and> isLow then
              tx_bind (tx_read (\<lambda>s. case ob_authorizeForceAlert input of
                  None \<Rightarrow> True | Some f \<Rightarrow> f cycle s))
              (\<lambda>authorized.
                 if authorized then openCycle now state effective
                 else tx_then (touch (lb_id state) effective) (tx_return (Unchanged cycle)))
            else tx_then (touch (lb_id state) effective)
              (tx_return (if created then SeededBaseline cycle else Unchanged cycle))
          else if isLow then openCycle now state effective
          else tx_then (touch (lb_id state) effective)
            (tx_return (if created then SeededArmed cycle else Unchanged cycle))))"

definition hasNotificationForCycle :: "string \<Rightarrow> db \<Rightarrow> bool" where
  "hasNotificationForCycle dedupeKey s \<longleftrightarrow> find_notification dedupeKey s \<noteq> None"

section \<open>The observer\<close>

definition parseIntSetting :: "string \<Rightarrow> int \<Rightarrow> int" where
  "parseIntSetting raw fallback =
     (case as_integer (js_Number raw) of
        Some v \<Rightarrow> if 0 \<le> v then v else fallback
      | None \<Rightarrow> fallback)"

definition TRUTHY_SETTING_VALUES :: "string list" where
  "TRUTHY_SETTING_VALUES = [''true'', ''1'', ''yes'']"

definition isTruthySettingValue :: "string option \<Rightarrow> bool" where
  "isTruthySettingValue raw =
     (case raw of None \<Rightarrow> False | Some r \<Rightarrow> js_lower r \<in> set TRUTHY_SETTING_VALUES)"

definition setting_or_empty :: "string \<Rightarrow> db \<Rightarrow> string" where
  "setting_or_empty k s = (case setting_value k s of None \<Rightarrow> '''' | Some v \<Rightarrow> v)"

definition readLowBalanceConfigRows :: "db \<Rightarrow> LowBalanceConfig" where
  "readLowBalanceConfigRows s =
     \<lparr>lc_enabled = isTruthySettingValue (setting_value LOW_BALANCE_ENABLED_KEY s),
      lc_thresholdToman = parseIntSetting (setting_or_empty LOW_BALANCE_THRESHOLD_KEY s)
        DEFAULT_LOW_BALANCE_THRESHOLD_TOMAN,
      lc_rearmMarginToman = parseIntSetting (setting_or_empty LOW_BALANCE_REARM_MARGIN_KEY s)
        DEFAULT_LOW_BALANCE_REARM_MARGIN_TOMAN,
      lc_configVersion = parseIntSetting (setting_or_empty LOW_BALANCE_CONFIG_VERSION_KEY s)
        (lc_configVersion DEFAULT_LOW_BALANCE_CONFIG)\<rparr>"

datatype LowBalanceEligibility = Eligible | Ineligible_inactive | Ineligible_opted_out
  | Ineligible_payment_category_off

definition evaluateEligibility :: "user_row \<Rightarrow> LowBalanceEligibility" where
  "evaluateEligibility user =
     (if u_status user \<noteq> UserStatus_ACTIVE then Ineligible_inactive
      else if \<not> u_lowBalanceNotificationsEnabled user then Ineligible_opted_out
      else if \<not> u_paymentNotificationsEnabled user then Ineligible_payment_category_off
      else Eligible)"

record ObserveArgs =
  oa_userId :: string
  oa_balanceBeforeToman :: "int option"
  oa_balanceAfterToman :: int

datatype ObserveOutcome = Observe_disabled | Observe_ineligible
  | Observe_alerted int "string option" | Observe_rearmed int | Observe_seeded int
  | Observe_unchanged

definition event_notification :: "ObserveArgs \<Rightarrow> LowBalanceConfig \<Rightarrow> int \<Rightarrow> notification_draft" where
  "event_notification args config cycle =
     \<lparr>nd_dedupeKey = lowBalanceDedupeKey (oa_userId args) cycle,
      nd_ruleVersion = LOW_BALANCE_RULE_VERSION,
      nd_payloadSnapshot = buildLowBalanceSnapshot
        \<lparr>ls_balanceToman = oa_balanceAfterToman args, ls_thresholdToman = lc_thresholdToman config,
         ls_rearmBoundaryToman = rearmBoundaryToman config,
         ls_configVersion = lc_configVersion config, ls_alertCycle = cycle,
         ls_origin = Origin_event\<rparr>\<rparr>"

definition observation_of :: "ObserveArgs \<Rightarrow> LowBalanceConfig \<Rightarrow> bool \<Rightarrow> observation_input" where
  "observation_of args config eligible =
     \<lparr>ob_userId = oa_userId args, ob_balanceBeforeToman = oa_balanceBeforeToman args,
      ob_balanceAfterToman = oa_balanceAfterToman args,
      ob_thresholdToman = lc_thresholdToman config,
      ob_rearmBoundaryToman = rearmBoundaryToman config,
      ob_configVersion = lc_configVersion config, ob_eligible = eligible,
      ob_forceAlert = False, ob_authorizeForceAlert = None,
      ob_buildNotification = event_notification args config\<rparr>"

fun observe_outcome :: "bool \<Rightarrow> observation_outcome \<Rightarrow> ObserveOutcome" where
  "observe_outcome eligible (Alerted c n) =
     (if eligible then Observe_alerted c n else Observe_ineligible)"
| "observe_outcome eligible (Rearmed c) = Observe_rearmed c"
| "observe_outcome eligible (SeededArmed c) = Observe_seeded c"
| "observe_outcome eligible (SeededBaseline c) = Observe_seeded c"
| "observe_outcome eligible (Unchanged c) = Observe_unchanged"

definition observeWalletBalance :: "int \<Rightarrow> ObserveArgs \<Rightarrow> (low_balance_error, ObserveOutcome) tx" where
  "observeWalletBalance now args =
     tx_bind (tx_read readLowBalanceConfigRows) (\<lambda>config.
     if \<not> lc_enabled config then tx_return Observe_disabled else
     tx_bind (tx_read (\<lambda>s. find (\<lambda>u. u_id u = oa_userId args) (users s))) (\<lambda>user.
     case user of
       None \<Rightarrow> tx_return Observe_ineligible
     | Some u \<Rightarrow>
         let eligible = (evaluateEligibility u = Eligible) in
         tx_bind (applyLowBalanceObservation now (observation_of args config eligible)) (\<lambda>outcome.
         tx_return (observe_outcome eligible outcome))))"

text \<open>
  The bridge every wallet mutation calls. An exception of the module is swallowed; a fault of the
  database has already aborted the surrounding transaction, so it surfaces there.
\<close>

definition onWalletBalanceChanged :: "int \<Rightarrow> ObserveArgs \<Rightarrow> ('e, unit) tx" where
  "onWalletBalanceChanged now args =
     (\<lambda>s. case observeWalletBalance now args s of
            Inr (_, s') \<Rightarrow> Inr ((), s')
          | Inl (Thrown _) \<Rightarrow> Inr ((), s)
          | Inl UniqueViolation \<Rightarrow> Inl UniqueViolation
          | Inl DbFault \<Rightarrow> Inl DbFault)"

section \<open>Frame\<close>

text \<open>The observer writes the state rows, the notifications and draws identifiers; nothing else.\<close>

definition only_alerts :: "db \<Rightarrow> db \<Rightarrow> bool" where
  "only_alerts s s' \<longleftrightarrow>
     s' = s\<lparr>lb_states := lb_states s', notifications := notifications s', drawn := drawn s'\<rparr>
     \<and> drawn s \<le> drawn s'"

lemma only_alerts_refl [simp]: "only_alerts s s"
  by (simp add: only_alerts_def)

lemma only_alerts_trans: "only_alerts s t \<Longrightarrow> only_alerts t v \<Longrightarrow> only_alerts s v"
  by (cases s; cases t; cases v) (simp add: only_alerts_def)

lemma only_alerts_keeps:
  assumes "only_alerts s s'"
  shows "users s' = users s" "checkouts s' = checkouts s" "payments s' = payments s"
    "orders s' = orders s" "wallet_txs s' = wallet_txs s" "discounts s' = discounts s"
    "usages s' = usages s" "reservations s' = reservations s" "services s' = services s"
    "events s' = events s" "categories s' = categories s" "panels s' = panels s"
    "products s' = products s" "settings s' = settings s" "uuids s' = uuids s"
    "drawn s \<le> drawn s'"
    "idem_rows s' = idem_rows s" "admins s' = admins s" "support_tickets s' = support_tickets s"
    "support_messages s' = support_messages s" "support_intents s' = support_intents s"
    "support_recipients s' = support_recipients s" "terms_documents s' = terms_documents s"
    "terms_acceptances s' = terms_acceptances s" "channels s' = channels s" "system_logs s' = system_logs s"
    "log_topics s' = log_topics s" "log_deliveries s' = log_deliveries s"
  using assms by (cases s; cases s'; simp add: only_alerts_def)+

lemma post_insert_state [tx_rules]:
  "post (insert_state r) s Q =
     (lb_row_fits r \<longrightarrow>
       (if \<exists>x \<in> set (lb_states s). lb_userId x = lb_userId r then Q False s
        else (\<exists>u \<in> set (users s). u_id u = lb_userId r) \<longrightarrow>
          Q True (s\<lparr>lb_states := lb_states s @ [r]\<rparr>)))"
  by (auto simp: post_def insert_state_def)

lemma post_update_state [tx_rules]:
  "post (update_state i f) s Q =
     (\<forall>r. find (\<lambda>r. lb_id r = i) (lb_states s) = Some r \<and> lb_row_fits (f r) \<longrightarrow>
        Q () (s\<lparr>lb_states := update_where (\<lambda>r. lb_id r = i) f (lb_states s)\<rparr>))"
  by (auto simp: post_def update_state_def split: option.splits)

lemma post_insert_notification [tx_rules]:
  "post (insert_notification r) s Q =
     (int4 (nt_ruleVersion r) \<longrightarrow>
       (if \<exists>x \<in> set (notifications s). nt_dedupeKey x = nt_dedupeKey r then Q 0 s
        else Q 1 (s\<lparr>notifications := notifications s @ [r]\<rparr>)))"
  by (auto simp: post_def insert_notification_def)

lemma seed_frame: "post (seedAndLockState now input) s (\<lambda>_. only_alerts s)"
  by (auto simp: seedAndLockState_def tx_rules only_alerts_def)

lemma touch_frame: "post (touch i input) s (\<lambda>_. only_alerts s)"
  by (auto simp: touch_def tx_rules only_alerts_def)

lemma rearm_frame: "post (rearm now i input) s (\<lambda>_. only_alerts s)"
  by (auto simp: rearm_def tx_rules only_alerts_def)

lemma openCycle_frame: "post (openCycle now state input) s (\<lambda>_. only_alerts s)"
  by (auto simp: openCycle_def Let_def tx_rules only_alerts_def)

lemma apply_frame: "post (applyLowBalanceObservation now input) s (\<lambda>_. only_alerts s)"
proof -
  have fr: "post m t (\<lambda>_. only_alerts s)"
    if "post m t (\<lambda>_. only_alerts t)" "only_alerts s t"
    for m :: "(low_balance_error, observation_outcome) tx" and t
    using that by (blast intro: post_mono only_alerts_trans)
  have from_touch: "post (touch i inp) t (\<lambda>_. only_alerts s)" if "only_alerts s t"
    for i inp t
    using that by (blast intro: post_mono touch_frame only_alerts_trans)
  have from_rearm: "post (rearm now i inp) t (\<lambda>_. only_alerts s)" if "only_alerts s t" for i inp t
    using that by (blast intro: post_mono rearm_frame only_alerts_trans)
  show ?thesis
    unfolding applyLowBalanceObservation_def post_bind
    by (rule post_mono [OF seed_frame])
      (auto simp: tx_rules Let_def split: prod.splits
        intro: fr [OF openCycle_frame] from_touch from_rearm)
qed

lemma observe_frame: "post (observeWalletBalance now args) s (\<lambda>_. only_alerts s)"
proof -
  have "post (applyLowBalanceObservation now inp) s
      (\<lambda>a s'. post (tx_return (observe_outcome e a)) s' (\<lambda>_. only_alerts s))" for inp e
    using apply_frame by (simp add: tx_rules)
  then show ?thesis
    by (auto simp: observeWalletBalance_def tx_rules Let_def split: option.splits)
qed

lemma onWalletBalanceChanged_frame: "post (onWalletBalanceChanged now args) s (\<lambda>_. only_alerts s)"
  using observe_frame [of now args s]
  by (auto simp: post_def onWalletBalanceChanged_def split: sum.splits prod.splits thrown.splits)

section \<open>The interface of the wallet paths\<close>

text \<open>
  What a money-moving transaction relies on when it reports the new balance: the observer leaves
  every table but its own as it was, and raises no exception of its own.
\<close>

locale balance_observer =
  fixes observe :: "int \<Rightarrow> ObserveArgs \<Rightarrow> ('e, unit) tx"
  assumes frame: "post (observe now a) s (\<lambda>_. only_alerts s)"
    and silent: "observe now a s \<noteq> Inl (Thrown e)"
begin

lemma post_observe:
  assumes "\<And>s'. only_alerts s s' \<Longrightarrow> Q () s'"
  shows "post (observe now a) s Q"
  using frame [of now a s] assms by (auto elim!: post_mono)

lemma post_observe_then:
  assumes "\<And>s'. only_alerts s s' \<Longrightarrow> post m s' Q"
  shows "post (tx_then (observe now a) m) s Q"
  unfolding post_then by (rule post_observe) (rule assms)

lemma balance_kept:
  "observe now a s = Inr (x, s') \<Longrightarrow> users s' = users s \<and> wallet_txs s' = wallet_txs s"
  using frame [of now a s] by (auto simp: post_def only_alerts_keeps)

end

interpretation observer: balance_observer onWalletBalanceChanged
proof
  show "post (onWalletBalanceChanged now a) s (\<lambda>_. only_alerts s)" for now a s
    by (rule onWalletBalanceChanged_frame)
  show "onWalletBalanceChanged now a s \<noteq> Inl (Thrown e)" for now a s and e :: 'b
    by (auto simp: onWalletBalanceChanged_def split: sum.splits prod.splits thrown.splits)
qed

section \<open>The transition of one observation\<close>

definition lb_ok :: "db \<Rightarrow> bool" where
  "lb_ok s \<longleftrightarrow> inj (uuids s) \<and> unique_by lb_userId (lb_states s) \<and> unique_by lb_id (lb_states s)
     \<and> fresh_for lb_id (lb_states s) s \<and> unique_by nt_dedupeKey (notifications s)"

definition seeded_row :: "int \<Rightarrow> observation_input \<Rightarrow> db \<Rightarrow> lb_state_row" where
  "seeded_row now input s =
     (case find (\<lambda>r. lb_userId r = ob_userId input) (lb_states s) of
        Some r \<Rightarrow> r | None \<Rightarrow> seed_row now input (uuids s (drawn s)))"

definition is_new :: "observation_input \<Rightarrow> db \<Rightarrow> bool" where
  "is_new input s \<longleftrightarrow> find (\<lambda>r. lb_userId r = ob_userId input) (lb_states s) = None"

definition seeded_states :: "int \<Rightarrow> observation_input \<Rightarrow> db \<Rightarrow> lb_state_row list" where
  "seeded_states now input s =
     (if is_new input s then lb_states s @ [seed_row now input (uuids s (drawn s))] else lb_states s)"

definition seeded_db :: "int \<Rightarrow> observation_input \<Rightarrow> db \<Rightarrow> db" where
  "seeded_db now input s = s\<lparr>drawn := Suc (drawn s), lb_states := seeded_states now input s\<rparr>"

lemma seed_row_user [simp]: "lb_userId (seed_row now input i) = ob_userId input"
  by (simp add: seed_row_def Let_def)

lemma seed_row_id [simp]: "lb_id (seed_row now input i) = i"
  by (simp add: seed_row_def Let_def)

lemma seed_row_cycle [simp]: "lb_alertCycle (seed_row now input i) = 0"
  by (simp add: seed_row_def Let_def)

lemma post_seed:
  "post (seedAndLockState now input) s Q =
     (lb_row_fits (seed_row now input (uuids s (drawn s)))
      \<and> (is_new input s \<longrightarrow> (\<exists>u \<in> set (users s). u_id u = ob_userId input)) \<longrightarrow>
      Q (seeded_row now input s, is_new input s) (seeded_db now input s))"
proof (cases "find (\<lambda>r. lb_userId r = ob_userId input) (lb_states s)")
  case None
  then have "\<not> (\<exists>x \<in> set (lb_states s). lb_userId x = ob_userId input)"
    by (simp add: find_None_all)
  with None show ?thesis
    by (simp add: seedAndLockState_def tx_rules seeded_db_def seeded_states_def seeded_row_def
        is_new_def find_append imp_conjL)
next
  case (Some r)
  then have ex: "\<exists>x \<in> set (lb_states s). lb_userId x = ob_userId input"
    by (blast dest: find_Some_in)
  have new: "is_new input s = False" and row: "seeded_row now input s = r"
    using Some by (simp_all add: is_new_def seeded_row_def)
  show ?thesis
    unfolding seedAndLockState_def post_bind post_do post_insert_state
    by (simp add: ex Some new row post_bind post_some post_read post_return seeded_db_def
        seeded_states_def)
qed

lemma seeded_row_in: "seeded_row now input s \<in> set (seeded_states now input s)"
  by (auto simp: seeded_row_def seeded_states_def is_new_def dest: find_Some_in split: option.split)

lemma seeded_row_user [simp]: "lb_userId (seeded_row now input s) = ob_userId input"
  by (auto simp: seeded_row_def dest: find_Some_in split: option.split)

lemma seeded_states_ok:
  assumes "lb_ok s"
  shows "unique_by lb_userId (seeded_states now input s)"
    and "unique_by lb_id (seeded_states now input s)"
    and "fresh_for lb_id (seeded_states now input s) (s\<lparr>drawn := Suc (drawn s)\<rparr>)"
proof -
  show "unique_by lb_userId (seeded_states now input s)"
    using assms by (auto simp: seeded_states_def lb_ok_def unique_by_def is_new_def find_None_all)
  have "fresh_for lb_id (seeded_states now input s) (s\<lparr>drawn := Suc (drawn s)\<rparr>)
      \<and> unique_by lb_id (seeded_states now input s)"
  proof (cases "is_new input s")
    case True
    then show ?thesis using assms
      by (simp add: seeded_states_def lb_ok_def
          fresh_append [where s = s and s' = "s\<lparr>drawn := Suc (drawn s)\<rparr>"])
  next
    case False
    then show ?thesis using assms
      by (auto simp: seeded_states_def lb_ok_def
          intro: fresh_keep [where s = s and s' = "s\<lparr>drawn := Suc (drawn s)\<rparr>"])
  qed
  then show "unique_by lb_id (seeded_states now input s)"
    and "fresh_for lb_id (seeded_states now input s) (s\<lparr>drawn := Suc (drawn s)\<rparr>)" by blast+
qed

lemma find_seeded:
  assumes "lb_ok s"
  shows "find (\<lambda>r. lb_id r = lb_id (seeded_row now input s)) (seeded_states now input s)
      = Some (seeded_row now input s)"
    and "find (\<lambda>r. lb_userId r = ob_userId input) (seeded_states now input s)
      = Some (seeded_row now input s)"
  using find_unique [OF seeded_states_ok(2) [OF assms] seeded_row_in]
    find_unique [OF seeded_states_ok(1) [OF assms] seeded_row_in]
  by simp_all

text \<open>The row after the observation, and the answer.\<close>

definition lb_next :: "int \<Rightarrow> observation_input \<Rightarrow> lb_state_row \<Rightarrow> lb_state_row" where
  "lb_next now input r =
     (let b = ob_balanceAfterToman input; q = record_observation input r in
      if lb_state r = ALERTED
      then if b > ob_rearmBoundaryToman input then q\<lparr>lb_state := ARMED, lb_rearmedAt := Some now\<rparr> else q
      else if b \<le> ob_thresholdToman input
        then q\<lparr>lb_state := ALERTED, lb_alertCycle := lb_alertCycle r + 1, lb_alertedAt := Some now\<rparr>
        else q)"

definition opens :: "observation_input \<Rightarrow> lb_state_row \<Rightarrow> bool" where
  "opens input r \<longleftrightarrow> lb_state r = ARMED \<and> ob_balanceAfterToman input \<le> ob_thresholdToman input"

definition quiet_outcome :: "observation_input \<Rightarrow> bool \<Rightarrow> lb_state_row \<Rightarrow> observation_outcome" where
  "quiet_outcome input created r =
     (let c = lb_alertCycle r in
      if lb_state r = ALERTED
      then if ob_balanceAfterToman input > ob_rearmBoundaryToman input then Rearmed c
           else if created then SeededBaseline c else Unchanged c
      else if created then SeededArmed c else Unchanged c)"

definition moved :: "int \<Rightarrow> observation_input \<Rightarrow> db \<Rightarrow> lb_state_row list" where
  "moved now input s =
     update_where (\<lambda>x. lb_id x = lb_id (seeded_row now input s)) (lb_next now input)
       (seeded_states now input s)"

lemma lb_next_ids [simp]:
  "lb_userId (lb_next now input r) = lb_userId r" "lb_id (lb_next now input r) = lb_id r"
  by (simp_all add: lb_next_def Let_def record_observation_def)

lemma find_moved:
  assumes "lb_ok s"
  shows "find (\<lambda>r. lb_userId r = ob_userId input) (moved now input s)
    = Some (lb_next now input (seeded_row now input s))"
proof -
  have "find (\<lambda>r. lb_userId r = ob_userId input) (moved now input s) =
     map_option (\<lambda>r. if lb_id r = lb_id (seeded_row now input s) then lb_next now input r else r)
       (find (\<lambda>r. lb_userId r = ob_userId input) (seeded_states now input s))"
    unfolding moved_def by (rule find_update_where) simp
  then show ?thesis by (simp add: find_seeded [OF assms])
qed

lemma update_where_agree:
  "(\<And>r. r \<in> set t \<Longrightarrow> P r \<Longrightarrow> f r = g r) \<Longrightarrow> update_where P f t = update_where P g t"
  by (simp add: update_where_def)

lemma moved_eq:
  assumes "lb_ok s" and "f (seeded_row now input s) = lb_next now input (seeded_row now input s)"
  shows "update_where (\<lambda>x. lb_id x = lb_id (seeded_row now input s)) f (seeded_states now input s)
    = moved now input s"
  unfolding moved_def
proof (rule update_where_agree)
  fix r
  assume "r \<in> set (seeded_states now input s)" and "lb_id r = lb_id (seeded_row now input s)"
  then have "r = seeded_row now input s"
    using unique_by_inj [OF seeded_states_ok(2) [OF assms(1)]] seeded_row_in by metis
  then show "f r = lb_next now input r" using assms(2) by simp
qed

definition opened_db :: "int \<Rightarrow> observation_input \<Rightarrow> db \<Rightarrow> db" where
  "opened_db now input s =
     (let c = lb_alertCycle (seeded_row now input s) + 1;
          draft = ob_buildNotification input c
      in s\<lparr>lb_states := moved now input s,
           drawn := (if ob_eligible input then Suc (Suc (drawn s)) else Suc (drawn s)),
           notifications :=
             (if ob_eligible input
                \<and> (\<forall>n \<in> set (notifications s). nt_dedupeKey n \<noteq> nd_dedupeKey draft)
              then notifications s @ [notification_of now input draft (uuids s (Suc (drawn s)))]
              else notifications s)\<rparr>)"

lemma apply_step:
  assumes "lb_ok s" and "ob_balanceBeforeToman input \<noteq> None" and "\<not> ob_forceAlert input"
  shows "post (applyLowBalanceObservation now input) s (\<lambda>out s'.
    let r = seeded_row now input s in
    if opens input r
    then s' = opened_db now input s
      \<and> out = Alerted (lb_alertCycle r + 1)
          (if ob_eligible input
           then find_notification (nd_dedupeKey (ob_buildNotification input (lb_alertCycle r + 1))) s'
           else None)
    else s' = s\<lparr>drawn := Suc (drawn s), lb_states := moved now input s\<rparr>
      \<and> out = quiet_outcome input (is_new input s) r)"
proof -
  let ?r = "seeded_row now input s" and ?t = "seeded_db now input s"
  have after: "(case ob_balanceBeforeToman input of None \<Rightarrow> x | Some _ \<Rightarrow> ob_balanceAfterToman input)
      = ob_balanceAfterToman input" for x using assms(2) by auto
  have same: "input\<lparr>ob_balanceAfterToman := ob_balanceAfterToman input\<rparr> = input" by simp
  have states: "lb_states ?t = seeded_states now input s" by (simp add: seeded_db_def)
  have upd: "post (update_state (lb_id ?r) f) ?t Q =
      (lb_row_fits (f ?r) \<longrightarrow> Q () (s\<lparr>drawn := Suc (drawn s), lb_states := moved now input s\<rparr>))"
    if "f ?r = lb_next now input ?r" for f and Q
    unfolding post_update_state states find_seeded(1) [OF assms(1)]
    by (simp add: moved_eq [OF assms(1), of f, OF that] seeded_db_def)
  consider (alert) "opens input ?r"
    | (rearm) "lb_state ?r = ALERTED" "ob_balanceAfterToman input > ob_rearmBoundaryToman input"
    | (quiet) "\<not> opens input ?r"
        "\<not> (lb_state ?r = ALERTED \<and> ob_balanceAfterToman input > ob_rearmBoundaryToman input)"
    by blast
  then show ?thesis
  proof cases
    case alert
    then have st: "lb_state ?r = ARMED" "ob_balanceAfterToman input \<le> ob_thresholdToman input"
      by (simp_all add: opens_def)
    have nx: "(record_observation input ?r)\<lparr>lb_state := ALERTED,
        lb_alertCycle := lb_alertCycle ?r + 1, lb_alertedAt := Some now\<rparr> = lb_next now input ?r"
      using st by (simp add: lb_next_def Let_def)
    show ?thesis
      using st alert
      by (auto simp: applyLowBalanceObservation_def post_bind post_seed post_read Let_def after
          openCycle_def post_then upd [of "\<lambda>r. (record_observation input r)\<lparr>lb_state := ALERTED,
            lb_alertCycle := lb_alertCycle ?r + 1, lb_alertedAt := Some now\<rparr>", OF nx] post_if post_return post_do post_insert_notification
          opened_db_def notification_of_def)
  next
    case rearm
    have nx: "(record_observation input ?r)\<lparr>lb_state := ARMED, lb_rearmedAt := Some now\<rparr>
        = lb_next now input ?r"
      using rearm by (simp add: lb_next_def Let_def)
    show ?thesis
      using rearm
      by (auto simp: applyLowBalanceObservation_def post_bind post_seed post_read Let_def after
          rearm_def post_then upd [of "\<lambda>r. (record_observation input r)\<lparr>lb_state := ARMED,
            lb_rearmedAt := Some now\<rparr>", OF nx] post_if post_return opens_def quiet_outcome_def)
  next
    case quiet
    have nx: "record_observation input ?r = lb_next now input ?r"
      using quiet by (cases "lb_state ?r") (auto simp: lb_next_def Let_def opens_def)
    show ?thesis
      using quiet assms(3)
      by (cases "lb_state ?r")
        (auto simp: applyLowBalanceObservation_def post_bind post_seed post_read Let_def after
          touch_def post_then upd [of "record_observation input", OF nx] post_if post_return opens_def quiet_outcome_def)
  qed
qed

section \<open>The observer against the pure machine\<close>

lemma observe_unfold:
  assumes "lc_enabled (readLowBalanceConfigRows s)"
    and "find (\<lambda>u. u_id u = oa_userId a) (users s) = Some u"
  shows "post (observeWalletBalance now a) s Q =
    post (applyLowBalanceObservation now
        (observation_of a (readLowBalanceConfigRows s) (evaluateEligibility u = Eligible))) s
      (\<lambda>out s'. Q (observe_outcome (evaluateEligibility u = Eligible) out) s')"
  using assms by (simp add: observeWalletBalance_def tx_rules Let_def)

lemma observe_skip:
  assumes "\<not> lc_enabled (readLowBalanceConfigRows s)
    \<or> find (\<lambda>u. u_id u = oa_userId a) (users s) = None"
  shows "post (observeWalletBalance now a) s Q =
    Q (if lc_enabled (readLowBalanceConfigRows s) then Observe_ineligible else Observe_disabled) s"
  using assms by (auto simp: observeWalletBalance_def tx_rules)

lemma observation_of_simps [simp]:
  "ob_userId (observation_of a c e) = oa_userId a"
  "ob_balanceBeforeToman (observation_of a c e) = oa_balanceBeforeToman a"
  "ob_balanceAfterToman (observation_of a c e) = oa_balanceAfterToman a"
  "ob_thresholdToman (observation_of a c e) = lc_thresholdToman c"
  "ob_rearmBoundaryToman (observation_of a c e) = rearmBoundaryToman c"
  "ob_eligible (observation_of a c e) = e"
  "ob_forceAlert (observation_of a c e) = False"
  "ob_buildNotification (observation_of a c e) = event_notification a c"
  by (simp_all add: observation_of_def)

lemma event_notification_key [simp]:
  "nd_dedupeKey (event_notification a c n) = lowBalanceDedupeKey (oa_userId a) n"
  by (simp add: event_notification_def)

lemma notification_of_simps [simp]:
  "nt_id (notification_of now i d x) = x" "nt_userId (notification_of now i d x) = ob_userId i"
  "nt_dedupeKey (notification_of now i d x) = nd_dedupeKey d"
  by (simp_all add: notification_of_def)

lemma opened_notification:
  assumes "ob_eligible input"
  shows "\<exists>i. find_notification (nd_dedupeKey (ob_buildNotification input
      (lb_alertCycle (seeded_row now input s) + 1))) (opened_db now input s) = Some i"
proof -
  let ?k = "nd_dedupeKey (ob_buildNotification input (lb_alertCycle (seeded_row now input s) + 1))"
  have "\<exists>n \<in> set (notifications (opened_db now input s)). nt_dedupeKey n = ?k"
    using assms by (auto simp: opened_db_def Let_def)
  then have "find (\<lambda>n. nt_dedupeKey n = ?k) (notifications (opened_db now input s)) \<noteq> None"
    by (auto simp: find_None_all)
  then show ?thesis by (auto simp: find_notification_def)
qed

lemma lb_states_opened [simp]: "lb_states (opened_db now input s) = moved now input s"
  by (simp add: opened_db_def Let_def)

lemma observe_result:
  assumes "lb_ok s" and "lc_enabled (readLowBalanceConfigRows s)"
    and "find (\<lambda>u. u_id u = oa_userId a) (users s) = Some u"
    and "oa_balanceBeforeToman a \<noteq> None"
    and e: "(evaluateEligibility u = Eligible) = e"
    and i: "observation_of a (readLowBalanceConfigRows s) e = i"
    and r: "seeded_row now i s = r"
    and "observeWalletBalance now a s = Inr (out, s')"
  shows "find (\<lambda>r. lb_userId r = oa_userId a) (lb_states s') = Some (lb_next now i r)
    \<and> (if opens i r
       then s' = opened_db now i s
         \<and> (\<exists>n. find_notification (lowBalanceDedupeKey (oa_userId a) (lb_alertCycle r + 1)) s' = n
              \<and> (e \<longrightarrow> n \<noteq> None)
              \<and> out = (if e then Observe_alerted (lb_alertCycle r + 1) n else Observe_ineligible))
       else s' = s\<lparr>drawn := Suc (drawn s), lb_states := moved now i s\<rparr>
         \<and> out = observe_outcome e (quiet_outcome i (is_new i s) r))"
proof -
  have ib: "ob_balanceBeforeToman i \<noteq> None" "\<not> ob_forceAlert i" "ob_eligible i = e"
    "ob_userId i = oa_userId a"
    "\<And>c. nd_dedupeKey (ob_buildNotification i c) = lowBalanceDedupeKey (oa_userId a) c"
    using assms(4) i by auto
  have "post (observeWalletBalance now a) s (\<lambda>out s'.
      if opens i r
       then s' = opened_db now i s
         \<and> (\<exists>n. find_notification (lowBalanceDedupeKey (oa_userId a) (lb_alertCycle r + 1)) s' = n
              \<and> (e \<longrightarrow> n \<noteq> None)
              \<and> out = (if e then Observe_alerted (lb_alertCycle r + 1) n else Observe_ineligible))
       else s' = s\<lparr>drawn := Suc (drawn s), lb_states := moved now i s\<rparr>
         \<and> out = observe_outcome e (quiet_outcome i (is_new i s) r))"
    unfolding observe_unfold [OF assms(2,3)] e i
    by (rule post_mono [OF apply_step [OF assms(1) ib(1,2)]])
      (use opened_notification [of i now s] in \<open>auto simp: Let_def r ib split: if_splits\<close>)
  moreover from this have "lb_states s' = moved now i s"
    using assms(8) by (auto dest!: post_Inr split: if_splits)
  ultimately show ?thesis
    using assms(8) find_moved [OF assms(1), of i now] r ib(4) by (auto dest!: post_Inr)
qed

text \<open>
  C39. The observer inside a wallet transaction implements the pure machine: for a user who has a
  state row, the committed row after the observation is the one the pure transition prescribes for
  the new balance, the cycle advances exactly when the machine alerts, and the answer reports that
  transition, with the identifier of a stored notification whenever an eligible user is alerted.
\<close>

theorem observer_implements_machine:
  assumes "lb_ok s" and "lc_enabled (readLowBalanceConfigRows s)"
    and "find (\<lambda>u. u_id u = oa_userId a) (users s) = Some u"
    and "find (\<lambda>r. lb_userId r = oa_userId a) (lb_states s) = Some r"
    and "oa_balanceBeforeToman a \<noteq> None"
    and "observeWalletBalance now a s = Inr (out, s')"
  shows "\<exists>r'. find (\<lambda>r. lb_userId r = oa_userId a) (lb_states s') = Some r'
    \<and> lb_lastObservedBalanceToman r' = oa_balanceAfterToman a
    \<and> (case evaluateLowBalanceTransition (lb_state r) (oa_balanceAfterToman a)
          (readLowBalanceConfigRows s) of
        Transition_alert \<Rightarrow> lb_state r' = ALERTED \<and> lb_alertCycle r' = lb_alertCycle r + 1
          \<and> (if evaluateEligibility u = Eligible
             then \<exists>i. out = Observe_alerted (lb_alertCycle r') (Some i)
             else out = Observe_ineligible)
      | Transition_rearm \<Rightarrow> lb_state r' = ARMED \<and> lb_alertCycle r' = lb_alertCycle r
          \<and> out = Observe_rearmed (lb_alertCycle r)
      | Transition_none \<Rightarrow> lb_state r' = lb_state r \<and> lb_alertCycle r' = lb_alertCycle r
          \<and> out = Observe_unchanged)"
proof -
  define e where "e = (evaluateEligibility u = Eligible)"
  define i where "i = observation_of a (readLowBalanceConfigRows s) e"
  have row: "seeded_row now i s = r" and new: "\<not> is_new i s"
    using assms(4) by (simp_all add: i_def seeded_row_def is_new_def)
  note res = observe_result [OF assms(1-3,5) e_def [symmetric] i_def [symmetric] row assms(6)]
  then show ?thesis
    using new unfolding e_def [symmetric]
    by (cases "lb_state r")
      (auto simp: i_def lb_next_def Let_def record_observation_def opens_def quiet_outcome_def
        evaluateLowBalanceTransition_def isLowBalance_def isRearmed_def split: if_splits)
qed

text \<open>
  The first observation of a user: a witnessed crossing opens cycle 1 and alerts; a user who was
  low before and has not recovered past the re-arm boundary is a silent baseline, in cycle 0; a user
  above the threshold before and after is armed, in cycle 0. In particular a user seen first on the
  way up, above the threshold but not above the re-arm boundary, is recorded as alerted and not, as
  the header of the source has it, as armed.
\<close>

theorem first_observation:
  assumes "lb_ok s" and "lc_enabled (readLowBalanceConfigRows s)"
    and "find (\<lambda>u. u_id u = oa_userId a) (users s) = Some u"
    and "find (\<lambda>r. lb_userId r = oa_userId a) (lb_states s) = None"
    and "oa_balanceBeforeToman a = Some before" and "before' = oa_balanceAfterToman a"
    and "t = lc_thresholdToman (readLowBalanceConfigRows s)"
    and "b = rearmBoundaryToman (readLowBalanceConfigRows s)"
    and "observeWalletBalance now a s = Inr (out, s')"
  shows "\<exists>r. find (\<lambda>r. lb_userId r = oa_userId a) (lb_states s') = Some r
    \<and> (if t < before
       then if before' \<le> t
            then lb_state r = ALERTED \<and> lb_alertCycle r = 1
              \<and> (evaluateEligibility u = Eligible \<longrightarrow> (\<exists>i. out = Observe_alerted 1 (Some i)))
            else lb_state r = ARMED \<and> lb_alertCycle r = 0 \<and> out = Observe_seeded 0
       else if before' \<le> b
            then lb_state r = ALERTED \<and> lb_alertCycle r = 0 \<and> out = Observe_seeded 0
            else lb_state r = ARMED \<and> lb_alertCycle r = 0 \<and> out = Observe_rearmed 0)"
proof -
  define e where "e = (evaluateEligibility u = Eligible)"
  define i where "i = observation_of a (readLowBalanceConfigRows s) e"
  define r where "r = seed_row now i (uuids s (drawn s))"
  have row: "seeded_row now i s = r" and new: "is_new i s"
    using assms(4) by (simp_all add: i_def r_def seeded_row_def is_new_def)
  have state: "lb_state r = (if before \<le> t then ALERTED else ARMED)" "lb_alertCycle r = 0"
    using assms(5,7) by (simp_all add: r_def i_def seed_row_def Let_def)
  have "oa_balanceBeforeToman a \<noteq> None" using assms(5) by simp
  note res = observe_result [OF assms(1-3) this e_def [symmetric] i_def [symmetric] row assms(9)]
  then show ?thesis
    using new state assms(6-8) unfolding e_def [symmetric]
    by (auto simp: i_def lb_next_def Let_def record_observation_def opens_def quiet_outcome_def
        split: if_splits)
qed

section \<open>One message per cycle\<close>

text \<open>Every low-balance message belongs to a cycle that its user has opened.\<close>

definition cycles_ok :: "db \<Rightarrow> bool" where
  "cycles_ok s \<longleftrightarrow>
     (\<forall>n \<in> set (notifications s). \<forall>u c. nt_dedupeKey n = lowBalanceDedupeKey u c \<longrightarrow>
        (\<exists>r \<in> set (lb_states s). lb_userId r = u \<and> 1 \<le> c \<and> c \<le> lb_alertCycle r))
     \<and> (\<forall>r \<in> set (lb_states s). 0 \<le> lb_alertCycle r)"

definition alerts_ok :: "db \<Rightarrow> bool" where
  "alerts_ok s \<longleftrightarrow> lb_ok s \<and> cycles_ok s"

lemma lb_next_cycle: "lb_alertCycle r \<le> lb_alertCycle (lb_next now i r)"
  by (simp add: lb_next_def Let_def record_observation_def)

lemma lb_next_opens: "opens i r \<Longrightarrow> lb_alertCycle (lb_next now i r) = lb_alertCycle r + 1"
  by (simp add: lb_next_def Let_def opens_def record_observation_def)

lemma moved_ok:
  assumes "lb_ok s"
  shows "unique_by lb_userId (moved now i s)" and "unique_by lb_id (moved now i s)"
    and "lb_id ` set (moved now i s) = lb_id ` set (seeded_states now i s)"
proof -
  have "map lb_userId (moved now i s) = map lb_userId (seeded_states now i s)"
    and m: "map lb_id (moved now i s) = map lb_id (seeded_states now i s)"
    by (simp_all add: moved_def update_where_def)
  then show "unique_by lb_userId (moved now i s)" and "unique_by lb_id (moved now i s)"
    using seeded_states_ok [OF assms] by (simp_all add: unique_by_def)
  show "lb_id ` set (moved now i s) = lb_id ` set (seeded_states now i s)"
    using arg_cong [OF m, of set] by simp
qed

lemma moved_covers:
  assumes "r \<in> set (lb_states s)"
  shows "\<exists>r' \<in> set (moved now i s). lb_userId r' = lb_userId r \<and> lb_alertCycle r \<le> lb_alertCycle r'"
proof -
  let ?f = "\<lambda>x. if lb_id x = lb_id (seeded_row now i s) then lb_next now i x else x"
  have "r \<in> set (seeded_states now i s)" using assms by (simp add: seeded_states_def)
  then have "?f r \<in> set (moved now i s)" by (auto simp: moved_def set_update_where)
  moreover have "lb_userId (?f r) = lb_userId r" "lb_alertCycle r \<le> lb_alertCycle (?f r)"
    by (simp_all add: lb_next_cycle)
  ultimately show ?thesis by blast
qed

lemma moved_cycles_nonneg:
  assumes "\<forall>r \<in> set (lb_states s). 0 \<le> lb_alertCycle r"
  shows "\<forall>r \<in> set (moved now i s). 0 \<le> lb_alertCycle r"
proof -
  have "\<forall>r \<in> set (seeded_states now i s). 0 \<le> lb_alertCycle r"
    using assms by (auto simp: seeded_states_def)
  then show ?thesis
    by (auto simp: moved_def set_update_where intro: order_trans [OF _ lb_next_cycle])
qed

lemma cycle_unnotified:
  assumes "lb_ok s" and "cycles_ok s" and "opens i (seeded_row now i s)"
  shows "\<forall>n \<in> set (notifications s). nt_dedupeKey n \<noteq>
    lowBalanceDedupeKey (ob_userId i) (lb_alertCycle (seeded_row now i s) + 1)"
proof (intro ballI notI)
  fix n
  assume "n \<in> set (notifications s)"
    and "nt_dedupeKey n = lowBalanceDedupeKey (ob_userId i) (lb_alertCycle (seeded_row now i s) + 1)"
  then obtain r where r: "r \<in> set (lb_states s)" "lb_userId r = ob_userId i"
      "lb_alertCycle (seeded_row now i s) + 1 \<le> lb_alertCycle r"
    using assms(2) unfolding cycles_ok_def by blast
  then have "seeded_row now i s = r"
    using find_unique [of lb_userId "lb_states s" r] assms(1) by (simp add: lb_ok_def seeded_row_def)
  with r(3) show False by simp
qed

text \<open>A step that moves the observed row and appends messages of opened cycles keeps both tables.\<close>

lemma alerts_ok_step:
  assumes "alerts_ok s" and "lb_states s' = moved now i s" and "uuids s' = uuids s"
    and "Suc (drawn s) \<le> drawn s'" and "notifications s' = notifications s @ ns"
    and "unique_by nt_dedupeKey (notifications s')"
    and "\<And>n v c. \<lbrakk>n \<in> set ns; nt_dedupeKey n = lowBalanceDedupeKey v c\<rbrakk>
      \<Longrightarrow> \<exists>r \<in> set (moved now i s). lb_userId r = v \<and> 1 \<le> c \<and> c \<le> lb_alertCycle r"
  shows "alerts_ok s'"
proof -
  have ok: "lb_ok s" "cycles_ok s" using assms(1) by (simp_all add: alerts_ok_def)
  have "fresh_for lb_id (moved now i s) s'"
    by (rule fresh_keep [OF seeded_states_ok(3) [OF ok(1), of now i]])
      (simp_all add: assms(3,4) moved_ok(3) [OF ok(1)])
  then have "lb_ok s'" using ok(1) moved_ok [OF ok(1)] assms(2,3,6) by (simp add: lb_ok_def)
  moreover have "cycles_ok s'"
  proof -
    have "\<exists>r \<in> set (moved now i s). lb_userId r = v \<and> 1 \<le> c \<and> c \<le> lb_alertCycle r"
      if n: "n \<in> set (notifications s)" "nt_dedupeKey n = lowBalanceDedupeKey v c" for n v c
    proof -
      obtain x where x: "x \<in> set (lb_states s)" "lb_userId x = v" "1 \<le> c" "c \<le> lb_alertCycle x"
        using ok(2) n unfolding cycles_ok_def by blast
      with moved_covers [OF x(1), of now i] show ?thesis by auto
    qed
    moreover have "\<forall>x \<in> set (moved now i s). 0 \<le> lb_alertCycle x"
      using ok(2) by (intro moved_cycles_nonneg) (simp add: cycles_ok_def)
    ultimately show ?thesis using assms(2,5,7) unfolding cycles_ok_def by (metis Un_iff set_append)
  qed
  ultimately show ?thesis by (simp add: alerts_ok_def)
qed

lemma opened_cycle_row:
  assumes "lb_ok s" and "cycles_ok s" and "opens i (seeded_row now i s)"
  shows "\<exists>r \<in> set (moved now i s). lb_userId r = ob_userId i \<and>
    1 \<le> lb_alertCycle (seeded_row now i s) + 1 \<and> lb_alertCycle (seeded_row now i s) + 1 \<le> lb_alertCycle r"
proof -
  obtain r where "r \<in> set (moved now i s)" "lb_userId r = ob_userId i"
      "lb_alertCycle r = lb_alertCycle (seeded_row now i s) + 1"
    using find_moved [OF assms(1), of i now] lb_next_opens [OF assms(3), of now]
    by (auto dest!: find_Some_in)
  moreover have "0 \<le> lb_alertCycle (seeded_row now i s)"
    using assms(2) by (auto simp: cycles_ok_def seeded_row_def dest: find_Some_in split: option.splits)
  ultimately show ?thesis by auto
qed

text \<open>
  One message per alert cycle: whatever the observer answers, the tables of states and messages
  stay consistent (one row per user, one message per key, every message in a cycle its user opened);
  an alert appends exactly one message, under the key of the cycle just opened, and returns its
  identifier; every other answer appends none.
\<close>

theorem one_message_per_cycle:
  assumes "alerts_ok s" and "oa_balanceBeforeToman a \<noteq> None"
    and "observeWalletBalance now a s = Inr (out, s')"
  shows "alerts_ok s'
    \<and> (case out of
        Observe_alerted c nid \<Rightarrow> \<exists>n. notifications s' = notifications s @ [n]
          \<and> nt_dedupeKey n = lowBalanceDedupeKey (oa_userId a) c \<and> nt_userId n = oa_userId a
          \<and> nid = Some (nt_id n)
      | _ \<Rightarrow> notifications s' = notifications s)"
proof (cases "lc_enabled (readLowBalanceConfigRows s)
    \<and> find (\<lambda>u. u_id u = oa_userId a) (users s) \<noteq> None")
  case False
  then have "out \<in> {Observe_disabled, Observe_ineligible} \<and> s' = s"
    using assms(3) observe_skip [of s a now "\<lambda>out s'. out \<in> {Observe_disabled, Observe_ineligible} \<and> s' = s"]
    by (auto dest!: post_Inr split: if_splits)
  with assms(1) show ?thesis by auto
next
  case True
  then obtain u where u: "find (\<lambda>u. u_id u = oa_userId a) (users s) = Some u" by auto
  define e where "e = (evaluateEligibility u = Eligible)"
  define i where "i = observation_of a (readLowBalanceConfigRows s) e"
  define r where "r = seeded_row now i s"
  let ?c = "lb_alertCycle r + 1"
  let ?n = "notification_of now i (ob_buildNotification i ?c) (uuids s (Suc (drawn s)))"
  have ok: "lb_ok s" "cycles_ok s" using assms(1) by (simp_all add: alerts_ok_def)
  have ib: "ob_eligible i = e" "ob_userId i = oa_userId a"
    "\<And>c. nd_dedupeKey (ob_buildNotification i c) = lowBalanceDedupeKey (oa_userId a) c"
    by (simp_all add: i_def)
  note res = observe_result [OF ok(1) conjunct1 [OF True] u assms(2) e_def [symmetric]
      i_def [symmetric] r_def [symmetric] assms(3)]
  have uniq: "unique_by nt_dedupeKey (notifications s)" using ok(1) by (simp add: lb_ok_def)
  show ?thesis
  proof (cases "opens i r")
    case False
    with res have s': "s' = s\<lparr>drawn := Suc (drawn s), lb_states := moved now i s\<rparr>"
      and out: "out = observe_outcome e (quiet_outcome i (is_new i s) r)" by simp_all
    have "alerts_ok s'"
      by (rule alerts_ok_step [OF assms(1), of _ now i "[]"]) (simp_all add: s' uniq)
    moreover have "\<forall>c n. out \<noteq> Observe_alerted c n" by (simp add: out quiet_outcome_def Let_def)
    ultimately show ?thesis by (cases out) (auto simp: s')
  next
    case op: True
    have new: "\<forall>n \<in> set (notifications s). nt_dedupeKey n \<noteq> lowBalanceDedupeKey (oa_userId a) ?c"
      using cycle_unnotified [OF ok, of i now] op ib(2) by (simp add: r_def)
    have st: "lb_states s' = moved now i s" "uuids s' = uuids s" "Suc (drawn s) \<le> drawn s'"
      and ns: "notifications s' = notifications s @ (if e then [?n] else [])"
      and out: "out = (if e then Observe_alerted ?c (find_notification (lowBalanceDedupeKey (oa_userId a) ?c) s')
        else Observe_ineligible)"
      using res op new by (auto simp: opened_db_def Let_def r_def [symmetric] ib)
    have nid: "e \<Longrightarrow> find_notification (lowBalanceDedupeKey (oa_userId a) ?c) s' = Some (nt_id ?n)"
      using new by (simp add: find_notification_def ns find_append ib find_None_all [THEN iffD2])
    have "unique_by nt_dedupeKey (notifications s')"
      using uniq new by (auto simp: ns unique_by_def ib)
    then have "alerts_ok s'"
      using opened_cycle_row [OF ok, of i now] op
      by (intro alerts_ok_step [OF assms(1) st ns])
        (auto simp: r_def ib lowBalanceDedupeKey_inject split: if_splits)
    then show ?thesis using nid out by (auto simp: ns ib)
  qed
qed

section \<open>The observer never raises\<close>

definition never_throws :: "('e, 'a) tx \<Rightarrow> db \<Rightarrow> bool" where
  "never_throws m s \<longleftrightarrow> (case m s of Inl (Thrown _) \<Rightarrow> False | _ \<Rightarrow> True)"

lemma never_throws_bind:
  "never_throws (tx_bind m f) s \<longleftrightarrow> never_throws m s \<and> post m s (\<lambda>a s'. never_throws (f a) s')"
  by (auto simp: never_throws_def post_def tx_bind_def split: sum.splits thrown.splits prod.splits)

lemma never_throws_simple [simp]:
  "never_throws (tx_return a) s" "never_throws (tx_read f) s" "never_throws (tx_do g) s"
  by (simp_all add: never_throws_def tx_return_def tx_read_def tx_do_def split: prod.splits)

lemma never_throws_then:
  "never_throws (tx_then m n) s \<longleftrightarrow> never_throws m s \<and> post m s (\<lambda>_ s'. never_throws n s')"
  by (simp add: tx_then_def never_throws_bind)

lemma never_throws_writes [simp]:
  "never_throws (insert_state r) s" "never_throws (update_state i f) s"
  "never_throws (insert_notification n) s"
  by (auto simp: never_throws_def insert_state_def update_state_def insert_notification_def
      split: option.splits)

lemma post_trivial [simp]: "post m s (\<lambda>_ _. True)"
  by (simp add: post_def split: sum.splits prod.splits)

lemma seed_never_throws: "never_throws (seedAndLockState now input) s"
proof -
  have f: "find (\<lambda>r. lb_userId r = ob_userId input) t = None \<Longrightarrow>
      \<not> (\<exists>r \<in> set t. lb_userId r = ob_userId input)" for t
    by (simp add: find_None_all)
  show ?thesis
    using f [of "lb_states s"]
    by (auto simp: seedAndLockState_def never_throws_bind post_do post_insert_state post_read
        tx_some_def find_append split: option.splits)
qed

lemma openCycle_never_throws: "never_throws (openCycle now st inp) s"
  by (auto simp: openCycle_def Let_def never_throws_bind never_throws_then post_update_state
      post_do post_insert_notification)

lemma apply_never_throws: "never_throws (applyLowBalanceObservation now input) s"
  unfolding applyLowBalanceObservation_def never_throws_bind
  using seed_never_throws post_trivial
  by (auto simp: never_throws_bind never_throws_then post_read Let_def touch_def rearm_def
      openCycle_never_throws intro!: post_mono [OF post_trivial] split: prod.splits)

text \<open>
  The state row never vanishes under the observer's feet: inside its transaction the one
  exception the module can raise is unreachable, so the bridge of the wallet paths swallows nothing,
  and what it writes is confined to the tables of alert states and notifications.
\<close>

theorem observer_never_raises:
  "observeWalletBalance now a s \<noteq> Inl (Thrown STATE_ROW_VANISHED)
   \<and> post (onWalletBalanceChanged now a) s (\<lambda>_ s'. observeWalletBalance now a s \<noteq> Inl DbFault
        \<and> users s' = users s \<and> wallet_txs s' = wallet_txs s \<and> payments s' = payments s
        \<and> orders s' = orders s \<and> checkouts s' = checkouts s)"
proof -
  have "never_throws (observeWalletBalance now a) s"
    by (auto simp: observeWalletBalance_def never_throws_bind post_read Let_def apply_never_throws
        intro!: post_mono [OF post_trivial] split: option.splits)
  then have "observeWalletBalance now a s \<noteq> Inl (Thrown STATE_ROW_VANISHED)"
    by (auto simp: never_throws_def)
  moreover have "post (onWalletBalanceChanged now a) s (\<lambda>_ s'. observeWalletBalance now a s \<noteq> Inl DbFault)"
    by (auto simp: post_def onWalletBalanceChanged_def split: sum.splits prod.splits thrown.splits)
  from post_conj [OF this observer.frame]
  have "post (onWalletBalanceChanged now a) s (\<lambda>_ s'. observeWalletBalance now a s \<noteq> Inl DbFault
        \<and> users s' = users s \<and> wallet_txs s' = wallet_txs s \<and> payments s' = payments s
        \<and> orders s' = orders s \<and> checkouts s' = checkouts s)"
    by (rule post_mono) (simp add: only_alerts_keeps)
  ultimately show ?thesis by blast
qed

section \<open>Missing settings\<close>

text \<open>
  A missing settings row does not read as its default. The reader substitutes the empty string,
  which \<open>Number\<close> reads as 0, and 0 is accepted: the threshold, the margin and the configuration
  version of an installation without the rows are 0 instead of 100000, 20000 and 1.
\<close>

theorem missing_setting_reads_zero:
  "(setting_value LOW_BALANCE_THRESHOLD_KEY s = None \<longrightarrow>
      lc_thresholdToman (readLowBalanceConfigRows s) = 0)
   \<and> (setting_value LOW_BALANCE_REARM_MARGIN_KEY s = None \<longrightarrow>
      lc_rearmMarginToman (readLowBalanceConfigRows s) = 0)
   \<and> (setting_value LOW_BALANCE_CONFIG_VERSION_KEY s = None \<longrightarrow>
      lc_configVersion (readLowBalanceConfigRows s) = 0)
   \<and> lc_thresholdToman DEFAULT_LOW_BALANCE_CONFIG = 100000
   \<and> lc_rearmMarginToman DEFAULT_LOW_BALANCE_CONFIG = 20000
   \<and> lc_configVersion DEFAULT_LOW_BALANCE_CONFIG = 1"
  by (simp add: readLowBalanceConfigRows_def setting_or_empty_def parseIntSetting_def
      js_Number_empty DEFAULT_LOW_BALANCE_CONFIG_def DEFAULT_LOW_BALANCE_THRESHOLD_TOMAN_def
      DEFAULT_LOW_BALANCE_REARM_MARGIN_TOMAN_def)

end
