(* ===== verification/Username.thy ===== *)
theory Username
  imports LowBalance
begin

text \<open>
  The service username and the optional note (packages/shared/src/service-username.ts): validation,
  generation from random bytes by rejection sampling, and the normalisation of notes.
\<close>

section \<open>Validation\<close>

definition SERVICE_USERNAME_MIN_LENGTH :: nat where "SERVICE_USERNAME_MIN_LENGTH = 8"
definition SERVICE_USERNAME_MAX_LENGTH :: nat where "SERVICE_USERNAME_MAX_LENGTH = 16"

definition is_lower_letter :: "char \<Rightarrow> bool" where
  "is_lower_letter c \<longleftrightarrow> 97 \<le> char_code c \<and> char_code c \<le> 122"

definition is_username_char :: "char \<Rightarrow> bool" where
  "is_username_char c \<longleftrightarrow> is_lower_letter c \<or> is_digit c \<or> char_code c = 95"

text \<open>\<open>/^[a-z][a-z0-9_]{7,15}$/\<close>\<close>

definition SERVICE_USERNAME_REGEX :: "string \<Rightarrow> bool" where
  "SERVICE_USERNAME_REGEX s =
     (case s of
        [] \<Rightarrow> False
      | c # r \<Rightarrow> is_lower_letter c \<and> 7 \<le> length r \<and> length r \<le> 15 \<and> list_all is_username_char r)"

definition SERVICE_USERNAME_RANDOM_PREFIX :: string where
  "SERVICE_USERNAME_RANDOM_PREFIX = ''u_''"

definition RANDOM_SUFFIX_LENGTH :: nat where "RANDOM_SUFFIX_LENGTH = 8"

definition RANDOM_ALPHABET :: string where
  "RANDOM_ALPHABET = ''abcdefghijklmnopqrstuvwxyz0123456789''"

datatype ServiceUsernameRejectReason = EMPTY | TOO_SHORT | TOO_LONG | BAD_FIRST_CHAR | BAD_CHARS

definition normalizeServiceUsername :: "string \<Rightarrow> string" where
  "normalizeServiceUsername raw = js_lower (js_trim raw)"

definition validateServiceUsername :: "string \<Rightarrow> ServiceUsernameRejectReason + string" where
  "validateServiceUsername raw =
     (let normalized = normalizeServiceUsername raw in
      if length normalized = 0 then Inl EMPTY
      else if length normalized < SERVICE_USERNAME_MIN_LENGTH then Inl TOO_SHORT
      else if length normalized > SERVICE_USERNAME_MAX_LENGTH then Inl TOO_LONG
      else if \<not> is_lower_letter (hd normalized) then Inl BAD_FIRST_CHAR
      else if \<not> SERVICE_USERNAME_REGEX normalized then Inl BAD_CHARS
      else Inr normalized)"

definition isValidServiceUsername :: "string \<Rightarrow> bool" where
  "isValidServiceUsername value =
     (case validateServiceUsername value of Inl _ \<Rightarrow> False | Inr n \<Rightarrow> n = value)"

lemma username_char_plain: "is_username_char c \<Longrightarrow> \<not> is_ws c \<and> lower_char c = c"
  by (auto simp: is_username_char_def is_lower_letter_def is_digit_def is_ws_def lower_char_def Let_def)

lemma regex_chars: "SERVICE_USERNAME_REGEX s \<Longrightarrow> list_all is_username_char s"
  by (cases s) (auto simp: SERVICE_USERNAME_REGEX_def is_username_char_def)

lemma regex_length: "SERVICE_USERNAME_REGEX s \<Longrightarrow> 8 \<le> length s \<and> length s \<le> 16"
  by (cases s) (auto simp: SERVICE_USERNAME_REGEX_def)

lemma regex_normalized:
  assumes "SERVICE_USERNAME_REGEX s"
  shows "normalizeServiceUsername s = s"
proof -
  have "\<forall>c \<in> set s. \<not> is_ws c" and "\<forall>c \<in> set s. lower_char c = c"
    using regex_chars [OF assms] username_char_plain by (auto simp: list_all_iff)
  then show ?thesis by (simp add: normalizeServiceUsername_def js_trim_id js_lower_id)
qed

lemma validate_Inr:
  "validateServiceUsername raw = Inr n \<longleftrightarrow>
     n = normalizeServiceUsername raw \<and> SERVICE_USERNAME_REGEX n"
  using regex_length [of "normalizeServiceUsername raw"]
  by (cases "normalizeServiceUsername raw")
    (auto simp: validateServiceUsername_def Let_def SERVICE_USERNAME_MIN_LENGTH_def
      SERVICE_USERNAME_MAX_LENGTH_def SERVICE_USERNAME_REGEX_def)

lemma validate_regex: "SERVICE_USERNAME_REGEX n \<Longrightarrow> validateServiceUsername n = Inr n"
  by (simp add: validate_Inr regex_normalized)

lemma isValid_regex: "isValidServiceUsername n \<longleftrightarrow> SERVICE_USERNAME_REGEX n"
  by (auto simp: isValidServiceUsername_def validate_regex validate_Inr regex_normalized
      split: sum.splits)

text \<open>
  A typed username is accepted exactly when its trimmed lower-case form matches the canonical
  pattern; what is accepted is that form, it has 8 to 16 characters, and validating it again accepts
  it unchanged.
\<close>

theorem username_validation_exact:
  "(validateServiceUsername raw = Inr n \<longleftrightarrow>
      n = js_lower (js_trim raw) \<and> SERVICE_USERNAME_REGEX n)
   \<and> (validateServiceUsername raw = Inr n \<longrightarrow>
      SERVICE_USERNAME_MIN_LENGTH \<le> length n \<and> length n \<le> SERVICE_USERNAME_MAX_LENGTH
      \<and> isValidServiceUsername n \<and> validateServiceUsername n = Inr n)"
  using regex_length [of n]
  by (auto simp: validate_Inr isValid_regex validate_regex regex_normalized
      normalizeServiceUsername_def [symmetric]
      SERVICE_USERNAME_MIN_LENGTH_def SERVICE_USERNAME_MAX_LENGTH_def)

section \<open>Random usernames\<close>

text \<open>
  The buffers \<open>randomBytes\<close> returns are a parameter, in the order they are drawn. The sampler stops
  as soon as it has enough indices; running out of buffers is the result \<open>None\<close>.
\<close>

fun take_accepted :: "nat \<Rightarrow> nat \<Rightarrow> nat \<Rightarrow> nat list \<Rightarrow> nat list" where
  "take_accepted limit sz need [] = []"
| "take_accepted limit sz need (b # bs) =
     (if need = 0 then []
      else if b < limit then b mod sz # take_accepted limit sz (need - 1) bs
      else take_accepted limit sz need bs)"

fun draw_indices :: "nat \<Rightarrow> nat \<Rightarrow> nat \<Rightarrow> nat list list \<Rightarrow> (nat list \<times> nat list list) option" where
  "draw_indices limit sz need bufs =
     (if need = 0 then Some ([], bufs)
      else case bufs of
        [] \<Rightarrow> None
      | buf # rest \<Rightarrow>
          let got = take_accepted limit sz need buf in
          (case draw_indices limit sz (need - length got) rest of
             None \<Rightarrow> None
           | Some (tl_ixs, left) \<Rightarrow> Some (got @ tl_ixs, left)))"

declare draw_indices.simps [simp del]

definition rejection_limit :: "nat \<Rightarrow> nat" where
  "rejection_limit sz = 256 - 256 mod sz"

definition randomIndices :: "nat \<Rightarrow> nat \<Rightarrow> nat list list \<Rightarrow> (nat list \<times> nat list list) option" where
  "randomIndices count sz bufs = draw_indices (rejection_limit sz) sz count bufs"

lemma take_accepted_bound:
  "0 < sz \<Longrightarrow> length (take_accepted limit sz need bs) \<le> need
     \<and> (\<forall>i \<in> set (take_accepted limit sz need bs). i < sz)"
  by (induction limit sz need bs rule: take_accepted.induct) auto

lemma take_accepted_progress:
  "0 < need \<Longrightarrow> \<exists>b \<in> set bs. b < limit \<Longrightarrow> take_accepted limit sz need bs \<noteq> []"
  by (induction limit sz need bs rule: take_accepted.induct) auto

lemma draw_indices_sound:
  "0 < sz \<Longrightarrow> draw_indices limit sz need bufs = Some (ixs, left) \<Longrightarrow>
     length ixs = need \<and> (\<forall>i \<in> set ixs. i < sz) \<and> length left \<le> length bufs
     \<and> (0 < need \<longrightarrow> length left < length bufs)"
proof (induction limit sz need bufs arbitrary: ixs left rule: draw_indices.induct)
  case (1 limit sz need bufs)
  show ?case
  proof (cases "need = 0 \<or> bufs = []")
    case True
    with 1 show ?thesis by (auto simp: draw_indices.simps split: if_splits)
  next
    case False
    then obtain buf rest where b: "bufs = buf # rest" and n: "need \<noteq> 0" by (cases bufs) auto
    let ?got = "take_accepted limit sz need buf"
    obtain tl_ixs l where m: "draw_indices limit sz (need - length ?got) rest = Some (tl_ixs, l)"
      and r: "ixs = ?got @ tl_ixs" "left = l"
      using 1(3) b n by (subst (asm) draw_indices.simps) (auto simp: Let_def split: option.splits)
    show ?thesis
      using 1(1) [OF n b refl 1(2) m] take_accepted_bound [OF 1(2), of limit need buf] r b by auto
  qed
qed

lemma draw_indices_total:
  "need \<le> length bufs \<Longrightarrow> \<forall>buf \<in> set bufs. \<exists>b \<in> set buf. b < limit \<Longrightarrow>
     draw_indices limit sz need bufs \<noteq> None"
proof (induction limit sz need bufs rule: draw_indices.induct)
  case (1 limit sz need bufs)
  show ?case
  proof (cases "need = 0")
    case True
    then show ?thesis by (simp add: draw_indices.simps)
  next
    case n: False
    then obtain buf rest where b: "bufs = buf # rest" using 1(2) by (cases bufs) auto
    let ?got = "take_accepted limit sz need buf"
    have "?got \<noteq> []" using 1(3) n b by (intro take_accepted_progress) auto
    then have "need - length ?got \<le> length rest" using 1(2) b by (cases ?got) auto
    then have "draw_indices limit sz (need - length ?got) rest \<noteq> None"
      using 1(1) [OF n b refl] 1(3) b by auto
    then show ?thesis using n b by (subst draw_indices.simps) (auto simp: Let_def split: option.splits)
  qed
qed

lemma randomIndices_rest:
  "randomIndices 8 36 bufs = Some (ixs, left) \<Longrightarrow> length left < length bufs"
  using draw_indices_sound [of 36] by (simp add: randomIndices_def)

definition suffix_of :: "nat list \<Rightarrow> string" where
  "suffix_of ixs = map (\<lambda>i. RANDOM_ALPHABET ! i) ixs"

function generateRandomServiceUsername :: "nat list list \<Rightarrow> (string \<times> nat list list) option" where
  "generateRandomServiceUsername bufs =
     (case randomIndices 8 36 bufs of
        None \<Rightarrow> None
      | Some (ixs, left) \<Rightarrow>
          let candidate = SERVICE_USERNAME_RANDOM_PREFIX @ suffix_of ixs in
          if \<not> SERVICE_USERNAME_REGEX candidate then generateRandomServiceUsername left
          else Some (candidate, left))"
  by pat_completeness auto
termination
  by (relation "measure length") (auto dest: randomIndices_rest)

declare generateRandomServiceUsername.simps [simp del]

lemma alphabet_chars: "i < 36 \<Longrightarrow> is_username_char (RANDOM_ALPHABET ! i)"
proof -
  assume i: "i < 36"
  have l: "length RANDOM_ALPHABET = 36" by code_simp
  have "list_all is_username_char RANDOM_ALPHABET" by code_simp
  with i l show ?thesis by (simp add: list_all_length)
qed

lemma suffix_regex:
  assumes "length ixs = 8" and "\<forall>i \<in> set ixs. i < 36"
  shows "SERVICE_USERNAME_REGEX (SERVICE_USERNAME_RANDOM_PREFIX @ suffix_of ixs)"
proof -
  have "list_all is_username_char (suffix_of ixs)" "length (suffix_of ixs) = 8"
    using assms alphabet_chars by (auto simp: suffix_of_def list_all_iff)
  moreover have "is_lower_letter CHR ''u''" "is_username_char CHR ''_''"
    by (simp_all add: is_lower_letter_def is_username_char_def char_code_def)
  ultimately show ?thesis by (simp add: SERVICE_USERNAME_REGEX_def SERVICE_USERNAME_RANDOM_PREFIX_def)
qed

lemma generate_random:
  "generateRandomServiceUsername bufs =
     map_option (\<lambda>(ixs, left). (SERVICE_USERNAME_RANDOM_PREFIX @ suffix_of ixs, left))
       (randomIndices 8 36 bufs)"
proof (cases "randomIndices 8 36 bufs")
  case None
  then show ?thesis by (subst generateRandomServiceUsername.simps) simp
next
  case (Some p)
  obtain ixs left where p: "p = (ixs, left)" by fastforce
  have "length ixs = 8 \<and> (\<forall>i \<in> set ixs. i < 36)"
    using draw_indices_sound [of 36] Some p by (simp add: randomIndices_def)
  with Some p show ?thesis
    by (subst generateRandomServiceUsername.simps) (simp add: suffix_regex)
qed

lemma unbiased:
  assumes "i < (36 :: nat)"
  shows "length (filter (\<lambda>b. b mod 36 = i) [0..<rejection_limit 36]) = 7"
proof -
  have l: "rejection_limit 36 = 252" by (simp add: rejection_limit_def)
  have "{b. b < 252 \<and> b mod 36 = i} = (\<lambda>k. 36 * k + i) ` {..<7}"
  proof (intro set_eqI iffI)
    fix b
    assume "b \<in> {b. b < 252 \<and> b mod 36 = i}"
    then have "b = 36 * (b div 36) + i" "b div 36 < 7" by auto
    then show "b \<in> (\<lambda>k. 36 * k + i) ` {..<7}" by blast
  qed (use assms in auto)
  then have "card {b. b < 252 \<and> b mod 36 = i} = 7"
    by (simp add: card_image inj_on_def)
  moreover have "length (filter (\<lambda>b. b mod 36 = i) [0..<252]) = card {b. b < 252 \<and> b mod 36 = i}"
    by (subst distinct_card [symmetric]) (auto intro!: arg_cong [where f = card])
  ultimately show ?thesis by (simp add: l)
qed

text \<open>
  A generated username is always a valid username: the defensive second draw is never taken.
  Eight buffers with one acceptable byte each are enough for a name, and the sampling is unbiased:
  every index of the alphabet comes from exactly seven of the 252 accepted byte values.
\<close>

theorem random_username_valid:
  "(generateRandomServiceUsername bufs = Some (u, left) \<longrightarrow>
      isValidServiceUsername u \<and> length u = 10 \<and> starts_with u SERVICE_USERNAME_RANDOM_PREFIX
      \<and> (\<exists>ixs. randomIndices 8 36 bufs = Some (ixs, left)))
   \<and> (8 \<le> length bufs \<and> (\<forall>buf \<in> set bufs. \<exists>b \<in> set buf. b < rejection_limit 36) \<longrightarrow>
      generateRandomServiceUsername bufs \<noteq> None)
   \<and> (i < 36 \<longrightarrow> length (filter (\<lambda>b. b mod 36 = i) [0..<rejection_limit 36]) = 7)"
proof (intro conjI impI)
  assume g: "generateRandomServiceUsername bufs = Some (u, left)"
  then obtain ixs where r: "randomIndices 8 36 bufs = Some (ixs, left)"
    and u: "u = SERVICE_USERNAME_RANDOM_PREFIX @ suffix_of ixs"
    by (auto simp: generate_random)
  have ix: "length ixs = 8 \<and> (\<forall>i \<in> set ixs. i < 36)"
    using draw_indices_sound [of 36] r by (simp add: randomIndices_def)
  show "isValidServiceUsername u" using ix u by (simp add: isValid_regex suffix_regex)
  show "length u = 10" using ix u by (simp add: suffix_of_def SERVICE_USERNAME_RANDOM_PREFIX_def)
  show "starts_with u SERVICE_USERNAME_RANDOM_PREFIX" by (simp add: u starts_with_def)
  show "\<exists>ixs. randomIndices 8 36 bufs = Some (ixs, left)" using r by blast
next
  assume "8 \<le> length bufs \<and> (\<forall>buf \<in> set bufs. \<exists>b \<in> set buf. b < rejection_limit 36)"
  then have "randomIndices 8 36 bufs \<noteq> None"
    using draw_indices_total [of 8 bufs "rejection_limit 36" 36] by (simp add: randomIndices_def)
  then show "generateRandomServiceUsername bufs \<noteq> None" by (auto simp: generate_random)
next
  assume "i < 36"
  then show "length (filter (\<lambda>b. b mod 36 = i) [0..<rejection_limit 36]) = 7"
    by (rule unbiased)
qed

section \<open>Notes\<close>

definition SERVICE_NOTE_MAX_CODE_POINTS :: nat where "SERVICE_NOTE_MAX_CODE_POINTS = 120"

datatype ServiceNoteRejectReason = NOTE_TOO_LONG | CONTROL_OR_BIDI

definition REJECTED_FORMAT_CODE_POINTS :: "nat list" where
  "REJECTED_FORMAT_CODE_POINTS =
     [8203, 8206, 8207, 8234, 8235, 8236, 8237, 8238, 8294, 8295, 8296, 8297, 1564, 65279]"

definition isControlCodePoint :: "nat \<Rightarrow> bool" where
  "isControlCodePoint cp \<longleftrightarrow> cp < 32 \<and> cp \<noteq> 10 \<or> cp = 127 \<or> 128 \<le> cp \<and> cp \<le> 159"

text \<open>\<open>\r\n?\<close> to a line feed.\<close>

fun unify_cr :: "nat list \<Rightarrow> nat list" where
  "unify_cr [] = []"
| "unify_cr (c # r) =
     (if c = 13 then 10 # (case r of d # q \<Rightarrow> if d = 10 then unify_cr q else unify_cr r | [] \<Rightarrow> [])
      else c # unify_cr r)"

definition unify_breaks :: "nat list \<Rightarrow> nat list" where
  "unify_breaks raw =
     map (\<lambda>c. if c = 8232 \<or> c = 8233 then 10 else if c = 9 then 32 else c) (unify_cr raw)"

text \<open>Runs of spaces to one space, then no space at the end, of each line.\<close>

fun collapse_spaces :: "nat list \<Rightarrow> nat list" where
  "collapse_spaces (c # d # r) =
     (if c = 32 \<and> d = 32 then collapse_spaces (d # r) else c # collapse_spaces (d # r))"
| "collapse_spaces s = s"

definition strip_end :: "nat list \<Rightarrow> nat list" where
  "strip_end l = rev (dropWhile (\<lambda>c. c = 32) (rev l))"

fun split_lines :: "nat list \<Rightarrow> nat list list" where
  "split_lines [] = [[]]"
| "split_lines (c # r) =
     (if c = 10 then [] # split_lines r
      else (case split_lines r of l # ls \<Rightarrow> (c # l) # ls | [] \<Rightarrow> [[c]]))"

fun join_lines :: "nat list list \<Rightarrow> nat list" where
  "join_lines [] = []"
| "join_lines [l] = l"
| "join_lines (l # m # ls) = l @ 10 # join_lines (m # ls)"

text \<open>Three or more line feeds to two.\<close>

fun collapse_breaks :: "nat list \<Rightarrow> nat list" where
  "collapse_breaks (a # b # c # r) =
     (if a = 10 \<and> b = 10 \<and> c = 10 then collapse_breaks (b # c # r)
      else a # collapse_breaks (b # c # r))"
| "collapse_breaks s = s"

definition countCodePoints :: "nat list \<Rightarrow> nat" where
  "countCodePoints value = length value"

definition normalizeServiceNote :: "nat list \<Rightarrow> ServiceNoteRejectReason + nat list" where
  "normalizeServiceNote raw =
     (let unified = unify_breaks raw in
      if \<exists>cp \<in> set unified. isControlCodePoint cp \<or> cp \<in> set REJECTED_FORMAT_CODE_POINTS
      then Inl CONTROL_OR_BIDI
      else
        let normalized = wide_trim (collapse_breaks (join_lines
              (map (\<lambda>line. strip_end (collapse_spaces line)) (split_lines unified))))
        in if SERVICE_NOTE_MAX_CODE_POINTS < countCodePoints normalized then Inl NOTE_TOO_LONG
           else Inr normalized)"

lemma set_collapse_spaces: "set (collapse_spaces s) \<subseteq> set s"
  by (induction s rule: collapse_spaces.induct) auto

lemma set_strip_end: "set (strip_end s) \<subseteq> set s"
  by (auto simp: strip_end_def dest: set_dropWhileD)

lemma set_split_lines: "\<forall>l \<in> set (split_lines s). set l \<subseteq> set s"
  by (induction s) (auto split: list.splits if_splits)

lemma set_join_lines: "set (join_lines ls) \<subseteq> insert 10 (\<Union>l \<in> set ls. set l)"
  by (induction ls rule: join_lines.induct) auto

lemma set_collapse_breaks: "set (collapse_breaks s) \<subseteq> set s"
  by (induction s rule: collapse_breaks.induct) auto

lemma set_wide_trim: "set (wide_trim s) \<subseteq> set s"
  by (auto simp: wide_trim_def dest!: set_dropWhileD)

definition no_triple_break :: "nat list \<Rightarrow> bool" where
  "no_triple_break s \<longleftrightarrow> (\<nexists>p q. s = p @ [10, 10, 10] @ q)"

lemma collapse_breaks_hd: "hd (collapse_breaks (a # s)) = a"
  by (induction "a # s" arbitrary: a s rule: collapse_breaks.induct) auto

lemma collapse_breaks_cons: "\<exists>r. collapse_breaks (a # s) = a # r"
proof -
  have "collapse_breaks (a # s) \<noteq> []"
    by (induction "a # s" arbitrary: a s rule: collapse_breaks.induct) auto
  then show ?thesis using collapse_breaks_hd [of a s] by (cases "collapse_breaks (a # s)") auto
qed

lemma no_triple_Cons:
  "no_triple_break (a # s) \<longleftrightarrow> no_triple_break s \<and> \<not> (a = 10 \<and> (\<exists>r. s = 10 # 10 # r))"
proof
  assume h: "no_triple_break (a # s)"
  have "no_triple_break s"
    using h unfolding no_triple_break_def by (metis append_Cons)
  moreover have "\<not> (a = 10 \<and> (\<exists>r. s = 10 # 10 # r))"
    using h unfolding no_triple_break_def by (metis append_Cons append_Nil)
  ultimately show "no_triple_break s \<and> \<not> (a = 10 \<and> (\<exists>r. s = 10 # 10 # r))" by blast
next
  assume h: "no_triple_break s \<and> \<not> (a = 10 \<and> (\<exists>r. s = 10 # 10 # r))"
  show "no_triple_break (a # s)"
    unfolding no_triple_break_def
  proof (intro notI, elim exE)
    fix p q
    assume e: "a # s = p @ [10, 10, 10] @ q"
    then show False
      using h by (cases p) (auto simp: no_triple_break_def)
  qed
qed

lemma collapse_breaks_two:
  "collapse_breaks (a # b # s) = a # 10 # 10 # r \<Longrightarrow> b = 10 \<and> (\<exists>t. collapse_breaks (b # s) = 10 # 10 # t)
   \<or> collapse_breaks (a # b # s) = collapse_breaks (b # s)"
  using collapse_breaks_cons [of b s] by (cases s) (auto split: if_splits)

lemma collapse_breaks_no_triple: "no_triple_break (collapse_breaks s)"
proof (induction s rule: collapse_breaks.induct)
  case (1 a b c r)
  show ?case
  proof (cases "a = 10 \<and> b = 10 \<and> c = 10")
    case True
    with 1(1) show ?thesis by simp
  next
    case False
    have "\<not> (a = 10 \<and> (\<exists>t. collapse_breaks (b # c # r) = 10 # 10 # t))"
    proof
      assume h: "a = 10 \<and> (\<exists>t. collapse_breaks (b # c # r) = 10 # 10 # t)"
      then obtain t where t: "collapse_breaks (b # c # r) = 10 # 10 # t" by blast
      have b: "b = 10" using t collapse_breaks_hd [of b "c # r"] by simp
      with False h have c: "c \<noteq> 10" by simp
      obtain u where "collapse_breaks (c # r) = c # u" using collapse_breaks_cons by blast
      then have "collapse_breaks (b # c # r) = b # c # u" using c by (cases r) auto
      with t c show False by simp
    qed
    with 1(2) [OF False] show ?thesis using False by (auto simp: no_triple_Cons)
  qed
next
  case "2_1" then show ?case by (simp add: no_triple_break_def)
next
  case "2_2" then show ?case by (simp add: no_triple_Cons) (simp add: no_triple_break_def)
next
  case "2_3" then show ?case by (simp add: no_triple_Cons) (simp add: no_triple_break_def)
qed

lemma no_triple_infix:
  assumes "no_triple_break (p @ s @ q)"
  shows "no_triple_break s"
  unfolding no_triple_break_def
proof (intro notI, elim exE)
  fix x y
  assume "s = x @ [10, 10, 10] @ y"
  then have "p @ s @ q = (p @ x) @ [10, 10, 10] @ (y @ q)" by simp
  with assms show False unfolding no_triple_break_def by blast
qed

lemma wide_trim_infix: "\<exists>p q. s = p @ wide_trim s @ q"
proof -
  let ?d = "dropWhile wide_ws s"
  have "s = takeWhile wide_ws s @ ?d" by simp
  moreover have "?d = wide_trim s @ rev (takeWhile wide_ws (rev ?d))"
    by (metis rev_append rev_rev_ident takeWhile_dropWhile_id wide_trim_def)
  ultimately show ?thesis by metis
qed

text \<open>
  An accepted note is safe to store and show: at most 120 code points, no control, directional
  or invisible formatting character, no tab or carriage return, and no more than one empty line in a
  row.
\<close>

theorem accepted_note_is_clean:
  assumes "normalizeServiceNote raw = Inr note"
  shows "length note \<le> 120 \<and> no_triple_break note
    \<and> (\<forall>cp \<in> set note. \<not> isControlCodePoint cp \<and> cp \<notin> set REJECTED_FORMAT_CODE_POINTS
         \<and> cp \<noteq> 9 \<and> cp \<noteq> 13)"
proof -
  let ?u = "unify_breaks raw"
  let ?j = "join_lines (map (\<lambda>line. strip_end (collapse_spaces line)) (split_lines ?u))"
  have clean: "\<forall>cp \<in> set ?u. \<not> isControlCodePoint cp \<and> cp \<notin> set REJECTED_FORMAT_CODE_POINTS"
    and nt: "note = wide_trim (collapse_breaks ?j)" and len: "length note \<le> 120"
    using assms by (auto simp: normalizeServiceNote_def Let_def countCodePoints_def
        SERVICE_NOTE_MAX_CODE_POINTS_def split: if_splits)
  have "set ?j \<subseteq> insert 10 (set ?u)"
    using set_join_lines [of "map (\<lambda>line. strip_end (collapse_spaces line)) (split_lines ?u)"]
      set_split_lines [of ?u] set_strip_end set_collapse_spaces by (auto, blast)
  then have sub: "set note \<subseteq> insert 10 (set ?u)"
    using set_wide_trim [of "collapse_breaks ?j"] set_collapse_breaks [of ?j] nt by blast
  have "\<not> isControlCodePoint 10" "10 \<notin> set REJECTED_FORMAT_CODE_POINTS"
    by (simp_all add: isControlCodePoint_def REJECTED_FORMAT_CODE_POINTS_def)
  with sub clean have c: "\<forall>cp \<in> set note. \<not> isControlCodePoint cp \<and> cp \<notin> set REJECTED_FORMAT_CODE_POINTS"
    by blast
  moreover have "isControlCodePoint 9" "isControlCodePoint 13" by (simp_all add: isControlCodePoint_def)
  moreover have "no_triple_break note"
    using collapse_breaks_no_triple [of ?j] wide_trim_infix [of "collapse_breaks ?j"] no_triple_infix
    unfolding nt by metis
  ultimately show ?thesis using len by blast
qed

end
