(* ===== verification/Reservation.thy ===== *)
theory Reservation
  imports Username
begin

text \<open>
  Reservations of service usernames (packages/service-renewal/src/username-reservation.ts). The
  read-only probe of the panel is a parameter. What other processes do between two statements of a
  function is a parameter too: a function on the database, applied where the code awaits.
\<close>

section \<open>Vocabulary\<close>

definition RESERVATION_HELD_TTL_MS :: int where "RESERVATION_HELD_TTL_MS = 30 * 60000"
definition RANDOM_USERNAME_MAX_ATTEMPTS :: nat where "RANDOM_USERNAME_MAX_ATTEMPTS = 10"

definition ACTIVE_STATUSES :: "ReservationStatus list" where
  "ACTIVE_STATUSES = [Reservation_HELD, Reservation_BOUND, Reservation_CONSUMED]"

definition REBINDABLE_STATUSES :: "ReservationStatus list" where
  "REBINDABLE_STATUSES = [Reservation_HELD, Reservation_BOUND]"

datatype reservation_error = ReservationInvariantError string

record ReservationClaimArgs =
  rc_reservationId :: string
  rc_userId :: string
  rc_draftNonce :: "string option"
  rc_normalizedUsername :: string
  rc_mode :: ServiceUsernameMode
  rc_panelId :: string

datatype UsernameOutcome = TAKEN_LOCAL | TAKEN_REMOTE | RESERVED | PANEL_UNAVAILABLE
  | UNVERIFIABLE | INVALID | AVAILABLE

datatype ReserveResult =
    Reserved string string ServiceUsernameMode
  | NotReserved UsernameOutcome

text \<open>What the adapter's \<open>getServiceAccount\<close> reports: found, positively absent, failed, thrown.\<close>

datatype Probe = Probe_found | Probe_not_found | Probe_failed | Probe_throws

type_synonym probe = "panel_row \<Rightarrow> string \<Rightarrow> Probe"

section \<open>Availability\<close>

text \<open>
  \<open>NOT: { userId, draftNonce }\<close> under SQL's three-valued logic: comparing a null nonce with a value
  is unknown, and an unknown row is not selected.
\<close>

definition not_own :: "string \<times> string option \<Rightarrow> reservation_row \<Rightarrow> bool" where
  "not_own own r =
     (if rv_userId r \<noteq> fst own then True
      else case snd own of
        None \<Rightarrow> rv_draftNonce r \<noteq> None
      | Some n \<Rightarrow> (case rv_draftNonce r of None \<Rightarrow> False | Some m \<Rightarrow> m \<noteq> n))"

definition checkServiceUsernameAvailability ::
  "probe \<Rightarrow> db \<Rightarrow> panel_row \<Rightarrow> string \<Rightarrow> (string \<times> string option) option \<Rightarrow> UsernameOutcome" where
  "checkServiceUsernameAvailability probe s panel normalizedUsername ignoreReservation =
     (if validateServiceUsername normalizedUsername \<noteq> Inr normalizedUsername then INVALID
      else if pn_status panel \<noteq> PanelStatus_ACTIVE then PANEL_UNAVAILABLE
      else if \<exists>sv \<in> set (services s). sv_username sv = normalizedUsername then TAKEN_LOCAL
      else if \<exists>r \<in> set (reservations s). rv_normalizedUsername r = normalizedUsername
          \<and> rv_status r \<in> set ACTIVE_STATUSES
          \<and> (case ignoreReservation of None \<Rightarrow> True | Some own \<Rightarrow> not_own own r) then RESERVED
      else case probe panel normalizedUsername of
        Probe_found \<Rightarrow> TAKEN_REMOTE
      | Probe_not_found \<Rightarrow> AVAILABLE
      | Probe_failed \<Rightarrow> UNVERIFIABLE
      | Probe_throws \<Rightarrow> UNVERIFIABLE)"

definition hasForeignActiveReservationForUsername :: "db \<Rightarrow> string \<Rightarrow> string \<Rightarrow> bool" where
  "hasForeignActiveReservationForUsername s normalizedUsername exceptOrderId \<longleftrightarrow>
     (\<exists>r \<in> set (reservations s). rv_normalizedUsername r = normalizedUsername
        \<and> rv_status r \<in> set ACTIVE_STATUSES
        \<and> (rv_orderId r = None \<or> rv_orderId r \<noteq> Some exceptOrderId))"

section \<open>Reserving\<close>

record ReserveArgs =
  ra_userId :: string
  ra_panelId :: string
  ra_mode :: ServiceUsernameMode
  ra_normalizedUsername :: string
  ra_draftNonce :: "string option"

definition update_reservations ::
  "(reservation_row \<Rightarrow> bool) \<Rightarrow> (reservation_row \<Rightarrow> reservation_row) \<Rightarrow> db \<Rightarrow> nat \<times> db" where
  "update_reservations P f s =
     (count_where P (reservations s), s\<lparr>reservations := update_where P f (reservations s)\<rparr>)"

definition released :: "int \<Rightarrow> reservation_row \<Rightarrow> reservation_row" where
  "released now r =
     r\<lparr>rv_status := Reservation_RELEASED, rv_activeUsernameKey := None, rv_releasedAt := Some now\<rparr>"

definition draft_hold :: "string \<Rightarrow> string option \<Rightarrow> string \<Rightarrow> reservation_row \<Rightarrow> bool" where
  "draft_hold userId draftNonce panelId r \<longleftrightarrow>
     rv_userId r = userId \<and> rv_draftNonce r = draftNonce \<and> rv_panelId r = panelId
     \<and> rv_status r \<in> set REBINDABLE_STATUSES"

definition refresh_hold :: "int \<Rightarrow> string \<Rightarrow> db \<Rightarrow> db" where
  "refresh_hold now i s =
     snd (update_reservations (\<lambda>r. rv_id r = i \<and> rv_status r = Reservation_HELD)
       (\<lambda>r. r\<lparr>rv_expiresAt := Some (now + RESERVATION_HELD_TTL_MS)\<rparr>) s)"

definition hold_row :: "int \<Rightarrow> ReserveArgs \<Rightarrow> string \<Rightarrow> reservation_row" where
  "hold_row now args i =
     \<lparr>rv_id = i, rv_panelId = ra_panelId args, rv_userId = ra_userId args,
      rv_normalizedUsername = ra_normalizedUsername args,
      rv_activeUsernameKey = Some (ra_normalizedUsername args), rv_mode = ra_mode args,
      rv_status = Reservation_HELD, rv_draftNonce = ra_draftNonce args,
      rv_checkoutSessionId = None, rv_orderId = None, rv_serviceId = None,
      rv_expiresAt = Some (now + RESERVATION_HELD_TTL_MS), rv_boundAt = None,
      rv_consumedAt = None, rv_releasedAt = None\<rparr>"

definition release_ids :: "int \<Rightarrow> string list \<Rightarrow> db \<Rightarrow> db" where
  "release_ids now ids s =
     (if ids = [] then s
      else snd (update_reservations
        (\<lambda>r. rv_id r \<in> set ids \<and> rv_status r \<in> set REBINDABLE_STATUSES) (released now) s))"

text \<open>
  The transaction. Its advisory lock per draft is its atomicity here.
\<close>

definition reserve_transaction :: "int \<Rightarrow> ReserveArgs \<Rightarrow> (reservation_error, string) tx" where
  "reserve_transaction now args =
     tx_bind (tx_read (\<lambda>s. filter
         (draft_hold (ra_userId args) (ra_draftNonce args) (ra_panelId args)) (reservations s)))
     (\<lambda>currentActive.
       case find (\<lambda>r. rv_normalizedUsername r = ra_normalizedUsername args
           \<and> rv_status r = Reservation_HELD) currentActive of
         Some existingSame \<Rightarrow>
           tx_then (tx_write (refresh_hold now (rv_id existingSame)))
             (tx_return (rv_id existingSame))
       | None \<Rightarrow>
           tx_bind (tx_do draw_id) (\<lambda>i.
           tx_bind (create_reservation (hold_row now args i)) (\<lambda>row.
           tx_then (tx_write (release_ids now (map rv_id currentActive)))
             (tx_return (rv_id row)))))"

definition reserveServiceUsername ::
  "(db \<Rightarrow> db) \<Rightarrow> (db \<Rightarrow> db) \<Rightarrow> probe \<Rightarrow> int \<Rightarrow> ReserveArgs \<Rightarrow> db \<Rightarrow> ReserveResult \<times> db" where
  "reserveServiceUsername others1 others2 probe now args s =
     (if validateServiceUsername (ra_normalizedUsername args) \<noteq> Inr (ra_normalizedUsername args)
      then (NotReserved INVALID, s)
      else case find (\<lambda>p. pn_id p = ra_panelId args) (panels s) of
        None \<Rightarrow> (NotReserved PANEL_UNAVAILABLE, s)
      | Some panel \<Rightarrow>
          if pn_status panel \<noteq> PanelStatus_ACTIVE then (NotReserved PANEL_UNAVAILABLE, s)
          else
            let priorActive = filter
                  (draft_hold (ra_userId args) (ra_draftNonce args) (ra_panelId args)) (reservations s);
                s1 = others1 s
            in (case find (\<lambda>r. rv_normalizedUsername r = ra_normalizedUsername args) priorActive of
                  Some hold \<Rightarrow>
                    if rv_status hold \<noteq> Reservation_HELD then (NotReserved RESERVED, s1)
                    else (Reserved (rv_id hold) (ra_normalizedUsername args) (ra_mode args),
                          refresh_hold now (rv_id hold) s1)
                | None \<Rightarrow>
                    let availability = checkServiceUsernameAvailability probe s1 panel
                          (ra_normalizedUsername args) (Some (ra_userId args, ra_draftNonce args));
                        s2 = others2 s1
                    in if availability \<noteq> AVAILABLE then (NotReserved availability, s2)
                       else (case run_transaction (reserve_transaction now args) s2 of
                           (Inr i, s3) \<Rightarrow>
                             (Reserved i (ra_normalizedUsername args) (ra_mode args), s3)
                         | (Inl UniqueViolation, s3) \<Rightarrow> (NotReserved RESERVED, s3)
                         | (Inl _, s3) \<Rightarrow> (NotReserved UNVERIFIABLE, s3))))"

text \<open>
  The bounded search for a random name: \<open>attempts\<close> counts down from the maximum; \<open>None\<close> when the
  source of random buffers is exhausted.
\<close>

fun random_attempts ::
  "(nat \<Rightarrow> (db \<Rightarrow> db) \<times> (db \<Rightarrow> db)) \<Rightarrow> probe \<Rightarrow> int \<Rightarrow> ReserveArgs \<Rightarrow> nat \<Rightarrow> UsernameOutcome \<Rightarrow>
   nat list list \<Rightarrow> db \<Rightarrow> (ReserveResult \<times> db) option" where
  "random_attempts others probe now args 0 lastBlocking bufs s = Some (NotReserved lastBlocking, s)"
| "random_attempts others probe now args (Suc n) lastBlocking bufs s =
     (case generateRandomServiceUsername bufs of
        None \<Rightarrow> None
      | Some (candidate, left) \<Rightarrow>
          (case reserveServiceUsername (fst (others n)) (snd (others n)) probe now
              (args\<lparr>ra_mode := UsernameMode_RANDOM, ra_normalizedUsername := candidate\<rparr>) s of
             (Reserved i u m, s') \<Rightarrow> Some (Reserved i u m, s')
           | (NotReserved outcome, s') \<Rightarrow>
               if outcome = PANEL_UNAVAILABLE \<or> outcome = INVALID then Some (NotReserved outcome, s')
               else random_attempts others probe now args n outcome left s'))"

definition reserveRandomServiceUsername ::
  "(nat \<Rightarrow> (db \<Rightarrow> db) \<times> (db \<Rightarrow> db)) \<Rightarrow> probe \<Rightarrow> int \<Rightarrow> string \<Rightarrow> string \<Rightarrow> string option \<Rightarrow>
   nat list list \<Rightarrow> db \<Rightarrow> (ReserveResult \<times> db) option" where
  "reserveRandomServiceUsername others probe now userId panelId draftNonce bufs s =
     random_attempts others probe now
       \<lparr>ra_userId = userId, ra_panelId = panelId, ra_mode = UsernameMode_RANDOM,
        ra_normalizedUsername = '''', ra_draftNonce = draftNonce\<rparr>
       RANDOM_USERNAME_MAX_ATTEMPTS UNVERIFIABLE bufs s"

section \<open>Lifecycle\<close>

definition claimable :: "ReservationClaimArgs \<Rightarrow> int \<Rightarrow> reservation_row \<Rightarrow> bool" where
  "claimable args now r \<longleftrightarrow>
     rv_id r = rc_reservationId args \<and> rv_userId r = rc_userId args
     \<and> rv_draftNonce r = rc_draftNonce args
     \<and> rv_normalizedUsername r = rc_normalizedUsername args
     \<and> rv_activeUsernameKey r = Some (rc_normalizedUsername args)
     \<and> rv_mode r = rc_mode args \<and> rv_panelId r = rc_panelId args
     \<and> rv_status r = Reservation_HELD
     \<and> (case rv_expiresAt r of None \<Rightarrow> False | Some t \<Rightarrow> now < t)
     \<and> rv_checkoutSessionId r = None \<and> rv_orderId r = None \<and> rv_serviceId r = None"

definition bound_to_checkout :: "string \<Rightarrow> int \<Rightarrow> reservation_row \<Rightarrow> reservation_row" where
  "bound_to_checkout checkoutSessionId now r =
     r\<lparr>rv_status := Reservation_BOUND, rv_checkoutSessionId := Some checkoutSessionId,
       rv_boundAt := Some now, rv_expiresAt := None\<rparr>"

definition claimReservationForCheckout ::
  "ReservationClaimArgs \<Rightarrow> string \<Rightarrow> int \<Rightarrow> ('e, bool) tx" where
  "claimReservationForCheckout args checkoutSessionId now =
     tx_bind (tx_do (update_reservations (claimable args now) (bound_to_checkout checkoutSessionId now)))
       (\<lambda>count. tx_return (count = 1))"

definition isReservationClaimable :: "ReservationClaimArgs \<Rightarrow> int \<Rightarrow> db \<Rightarrow> bool" where
  "isReservationClaimable args now s \<longleftrightarrow> (\<exists>r \<in> set (reservations s). claimable args now r)"

record ReservationOrderBindArgs =
  rb_reservationId :: string
  rb_userId :: string
  rb_checkoutSessionId :: string
  rb_panelId :: string
  rb_normalizedUsername :: string
  rb_orderId :: string

definition bind_identity :: "ReservationOrderBindArgs \<Rightarrow> reservation_row \<Rightarrow> bool" where
  "bind_identity args r \<longleftrightarrow>
     rv_id r = rb_reservationId args \<and> rv_userId r = rb_userId args
     \<and> rv_checkoutSessionId r = Some (rb_checkoutSessionId args)
     \<and> rv_panelId r = rb_panelId args \<and> rv_normalizedUsername r = rb_normalizedUsername args"

definition attachable :: "ReservationOrderBindArgs \<Rightarrow> reservation_row \<Rightarrow> bool" where
  "attachable args r \<longleftrightarrow>
     bind_identity args r \<and> rv_status r = Reservation_BOUND \<and> rv_serviceId r = None
     \<and> (rv_orderId r = None \<or> rv_orderId r = Some (rb_orderId args))"

definition attachReservationToOrder ::
  "ReservationOrderBindArgs \<Rightarrow> int \<Rightarrow> (reservation_error, unit) tx" where
  "attachReservationToOrder args now =
     tx_bind (tx_do (update_reservations (attachable args)
       (\<lambda>r. r\<lparr>rv_status := Reservation_BOUND, rv_orderId := Some (rb_orderId args),
              rv_boundAt := Some now, rv_expiresAt := None\<rparr>)))
     (\<lambda>count.
       if count = 1 then tx_return ()
       else tx_bind (tx_read (\<lambda>s. \<exists>r \<in> set (reservations s). bind_identity args r
           \<and> rv_orderId r = Some (rb_orderId args)
           \<and> rv_status r \<in> {Reservation_BOUND, Reservation_CONSUMED}))
         (\<lambda>already. if already then tx_return ()
            else tx_fail (Thrown (ReservationInvariantError ''ORDER_BIND_NO_MATCH''))))"

datatype SettledReservationBindResult = Bound_ok | Bound_failed string

definition bindSettledReservationFromSnapshot ::
  "json_obj \<Rightarrow> string \<Rightarrow> string \<Rightarrow> string \<Rightarrow> int \<Rightarrow> (reservation_error, SettledReservationBindResult) tx" where
  "bindSettledReservationFromSnapshot snapshot userId checkoutSessionId orderId now =
     (case (nonempty_string (map_of snapshot ''serviceUsernameReservationId''),
            nonempty_string (map_of snapshot ''serviceUsername''),
            nonempty_string (map_of snapshot ''panelId'')) of
        (Some reservationId, Some normalizedUsername, Some panelId) \<Rightarrow>
          (\<lambda>s. case attachReservationToOrder
               \<lparr>rb_reservationId = reservationId, rb_userId = userId,
                rb_checkoutSessionId = checkoutSessionId, rb_panelId = panelId,
                rb_normalizedUsername = normalizedUsername, rb_orderId = orderId\<rparr> now s of
             Inr (_, s') \<Rightarrow> Inr (Bound_ok, s')
           | Inl (Thrown (ReservationInvariantError reason)) \<Rightarrow> Inr (Bound_failed reason, s)
           | Inl e \<Rightarrow> Inl e)
      | _ \<Rightarrow> tx_return Bound_ok)"

definition consumeReservationForOrder :: "string \<Rightarrow> string \<Rightarrow> string \<Rightarrow> int \<Rightarrow> db \<Rightarrow> db" where
  "consumeReservationForOrder orderId serviceId normalizedUsername now s =
     snd (update_reservations
       (\<lambda>r. rv_orderId r = Some orderId \<and> rv_normalizedUsername r = normalizedUsername
          \<and> rv_status r \<in> set (REBINDABLE_STATUSES @ [Reservation_CONSUMED]))
       (\<lambda>r. r\<lparr>rv_status := Reservation_CONSUMED, rv_serviceId := Some serviceId,
              rv_consumedAt := Some now\<rparr>) s)"

definition releaseHeldReservationForDraft ::
  "string \<Rightarrow> string option \<Rightarrow> string \<Rightarrow> int \<Rightarrow> db \<Rightarrow> db" where
  "releaseHeldReservationForDraft userId draftNonce reservationId now s =
     snd (update_reservations
       (\<lambda>r. rv_id r = reservationId \<and> rv_userId r = userId \<and> rv_draftNonce r = draftNonce
          \<and> rv_status r = Reservation_HELD) (released now) s)"

definition releaseReservation :: "string \<Rightarrow> int \<Rightarrow> db \<Rightarrow> db" where
  "releaseReservation reservationId now s =
     snd (update_reservations
       (\<lambda>r. rv_id r = reservationId \<and> rv_status r \<in> set REBINDABLE_STATUSES) (released now) s)"

definition releaseReservationForFailedOrder :: "string \<Rightarrow> string option \<Rightarrow> int \<Rightarrow> db \<Rightarrow> db" where
  "releaseReservationForFailedOrder orderId checkoutSessionId now s =
     snd (update_reservations
       (\<lambda>r. rv_status r \<in> set REBINDABLE_STATUSES
          \<and> (rv_orderId r = Some orderId
             \<or> checkoutSessionId \<noteq> None \<and> rv_checkoutSessionId r = checkoutSessionId))
       (released now) s)"

definition releaseHeldReservationsForDraft :: "string \<Rightarrow> string \<Rightarrow> int \<Rightarrow> db \<Rightarrow> db" where
  "releaseHeldReservationsForDraft userId draftNonce now s =
     snd (update_reservations
       (\<lambda>r. rv_userId r = userId \<and> rv_draftNonce r = Some draftNonce
          \<and> rv_status r = Reservation_HELD) (released now) s)"

text \<open>The newest active hold of a draft; the table is in creation order.\<close>

definition getActiveReservationForDraft :: "db \<Rightarrow> string \<Rightarrow> string \<Rightarrow> string \<Rightarrow> reservation_row option" where
  "getActiveReservationForDraft s userId draftNonce panelId =
     find (draft_hold userId (Some draftNonce) panelId) (rev (reservations s))"

section \<open>The invariant of the table\<close>

definition active :: "reservation_row \<Rightarrow> bool" where
  "active r \<longleftrightarrow> rv_status r \<in> set ACTIVE_STATUSES"

definition rebindable :: "reservation_row \<Rightarrow> bool" where
  "rebindable r \<longleftrightarrow> rv_status r \<in> set REBINDABLE_STATUSES"

definition draft_of :: "reservation_row \<Rightarrow> string \<times> string option \<times> string" where
  "draft_of r = (rv_userId r, rv_draftNonce r, rv_panelId r)"

text \<open>
  A row's slot and links follow its status: an active row owns the slot of its username and no other
  row owns one; a held row is linked to nothing, a bound one to its checkout, a consumed one to its
  order and service.
\<close>

definition row_ok :: "reservation_row \<Rightarrow> bool" where
  "row_ok r \<longleftrightarrow>
     rv_activeUsernameKey r = (if active r then Some (rv_normalizedUsername r) else None)
     \<and> (rv_status r = Reservation_HELD \<longrightarrow>
          rv_checkoutSessionId r = None \<and> rv_orderId r = None \<and> rv_serviceId r = None)
     \<and> (rv_status r = Reservation_BOUND \<longrightarrow> rv_checkoutSessionId r \<noteq> None \<and> rv_serviceId r = None)
     \<and> (rv_status r = Reservation_CONSUMED \<longrightarrow> rv_orderId r \<noteq> None \<and> rv_serviceId r \<noteq> None)"

definition rows_ok :: "reservation_row list \<Rightarrow> bool" where
  "rows_ok t \<longleftrightarrow>
     (\<forall>r \<in> set t. row_ok r) \<and> unique_by rv_id t
     \<and> unique_by rv_normalizedUsername (filter active t)
     \<and> unique_by draft_of (filter rebindable t)"

definition rv_ok :: "db \<Rightarrow> bool" where
  "rv_ok s \<longleftrightarrow> inj (uuids s) \<and> fresh_for rv_id (reservations s) s \<and> rows_ok (reservations s)"

lemma rebindable_active: "rebindable r \<Longrightarrow> active r"
  by (auto simp: rebindable_def active_def REBINDABLE_STATUSES_def ACTIVE_STATUSES_def)

lemma held_rebindable: "rv_status r = Reservation_HELD \<Longrightarrow> rebindable r"
  by (simp add: rebindable_def REBINDABLE_STATUSES_def)

lemma unique_by_filter_map:
  assumes "unique_by k (filter P t)" and "\<And>r. r \<in> set t \<Longrightarrow> P (g r) \<Longrightarrow> P r \<and> k (g r) = k r"
  shows "unique_by k (filter P (map g t))"
  using assms
proof (induction t)
  case Nil
  then show ?case by (simp add: unique_by_def)
next
  case (Cons r t)
  have "unique_by k (filter P t)" using Cons.prems(1) by (auto simp: unique_by_def split: if_splits)
  then have IH: "unique_by k (filter P (map g t))" using Cons by auto
  show ?case
  proof (cases "P (g r)")
    case True
    then have r: "P r" "k (g r) = k r" using Cons.prems(2) by auto
    have "k r \<notin> k ` {x \<in> set t. P x}" using Cons.prems(1) r(1) by (auto simp: unique_by_def)
    moreover have "k ` (set (filter P (map g t))) \<subseteq> k ` {x \<in> set t. P x}"
      using Cons.prems(2) by (auto simp: image_iff)
    ultimately show ?thesis using IH True r(2) by (auto simp: unique_by_def)
  next
    case False
    with IH show ?thesis by simp
  qed
qed

text \<open>Every lifecycle change is a change of rows of this kind.\<close>

definition tame :: "(reservation_row \<Rightarrow> bool) \<Rightarrow> (reservation_row \<Rightarrow> reservation_row) \<Rightarrow> bool" where
  "tame P f \<longleftrightarrow>
     (\<forall>r. row_ok r \<and> P r \<longrightarrow>
        row_ok (f r) \<and> rv_id (f r) = rv_id r
        \<and> rv_normalizedUsername (f r) = rv_normalizedUsername r \<and> draft_of (f r) = draft_of r
        \<and> (active (f r) \<longrightarrow> active r) \<and> (rebindable (f r) \<longrightarrow> rebindable r))"

lemma rows_ok_update:
  assumes "rows_ok t" and "tame P f"
  shows "rows_ok (update_where P f t)" and "rv_id ` set (update_where P f t) = rv_id ` set t"
proof -
  let ?g = "\<lambda>r. if P r then f r else r"
  have t: "\<And>r. r \<in> set t \<Longrightarrow> row_ok r" using assms(1) by (simp add: rows_ok_def)
  have g: "row_ok (?g r) \<and> rv_id (?g r) = rv_id r
      \<and> rv_normalizedUsername (?g r) = rv_normalizedUsername r \<and> draft_of (?g r) = draft_of r
      \<and> (active (?g r) \<longrightarrow> active r) \<and> (rebindable (?g r) \<longrightarrow> rebindable r)" if "r \<in> set t" for r
    using assms(2) t [OF that] unfolding tame_def by simp
  have ids: "map rv_id (update_where P f t) = map rv_id t"
    using g by (simp add: update_where_def)
  have rows: "\<forall>r \<in> set (update_where P f t). row_ok r"
  proof
    fix x
    assume "x \<in> set (update_where P f t)"
    then obtain r where "r \<in> set t" "x = ?g r" unfolding set_update_where by blast
    then show "row_ok x" using g by blast
  qed
  have names: "unique_by rv_normalizedUsername (filter active (update_where P f t))"
    unfolding update_where_def
  proof (rule unique_by_filter_map)
    show "unique_by rv_normalizedUsername (filter active t)" using assms(1) by (simp add: rows_ok_def)
  next
    fix r
    assume "r \<in> set t" and "active (?g r)"
    then show "active r \<and> rv_normalizedUsername (?g r) = rv_normalizedUsername r" using g by blast
  qed
  have drafts: "unique_by draft_of (filter rebindable (update_where P f t))"
    unfolding update_where_def
  proof (rule unique_by_filter_map)
    show "unique_by draft_of (filter rebindable t)" using assms(1) by (simp add: rows_ok_def)
  next
    fix r
    assume "r \<in> set t" and "rebindable (?g r)"
    then show "rebindable r \<and> draft_of (?g r) = draft_of r" using g by blast
  qed
  show "rows_ok (update_where P f t)"
    using assms(1) ids rows names drafts by (simp add: rows_ok_def unique_by_def)
  show "rv_id ` set (update_where P f t) = rv_id ` set t"
    using arg_cong [OF ids, of set] by simp
qed

lemma rv_ok_update:
  assumes "rv_ok s" and "tame P f"
  shows "rv_ok (snd (update_reservations P f s))"
proof -
  have ok: "rows_ok (reservations s)" using assms(1) by (simp add: rv_ok_def)
  have "fresh_for rv_id (update_where P f (reservations s)) (snd (update_reservations P f s))"
    using assms(1) rows_ok_update(2) [OF ok assms(2)]
    by (auto simp: rv_ok_def update_reservations_def fresh_for_def)
  then show ?thesis
    using assms(1) rows_ok_update(1) [OF ok assms(2)] by (simp add: rv_ok_def update_reservations_def)
qed

lemmas status_defs = active_def rebindable_def ACTIVE_STATUSES_def REBINDABLE_STATUSES_def

lemma tame_release:
  assumes "\<And>r. P r \<Longrightarrow> rebindable r"
  shows "tame P (released now)"
  using assms by (auto simp: tame_def released_def row_ok_def draft_of_def status_defs)

lemma tame_refresh:
  "tame (\<lambda>r. rv_id r = i \<and> rv_status r = Reservation_HELD) (\<lambda>r. r\<lparr>rv_expiresAt := e\<rparr>)"
  by (auto simp: tame_def row_ok_def draft_of_def status_defs)

lemma tame_claim: "tame (claimable args now) (bound_to_checkout cs now)"
  by (auto simp: tame_def claimable_def bound_to_checkout_def row_ok_def draft_of_def status_defs)

lemma tame_attach:
  "tame (attachable args) (\<lambda>r. r\<lparr>rv_status := Reservation_BOUND, rv_orderId := Some (rb_orderId args),
     rv_boundAt := Some now, rv_expiresAt := None\<rparr>)"
  by (auto simp: tame_def attachable_def row_ok_def draft_of_def status_defs)

lemma tame_consume:
  "tame (\<lambda>r. rv_orderId r = Some orderId \<and> rv_normalizedUsername r = u
     \<and> rv_status r \<in> set (REBINDABLE_STATUSES @ [Reservation_CONSUMED]))
   (\<lambda>r. r\<lparr>rv_status := Reservation_CONSUMED, rv_serviceId := Some sid, rv_consumedAt := Some now\<rparr>)"
  by (auto simp: tame_def row_ok_def draft_of_def status_defs)

lemma rv_ok_release_ids: "rv_ok s \<Longrightarrow> rv_ok (release_ids now ids s)"
  unfolding release_ids_def by (auto intro!: rv_ok_update tame_release simp: rebindable_def)

lemma rv_ok_refresh: "rv_ok s \<Longrightarrow> rv_ok (refresh_hold now i s)"
  unfolding refresh_hold_def by (rule rv_ok_update [OF _ tame_refresh])

lemma draft_hold_iff: "draft_hold u n p r \<longleftrightarrow> draft_of r = (u, n, p) \<and> rebindable r"
  by (auto simp: draft_hold_def draft_of_def rebindable_def)

lemma hold_row_simps [simp]:
  "rv_id (hold_row now a i) = i" "draft_of (hold_row now a i) = (ra_userId a, ra_draftNonce a, ra_panelId a)"
  "rv_normalizedUsername (hold_row now a i) = ra_normalizedUsername a"
  "rv_status (hold_row now a i) = Reservation_HELD" "row_ok (hold_row now a i)"
  "rv_activeUsernameKey (hold_row now a i) = Some (ra_normalizedUsername a)"
  by (simp_all add: hold_row_def draft_of_def row_ok_def status_defs)

text \<open>The new hold and the release of the old ones, together.\<close>

lemma replaced_ok:
  assumes "rv_ok s" and "\<not> clash rv_activeUsernameKey (reservations s) (Some (ra_normalizedUsername a))"
  shows "rv_ok (release_ids now
      (map rv_id (filter (draft_hold (ra_userId a) (ra_draftNonce a) (ra_panelId a)) (reservations s)))
      (s\<lparr>drawn := Suc (drawn s), reservations := reservations s @ [hold_row now a (uuids s (drawn s))]\<rparr>))"
    (is "rv_ok (release_ids now ?ids ?s1)")
proof -
  let ?d = "(ra_userId a, ra_draftNonce a, ra_panelId a)"
  let ?h = "hold_row now a (uuids s (drawn s))"
  let ?P = "\<lambda>r. rv_id r \<in> set ?ids \<and> rv_status r \<in> set REBINDABLE_STATUSES"
  have ok: "rows_ok (reservations s)" and fresh: "fresh_for rv_id (reservations s) s" and inj: "inj (uuids s)"
    using assms(1) by (simp_all add: rv_ok_def)
  have rel: "tame ?P (released now)" by (rule tame_release) (simp add: rebindable_def)
  have new: "uuids s (drawn s) \<notin> rv_id ` set (reservations s)"
    using fresh by (auto simp: fresh_for_def)
  have ids: "uuids s (drawn s) \<notin> set ?ids" using new by auto
  have f: "fresh_for rv_id (reservations s @ [?h]) ?s1 \<and> unique_by rv_id (reservations s @ [?h])"
    using fresh_append [OF inj fresh, of ?s1 ?h] ok by (simp add: rows_ok_def)
  have eq: "reservations (release_ids now ?ids ?s1) = update_where ?P (released now) (reservations s) @ [?h]"
  proof (cases "?ids = []")
    case True
    then have "\<forall>r \<in> set (reservations s). \<not> ?P r" by simp
    with True show ?thesis by (simp add: release_ids_def update_where_none)
  next
    case False
    then show ?thesis using ids
      by (simp add: release_ids_def update_reservations_def update_where_append)
        (simp add: update_where_def)
  qed
  let ?t = "update_where ?P (released now) (reservations s)"
  have tok: "rows_ok ?t" and tid: "rv_id ` set ?t = rv_id ` set (reservations s)"
    using rows_ok_update [OF ok rel] by blast+
  have gone: "\<forall>r \<in> set ?t. rebindable r \<longrightarrow> draft_of r \<noteq> ?d"
  proof (intro ballI impI notI)
    fix r
    assume "r \<in> set ?t" and reb: "rebindable r" and d: "draft_of r = ?d"
    then obtain x where x: "x \<in> set (reservations s)" "r = (if ?P x then released now x else x)"
      by (auto simp: set_update_where)
    have "\<not> rebindable (released now x)"
      by (simp add: released_def rebindable_def REBINDABLE_STATUSES_def)
    then have "\<not> ?P x" and rx: "r = x" using x(2) reb by (auto split: if_splits)
    moreover have "rv_id x \<in> set ?ids" using x(1) reb d rx by (simp add: draft_hold_iff)
    ultimately show False using reb by (simp add: rebindable_def)
  qed
  have name: "\<forall>r \<in> set ?t. active r \<longrightarrow> rv_normalizedUsername r \<noteq> ra_normalizedUsername a"
  proof (intro ballI impI notI)
    fix r
    assume "r \<in> set ?t" and act: "active r" and n: "rv_normalizedUsername r = ra_normalizedUsername a"
    then obtain x where x: "x \<in> set (reservations s)" "r = (if ?P x then released now x else x)"
      by (auto simp: set_update_where)
    then have "r = x" using act by (auto simp: released_def active_def ACTIVE_STATUSES_def split: if_splits)
    moreover have "row_ok x" using ok x(1) by (simp add: rows_ok_def)
    ultimately show False using assms(2) x(1) act n by (auto simp: clash_def row_ok_def)
  qed
  have "rows_ok (?t @ [?h])"
    using tok gone name new tid
    by (auto simp: rows_ok_def unique_by_def held_rebindable rebindable_active)
  moreover have "fresh_for rv_id (?t @ [?h]) (release_ids now ?ids ?s1)"
    using f tid by (auto simp: fresh_for_def release_ids_def update_reservations_def)
  ultimately show ?thesis
    using inj by (simp add: rv_ok_def eq) (simp add: release_ids_def update_reservations_def)
qed

lemma reserve_transaction_ok:
  assumes "rv_ok s"
  shows "post (reserve_transaction now a) s (\<lambda>_. rv_ok)"
  unfolding reserve_transaction_def
  using replaced_ok [OF assms] rv_ok_refresh [OF assms]
  by (auto simp: tx_rules split: option.splits)

lemma reserve_shape:
  "snd (reserveServiceUsername e1 e2 probe now a s) \<in>
     {s, e1 s, e2 (e1 s), snd (run_transaction (reserve_transaction now a) (e2 (e1 s)))}
     \<union> range (\<lambda>i. refresh_hold now i (e1 s))"
proof -
  have tx: "snd (case run_transaction (reserve_transaction now a) t of
        (Inr i, s3) \<Rightarrow> (Reserved i x m, s3)
      | (Inl UniqueViolation, s3) \<Rightarrow> (NotReserved RESERVED, s3)
      | (Inl _, s3) \<Rightarrow> (NotReserved UNVERIFIABLE, s3))
    = snd (run_transaction (reserve_transaction now a) t)" for t x m
    by (simp split: prod.split sum.split thrown.split)
  show ?thesis
    unfolding reserveServiceUsername_def Let_def
    by (simp only: tx if_distrib [of snd] snd_conv split: if_split option.split) simp
qed

lemma update_ok: "rv_ok s \<Longrightarrow> tame P f \<Longrightarrow> post (tx_do (update_reservations P f)) s (\<lambda>_. rv_ok)"
  by (simp add: post_do rv_ok_update)

lemma claim_ok: "rv_ok s \<Longrightarrow> post (claimReservationForCheckout args cs now) s (\<lambda>_. rv_ok)"
  unfolding claimReservationForCheckout_def post_bind post_return
  by (rule update_ok [OF _ tame_claim])

lemma attach_ok: "rv_ok s \<Longrightarrow> post (attachReservationToOrder args now) s (\<lambda>_. rv_ok)"
  unfolding attachReservationToOrder_def post_bind
  by (rule post_mono [OF update_ok [OF _ tame_attach]]) (auto simp: tx_rules)

lemma bind_settled_ok:
  assumes "rv_ok s"
  shows "post (bindSettledReservationFromSnapshot snap u cs ord now) s (\<lambda>_. rv_ok)"
proof -
  have "post (\<lambda>s. case attachReservationToOrder ba now s of
             Inr (_, s') \<Rightarrow> Inr (Bound_ok, s')
           | Inl (Thrown (ReservationInvariantError reason)) \<Rightarrow> Inr (Bound_failed reason, s)
           | Inl e \<Rightarrow> Inl e) s (\<lambda>_. rv_ok)" for ba
    using attach_ok [OF assms, of ba now] assms
    by (auto simp: post_def split: sum.splits prod.splits thrown.splits reservation_error.splits)
  with assms show ?thesis
    by (auto simp: bindSettledReservationFromSnapshot_def post_return split: option.split)
qed

lemma release_ok:
  assumes "rv_ok s" and "\<And>r. P r \<Longrightarrow> rv_status r = Reservation_HELD \<or> rv_status r \<in> set REBINDABLE_STATUSES"
  shows "rv_ok (snd (update_reservations P (released now) s))"
proof (rule rv_ok_update [OF assms(1) tame_release])
  fix r
  assume "P r"
  then show "rebindable r"
    using assms(2) [of r] by (auto simp: rebindable_def REBINDABLE_STATUSES_def)
qed

lemma lifecycle_ok:
  assumes "rv_ok s"
  shows "rv_ok (consumeReservationForOrder ord sid name now s)"
    and "rv_ok (releaseHeldReservationForDraft u n i now s)"
    and "rv_ok (releaseReservation i now s)"
    and "rv_ok (releaseReservationForFailedOrder ord co now s)"
    and "rv_ok (releaseHeldReservationsForDraft u nonce now s)"
proof -
  show "rv_ok (consumeReservationForOrder ord sid name now s)"
    unfolding consumeReservationForOrder_def by (rule rv_ok_update [OF assms tame_consume])
qed (unfold releaseHeldReservationForDraft_def releaseReservation_def
    releaseReservationForFailedOrder_def releaseHeldReservationsForDraft_def,
    (rule release_ok [OF assms], blast)+)

text \<open>The lifecycle operations as one step relation on the table.\<close>

inductive reservation_step :: "db \<Rightarrow> db \<Rightarrow> bool" where
  hold: "run_transaction (reserve_transaction now a) s = (res, s') \<Longrightarrow> reservation_step s s'"
| refresh: "reservation_step s (refresh_hold now i s)"
| claim: "claimReservationForCheckout args cs now s = (Inr (b, s') :: unit thrown + _) \<Longrightarrow> reservation_step s s'"
| attach: "attachReservationToOrder bargs now s = Inr (x, s') \<Longrightarrow> reservation_step s s'"
| bind: "bindSettledReservationFromSnapshot snap u cs ord now s = Inr (y, s') \<Longrightarrow> reservation_step s s'"
| consume: "reservation_step s (consumeReservationForOrder ord sid name now s)"
| release_held: "reservation_step s (releaseHeldReservationForDraft u n i now s)"
| release: "reservation_step s (releaseReservation i now s)"
| release_failed: "reservation_step s (releaseReservationForFailedOrder ord co now s)"
| release_draft: "reservation_step s (releaseHeldReservationsForDraft u nonce now s)"

lemma reservation_step_ok: "reservation_step s s' \<Longrightarrow> rv_ok s \<Longrightarrow> rv_ok s'"
proof (induction rule: reservation_step.induct)
  case (hold now a s res s')
  then show ?case
    using run_transaction_invariant [OF reserve_transaction_ok, of s now a] by simp
next
  case (claim args cs now s b s')
  then show ?case using claim_ok [of s args cs now] by (auto dest: post_Inr)
next
  case (attach bargs now s x s')
  then show ?case using attach_ok [of s bargs now] by (auto dest: post_Inr)
next
  case (bind snap u cs ord now s y s')
  then show ?case using bind_settled_ok [of s snap u cs ord now] by (auto dest: post_Inr)
qed (simp_all add: lifecycle_ok rv_ok_refresh)

text \<open>
  The whole function, with other steps of the table wherever it awaits, is a run of these steps.
\<close>

lemma reserve_steps:
  assumes "\<And>t. reservation_step\<^sup>*\<^sup>* t (e1 t)" and "\<And>t. reservation_step\<^sup>*\<^sup>* t (e2 t)"
  shows "reservation_step\<^sup>*\<^sup>* s (snd (reserveServiceUsername e1 e2 probe now a s))"
proof -
  have e: "reservation_step\<^sup>*\<^sup>* s (e2 (e1 s))" using assms by (metis rtranclp_trans)
  have "reservation_step t (snd (run_transaction (reserve_transaction now a) t))" for t
    by (rule hold [of now a t "fst (run_transaction (reserve_transaction now a) t)"]) simp
  with e have "reservation_step\<^sup>*\<^sup>* s (snd (run_transaction (reserve_transaction now a) (e2 (e1 s))))"
    by (rule rtranclp.rtrancl_into_rtrancl)
  moreover have "reservation_step\<^sup>*\<^sup>* s (refresh_hold now i (e1 s))" for i
    using assms(1) refresh by (rule rtranclp.rtrancl_into_rtrancl)
  ultimately show ?thesis
    using assms(1) [of s] e reserve_shape [of e1 e2 probe now a s] by auto
qed

text \<open>
  C40. Whatever the order in which reservations are made, claimed, attached, consumed and released,
  no two active reservations ever hold the same username, no draft ever has two open holds on a
  panel, and every row's links fit its status: a held row is linked to nothing, a bound one to its
  checkout, a consumed one to its order and service.
\<close>

theorem reservations_stay_exclusive:
  assumes "reservation_step\<^sup>*\<^sup>* s s'" and "rv_ok s"
  shows "rv_ok s'
    \<and> (\<forall>r \<in> set (reservations s'). \<forall>r' \<in> set (reservations s').
        active r \<and> active r' \<and> rv_normalizedUsername r = rv_normalizedUsername r' \<longrightarrow> r = r')
    \<and> (\<forall>r \<in> set (reservations s'). \<forall>r' \<in> set (reservations s').
        rebindable r \<and> rebindable r' \<and> draft_of r = draft_of r' \<longrightarrow> r = r')"
proof -
  have ok: "rv_ok s'"
    using assms by (induction rule: rtranclp_induct) (auto intro: reservation_step_ok)
  then have "unique_by rv_normalizedUsername (filter active (reservations s'))"
    and "unique_by draft_of (filter rebindable (reservations s'))"
    by (simp_all add: rv_ok_def rows_ok_def)
  with ok show ?thesis by (fastforce dest: unique_by_inj)
qed

section \<open>Claims\<close>

lemma claim_count:
  assumes "unique_by rv_id t"
  shows "count_where (claimable args now) t = (if \<exists>r \<in> set t. claimable args now r then 1 else 0)"
proof -
  have c: "claimable args now = (\<lambda>r. rv_id r = rc_reservationId args \<and> claimable args now r)"
    by (auto simp: claimable_def)
  have "count_where (claimable args now) t =
      (case find (\<lambda>r. rv_id r = rc_reservationId args) t of None \<Rightarrow> 0
       | Some r \<Rightarrow> if claimable args now r then 1 else 0)"
    by (subst c) (rule count_where_key [OF assms])
  moreover have "find (\<lambda>r. rv_id r = rc_reservationId args) t = Some r"
    if "r \<in> set t" "claimable args now r" for r
    using find_unique [OF assms that(1)] that(2) by (simp add: claimable_def)
  ultimately show ?thesis
    by (auto dest: find_Some_in split: option.splits)
qed

lemma claim_exact:
  assumes "unique_by rv_id (reservations s)"
  shows "claimReservationForCheckout args cs now s =
    Inr (isReservationClaimable args now s,
      s\<lparr>reservations := update_where (claimable args now) (bound_to_checkout cs now) (reservations s)\<rparr>)"
  by (simp add: claimReservationForCheckout_def tx_defs update_reservations_def
      claim_count [OF assms] isReservationClaimable_def)

text \<open>
  Claiming a hold for a checkout succeeds exactly when the read-only mirror says it will, and a
  hold is claimed at most once: afterwards it is bound to that checkout and no claim of the same
  reservation, by anyone, for any checkout, at any time, succeeds. A refused claim changes nothing.
\<close>

theorem claim_is_exclusive:
  assumes "unique_by rv_id (reservations s)"
    and "claimReservationForCheckout args cs now s = Inr (claimed, s')"
  shows "(claimed \<longleftrightarrow> isReservationClaimable args now s)
    \<and> (\<not> claimed \<longrightarrow> s' = s)
    \<and> (claimed \<longrightarrow>
        (\<exists>r. find (\<lambda>r. rv_id r = rc_reservationId args) (reservations s') = Some r
          \<and> rv_status r = Reservation_BOUND \<and> rv_checkoutSessionId r = Some cs)
        \<and> (\<forall>args' now'. rc_reservationId args' = rc_reservationId args \<longrightarrow>
            \<not> isReservationClaimable args' now' s'))"
proof -
  let ?t = "update_where (claimable args now) (bound_to_checkout cs now) (reservations s)"
  have c: "claimed = isReservationClaimable args now s" and s': "s' = s\<lparr>reservations := ?t\<rparr>"
    using assms(2) by (auto simp: claim_exact [OF assms(1)])
  have u: "unique_by rv_id ?t"
    using assms(1) by (simp add: unique_by_update_where bound_to_checkout_def)
  have no: "\<not> claimed \<longrightarrow> s' = s"
    by (simp add: s' c isReservationClaimable_def update_where_none)
  have "(\<exists>r. find (\<lambda>r. rv_id r = rc_reservationId args) ?t = Some r
          \<and> rv_status r = Reservation_BOUND \<and> rv_checkoutSessionId r = Some cs)
        \<and> (\<forall>args' now'. rc_reservationId args' = rc_reservationId args \<longrightarrow>
            (\<forall>x \<in> set ?t. \<not> claimable args' now' x))" if "claimed"
  proof -
    from that c obtain r where r: "r \<in> set (reservations s)" "claimable args now r"
      by (auto simp: isReservationClaimable_def)
    let ?b = "bound_to_checkout cs now r"
    have b: "?b \<in> set ?t" using r by (auto simp: set_update_where)
    have bid: "rv_id ?b = rc_reservationId args" using r(2) by (simp add: bound_to_checkout_def claimable_def)
    have f: "find (\<lambda>r. rv_id r = rc_reservationId args) ?t = Some ?b"
      using find_unique [OF u b] bid by simp
    have "\<not> claimable args' now' x"
      if "x \<in> set ?t" "rc_reservationId args' = rc_reservationId args" for args' now' x
    proof
      assume cl: "claimable args' now' x"
      then have "rv_id x = rv_id ?b" using that(2) bid by (simp add: claimable_def)
      then have "x = ?b" using unique_by_inj [OF u that(1) b] by simp
      with cl show False by (simp add: claimable_def bound_to_checkout_def)
    qed
    with f show ?thesis by (auto simp: bound_to_checkout_def)
  qed
  with c no show ?thesis by (simp add: s' isReservationClaimable_def)
qed

text \<open>The claim with exactly the values a reservation handed out.\<close>

definition claim_of :: "ReserveArgs \<Rightarrow> string \<Rightarrow> ReservationClaimArgs" where
  "claim_of a i =
     \<lparr>rc_reservationId = i, rc_userId = ra_userId a, rc_draftNonce = ra_draftNonce a,
      rc_normalizedUsername = ra_normalizedUsername a, rc_mode = ra_mode a,
      rc_panelId = ra_panelId a\<rparr>"

lemma refreshed_claimable:
  assumes "rv_ok s" and "h \<in> set (reservations s)"
    and "draft_hold (ra_userId a) (ra_draftNonce a) (ra_panelId a) h"
    and "rv_status h = Reservation_HELD" and "rv_normalizedUsername h = ra_normalizedUsername a"
    and "rv_mode h = ra_mode a" and "t < now + RESERVATION_HELD_TTL_MS"
  shows "isReservationClaimable (claim_of a (rv_id h)) t (refresh_hold now (rv_id h) s)"
proof -
  have "row_ok h" using assms(1,2) by (simp add: rv_ok_def rows_ok_def)
  then have "claimable (claim_of a (rv_id h)) t (h\<lparr>rv_expiresAt := Some (now + RESERVATION_HELD_TTL_MS)\<rparr>)"
    using assms(3-7) by (auto simp: claimable_def claim_of_def draft_hold_def row_ok_def status_defs)
  moreover have "h\<lparr>rv_expiresAt := Some (now + RESERVATION_HELD_TTL_MS)\<rparr>
      \<in> set (reservations (refresh_hold now (rv_id h) s))"
    using assms(2,4) by (auto simp: refresh_hold_def update_reservations_def set_update_where)
  ultimately show ?thesis by (auto simp: isReservationClaimable_def)
qed

lemma in_release_ids:
  "r \<in> set (reservations s) \<Longrightarrow> rv_id r \<notin> set ids \<Longrightarrow> r \<in> set (reservations (release_ids now ids s))"
  by (auto simp: release_ids_def update_reservations_def set_update_where)

lemma created_claimable:
  assumes "fresh_for rv_id (reservations s) s" and "t < now + RESERVATION_HELD_TTL_MS"
  shows "isReservationClaimable (claim_of a (uuids s (drawn s))) t
    (release_ids now
      (map rv_id (filter (draft_hold (ra_userId a) (ra_draftNonce a) (ra_panelId a)) (reservations s)))
      (s\<lparr>drawn := Suc (drawn s), reservations := reservations s @ [hold_row now a (uuids s (drawn s))]\<rparr>))"
proof -
  let ?h = "hold_row now a (uuids s (drawn s))"
  have "claimable (claim_of a (uuids s (drawn s))) t ?h"
    using assms(2) by (simp add: claimable_def claim_of_def hold_row_def)
  moreover have "uuids s (drawn s) \<notin> rv_id ` set (reservations s)"
    using assms(1) by (auto simp: fresh_for_def)
  then have "rv_id ?h \<notin> set (map rv_id
      (filter (draft_hold (ra_userId a) (ra_draftNonce a) (ra_panelId a)) (reservations s)))" by auto
  then have "?h \<in> set (reservations (release_ids now
      (map rv_id (filter (draft_hold (ra_userId a) (ra_draftNonce a) (ra_panelId a)) (reservations s)))
      (s\<lparr>drawn := Suc (drawn s), reservations := reservations s @ [?h]\<rparr>)))"
    by (intro in_release_ids) simp_all
  ultimately show ?thesis unfolding isReservationClaimable_def by blast
qed

lemma find_filter: "find P (filter Q t) = find (\<lambda>r. Q r \<and> P r) t"
  by (induction t) auto

text \<open>
  What \<open>reserveServiceUsername\<close> hands out can be claimed: when no other process interferes and
  the draft does not already hold the name in the other mode, a reported success names a hold that
  the checkout can claim with exactly the reported values until the hold's half hour is over.
\<close>

theorem reserved_name_is_claimable:
  assumes "rv_ok s" and "reserveServiceUsername id id probe now a s = (Reserved i u m, s')"
    and "\<forall>r \<in> set (reservations s).
      draft_hold (ra_userId a) (ra_draftNonce a) (ra_panelId a) r
      \<and> rv_normalizedUsername r = ra_normalizedUsername a \<longrightarrow> rv_mode r = ra_mode a"
    and "t < now + RESERVATION_HELD_TTL_MS"
  shows "u = ra_normalizedUsername a \<and> m = ra_mode a \<and> isReservationClaimable (claim_of a i) t s'"
proof -
  let ?D = "draft_hold (ra_userId a) (ra_draftNonce a) (ra_panelId a)"
  have fresh: "fresh_for rv_id (reservations s) s" using assms(1) by (simp add: rv_ok_def)
  have refr: "isReservationClaimable (claim_of a (rv_id h)) t (refresh_hold now (rv_id h) s)"
    if "h \<in> set (reservations s)" "?D h" "rv_status h = Reservation_HELD"
      "rv_normalizedUsername h = ra_normalizedUsername a" for h
    using refreshed_claimable [OF assms(1) that] assms(3,4) that by blast
  have tx: "post (reserve_transaction now a) s (\<lambda>i s'. isReservationClaimable (claim_of a i) t s')"
    unfolding reserve_transaction_def
    using created_claimable [OF fresh assms(4)] refr
    by (auto simp: tx_rules find_filter hold_row_simps(1) dest!: find_Some_in split: option.splits)
  show ?thesis
  proof (cases "find (\<lambda>r. rv_normalizedUsername r = ra_normalizedUsername a) (filter ?D (reservations s))")
    case None
    then obtain "run_transaction (reserve_transaction now a) s = (Inr i, s')"
      and "u = ra_normalizedUsername a" "m = ra_mode a"
      using assms(2) by (auto simp: reserveServiceUsername_def Let_def
          split: if_splits option.splits prod.splits sum.splits thrown.splits)
    then show ?thesis using run_transaction_post [OF tx] by blast
  next
    case (Some h)
    then have h: "h \<in> set (reservations s)" "?D h" "rv_normalizedUsername h = ra_normalizedUsername a"
      by (auto dest: find_Some_in)
    have "rv_status h = Reservation_HELD" "i = rv_id h" "s' = refresh_hold now (rv_id h) s"
      "u = ra_normalizedUsername a" "m = ra_mode a"
      using assms(2) Some by (auto simp: reserveServiceUsername_def Let_def
          split: if_splits option.splits)
    then show ?thesis using refr h by blast
  qed
qed

text \<open>
  The mode of a hold is frozen when it is created, but re-confirming the same name reports the
  mode of the request: a draft that holds a name in one mode and confirms it in the other is told it
  succeeded, with values no claim ever accepts.
\<close>

theorem mode_switch_unclaimable:
  assumes "rv_ok s" and "h \<in> set (reservations s)"
    and "draft_hold (ra_userId a) (ra_draftNonce a) (ra_panelId a) h"
    and "rv_status h = Reservation_HELD" and "rv_normalizedUsername h = ra_normalizedUsername a"
    and "rv_mode h \<noteq> ra_mode a"
    and "SERVICE_USERNAME_REGEX (ra_normalizedUsername a)"
    and "find (\<lambda>p. pn_id p = ra_panelId a) (panels s) = Some pn" and "pn_status pn = PanelStatus_ACTIVE"
  shows "\<exists>s'. reserveServiceUsername id id probe now a s
      = (Reserved (rv_id h) (ra_normalizedUsername a) (ra_mode a), s')
    \<and> (\<forall>t. \<not> isReservationClaimable (claim_of a (rv_id h)) t s')"
proof -
  let ?D = "draft_hold (ra_userId a) (ra_draftNonce a) (ra_panelId a)"
  have ok: "rows_ok (reservations s)" using assms(1) by (simp add: rv_ok_def)
  have one: "x = h" if "x \<in> set (reservations s)" "?D x" for x
    using ok that assms(2,3) unique_by_inj [of draft_of "filter rebindable (reservations s)" x h]
    by (simp add: rows_ok_def draft_hold_iff)
  have f: "find (\<lambda>r. rv_normalizedUsername r = ra_normalizedUsername a) (filter ?D (reservations s)) = Some h"
  proof (cases "find (\<lambda>r. rv_normalizedUsername r = ra_normalizedUsername a) (filter ?D (reservations s))")
    case None
    with assms(2,3,5) show ?thesis by (auto simp: find_None_all)
  next
    case (Some x)
    then show ?thesis using one by (auto dest: find_Some_in)
  qed
  have "reserveServiceUsername id id probe now a s
      = (Reserved (rv_id h) (ra_normalizedUsername a) (ra_mode a), refresh_hold now (rv_id h) s)"
    using f assms(4,7-9) by (simp add: reserveServiceUsername_def validate_regex)
  moreover have "\<not> claimable (claim_of a (rv_id h)) t x"
    if "x \<in> set (reservations (refresh_hold now (rv_id h) s))" for t x
  proof
    assume c: "claimable (claim_of a (rv_id h)) t x"
    from that obtain y where y: "y \<in> set (reservations s)" "rv_id x = rv_id y" "rv_mode x = rv_mode y"
      by (auto simp: refresh_hold_def update_reservations_def set_update_where)
    have "rv_id y = rv_id h" using c y(2) by (simp add: claimable_def claim_of_def)
    then have "y = h" using unique_by_inj [of rv_id "reservations s" y h] ok y(1) assms(2)
      by (simp add: rows_ok_def)
    with c y(3) assms(6) show False by (simp add: claimable_def claim_of_def)
  qed
  ultimately show ?thesis by (auto simp: isReservationClaimable_def)
qed

section \<open>Attaching to an order\<close>

lemma attach_count:
  assumes "unique_by rv_id t"
  shows "count_where (attachable args) t = (if \<exists>r \<in> set t. attachable args r then 1 else 0)"
proof -
  have c: "attachable args = (\<lambda>r. rv_id r = rb_reservationId args \<and> attachable args r)"
    by (auto simp: attachable_def bind_identity_def)
  have "count_where (attachable args) t =
      (case find (\<lambda>r. rv_id r = rb_reservationId args) t of None \<Rightarrow> 0
       | Some r \<Rightarrow> if attachable args r then 1 else 0)"
    by (subst c) (rule count_where_key [OF assms])
  moreover have "find (\<lambda>r. rv_id r = rb_reservationId args) t = Some r"
    if "r \<in> set t" "attachable args r" for r
    using find_unique [OF assms that(1)] that(2) by (simp add: attachable_def bind_identity_def)
  ultimately show ?thesis
    by (auto dest: find_Some_in split: option.splits)
qed

definition already_bound :: "ReservationOrderBindArgs \<Rightarrow> reservation_row \<Rightarrow> bool" where
  "already_bound args r \<longleftrightarrow>
     bind_identity args r \<and> rv_orderId r = Some (rb_orderId args)
     \<and> rv_status r \<in> {Reservation_BOUND, Reservation_CONSUMED}"

lemma attach_exact:
  assumes "unique_by rv_id (reservations s)"
  shows "attachReservationToOrder args now s =
    (if \<exists>r \<in> set (reservations s). attachable args r
     then Inr ((), s\<lparr>reservations := update_where (attachable args)
        (\<lambda>r. r\<lparr>rv_status := Reservation_BOUND, rv_orderId := Some (rb_orderId args),
              rv_boundAt := Some now, rv_expiresAt := None\<rparr>) (reservations s)\<rparr>)
     else if \<exists>r \<in> set (reservations s). already_bound args r then Inr ((), s)
     else Inl (Thrown (ReservationInvariantError ''ORDER_BIND_NO_MATCH'')))"
proof (cases "\<exists>r \<in> set (reservations s). attachable args r")
  case True
  then show ?thesis
    by (simp add: attachReservationToOrder_def tx_defs update_reservations_def attach_count [OF assms])
next
  case False
  then have "update_where (attachable args)
        (\<lambda>r. r\<lparr>rv_status := Reservation_BOUND, rv_orderId := Some (rb_orderId args),
              rv_boundAt := Some now, rv_expiresAt := None\<rparr>) (reservations s) = reservations s"
    by (simp add: update_where_none)
  with False show ?thesis
    by (auto simp: attachReservationToOrder_def tx_defs update_reservations_def attach_count [OF assms]
        already_bound_def)
qed

lemma bound_unique:
  assumes "unique_by rv_id t" and "r \<in> set t" and "already_bound args r"
    and "o2 \<noteq> rb_orderId args" and "x \<in> set t"
  shows "\<not> attachable (args\<lparr>rb_orderId := o2\<rparr>) x \<and> \<not> already_bound (args\<lparr>rb_orderId := o2\<rparr>) x"
proof -
  have "x = r" if "rv_id x = rb_reservationId args"
    using unique_by_inj [OF assms(1) assms(5,2)] that assms(3)
    by (simp add: already_bound_def bind_identity_def)
  then show ?thesis
    using assms(3,4) by (auto simp: attachable_def already_bound_def bind_identity_def)
qed

text \<open>
  Attaching a reservation to its order binds exactly once: after a success the reservation
  carries that order, repeating it succeeds without a second effect on any other field than the time
  stamp, and attaching it to any other order is refused.
\<close>

theorem attach_binds_one_order:
  assumes "unique_by rv_id (reservations s)"
    and "attachReservationToOrder args now s = Inr ((), s')"
  shows "(\<exists>r \<in> set (reservations s'). already_bound args r)
    \<and> (\<exists>s''. attachReservationToOrder args now' s' = Inr ((), s''))
    \<and> (\<forall>o2. o2 \<noteq> rb_orderId args \<longrightarrow>
        attachReservationToOrder (args\<lparr>rb_orderId := o2\<rparr>) now' s' =
          Inl (Thrown (ReservationInvariantError ''ORDER_BIND_NO_MATCH'')))"
proof -
  let ?f = "\<lambda>r. r\<lparr>rv_status := Reservation_BOUND, rv_orderId := Some (rb_orderId args),
              rv_boundAt := Some now, rv_expiresAt := None\<rparr>"
  have u: "unique_by rv_id (reservations s')"
    using assms by (auto simp: attach_exact unique_by_update_where split: if_splits)
  have b: "\<exists>r \<in> set (reservations s'). already_bound args r"
  proof (cases "\<exists>r \<in> set (reservations s). attachable args r")
    case True
    then obtain r where r: "r \<in> set (reservations s)" "attachable args r" by blast
    then have "?f r \<in> set (reservations s')"
      using assms True by (auto simp: attach_exact set_update_where split: if_splits)
    moreover have "already_bound args (?f r)"
      using r(2) by (simp add: attachable_def already_bound_def bind_identity_def)
    ultimately show ?thesis by blast
  next
    case False
    then show ?thesis using assms by (auto simp: attach_exact split: if_splits)
  qed
  then obtain r where r: "r \<in> set (reservations s')" "already_bound args r" by blast
  have "\<exists>s''. attachReservationToOrder args now' s' = Inr ((), s'')"
    using b by (simp add: attach_exact [OF u])
  moreover have "attachReservationToOrder (args\<lparr>rb_orderId := o2\<rparr>) now' s' =
      Inl (Thrown (ReservationInvariantError ''ORDER_BIND_NO_MATCH''))" if "o2 \<noteq> rb_orderId args" for o2
    using bound_unique [OF u r that] by (simp add: attach_exact [OF u])
  ultimately show ?thesis using b by blast
qed

section \<open>The bounded search\<close>

lemma draw_indices_suffix:
  "draw_indices limit sz need bufs = Some (ixs, left) \<Longrightarrow> \<forall>buf \<in> set bufs. \<exists>b \<in> set buf. b < limit \<Longrightarrow>
     \<exists>k \<le> need. left = drop k bufs"
proof (induction limit sz need bufs arbitrary: ixs left rule: draw_indices.induct)
  case (1 limit sz need bufs)
  show ?case
  proof (cases "need = 0 \<or> bufs = []")
    case True
    with 1 show ?thesis by (auto simp: draw_indices.simps split: if_splits)
  next
    case False
    then obtain buf rest where b: "bufs = buf # rest" and n: "need \<noteq> 0" by (cases bufs) auto
    let ?got = "take_accepted limit sz need buf"
    obtain r l where m: "draw_indices limit sz (need - length ?got) rest = Some (r, l)"
      and l: "left = l"
      using 1(2) b n by (subst (asm) draw_indices.simps) (auto simp: Let_def split: option.splits)
    have "?got \<noteq> []" using 1(3) n b by (intro take_accepted_progress) auto
    moreover obtain k where "k \<le> need - length ?got" "l = drop k rest"
      using 1(1) [OF n b refl m] 1(3) b by auto
    ultimately show ?thesis using l b n by (intro exI [of _ "Suc k"]) (cases ?got, auto)
  qed
qed

lemma random_attempts_total:
  "8 * n \<le> length bufs \<Longrightarrow> \<forall>buf \<in> set bufs. \<exists>b \<in> set buf. b < rejection_limit 36 \<Longrightarrow>
     random_attempts others probe now a n lst bufs s \<noteq> None"
proof (induction n arbitrary: lst bufs s)
  case 0
  then show ?case by simp
next
  case (Suc n)
  obtain ixs left where d: "randomIndices 8 36 bufs = Some (ixs, left)"
    using draw_indices_total [of 8 bufs "rejection_limit 36" 36] Suc.prems
    by (fastforce simp: randomIndices_def)
  obtain k where "k \<le> 8" "left = drop k bufs"
    using draw_indices_suffix [OF d [unfolded randomIndices_def] Suc.prems(2)] by blast
  then have "8 * n \<le> length left" "\<forall>buf \<in> set left. \<exists>b \<in> set buf. b < rejection_limit 36"
    using Suc.prems by (auto dest: in_set_dropD)
  note IH = Suc.IH [OF this]
  show ?case
    using d IH by (auto simp: generate_random split: option.splits ReserveResult.splits prod.splits)
qed

lemma reserved_values:
  "reserveServiceUsername e1 e2 probe now a s = (Reserved i u m, s') \<Longrightarrow>
     u = ra_normalizedUsername a \<and> m = ra_mode a \<and> SERVICE_USERNAME_REGEX u"
  by (auto simp: reserveServiceUsername_def Let_def validate_Inr
      split: if_splits option.splits prod.splits sum.splits thrown.splits)

lemma random_attempts_result:
  "random_attempts others probe now a n lst bufs s = Some (Reserved i u m, s') \<Longrightarrow>
     isValidServiceUsername u \<and> m = UsernameMode_RANDOM \<and> starts_with u SERVICE_USERNAME_RANDOM_PREFIX"
proof (induction n arbitrary: lst bufs s)
  case 0
  then show ?case by simp
next
  case (Suc n)
  then obtain ixs left where g: "generateRandomServiceUsername bufs =
      Some (SERVICE_USERNAME_RANDOM_PREFIX @ suffix_of ixs, left)"
    by (auto simp: generate_random split: option.splits)
  let ?a = "a\<lparr>ra_mode := UsernameMode_RANDOM,
    ra_normalizedUsername := SERVICE_USERNAME_RANDOM_PREFIX @ suffix_of ixs\<rparr>"
  obtain res t where r: "reserveServiceUsername (fst (others n)) (snd (others n)) probe now ?a s = (res, t)"
    by fastforce
  show ?case
  proof (cases res)
    case (Reserved j v k)
    with r Suc.prems g have "v = u" "k = m" by auto
    with r Reserved reserved_values [of _ _ probe now ?a s j v k t]
    have "u = SERVICE_USERNAME_RANDOM_PREFIX @ suffix_of ixs" "m = UsernameMode_RANDOM"
      "SERVICE_USERNAME_REGEX u" by auto
    then show ?thesis by (simp add: isValid_regex starts_with_def)
  next
    case (NotReserved x)
    with r Suc.prems g have "random_attempts others probe now a n x left t = Some (Reserved i u m, s')"
      by (auto split: if_splits)
    then show ?thesis by (rule Suc.IH)
  qed
qed

text \<open>
  The search for a random name is bounded and total: ten attempts at most, eighty usable buffers
  of randomness are always enough for an answer, and a reported name is a valid generated one.
\<close>

theorem random_reservation_terminates:
  "(80 \<le> length bufs \<and> (\<forall>buf \<in> set bufs. \<exists>b \<in> set buf. b < rejection_limit 36) \<longrightarrow>
      (\<exists>res s'. reserveRandomServiceUsername others probe now u p n bufs s = Some (res, s')))
   \<and> (\<forall>i name m s'. reserveRandomServiceUsername others probe now u p n bufs s
          = Some (Reserved i name m, s') \<longrightarrow>
        isValidServiceUsername name \<and> m = UsernameMode_RANDOM
        \<and> starts_with name SERVICE_USERNAME_RANDOM_PREFIX)"
proof (intro conjI impI allI)
  assume "80 \<le> length bufs \<and> (\<forall>buf \<in> set bufs. \<exists>b \<in> set buf. b < rejection_limit 36)"
  then show "\<exists>res s'. reserveRandomServiceUsername others probe now u p n bufs s = Some (res, s')"
    using random_attempts_total [of 10 bufs others probe now _ UNVERIFIABLE s]
    by (auto simp: reserveRandomServiceUsername_def RANDOM_USERNAME_MAX_ATTEMPTS_def)
qed (auto simp: reserveRandomServiceUsername_def dest: random_attempts_result)

end
