(* ===== verification/Settlement.thy ===== *)
theory Settlement
  imports Discount LowBalanceCore Reservation
begin

text \<open>
  The wallet settlement (packages/service-renewal/src/settlement.ts) and the two callbacks that claim
  a username reservation inside it: the one of the bot (apps/bot/src/services/wallet-payment.service.ts)
  and the one of the Mini App (apps/api/src/miniapp/commerce/routes.ts). The digest of the payload is a
  parameter. \<open>others n\<close> is what other processes do to the database at the n-th await of the call.
\<close>

section \<open>Vocabulary\<close>

datatype WalletSettlementFailure = INVALID_FINANCIAL_INPUT | USER_NOT_ACTIVE | WALLET_DISABLED
  | DRAFT_STALE | RESERVATION_STALE | INSUFFICIENT_BALANCE | DISCOUNT_CHANGED
  | IDEMPOTENCY_CONFLICT

text \<open>What the body of the transaction can throw besides database faults: the abort of the
  settlement, or an exception of the callback.\<close>

datatype settle_exn = SettlementAbort WalletSettlementFailure | CallbackError string

record WalletSettlementSuccess =
  ws_order :: order_row
  ws_payment :: payment_row
  ws_checkout :: checkout_row
  ws_walletTransaction :: wallet_tx_row
  ws_newBalanceToman :: int
  ws_alreadyPaid :: bool

datatype settlement_outcome = Settled WalletSettlementSuccess | Refused WalletSettlementFailure
  | Raised "settle_exn thrown"

type_synonym reservation_callback = "string \<Rightarrow> string \<Rightarrow> int \<Rightarrow> (settle_exn, bool) tx"

record WalletSettlementArgs =
  sa_userId :: string
  sa_orderType :: OrderType
  sa_productId :: string
  sa_serviceId :: "string option"
  sa_snapshot :: json_obj
  sa_originalPriceToman :: jsnum
  sa_discountAmountToman :: jsnum
  sa_finalPriceToman :: jsnum
  sa_discountCodeId :: "string option"
  sa_idempotencyKey :: string
  sa_isWalletEnabled :: "db \<Rightarrow> bool"
  sa_existingCheckoutId :: "string option"
  sa_isExistingCheckoutSettleable :: "(string \<Rightarrow> db \<Rightarrow> bool) option"
  sa_otherProductFulfillmentSnapshot :: "json_obj option"
  sa_claimReservation :: "reservation_callback option"

definition WALLET_ORDER_PAYMENT_REASON :: string where
  "WALLET_ORDER_PAYMENT_REASON = ''WALLET_ORDER_PAYMENT''"

fun order_type_name :: "OrderType \<Rightarrow> string" where
  "order_type_name OrderType_SERVICE_PURCHASE = ''SERVICE_PURCHASE''"
| "order_type_name OrderType_SERVICE_RENEWAL = ''SERVICE_RENEWAL''"
| "order_type_name OrderType_EXTRA_VOLUME = ''EXTRA_VOLUME''"
| "order_type_name OrderType_EXTRA_TIME = ''EXTRA_TIME''"
| "order_type_name OrderType_LOCATION_CHANGE = ''LOCATION_CHANGE''"
| "order_type_name OrderType_OTHER_PRODUCT = ''OTHER_PRODUCT''"

section \<open>Reading the snapshot\<close>

definition snapshotString :: "json_obj \<Rightarrow> string \<Rightarrow> string option" where
  "snapshotString snapshot k = nonempty_string (map_of snapshot k)"

definition snapshotInt :: "json_obj \<Rightarrow> string \<Rightarrow> int option" where
  "snapshotInt snapshot k = integer_value (map_of snapshot k)"

definition snapshotIntArray :: "json_obj \<Rightarrow> string \<Rightarrow> int list option" where
  "snapshotIntArray snapshot k =
     (case map_of snapshot k of
        Some (JArr xs) \<Rightarrow>
          let ids = List.map_filter (\<lambda>v. integer_value (Some v)) xs
          in if ids = [] then None else Some ids
      | _ \<Rightarrow> None)"

text \<open>
  \<open>hasValidFinancialInvariant\<close>, returning the three amounts (original, discount, final) it accepts.
\<close>

definition financial_amounts :: "WalletSettlementArgs \<Rightarrow> (int \<times> int \<times> int) option" where
  "financial_amounts args =
     (case (as_safe_integer (sa_originalPriceToman args), as_safe_integer (sa_discountAmountToman args),
            as_safe_integer (sa_finalPriceToman args)) of
        (Some original, Some discount, Some final) \<Rightarrow>
          if original \<le> 0 \<or> discount < 0 \<or> final \<le> 0 \<or> discount > original
             \<or> original - discount \<noteq> final then None
          else if snapshotInt (sa_snapshot args) ''originalPriceToman'' = Some original
             \<and> snapshotInt (sa_snapshot args) ''discountAmountToman'' = Some discount
             \<and> snapshotInt (sa_snapshot args) ''finalPriceToman'' = Some final
          then Some (original, discount, final) else None
      | _ \<Rightarrow> None)"

section \<open>The fingerprint\<close>

definition or_dash :: "string option \<Rightarrow> string" where
  "or_dash x = (case x of None \<Rightarrow> ''-'' | Some s \<Rightarrow> s)"

definition fingerprint_parts :: "WalletSettlementArgs \<Rightarrow> int \<times> int \<times> int \<Rightarrow> string list" where
  "fingerprint_parts args amounts =
     (case amounts of (original, discount, final) \<Rightarrow>
       [sa_userId args, order_type_name (sa_orderType args), sa_productId args,
        or_dash (sa_serviceId args), show_int original, show_int discount, show_int final,
        or_dash (sa_discountCodeId args), or_dash (sa_existingCheckoutId args)])"

definition settlementPayloadFingerprint ::
  "(string \<Rightarrow> string) \<Rightarrow> WalletSettlementArgs \<Rightarrow> int \<times> int \<times> int \<Rightarrow> string" where
  "settlementPayloadFingerprint digest args amounts =
     digest (js_join [CHR 0x00] (fingerprint_parts args amounts))"

definition storedFingerprint :: "payment_row \<Rightarrow> string option" where
  "storedFingerprint payment =
     (case pay_callbackPayload payment of
        Some (JObj payload) \<Rightarrow> nonempty_string (map_of payload ''payloadFingerprint'')
      | _ \<Rightarrow> None)"

section \<open>The replay\<close>

definition settlement_tx :: "payment_row \<Rightarrow> wallet_tx_row \<Rightarrow> bool" where
  "settlement_tx payment t \<longleftrightarrow>
     wt_relatedPaymentId t = Some (pay_id payment) \<and> wt_reason t = Some WALLET_ORDER_PAYMENT_REASON"

text \<open>The payment is read first; \<open>later\<close> is the database the other three reads see.\<close>

definition loadExistingSettlement ::
  "string \<Rightarrow> db \<Rightarrow> db \<Rightarrow> (WalletSettlementSuccess \<times> string option) option" where
  "loadExistingSettlement idempotencyKey s later =
     (case find (\<lambda>p. pay_idempotencyKey p = Some idempotencyKey) (payments s) of
        None \<Rightarrow> None
      | Some payment \<Rightarrow>
          (case (pay_orderId payment, pay_checkoutSessionId payment) of
             (Some orderId, Some checkoutId) \<Rightarrow>
               (case (find (\<lambda>x. o_id x = orderId) (orders later),
                      find (\<lambda>c. co_id c = checkoutId) (checkouts later),
                      find (settlement_tx payment) (wallet_txs later)) of
                  (Some order, Some checkout, Some t) \<Rightarrow>
                    Some (\<lparr>ws_order = order, ws_payment = payment, ws_checkout = checkout,
                           ws_walletTransaction = t, ws_newBalanceToman = wt_balanceAfterToman t,
                           ws_alreadyPaid = True\<rparr>,
                          storedFingerprint payment)
                | _ \<Rightarrow> None)
           | _ \<Rightarrow> None))"

definition replay_outcome ::
  "string \<Rightarrow> WalletSettlementSuccess \<times> string option \<Rightarrow> settlement_outcome" where
  "replay_outcome fingerprint existing =
     (case snd existing of
        Some stored \<Rightarrow> if stored \<noteq> fingerprint then Refused IDEMPOTENCY_CONFLICT
          else Settled (fst existing)
      | None \<Rightarrow> Settled (fst existing))"

section \<open>The statements of the transaction\<close>

definition checkoutExpiryMinutes :: "db \<Rightarrow> int" where
  "checkoutExpiryMinutes s =
     (case as_integer (js_parseInt (case setting_value ''checkout_expiry_minutes'' s of
          None \<Rightarrow> '''' | Some v \<Rightarrow> v)) of
        Some value \<Rightarrow> if 0 < value then value else 30
      | None \<Rightarrow> 30)"

definition update_checkouts :: "(checkout_row \<Rightarrow> bool) \<Rightarrow> (checkout_row \<Rightarrow> checkout_row) \<Rightarrow> db \<Rightarrow> nat \<times> db" where
  "update_checkouts P f s =
     (count_where P (checkouts s), s\<lparr>checkouts := update_where P f (checkouts s)\<rparr>)"

definition draft_settleable ::
  "WalletSettlementArgs \<Rightarrow> int \<Rightarrow> int \<Rightarrow> string \<Rightarrow> checkout_row \<Rightarrow> bool" where
  "draft_settleable args final now checkoutId c \<longleftrightarrow>
     co_id c = checkoutId \<and> co_userId c = sa_userId args
     \<and> co_purpose c = CheckoutPurpose_ORDER_PAYMENT \<and> co_orderType c = Some (sa_orderType args)
     \<and> co_productId c = Some (sa_productId args) \<and> co_finalPriceToman c = final
     \<and> co_status c = CheckoutStatus_PENDING \<and> co_settledByPaymentId c = None \<and> now < co_expiresAt c"

definition paid_at :: "int \<Rightarrow> checkout_row \<Rightarrow> checkout_row" where
  "paid_at now c = c\<lparr>co_status := CheckoutStatus_PAID, co_paidAt := Some now\<rparr>"

definition new_checkout ::
  "WalletSettlementArgs \<Rightarrow> int \<times> int \<times> int \<Rightarrow> int \<Rightarrow> int \<Rightarrow> string \<Rightarrow> checkout_row" where
  "new_checkout args amounts minutes now i =
     (case amounts of (original, discount, final) \<Rightarrow>
       \<lparr>co_id = i, co_userId = sa_userId args, co_purpose = CheckoutPurpose_ORDER_PAYMENT,
        co_productId = Some (sa_productId args), co_serviceId = sa_serviceId args,
        co_orderType = Some (sa_orderType args), co_productSnapshot = Some (JObj (sa_snapshot args)),
        co_otherProductFulfillmentSnapshot =
          map_option JObj (sa_otherProductFulfillmentSnapshot args),
        co_originalPriceToman = original, co_discountAmountToman = discount,
        co_finalPriceToman = final, co_discountCodeId = sa_discountCodeId args,
        co_status = CheckoutStatus_PAID, co_settledByPaymentId = None,
        co_expiresAt = now + minutes * 60000, co_paidAt = Some now\<rparr>)"

definition take_checkout ::
  "WalletSettlementArgs \<Rightarrow> int \<times> int \<times> int \<Rightarrow> int \<Rightarrow> int \<Rightarrow> (settle_exn, checkout_row) tx" where
  "take_checkout args amounts minutes now =
     (case sa_existingCheckoutId args of
        Some checkoutId \<Rightarrow>
          tx_bind (tx_do (update_checkouts
            (draft_settleable args (snd (snd amounts)) now checkoutId) (paid_at now))) (\<lambda>flipped.
          if flipped \<noteq> 1 then tx_fail (Thrown (SettlementAbort DRAFT_STALE))
          else tx_bind (tx_read (\<lambda>s. find (\<lambda>c. co_id c = checkoutId) (checkouts s)))
            (\<lambda>row. tx_some row DbFault))
      | None \<Rightarrow>
          tx_bind (tx_do draw_id) (\<lambda>i. create_checkout (new_checkout args amounts minutes now i)))"

definition wallet_payload :: "string \<Rightarrow> json" where
  "wallet_payload fingerprint =
     JObj [(''method'', JStr ''WALLET''), (''payloadFingerprint'', JStr fingerprint)]"

definition new_payment ::
  "WalletSettlementArgs \<Rightarrow> int \<Rightarrow> string \<Rightarrow> int \<Rightarrow> string \<Rightarrow> string \<Rightarrow> payment_row" where
  "new_payment args final fingerprint now checkoutId i =
     \<lparr>pay_id = i, pay_userId = sa_userId args, pay_orderId = None,
      pay_checkoutSessionId = Some checkoutId, pay_purpose = PaymentPurpose_PAY_WITH_WALLET,
      pay_status = PaymentStatus_APPROVED, pay_amountToman = final, pay_payableAmountToman = final,
      pay_paidAt = Some now, pay_callbackPayload = Some (wallet_payload fingerprint),
      pay_idempotencyKey = Some (sa_idempotencyKey args),
      pay_settlementStatus = SettlementStatus_SETTLED, pay_settledAt = Some now\<rparr>"

text \<open>\<open>settledByPaymentId\<close> is a unique column.\<close>

definition set_settled_by :: "string \<Rightarrow> string \<Rightarrow> ('e, unit) tx" where
  "set_settled_by checkoutId paymentId =
     (\<lambda>s. if \<not> (\<exists>c \<in> set (checkouts s). co_id c = checkoutId) then Inl DbFault
          else if \<exists>c \<in> set (checkouts s). co_id c \<noteq> checkoutId
              \<and> co_settledByPaymentId c = Some paymentId then Inl UniqueViolation
          else Inr ((), s\<lparr>checkouts := update_where (\<lambda>c. co_id c = checkoutId)
              (\<lambda>c. c\<lparr>co_settledByPaymentId := Some paymentId\<rparr>) (checkouts s)\<rparr>))"

definition new_order ::
  "WalletSettlementArgs \<Rightarrow> int \<times> int \<times> int \<Rightarrow> int \<Rightarrow> string \<Rightarrow> string \<Rightarrow> string \<Rightarrow> order_row" where
  "new_order args amounts now checkoutId paymentId i =
     (case amounts of (original, discount, final) \<Rightarrow>
       let snapshot = sa_snapshot args in
       \<lparr>o_id = i, o_userId = sa_userId args, o_checkoutSessionId = Some checkoutId,
        o_type = sa_orderType args, o_status = OrderStatus_PAID,
        o_productId = Some (sa_productId args), o_serviceId = sa_serviceId args,
        o_paymentId = Some paymentId, o_originalPriceToman = original,
        o_discountAmountToman = discount, o_finalPriceToman = final,
        o_discountCodeId = sa_discountCodeId args,
        o_productNameSnapshot = snapshotString snapshot ''productName'',
        o_productDescriptionSnapshot = snapshotString snapshot ''invoiceDescription'',
        o_productPriceSnapshot = snapshotInt snapshot ''originalPriceToman'',
        o_durationDaysSnapshot = snapshotInt snapshot ''durationDays'',
        o_volumeGbSnapshot = snapshotInt snapshot ''volumeGb'',
        o_inboundIdsSnapshot =
          map_option (\<lambda>ids. JArr (map jint ids)) (snapshotIntArray snapshot ''inboundIds''),
        o_panelNameSnapshot = snapshotString snapshot ''panelName'',
        o_locationSnapshot =
          (if map_of snapshot ''allLocations'' = Some (JBool True) then Some ''ALL''
           else snapshotString snapshot ''serviceLocation''),
        o_categorySnapshot = snapshotString snapshot ''categoryName'',
        o_serviceNoteSnapshot = snapshotString snapshot ''serviceUserNote'',
        o_failureReason = None, o_paidAt = Some now, o_completedAt = None, o_updatedAt = now\<rparr>)"

definition require_active_payer :: "string \<Rightarrow> (settle_exn, unit) tx" where
  "require_active_payer userId =
     tx_bind (tx_read (\<lambda>s. find (\<lambda>u. u_id u = userId) (users s))) (\<lambda>payer.
     tx_require (case payer of None \<Rightarrow> False | Some u \<Rightarrow> u_status u = UserStatus_ACTIVE)
       (Thrown (SettlementAbort USER_NOT_ACTIVE)))"

definition claim_hold ::
  "reservation_callback option \<Rightarrow> string \<Rightarrow> string \<Rightarrow> int \<Rightarrow> (settle_exn, unit) tx" where
  "claim_hold callback checkoutId orderId now =
     (case callback of
        None \<Rightarrow> tx_return ()
      | Some f \<Rightarrow> tx_bind (f checkoutId orderId now) (\<lambda>claimed.
          tx_require claimed (Thrown (SettlementAbort RESERVATION_STALE))))"

definition link_order :: "string \<Rightarrow> string \<Rightarrow> (settle_exn, payment_row) tx" where
  "link_order paymentId orderId =
     tx_bind (tx_read (\<lambda>s. find (\<lambda>p. pay_id p = paymentId) (payments s))) (\<lambda>row.
     tx_bind (tx_some row DbFault) (\<lambda>p.
     tx_then (tx_write (\<lambda>s. s\<lparr>payments := update_where (\<lambda>p. pay_id p = paymentId)
         (\<lambda>p. p\<lparr>pay_orderId := Some orderId\<rparr>) (payments s)\<rparr>))
       (tx_return (p\<lparr>pay_orderId := Some orderId\<rparr>))))"

definition user_fits :: "user_row \<Rightarrow> bool" where
  "user_fits u \<longleftrightarrow>
     int4 (u_balanceToman u) \<and> int4 (u_totalSpentToman u) \<and> int4 (u_totalDiscountToman u)
     \<and> int4 (u_totalRefundedToman u) \<and> int4 (u_ordersCount u) \<and> int4 (u_paidOrdersCount u)
     \<and> int4 (u_totalPurchaseAmountToman u)"

definition update_users :: "(user_row \<Rightarrow> bool) \<Rightarrow> (user_row \<Rightarrow> user_row) \<Rightarrow> ('e, nat) tx" where
  "update_users P f =
     (\<lambda>s. if \<exists>u \<in> set (users s). P u \<and> \<not> user_fits (f u) then Inl DbFault
          else Inr (count_where P (users s), s\<lparr>users := update_where P f (users s)\<rparr>))"

definition debited :: "int \<Rightarrow> int \<Rightarrow> user_row \<Rightarrow> user_row" where
  "debited discount final u =
     u\<lparr>u_balanceToman := u_balanceToman u - final,
       u_totalSpentToman := u_totalSpentToman u + final,
       u_totalDiscountToman := (if 0 < discount then u_totalDiscountToman u + discount
         else u_totalDiscountToman u),
       u_ordersCount := u_ordersCount u + 1, u_paidOrdersCount := u_paidOrdersCount u + 1,
       u_totalPurchaseAmountToman := u_totalPurchaseAmountToman u + final\<rparr>"

text \<open>The conditional deduction; the balance it leaves is read back from the row.\<close>

definition deduct :: "string \<Rightarrow> int \<Rightarrow> int \<Rightarrow> (settle_exn, int) tx" where
  "deduct userId discount final =
     tx_bind (update_users (\<lambda>u. u_id u = userId \<and> final \<le> u_balanceToman u) (debited discount final))
     (\<lambda>deducted.
       if deducted \<noteq> 1 then tx_fail (Thrown (SettlementAbort INSUFFICIENT_BALANCE))
       else tx_bind (tx_read (\<lambda>s. find (\<lambda>u. u_id u = userId) (users s))) (\<lambda>row.
         tx_bind (tx_some row DbFault) (\<lambda>u. tx_return (u_balanceToman u))))"

definition spend_row :: "int \<Rightarrow> string \<Rightarrow> int \<Rightarrow> int \<Rightarrow> string \<Rightarrow> string \<Rightarrow> string \<Rightarrow> wallet_tx_row" where
  "spend_row now userId final balanceAfter orderId paymentId i =
     \<lparr>wt_id = i, wt_userId = userId, wt_amountToman = final, wt_type = WT_SPEND, wt_source = WS_ORDER,
      wt_reason = Some WALLET_ORDER_PAYMENT_REASON, wt_relatedOrderId = Some orderId,
      wt_relatedPaymentId = Some paymentId, wt_balanceBeforeToman = balanceAfter + final,
      wt_balanceAfterToman = balanceAfter, wt_createdAt = now\<rparr>"

definition claim_discount ::
  "WalletSettlementArgs \<Rightarrow> int \<Rightarrow> string \<Rightarrow> string \<Rightarrow> int \<Rightarrow> (settle_exn, unit) tx" where
  "claim_discount args discount orderId checkoutId now =
     (case sa_discountCodeId args of
        None \<Rightarrow> tx_return ()
      | Some codeId \<Rightarrow>
          if discount \<le> 0 then tx_return ()
          else tx_bind (claimDiscountUsage now
                 \<lparr>ca_discountCodeId = codeId, ca_userId = sa_userId args, ca_orderId = orderId,
                  ca_checkoutSessionId = checkoutId, ca_amountToman = discount\<rparr>)
               (\<lambda>claim. tx_require (claim \<noteq> CLAIM_FAILED) (Thrown (SettlementAbort DISCOUNT_CHANGED))))"

section \<open>The settlement\<close>

definition settle_transaction ::
  "WalletSettlementArgs \<Rightarrow> int \<times> int \<times> int \<Rightarrow> string \<Rightarrow> int \<Rightarrow> int \<Rightarrow>
   (settle_exn, WalletSettlementSuccess) tx" where
  "settle_transaction args amounts fingerprint minutes now =
     (let discount = fst (snd amounts); final = snd (snd amounts); userId = sa_userId args in
      tx_bind (take_checkout args amounts minutes now) (\<lambda>checkout.
      tx_bind (tx_do draw_id) (\<lambda>pid.
      tx_bind (create_payment (new_payment args final fingerprint now (co_id checkout) pid)) (\<lambda>payment.
      tx_then (set_settled_by (co_id checkout) (pay_id payment)) (
      tx_bind (tx_do draw_id) (\<lambda>oid.
      tx_bind (create_order (new_order args amounts now (co_id checkout) (pay_id payment) oid)) (\<lambda>order.
      tx_then (require_active_payer userId) (
      tx_then (claim_hold (sa_claimReservation args) (co_id checkout) (o_id order) now) (
      tx_bind (link_order (pay_id payment) (o_id order)) (\<lambda>settledPayment.
      tx_bind (deduct userId discount final) (\<lambda>balanceAfter.
      tx_bind (tx_do draw_id) (\<lambda>wid.
      tx_bind (create_wallet_tx (spend_row now userId final balanceAfter (o_id order) (pay_id payment) wid))
        (\<lambda>walletTransaction.
      tx_then (onWalletBalanceChanged now
        \<lparr>oa_userId = userId, oa_balanceBeforeToman = Some (balanceAfter + final),
         oa_balanceAfterToman = balanceAfter\<rparr>) (
      tx_then (claim_discount args discount (o_id order) (co_id checkout) now) (
      tx_return \<lparr>ws_order = order, ws_payment = settledPayment, ws_checkout = checkout,
        ws_walletTransaction = walletTransaction, ws_newBalanceToman = balanceAfter,
        ws_alreadyPaid = False\<rparr>)))))))))))))))"

definition settleWalletOrder ::
  "(string \<Rightarrow> string) \<Rightarrow> (nat \<Rightarrow> db \<Rightarrow> db) \<Rightarrow> WalletSettlementArgs \<Rightarrow> int \<Rightarrow> db \<Rightarrow>
   settlement_outcome \<times> db" where
  "settleWalletOrder digest others args now s =
     (case financial_amounts args of
        None \<Rightarrow> (Refused INVALID_FINANCIAL_INPUT, s)
      | Some amounts \<Rightarrow>
          let fingerprint = settlementPayloadFingerprint digest args amounts;
              s1 = others 0 s
          in (case loadExistingSettlement (sa_idempotencyKey args) s s1 of
                Some existing \<Rightarrow> (replay_outcome fingerprint existing, s1)
              | None \<Rightarrow>
                  let s2 = others 1 s1 in
                  if \<not> sa_isWalletEnabled args s2 then (Refused WALLET_DISABLED, s2)
                  else
                    let s3 = others 2 s2 in
                    if (case (sa_existingCheckoutId args, sa_isExistingCheckoutSettleable args) of
                          (Some checkoutId, Some settleable) \<Rightarrow> \<not> settleable checkoutId s3
                        | _ \<Rightarrow> False)
                    then (Refused DRAFT_STALE, s3)
                    else
                      let minutes = checkoutExpiryMinutes s3; s4 = others 3 s3 in
                      (case run_transaction (settle_transaction args amounts fingerprint minutes now) s4 of
                         (Inr success, s5) \<Rightarrow> (Settled success, s5)
                       | (Inl (Thrown (SettlementAbort code)), s5) \<Rightarrow> (Refused code, s5)
                       | (Inl UniqueViolation, s5) \<Rightarrow>
                           let s6 = others 4 s5; s7 = others 5 s6 in
                           (case loadExistingSettlement (sa_idempotencyKey args) s6 s7 of
                              Some settled \<Rightarrow> (replay_outcome fingerprint settled, s7)
                            | None \<Rightarrow> (Raised UniqueViolation, s7))
                       | (Inl e, s5) \<Rightarrow> (Raised e, s5))))"

section \<open>The reservation callbacks\<close>

text \<open>The bot: claim the hold for the checkout, then attach it to the order.\<close>

definition attach_or_false :: "ReservationOrderBindArgs \<Rightarrow> int \<Rightarrow> (settle_exn, bool) tx" where
  "attach_or_false a now =
     (\<lambda>s. case attachReservationToOrder a now s of
          Inr (_, s') \<Rightarrow> Inr (True, s')
        | Inl (Thrown _) \<Rightarrow> Inr (False, s)
        | Inl UniqueViolation \<Rightarrow> Inl UniqueViolation
        | Inl DbFault \<Rightarrow> Inl DbFault)"

definition bot_claim :: "ReservationClaimArgs \<Rightarrow> reservation_callback" where
  "bot_claim r checkoutId orderId now =
     tx_bind (claimReservationForCheckout r checkoutId now) (\<lambda>claimed.
     if \<not> claimed then tx_return False
     else attach_or_false
            \<lparr>rb_reservationId = rc_reservationId r, rb_userId = rc_userId r,
             rb_checkoutSessionId = checkoutId, rb_panelId = rc_panelId r,
             rb_normalizedUsername = rc_normalizedUsername r, rb_orderId = orderId\<rparr> now)"

text \<open>The Mini App: bind the reservation the frozen snapshot names.\<close>

definition miniapp_claim :: "json_obj \<Rightarrow> string \<Rightarrow> reservation_callback" where
  "miniapp_claim captured userId checkoutId orderId now =
     (\<lambda>s. case bindSettledReservationFromSnapshot captured userId checkoutId orderId now s of
          Inr (r, s') \<Rightarrow> Inr (r = Bound_ok, s')
        | Inl (Thrown _) \<Rightarrow> Inl (Thrown (CallbackError ''reservation''))
        | Inl UniqueViolation \<Rightarrow> Inl UniqueViolation
        | Inl DbFault \<Rightarrow> Inl DbFault)"

section \<open>The interface of the reservation callbacks\<close>

text \<open>What the settlement relies on: the callback writes no table but the reservations, draws no
  identifier, and keeps their invariant.\<close>

definition only_reservations :: "db \<Rightarrow> db \<Rightarrow> bool" where
  "only_reservations s s' \<longleftrightarrow> s' = s\<lparr>reservations := reservations s'\<rparr>"

lemma only_reservations_refl [simp]: "only_reservations s s"
  by (simp add: only_reservations_def)

lemma only_reservations_trans:
  "only_reservations s t \<Longrightarrow> only_reservations t v \<Longrightarrow> only_reservations s v"
  by (cases s; cases t; cases v) (simp add: only_reservations_def)

lemma only_reservations_keeps:
  assumes "only_reservations s s'"
  shows "users s' = users s" "checkouts s' = checkouts s" "payments s' = payments s"
    "orders s' = orders s" "wallet_txs s' = wallet_txs s" "discounts s' = discounts s"
    "usages s' = usages s" "services s' = services s" "events s' = events s"
    "categories s' = categories s" "panels s' = panels s" "products s' = products s"
    "lb_states s' = lb_states s" "notifications s' = notifications s" "settings s' = settings s"
    "uuids s' = uuids s" "drawn s' = drawn s"
    "idem_rows s' = idem_rows s" "admins s' = admins s" "support_tickets s' = support_tickets s"
    "support_messages s' = support_messages s" "support_intents s' = support_intents s"
    "support_recipients s' = support_recipients s" "terms_documents s' = terms_documents s"
    "terms_acceptances s' = terms_acceptances s" "channels s' = channels s" "system_logs s' = system_logs s"
    "log_topics s' = log_topics s" "log_deliveries s' = log_deliveries s"
  using assms by (cases s; cases s'; simp add: only_reservations_def)+

locale reservation_claimer =
  fixes claim :: reservation_callback
  assumes frame: "claim checkoutId orderId now s = Inr (b, s') \<Longrightarrow> only_reservations s s'"
    and keeps: "claim checkoutId orderId now s = Inr (b, s') \<Longrightarrow> rv_ok s \<Longrightarrow> rv_ok s'"
begin

lemma no_money: "claim checkoutId orderId now s = Inr (b, s') \<Longrightarrow>
    users s' = users s \<and> payments s' = payments s \<and> wallet_txs s' = wallet_txs s"
  by (simp add: only_reservations_keeps [OF frame])

lemma hold_frame:
  "claim_hold (Some claim) checkoutId orderId now s = Inr (x, s') \<Longrightarrow>
     only_reservations s s' \<and> (rv_ok s \<longrightarrow> rv_ok s')"
  using frame keeps by (auto simp: claim_hold_def tx_success)

end

lemma claim_frame: "claimReservationForCheckout r c now s = Inr (b, s') \<Longrightarrow> only_reservations s s'"
  by (auto simp: claimReservationForCheckout_def tx_success update_reservations_def only_reservations_def)

lemma attach_frame: "attachReservationToOrder a now s = Inr (u, s') \<Longrightarrow> only_reservations s s'"
  by (auto simp: attachReservationToOrder_def tx_success update_reservations_def only_reservations_def
      split: if_splits)

lemma attach_or_false_ok:
  assumes "attach_or_false a now s = Inr (b, s')"
  shows "only_reservations s s'" and "rv_ok s \<Longrightarrow> rv_ok s'"
proof -
  have "s' = s \<or> (\<exists>u. attachReservationToOrder a now s = Inr (u, s'))"
    using assms by (auto simp: attach_or_false_def split: sum.splits thrown.splits)
  then show "only_reservations s s'" and "rv_ok s \<Longrightarrow> rv_ok s'"
    using attach_frame attach_ok [THEN post_Inr] only_reservations_refl by blast+
qed

interpretation bot: reservation_claimer "bot_claim r" for r
proof
  fix c oid now s b s'
  assume e: "bot_claim r c oid now s = Inr (b, s')"
  let ?a = "\<lparr>rb_reservationId = rc_reservationId r, rb_userId = rc_userId r,
      rb_checkoutSessionId = c, rb_panelId = rc_panelId r,
      rb_normalizedUsername = rc_normalizedUsername r, rb_orderId = oid\<rparr>"
  from e obtain ok s1 where s1: "(claimReservationForCheckout r c now :: (settle_exn, bool) tx) s = Inr (ok, s1)"
    and e: "(if \<not> ok then tx_return False else attach_or_false ?a now) s1 = Inr (b, s')"
    unfolding bot_claim_def tx_bind_Inr by blast
  have rest: "s' = s1 \<or> attach_or_false ?a now s1 = Inr (b, s')"
    using e by (cases ok) (simp_all add: tx_success)
  show "only_reservations s s'"
    using claim_frame [OF s1] rest attach_or_false_ok(1) only_reservations_trans by blast
  assume "rv_ok s"
  then have "rv_ok s1" using claim_ok [THEN post_Inr, OF _ s1] by blast
  then show "rv_ok s'" using rest attach_or_false_ok(2) by blast
qed

interpretation miniapp: reservation_claimer "miniapp_claim captured userId" for captured userId
proof
  fix c oid now s b s'
  assume "miniapp_claim captured userId c oid now s = Inr (b, s')"
  then obtain r where e: "bindSettledReservationFromSnapshot captured userId c oid now s = Inr (r, s')"
    by (auto simp: miniapp_claim_def split: sum.splits prod.splits thrown.splits)
  then show "only_reservations s s'"
    by (auto simp: bindSettledReservationFromSnapshot_def tx_success dest: attach_frame
        split: option.splits sum.splits prod.splits thrown.splits reservation_error.splits)
  assume "rv_ok s"
  then show "rv_ok s'" using bind_settled_ok [THEN post_Inr, OF _ e] by blast
qed

text \<open>The callback of a settlement, when it has one, keeps that interface.\<close>

definition framed_callback :: "WalletSettlementArgs \<Rightarrow> bool" where
  "framed_callback args \<longleftrightarrow>
     (case sa_claimReservation args of None \<Rightarrow> True | Some f \<Rightarrow> reservation_claimer f)"

lemma claim_hold_frame:
  assumes "framed_callback args"
    and "claim_hold (sa_claimReservation args) c oid now s = Inr (x, s')"
  shows "only_reservations s s' \<and> (rv_ok s \<longrightarrow> rv_ok s')"
  using assms reservation_claimer.hold_frame
  by (cases "sa_claimReservation args") (auto simp: framed_callback_def claim_hold_def tx_success)

section \<open>What each statement does\<close>

definition ids_ok :: "db \<Rightarrow> bool" where
  "ids_ok s \<longleftrightarrow> inj (uuids s) \<and> unique_by u_id (users s) \<and> unique_by dc_id (discounts s)
     \<and> unique_by co_id (checkouts s) \<and> fresh_for co_id (checkouts s) s
     \<and> unique_by pay_id (payments s) \<and> fresh_for pay_id (payments s) s
     \<and> unique_by o_id (orders s) \<and> fresh_for o_id (orders s) s
     \<and> (\<forall>t \<in> set (wallet_txs s). fk pay_id (payments s) (wt_relatedPaymentId t))"

lemma create_checkout_Inr:
  "create_checkout r s = Inr x \<Longrightarrow> x = (r, s\<lparr>checkouts := checkouts s @ [r]\<rparr>)"
  by (auto simp: create_checkout_def split: if_splits)

lemma create_payment_Inr:
  "create_payment r s = Inr x \<Longrightarrow> x = (r, s\<lparr>payments := payments s @ [r]\<rparr>)
     \<and> \<not> clash pay_idempotencyKey (payments s) (pay_idempotencyKey r)"
  by (auto simp: create_payment_def split: if_splits)

lemma create_order_Inr:
  "create_order r s = Inr x \<Longrightarrow> x = (r, s\<lparr>orders := orders s @ [r]\<rparr>)"
  by (auto simp: create_order_def split: if_splits)

lemma create_wallet_tx_Inr:
  "create_wallet_tx r s = Inr x \<Longrightarrow> x = (r, s\<lparr>wallet_txs := wallet_txs s @ [r]\<rparr>)"
  by (auto simp: create_wallet_tx_def split: if_splits)

lemma set_settled_by_Inr:
  "set_settled_by c p s = Inr x \<Longrightarrow>
     x = ((), s\<lparr>checkouts := update_where (\<lambda>r. co_id r = c)
       (\<lambda>r. r\<lparr>co_settledByPaymentId := Some p\<rparr>) (checkouts s)\<rparr>)"
  by (auto simp: set_settled_by_def split: if_splits)

lemma new_checkout_simps [simp]:
  "co_id (new_checkout args am m now i) = i"
  "co_settledByPaymentId (new_checkout args am m now i) = None"
  by (auto simp: new_checkout_def split: prod.splits)

lemma new_payment_simps [simp]:
  "pay_id (new_payment args f fp now c i) = i"
  "pay_orderId (new_payment args f fp now c i) = None"
  "pay_idempotencyKey (new_payment args f fp now c i) = Some (sa_idempotencyKey args)"
  "pay_checkoutSessionId (new_payment args f fp now c i) = Some c"
  "pay_callbackPayload (new_payment args f fp now c i) = Some (wallet_payload fp)"
  by (simp_all add: new_payment_def)

lemma new_order_simps [simp]:
  "o_id (new_order args am now c p i) = i"
  "o_checkoutSessionId (new_order args am now c p i) = Some c"
  "o_userId (new_order args am now c p i) = sa_userId args"
  by (auto simp: new_order_def Let_def split: prod.splits)

lemma spend_row_simps [simp]:
  "wt_relatedPaymentId (spend_row now u f b oid pid i) = Some pid"
  "wt_reason (spend_row now u f b oid pid i) = Some WALLET_ORDER_PAYMENT_REASON"
  "wt_balanceAfterToman (spend_row now u f b oid pid i) = b"
  "wt_balanceBeforeToman (spend_row now u f b oid pid i) = b + f"
  "wt_amountToman (spend_row now u f b oid pid i) = f" "wt_userId (spend_row now u f b oid pid i) = u"
  by (simp_all add: spend_row_def)

lemma paid_at_simps [simp]: "co_id (paid_at now c) = co_id c"
  by (simp add: paid_at_def)

lemma debited_simps [simp]:
  "u_id (debited d f u) = u_id u" "u_balanceToman (debited d f u) = u_balanceToman u - f"
  "u_status (debited d f u) = u_status u"
  by (simp_all add: debited_def)

text \<open>The checkout a settlement takes, and the table it leaves.\<close>

definition taken :: "WalletSettlementArgs \<Rightarrow> int \<times> int \<times> int \<Rightarrow> int \<Rightarrow> int \<Rightarrow> db \<Rightarrow>
  checkout_row \<Rightarrow> checkout_row list \<Rightarrow> bool" where
  "taken args amounts minutes now s c table \<longleftrightarrow>
     (case sa_existingCheckoutId args of
        None \<Rightarrow> c = new_checkout args amounts minutes now (uuids s (drawn s))
          \<and> table = checkouts s @ [c]
      | Some k \<Rightarrow> (\<exists>c0 \<in> set (checkouts s). draft_settleable args (snd (snd amounts)) now k c0
            \<and> c = paid_at now c0)
          \<and> table = update_where (draft_settleable args (snd (snd amounts)) now k) (paid_at now)
              (checkouts s))"

lemma count_pos: "count_where P t \<noteq> 0 \<Longrightarrow> \<exists>r \<in> set t. P r"
  by (auto simp: count_where_0)

lemma tx_bind_InrE:
  assumes "tx_bind m f s = Inr x"
  obtains a s1 where "m s = Inr (a, s1)" and "f a s1 = Inr x"
  using assms by (auto simp: tx_bind_Inr)

lemma read_row_Inr:
  "tx_bind (tx_read F) (\<lambda>row. tx_some row e) s = Inr x \<longleftrightarrow> (\<exists>v. F s = Some v \<and> x = (v, s))"
  by (auto simp: tx_success)

lemma read_value_Inr:
  "tx_bind (tx_read F) (\<lambda>row. tx_bind (tx_some row e) (\<lambda>u. tx_return (g u))) s = Inr x
     \<longleftrightarrow> (\<exists>v. F s = Some v \<and> x = (g v, s))"
  by (auto simp: tx_success)

lemma guarded_Inr:
  "(if b then tx_fail e else m) s = Inr x \<longleftrightarrow> \<not> b \<and> m s = Inr x"
  by (simp add: tx_fail_Inr)

lemma take_checkout_Inr:
  assumes "take_checkout args am minutes now s = Inr (c, s')" and "unique_by co_id (checkouts s)"
  shows "taken args am minutes now s c (checkouts s')
    \<and> s' = s\<lparr>checkouts := checkouts s', drawn := drawn s'\<rparr> \<and> drawn s \<le> drawn s'"
proof (cases "sa_existingCheckoutId args")
  case None
  then show ?thesis
    using assms(1)
    by (auto simp: take_checkout_def tx_bind_Inr tx_do_Inr draw_id_def taken_def
        dest!: create_checkout_Inr)
next
  case (Some k)
  let ?P = "draft_settleable args (snd (snd am)) now k"
  let ?s = "s\<lparr>checkouts := update_where ?P (paid_at now) (checkouts s)\<rparr>"
  from assms(1) [unfolded take_checkout_def Some option.case] obtain n s1
    where "(tx_do (update_checkouts ?P (paid_at now)) :: (settle_exn, nat) tx) s = Inr (n, s1)"
    and r: "(if n \<noteq> 1 then tx_fail (Thrown (SettlementAbort DRAFT_STALE))
        else tx_bind (tx_read (\<lambda>s. find (\<lambda>c. co_id c = k) (checkouts s)))
          (\<lambda>row. tx_some row DbFault)) s1 = Inr (c, s')"
    by (rule tx_bind_InrE)
  then have n: "n = count_where ?P (checkouts s)" and s1: "s1 = ?s"
    by (simp_all add: tx_do_Inr update_checkouts_def)
  from r have c: "find (\<lambda>c. co_id c = k) (checkouts s1) = Some c" and n1: "n = 1" and s': "s' = s1"
    unfolding guarded_Inr read_row_Inr by blast+
  have n: "count_where ?P (checkouts s) = 1" using n n1 by simp
  have c: "find (\<lambda>c. co_id c = k) (update_where ?P (paid_at now) (checkouts s)) = Some c"
    using c s1 by simp
  have "\<exists>c0 \<in> set (checkouts s). ?P c0" using n by (intro count_pos) linarith
  then obtain c0 where c0: "c0 \<in> set (checkouts s)" "?P c0" by blast
  then have "find (\<lambda>c. co_id c = k) (checkouts s) = Some c0"
    using find_unique [OF assms(2) c0(1)] by (simp add: draft_settleable_def)
  with c c0 have "c = paid_at now c0" by (simp add: find_update_where)
  with Some c0 s' s1 show ?thesis by (auto simp: taken_def)
qed

lemma link_order_Inr:
  "link_order pid oid s = Inr (p, s') \<Longrightarrow>
     (\<exists>q. find (\<lambda>p. pay_id p = pid) (payments s) = Some q \<and> p = q\<lparr>pay_orderId := Some oid\<rparr>)
     \<and> s' = s\<lparr>payments := update_where (\<lambda>p. pay_id p = pid)
         (\<lambda>p. p\<lparr>pay_orderId := Some oid\<rparr>) (payments s)\<rparr>"
  by (auto simp: link_order_def tx_success)

lemma deduct_Inr:
  assumes "deduct uid d f s = Inr (b, s')" and "unique_by u_id (users s)"
  shows "\<exists>u. find (\<lambda>u. u_id u = uid) (users s) = Some u \<and> f \<le> u_balanceToman u
    \<and> user_fits (debited d f u) \<and> b = u_balanceToman u - f
    \<and> s' = s\<lparr>users := update_where (\<lambda>u. u_id u = uid) (debited d f) (users s)\<rparr>"
proof -
  let ?P = "\<lambda>u. u_id u = uid \<and> f \<le> u_balanceToman u"
  let ?s = "s\<lparr>users := update_where ?P (debited d f) (users s)\<rparr>"
  from assms(1) obtain n s1 where u1: "(update_users ?P (debited d f) :: (settle_exn, nat) tx) s = Inr (n, s1)"
    and r: "(if n \<noteq> 1 then tx_fail (Thrown (SettlementAbort INSUFFICIENT_BALANCE))
       else tx_bind (tx_read (\<lambda>s. find (\<lambda>u. u_id u = uid) (users s))) (\<lambda>row.
         tx_bind (tx_some row DbFault) (\<lambda>u. tx_return (u_balanceToman u)))) s1 = Inr (b, s')"
    unfolding deduct_def by (rule tx_bind_InrE)
  from u1 have n: "n = count_where ?P (users s)" and s1: "s1 = ?s"
    and fits: "\<forall>u \<in> set (users s). ?P u \<longrightarrow> user_fits (debited d f u)"
    by (simp_all add: update_users_def split: if_splits)
  obtain v where n1: "n = 1" and v: "find (\<lambda>u. u_id u = uid) (users s1) = Some v"
    and b: "b = u_balanceToman v" and s': "s' = s1"
    using r unfolding guarded_Inr read_value_Inr by blast
  have n: "count_where ?P (users s) = 1" using n n1 by simp
  have v: "find (\<lambda>u. u_id u = uid) (update_where ?P (debited d f) (users s)) = Some v"
    using v s1 by simp
  have "\<exists>u \<in> set (users s). ?P u" using n by (intro count_pos) linarith
  then obtain u where u: "u \<in> set (users s)" "?P u" by blast
  then have find: "find (\<lambda>u. u_id u = uid) (users s) = Some u"
    using find_unique [OF assms(2) u(1)] by simp
  have "?P x \<longleftrightarrow> u_id x = uid" if "x \<in> set (users s)" for x
    using unique_by_inj [OF assms(2) that u(1)] u(2) by auto
  then have "update_where ?P (debited d f) (users s)
      = update_where (\<lambda>u. u_id u = uid) (debited d f) (users s)"
    by (auto simp: update_where_def)
  moreover have "v = debited d f u" using v find u by (simp add: find_update_where)
  ultimately show ?thesis using find u fits s' s1 b by simp
qed

definition discount_effect :: "int \<Rightarrow> claim_args \<Rightarrow> db \<Rightarrow> db \<Rightarrow> bool" where
  "discount_effect now a s s' \<longleftrightarrow>
     (if \<exists>u \<in> set (usages s). du_checkoutSessionId u = Some (ca_checkoutSessionId a)
      then usages s' = usages s \<and> discounts s' = discounts s
      else claim_allowed now a s \<and> int4 (ca_amountToman a)
        \<and> (\<exists>i. usages s' = usages s @ [claim_row a i])
        \<and> discounts s' = update_where (\<lambda>r. dc_id r = ca_discountCodeId a \<and> dc_isActive r)
            (\<lambda>r. r\<lparr>dc_totalUsedCount := dc_totalUsedCount r + 1\<rparr>) (discounts s))"

definition discount_claim :: "WalletSettlementArgs \<Rightarrow> int \<Rightarrow> string \<Rightarrow> string \<Rightarrow> claim_args option" where
  "discount_claim args discount orderId checkoutId =
     (case sa_discountCodeId args of
        None \<Rightarrow> None
      | Some codeId \<Rightarrow> if discount \<le> 0 then None
          else Some \<lparr>ca_discountCodeId = codeId, ca_userId = sa_userId args, ca_orderId = orderId,
                  ca_checkoutSessionId = checkoutId, ca_amountToman = discount\<rparr>)"

lemma claim_discount_Inr:
  assumes "claim_discount args d oid cid now s = Inr (x, s')" and "unique_by dc_id (discounts s)"
  shows "(case discount_claim args d oid cid of
       None \<Rightarrow> usages s' = usages s \<and> discounts s' = discounts s
     | Some a \<Rightarrow> discount_effect now a s s')
    \<and> s' = s\<lparr>usages := usages s', discounts := discounts s', drawn := drawn s'\<rparr>
    \<and> drawn s \<le> drawn s'"
proof (cases "discount_claim args d oid cid")
  case None
  then show ?thesis
    using assms(1) by (auto simp: claim_discount_def discount_claim_def tx_success split: option.splits if_splits)
next
  case (Some a)
  then have "\<exists>r. (claimDiscountUsage now a :: (settle_exn, DiscountClaimOutcome) tx) s = Inr (r, s') \<and> r \<noteq> CLAIM_FAILED"
    using assms(1)
    by (auto simp: claim_discount_def discount_claim_def tx_success tx_if_Inr split: option.splits if_splits)
  then show ?thesis
    using Some by (auto simp: claimDiscountUsage_exact [OF assms(2)] discount_effect_def claimed_db_def
        split: if_splits)
qed

section \<open>What a settlement does\<close>

lemma settle_chain:
  assumes "settle_transaction args am fp minutes now s = Inr (r, s')"
  obtains c s1 pid s2 payment s3 s4 oid s5 order s6 s7 settledPayment s8 balance s9 wid s10 t s11 s12 x y z
  where "take_checkout args am minutes now s = Inr (c, s1)"
    and "draw_id s1 = (pid, s2)"
    and "(create_payment (new_payment args (snd (snd am)) fp now (co_id c) pid)
           :: (settle_exn, payment_row) tx) s2 = Inr (payment, s3)"
    and "(set_settled_by (co_id c) (pay_id payment) :: (settle_exn, unit) tx) s3 = Inr (x, s4)"
    and "draw_id s4 = (oid, s5)"
    and "(create_order (new_order args am now (co_id c) (pay_id payment) oid)
           :: (settle_exn, order_row) tx) s5 = Inr (order, s6)"
    and "(case find (\<lambda>u. u_id u = sa_userId args) (users s6) of None \<Rightarrow> False
          | Some u \<Rightarrow> u_status u = UserStatus_ACTIVE)"
    and "claim_hold (sa_claimReservation args) (co_id c) (o_id order) now s6 = Inr (y, s7)"
    and "link_order (pay_id payment) (o_id order) s7 = Inr (settledPayment, s8)"
    and "deduct (sa_userId args) (fst (snd am)) (snd (snd am)) s8 = Inr (balance, s9)"
    and "draw_id s9 = (wid, s10)"
    and "(create_wallet_tx (spend_row now (sa_userId args) (snd (snd am)) balance (o_id order) (pay_id payment) wid)
           :: (settle_exn, wallet_tx_row) tx) s10 = Inr (t, s11)"
    and "(onWalletBalanceChanged now \<lparr>oa_userId = sa_userId args,
           oa_balanceBeforeToman = Some (balance + snd (snd am)), oa_balanceAfterToman = balance\<rparr>
           :: (settle_exn, unit) tx) s11 = Inr (z, s12)"
    and "claim_discount args (fst (snd am)) (o_id order) (co_id c) now s12 = Inr ((), s')"
    and "r = \<lparr>ws_order = order, ws_payment = settledPayment, ws_checkout = c,
        ws_walletTransaction = t, ws_newBalanceToman = balance, ws_alreadyPaid = False\<rparr>"
  using assms unfolding settle_transaction_def Let_def require_active_payer_def
    tx_bind_Inr tx_then_Inr tx_return_Inr tx_do_Inr tx_require_Inr tx_read_Inr
  by (elim exE conjE) (simp, metis (no_types, lifting))

text \<open>
  The complete effect of a settlement on the database: the checkout taken and owned by the new
  payment, one payment, one order and one ledger row appended, the payer debited, the reservation
  claimed, the discount counted, the low-balance observer told of the debit, and no other table touched.
\<close>

definition claim_effect ::
  "WalletSettlementArgs \<Rightarrow> string \<Rightarrow> string \<Rightarrow> int \<Rightarrow> db \<Rightarrow> db \<Rightarrow> bool" where
  "claim_effect args checkoutId orderId now s s' \<longleftrightarrow>
     (case sa_claimReservation args of
        None \<Rightarrow> reservations s' = reservations s
      | Some f \<Rightarrow> \<exists>t t'. f checkoutId orderId now t = Inr (True, t')
          \<and> reservations t = reservations s \<and> reservations s' = reservations t'
          \<and> uuids t = uuids s \<and> drawn s \<le> drawn t \<and> drawn t \<le> drawn s')"

text \<open>
  The low-balance tables are those that the observer makes of the tables before, when it sees the debited
  balance; of the rest of the database it reads the users and the settings.
\<close>

definition alert_effect :: "WalletSettlementArgs \<Rightarrow> int \<Rightarrow> int \<Rightarrow> int \<Rightarrow> db \<Rightarrow> db \<Rightarrow> bool" where
  "alert_effect args before after now s s' \<longleftrightarrow>
     (\<exists>t t'. (onWalletBalanceChanged now \<lparr>oa_userId = sa_userId args, oa_balanceBeforeToman = Some before,
            oa_balanceAfterToman = after\<rparr> :: (settle_exn, unit) tx) t = Inr ((), t')
        \<and> lb_states t = lb_states s \<and> notifications t = notifications s
        \<and> users t = users s' \<and> settings t = settings s
        \<and> uuids t = uuids s \<and> drawn s \<le> drawn t \<and> drawn t' \<le> drawn s'
        \<and> lb_states s' = lb_states t' \<and> notifications s' = notifications t')"

definition other_tables_kept :: "db \<Rightarrow> db \<Rightarrow> bool" where
  "other_tables_kept s s' \<longleftrightarrow>
     services s' = services s \<and> events s' = events s \<and> categories s' = categories s
     \<and> panels s' = panels s \<and> products s' = products s \<and> settings s' = settings s
     \<and> idem_rows s' = idem_rows s \<and> admins s' = admins s
     \<and> support_tickets s' = support_tickets s \<and> support_messages s' = support_messages s
     \<and> support_intents s' = support_intents s \<and> support_recipients s' = support_recipients s
     \<and> terms_documents s' = terms_documents s \<and> terms_acceptances s' = terms_acceptances s
     \<and> channels s' = channels s \<and> system_logs s' = system_logs s
     \<and> log_topics s' = log_topics s \<and> log_deliveries s' = log_deliveries s
     \<and> uuids s' = uuids s"

definition settled ::
  "WalletSettlementArgs \<Rightarrow> int \<times> int \<times> int \<Rightarrow> string \<Rightarrow> int \<Rightarrow> int \<Rightarrow> db \<Rightarrow>
   WalletSettlementSuccess \<Rightarrow> db \<Rightarrow> bool" where
  "settled args am fp minutes now s r s' \<longleftrightarrow>
     (\<exists>u table pid oid wid.
        find (\<lambda>u. u_id u = sa_userId args) (users s) = Some u
      \<and> u_status u = UserStatus_ACTIVE \<and> snd (snd am) \<le> u_balanceToman u
      \<and> taken args am minutes now s (ws_checkout r) table
      \<and> ws_payment r = (new_payment args (snd (snd am)) fp now (co_id (ws_checkout r)) pid)
          \<lparr>pay_orderId := Some oid\<rparr>
      \<and> ws_order r = new_order args am now (co_id (ws_checkout r)) pid oid
      \<and> ws_walletTransaction r = spend_row now (sa_userId args) (snd (snd am))
          (u_balanceToman u - snd (snd am)) oid pid wid
      \<and> ws_newBalanceToman r = u_balanceToman u - snd (snd am) \<and> \<not> ws_alreadyPaid r
      \<and> users s' = update_where (\<lambda>x. u_id x = sa_userId args) (debited (fst (snd am)) (snd (snd am)))
          (users s)
      \<and> checkouts s' = update_where (\<lambda>c. co_id c = co_id (ws_checkout r))
          (\<lambda>c. c\<lparr>co_settledByPaymentId := Some pid\<rparr>) table
      \<and> payments s' = payments s @ [ws_payment r]
      \<and> orders s' = orders s @ [ws_order r]
      \<and> wallet_txs s' = wallet_txs s @ [ws_walletTransaction r]
      \<and> (\<forall>p \<in> set (payments s). pay_idempotencyKey p \<noteq> Some (sa_idempotencyKey args))
      \<and> pid \<notin> pay_id ` set (payments s) \<and> oid \<notin> o_id ` set (orders s)
      \<and> {pid, oid} \<subseteq> uuids s ` {drawn s..<drawn s'}
      \<and> claim_effect args (co_id (ws_checkout r)) oid now s s'
      \<and> (case discount_claim args (fst (snd am)) oid (co_id (ws_checkout r)) of
           None \<Rightarrow> usages s' = usages s \<and> discounts s' = discounts s
         | Some a \<Rightarrow> discount_effect now a s s')
      \<and> wid \<in> uuids s ` {drawn s..<drawn s'}
      \<and> alert_effect args (u_balanceToman u) (u_balanceToman u - snd (snd am)) now s s'
      \<and> other_tables_kept s s')"

lemma settledE:
  assumes "settled args am fp minutes now s r s'"
  obtains u table pid oid wid
  where "find (\<lambda>u. u_id u = sa_userId args) (users s) = Some u"
    and "u_status u = UserStatus_ACTIVE"
    and "snd (snd am) \<le> u_balanceToman u"
    and "taken args am minutes now s (ws_checkout r) table"
    and "ws_payment r = (new_payment args (snd (snd am)) fp now (co_id (ws_checkout r)) pid)
          \<lparr>pay_orderId := Some oid\<rparr>"
    and "ws_order r = new_order args am now (co_id (ws_checkout r)) pid oid"
    and "ws_walletTransaction r = spend_row now (sa_userId args) (snd (snd am))
          (u_balanceToman u - snd (snd am)) oid pid wid"
    and "ws_newBalanceToman r = u_balanceToman u - snd (snd am)"
    and "\<not> ws_alreadyPaid r"
    and "users s' = update_where (\<lambda>x. u_id x = sa_userId args) (debited (fst (snd am)) (snd (snd am)))
          (users s)"
    and "checkouts s' = update_where (\<lambda>c. co_id c = co_id (ws_checkout r))
          (\<lambda>c. c\<lparr>co_settledByPaymentId := Some pid\<rparr>) table"
    and "payments s' = payments s @ [ws_payment r]"
    and "orders s' = orders s @ [ws_order r]"
    and "wallet_txs s' = wallet_txs s @ [ws_walletTransaction r]"
    and "(\<forall>p \<in> set (payments s). pay_idempotencyKey p \<noteq> Some (sa_idempotencyKey args))"
    and "pid \<notin> pay_id ` set (payments s)"
    and "oid \<notin> o_id ` set (orders s)"
    and "{pid, oid} \<subseteq> uuids s ` {drawn s..<drawn s'}"
    and "claim_effect args (co_id (ws_checkout r)) oid now s s'"
    and "(case discount_claim args (fst (snd am)) oid (co_id (ws_checkout r)) of
           None \<Rightarrow> usages s' = usages s \<and> discounts s' = discounts s
         | Some a \<Rightarrow> discount_effect now a s s')"
    and "wid \<in> uuids s ` {drawn s..<drawn s'}"
    and "alert_effect args (u_balanceToman u) (u_balanceToman u - snd (snd am)) now s s'"
    and "other_tables_kept s s'"
  using assms unfolding settled_def by (elim exE conjE) (rule that, assumption+)

lemma usage_count_cong: "usages t = usages s \<Longrightarrow> usage_count t = usage_count s"
  by (intro ext) (simp add: usage_count_def)

lemma claim_allowed_cong:
  assumes "usages t = usages s" and "discounts t = discounts s"
  shows "claim_allowed now a t = claim_allowed now a s"
  unfolding claim_allowed_def usage_count_cong [OF assms(1)] assms(2) ..

lemma discount_effect_cong:
  "discount_effect now a t v \<Longrightarrow> usages t = usages s \<Longrightarrow> discounts t = discounts s \<Longrightarrow>
     discount_effect now a s v"
  using claim_allowed_cong [of t s] by (auto simp: discount_effect_def split: if_splits)

lemma claim_hold_effect:
  assumes "claim_hold (sa_claimReservation args) c oid now t = Inr (y, t')"
    and "reservations t = reservations s" and "reservations s' = reservations t'"
    and "uuids t = uuids s" and "drawn s \<le> drawn t" and "drawn t \<le> drawn s'"
  shows "claim_effect args c oid now s s'"
proof (cases "sa_claimReservation args")
  case None
  with assms show ?thesis by (auto simp: claim_hold_def claim_effect_def tx_success)
next
  case (Some f)
  with assms(1) have "f c oid now t = Inr (True, t')" by (auto simp: claim_hold_def tx_success)
  with Some assms(2-6) show ?thesis unfolding claim_effect_def Some by auto
qed

lemma draw_id_Pair: "draw_id s = (i, s') \<longleftrightarrow> i = uuids s (drawn s) \<and> s' = s\<lparr>drawn := Suc (drawn s)\<rparr>"
  by (auto simp: draw_id_def)

lemma update_last:
  assumes "k r \<notin> k ` set t"
  shows "update_where (\<lambda>x. k x = k r) f (t @ [r]) = t @ [f r]"
  using assms by (auto simp: update_where_def image_iff intro!: map_idI)

lemma find_last: "k r \<notin> k ` set t \<Longrightarrow> find (\<lambda>x. k x = k r) (t @ [r]) = Some r"
proof -
  assume "k r \<notin> k ` set t"
  then have "find (\<lambda>x. k x = k r) t = None" by (auto simp: find_None_all image_iff)
  then show ?thesis by (simp add: find_append)
qed

lemma settle_transaction_settles:
  assumes success: "settle_transaction args am fp minutes now s = Inr (r, s')"
    and ids: "ids_ok s" and framed: "framed_callback args"
  shows "settled args am fp minutes now s r s'"
  using success
proof (rule settle_chain)
  fix c s1 pid s2 payment s3 s4 oid s5 order s6 s7 settledPayment s8 balance s9 wid s10 t s11 s12 x y z
  assume take: "take_checkout args am minutes now s = Inr (c, s1)"
    and d1: "draw_id s1 = (pid, s2)"
    and pay: "(create_payment (new_payment args (snd (snd am)) fp now (co_id c) pid)
           :: (settle_exn, payment_row) tx) s2 = Inr (payment, s3)"
    and own: "(set_settled_by (co_id c) (pay_id payment) :: (settle_exn, unit) tx) s3 = Inr (x, s4)"
    and d2: "draw_id s4 = (oid, s5)"
    and ord: "(create_order (new_order args am now (co_id c) (pay_id payment) oid)
           :: (settle_exn, order_row) tx) s5 = Inr (order, s6)"
    and payer: "case find (\<lambda>u. u_id u = sa_userId args) (users s6) of None \<Rightarrow> False
          | Some u \<Rightarrow> u_status u = UserStatus_ACTIVE"
    and claim: "claim_hold (sa_claimReservation args) (co_id c) (o_id order) now s6 = Inr (y, s7)"
    and link: "link_order (pay_id payment) (o_id order) s7 = Inr (settledPayment, s8)"
    and ded: "deduct (sa_userId args) (fst (snd am)) (snd (snd am)) s8 = Inr (balance, s9)"
    and d3: "draw_id s9 = (wid, s10)"
    and wt: "(create_wallet_tx (spend_row now (sa_userId args) (snd (snd am)) balance (o_id order) (pay_id payment) wid)
           :: (settle_exn, wallet_tx_row) tx) s10 = Inr (t, s11)"
    and obs: "(onWalletBalanceChanged now \<lparr>oa_userId = sa_userId args,
           oa_balanceBeforeToman = Some (balance + snd (snd am)), oa_balanceAfterToman = balance\<rparr>
           :: (settle_exn, unit) tx) s11 = Inr (z, s12)"
    and disc: "claim_discount args (fst (snd am)) (o_id order) (co_id c) now s12 = Inr ((), s')"
    and r: "r = \<lparr>ws_order = order, ws_payment = settledPayment, ws_checkout = c,
        ws_walletTransaction = t, ws_newBalanceToman = balance, ws_alreadyPaid = False\<rparr>"
  have uniq: "unique_by co_id (checkouts s)" "unique_by u_id (users s)" "unique_by dc_id (discounts s)"
    and fresh: "fresh_for pay_id (payments s) s" "fresh_for o_id (orders s) s"
    using ids by (simp_all add: ids_ok_def)
  note S1 = take_checkout_Inr [OF take uniq(1)]
  have s2: "pid = uuids s1 (drawn s1)" "s2 = s1\<lparr>drawn := Suc (drawn s1)\<rparr>"
    using d1 by (simp_all add: draw_id_Pair)
  have s5: "oid = uuids s4 (drawn s4)" "s5 = s4\<lparr>drawn := Suc (drawn s4)\<rparr>"
    using d2 by (simp_all add: draw_id_Pair)
  have s10: "wid = uuids s9 (drawn s9)" "s10 = s9\<lparr>drawn := Suc (drawn s9)\<rparr>"
    using d3 by (simp_all add: draw_id_Pair)
  note s3 = create_payment_Inr [OF pay] and s4 = set_settled_by_Inr [OF own]
    and s6 = create_order_Inr [OF ord] and s11 = create_wallet_tx_Inr [OF wt]
  note s7 = only_reservations_keeps [OF claim_hold_frame [OF framed claim, THEN conjunct1]]
  note s8 = link_order_Inr [OF link]
  have base: "uuids s1 = uuids s" "users s1 = users s" "payments s1 = payments s" "orders s1 = orders s"
    "wallet_txs s1 = wallet_txs s" "discounts s1 = discounts s" "usages s1 = usages s"
    "reservations s1 = reservations s" "drawn s \<le> drawn s1" "other_tables_kept s s1"
    using S1 by (cases s; cases s1; simp add: other_tables_kept_def)+
  have low: "lb_states s1 = lb_states s" "notifications s1 = notifications s" "settings s1 = settings s"
    using S1 by (cases s; cases s1; simp)+
  have pid: "pid \<notin> pay_id ` set (payments s)" and oid: "oid \<notin> o_id ` set (orders s)"
    using fresh base s2 s3 s4 s5 by (auto simp: fresh_for_def)
  have "unique_by u_id (users s8)" using uniq(2) base s2 s3 s4 s5 s6 s7 s8 by simp
  note s9 = deduct_Inr [OF ded this]
  have "only_alerts s11 s12" by (rule post_Inr [OF observer.frame obs])
  note s12 = only_alerts_keeps [OF this]
  have p7: "payments s7 = payments s @ [payment]" and pid': "pay_id payment = pid"
    and pay: "payment = new_payment args (snd (snd am)) fp now (co_id c) pid"
    using base s2 s3 s4 s5 s6 s7 by simp_all
  have "settledPayment = payment\<lparr>pay_orderId := Some oid\<rparr>"
    and p8: "payments s8 = payments s @ [payment\<lparr>pay_orderId := Some oid\<rparr>]"
    using s8 find_last [of pay_id payment "payments s"] update_last [of pay_id payment "payments s"]
      p7 pid pid' s6 by auto
  then have tables: "payments s8 = payments s @ [settledPayment]"
    "settledPayment = (new_payment args (snd (snd am)) fp now (co_id c) pid)\<lparr>pay_orderId := Some oid\<rparr>"
    by (simp_all add: pay)
  have kept: "users s8 = users s"
    "orders s8 = orders s @ [order]" "order = new_order args am now (co_id c) pid oid"
    "wallet_txs s8 = wallet_txs s" "usages s8 = usages s" "discounts s8 = discounts s"
    "users s6 = users s" "reservations s6 = reservations s" "reservations s8 = reservations s7"
    "checkouts s8 = update_where (\<lambda>r. co_id r = co_id c)
       (\<lambda>r. r\<lparr>co_settledByPaymentId := Some pid\<rparr>) (checkouts s1)"
    "o_id order = oid"
    using base s2 s3 s4 s5 s6 s7 s8 by simp_all
  have oth8: "other_tables_kept s s8"
    using base s2 s3 s4 s5 s6 s7 s8 by (simp add: other_tables_kept_def)
  obtain u where u: "find (\<lambda>u. u_id u = sa_userId args) (users s) = Some u"
    "snd (snd am) \<le> u_balanceToman u" "balance = u_balanceToman u - snd (snd am)"
    "s9 = s8\<lparr>users := update_where (\<lambda>u. u_id u = sa_userId args)
       (debited (fst (snd am)) (snd (snd am))) (users s)\<rparr>"
    using s9 kept(1) by auto
  have late: "payments s12 = payments s8" "orders s12 = orders s8" "usages s12 = usages s"
      "discounts s12 = discounts s" "reservations s12 = reservations s7" "checkouts s12 = checkouts s8"
      "users s12 = users s9" "wallet_txs s12 = wallet_txs s @ [t]" "unique_by dc_id (discounts s12)"
      "t = spend_row now (sa_userId args) (snd (snd am)) balance oid pid wid"
    using u(4) s10 s11 s12 kept uniq(3) pid' by simp_all
  have oth12: "other_tables_kept s8 s12"
    using u(4) s10 s11 s12 by (simp add: other_tables_kept_def)
  note disc' = claim_discount_Inr [OF disc late(9)]
  have final: "users s' = users s12" "payments s' = payments s12" "orders s' = orders s12"
      "wallet_txs s' = wallet_txs s12" "checkouts s' = checkouts s12" "reservations s' = reservations s12"
      "other_tables_kept s12 s'" "lb_states s' = lb_states s12" "notifications s' = notifications s12"
    using disc' by (cases s'; cases s12; simp add: other_tables_kept_def)+
  have mid: "uuids s6 = uuids s" "drawn s \<le> drawn s6" "drawn s6 \<le> drawn s'"
    using base s2 s3 s4 s5 s6 s7 s8 u(4) s10 s11 s12 disc' by simp_all
  have eff: "claim_effect args (co_id c) oid now s s'"
    using claim_hold_effect [OF claim, of s s'] kept late final mid by simp
  have "drawn s2 \<le> drawn s'" "drawn s5 \<le> drawn s'"
    using s2 s3 s4 s5 s6 s7 s8 u(4) s10 s11 s12 disc' by simp_all
  moreover have "drawn s \<le> drawn s1" "drawn s1 < drawn s2" "drawn s1 < drawn s5" "drawn s4 < drawn s5"
      "drawn s \<le> drawn s4"
    using base s2 s3 s4 s5 by simp_all
  ultimately have drawn: "{pid, oid} \<subseteq> uuids s ` {drawn s..<drawn s'}"
    using base s2 s3 s4 s5 by auto
  have act: "u_status u = UserStatus_ACTIVE" using payer kept u(1) by simp
  have key: "\<forall>p \<in> set (payments s). pay_idempotencyKey p \<noteq> Some (sa_idempotencyKey args)"
    using s3 s2 base by (auto simp: clash_def)
  have dsc: "case discount_claim args (fst (snd am)) oid (co_id c) of
        None \<Rightarrow> usages s' = usages s \<and> discounts s' = discounts s
      | Some a \<Rightarrow> discount_effect now a s s'"
    using disc' discount_effect_cong [of now _ s12 s' s] late(3,4) kept
    by (auto split: option.splits)
  have oth: "other_tables_kept s s'"
    using oth8 oth12 final(7)
    by (simp add: other_tables_kept_def)
  have "wid = uuids s (drawn s9)" "drawn s \<le> drawn s9" "drawn s9 < drawn s'"
    using base s2 s3 s4 s5 s6 s7 s8 u(4) s10 s11 s12 disc' by simp_all
  then have wid: "wid \<in> uuids s ` {drawn s..<drawn s'}" by simp
  have seen: "lb_states s11 = lb_states s \<and> notifications s11 = notifications s \<and> users s11 = users s'
      \<and> settings s11 = settings s \<and> uuids s11 = uuids s \<and> drawn s \<le> drawn s11 \<and> drawn s12 \<le> drawn s'
      \<and> lb_states s' = lb_states s12 \<and> notifications s' = notifications s12"
    using low s2 s3 s4 s5 s6 s7 s8 u(4) s10 s11 s12 disc' base mid final(1,8,9) late(7) by simp
  have alerts: "alert_effect args (u_balanceToman u) (u_balanceToman u - snd (snd am)) now s s'"
    unfolding alert_effect_def using obs seen u(3) by (intro exI [of _ s11] exI [of _ s12]) simp
  have tak: "taken args am minutes now s c (checkouts s1)" using S1 by blast
  have res: "users s' = update_where (\<lambda>x. u_id x = sa_userId args)
      (debited (fst (snd am)) (snd (snd am))) (users s)"
    "checkouts s' = update_where (\<lambda>x. co_id x = co_id c)
      (\<lambda>x. x\<lparr>co_settledByPaymentId := Some pid\<rparr>) (checkouts s1)"
    "payments s' = payments s @ [settledPayment]" "orders s' = orders s @ [order]"
    "wallet_txs s' = wallet_txs s @ [t]"
    "t = spend_row now (sa_userId args) (snd (snd am)) (u_balanceToman u - snd (snd am)) oid pid wid"
    using final late kept tables u(3,4) by simp_all
  show "settled args am fp minutes now s r s'"
    unfolding settled_def r WalletSettlementSuccess.simps
    by (intro exI [of _ u] exI [of _ "checkouts s1"] exI [of _ pid] exI [of _ oid] exI [of _ wid] conjI)
      (fact | simp)+
qed

section \<open>The call\<close>

text \<open>The database after the first \<open>n\<close> interferences.\<close>

definition elapsed :: "(nat \<Rightarrow> db \<Rightarrow> db) \<Rightarrow> nat \<Rightarrow> db \<Rightarrow> db" where
  "elapsed others n s = fold others [0..<n] s"

lemma elapsed_simps:
  "elapsed others 0 s = s" "elapsed others (Suc n) s = others n (elapsed others n s)"
  by (simp_all add: elapsed_def)

lemma elapsed_numeral:
  "others 0 s = elapsed others 1 s" "others 1 (elapsed others 1 s) = elapsed others 2 s"
  "others 2 (elapsed others 2 s) = elapsed others 3 s" "others 3 (elapsed others 3 s) = elapsed others 4 s"
  "others 4 (elapsed others 4 s) = elapsed others 5 s" "others 5 (elapsed others 5 s) = elapsed others 6 s"
  by (simp_all add: elapsed_simps eval_nat_numeral)

lemma elapsed_zero: "s = elapsed others 0 s"
  by (simp add: elapsed_simps)

lemma elapsed_id [simp]: "elapsed (\<lambda>n s. s) n s = s"
  by (induction n) (simp_all add: elapsed_simps)

lemma replay_paid:
  "loadExistingSettlement k s t = Some e \<Longrightarrow> replay_outcome fp e = Settled r \<Longrightarrow> ws_alreadyPaid r"
  by (auto simp: loadExistingSettlement_def replay_outcome_def split: option.splits if_splits)

lemma settle_cases:
  assumes "settleWalletOrder digest others args now s = (out, s')"
  shows "(\<exists>n \<le> 6. s' = elapsed others n s) \<and> (\<forall>r. out = Settled r \<longrightarrow> ws_alreadyPaid r)
    \<or> (\<exists>am r. financial_amounts args = Some am \<and> out = Settled r
        \<and> settle_transaction args am (settlementPayloadFingerprint digest args am)
            (checkoutExpiryMinutes (elapsed others 3 s)) now (elapsed others 4 s) = Inr (r, s'))"
proof (cases "financial_amounts args")
  case None
  with assms show ?thesis by (auto simp: settleWalletOrder_def intro!: exI [of _ 0] elapsed_zero)
next
  case (Some am)
  let ?fp = "settlementPayloadFingerprint digest args am"
  note unf = assms [unfolded settleWalletOrder_def Some option.case Let_def elapsed_numeral]
  show ?thesis
  proof (cases "loadExistingSettlement (sa_idempotencyKey args) s (elapsed others 1 s)")
    case (Some e)
    with unf have "out = replay_outcome ?fp e" "s' = elapsed others 1 s" by simp_all
    with replay_paid [OF Some] show ?thesis by (intro disjI1 conjI exI [of _ 1]) auto
  next
    case None
    note unf = unf [unfolded None option.case]
    let ?off = "\<not> sa_isWalletEnabled args (elapsed others 2 s)"
    let ?stale = "case (sa_existingCheckoutId args, sa_isExistingCheckoutSettleable args) of
        (Some checkoutId, Some settleable) \<Rightarrow> \<not> settleable checkoutId (elapsed others 3 s)
      | _ \<Rightarrow> False"
    let ?run = "run_transaction (settle_transaction args am ?fp
        (checkoutExpiryMinutes (elapsed others 3 s)) now) (elapsed others 4 s)"
    consider (off) ?off | (stale) "\<not> ?off" ?stale
      | (success) r where "\<not> ?off" "\<not> ?stale" "fst ?run = Inr r"
      | (failure) e where "\<not> ?off" "\<not> ?stale" "fst ?run = Inl e"
      by (metis sum.exhaust)
    then show ?thesis
    proof cases
      case off
      with unf have "s' = elapsed others 2 s" "\<forall>r. out \<noteq> Settled r" by auto
      then show ?thesis by (intro disjI1 conjI exI [of _ 2]) auto
    next
      case stale
      have "s' = elapsed others 3 s" "\<forall>r. out \<noteq> Settled r"
        using unf [unfolded if_not_P [OF stale(1)] if_P [OF stale(2)]] by auto
      then show ?thesis by (intro disjI1 conjI exI [of _ 3]) auto
    next
      case (success r)
      then obtain s5 where run: "?run = (Inr r, s5)" by (metis prod.collapse)
      have "out = Settled r" "s' = s5"
        using unf [unfolded if_not_P [OF success(1)] if_not_P [OF success(2)] run] by simp_all
      with run Some show ?thesis
        by (auto simp: run_transaction_def split: sum.splits prod.splits)
    next
      case (failure e)
      then have run: "?run = (Inl e, elapsed others 4 s)"
        by (metis prod.collapse run_transaction_rollback)
      have "(s' = elapsed others 4 s \<or> s' = elapsed others 6 s)
          \<and> (\<forall>r. out = Settled r \<longrightarrow> ws_alreadyPaid r)"
        using unf [unfolded if_not_P [OF failure(1)] if_not_P [OF failure(2)] run]
          replay_paid
        by (auto simp: elapsed_numeral split: thrown.splits settle_exn.splits option.splits)
      moreover have "\<exists>n \<le> 6. s' = elapsed others n s"
        using calculation by (elim conjE disjE) (force intro: exI [of _ 4], force intro: exI [of _ 6])
      ultimately show ?thesis by blast
    qed
  qed
qed

end
