(* ===== verification/SettlementFacts.thy ===== *)
theory SettlementFacts
  imports Settlement Samples
begin

text \<open>
  The properties of the wallet settlement: what a success does, that a failure leaves no trace, that
  a key settles once, and the invariants it keeps.
\<close>

section \<open>Success and failure\<close>

lemma fresh_settlement:
  assumes "settleWalletOrder digest others args now s = (Settled r, s')" and "\<not> ws_alreadyPaid r"
    and "ids_ok (elapsed others 4 s)" and "framed_callback args"
  obtains am where "financial_amounts args = Some am"
    and "settled args am (settlementPayloadFingerprint digest args am)
        (checkoutExpiryMinutes (elapsed others 3 s)) now (elapsed others 4 s) r s'"
  using settle_cases [OF assms(1)] assms(2) settle_transaction_settles [OF _ assms(3,4)] by fastforce

lemma financial_amounts_Some:
  "financial_amounts args = Some (original, discount, final) \<longleftrightarrow>
     sa_originalPriceToman args = NInt original \<and> sa_discountAmountToman args = NInt discount
     \<and> sa_finalPriceToman args = NInt final \<and> original \<le> MAX_SAFE_INTEGER
     \<and> 0 \<le> discount \<and> 0 < final \<and> original - discount = final
     \<and> snapshotInt (sa_snapshot args) ''originalPriceToman'' = Some original
     \<and> snapshotInt (sa_snapshot args) ''discountAmountToman'' = Some discount
     \<and> snapshotInt (sa_snapshot args) ''finalPriceToman'' = Some final"
  by (auto simp: financial_amounts_def as_safe_integer_def split: option.splits jsnum.splits if_splits)

text \<open>
  C1. A successful settlement has exactly its specified effect: the amounts passed the financial
  check, and the database is the one of the transaction's start changed as \<open>settled\<close> lists, table by table: the
  checkout is paid and owned by the one new payment, one order and one ledger row are appended, the
  payer is debited, the reservation is claimed, the discount is counted, the low-balance tables are what the
  observer of the wallet makes of that debit, and each of the other eighteen tables is as it was.
\<close>

theorem settlement_has_its_effect:
  assumes "settleWalletOrder digest others args now s = (Settled r, s')" and "\<not> ws_alreadyPaid r"
    and "ids_ok (elapsed others 4 s)" and "framed_callback args"
  shows "\<exists>am. financial_amounts args = Some am
    \<and> settled args am (settlementPayloadFingerprint digest args am)
        (checkoutExpiryMinutes (elapsed others 3 s)) now (elapsed others 4 s) r s'"
  by (rule fresh_settlement [OF assms]) blast

lemma settle_transaction_not_paid:
  "settle_transaction args am fp minutes now s = Inr (r, s') \<Longrightarrow> \<not> ws_alreadyPaid r"
  by (erule settle_chain) simp

text \<open>
  C2. Anything but a fresh success leaves no trace: when the call refuses, raises or returns an
  earlier result, the database it leaves is what the other processes made of it, with no effect of
  its own, wherever in the transaction the failure happened.
\<close>

theorem failed_settlement_leaves_no_trace:
  assumes "settleWalletOrder digest others args now s = (out, s')"
    and "\<forall>r. out = Settled r \<longrightarrow> ws_alreadyPaid r"
  shows "\<exists>n \<le> 6. s' = elapsed others n s"
  using settle_cases [OF assms(1)] assms(2) by (auto dest: settle_transaction_not_paid)

text \<open>
  C3. Money is conserved. A fresh success takes the final price, positive and equal to the original
  price less the discount, from the payer's balance and from no other row; the payer could afford
  it, the balance stays non-negative, and the one new ledger row records the balance before and
  after exactly.
\<close>

theorem settlement_conserves_money:
  assumes "settleWalletOrder digest others args now s = (Settled r, s')" and "\<not> ws_alreadyPaid r"
    and "ids_ok (elapsed others 4 s)" and "framed_callback args"
  shows "\<exists>u u' original discount final.
      financial_amounts args = Some (original, discount, final)
    \<and> 0 < final \<and> 0 \<le> discount \<and> final = original - discount
    \<and> find (\<lambda>x. u_id x = sa_userId args) (users (elapsed others 4 s)) = Some u
    \<and> find (\<lambda>x. u_id x = sa_userId args) (users s') = Some u'
    \<and> u_balanceToman u' = u_balanceToman u - final \<and> 0 \<le> u_balanceToman u'
    \<and> (\<forall>x. u_id x \<noteq> sa_userId args \<longrightarrow> x \<in> set (users (elapsed others 4 s)) \<longleftrightarrow> x \<in> set (users s'))
    \<and> wallet_txs s' = wallet_txs (elapsed others 4 s) @ [ws_walletTransaction r]
    \<and> wt_userId (ws_walletTransaction r) = sa_userId args
    \<and> wt_amountToman (ws_walletTransaction r) = final
    \<and> wt_balanceBeforeToman (ws_walletTransaction r) = u_balanceToman u
    \<and> wt_balanceAfterToman (ws_walletTransaction r) = u_balanceToman u'
    \<and> ws_newBalanceToman r = u_balanceToman u'"
proof (rule fresh_settlement [OF assms])
  fix am
  let ?s = "elapsed others 4 s"
  assume am: "financial_amounts args = Some am"
    and st: "settled args am (settlementPayloadFingerprint digest args am)
        (checkoutExpiryMinutes (elapsed others 3 s)) now ?s r s'"
  obtain original discount final where ams: "am = (original, discount, final)" by (cases am)
  from st obtain u oid pid wid where u: "find (\<lambda>u. u_id u = sa_userId args) (users ?s) = Some u"
    "final \<le> u_balanceToman u"
    and us: "users s' = update_where (\<lambda>x. u_id x = sa_userId args) (debited discount final) (users ?s)"
    and w: "wallet_txs s' = wallet_txs ?s @ [ws_walletTransaction r]"
      "ws_walletTransaction r = spend_row now (sa_userId args) final (u_balanceToman u - final) oid pid wid"
      "ws_newBalanceToman r = u_balanceToman u - final"
    unfolding settled_def ams by auto
  have f: "find (\<lambda>x. u_id x = sa_userId args) (users s') = Some (debited discount final u)"
    using u(1) find_Some_in [OF u(1)] by (simp add: us find_update_where)
  have others_kept: "\<forall>x. u_id x \<noteq> sa_userId args \<longrightarrow> x \<in> set (users ?s) \<longleftrightarrow> x \<in> set (users s')"
    by (auto simp: us set_update_where image_iff)
  show ?thesis
    using am u f others_kept w
    by (intro exI [of _ u] exI [of _ "debited discount final u"] exI [of _ original]
        exI [of _ discount] exI [of _ final]) (simp add: ams financial_amounts_Some)
qed

section \<open>A key settles once\<close>

text \<open>
  What remains of a settlement in any later database: the payment with its key, links and payload, its
  order and checkout, and the first ledger row of the payment.
\<close>

definition remembers :: "WalletSettlementSuccess \<Rightarrow> string \<Rightarrow> db \<Rightarrow> bool" where
  "remembers r key s \<longleftrightarrow>
     (\<exists>p. find (\<lambda>p. pay_idempotencyKey p = Some key) (payments s) = Some p
        \<and> pay_id p = pay_id (ws_payment r)
        \<and> pay_orderId p = Some (o_id (ws_order r))
        \<and> pay_checkoutSessionId p = Some (co_id (ws_checkout r))
        \<and> pay_callbackPayload p = pay_callbackPayload (ws_payment r)
        \<and> find (settlement_tx p) (wallet_txs s) = Some (ws_walletTransaction r))
     \<and> (\<exists>x \<in> set (orders s). o_id x = o_id (ws_order r))
     \<and> (\<exists>c \<in> set (checkouts s). co_id c = co_id (ws_checkout r))"

lemma stored_wallet_payload:
  "pay_callbackPayload p = Some (wallet_payload fp) \<Longrightarrow>
     storedFingerprint p = (if fp = [] then None else Some fp)"
  by (simp add: storedFingerprint_def wallet_payload_def nonempty_string_def)

lemma find_exists: "\<exists>x \<in> set t. P x \<Longrightarrow> \<exists>y. find P t = Some y \<and> P y"
  by (metis find_None_all find_Some_in option.exhaust)

lemma remembered_load:
  assumes "remembers r key s"
  shows "\<exists>e. loadExistingSettlement key s s = Some e
    \<and> pay_id (ws_payment (fst e)) = pay_id (ws_payment r) \<and> o_id (ws_order (fst e)) = o_id (ws_order r)
    \<and> co_id (ws_checkout (fst e)) = co_id (ws_checkout r)
    \<and> ws_walletTransaction (fst e) = ws_walletTransaction r
    \<and> ws_newBalanceToman (fst e) = wt_balanceAfterToman (ws_walletTransaction r)
    \<and> ws_alreadyPaid (fst e) \<and> snd e = storedFingerprint (ws_payment r)"
proof -
  from assms obtain p where p: "find (\<lambda>p. pay_idempotencyKey p = Some key) (payments s) = Some p"
      "pay_id p = pay_id (ws_payment r)" "pay_orderId p = Some (o_id (ws_order r))"
      "pay_checkoutSessionId p = Some (co_id (ws_checkout r))"
      "pay_callbackPayload p = pay_callbackPayload (ws_payment r)"
      "find (settlement_tx p) (wallet_txs s) = Some (ws_walletTransaction r)"
    and ex: "\<exists>x \<in> set (orders s). o_id x = o_id (ws_order r)"
      "\<exists>c \<in> set (checkouts s). co_id c = co_id (ws_checkout r)"
    unfolding remembers_def by blast
  obtain x where x: "find (\<lambda>x. o_id x = o_id (ws_order r)) (orders s) = Some x" "o_id x = o_id (ws_order r)"
    using find_exists [OF ex(1)] by blast
  obtain c where c: "find (\<lambda>c. co_id c = co_id (ws_checkout r)) (checkouts s) = Some c"
      "co_id c = co_id (ws_checkout r)"
    using find_exists [OF ex(2)] by blast
  have "storedFingerprint p = storedFingerprint (ws_payment r)"
    using p(5) by (simp add: storedFingerprint_def)
  then show ?thesis using p x c by (simp add: loadExistingSettlement_def)
qed

lemma taken_present:
  "taken args am m now s c table \<Longrightarrow> \<exists>x \<in> set table. co_id x = co_id c"
  by (auto simp: taken_def set_update_where image_iff split: option.splits)

lemma settled_remembers:
  assumes "settled args am fp m now s r s'" and "ids_ok s"
  shows "remembers r (sa_idempotencyKey args) s' \<and> pay_callbackPayload (ws_payment r) = Some (wallet_payload fp)
    \<and> ws_newBalanceToman r = wt_balanceAfterToman (ws_walletTransaction r)"
  using assms(1)
proof (rule settledE)
  fix u table pid oid wid
  assume tk: "taken args am m now s (ws_checkout r) table"
    and p: "ws_payment r = (new_payment args (snd (snd am)) fp now (co_id (ws_checkout r)) pid)
        \<lparr>pay_orderId := Some oid\<rparr>"
    and ord: "ws_order r = new_order args am now (co_id (ws_checkout r)) pid oid"
    and w: "ws_walletTransaction r = spend_row now (sa_userId args) (snd (snd am))
        (u_balanceToman u - snd (snd am)) oid pid wid"
    and b: "ws_newBalanceToman r = u_balanceToman u - snd (snd am)"
    and cs: "checkouts s' = update_where (\<lambda>c. co_id c = co_id (ws_checkout r))
          (\<lambda>c. c\<lparr>co_settledByPaymentId := Some pid\<rparr>) table"
    and ps: "payments s' = payments s @ [ws_payment r]"
    and os: "orders s' = orders s @ [ws_order r]"
    and ws: "wallet_txs s' = wallet_txs s @ [ws_walletTransaction r]"
    and key: "\<forall>p \<in> set (payments s). pay_idempotencyKey p \<noteq> Some (sa_idempotencyKey args)"
    and pid: "pid \<notin> pay_id ` set (payments s)"
  have "find (\<lambda>p. pay_idempotencyKey p = Some (sa_idempotencyKey args)) (payments s') = Some (ws_payment r)"
    using key by (simp add: ps find_append find_None_all [THEN iffD2] p)
  moreover have "\<forall>t \<in> set (wallet_txs s). wt_relatedPaymentId t \<noteq> Some pid"
    using assms(2) pid by (force simp: ids_ok_def fk_def)
  then have "find (settlement_tx (ws_payment r)) (wallet_txs s') = Some (ws_walletTransaction r)"
    by (simp add: ws find_append find_None_all [THEN iffD2] settlement_tx_def p w)
  moreover have "\<exists>c \<in> set (checkouts s'). co_id c = co_id (ws_checkout r)"
  proof -
    obtain x where "x \<in> set table" "co_id x = co_id (ws_checkout r)" using taken_present [OF tk] by blast
    then show ?thesis
      by (intro bexI [of _ "x\<lparr>co_settledByPaymentId := Some pid\<rparr>"]) (auto simp: cs set_update_where)
  qed
  ultimately show ?thesis by (simp add: remembers_def p ord w b os)
qed

text \<open>
  C4. A key settles once. After a fresh success, and in every later database that still holds its
  rows, a retry with the same content returns the same payment, order, checkout, ledger row and
  balance as already paid, whatever the wallet switch, the draft, the reservation callback or the
  balance say by then, and changes nothing.
\<close>

theorem settlement_retry_returns_the_first_result:
  assumes "settleWalletOrder digest others args now s = (Settled r, s')" and "\<not> ws_alreadyPaid r"
    and "ids_ok (elapsed others 4 s)" and "framed_callback args"
    and "financial_amounts args = Some am" and "financial_amounts retry = Some am'"
    and "sa_idempotencyKey retry = sa_idempotencyKey args"
    and "fingerprint_parts retry am' = fingerprint_parts args am"
  shows "remembers r (sa_idempotencyKey args) s'
    \<and> (remembers r (sa_idempotencyKey args) later \<longrightarrow>
        (\<exists>r'. settleWalletOrder digest (\<lambda>n s. s) retry now' later = (Settled r', later)
          \<and> ws_alreadyPaid r'
          \<and> pay_id (ws_payment r') = pay_id (ws_payment r) \<and> o_id (ws_order r') = o_id (ws_order r)
          \<and> co_id (ws_checkout r') = co_id (ws_checkout r)
          \<and> ws_walletTransaction r' = ws_walletTransaction r
          \<and> ws_newBalanceToman r' = ws_newBalanceToman r))"
proof (rule fresh_settlement [OF assms(1-4)])
  fix a
  let ?fp = "settlementPayloadFingerprint digest args a"
  assume a: "financial_amounts args = Some a"
    and "settled args a ?fp (checkoutExpiryMinutes (elapsed others 3 s)) now (elapsed others 4 s) r s'"
  note st = settled_remembers [OF this(2) assms(3)]
  have fp: "settlementPayloadFingerprint digest retry am' = ?fp"
    using a assms(5,8) by (simp add: settlementPayloadFingerprint_def)
  show ?thesis
  proof (intro conjI impI)
    show "remembers r (sa_idempotencyKey args) s'" using st by blast
    assume "remembers r (sa_idempotencyKey args) later"
    then obtain e where e: "loadExistingSettlement (sa_idempotencyKey args) later later = Some e"
      "pay_id (ws_payment (fst e)) = pay_id (ws_payment r)" "o_id (ws_order (fst e)) = o_id (ws_order r)"
      "co_id (ws_checkout (fst e)) = co_id (ws_checkout r)"
      "ws_walletTransaction (fst e) = ws_walletTransaction r"
      "ws_newBalanceToman (fst e) = wt_balanceAfterToman (ws_walletTransaction r)"
      "ws_alreadyPaid (fst e)" "snd e = storedFingerprint (ws_payment r)"
      using remembered_load by blast
    have "replay_outcome ?fp e = Settled (fst e)"
      using st e(8) stored_wallet_payload [of "ws_payment r"] by (simp add: replay_outcome_def)
    then have "settleWalletOrder digest (\<lambda>n s. s) retry now' later = (Settled (fst e), later)"
      using assms(6,7) e(1) fp by (simp add: settleWalletOrder_def Let_def)
    then show "\<exists>r'. settleWalletOrder digest (\<lambda>n s. s) retry now' later = (Settled r', later)
          \<and> ws_alreadyPaid r'
          \<and> pay_id (ws_payment r') = pay_id (ws_payment r) \<and> o_id (ws_order r') = o_id (ws_order r)
          \<and> co_id (ws_checkout r') = co_id (ws_checkout r)
          \<and> ws_walletTransaction r' = ws_walletTransaction r
          \<and> ws_newBalanceToman r' = ws_newBalanceToman r"
      using e st by (intro exI [of _ "fst e"]) simp
  qed
qed

text \<open>
  A key is bound to its content. Reusing the key of a settled payment for a request that differs
  in the user, the type, the product, the service, an amount, the discount code or the checkout is
  refused as a conflict and changes nothing; the digest is assumed injective and its values not
  empty, and identifiers are assumed free of the separator.
\<close>

theorem reused_key_is_a_conflict:
  assumes "settleWalletOrder digest others args now s = (Settled r, s')" and "\<not> ws_alreadyPaid r"
    and "ids_ok (elapsed others 4 s)" and "framed_callback args"
    and "financial_amounts args = Some am" and "financial_amounts other = Some am'"
    and "sa_idempotencyKey other = sa_idempotencyKey args"
    and "fingerprint_parts other am' \<noteq> fingerprint_parts args am"
    and "\<forall>x \<in> set (fingerprint_parts args am) \<union> set (fingerprint_parts other am'). CHR 0x00 \<notin> set x"
    and "inj digest" and "\<forall>x. digest x \<noteq> []"
    and "remembers r (sa_idempotencyKey args) later"
  shows "settleWalletOrder digest (\<lambda>n s. s) other now' later = (Refused IDEMPOTENCY_CONFLICT, later)"
proof (rule fresh_settlement [OF assms(1-4)])
  fix a
  let ?fp = "settlementPayloadFingerprint digest args a"
  assume a: "financial_amounts args = Some a"
    and "settled args a ?fp (checkoutExpiryMinutes (elapsed others 3 s)) now (elapsed others 4 s) r s'"
  note st = settled_remembers [OF this(2) assms(3)]
  have len: "length (fingerprint_parts x y) = 9" for x y
    by (simp add: fingerprint_parts_def split: prod.splits)
  have "js_join [CHR 0x00] (fingerprint_parts other am') \<noteq> js_join [CHR 0x00] (fingerprint_parts args am)"
    using assms(8,9) js_join_inject [of "fingerprint_parts other am'" "fingerprint_parts args am" "CHR 0x00"]
    by (auto simp: len)
  then have fp: "settlementPayloadFingerprint digest other am' \<noteq> ?fp" "?fp \<noteq> []"
    using assms(10,11) a assms(5) by (auto simp: settlementPayloadFingerprint_def dest: injD)
  obtain e where e: "loadExistingSettlement (sa_idempotencyKey args) later later = Some e"
      "snd e = storedFingerprint (ws_payment r)"
    using remembered_load [OF assms(12)] by blast
  have "snd e = Some ?fp" using st e(2) fp(2) stored_wallet_payload [of "ws_payment r"] by simp
  then have "replay_outcome (settlementPayloadFingerprint digest other am') e = Refused IDEMPOTENCY_CONFLICT"
    using fp(1) by (simp add: replay_outcome_def)
  then show ?thesis using assms(6,7) e(1) by (simp add: settleWalletOrder_def Let_def)
qed

section \<open>Reservation and discount\<close>

lemma attach_success_bound:
  assumes "unique_by rv_id (reservations s)" and "attachReservationToOrder a now s = Inr (u, s')"
  shows "\<exists>r \<in> set (reservations s'). already_bound a r"
proof (cases "\<exists>r \<in> set (reservations s). attachable a r")
  case True
  then obtain r where r: "r \<in> set (reservations s)" "attachable a r" by blast
  let ?f = "\<lambda>r. r\<lparr>rv_status := Reservation_BOUND, rv_orderId := Some (rb_orderId a),
              rv_boundAt := Some now, rv_expiresAt := None\<rparr>"
  have "?f r \<in> set (reservations s')"
    using assms(2) r True by (auto simp: attach_exact [OF assms(1)] set_update_where)
  moreover have "already_bound a (?f r)"
    using r(2) by (simp add: attachable_def already_bound_def bind_identity_def)
  ultimately show ?thesis by blast
next
  case False
  then show ?thesis using assms(2) by (auto simp: attach_exact [OF assms(1)] split: if_splits)
qed

lemma bot_claim_binds:
  assumes "bot_claim h c oid now s = Inr (True, s')" and "unique_by rv_id (reservations s)"
  shows "(\<exists>r \<in> set (reservations s). claimable h now r)
    \<and> (\<exists>r \<in> set (reservations s'). rv_id r = rc_reservationId h \<and> rv_userId r = rc_userId h
        \<and> rv_normalizedUsername r = rc_normalizedUsername h \<and> rv_panelId r = rc_panelId h
        \<and> rv_status r \<in> {Reservation_BOUND, Reservation_CONSUMED}
        \<and> rv_checkoutSessionId r = Some c \<and> rv_orderId r = Some oid)"
proof -
  let ?a = "\<lparr>rb_reservationId = rc_reservationId h, rb_userId = rc_userId h,
      rb_checkoutSessionId = c, rb_panelId = rc_panelId h,
      rb_normalizedUsername = rc_normalizedUsername h, rb_orderId = oid\<rparr>"
  let ?s = "s\<lparr>reservations := update_where (claimable h now) (bound_to_checkout c now) (reservations s)\<rparr>"
  have cl: "isReservationClaimable h now s" and "attach_or_false ?a now ?s = Inr (True, s')"
    using assms(1) by (auto simp: bot_claim_def claim_exact [OF assms(2)] tx_success tx_if_Inr split: if_splits)
  then obtain u where "attachReservationToOrder ?a now ?s = Inr (u, s')"
    by (auto simp: attach_or_false_def split: sum.splits thrown.splits)
  moreover have "unique_by rv_id (reservations ?s)"
    using assms(2) by (simp add: unique_by_update_where bound_to_checkout_def)
  ultimately obtain r where "r \<in> set (reservations s')" "already_bound ?a r"
    using attach_success_bound by blast
  then show ?thesis
    using cl by (auto simp: isReservationClaimable_def already_bound_def bind_identity_def)
qed

text \<open>
  A bot purchase that is paid has its username: the hold the buyer chose was still claimable at
  the payment, and afterwards the very reservation is bound to the new checkout and the new order.
\<close>

theorem paid_purchase_binds_its_hold:
  assumes "settleWalletOrder digest others args now s = (Settled r, s')" and "\<not> ws_alreadyPaid r"
    and "ids_ok (elapsed others 4 s)" and "rv_ok (elapsed others 4 s)"
    and "sa_claimReservation args = Some (bot_claim h)"
  shows "isReservationClaimable h now (elapsed others 4 s)
    \<and> (\<exists>v \<in> set (reservations s'). rv_id v = rc_reservationId h \<and> rv_userId v = rc_userId h
        \<and> rv_normalizedUsername v = rc_normalizedUsername h \<and> rv_panelId v = rc_panelId h
        \<and> rv_status v \<in> {Reservation_BOUND, Reservation_CONSUMED}
        \<and> rv_checkoutSessionId v = Some (co_id (ws_checkout r))
        \<and> rv_orderId v = Some (o_id (ws_order r)))"
proof (rule fresh_settlement [OF assms(1-3)])
  show "framed_callback args"
    using assms(5) bot.reservation_claimer_axioms by (simp add: framed_callback_def)
  fix am
  assume "settled args am (settlementPayloadFingerprint digest args am)
        (checkoutExpiryMinutes (elapsed others 3 s)) now (elapsed others 4 s) r s'"
  then obtain oid t t' where "o_id (ws_order r) = oid"
    "bot_claim h (co_id (ws_checkout r)) oid now t = Inr (True, t')"
    "reservations t = reservations (elapsed others 4 s)" "reservations s' = reservations t'"
    using assms(5) by (auto elim!: settledE simp: claim_effect_def)
  then show ?thesis
    using bot_claim_binds [of h "co_id (ws_checkout r)" oid now t t'] assms(4)
    by (auto simp: rv_ok_def rows_ok_def isReservationClaimable_def)
qed

text \<open>
  A discounted price is never settled without its usage: after a fresh success with a discount
  code and a positive discount the checkout holds a usage; the one this settlement added is for the
  code, the payer, the order and the discount, and within the limits of the code.
\<close>

theorem discount_settles_with_its_usage:
  assumes "settleWalletOrder digest others args now s = (Settled r, s')" and "\<not> ws_alreadyPaid r"
    and "ids_ok (elapsed others 4 s)" and "framed_callback args"
    and "sa_discountCodeId args = Some codeId" and "sa_discountAmountToman args = NInt d" and "0 < d"
  shows "(\<exists>x \<in> set (usages s'). du_checkoutSessionId x = Some (co_id (ws_checkout r)))
    \<and> (\<forall>x. x \<in> set (usages s') \<and> x \<notin> set (usages (elapsed others 4 s)) \<longrightarrow>
        du_discountCodeId x = codeId \<and> du_userId x = sa_userId args
        \<and> du_orderId x = Some (o_id (ws_order r)) \<and> du_amountToman x = d
        \<and> (\<exists>c. find (\<lambda>c. dc_id c = codeId) (discounts (elapsed others 4 s)) = Some c
            \<and> code_usable now c))"
proof (rule fresh_settlement [OF assms(1-4)])
  fix am
  let ?s = "elapsed others 4 s"
  assume am: "financial_amounts args = Some am"
    and st: "settled args am (settlementPayloadFingerprint digest args am)
        (checkoutExpiryMinutes (elapsed others 3 s)) now ?s r s'"
  obtain p d' f where "am = (p, d', f)" by (cases am)
  with am assms(6) have d: "fst (snd am) = d" by (simp add: financial_amounts_Some)
  let ?a = "\<lparr>ca_discountCodeId = codeId, ca_userId = sa_userId args, ca_orderId = o_id (ws_order r),
      ca_checkoutSessionId = co_id (ws_checkout r), ca_amountToman = d\<rparr>"
  have "discount_effect now ?a ?s s'"
    using st assms(5,7) d by (auto elim!: settledE simp: discount_claim_def)
  then show ?thesis
    by (auto simp: discount_effect_def claim_row_def claim_allowed_def split: if_splits option.splits)
qed

section \<open>Invariants\<close>

text \<open>
  The books: identifiers unique and fresh, every idempotency key on one payment, no negative balance,
  every order linked to a payment, every owner of a checkout a payment for that checkout, every
  wallet-payment ledger row consistent, and the reservations in order.
\<close>

definition books_ok :: "db \<Rightarrow> bool" where
  "books_ok s \<longleftrightarrow> ids_ok s \<and> rv_ok s
     \<and> (\<forall>p \<in> set (payments s). \<forall>q \<in> set (payments s).
          pay_idempotencyKey p \<noteq> None \<and> pay_idempotencyKey p = pay_idempotencyKey q \<longrightarrow> p = q)
     \<and> (\<forall>u \<in> set (users s). 0 \<le> u_balanceToman u)
     \<and> (\<forall>x \<in> set (orders s). fk pay_id (payments s) (o_paymentId x)
          \<and> fk co_id (checkouts s) (o_checkoutSessionId x))
     \<and> (\<forall>c \<in> set (checkouts s). \<forall>i. co_settledByPaymentId c = Some i \<longrightarrow>
          (\<exists>p \<in> set (payments s). pay_id p = i \<and> pay_checkoutSessionId p = Some (co_id c)))
     \<and> (\<forall>t \<in> set (wallet_txs s). wt_reason t = Some WALLET_ORDER_PAYMENT_REASON \<longrightarrow>
          wt_balanceBeforeToman t = wt_balanceAfterToman t + wt_amountToman t
          \<and> 0 \<le> wt_balanceAfterToman t \<and> 0 < wt_amountToman t)"

lemma fk_append: "fk k t x \<Longrightarrow> fk k (t @ t') x"
  by (auto simp: fk_def split: option.splits)

lemma fresh_grow:
  assumes "inj (uuids s)" "fresh_for k t s" "unique_by k t" "uuids s' = uuids s"
    and "k x \<in> uuids s ` {drawn s..<drawn s'}"
  shows "fresh_for k (t @ [x]) s' \<and> unique_by k (t @ [x])"
  using assms by (fastforce simp: fresh_for_def unique_by_def dest: injD)

lemma fresh_later: "fresh_for k t s \<Longrightarrow> uuids s' = uuids s \<Longrightarrow> drawn s \<le> drawn s' \<Longrightarrow> fresh_for k t s'"
  by (auto simp: fresh_for_def)

lemma fresh_update_where:
  "(\<And>r. k (f r) = k r) \<Longrightarrow> fresh_for k (update_where P f t) s = fresh_for k t s"
  by (simp add: fresh_for_def map_update_where flip: set_map)

lemma taken_ids:
  assumes "taken args am m now s c table" and "ids_ok s"
    and "uuids s' = uuids s" and "drawn s < drawn s'"
  shows "unique_by co_id table \<and> fresh_for co_id table s'"
proof (cases "sa_existingCheckoutId args")
  case None
  then show ?thesis
    using assms fresh_grow [of s co_id "checkouts s" s' c] by (auto simp: taken_def ids_ok_def)
next
  case (Some k)
  then show ?thesis
    using assms fresh_later [of co_id "checkouts s" s s']
    by (auto simp: taken_def ids_ok_def unique_by_update_where fresh_update_where)
qed

lemma discount_effect_ids:
  "discount_effect now a s s' \<Longrightarrow> unique_by dc_id (discounts s') = unique_by dc_id (discounts s)"
  by (auto simp: discount_effect_def unique_by_update_where split: if_splits)

lemma settled_ids:
  assumes "settled args am fp m now s r s'" and "ids_ok s"
  shows "ids_ok s' \<and> uuids s' = uuids s \<and> drawn s < drawn s'"
  using assms(1)
proof (rule settledE)
  fix u table pid oid wid
  assume tk: "taken args am m now s (ws_checkout r) table"
    and p: "ws_payment r = (new_payment args (snd (snd am)) fp now (co_id (ws_checkout r)) pid)
        \<lparr>pay_orderId := Some oid\<rparr>"
    and ord: "ws_order r = new_order args am now (co_id (ws_checkout r)) pid oid"
    and w: "ws_walletTransaction r = spend_row now (sa_userId args) (snd (snd am))
        (u_balanceToman u - snd (snd am)) oid pid wid"
    and us: "users s' = update_where (\<lambda>x. u_id x = sa_userId args) (debited (fst (snd am)) (snd (snd am)))
        (users s)"
    and cs: "checkouts s' = update_where (\<lambda>c. co_id c = co_id (ws_checkout r))
          (\<lambda>c. c\<lparr>co_settledByPaymentId := Some pid\<rparr>) table"
    and ps: "payments s' = payments s @ [ws_payment r]"
    and os: "orders s' = orders s @ [ws_order r]"
    and ws: "wallet_txs s' = wallet_txs s @ [ws_walletTransaction r]"
    and drawn: "{pid, oid} \<subseteq> uuids s ` {drawn s..<drawn s'}"
    and disc: "case discount_claim args (fst (snd am)) oid (co_id (ws_checkout r)) of
           None \<Rightarrow> usages s' = usages s \<and> discounts s' = discounts s
         | Some a \<Rightarrow> discount_effect now a s s'"
    and "other_tables_kept s s'"
  then have u: "uuids s' = uuids s" by (simp add: other_tables_kept_def)
  have d: "drawn s < drawn s'" using drawn by auto
  have i: "inj (uuids s)" using assms(2) by (simp add: ids_ok_def)
  have "fresh_for pay_id (payments s') s' \<and> unique_by pay_id (payments s')"
    unfolding ps using assms(2) drawn by (intro fresh_grow [OF i _ _ u]) (auto simp: ids_ok_def p)
  moreover have "fresh_for o_id (orders s') s' \<and> unique_by o_id (orders s')"
    unfolding os using assms(2) drawn by (intro fresh_grow [OF i _ _ u]) (auto simp: ids_ok_def ord)
  moreover have "unique_by co_id (checkouts s') \<and> fresh_for co_id (checkouts s') s'"
    using taken_ids [OF tk assms(2) u d] by (simp add: cs unique_by_update_where fresh_update_where)
  moreover have "unique_by u_id (users s')" using assms(2) by (simp add: us unique_by_update_where ids_ok_def)
  moreover have "unique_by dc_id (discounts s')"
    using disc assms(2) discount_effect_ids by (auto simp: ids_ok_def split: option.splits)
  moreover have "\<forall>t \<in> set (wallet_txs s'). fk pay_id (payments s') (wt_relatedPaymentId t)"
    using assms(2) by (auto simp: ws ps ids_ok_def fk_append w p) (simp add: fk_def)
  ultimately show ?thesis using u d i by (simp add: ids_ok_def)
qed

lemma settled_reservations:
  assumes "settled args am fp m now s r s'" and "rv_ok s" and "framed_callback args" and "ids_ok s"
  shows "rv_ok s'"
proof -
  have u: "uuids s' = uuids s" and d: "drawn s < drawn s'" using settled_ids [OF assms(1,4)] by auto
  obtain c oid where eff: "claim_effect args c oid now s s'" using assms(1) by (auto elim: settledE)
  show ?thesis
  proof (cases "sa_claimReservation args")
    case None
    then show ?thesis
      using eff assms(2) u d fresh_later [of rv_id "reservations s" s s']
      by (auto simp: claim_effect_def rv_ok_def)
  next
    case (Some f)
    with eff obtain t t' where f: "f c oid now t = Inr (True, t')"
      and t: "reservations t = reservations s" "reservations s' = reservations t'" "uuids t = uuids s"
        "drawn s \<le> drawn t" "drawn t \<le> drawn s'"
      by (auto simp: claim_effect_def)
    have cl: "reservation_claimer f" using assms(3) Some by (simp add: framed_callback_def)
    have "rv_ok t" using assms(2) t fresh_later [of rv_id "reservations s" s t] by (simp add: rv_ok_def)
    then have "rv_ok t'" using reservation_claimer.keeps [OF cl f] by blast
    moreover have "uuids t' = uuids t" "drawn t' = drawn t"
      using only_reservations_keeps [OF reservation_claimer.frame [OF cl f]] by simp_all
    ultimately show ?thesis
      using t u fresh_later [of rv_id "reservations t'" t' s'] by (simp add: rv_ok_def)
  qed
qed

lemma taken_owner:
  assumes "taken args am m now s c table" and "x \<in> set table"
  shows "(\<exists>y \<in> set (checkouts s). co_id y = co_id x
      \<and> co_settledByPaymentId y = co_settledByPaymentId x) \<or> co_id x = co_id c"
proof (cases "sa_existingCheckoutId args")
  case None
  then show ?thesis using assms by (auto simp: taken_def)
next
  case (Some k)
  then obtain y where "y \<in> set (checkouts s)" "x = y \<or> x = paid_at now y"
    using assms by (auto simp: taken_def set_update_where split: if_splits)
  then show ?thesis by (auto simp: paid_at_def)
qed

lemma fk_mono: "fk k t x \<Longrightarrow> k ` set t \<subseteq> k ` set t' \<Longrightarrow> fk k t' x"
  by (cases x) (fastforce simp: fk_def image_subset_iff)+

lemma fk_member: "fk k t (Some i) \<longleftrightarrow> i \<in> k ` set t"
  by (auto simp: fk_def)

lemma fk_None [simp]: "fk k t None"
  by (simp add: fk_def)

lemma ids_update_where: "(\<And>r. k (f r) = k r) \<Longrightarrow> k ` set (update_where P f t) = k ` set t"
  by (simp add: map_update_where flip: set_map)

lemma co_ids_update:
  "co_id ` set (update_where P (\<lambda>c. c\<lparr>co_settledByPaymentId := x\<rparr>) t) = co_id ` set t"
  by (simp add: ids_update_where)

lemma new_order_links [simp]:
  "o_paymentId (new_order args am now c p i) = Some p"
  by (auto simp: new_order_def Let_def split: prod.splits)

lemma taken_covers:
  "taken args am m now s c table \<Longrightarrow>
     co_id ` set (checkouts s) \<subseteq> co_id ` set table \<and> co_id c \<in> co_id ` set table"
  by (auto simp: taken_def ids_update_where split: option.splits)

lemma settled_money:
  assumes "settled args am fp m now s r s'" and "financial_amounts args = Some am"
    and "\<forall>u \<in> set (users s). 0 \<le> u_balanceToman u" and "ids_ok s"
  shows "(\<forall>u \<in> set (users s'). 0 \<le> u_balanceToman u)
    \<and> wt_balanceBeforeToman (ws_walletTransaction r) =
        wt_balanceAfterToman (ws_walletTransaction r) + wt_amountToman (ws_walletTransaction r)
    \<and> 0 \<le> wt_balanceAfterToman (ws_walletTransaction r)
    \<and> 0 < wt_amountToman (ws_walletTransaction r)"
proof -
  obtain p d f where am: "am = (p, d, f)" by (cases am)
  with assms(2) have f: "0 < f" by (simp add: financial_amounts_Some)
  from assms(1) obtain u oid pid wid where u: "find (\<lambda>u. u_id u = sa_userId args) (users s) = Some u"
      "f \<le> u_balanceToman u"
    and us: "users s' = update_where (\<lambda>x. u_id x = sa_userId args) (debited d f) (users s)"
    and w: "ws_walletTransaction r = spend_row now (sa_userId args) f (u_balanceToman u - f) oid pid wid"
    by (rule settledE) (simp add: am)
  have "x = u" if "x \<in> set (users s)" "u_id x = sa_userId args" for x
    using find_Some_in [OF u(1)] that assms(4) unique_by_inj by (fastforce simp: ids_ok_def)
  then have "\<forall>u \<in> set (users s'). 0 \<le> u_balanceToman u"
    using assms(3) u(2) by (auto simp: us set_update_where)
  then show ?thesis using u(2) f by (simp add: w)
qed

lemma settled_books:
  assumes st: "settled args am fp m now s r s'" and books: "books_ok s"
    and amounts: "financial_amounts args = Some am" and framed: "framed_callback args"
  shows "books_ok s'"
  using st
proof (rule settledE)
  fix u table pid oid wid
  assume tk: "taken args am m now s (ws_checkout r) table"
    and p: "ws_payment r = (new_payment args (snd (snd am)) fp now (co_id (ws_checkout r)) pid)
        \<lparr>pay_orderId := Some oid\<rparr>"
    and ord: "ws_order r = new_order args am now (co_id (ws_checkout r)) pid oid"
    and cs: "checkouts s' = update_where (\<lambda>c. co_id c = co_id (ws_checkout r))
          (\<lambda>c. c\<lparr>co_settledByPaymentId := Some pid\<rparr>) table"
    and ps: "payments s' = payments s @ [ws_payment r]"
    and os: "orders s' = orders s @ [ws_order r]"
    and ws: "wallet_txs s' = wallet_txs s @ [ws_walletTransaction r]"
    and key: "\<forall>p \<in> set (payments s). pay_idempotencyKey p \<noteq> Some (sa_idempotencyKey args)"
  have ids: "ids_ok s" "rv_ok s" using books by (simp_all add: books_ok_def)
  have "\<forall>u \<in> set (users s). 0 \<le> u_balanceToman u" using books by (simp add: books_ok_def)
  note money = settled_money [OF st amounts this ids(1)]
  have old: "co_id ` set (checkouts s) \<subseteq> co_id ` set (checkouts s')" and new: "co_id (ws_checkout r) \<in> co_id ` set (checkouts s')"
    using taken_covers [OF tk] by (simp_all add: cs co_ids_update)
  have "\<forall>x \<in> set (orders s'). fk pay_id (payments s') (o_paymentId x)
      \<and> fk co_id (checkouts s') (o_checkoutSessionId x)"
  proof
    fix x
    assume "x \<in> set (orders s')"
    then consider (old) "x \<in> set (orders s)" | (new) "x = ws_order r" by (auto simp: os)
    then show "fk pay_id (payments s') (o_paymentId x) \<and> fk co_id (checkouts s') (o_checkoutSessionId x)"
    proof cases
      case old
      then have "fk pay_id (payments s) (o_paymentId x)" "fk co_id (checkouts s) (o_checkoutSessionId x)"
        using books by (simp_all add: books_ok_def)
      then show ?thesis using fk_mono [OF _ \<open>co_id ` set (checkouts s) \<subseteq> _\<close>] by (simp add: ps fk_append)
    next
      case new
      then show ?thesis using \<open>co_id (ws_checkout r) \<in> _\<close> by (simp add: ord ps p fk_member)
    qed
  qed
  moreover have "\<exists>q \<in> set (payments s'). pay_id q = i \<and> pay_checkoutSessionId q = Some (co_id c)"
    if c: "c \<in> set (checkouts s')" "co_settledByPaymentId c = Some i" for c i
  proof (cases "co_id c = co_id (ws_checkout r)")
    case True
    with c have "i = pid" by (auto simp: cs set_update_where split: if_splits)
    with True show ?thesis by (simp add: ps p)
  next
    case False
    with c have "c \<in> set table" by (auto simp: cs set_update_where split: if_splits)
    then show ?thesis
      using taken_owner [OF tk] False books c(2) by (fastforce simp: books_ok_def ps)
  qed
  moreover have "\<forall>a \<in> set (payments s'). \<forall>q \<in> set (payments s').
      pay_idempotencyKey a \<noteq> None \<and> pay_idempotencyKey a = pay_idempotencyKey q \<longrightarrow> a = q"
    using books key by (auto simp: ps p books_ok_def)
  moreover have "\<forall>t \<in> set (wallet_txs s'). wt_reason t = Some WALLET_ORDER_PAYMENT_REASON \<longrightarrow>
          wt_balanceBeforeToman t = wt_balanceAfterToman t + wt_amountToman t
          \<and> 0 \<le> wt_balanceAfterToman t \<and> 0 < wt_amountToman t"
    using books money by (auto simp: ws books_ok_def)
  ultimately show ?thesis
    using settled_ids [OF st ids(1)] settled_reservations [OF st ids(2) framed ids(1)] money
    unfolding books_ok_def by blast
qed

text \<open>
  C5. The settlement keeps the books. Whatever its outcome, and whatever other processes do between
  its statements as long as they keep the books too, identifiers stay unique, a key stays on one
  payment, no balance becomes negative, every checkout is owned by a payment made for it, the ledger
  stays consistent and reservations stay exclusive.
\<close>

theorem settlement_keeps_the_books:
  assumes "books_ok s" and "\<forall>n t. books_ok t \<longrightarrow> books_ok (others n t)" and "framed_callback args"
  shows "books_ok (snd (settleWalletOrder digest others args now s))"
proof -
  obtain out s' where run: "settleWalletOrder digest others args now s = (out, s')" by fastforce
  have el: "books_ok (elapsed others n s)" for n
    using assms(1,2) by (induction n) (auto simp: elapsed_simps)
  have ids: "ids_ok (elapsed others 4 s)" using el [of 4] by (simp add: books_ok_def)
  from settle_cases [OF run] have "books_ok s'"
    using el settled_books [OF settle_transaction_settles [OF _ ids assms(3)] el _ assms(3)] by blast
  then show ?thesis using run by simp
qed

section \<open>Progress\<close>

text \<open>What a wallet purchase without a draft, a reservation or a discount needs to go through.\<close>

definition purchase_ready :: "WalletSettlementArgs \<Rightarrow> int \<times> int \<times> int \<Rightarrow> int \<Rightarrow> user_row \<Rightarrow> db \<Rightarrow> bool" where
  "purchase_ready args am now u s \<longleftrightarrow>
     financial_amounts args = Some am \<and> int4 (fst am)
     \<and> sa_existingCheckoutId args = None \<and> sa_claimReservation args = None
     \<and> sa_discountCodeId args = None \<and> sa_isWalletEnabled args s
     \<and> (\<forall>p \<in> set (payments s). pay_idempotencyKey p \<noteq> Some (sa_idempotencyKey args))
     \<and> find (\<lambda>u. u_id u = sa_userId args) (users s) = Some u \<and> u_status u = UserStatus_ACTIVE
     \<and> snd (snd am) \<le> u_balanceToman u \<and> int4 (u_balanceToman u)
     \<and> user_fits (debited (fst (snd am)) (snd (snd am)) u)
     \<and> fk pr_id (products s) (Some (sa_productId args)) \<and> fk sv_id (services s) (sa_serviceId args)
     \<and> int4_opt (snapshotInt (sa_snapshot args) ''durationDays'')
     \<and> int4_opt (snapshotInt (sa_snapshot args) ''volumeGb'')
     \<and> js_date (now + checkoutExpiryMinutes s * 60000)
     \<and> \<not> lc_enabled (readLowBalanceConfigRows s)"

lemma fk_last: "fk k (t @ [x]) (Some (k x))"
  by (simp add: fk_def)

lemma int4_between: "int4 p \<Longrightarrow> 0 \<le> x \<Longrightarrow> x \<le> p \<Longrightarrow> int4 x"
  by (auto simp: int4_def INT4_MIN_def INT4_MAX_def)

lemma deduct_succeeds:
  assumes "find (\<lambda>u. u_id u = uid) (users s) = Some u" and "f \<le> u_balanceToman u"
    and "user_fits (debited d f u)" and "unique_by u_id (users s)"
  shows "deduct uid d f s = Inr (u_balanceToman u - f,
    s\<lparr>users := update_where (\<lambda>u. u_id u = uid \<and> f \<le> u_balanceToman u) (debited d f) (users s)\<rparr>)"
proof -
  let ?P = "\<lambda>u. u_id u = uid \<and> f \<le> u_balanceToman u"
  have "count_where ?P (users s) = 1"
    using count_where_key [OF assms(4), of uid "\<lambda>u. f \<le> u_balanceToman u"] assms(1,2) by simp
  moreover have "find (\<lambda>u. u_id u = uid) (update_where ?P (debited d f) (users s)) = Some (debited d f u)"
    using assms(1,2) find_Some_in [OF assms(1)] by (simp add: find_update_where)
  moreover have "\<forall>x \<in> set (users s). ?P x \<longrightarrow> x = u"
    using find_Some_in [OF assms(1)] unique_by_inj [OF assms(4)] by metis
  ultimately show ?thesis
    using assms(3) by (auto simp: deduct_def tx_defs update_users_def)
qed

lemma quiet_observer:
  assumes "\<not> lc_enabled (readLowBalanceConfigRows s)"
  shows "onWalletBalanceChanged now a s = Inr ((), s)"
  using assms by (simp add: onWalletBalanceChanged_def observeWalletBalance_def tx_defs)

lemma config_cong: "settings t = settings s \<Longrightarrow> readLowBalanceConfigRows t = readLowBalanceConfigRows s"
  by (simp add: readLowBalanceConfigRows_def setting_or_empty_def setting_value_def)

lemma ready_transaction:
  assumes ready: "purchase_ready args am now u s" and books: "books_ok s"
  shows "\<exists>r s'. settle_transaction args am fp (checkoutExpiryMinutes s) now s = Inr (r, s')"
proof -
  obtain p d f where am: "am = (p, d, f)" by (cases am)
  let ?i = "uuids s (drawn s)" and ?pid = "uuids s (Suc (drawn s))" and ?oid = "uuids s (Suc (Suc (drawn s)))"
  let ?wid = "uuids s (Suc (Suc (Suc (drawn s))))"
  let ?c = "new_checkout args am (checkoutExpiryMinutes s) now ?i"
  let ?pay = "new_payment args f fp now ?i ?pid"
  let ?ord = "new_order args am now ?i ?pid ?oid"
  let ?U = "update_where (\<lambda>x. u_id x = sa_userId args \<and> f \<le> u_balanceToman x) (debited d f) (users s)"
  have amounts: "financial_amounts args = Some (p, d, f)" and "int4 p"
    and plain: "sa_existingCheckoutId args = None" "sa_claimReservation args = None"
      "sa_discountCodeId args = None"
    and key: "\<forall>p \<in> set (payments s). pay_idempotencyKey p \<noteq> Some (sa_idempotencyKey args)"
    and found: "find (\<lambda>u. u_id u = sa_userId args) (users s) = Some u"
    and active: "u_status u = UserStatus_ACTIVE" and enough: "f \<le> u_balanceToman u"
    and bal: "int4 (u_balanceToman u)" and fits: "user_fits (debited d f u)"
    and fks: "fk pr_id (products s) (Some (sa_productId args))" "fk sv_id (services s) (sa_serviceId args)"
    and snap: "int4_opt (snapshotInt (sa_snapshot args) ''durationDays'')"
      "int4_opt (snapshotInt (sa_snapshot args) ''volumeGb'')"
    and date: "js_date (now + checkoutExpiryMinutes s * 60000)"
    and quiet: "\<not> lc_enabled (readLowBalanceConfigRows s)"
    using ready unfolding purchase_ready_def am fst_conv snd_conv by - (erule conjE | assumption)+
  have fin: "0 < f" "0 \<le> d" "p - d = f" "snapshotInt (sa_snapshot args) ''originalPriceToman'' = Some p"
    using amounts by (simp_all add: financial_amounts_Some)
  have "f \<le> p" "d \<le> p" using fin by linarith+
  then have range: "int4 p" "int4 d" "int4 f"
    using \<open>int4 p\<close> fin int4_between [OF \<open>int4 p\<close>] by simp_all
  have user: "u \<in> set (users s)" "u_id u = sa_userId args"
    using find_Some_in [OF found] by simp_all
  have u_fk: "fk u_id (users s) (Some (sa_userId args))" using user by (auto simp: fk_def)
  have ids: "unique_by u_id (users s)" "fresh_for pay_id (payments s) s" "fresh_for co_id (checkouts s) s"
    using books by (simp_all add: books_ok_def ids_ok_def)
  have pid: "?pid \<notin> pay_id ` set (payments s)" using ids by (simp add: fresh_for_def)
  have cid: "?i \<notin> co_id ` set (checkouts s)" using ids by (simp add: fresh_for_def)
  have unowned: "\<forall>c \<in> set (checkouts s). co_settledByPaymentId c \<noteq> Some ?pid"
  proof
    fix c
    assume "c \<in> set (checkouts s)"
    then have "co_settledByPaymentId c = Some ?pid \<Longrightarrow> \<exists>q \<in> set (payments s). pay_id q = ?pid"
      using books unfolding books_ok_def by blast
    then show "co_settledByPaymentId c \<noteq> Some ?pid" using pid by (metis imageI)
  qed
  let ?s1 = "s\<lparr>drawn := Suc (drawn s), checkouts := checkouts s @ [?c]\<rparr>"
  have 1: "take_checkout args am (checkoutExpiryMinutes s) now s = Inr (?c, ?s1)"
    using plain range u_fk fks date
    by (simp add: take_checkout_def tx_defs create_checkout_def draw_id_def am new_checkout_def)
  let ?s3 = "?s1\<lparr>drawn := Suc (Suc (drawn s)), payments := payments s @ [?pay]\<rparr>"
  have 2: "create_payment ?pay (?s1\<lparr>drawn := Suc (Suc (drawn s))\<rparr>) = Inr (?pay, ?s3)"
    using range u_fk key
    by (simp add: create_payment_def new_payment_def clash_def fk_member)
  let ?cs = "update_where (\<lambda>x. co_id x = ?i) (\<lambda>x. x\<lparr>co_settledByPaymentId := Some ?pid\<rparr>) (checkouts s @ [?c])"
  let ?s4 = "?s3\<lparr>checkouts := ?cs\<rparr>"
  have 3: "set_settled_by ?i ?pid ?s3 = Inr ((), ?s4)"
    using unowned by (auto simp: set_settled_by_def)
  let ?s6 = "?s4\<lparr>drawn := Suc (Suc (Suc (drawn s))), orders := orders s @ [?ord]\<rparr>"
  have co: "?i \<in> co_id ` set ?cs" by (simp add: co_ids_update)
  have no_order: "\<not> clash o_checkoutSessionId (orders s) (Some ?i)"
  proof
    assume "clash o_checkoutSessionId (orders s) (Some ?i)"
    then obtain x where "x \<in> set (orders s)" "o_checkoutSessionId x = Some ?i" by (auto simp: clash_def)
    then have "?i \<in> co_id ` set (checkouts s)" using books by (force simp: books_ok_def fk_member)
    with cid show False ..
  qed
  have 4: "create_order ?ord (?s4\<lparr>drawn := Suc (Suc (Suc (drawn s)))\<rparr>) = Inr (?ord, ?s6)"
    using plain range u_fk fks snap fin(4) co no_order
    by (simp add: create_order_def new_order_def am Let_def fk_member int4_opt_def)
  let ?s8 = "?s6\<lparr>payments := payments s @ [?pay\<lparr>pay_orderId := Some ?oid\<rparr>]\<rparr>"
  have 5: "link_order ?pid ?oid ?s6 = Inr (?pay\<lparr>pay_orderId := Some ?oid\<rparr>, ?s8)"
    using find_last [of pay_id ?pay "payments s"] update_last [of pay_id ?pay "payments s"] pid
    by (simp add: link_order_def tx_defs)
  let ?s9 = "?s8\<lparr>users := ?U\<rparr>"
  have 6: "deduct (sa_userId args) d f ?s8 = Inr (u_balanceToman u - f, ?s9)"
    using deduct_succeeds [of "sa_userId args" ?s8 u f d] found enough fits ids by simp
  let ?w = "spend_row now (sa_userId args) f (u_balanceToman u - f) ?oid ?pid ?wid"
  let ?s11 = "?s9\<lparr>drawn := Suc (Suc (Suc (Suc (drawn s)))), wallet_txs := wallet_txs s @ [?w]\<rparr>"
  have 7: "create_wallet_tx ?w (?s9\<lparr>drawn := Suc (Suc (Suc (Suc (drawn s))))\<rparr>) = Inr (?w, ?s11)"
    using u_fk enough range bal fin(1) int4_between [OF bal]
    by (simp add: create_wallet_tx_def spend_row_def fk_member ids_update_where)
  note steps = 1 2 3 4 5 6 7
  have 8: "onWalletBalanceChanged now a ?s11 = Inr ((), ?s11)" for a
    using quiet config_cong [of ?s11 s] by (intro quiet_observer) simp
  have draw: "tx_do draw_id t = Inr (uuids t (drawn t), t\<lparr>drawn := Suc (drawn t)\<rparr>)" for t
    by (simp add: tx_do_def draw_id_def)
  have payer: "require_active_payer (sa_userId args) ?s6 = Inr ((), ?s6)"
    using found active by (simp add: require_active_payer_def tx_defs)
  have tail: "claim_hold None a b now t = Inr ((), t)" "claim_discount args d a b now t = Inr ((), t)" for a b t
    using plain by (simp_all add: claim_hold_def claim_discount_def tx_return_def)
  note run = 1 [unfolded am] 2 [unfolded am] 3 [unfolded am] 4 [unfolded am] 5 [unfolded am]
    6 [unfolded am] 7 [unfolded am] 8 [unfolded am] payer [unfolded am]
  show ?thesis
    unfolding settle_transaction_def am Let_def fst_conv snd_conv plain
    by (simp add: run [simplified] tail draw tx_bind_def tx_then_def tx_return_def)
qed

text \<open>
  C6. A purchase that is ready goes through. When the amounts are consistent and in range, the payer
  is active and can afford the price, the referenced rows exist, the key is new and low-balance
  alerts are off, an undisturbed settlement of a fresh checkout without a discount or a reservation
  succeeds.
\<close>

theorem ready_purchase_settles:
  assumes "purchase_ready args am now u s" and "books_ok s"
  shows "\<exists>r s'. settleWalletOrder digest (\<lambda>n s. s) args now s = (Settled r, s') \<and> \<not> ws_alreadyPaid r"
proof -
  let ?fp = "settlementPayloadFingerprint digest args am"
  obtain r s' where run: "settle_transaction args am ?fp (checkoutExpiryMinutes s) now s = Inr (r, s')"
    using ready_transaction [OF assms] by blast
  have am: "financial_amounts args = Some am" and on: "sa_isWalletEnabled args s"
    and fresh: "sa_existingCheckoutId args = None"
    and key: "find (\<lambda>p. pay_idempotencyKey p = Some (sa_idempotencyKey args)) (payments s) = None"
    using assms(1) unfolding purchase_ready_def find_None_all by blast+
  have "settleWalletOrder digest (\<lambda>n s. s) args now s = (Settled r, s')"
    using am on fresh key run
    by (simp add: settleWalletOrder_def Let_def loadExistingSettlement_def run_transaction_def)
  then show ?thesis using settle_transaction_not_paid [OF run] by blast
qed

section \<open>Concrete settlements\<close>

definition demo_user :: user_row where
  "demo_user = sample_user\<lparr>u_id := ''u'', u_balanceToman := 1000\<rparr>"

definition demo_hold :: reservation_row where
  "demo_hold = sample_reservation\<lparr>rv_id := ''h'', rv_panelId := ''n'', rv_userId := ''u'',
     rv_normalizedUsername := ''alice'', rv_activeUsernameKey := Some ''alice'',
     rv_draftNonce := Some ''d'', rv_expiresAt := Some 5000\<rparr>"

definition demo_claim :: ReservationClaimArgs where
  "demo_claim = \<lparr>rc_reservationId = ''h'', rc_userId = ''u'', rc_draftNonce = Some ''d'',
     rc_normalizedUsername = ''alice'', rc_mode = UsernameMode_CUSTOM, rc_panelId = ''n''\<rparr>"

definition demo_code :: discount_row where
  "demo_code = sample_discount\<lparr>dc_id := ''c'', dc_code := ''TEN'', dc_value := 10\<rparr>"

definition demo_db :: db where
  "demo_db = (empty_db show_nat)\<lparr>users := [demo_user, sample_user\<lparr>u_id := ''v''\<rparr>],
     products := [sample_product\<lparr>pr_id := ''p''\<rparr>], discounts := [demo_code],
     reservations := [demo_hold]\<rparr>"

definition demo_snapshot :: "int \<Rightarrow> int \<Rightarrow> json_obj" where
  "demo_snapshot p d = [(''productName'', JStr ''plan''), (''originalPriceToman'', jint p),
     (''discountAmountToman'', jint d), (''finalPriceToman'', jint (p - d))]"

definition demo_args :: "int \<Rightarrow> int \<Rightarrow> WalletSettlementArgs" where
  "demo_args p d = \<lparr>sa_userId = ''u'', sa_orderType = OrderType_SERVICE_PURCHASE,
     sa_productId = ''p'', sa_serviceId = None, sa_snapshot = demo_snapshot p d,
     sa_originalPriceToman = NInt p, sa_discountAmountToman = NInt d,
     sa_finalPriceToman = NInt (p - d), sa_discountCodeId = None, sa_idempotencyKey = ''k'',
     sa_isWalletEnabled = (\<lambda>s. True), sa_existingCheckoutId = None,
     sa_isExistingCheckoutSettleable = None, sa_otherProductFulfillmentSnapshot = None,
     sa_claimReservation = None\<rparr>"

definition demo_reserved :: WalletSettlementArgs where
  "demo_reserved = (demo_args 700 0)\<lparr>sa_claimReservation := Some (bot_claim demo_claim)\<rparr>"

definition demo_discounted :: WalletSettlementArgs where
  "demo_discounted = (demo_args 700 70)\<lparr>sa_discountCodeId := Some ''c''\<rparr>"

definition still :: "nat \<Rightarrow> db \<Rightarrow> db" where "still n s = s"

definition fresh_success :: "settlement_outcome \<Rightarrow> bool" where
  "fresh_success out = (case out of Settled r \<Rightarrow> \<not> ws_alreadyPaid r | _ \<Rightarrow> False)"

lemma elapsed_still [simp]: "elapsed still n s = s"
  by (induction n) (simp_all add: elapsed_simps still_def)

lemma fresh_successE:
  assumes "fresh_success (fst x)"
  obtains r s' where "x = (Settled r, s')" and "\<not> ws_alreadyPaid r"
  using assms by (cases x) (auto simp: fresh_success_def split: settlement_outcome.splits)

lemmas demo_defs = demo_db_def demo_user_def demo_code_def demo_hold_def demo_args_def
  demo_snapshot_def demo_reserved_def demo_discounted_def demo_claim_def

lemma inj_show_nat: "inj show_nat"
  by (simp add: inj_def)

lemma demo_books: "books_ok demo_db"
proof -
  have "\<not> is_digit CHR ''h''" by (simp add: is_digit_def char_code_def)
  then have "show_nat n \<noteq> ''h''" for n using show_nat_digits [of n] by auto
  then show ?thesis
    by (simp add: books_ok_def ids_ok_def rv_ok_def rows_ok_def row_ok_def unique_by_def fresh_for_def
        demo_defs sample_defs inj_show_nat active_def rebindable_def ACTIVE_STATUSES_def
        REBINDABLE_STATUSES_def)
qed

definition demo_digest :: "string \<Rightarrow> string" where "demo_digest x = CHR ''#'' # x"

lemma demo_runs:
  "fresh_success (fst (settleWalletOrder demo_digest still (demo_args 700 0) 1000 demo_db))"
  "fresh_success (fst (settleWalletOrder demo_digest still demo_reserved 1000 demo_db))"
  "fresh_success (fst (settleWalletOrder demo_digest still demo_discounted 1000 demo_db))"
  by code_simp+

lemma demo_framed: "framed_callback (demo_args p d)" "framed_callback demo_discounted"
  by (simp_all add: framed_callback_def demo_args_def demo_discounted_def)

lemma demo_ids: "ids_ok (elapsed still n demo_db)" "rv_ok (elapsed still n demo_db)"
  using demo_books by (simp_all add: books_ok_def)

lemma demo_amounts:
  "financial_amounts (demo_args 700 0) = Some (700, 0, 700)"
  "financial_amounts (demo_args 600 0) = Some (600, 0, 600)"
  "financial_amounts demo_discounted = Some (700, 70, 630)"
  by code_simp+

theorem settlement_has_its_effect_witness:
  "\<exists>r s' am. settleWalletOrder demo_digest still (demo_args 700 0) 1000 demo_db = (Settled r, s')
    \<and> financial_amounts (demo_args 700 0) = Some am
    \<and> settled (demo_args 700 0) am (settlementPayloadFingerprint demo_digest (demo_args 700 0) am)
        30 1000 demo_db r s'"
proof (rule fresh_successE [OF demo_runs(1)])
  fix r s'
  assume run: "settleWalletOrder demo_digest still (demo_args 700 0) 1000 demo_db = (Settled r, s')"
    and "\<not> ws_alreadyPaid r"
  have "checkoutExpiryMinutes demo_db = 30" by code_simp
  then show ?thesis
    using settlement_has_its_effect [OF run \<open>\<not> _\<close> demo_ids(1) demo_framed(1)] run by auto
qed

theorem failed_settlement_leaves_no_trace_witness:
  "\<exists>n \<le> 6. snd (settleWalletOrder demo_digest still (demo_args 2000 0) 1000 demo_db)
      = elapsed still n demo_db"
proof -
  have "fst (settleWalletOrder demo_digest still (demo_args 2000 0) 1000 demo_db) = Refused INSUFFICIENT_BALANCE"
    by code_simp
  then have "settleWalletOrder demo_digest still (demo_args 2000 0) 1000 demo_db =
      (Refused INSUFFICIENT_BALANCE, snd (settleWalletOrder demo_digest still (demo_args 2000 0) 1000 demo_db))"
    by (metis prod.collapse)
  from failed_settlement_leaves_no_trace [OF this] show ?thesis by simp
qed

theorem settlement_conserves_money_witness:
  "\<exists>r s' u'. settleWalletOrder demo_digest still (demo_args 700 0) 1000 demo_db = (Settled r, s')
    \<and> find (\<lambda>x. u_id x = ''u'') (users s') = Some u' \<and> u_balanceToman u' = 300"
proof (rule fresh_successE [OF demo_runs(1)])
  fix r s'
  assume run: "settleWalletOrder demo_digest still (demo_args 700 0) 1000 demo_db = (Settled r, s')"
    and "\<not> ws_alreadyPaid r"
  then show ?thesis
    using settlement_conserves_money [OF run \<open>\<not> _\<close> demo_ids(1) demo_framed(1)] demo_amounts(1)
    by (auto simp: demo_db_def demo_user_def sample_user_def demo_args_def)
qed

theorem settlement_retry_returns_the_first_result_witness:
  "\<exists>r s' r'. settleWalletOrder demo_digest still (demo_args 700 0) 1000 demo_db = (Settled r, s')
    \<and> settleWalletOrder demo_digest (\<lambda>n s. s) ((demo_args 700 0)\<lparr>sa_isWalletEnabled := \<lambda>s. False\<rparr>) 9000 s'
        = (Settled r', s') \<and> ws_newBalanceToman r' = ws_newBalanceToman r"
proof (rule fresh_successE [OF demo_runs(1)])
  fix r s'
  assume run: "settleWalletOrder demo_digest still (demo_args 700 0) 1000 demo_db = (Settled r, s')"
    and "\<not> ws_alreadyPaid r"
  let ?retry = "(demo_args 700 0)\<lparr>sa_isWalletEnabled := \<lambda>s. False\<rparr>"
  have "financial_amounts ?retry = Some (700, 0, 700)"
    by code_simp
  moreover have "fingerprint_parts ?retry (700, 0, 700) = fingerprint_parts (demo_args 700 0) (700, 0, 700)"
    by (simp add: fingerprint_parts_def)
  ultimately show ?thesis
    using settlement_retry_returns_the_first_result
        [OF run \<open>\<not> _\<close> demo_ids(1) demo_framed(1) demo_amounts(1), of ?retry "(700, 0, 700)" s' 9000] run
    by auto
qed

theorem reused_key_is_a_conflict_witness:
  "\<exists>r s'. settleWalletOrder demo_digest still (demo_args 700 0) 1000 demo_db = (Settled r, s')
    \<and> settleWalletOrder demo_digest (\<lambda>n s. s) (demo_args 600 0) 9000 s'
        = (Refused IDEMPOTENCY_CONFLICT, s')"
proof (rule fresh_successE [OF demo_runs(1)])
  fix r s'
  assume run: "settleWalletOrder demo_digest still (demo_args 700 0) 1000 demo_db = (Settled r, s')"
    and n: "\<not> ws_alreadyPaid r"
  have rem: "remembers r (sa_idempotencyKey (demo_args 700 0)) s'"
    using fresh_settlement [OF run n demo_ids(1) demo_framed(1)] settled_remembers demo_ids(1)
    by (metis elapsed_still)
  have "fingerprint_parts (demo_args 600 0) (600, 0, 600) \<noteq> fingerprint_parts (demo_args 700 0) (700, 0, 700)"
    by code_simp
  moreover have "\<forall>x \<in> set (fingerprint_parts (demo_args 700 0) (700, 0, 700))
      \<union> set (fingerprint_parts (demo_args 600 0) (600, 0, 600)). CHR 0x00 \<notin> set x"
    by code_simp
  moreover have "inj demo_digest" "\<forall>x. demo_digest x \<noteq> []" by (simp_all add: inj_def demo_digest_def)
  moreover have "sa_idempotencyKey (demo_args 600 0) = sa_idempotencyKey (demo_args 700 0)"
    by (simp add: demo_args_def)
  ultimately show ?thesis
    using reused_key_is_a_conflict
        [OF run n demo_ids(1) demo_framed(1) demo_amounts(1,2) _ _ _ _ _ rem] run by blast
qed

theorem paid_purchase_binds_its_hold_witness:
  "\<exists>r s'. settleWalletOrder demo_digest still demo_reserved 1000 demo_db = (Settled r, s')
    \<and> (\<exists>v \<in> set (reservations s'). rv_id v = ''h'' \<and> rv_orderId v = Some (o_id (ws_order r)))"
proof (rule fresh_successE [OF demo_runs(2)])
  fix r s'
  assume run: "settleWalletOrder demo_digest still demo_reserved 1000 demo_db = (Settled r, s')"
    and "\<not> ws_alreadyPaid r"
  have "sa_claimReservation demo_reserved = Some (bot_claim demo_claim)" by (simp add: demo_reserved_def)
  from paid_purchase_binds_its_hold [OF run \<open>\<not> _\<close> demo_ids this] show ?thesis
    using run by (auto simp: demo_claim_def)
qed

theorem discount_settles_with_its_usage_witness:
  "\<exists>r s'. settleWalletOrder demo_digest still demo_discounted 1000 demo_db = (Settled r, s')
    \<and> (\<exists>x \<in> set (usages s'). du_checkoutSessionId x = Some (co_id (ws_checkout r))
        \<and> du_discountCodeId x = ''c'' \<and> du_amountToman x = 70)"
proof (rule fresh_successE [OF demo_runs(3)])
  fix r s'
  assume run: "settleWalletOrder demo_digest still demo_discounted 1000 demo_db = (Settled r, s')"
    and "\<not> ws_alreadyPaid r"
  have "sa_discountCodeId demo_discounted = Some ''c''" "sa_discountAmountToman demo_discounted = NInt 70"
    by (simp_all add: demo_discounted_def demo_args_def)
  from discount_settles_with_its_usage [OF run \<open>\<not> _\<close> demo_ids(1) demo_framed(2) this]
  show ?thesis using run by (auto simp: demo_defs empty_db_def)
qed

theorem settlement_keeps_the_books_witness:
  "books_ok (snd (settleWalletOrder demo_digest still (demo_args 700 0) 1000 demo_db))"
  by (rule settlement_keeps_the_books [OF demo_books _ demo_framed(1)]) (simp add: still_def)

theorem ready_purchase_settles_witness:
  "\<exists>r s'. settleWalletOrder demo_digest (\<lambda>n s. s) (demo_args 700 0) 1000 demo_db = (Settled r, s')
    \<and> \<not> ws_alreadyPaid r"
proof (rule ready_purchase_settles [OF _ demo_books])
  show "purchase_ready (demo_args 700 0) (700, 0, 700) 1000 demo_user demo_db"
    by code_simp
qed

end
