(* ===== verification/Applications.thy ===== *)
theory Applications
  imports Catalog Discount LowBalanceCore Reservation Samples
begin

text \<open>
  The theorems of the lower components applied to one small concrete shop: a user, a category, a
  panel, products, services, a discount code, a username hold and the low-balance settings.
\<close>

definition shop_panel :: panel_row where
  "shop_panel = sample_panel\<lparr>pn_id := ''n'', pn_name := ''DE'', pn_username := Some ''a'',
     pn_passwordEncrypted := Some ''x'', pn_templateUsername := Some ''tpl''\<rparr>"

definition shop_product :: "string \<Rightarrow> product_row" where
  "shop_product i = sample_product\<lparr>pr_id := i, pr_categoryId := ''g'', pr_panelId := Some ''n'',
     pr_name := ''one'', pr_serviceLocation := Some ServiceLocation_MULTI_LOCATION,
     pr_volumeGb := Some 10, pr_durationDays := Some 30, pr_priceToman := 700,
     pr_allLocations := False\<rparr>"

definition shop_service :: service_row where
  "shop_service = sample_service\<lparr>sv_id := ''0123456789ab'', sv_userId := ''u'', sv_panelId := ''n'',
     sv_username := ''bobby123'', sv_remoteClientId := Some ''bobby123''\<rparr>"

definition shop_hold :: reservation_row where
  "shop_hold = sample_reservation\<lparr>rv_id := ''h'', rv_panelId := ''n'', rv_userId := ''u'',
     rv_normalizedUsername := ''alice123'', rv_activeUsernameKey := Some ''alice123'',
     rv_draftNonce := Some ''d'', rv_expiresAt := Some 5000\<rparr>"

definition shop_bound :: reservation_row where
  "shop_bound = shop_hold\<lparr>rv_status := Reservation_BOUND, rv_checkoutSessionId := Some ''k'',
     rv_expiresAt := None\<rparr>"

definition shop_code :: discount_row where
  "shop_code = sample_discount\<lparr>dc_id := ''c'', dc_code := ''TEN'', dc_value := 10,
     dc_perUserUsageLimit := Some 1\<rparr>"

definition shop_setting :: "string \<Rightarrow> string \<Rightarrow> setting_row" where
  "shop_setting k v = sample_setting\<lparr>st_key := k, st_value := v\<rparr>"

definition shop_state :: lb_state_row where
  "shop_state = sample_lb_state\<lparr>lb_id := ''s'', lb_userId := ''u''\<rparr>"

definition shop :: db where
  "shop = (empty_db show_nat)\<lparr>users := [sample_user\<lparr>u_id := ''u'', u_balanceToman := 1000\<rparr>],
     categories := [sample_category\<lparr>cat_id := ''g''\<rparr>], panels := [shop_panel],
     products := [shop_product ''1234abcd''], services := [shop_service], discounts := [shop_code],
     reservations := [shop_hold],
     settings := [shop_setting LOW_BALANCE_ENABLED_KEY ''true'',
       shop_setting LOW_BALANCE_THRESHOLD_KEY ''500'',
       shop_setting LOW_BALANCE_REARM_MARGIN_KEY ''100'',
       shop_setting LOW_BALANCE_CONFIG_VERSION_KEY ''1'']\<rparr>"

definition armed_shop :: db where "armed_shop = shop\<lparr>lb_states := [shop_state]\<rparr>"

definition bound_shop :: db where "bound_shop = shop\<lparr>reservations := [shop_bound]\<rparr>"

lemmas shop_defs = shop_def armed_shop_def bound_shop_def shop_panel_def shop_product_def
  shop_service_def shop_hold_def shop_bound_def shop_code_def shop_setting_def shop_state_def

definition succeeded :: "'e + 'a \<Rightarrow> bool" where
  "succeeded x = (case x of Inl _ \<Rightarrow> False | Inr _ \<Rightarrow> True)"

lemma succeededE:
  assumes "succeeded x"
  obtains a where "x = Inr a"
  using assms by (cases x) (auto simp: succeeded_def)

lemma shop_names: "show_nat n \<noteq> ''h''" "show_nat n \<noteq> ''s''"
proof -
  have "\<not> is_digit CHR ''h''" "\<not> is_digit CHR ''s''" by (simp_all add: is_digit_def char_code_def)
  then show "show_nat n \<noteq> ''h''" "show_nat n \<noteq> ''s''" using show_nat_digits [of n] by auto
qed

lemma shop_reservations_ok: "rv_ok shop" "unique_by rv_id (reservations bound_shop)"
  by (simp_all add: rv_ok_def rows_ok_def row_ok_def unique_by_def fresh_for_def inj_def shop_defs
      sample_defs active_def rebindable_def ACTIVE_STATUSES_def REBINDABLE_STATUSES_def shop_names)

lemma shop_alerts_ok: "alerts_ok armed_shop" "lb_ok shop"
  by (simp_all add: alerts_ok_def lb_ok_def cycles_ok_def unique_by_def fresh_for_def inj_def shop_defs
      sample_defs shop_names)

section \<open>Services, catalogue and discounts\<close>

theorem resolveOwnedService_exact_witness:
  "resolveOwnedService shop ''u'' ''01234567'' Cap_renewService = Some (shop_service, shop_panel)
    \<and> servicePublicId shop_service = ''01234567''"
proof -
  have u: "unique_by sv_id (services shop)" by (simp add: unique_by_def shop_def)
  show ?thesis
    unfolding resolveOwnedService_exact [OF u] by code_simp
qed

theorem visible_product_provisionable_witness:
  "\<exists>pn. p_panel (hd (all_products shop)) = Some pn \<and> panelOperationAvailable pn Cap_createService"
proof -
  have "isProductVisible (hd (all_products shop)) UserGroup_F" by code_simp
  moreover have "pr_type (p_row (hd (all_products shop))) = ProductType_SERVICE_PRODUCT" by code_simp
  ultimately show ?thesis using visible_product_provisionable by blast
qed

theorem resolve_catalog_product_witness:
  "resolvePurchasableProduct shop UserGroup_F ''1234ABCD'' = Some (hd (all_products shop))"
proof -
  have "hex8 ''1234ABCD''" by code_simp
  moreover have "length (filter (product_match ''1234ABCD'') (all_products shop)) = 1 \<and>
      product_match ''1234ABCD'' (hd (all_products shop)) \<and> length (all_products shop) = 1" by code_simp
  then have "filter (product_match ''1234ABCD'') (all_products shop) = [hd (all_products shop)]"
    by (cases "all_products shop") auto
  moreover have "isProductVisible (hd (all_products shop)) UserGroup_F" by code_simp
  ultimately show ?thesis using resolve_catalog_product by blast
qed

lemma shop_validates:
  "(case validateDiscountCode shop 1000 '' ten '' ''u'' UserGroup_F 700 Purpose_PURCHASE of
      Inr v \<Rightarrow> dv_discountCode v = shop_code \<and> dv_discountAmountToman v = 70 | Inl _ \<Rightarrow> False)"
  by code_simp

lemma shop_valid:
  obtains v where "validateDiscountCode shop 1000 '' ten '' ''u'' UserGroup_F 700 Purpose_PURCHASE = Inr v"
    and "dv_discountCode v = shop_code" and "dv_discountAmountToman v = 70"
  using shop_validates by (auto split: sum.splits)

theorem validated_discount_amounts_witness:
  "\<exists>v. validateDiscountCode shop 1000 '' ten '' ''u'' UserGroup_F 700 Purpose_PURCHASE = Inr v
    \<and> dv_finalPriceToman v = 630"
proof (rule shop_valid)
  fix v
  assume v: "validateDiscountCode shop 1000 '' ten '' ''u'' UserGroup_F 700 Purpose_PURCHASE = Inr v"
    "dv_discountAmountToman v = 70"
  from validated_discount_amounts [OF v(1)] v show ?thesis by auto
qed

definition shop_claim :: claim_args where
  "shop_claim = \<lparr>ca_discountCodeId = ''c'', ca_userId = ''u'', ca_orderId = ''o'',
     ca_checkoutSessionId = ''k'', ca_amountToman = 70\<rparr>"

lemma shop_codes_unique: "unique_by dc_id (discounts shop)"
  by (simp add: unique_by_def shop_def)

theorem claim_respects_limits_witness:
  "\<exists>s'. (claimDiscountUsage 1000 shop_claim shop :: unit thrown + _) = Inr (ClaimOk False, s')
    \<and> usage_count s' ''c'' ''u'' \<le> 1"
proof -
  have "\<exists>s'. (claimDiscountUsage 1000 shop_claim shop :: unit thrown + _) = Inr (ClaimOk False, s')"
    unfolding claimDiscountUsage_exact [OF shop_codes_unique]
    by (simp add: claim_allowed_def shop_claim_def shop_defs sample_defs code_usable_def not_started_def
        has_expired_def limit_reached_def usage_count_def count_where_def int4_def INT4_MIN_def INT4_MAX_def)
  then obtain s' where s': "(claimDiscountUsage 1000 shop_claim shop :: unit thrown + _) = Inr (ClaimOk False, s')" ..
  from claim_respects_limits [OF shop_codes_unique s'] have "usage_count s' ''c'' ''u'' \<le> 1"
    by (auto simp: shop_claim_def shop_def shop_code_def)
  with s' show ?thesis by blast
qed

theorem validated_code_can_be_claimed_witness:
  "\<exists>again s'. (claimDiscountUsage 1000 shop_claim shop :: unit thrown + _) = Inr (ClaimOk again, s') \<and> \<not> again"
proof (rule shop_valid)
  fix v
  assume v: "validateDiscountCode shop 1000 '' ten '' ''u'' UserGroup_F 700 Purpose_PURCHASE = Inr v"
    "dv_discountCode v = shop_code" "dv_discountAmountToman v = 70"
  have "\<not> (\<exists>x \<in> set (usages shop). du_checkoutSessionId x = Some (ca_checkoutSessionId shop_claim))"
    by (simp add: shop_def empty_db_def)
  then show ?thesis
    using validated_code_can_be_claimed [OF v(1) shop_codes_unique, of shop_claim] v(2,3)
    by (auto simp: shop_claim_def shop_code_def INT4_MAX_def)
qed

section \<open>Low-balance alerts\<close>

definition shop_drop :: ObserveArgs where
  "shop_drop = \<lparr>oa_userId = ''u'', oa_balanceBeforeToman = Some 1000, oa_balanceAfterToman = 400\<rparr>"

lemma shop_observations:
  "succeeded (observeWalletBalance 1000 shop_drop armed_shop)"
  "succeeded (observeWalletBalance 1000 shop_drop shop)"
  "lc_enabled (readLowBalanceConfigRows shop)"
  "lc_thresholdToman (readLowBalanceConfigRows shop) = 500"
  by code_simp+

lemma shop_config: "readLowBalanceConfigRows armed_shop = readLowBalanceConfigRows shop"
  by (simp add: readLowBalanceConfigRows_def setting_or_empty_def setting_value_def armed_shop_def)

lemma shop_lookups:
  "find (\<lambda>u. u_id u = oa_userId shop_drop) (users armed_shop) = Some (sample_user\<lparr>u_id := ''u'', u_balanceToman := 1000\<rparr>)"
  "find (\<lambda>u. u_id u = oa_userId shop_drop) (users shop) = Some (sample_user\<lparr>u_id := ''u'', u_balanceToman := 1000\<rparr>)"
  "find (\<lambda>r. lb_userId r = oa_userId shop_drop) (lb_states armed_shop) = Some shop_state"
  "find (\<lambda>r. lb_userId r = oa_userId shop_drop) (lb_states shop) = None"
  by (simp_all add: shop_drop_def armed_shop_def shop_def shop_state_def empty_db_def)

theorem observer_implements_machine_witness:
  "\<exists>out s' r'. observeWalletBalance 1000 shop_drop armed_shop = Inr (out, s')
    \<and> find (\<lambda>r. lb_userId r = ''u'') (lb_states s') = Some r' \<and> lb_state r' = ALERTED
    \<and> lb_alertCycle r' = 1"
proof (rule succeededE [OF shop_observations(1)])
  fix a
  assume run: "observeWalletBalance 1000 shop_drop armed_shop = Inr a"
  obtain out s' where a: "a = (out, s')" by (cases a)
  have en: "lc_enabled (readLowBalanceConfigRows armed_shop)" using shop_observations(3) shop_config by simp
  have "evaluateLowBalanceTransition ARMED 400 (readLowBalanceConfigRows shop) = Transition_alert"
    by code_simp
  then show ?thesis
    using observer_implements_machine [OF shop_alerts_ok(1) [unfolded alerts_ok_def, THEN conjunct1] en
        shop_lookups(1,3) _ run [unfolded a]] run a
    by (auto simp: shop_drop_def shop_state_def sample_lb_state_def shop_config split: if_splits)
qed

theorem first_observation_witness:
  "\<exists>out s' r. observeWalletBalance 1000 shop_drop shop = Inr (out, s')
    \<and> find (\<lambda>r. lb_userId r = ''u'') (lb_states s') = Some r \<and> lb_state r = ALERTED
    \<and> lb_alertCycle r = 1"
proof (rule succeededE [OF shop_observations(2)])
  fix a
  assume run: "observeWalletBalance 1000 shop_drop shop = Inr a"
  obtain out s' where a: "a = (out, s')" by (cases a)
  have "oa_balanceBeforeToman shop_drop = Some 1000" by (simp add: shop_drop_def)
  from first_observation [OF shop_alerts_ok(2) shop_observations(3) shop_lookups(2,4) this refl refl refl
      run [unfolded a]]
  show ?thesis using run a by (auto simp: shop_observations(4) shop_drop_def split: if_splits)
qed

theorem one_message_per_cycle_witness:
  "\<exists>out s'. observeWalletBalance 1000 shop_drop armed_shop = Inr (out, s') \<and> alerts_ok s'"
proof (rule succeededE [OF shop_observations(1)])
  fix a
  assume run: "observeWalletBalance 1000 shop_drop armed_shop = Inr a"
  obtain out s' where a: "a = (out, s')" by (cases a)
  have "oa_balanceBeforeToman shop_drop \<noteq> None" by (simp add: shop_drop_def)
  from one_message_per_cycle [OF shop_alerts_ok(1) this run [unfolded a]] show ?thesis using run a by auto
qed

theorem missing_setting_reads_zero_witness:
  "lc_thresholdToman (readLowBalanceConfigRows (empty_db show_nat)) = 0"
proof -
  have "setting_value LOW_BALANCE_THRESHOLD_KEY (empty_db show_nat) = None"
    by (simp add: setting_value_def empty_db_def)
  then show ?thesis using missing_setting_reads_zero by blast
qed

theorem toman_amount_roundtrip_witness:
  "parseTomanAmount (map char_code (locale_int 100000)) = Inr 100000"
  using toman_amount_roundtrip [of _ _ 100000] by (simp add: INT32_MAX_def)

section \<open>Usernames and reservations\<close>

theorem username_validation_exact_witness:
  "validateServiceUsername '' Bobby123 '' = Inr ''bobby123'' \<and> 8 \<le> length ''bobby123''
    \<and> isValidServiceUsername ''bobby123''"
proof -
  have "''bobby123'' = js_lower (js_trim '' Bobby123 '') \<and> SERVICE_USERNAME_REGEX ''bobby123''"
    by code_simp
  then have v: "validateServiceUsername '' Bobby123 '' = Inr ''bobby123''"
    using username_validation_exact [THEN conjunct1, THEN iffD2] by blast
  show ?thesis
    using username_validation_exact [THEN conjunct2, THEN mp, OF v] v
    by (simp add: SERVICE_USERNAME_MIN_LENGTH_def)
qed

theorem random_username_valid_witness:
  "generateRandomServiceUsername (replicate 8 [0]) \<noteq> None"
proof -
  have h: "8 \<le> length (replicate 8 [0::nat])
      \<and> (\<forall>buf \<in> set (replicate 8 [0::nat]). \<exists>b \<in> set buf. b < rejection_limit 36)"
    by (simp add: rejection_limit_def)
  show ?thesis by (rule random_username_valid [THEN conjunct2, THEN conjunct1, THEN mp, OF h])
qed

theorem accepted_note_is_clean_witness:
  "normalizeServiceNote [72, 105, 10, 10, 10, 10, 33, 9] = Inr [72, 105, 10, 10, 33]
    \<and> no_triple_break [72, 105, 10, 10, 33]"
proof -
  have n: "normalizeServiceNote [72, 105, 10, 10, 10, 10, 33, 9] = Inr [72, 105, 10, 10, 33]"
    by (simp add: normalizeServiceNote_def unify_breaks_def isControlCodePoint_def
        REJECTED_FORMAT_CODE_POINTS_def strip_end_def wide_trim_def wide_ws_def countCodePoints_def
        SERVICE_NOTE_MAX_CODE_POINTS_def)
  from accepted_note_is_clean [OF n] n show ?thesis by blast
qed

theorem reservations_stay_exclusive_witness:
  "rv_ok (releaseReservation ''h'' 2000 shop)"
proof -
  have "reservation_step\<^sup>*\<^sup>* shop (releaseReservation ''h'' 2000 shop)"
    by (rule r_into_rtranclp) (rule reservation_step.release)
  then show ?thesis using reservations_stay_exclusive shop_reservations_ok(1) by blast
qed

definition shop_claim_args :: ReservationClaimArgs where
  "shop_claim_args = \<lparr>rc_reservationId = ''h'', rc_userId = ''u'', rc_draftNonce = Some ''d'',
     rc_normalizedUsername = ''alice123'', rc_mode = UsernameMode_CUSTOM, rc_panelId = ''n''\<rparr>"

theorem claim_is_exclusive_witness:
  "\<exists>s'. (claimReservationForCheckout shop_claim_args ''k'' 1000 shop :: unit thrown + _) = Inr (True, s')
    \<and> \<not> isReservationClaimable shop_claim_args 1000 s'"
proof -
  have u: "unique_by rv_id (reservations shop)" by (simp add: unique_by_def shop_def)
  have "isReservationClaimable shop_claim_args 1000 shop" by code_simp
  then obtain s' where "(claimReservationForCheckout shop_claim_args ''k'' 1000 shop :: unit thrown + _) = Inr (True, s')"
    unfolding claim_exact [OF u] by blast
  with claim_is_exclusive [OF u this] show ?thesis by blast
qed

definition shop_reserve :: "ServiceUsernameMode \<Rightarrow> ReserveArgs" where
  "shop_reserve m = \<lparr>ra_userId = ''u'', ra_panelId = ''n'', ra_mode = m,
     ra_normalizedUsername = ''alice123'', ra_draftNonce = Some ''d''\<rparr>"

theorem reserved_name_is_claimable_witness:
  "\<exists>i s'. reserveServiceUsername id id (\<lambda>p n. Probe_not_found) 1000 (shop_reserve UsernameMode_CUSTOM) shop
      = (Reserved i ''alice123'' UsernameMode_CUSTOM, s')
    \<and> isReservationClaimable (claim_of (shop_reserve UsernameMode_CUSTOM) i) 2000 s'"
proof -
  let ?run = "reserveServiceUsername id id (\<lambda>p n. Probe_not_found) 1000 (shop_reserve UsernameMode_CUSTOM) shop"
  have "fst ?run = Reserved ''h'' ''alice123'' UsernameMode_CUSTOM" by code_simp
  then have run: "?run = (Reserved ''h'' ''alice123'' UsernameMode_CUSTOM, snd ?run)" by (metis prod.collapse)
  have "\<forall>r \<in> set (reservations shop). rv_mode r = ra_mode (shop_reserve UsernameMode_CUSTOM)"
    by (simp add: shop_def shop_hold_def sample_reservation_def shop_reserve_def)
  then have m: "\<forall>r \<in> set (reservations shop).
      draft_hold (ra_userId (shop_reserve UsernameMode_CUSTOM)) (ra_draftNonce (shop_reserve UsernameMode_CUSTOM))
        (ra_panelId (shop_reserve UsernameMode_CUSTOM)) r
      \<and> rv_normalizedUsername r = ra_normalizedUsername (shop_reserve UsernameMode_CUSTOM) \<longrightarrow>
      rv_mode r = ra_mode (shop_reserve UsernameMode_CUSTOM)"
    by blast
  have t: "(2000::int) < 1000 + RESERVATION_HELD_TTL_MS" by (simp add: RESERVATION_HELD_TTL_MS_def)
  from reserved_name_is_claimable [OF shop_reservations_ok(1) run m t] run show ?thesis by blast
qed

theorem mode_switch_unclaimable_witness:
  "\<exists>s'. reserveServiceUsername id id (\<lambda>p n. Probe_not_found) 1000 (shop_reserve UsernameMode_RANDOM) shop
      = (Reserved ''h'' ''alice123'' UsernameMode_RANDOM, s')
    \<and> \<not> isReservationClaimable (claim_of (shop_reserve UsernameMode_RANDOM) ''h'') 2000 s'"
proof -
  have a: "shop_hold \<in> set (reservations shop)" by (simp add: shop_def)
  have b: "draft_hold (ra_userId (shop_reserve UsernameMode_RANDOM)) (ra_draftNonce (shop_reserve UsernameMode_RANDOM))
      (ra_panelId (shop_reserve UsernameMode_RANDOM)) shop_hold" by code_simp
  have c: "rv_status shop_hold = Reservation_HELD"
      "rv_normalizedUsername shop_hold = ra_normalizedUsername (shop_reserve UsernameMode_RANDOM)"
      "rv_mode shop_hold \<noteq> ra_mode (shop_reserve UsernameMode_RANDOM)"
      "SERVICE_USERNAME_REGEX (ra_normalizedUsername (shop_reserve UsernameMode_RANDOM))" by code_simp+
  have d: "find (\<lambda>p. pn_id p = ra_panelId (shop_reserve UsernameMode_RANDOM)) (panels shop) = Some shop_panel"
      "pn_status shop_panel = PanelStatus_ACTIVE"
    by (simp_all add: shop_def shop_panel_def shop_reserve_def sample_panel_def)
  have "rv_id shop_hold = ''h''" "ra_normalizedUsername (shop_reserve UsernameMode_RANDOM) = ''alice123''"
      "ra_mode (shop_reserve UsernameMode_RANDOM) = UsernameMode_RANDOM"
    by (simp_all add: shop_hold_def shop_reserve_def)
  with mode_switch_unclaimable [OF shop_reservations_ok(1) a b c d, of "\<lambda>p n. Probe_not_found" 1000]
  show ?thesis by auto
qed

definition shop_bind :: ReservationOrderBindArgs where
  "shop_bind = \<lparr>rb_reservationId = ''h'', rb_userId = ''u'', rb_checkoutSessionId = ''k'',
     rb_panelId = ''n'', rb_normalizedUsername = ''alice123'', rb_orderId = ''o''\<rparr>"

theorem attach_binds_one_order_witness:
  "\<exists>s'. attachReservationToOrder shop_bind 1000 bound_shop = Inr ((), s')
    \<and> attachReservationToOrder (shop_bind\<lparr>rb_orderId := ''other''\<rparr>) 2000 s' =
        Inl (Thrown (ReservationInvariantError ''ORDER_BIND_NO_MATCH''))"
proof (rule succeededE [of "attachReservationToOrder shop_bind 1000 bound_shop"])
  show "succeeded (attachReservationToOrder shop_bind 1000 bound_shop)" by code_simp
  fix a
  assume "attachReservationToOrder shop_bind 1000 bound_shop = Inr a"
  then obtain s' where run: "attachReservationToOrder shop_bind 1000 bound_shop = Inr ((), s')"
    by (cases a) auto
  have "''other'' \<noteq> rb_orderId shop_bind" by (simp add: shop_bind_def)
  with attach_binds_one_order [OF shop_reservations_ok(2) run] run show ?thesis by blast
qed

theorem random_reservation_terminates_witness:
  "\<exists>res s'. reserveRandomServiceUsername (\<lambda>n. (id, id)) (\<lambda>p n. Probe_not_found) 1000 ''u'' ''n''
      (Some ''e'') (replicate 80 [0]) shop = Some (res, s')"
proof -
  have h: "80 \<le> length (replicate 80 [0::nat])
      \<and> (\<forall>buf \<in> set (replicate 80 [0::nat]). \<exists>b \<in> set buf. b < rejection_limit 36)"
    by (simp add: rejection_limit_def)
  show ?thesis by (rule random_reservation_terminates [THEN conjunct1, THEN mp, OF h])
qed

end
