(* ===== verification/Dates.thy ===== *)
theory Dates
  imports Prelude
begin

text \<open>
  Dates of the language's standard library: a date is its number of milliseconds since 1970, and
  \<open>toISOString\<close> prints it in the proleptic Gregorian calendar.
\<close>

definition DAY_MS :: int where "DAY_MS = 86400000"

text \<open>The civil date of a day number, counted in 400-year cycles that begin on the first of March.\<close>

definition civil_of_day :: "int \<Rightarrow> int \<times> int \<times> int" where
  "civil_of_day day =
     (let z = day + 719468;
          era = z div 146097;
          doe = z mod 146097;
          yoe = (doe - doe div 1460 + doe div 36524 - doe div 146096) div 365;
          doy = doe - (365 * yoe + yoe div 4 - yoe div 100);
          mp = (5 * doy + 2) div 153;
          d = doy - (153 * mp + 2) div 5 + 1;
          m = (if mp < 10 then mp + 3 else mp - 9)
      in (yoe + era * 400 + (if m \<le> 2 then 1 else 0), m, d))"

definition pad_left :: "nat \<Rightarrow> int \<Rightarrow> string" where
  "pad_left n k = (let s = show_int k in replicate (n - length s) (CHR ''0'') @ s)"

definition iso_year :: "int \<Rightarrow> string" where
  "iso_year y =
     (if 0 \<le> y \<and> y \<le> 9999 then pad_left 4 y
      else (if y < 0 then ''-'' else ''+'') @ pad_left 6 (abs y))"

definition toISOString :: "int \<Rightarrow> string" where
  "toISOString t =
     (let ms = t mod DAY_MS
      in case civil_of_day (t div DAY_MS) of (y, m, d) \<Rightarrow>
        iso_year y @ ''-'' @ pad_left 2 m @ ''-'' @ pad_left 2 d @ ''T''
        @ pad_left 2 (ms div 3600000) @ '':'' @ pad_left 2 (ms div 60000 mod 60) @ '':''
        @ pad_left 2 (ms div 1000 mod 60) @ ''.'' @ pad_left 3 (ms mod 1000) @ ''Z'')"

end
