(* ===== verification/Options.thy ===== *)
theory Options
  imports Catalog Dates
begin

text \<open>
  What a person may buy for a service they already own: renewal plans, extra volume and extra time
  (packages/service-renewal/src/options.ts). The listing, and the resolution of one chosen option.
\<close>

section \<open>The rules of the three operations\<close>

record OperationRule =
  ru_capability :: PanelCapability
  ru_statuses :: "ServiceStatus list"
  ru_rolloutKey :: string

fun OPERATION_RULES :: "ServiceOperation \<Rightarrow> OperationRule" where
  "OPERATION_RULES RENEWAL =
     \<lparr>ru_capability = Cap_renewService,
      ru_statuses = [ServiceStatus_ACTIVE, ServiceStatus_EXPIRED, ServiceStatus_LIMITED,
        ServiceStatus_DISABLED],
      ru_rolloutKey = MINIAPP_WALLET_RENEWAL_ENABLED_KEY\<rparr>"
| "OPERATION_RULES EXTRA_VOLUME =
     \<lparr>ru_capability = Cap_addVolume,
      ru_statuses = [ServiceStatus_ACTIVE, ServiceStatus_LIMITED],
      ru_rolloutKey = MINIAPP_WALLET_ADDONS_ENABLED_KEY\<rparr>"
| "OPERATION_RULES EXTRA_TIME =
     \<lparr>ru_capability = Cap_addTime,
      ru_statuses = [ServiceStatus_ACTIVE, ServiceStatus_EXPIRED, ServiceStatus_LIMITED,
        ServiceStatus_DISABLED],
      ru_rolloutKey = MINIAPP_WALLET_ADDONS_ENABLED_KEY\<rparr>"

definition operationCapability :: "ServiceOperation \<Rightarrow> PanelCapability" where
  "operationCapability operation = ru_capability (OPERATION_RULES operation)"

definition operationRolloutKey :: "ServiceOperation \<Rightarrow> string" where
  "operationRolloutKey operation = ru_rolloutKey (OPERATION_RULES operation)"

definition serviceEligibleForOperation :: "service_row \<Rightarrow> ServiceOperation \<Rightarrow> bool" where
  "serviceEligibleForOperation service operation =
     (if sv_status service \<notin> set (ru_statuses (OPERATION_RULES operation)) then False
      else if operation = EXTRA_VOLUME then sv_volumeBytes service > 0
      else if operation = EXTRA_TIME then sv_expiresAt service \<noteq> None
      else True)"

section \<open>The candidates of an operation on one panel\<close>

text \<open>The columns common to the three queries.\<close>

definition sold_on_panel :: "string \<Rightarrow> product_with_relations \<Rightarrow> bool" where
  "sold_on_panel panelId p \<longleftrightarrow>
     pr_type (p_row p) = ProductType_SERVICE_PRODUCT \<and> pr_isActive (p_row p)
     \<and> pr_panelId (p_row p) = Some panelId \<and> cat_isActive (p_category p)
     \<and> (case p_panel p of None \<Rightarrow> False | Some pn \<Rightarrow> pn_status pn = PanelStatus_ACTIVE)"

definition positive :: "int option \<Rightarrow> bool" where
  "positive x = (case x of None \<Rightarrow> False | Some n \<Rightarrow> n > 0)"

definition or_zero :: "int option \<Rightarrow> int" where
  "or_zero x = (case x of None \<Rightarrow> 0 | Some n \<Rightarrow> n)"

definition shown_to :: "UserGroup \<Rightarrow> product_with_relations \<Rightarrow> bool" where
  "shown_to grp p \<longleftrightarrow> groupMatches (pr_displayGroups (p_row p)) grp"

definition renewalPlansForPanel :: "UserGroup \<Rightarrow> string \<Rightarrow> db \<Rightarrow> product_with_relations list" where
  "renewalPlansForPanel grp panelId s =
     filter (shown_to grp)
       (sort_key (\<lambda>p. [cat_displayOrder (p_category p), pr_displayOrder (p_row p),
           pr_priceToman (p_row p), pr_createdAt (p_row p)])
         (filter (sold_on_panel panelId) (all_products s)))"

definition extraVolumePackages :: "UserGroup \<Rightarrow> string \<Rightarrow> db \<Rightarrow> product_with_relations list" where
  "extraVolumePackages grp panelId s =
     filter (shown_to grp)
       (sort_key (\<lambda>p. [or_zero (pr_volumeGb (p_row p)), pr_priceToman (p_row p),
           pr_displayOrder (p_row p)])
         (filter (\<lambda>p. sold_on_panel panelId p \<and> positive (pr_volumeGb (p_row p))
             \<and> pr_priceToman (p_row p) > 0)
           (all_products s)))"

definition extraTimePackages :: "UserGroup \<Rightarrow> string \<Rightarrow> db \<Rightarrow> product_with_relations list" where
  "extraTimePackages grp panelId s =
     filter (shown_to grp)
       (sort_key (\<lambda>p. [or_zero (pr_durationDays (p_row p)), pr_priceToman (p_row p),
           pr_displayOrder (p_row p)])
         (filter (\<lambda>p. sold_on_panel panelId p \<and> positive (pr_durationDays (p_row p))
             \<and> pr_priceToman (p_row p) > 0)
           (all_products s)))"

fun operationProductsForPanel ::
  "ServiceOperation \<Rightarrow> UserGroup \<Rightarrow> string \<Rightarrow> db \<Rightarrow> product_with_relations list" where
  "operationProductsForPanel RENEWAL grp panelId s = renewalPlansForPanel grp panelId s"
| "operationProductsForPanel EXTRA_VOLUME grp panelId s = extraVolumePackages grp panelId s"
| "operationProductsForPanel EXTRA_TIME grp panelId s = extraTimePackages grp panelId s"

section \<open>The re-check of one option\<close>

text \<open>The conditions common to the three predicates; the capability is the operation's own.\<close>

definition sold_for_service ::
  "PanelCapability \<Rightarrow> product_with_relations \<Rightarrow> service_row \<Rightarrow> bool" where
  "sold_for_service capability product service \<longleftrightarrow>
     pr_type (p_row product) = ProductType_SERVICE_PRODUCT
     \<and> pr_isActive (p_row product)
     \<and> cat_isActive (p_category product)
     \<and> pr_panelId (p_row product) = Some (sv_panelId service)
     \<and> (case p_panel product of None \<Rightarrow> False
        | Some panel \<Rightarrow> panelOperationAvailable panel capability)
     \<and> serviceSupportsGlobalLifecycle service"

definition isRenewalPlanValid ::
  "product_with_relations \<Rightarrow> service_row \<Rightarrow> UserGroup \<Rightarrow> bool" where
  "isRenewalPlanValid product service grp \<longleftrightarrow>
     sold_for_service Cap_renewService product service
     \<and> groupMatches (pr_displayGroups (p_row product)) grp"

definition isExtraVolumePackageValid ::
  "product_with_relations \<Rightarrow> service_row \<Rightarrow> UserGroup \<Rightarrow> bool" where
  "isExtraVolumePackageValid product service grp \<longleftrightarrow>
     sold_for_service Cap_addVolume product service
     \<and> or_zero (pr_volumeGb (p_row product)) > 0
     \<and> pr_priceToman (p_row product) > 0
     \<and> groupMatches (pr_displayGroups (p_row product)) grp"

definition isExtraTimePackageValid ::
  "product_with_relations \<Rightarrow> service_row \<Rightarrow> UserGroup \<Rightarrow> bool" where
  "isExtraTimePackageValid product service grp \<longleftrightarrow>
     sold_for_service Cap_addTime product service
     \<and> or_zero (pr_durationDays (p_row product)) > 0
     \<and> pr_priceToman (p_row product) > 0
     \<and> groupMatches (pr_displayGroups (p_row product)) grp"

fun isOperationOptionValid ::
  "ServiceOperation \<Rightarrow> product_with_relations \<Rightarrow> service_row \<Rightarrow> UserGroup \<Rightarrow> bool" where
  "isOperationOptionValid RENEWAL product service grp = isRenewalPlanValid product service grp"
| "isOperationOptionValid EXTRA_VOLUME product service grp =
     isExtraVolumePackageValid product service grp"
| "isOperationOptionValid EXTRA_TIME product service grp =
     isExtraTimePackageValid product service grp"

section \<open>What the browser sees\<close>

definition OPTION_PUBLIC_ID_LENGTH :: nat where "OPTION_PUBLIC_ID_LENGTH = 8"

definition optionPublicId :: "string \<Rightarrow> string" where
  "optionPublicId i = take OPTION_PUBLIC_ID_LENGTH i"

definition isOptionPublicId :: "json \<Rightarrow> bool" where
  "isOptionPublicId v = (case v of JStr s \<Rightarrow> hex8 s | _ \<Rightarrow> False)"

interpretation option_id: public_id hex8 optionPublicId
  by unfold_locales
    (simp_all add: hex8_lower js_lower_idem optionPublicId_def OPTION_PUBLIC_ID_LENGTH_def hex8_length)

record option_dto =
  op_optionId :: string
  op_operation :: ServiceOperation
  op_label :: string
  op_durationDays :: "int option"
  op_trafficGb :: "int option"
  op_priceToman :: int
  op_currency :: string
  op_available :: bool

record target_dto =
  tg_serviceId :: string
  tg_label :: string
  tg_status :: ServiceStatus
  tg_expiresAt :: "string option"
  tg_volumeBytes :: string
  tg_remainingBytes :: string

definition toTargetDto :: "service_row \<Rightarrow> target_dto" where
  "toTargetDto service =
     \<lparr>tg_serviceId = take OPTION_PUBLIC_ID_LENGTH (sv_id service),
      tg_label = sv_username service,
      tg_status = sv_status service,
      tg_expiresAt = map_option toISOString (sv_expiresAt service),
      tg_volumeBytes = show_int (sv_volumeBytes service),
      tg_remainingBytes = show_int (sv_remainingBytes service)\<rparr>"

definition toOptionDto :: "product_with_relations \<Rightarrow> ServiceOperation \<Rightarrow> option_dto" where
  "toOptionDto product operation =
     \<lparr>op_optionId = optionPublicId (pr_id (p_row product)),
      op_operation = operation,
      op_label = pr_name (p_row product),
      op_durationDays = (if operation = EXTRA_VOLUME then None else pr_durationDays (p_row product)),
      op_trafficGb = (if operation = EXTRA_TIME then None else pr_volumeGb (p_row product)),
      op_priceToman = pr_priceToman (p_row product),
      op_currency = ''IRT'',
      op_available = True\<rparr>"

section \<open>Listing and resolution\<close>

record OptionListArgs =
  ol_userId :: string
  ol_publicServiceId :: string
  ol_operation :: ServiceOperation
  ol_group :: UserGroup

definition option_key :: "product_with_relations \<Rightarrow> string" where
  "option_key p = js_lower (optionPublicId (pr_id (p_row p)))"

definition seen_counts :: "product_with_relations list \<Rightarrow> string \<Rightarrow> nat" where
  "seen_counts ps = fold (\<lambda>p seen. seen(option_key p := seen (option_key p) + 1)) ps (\<lambda>_. 0)"

definition withoutCollidingIds :: "product_with_relations list \<Rightarrow> product_with_relations list" where
  "withoutCollidingIds ps = filter (\<lambda>p. seen_counts ps (option_key p) = 1) ps"

definition listServiceOperationOptions ::
  "db \<Rightarrow> OptionListArgs \<Rightarrow> CommerceResultCode + target_dto \<times> option_dto list" where
  "listServiceOperationOptions s args =
     (case resolveOwnedService s (ol_userId args) (ol_publicServiceId args)
         (operationCapability (ol_operation args)) of
        None \<Rightarrow> Inl SERVICE_NOT_FOUND
      | Some (service, panel) \<Rightarrow>
          if \<not> serviceEligibleForOperation service (ol_operation args) then Inl SERVICE_NOT_ELIGIBLE
          else
            let candidates = operationProductsForPanel (ol_operation args) (ol_group args)
                  (sv_panelId service) s;
                eligible = filter
                  (\<lambda>p. isOperationOptionValid (ol_operation args) p service (ol_group args)) candidates
            in Inr (toTargetDto service,
                 map (\<lambda>p. toOptionDto p (ol_operation args)) (withoutCollidingIds eligible)))"

record option_resolution =
  rs_owned :: "service_row \<times> panel_row"
  rs_product :: product_with_relations
  rs_option :: option_dto
  rs_target :: target_dto

definition resolveServiceOperationOption ::
  "db \<Rightarrow> OptionListArgs \<Rightarrow> string \<Rightarrow> CommerceResultCode + option_resolution" where
  "resolveServiceOperationOption s args publicOptionId =
     (case resolveOwnedService s (ol_userId args) (ol_publicServiceId args)
         (operationCapability (ol_operation args)) of
        None \<Rightarrow> Inl SERVICE_NOT_FOUND
      | Some (service, panel) \<Rightarrow>
          if \<not> serviceEligibleForOperation service (ol_operation args) then Inl SERVICE_NOT_ELIGIBLE
          else if \<not> isOptionPublicId (JStr publicOptionId) then Inl OPTION_UNAVAILABLE
          else
            let candidates = operationProductsForPanel (ol_operation args) (ol_group args)
                  (sv_panelId service) s;
                wanted = js_lower publicOptionId;
                matches = filter (\<lambda>p. option_key p = wanted
                  \<and> isOperationOptionValid (ol_operation args) p service (ol_group args)) candidates
            in case matches of
                 [product] \<Rightarrow>
                   Inr \<lparr>rs_owned = (service, panel), rs_product = product,
                     rs_option = toOptionDto product (ol_operation args),
                     rs_target = toTargetDto service\<rparr>
               | _ \<Rightarrow> Inl OPTION_UNAVAILABLE)"

section \<open>Listed and choosable are one set\<close>

lemma seen_counts_eq: "seen_counts ps k = length (filter (\<lambda>p. option_key p = k) ps)"
proof -
  have "fold (\<lambda>p seen. seen(option_key p := seen (option_key p) + 1)) ps f k =
      f k + length (filter (\<lambda>p. option_key p = k) ps)" for f
    by (induction ps arbitrary: f) auto
  then show ?thesis by (simp add: seen_counts_def)
qed

lemma colliding_single:
  "p \<in> set (withoutCollidingIds ps) \<and> option_key p = k \<longleftrightarrow> filter (\<lambda>q. option_key q = k) ps = [p]"
  (is "?l \<longleftrightarrow> ?f = [p]")
proof
  assume l: ?l
  then have "length ?f = 1" and p: "p \<in> set ?f"
    by (auto simp: withoutCollidingIds_def seen_counts_eq)
  then obtain y where y: "?f = [y]" by (auto simp: length_Suc_conv)
  with p have "p \<in> set [y]" by argo
  with y show "?f = [p]" by simp
next
  assume f: "?f = [p]"
  have "p \<in> set ?f" unfolding f by simp
  then have "p \<in> set ps" "option_key p = k" by simp_all
  with f show ?l by (simp add: withoutCollidingIds_def seen_counts_eq)
qed

lemma option_key_dto: "js_lower (op_optionId (toOptionDto p oper)) = option_key p"
  by (simp add: toOptionDto_def option_key_def)

lemma distinct_option_keys: "distinct (map option_key (withoutCollidingIds ps))"
proof -
  have "distinct (map option_key (filter (\<lambda>p. length (filter (\<lambda>q. option_key q = option_key p) ps) = 1) qs))"
    if "\<And>k. length (filter (\<lambda>q. option_key q = k) qs) \<le> length (filter (\<lambda>q. option_key q = k) ps)" for qs
    using that
  proof (induction qs)
    case (Cons x qs)
    have "length (filter (\<lambda>q. option_key q = k) qs) \<le> length (filter (\<lambda>q. option_key q = k) ps)" for k
      using Cons.prems [of k] by (auto split: if_splits)
    moreover have "option_key x \<notin> option_key ` set qs"
      if "length (filter (\<lambda>q. option_key q = option_key x) ps) = 1"
    proof
      assume "option_key x \<in> option_key ` set qs"
      then have "filter (\<lambda>q. option_key q = option_key x) qs \<noteq> []"
        by (auto simp: filter_empty_conv)
      then show False using Cons.prems [of "option_key x"] that by simp
    qed
    ultimately show ?case using Cons.IH by auto
  qed simp
  then show ?thesis by (simp add: withoutCollidingIds_def seen_counts_eq)
qed

text \<open>
  What may be listed and what may be chosen are one set: resolving an option refuses exactly
  as listing does when the service is not the caller's or not eligible; otherwise an identifier
  resolves, in upper or lower case, exactly when it is well formed and the listing shows an option
  under it, and to that very option. No two listed options share an identifier.
\<close>

theorem listed_options_are_the_choosable:
  "case listServiceOperationOptions s args of
     Inl code \<Rightarrow> resolveServiceOperationOption s args pid = Inl code
   | Inr (target, options) \<Rightarrow>
       distinct (map (\<lambda>opt. js_lower (op_optionId opt)) options)
       \<and> (\<forall>opt. (\<exists>res. resolveServiceOperationOption s args pid = Inr res \<and> rs_option res = opt)
            \<longleftrightarrow> hex8 pid \<and> opt \<in> set options \<and> js_lower (op_optionId opt) = js_lower pid)"
proof (cases "listServiceOperationOptions s args")
  case (Inl code)
  then show ?thesis
    by (auto simp: listServiceOperationOptions_def resolveServiceOperationOption_def Let_def
        split: option.splits if_splits)
next
  case (Inr r)
  then obtain sv pn where own: "resolveOwnedService s (ol_userId args) (ol_publicServiceId args)
        (operationCapability (ol_operation args)) = Some (sv, pn)"
    and el: "serviceEligibleForOperation sv (ol_operation args)"
    by (auto simp: listServiceOperationOptions_def split: option.splits if_splits)
  let ?valid = "\<lambda>p. isOperationOptionValid (ol_operation args) p sv (ol_group args)"
  let ?ps = "filter ?valid
    (operationProductsForPanel (ol_operation args) (ol_group args) (sv_panelId sv) s)"
  let ?dto = "\<lambda>p. toOptionDto p (ol_operation args)"
  have r: "snd r = map ?dto (withoutCollidingIds ?ps)"
    using Inr own el by (auto simp: listServiceOperationOptions_def Let_def)
  have single: "(case xs of [p] \<Rightarrow> Inr (f p) | _ \<Rightarrow> Inl c) = Inr y \<longleftrightarrow> (\<exists>p. xs = [p] \<and> y = f p)"
    for xs :: "product_with_relations list" and f :: "product_with_relations \<Rightarrow> option_resolution"
      and c :: CommerceResultCode and y
    by (auto split: list.splits)
  have f: "filter (\<lambda>p. option_key p = js_lower pid \<and> ?valid p) xs =
      filter (\<lambda>p. option_key p = js_lower pid) (filter ?valid xs)" for xs
    by (induction xs) auto
  have res: "resolveServiceOperationOption s args pid =
      (if hex8 pid then
         case filter (\<lambda>p. option_key p = js_lower pid) ?ps of
           [p] \<Rightarrow> Inr \<lparr>rs_owned = (sv, pn), rs_product = p, rs_option = ?dto p,
             rs_target = toTargetDto sv\<rparr>
         | _ \<Rightarrow> Inl OPTION_UNAVAILABLE
       else Inl OPTION_UNAVAILABLE)"
    using el by (simp add: resolveServiceOperationOption_def own isOptionPublicId_def f del: filter_filter)
  have "(\<exists>res. resolveServiceOperationOption s args pid = Inr res \<and> rs_option res = opt) \<longleftrightarrow>
      hex8 pid \<and> (\<exists>p. filter (\<lambda>p. option_key p = js_lower pid) ?ps = [p] \<and> opt = ?dto p)" for opt
    by (cases "hex8 pid") (auto simp only: res if_True if_False single sum.distinct option_resolution.simps)
  moreover have "(hex8 pid \<and> (\<exists>p. filter (\<lambda>p. option_key p = js_lower pid) ?ps = [p] \<and> opt = ?dto p)) \<longleftrightarrow> hex8 pid \<and> (\<exists>p. (p \<in> set (withoutCollidingIds ?ps) \<and> option_key p = js_lower pid)
      \<and> opt = ?dto p)" for opt
    by (simp only: colliding_single)
  ultimately have choose: "(\<exists>res. resolveServiceOperationOption s args pid = Inr res \<and> rs_option res = opt) \<longleftrightarrow>
      hex8 pid \<and> opt \<in> set (snd r) \<and> js_lower (op_optionId opt) = js_lower pid" for opt
    unfolding r by (auto simp: option_key_dto)
  have "distinct (map (\<lambda>opt. js_lower (op_optionId opt)) (snd r))"
    using distinct_option_keys [of ?ps] by (simp add: r comp_def option_key_dto)
  then show ?thesis using choose by (cases r) (simp add: Inr)
qed

section \<open>A chosen option can be delivered\<close>

lemma valid_option_sold:
  "isOperationOptionValid oper p sv g \<Longrightarrow>
     sold_for_service (operationCapability oper) p sv \<and> shown_to g p
     \<and> (oper \<noteq> RENEWAL \<longrightarrow> pr_priceToman (p_row p) > 0)
     \<and> (oper = EXTRA_VOLUME \<longrightarrow> or_zero (pr_volumeGb (p_row p)) > 0)
     \<and> (oper = EXTRA_TIME \<longrightarrow> or_zero (pr_durationDays (p_row p)) > 0)"
  by (cases oper)
    (auto simp: operationCapability_def shown_to_def isRenewalPlanValid_def
      isExtraVolumePackageValid_def isExtraTimePackageValid_def)

lemma candidates_known:
  "p \<in> set (operationProductsForPanel oper g pid s) \<Longrightarrow> p \<in> set (all_products s) \<and> sold_on_panel pid p"
  by (cases oper) (auto simp: renewalPlansForPanel_def extraVolumePackages_def extraTimePackages_def)

lemma all_products_panel:
  assumes "p \<in> set (all_products s)" and "pr_panelId (p_row p) = Some i"
  shows "p_panel p = find (\<lambda>x. pn_id x = i) (panels s)"
  using assms by (auto simp: all_products_def in_map_filter with_relations_def split: option.splits)

lemma resolved_option:
  assumes "resolveServiceOperationOption s args pid = Inr res"
  obtains sv pn where "rs_owned res = (sv, pn)"
    and "resolveOwnedService s (ol_userId args) (ol_publicServiceId args)
           (operationCapability (ol_operation args)) = Some (sv, pn)"
    and "serviceEligibleForOperation sv (ol_operation args)"
    and "rs_product res \<in> set (operationProductsForPanel (ol_operation args) (ol_group args) (sv_panelId sv) s)"
    and "option_key (rs_product res) = js_lower pid"
    and "isOperationOptionValid (ol_operation args) (rs_product res) sv (ol_group args)"
    and "rs_option res = toOptionDto (rs_product res) (ol_operation args)"
    and "rs_target res = toTargetDto sv"
proof -
  obtain sv pn p where own: "resolveOwnedService s (ol_userId args) (ol_publicServiceId args)
        (operationCapability (ol_operation args)) = Some (sv, pn)"
    and el: "serviceEligibleForOperation sv (ol_operation args)"
    and f: "filter (\<lambda>p. option_key p = js_lower pid
        \<and> isOperationOptionValid (ol_operation args) p sv (ol_group args))
        (operationProductsForPanel (ol_operation args) (ol_group args) (sv_panelId sv) s) = [p]"
    and r: "res = \<lparr>rs_owned = (sv, pn), rs_product = p,
        rs_option = toOptionDto p (ol_operation args), rs_target = toTargetDto sv\<rparr>"
    using assms by (auto simp: resolveServiceOperationOption_def Let_def
        split: option.splits if_splits list.splits)
  have "p \<in> set (filter (\<lambda>p. option_key p = js_lower pid
        \<and> isOperationOptionValid (ol_operation args) p sv (ol_group args))
        (operationProductsForPanel (ol_operation args) (ol_group args) (sv_panelId sv) s))"
    unfolding f by simp
  with own el show ?thesis by (intro that) (simp_all add: r)
qed

text \<open>
  What is chosen can be delivered: a resolved option is a product of the very panel the
  service lives on, that panel is active, has its credentials and implements the operation, the
  service belongs to the caller, is alive and may be mutated, and an add-on has a positive price
  and grants a positive amount of what it sells.
\<close>

theorem chosen_option_is_deliverable:
  assumes "resolveServiceOperationOption s args pid = Inr res"
    and "rs_owned res = (sv, pn)" and "rs_product res = p"
  shows "sv \<in> set (services s) \<and> sv_userId sv = ol_userId args \<and> sv_deletedAt sv = None
    \<and> serviceEligibleForOperation sv (ol_operation args) \<and> serviceSupportsGlobalLifecycle sv
    \<and> pr_panelId (p_row p) = Some (sv_panelId sv) \<and> p_panel p = Some pn
    \<and> panelOperationAvailable pn (operationCapability (ol_operation args))
    \<and> (ol_operation args \<noteq> RENEWAL \<longrightarrow> pr_priceToman (p_row p) > 0)
    \<and> (ol_operation args = EXTRA_VOLUME \<longrightarrow> or_zero (pr_volumeGb (p_row p)) > 0 \<and> sv_volumeBytes sv > 0)
    \<and> (ol_operation args = EXTRA_TIME \<longrightarrow> or_zero (pr_durationDays (p_row p)) > 0 \<and> sv_expiresAt sv \<noteq> None)"
proof -
  note r = resolved_option [OF assms(1), unfolded assms(2,3)]
  have own: "resolveOwnedService s (ol_userId args) (ol_publicServiceId args)
      (operationCapability (ol_operation args)) = Some (sv, pn)"
    and el: "serviceEligibleForOperation sv (ol_operation args)"
    and p: "p \<in> set (all_products s)"
    and sold: "sold_for_service (operationCapability (ol_operation args)) p sv"
    and pos: "ol_operation args \<noteq> RENEWAL \<longrightarrow> pr_priceToman (p_row p) > 0"
      "ol_operation args = EXTRA_VOLUME \<longrightarrow> or_zero (pr_volumeGb (p_row p)) > 0"
      "ol_operation args = EXTRA_TIME \<longrightarrow> or_zero (pr_durationDays (p_row p)) > 0"
    by (rule r; auto dest: candidates_known valid_option_sold)+
  from own have o: "filter (owned_match (ol_userId args) (ol_publicServiceId args)) (services s) = [sv]"
    and pan: "panel_of s sv = Some pn"
    by (simp_all add: resolveOwnedService_Some)
  have "sv \<in> set (filter (owned_match (ol_userId args) (ol_publicServiceId args)) (services s))"
    unfolding o by simp
  moreover have "p_panel p = Some pn"
    using all_products_panel [OF p] sold pan by (simp add: sold_for_service_def panel_of_def)
  ultimately show ?thesis
    using own el sold pos
    by (auto simp: owned_match_def sold_for_service_def resolveOwnedService_Some
        serviceEligibleForOperation_def split: if_splits)
qed

end
