(* ===== verification/Codec.thy ===== *)
theory Codec
  imports Prelude "HOL-Library.Word" "HOL-Library.AList"
begin

text \<open>
  The two codecs of the standard library that the quotes use: base64url over bytes, and JSON text.
\<close>

section \<open>Base64url\<close>

type_synonym byte = "8 word"

definition b64_char :: "nat \<Rightarrow> char" where
  "b64_char n = char_of
     (if n < 26 then n + 65 else if n < 52 then n + 71 else if n < 62 then n - 4
      else if n = 62 then 45 else 95)"

text \<open>The decoder also reads the two letters of the ordinary alphabet.\<close>

definition b64_value :: "char \<Rightarrow> nat option" where
  "b64_value c =
     (let n = char_code c in
      if 65 \<le> n \<and> n \<le> 90 then Some (n - 65)
      else if 97 \<le> n \<and> n \<le> 122 then Some (n - 71)
      else if 48 \<le> n \<and> n \<le> 57 then Some (n + 4)
      else if n = 45 \<or> n = 43 then Some 62
      else if n = 95 \<or> n = 47 then Some 63
      else None)"

fun b64_sextets :: "byte list \<Rightarrow> nat list" where
  "b64_sextets [] = []"
| "b64_sextets [a] = (let n = unat a in [n div 4, n mod 4 * 16])"
| "b64_sextets [a, b] = (let n = unat a * 256 + unat b in [n div 1024, n div 16 mod 64, n mod 16 * 4])"
| "b64_sextets (a # b # c # r) =
     (let n = unat a * 65536 + unat b * 256 + unat c
      in [n div 262144, n div 4096 mod 64, n div 64 mod 64, n mod 64] @ b64_sextets r)"

text \<open>Bits that do not complete a byte are dropped.\<close>

fun b64_bytes :: "nat list \<Rightarrow> byte list" where
  "b64_bytes [] = []"
| "b64_bytes [x] = []"
| "b64_bytes [x, y] = [of_nat (x * 4 + y div 16)]"
| "b64_bytes [x, y, z] =
     (let n = x * 1024 + y * 16 + z div 4 in [of_nat (n div 256), of_nat (n mod 256)])"
| "b64_bytes (x # y # z # w # r) =
     (let n = x * 262144 + y * 4096 + z * 64 + w
      in [of_nat (n div 65536), of_nat (n div 256 mod 256), of_nat (n mod 256)] @ b64_bytes r)"

definition b64url_encode :: "byte list \<Rightarrow> string" where
  "b64url_encode bs = map b64_char (b64_sextets bs)"

text \<open>The decoder skips what it does not recognise.\<close>

definition b64url_decode :: "string \<Rightarrow> byte list" where
  "b64url_decode s = b64_bytes (List.map_filter b64_value s)"

lemma unat_byte: "unat (a :: byte) < 256"
  by (rule less_le_trans [OF unsigned_less]) simp

lemma split_sextets:
  "n div 262144 * 262144 + n div 4096 mod 64 * 4096 + n div 64 mod 64 * 64 + n mod 64 = (n :: nat)"
  "n div 1024 * 1024 + n div 16 mod 64 * 16 + n mod 16 = n"
  "n div 4 * 4 + n mod 4 = n"
proof -
  have q: "n div 64 div 64 = n div 4096" "n div 4096 div 64 = n div 262144" "n div 16 div 64 = n div 1024"
    by (simp_all flip: div_mult2_eq)
  show "n div 262144 * 262144 + n div 4096 mod 64 * 4096 + n div 64 mod 64 * 64 + n mod 64 = n"
    using div_mult_mod_eq [of n 64] div_mult_mod_eq [of "n div 64" 64] div_mult_mod_eq [of "n div 4096" 64]
    unfolding q by linarith
  show "n div 1024 * 1024 + n div 16 mod 64 * 16 + n mod 16 = n"
    using div_mult_mod_eq [of n 16] div_mult_mod_eq [of "n div 16" 64] unfolding q by linarith
  show "n div 4 * 4 + n mod 4 = n" by simp
qed

lemma sextets_small: "\<forall>n \<in> set (b64_sextets bs). n < 64"
proof (induction bs rule: b64_sextets.induct)
  case (2 a) then show ?case using unat_byte [of a] by (simp add: Let_def less_mult_imp_div_less)
next
  case (3 a b)
  then show ?case using unat_byte [of a] unat_byte [of b] by (simp add: Let_def less_mult_imp_div_less)
next
  case (4 a b c r)
  then show ?case
    using unat_byte [of a] unat_byte [of b] unat_byte [of c] by (simp add: Let_def less_mult_imp_div_less)
qed simp

lemma b64_value_char:
  assumes "n < 64"
  shows "b64_value (b64_char n) = Some n"
  using assms by (auto simp: b64_value_def b64_char_def char_code_def Let_def)

lemma b64_values: "\<forall>n \<in> set ns. n < 64 \<Longrightarrow> List.map_filter b64_value (map b64_char ns) = ns"
  by (induction ns) (simp_all add: List.map_filter_simps b64_value_char)

lemma b64_bytes_sextets: "b64_bytes (b64_sextets bs) = bs"
proof (induction bs rule: b64_sextets.induct)
  case (2 a)
  show ?case using unat_byte [of a] by (simp add: Let_def)
next
  case (3 a b)
  let ?n = "unat a * 256 + unat b"
  have "?n div 256 = unat a" "?n mod 256 = unat b" using unat_byte [of b] by simp_all
  then show ?case by (simp add: Let_def split_sextets(2))
next
  case (4 a b c r)
  let ?n = "unat a * 65536 + unat b * 256 + unat c"
  have "?n div 65536 = unat a" "?n div 256 mod 256 = unat b" "?n mod 256 = unat c"
  proof -
    let ?m = "unat a * 256 + unat b"
    have n: "?n = ?m * 256 + unat c" by simp
    have m: "?m div 256 = unat a" "?m mod 256 = unat b" using unat_byte [of b] by simp_all
    have digits: "(x * 256 + y) div 256 = x \<and> (x * 256 + y) mod 256 = y" if "y < 256" for x y :: nat
      using that by simp
    have nm: "?n div 256 = ?m" and "?n mod 256 = unat c"
      unfolding n using digits [OF unat_byte] by blast+
    then show "?n mod 256 = unat c" "?n div 256 mod 256 = unat b" using m by simp_all
    have "?n div 65536 = ?n div 256 div 256" by (simp flip: div_mult2_eq)
    then show "?n div 65536 = unat a" using nm m by simp
  qed
  then show ?case using 4 by (simp add: Let_def split_sextets(1))
qed simp

theorem b64url_roundtrip: "b64url_decode (b64url_encode bs) = bs"
  by (simp add: b64url_decode_def b64url_encode_def b64_values [OF sextets_small] b64_bytes_sextets)

section \<open>JSON text\<close>

subsection \<open>Writing\<close>

text \<open>\<open>JSON.stringify\<close> of a string, and of a flat object of strings and integers below 10 to the 21.\<close>

definition hex_digit :: "nat \<Rightarrow> char" where
  "hex_digit n = char_of (if n < 10 then n + 48 else n + 87)"

definition json_escape :: "char \<Rightarrow> string" where
  "json_escape c =
     (let n = char_code c in
      if n = 34 then [CHR 0x5C, CHR 0x22]
      else if n = 92 then [CHR 0x5C, CHR 0x5C]
      else if n = 8 then [CHR 0x5C, CHR ''b'']
      else if n = 9 then [CHR 0x5C, CHR ''t'']
      else if n = 10 then [CHR 0x5C, CHR ''n'']
      else if n = 12 then [CHR 0x5C, CHR ''f'']
      else if n = 13 then [CHR 0x5C, CHR ''r'']
      else if n < 32 then [CHR 0x5C, CHR ''u'', CHR ''0'', CHR ''0'', hex_digit (n div 16), hex_digit (n mod 16)]
      else [c])"

definition json_quote :: "string \<Rightarrow> string" where
  "json_quote s = CHR 0x22 # concat (map json_escape s) @ [CHR 0x22]"

datatype flat_value = FlatText string | FlatInt int

fun flat_text :: "flat_value \<Rightarrow> string" where
  "flat_text (FlatText s) = json_quote s"
| "flat_text (FlatInt n) = show_int n"

fun flat_json :: "flat_value \<Rightarrow> json" where
  "flat_json (FlatText s) = JStr s"
| "flat_json (FlatInt n) = jint n"

definition member_text :: "string \<times> flat_value \<Rightarrow> string" where
  "member_text kv = json_quote (fst kv) @ CHR '':'' # flat_text (snd kv)"

definition object_text :: "(string \<times> flat_value) list \<Rightarrow> string" where
  "object_text kvs = CHR ''{'' # js_join '','' (map member_text kvs) @ ''}''"

subsection \<open>Reading\<close>

text \<open>
  \<open>JSON.parse\<close>, for texts whose strings stay within the character set of the model (an escape above
  it fails). A repeated key keeps its first position and its last value.
\<close>

definition json_ws :: "char \<Rightarrow> bool" where
  "json_ws c \<longleftrightarrow> (let n = char_code c in n = 32 \<or> n = 9 \<or> n = 10 \<or> n = 13)"

definition skip_ws :: "string \<Rightarrow> string" where
  "skip_ws s = dropWhile json_ws s"

definition json_unescape :: "char \<Rightarrow> char option" where
  "json_unescape e =
     (if e = CHR 0x22 \<or> e = CHR 0x5C \<or> e = CHR 0x2F then Some e
      else if e = CHR ''b'' then Some (CHR 0x08) else if e = CHR ''t'' then Some (CHR 0x09)
      else if e = CHR ''n'' then Some (CHR 0x0A) else if e = CHR ''f'' then Some (CHR 0x0C)
      else if e = CHR ''r'' then Some (CHR 0x0D) else None)"

definition json_hex4 :: "char list \<Rightarrow> char option" where
  "json_hex4 ds =
     (if \<exists>d \<in> set ds. radix_digit 16 d = None then None
      else let n = foldl (\<lambda>a d. 16 * a + the (radix_digit 16 d)) 0 ds
           in if n < 256 then Some (char_of n) else None)"

fun json_string :: "string \<Rightarrow> (string \<times> string) option" where
  "json_string [] = None"
| "json_string (c # r) =
     (if c = CHR 0x22 then Some ([], r)
      else if char_code c < 32 then None
      else if c = CHR 0x5C then
        (case r of
           [] \<Rightarrow> None
         | e # r1 \<Rightarrow>
             if e = CHR ''u'' then
               (case r1 of
                  a # b # x # y # r2 \<Rightarrow>
                    (case json_hex4 [a, b, x, y] of
                       None \<Rightarrow> None
                     | Some u \<Rightarrow> map_option (\<lambda>(s, t). (u # s, t)) (json_string r2))
                | _ \<Rightarrow> None)
             else
               (case json_unescape e of
                  None \<Rightarrow> None
                | Some u \<Rightarrow> map_option (\<lambda>(s, t). (u # s, t)) (json_string r1)))
      else map_option (\<lambda>(s, t). (c # s, t)) (json_string r))"

definition number_char :: "char \<Rightarrow> bool" where
  "number_char c \<longleftrightarrow> is_digit c \<or> c \<in> {CHR ''-'', CHR ''+'', CHR ''.'', CHR ''e'', CHR ''E''}"

text \<open>The grammar of a number: no leading zero, digits on both sides of the point.\<close>

definition json_number_ok :: "string \<Rightarrow> bool" where
  "json_number_ok t =
     (let r = (case t of c # q \<Rightarrow> if c = CHR ''-'' then q else t | [] \<Rightarrow> t);
          ip = takeWhile is_digit r;
          r1 = dropWhile is_digit r;
          r2 = (case r1 of c # q \<Rightarrow> if c = CHR ''.'' then dropWhile is_digit q else r1 | [] \<Rightarrow> []);
          frac_ok = (case r1 of c # q \<Rightarrow> c = CHR ''.'' \<longrightarrow> takeWhile is_digit q \<noteq> [] | [] \<Rightarrow> True)
      in ip \<noteq> [] \<and> (length ip > 1 \<longrightarrow> hd ip \<noteq> CHR ''0'') \<and> frac_ok \<and> read_exponent r2 \<noteq> None)"

definition json_number :: "string \<Rightarrow> (json \<times> string) option" where
  "json_number s =
     (let t = takeWhile number_char s
      in if json_number_ok t then Some (JNum (read_decimal t), dropWhile number_char s) else None)"

definition json_literal :: "string \<Rightarrow> json \<Rightarrow> string \<Rightarrow> (json \<times> string) option" where
  "json_literal w v s = (if take (length w) s = w then Some (v, drop (length w) s) else None)"

text \<open>Fuel: every second call consumes a character.\<close>

fun json_value :: "nat \<Rightarrow> string \<Rightarrow> (json \<times> string) option"
  and json_elements :: "nat \<Rightarrow> string \<Rightarrow> (json list \<times> string) option"
  and json_members :: "nat \<Rightarrow> json_obj \<Rightarrow> string \<Rightarrow> (json_obj \<times> string) option" where
  "json_value 0 s = None"
| "json_value (Suc n) s =
     (let t = skip_ws s in
      case t of
        [] \<Rightarrow> None
      | c # r \<Rightarrow>
          if c = CHR 0x22 then map_option (\<lambda>(x, u). (JStr x, u)) (json_string r)
          else if c = CHR ''{'' then
            (case skip_ws r of
               [] \<Rightarrow> None
             | d # u \<Rightarrow> if d = CHR ''}'' then Some (JObj [], u)
                 else map_option (\<lambda>(kvs, v). (JObj kvs, v)) (json_members n [] (d # u)))
          else if c = CHR ''['' then
            (case skip_ws r of
               [] \<Rightarrow> None
             | d # u \<Rightarrow> if d = CHR '']'' then Some (JArr [], u)
                 else map_option (\<lambda>(xs, v). (JArr xs, v)) (json_elements n (d # u)))
          else if c = CHR ''t'' then json_literal ''true'' (JBool True) t
          else if c = CHR ''f'' then json_literal ''false'' (JBool False) t
          else if c = CHR ''n'' then json_literal ''null'' JNull t
          else json_number t)"
| "json_elements 0 s = None"
| "json_elements (Suc n) s =
     (case json_value n s of
        None \<Rightarrow> None
      | Some (x, t) \<Rightarrow>
          (case skip_ws t of
             [] \<Rightarrow> None
           | c # r \<Rightarrow>
               if c = CHR '','' then map_option (\<lambda>(xs, u). (x # xs, u)) (json_elements n r)
               else if c = CHR '']'' then Some ([x], r) else None))"
| "json_members 0 kvs s = None"
| "json_members (Suc n) kvs s =
     (case skip_ws s of
        [] \<Rightarrow> None
      | q # s1 \<Rightarrow>
          if q \<noteq> CHR 0x22 then None
          else case json_string s1 of
            None \<Rightarrow> None
          | Some (k, s2) \<Rightarrow>
              (case skip_ws s2 of
                 [] \<Rightarrow> None
               | c # s3 \<Rightarrow>
                   if c \<noteq> CHR '':'' then None
                   else case json_value n s3 of
                     None \<Rightarrow> None
                   | Some (x, s4) \<Rightarrow>
                       (case skip_ws s4 of
                          [] \<Rightarrow> None
                        | e # s5 \<Rightarrow>
                            if e = CHR '','' then json_members n (AList.update k x kvs) s5
                            else if e = CHR ''}'' then Some (AList.update k x kvs, s5) else None)))"

definition json_parse :: "string \<Rightarrow> json option" where
  "json_parse s =
     (case json_value (2 * length s + 2) s of
        None \<Rightarrow> None
      | Some (v, r) \<Rightarrow> if skip_ws r = [] then Some v else None)"

subsection \<open>What is written reads back\<close>

lemma radix_hex: "n < 16 \<Longrightarrow> radix_digit 16 (hex_digit n) = Some n"
  by (auto simp: radix_digit_def hex_digit_def char_code_def Let_def)

lemma char_of_code [simp]: "char_of (char_code c) = c"
  by (simp add: char_code_def)

lemma hex4_code:
  "char_code c < 32 \<Longrightarrow>
     json_hex4 [CHR ''0'', CHR ''0'', hex_digit (char_code c div 16), hex_digit (char_code c mod 16)] = Some c"
  by (simp add: json_hex4_def radix_hex radix_digit_def [of 16 "CHR ''0''"] char_code_def [of "CHR ''0''"] Let_def)

lemma char_code_eq: "c = d \<longleftrightarrow> char_code c = char_code d"
  by (simp add: char_code_def)

lemma json_string_escape:
  "json_string (json_escape c @ r) = map_option (\<lambda>(s, t). (c # s, t)) (json_string r)"
proof -
  have q: "char_code (CHR 0x22) = 34" "char_code (CHR 0x5C) = 92" "char_code (CHR ''b'') = 98"
      "char_code (CHR ''t'') = 116" "char_code (CHR ''n'') = 110" "char_code (CHR ''f'') = 102"
      "char_code (CHR ''r'') = 114" "char_code (CHR ''u'') = 117"
    by (simp_all add: char_code_def)
  consider "c \<in> {CHR 0x22, CHR 0x5C, CHR 0x08, CHR 0x09, CHR 0x0A, CHR 0x0C, CHR 0x0D}"
    | "char_code c < 32" "char_code c \<notin> {34, 92, 8, 9, 10, 12, 13}"
    | "32 \<le> char_code c" "char_code c \<noteq> 34" "char_code c \<noteq> 92"
  proof -
    have "char_code c \<in> {34, 92, 8, 9, 10, 12, 13} \<Longrightarrow>
        c \<in> {CHR 0x22, CHR 0x5C, CHR 0x08, CHR 0x09, CHR 0x0A, CHR 0x0C, CHR 0x0D}"
      unfolding insert_iff empty_iff char_code_eq [of c] by (simp add: char_code_def)
    then show ?thesis using that by force
  qed
  then show ?thesis
  proof cases
    case 1
    then show ?thesis
      by (elim insertE emptyE) (simp_all add: json_escape_def json_unescape_def char_code_def Let_def)
  next
    case 2
    then show ?thesis using hex4_code [of c] by (simp add: json_escape_def Let_def q)
  next
    case 3
    then show ?thesis by (simp add: json_escape_def Let_def char_code_eq [of c] q)
  qed
qed

lemma json_string_text: "json_string (concat (map json_escape s) @ CHR 0x22 # r) = Some (s, r)"
  by (induction s) (simp_all add: json_string_escape del: json_string.simps(2), simp)

lemma json_quote_append: "json_quote s @ r = CHR 0x22 # concat (map json_escape s) @ CHR 0x22 # r"
  by (simp add: json_quote_def)

lemma read_nat_show: "read_nat (show_nat n) = n"
  by (rule read_show_nat)

lemma show_nat_no_zero: "show_nat n \<noteq> [] \<and> (length (show_nat n) > 1 \<longrightarrow> hd (show_nat n) \<noteq> CHR ''0'')"
proof (induction n rule: show_nat.induct)
  case (1 n)
  show ?case
  proof (cases "n < 10")
    case True
    then show ?thesis by (simp add: show_nat.simps)
  next
    case False
    let ?m = "n div 10"
    have m: "show_nat n = show_nat ?m @ [digit_char (n mod 10)]" using False by (simp add: show_nat.simps)
    have ne: "show_nat ?m \<noteq> []" using 1 [OF False] by simp
    have "hd (show_nat ?m) \<noteq> CHR ''0''"
    proof (cases "?m < 10")
      case True
      then have "char_code (hd (show_nat ?m)) = 48 + ?m" by (simp add: show_nat.simps)
      moreover have "char_code (CHR ''0'') = 48" by (simp add: char_code_def)
      ultimately show ?thesis using False by fastforce
    next
      case m10: False
      have "length (show_nat ?m) > 1"
        using m10 show_nat_nonempty by (subst show_nat.simps) simp
      with 1 [OF False] show ?thesis by simp
    qed
    with ne show ?thesis by (simp add: m)
  qed
qed

lemma digits_takeWhile:
  "takeWhile is_digit (show_nat n) = show_nat n" "dropWhile is_digit (show_nat n) = []"
  using show_nat_digits [of n] by (simp_all add: takeWhile_eq_all_conv dropWhile_eq_Nil_conv)

lemma digit_not_sign: "is_digit c \<Longrightarrow> c \<noteq> CHR ''-'' \<and> c \<noteq> CHR ''+''"
  by (auto simp: is_digit_def char_code_def)

lemma show_nat_head: "\<exists>c r. show_nat n = c # r \<and> is_digit c"
  using show_nat_digits [of n] show_nat_nonempty [of n] by (cases "show_nat n") auto

lemma show_int_number_ok: "json_number_ok (show_int n)"
proof -
  obtain c r where c: "show_nat (nat n) = c # r" "is_digit c" using show_nat_head by blast
  have "json_number_ok (show_nat (nat n))"
    using digits_takeWhile [of "nat n"] show_nat_no_zero [of "nat n"] digit_not_sign [OF c(2)]
    by (simp add: json_number_ok_def c(1) Let_def read_exponent_def)
  moreover have "json_number_ok (CHR ''-'' # show_nat k)" for k
    using show_nat_no_zero [of k]
    by (simp add: json_number_ok_def Let_def read_exponent_def digits_takeWhile)
  ultimately show ?thesis by (simp add: show_int_def)
qed

lemma read_decimal_show_int:
  assumes "\<bar>n\<bar> < DOUBLE_OVERFLOW"
  shows "read_decimal (show_int n) = NInt n"
proof -
  obtain c r where c: "show_nat (nat n) = c # r" "is_digit c" using show_nat_head by blast
  note d = digits_takeWhile show_nat_nonempty
  have "read_decimal (show_nat (nat n)) = finite_num (NInt (int (nat n)))"
    using d [of "nat n"] digit_not_sign [OF c(2)] read_nat_show [of "nat n"]
    by (simp add: read_decimal_def c(1) Let_def read_exponent_def scaled_num_def)
  moreover have "read_decimal (CHR ''-'' # show_nat k) = finite_num (NInt (- int k))" for k
    by (simp add: read_decimal_def Let_def read_exponent_def scaled_num_def d read_nat_show)
  ultimately show ?thesis using assms by (auto simp: show_int_def finite_num_def)
qed

lemma show_int_number_chars: "\<forall>c \<in> set (show_int n). number_char c"
  using show_int_chars [of n] by (auto simp: number_char_def)

lemma json_number_show_int:
  assumes "\<bar>n\<bar> < DOUBLE_OVERFLOW" and "r \<noteq> [] \<Longrightarrow> \<not> number_char (hd r)"
  shows "json_number (show_int n @ r) = Some (jint n, r)"
proof -
  have "takeWhile number_char r = []" "dropWhile number_char r = r"
    using assms(2) by (cases r; simp)+
  then have "takeWhile number_char (show_int n @ r) = show_int n"
    and "dropWhile number_char (show_int n @ r) = r"
    using show_int_number_chars [of n] by (simp_all add: takeWhile_append2 dropWhile_append2)
  then show ?thesis
    using show_int_number_ok read_decimal_show_int [OF assms(1)] by (simp add: json_number_def jint_def)
qed

lemma update_new: "k \<notin> fst ` set kvs \<Longrightarrow> AList.update k v kvs = kvs @ [(k, v)]"
  by (induction kvs) auto

lemma skip_ws_quote [simp]: "skip_ws (CHR 0x22 # s) = CHR 0x22 # s"
  and skip_ws_colon [simp]: "skip_ws (CHR '':'' # s) = CHR '':'' # s"
  and skip_ws_comma [simp]: "skip_ws (CHR '','' # s) = CHR '','' # s"
  and skip_ws_close [simp]: "skip_ws (CHR ''}'' # s) = CHR ''}'' # s"
  by (simp_all add: skip_ws_def json_ws_def char_code_def)

definition small_flat :: "flat_value \<Rightarrow> bool" where
  "small_flat v = (case v of FlatText s \<Rightarrow> True | FlatInt n \<Rightarrow> \<bar>n\<bar> < DOUBLE_OVERFLOW)"

definition ends_value :: "string \<Rightarrow> bool" where
  "ends_value r = (case r of [] \<Rightarrow> True | c # _ \<Rightarrow> c = CHR '','' \<or> c = CHR ''}'')"

lemma json_value_flat:
  assumes "small_flat v" and "ends_value r"
  shows "json_value (Suc n) (flat_text v @ r) = Some (flat_json v, r)"
proof (cases v)
  case (FlatText s)
  then show ?thesis by (simp add: json_quote_append json_string_text Let_def)
next
  case (FlatInt k)
  have "\<exists>c q. show_int k = c # q \<and> (is_digit c \<or> c = CHR ''-'')"
    using show_nat_head [of "nat k"] by (auto simp: show_int_def)
  then obtain c q where c: "show_int k = c # q" "is_digit c \<or> c = CHR ''-''" by blast
  then have ws: "\<not> json_ws c" and other: "c \<notin> {CHR 0x22, CHR ''{'', CHR ''['', CHR ''t'', CHR ''f'', CHR ''n''}"
    by (auto simp: json_ws_def is_digit_def char_code_def)
  have "r \<noteq> [] \<Longrightarrow> \<not> number_char (hd r)"
    using assms(2) by (auto simp: ends_value_def number_char_def is_digit_def char_code_def split: list.splits)
  then have "json_number (show_int k @ r) = Some (jint k, r)"
    using assms(1) FlatInt by (intro json_number_show_int) (simp_all add: small_flat_def)
  then show ?thesis using ws other by (simp add: FlatInt c(1) skip_ws_def)
qed

lemma json_members_flat:
  assumes "kvs \<noteq> []" and "distinct (map fst acc @ map fst kvs)" and "\<forall>kv \<in> set kvs. small_flat (snd kv)"
    and "length kvs < n"
  shows "json_members n acc (js_join '','' (map member_text kvs) @ CHR ''}'' # r) =
    Some (acc @ map (\<lambda>kv. (fst kv, flat_json (snd kv))) kvs, r)"
  using assms
proof (induction kvs arbitrary: acc n)
  case (Cons kv kvs)
  obtain k v where kv: "kv = (k, v)" by (cases kv)
  obtain m where n: "n = Suc (Suc m)" using Cons.prems(4) by (cases n; cases "n - 1") auto
  have small: "small_flat v" and new: "k \<notin> fst ` set acc" using Cons.prems(2,3) kv by auto
  have member: "member_text (k, v) @ t = CHR 0x22 # concat (map json_escape k) @ CHR 0x22 # CHR '':'' # flat_text v @ t" for t
    by (simp add: member_text_def json_quote_append)
  show ?case
  proof (cases kvs)
    case Nil
    then show ?thesis
      using new
      by (simp add: n member json_string_text ends_value_def update_new kv json_value_flat [OF small]
          del: flat_text.simps json_value.simps)
  next
    case (Cons kv' kvs')
    let ?t = "js_join '','' (map member_text kvs) @ CHR ''}'' # r"
    have ih: "json_members (Suc m) (acc @ [(k, flat_json v)]) ?t =
        Some ((acc @ [(k, flat_json v)]) @ map (\<lambda>kv. (fst kv, flat_json (snd kv))) kvs, r)"
      using Cons.prems n kv Cons by (intro Cons.IH) auto
    have "js_join '','' (map member_text (kv # kvs)) @ CHR ''}'' # r = member_text kv @ CHR '','' # ?t"
      by (simp add: Cons)
    then show ?thesis
      using new ih
      by (simp add: n member json_string_text ends_value_def update_new kv json_value_flat [OF small]
          del: flat_text.simps json_value.simps)
  qed
qed simp

lemma length_members: "length kvs \<le> length (js_join '','' (map member_text kvs))"
proof (induction kvs)
  case (Cons kv kvs)
  have "1 \<le> length (member_text kv)" by (simp add: member_text_def)
  with Cons show ?case by (cases kvs) auto
qed simp

lemma members_head: "kvs \<noteq> [] \<Longrightarrow> \<exists>t. js_join '','' (map member_text kvs) = CHR 0x22 # t"
  by (cases kvs; cases "tl kvs") (auto simp: member_text_def json_quote_def)

lemma object_value:
  assumes "distinct (map fst kvs)" and "\<forall>kv \<in> set kvs. small_flat (snd kv)" and "length kvs < n"
  shows "json_value (Suc n) (object_text kvs) = Some (JObj (map (\<lambda>kv. (fst kv, flat_json (snd kv))) kvs), [])"
proof -
  have ws: "skip_ws (CHR ''{'' # u) = CHR ''{'' # u" for u
    by (simp add: skip_ws_def json_ws_def char_code_def)
  show ?thesis
  proof (cases "kvs = []")
    case True
    then show ?thesis by (simp add: object_text_def ws)
  next
    case False
    then obtain t where t: "js_join '','' (map member_text kvs) = CHR 0x22 # t"
      using members_head by blast
    have "json_members n [] ((CHR 0x22 # t) @ ''}'') =
        Some (map (\<lambda>kv. (fst kv, flat_json (snd kv))) kvs, [])"
      using json_members_flat [of kvs "[]" n "[]"] False assms by (simp add: t)
    then show ?thesis by (simp add: object_text_def t ws)
  qed
qed

theorem json_object_roundtrip:
  assumes "distinct (map fst kvs)" and "\<forall>kv \<in> set kvs. small_flat (snd kv)"
  shows "json_parse (object_text kvs) = Some (JObj (map (\<lambda>kv. (fst kv, flat_json (snd kv))) kvs))"
proof -
  have "length kvs < 2 * length (object_text kvs) + 1"
    using length_members [of kvs] by (simp add: object_text_def)
  from object_value [OF assms this] show ?thesis by (simp add: json_parse_def skip_ws_def)
qed

end
