(* ===== verification/Quote.thy ===== *)
theory Quote
  imports Contract Codec
begin

text \<open>
  The sealed quote (packages/service-renewal/src/quote.ts): a description of the priced world a
  user was shown, encrypted for the round trip through the browser. The primitives of node:crypto
  are the fields of \<open>crypto\<close>; base64url and JSON are written out.
\<close>

section \<open>Sealing\<close>

record crypto =
  cr_scrypt :: "string \<Rightarrow> string \<Rightarrow> byte list"
  cr_encrypt :: "byte list \<Rightarrow> byte list \<Rightarrow> string \<Rightarrow> string \<Rightarrow> byte list \<times> byte list"
  cr_decrypt :: "byte list \<Rightarrow> byte list \<Rightarrow> string \<Rightarrow> byte list \<Rightarrow> byte list \<Rightarrow> string option"
  cr_sha256 :: "string \<Rightarrow> string"

definition QUOTE_KEY_CONTEXT :: string where "QUOTE_KEY_CONTEXT = ''zedbot.miniapp.quote.key.v1''"
definition QUOTE_VERSION :: string where "QUOTE_VERSION = ''q1''"
definition IV_BYTES :: nat where "IV_BYTES = 12"
definition TAG_BYTES :: nat where "TAG_BYTES = 16"

text \<open>No key without APP_SECRET: None is the thrown QuoteConfigError.\<close>

definition quoteKey :: "crypto \<Rightarrow> string \<Rightarrow> byte list option" where
  "quoteKey cr secret =
     (if js_trim secret = '''' then None else Some (cr_scrypt cr secret QUOTE_KEY_CONTEXT))"

record QuotePayload =
  qp_userId :: string
  qp_checkoutId :: string
  qp_operation :: string
  qp_finalPriceToman :: int
  qp_fingerprint :: string
  qp_expiresAtMs :: int

datatype QuoteFailure = MALFORMED_QUOTE | BAD_SEAL | QUOTE_EXPIRED_REASON

definition quote_body :: "QuotePayload \<Rightarrow> (string \<times> flat_value) list" where
  "quote_body payload =
     [(''u'', FlatText (qp_userId payload)), (''c'', FlatText (qp_checkoutId payload)),
      (''o'', FlatText (qp_operation payload)), (''a'', FlatInt (qp_finalPriceToman payload)),
      (''f'', FlatText (qp_fingerprint payload)), (''x'', FlatInt (qp_expiresAtMs payload))]"

definition sealed_token :: "crypto \<Rightarrow> byte list \<Rightarrow> byte list \<Rightarrow> string \<Rightarrow> string" where
  "sealed_token cr key iv body =
     (case cr_encrypt cr key iv QUOTE_VERSION body of
        (sealed, tag) \<Rightarrow> QUOTE_VERSION @ ''.'' @ b64url_encode (iv @ sealed @ tag))"

definition sealQuote :: "crypto \<Rightarrow> string \<Rightarrow> byte list \<Rightarrow> QuotePayload \<Rightarrow> string option" where
  "sealQuote cr secret iv payload =
     (case quoteKey cr secret of
        None \<Rightarrow> None
      | Some key \<Rightarrow> Some (sealed_token cr key iv (object_text (quote_body payload))))"

section \<open>Opening\<close>

definition unseal_quote :: "crypto \<Rightarrow> string \<Rightarrow> byte list \<Rightarrow> string option" where
  "unseal_quote cr secret raw =
     (let iv = take IV_BYTES raw;
          tag = drop (length raw - TAG_BYTES) raw;
          sealed = drop IV_BYTES (take (length raw - TAG_BYTES) raw)
      in case quoteKey cr secret of
           None \<Rightarrow> None
         | Some key \<Rightarrow> cr_decrypt cr key iv QUOTE_VERSION sealed tag)"

definition quote_fields :: "json_obj \<Rightarrow> QuotePayload option" where
  "quote_fields rec =
     (case (nonempty_string (map_of rec ''u''), nonempty_string (map_of rec ''c''), map_of rec ''o'',
          safe_integer_value (map_of rec ''a''), nonempty_string (map_of rec ''f''),
          safe_integer_value (map_of rec ''x'')) of
        (Some userId, Some checkoutId, Some (JStr operation), Some amount, Some fingerprint,
          Some expiresAtMs) \<Rightarrow>
          Some \<lparr>qp_userId = userId, qp_checkoutId = checkoutId, qp_operation = operation,
            qp_finalPriceToman = amount, qp_fingerprint = fingerprint, qp_expiresAtMs = expiresAtMs\<rparr>
      | _ \<Rightarrow> None)"

definition openQuote :: "crypto \<Rightarrow> string \<Rightarrow> json \<Rightarrow> int \<Rightarrow> QuoteFailure + QuotePayload" where
  "openQuote cr secret v nowMs =
     (case v of
        JStr token \<Rightarrow>
          if token = '''' then Inl MALFORMED_QUOTE
          else if CHR ''.'' \<notin> set token then Inl MALFORMED_QUOTE
          else if takeWhile (\<lambda>c. c \<noteq> CHR ''.'') token \<noteq> QUOTE_VERSION then Inl MALFORMED_QUOTE
          else
            let encoded = tl (dropWhile (\<lambda>c. c \<noteq> CHR ''.'') token);
                raw = b64url_decode encoded
            in if b64url_encode raw \<noteq> encoded then Inl MALFORMED_QUOTE
               else if length raw \<le> IV_BYTES + TAG_BYTES then Inl MALFORMED_QUOTE
               else (case unseal_quote cr secret raw of
                       None \<Rightarrow> Inl BAD_SEAL
                     | Some plain \<Rightarrow>
                         (case json_parse plain of
                            Some (JObj rec) \<Rightarrow>
                              (case quote_fields rec of
                                 None \<Rightarrow> Inl BAD_SEAL
                               | Some payload \<Rightarrow>
                                   if nowMs \<ge> qp_expiresAtMs payload then Inl QUOTE_EXPIRED_REASON
                                   else Inr payload)
                          | _ \<Rightarrow> Inl BAD_SEAL))
      | _ \<Rightarrow> Inl MALFORMED_QUOTE)"

section \<open>The fingerprint\<close>

record fingerprint_input =
  fi_productId :: string
  fi_productPriceToman :: int
  fi_productActive :: bool
  fi_categoryActive :: bool
  fi_panelId :: "string option"
  fi_panelStatus :: "string option"
  fi_discountCodeId :: "string option"
  fi_discountAmountToman :: int
  fi_finalPriceToman :: int
  fi_serviceId :: "string option"
  fi_serviceStatus :: "string option"
  fi_serviceExpiresAtMs :: "int option"
  fi_serviceVolumeBytes :: "string option"

definition dash :: "string option \<Rightarrow> string" where
  "dash x = (case x of None \<Rightarrow> ''-'' | Some s \<Rightarrow> s)"

definition bit :: "bool \<Rightarrow> string" where
  "bit b = (if b then ''1'' else ''0'')"

definition quote_parts :: "fingerprint_input \<Rightarrow> string list" where
  "quote_parts input =
     [fi_productId input, show_int (fi_productPriceToman input), bit (fi_productActive input),
      bit (fi_categoryActive input), dash (fi_panelId input), dash (fi_panelStatus input),
      dash (fi_discountCodeId input), show_int (fi_discountAmountToman input),
      show_int (fi_finalPriceToman input), dash (fi_serviceId input), dash (fi_serviceStatus input),
      dash (map_option show_int (fi_serviceExpiresAtMs input)), dash (fi_serviceVolumeBytes input)]"

definition quoteFingerprint :: "crypto \<Rightarrow> fingerprint_input \<Rightarrow> string" where
  "quoteFingerprint cr input = cr_sha256 cr (js_join [CHR 0x00] (quote_parts input))"

section \<open>What a token says\<close>

text \<open>
  The documented behaviour of AES-GCM under one key: the tag has sixteen bytes, the ciphertext is as
  long as the text, decryption inverts encryption; and nothing else decrypts.
\<close>

definition aead_correct :: "crypto \<Rightarrow> byte list \<Rightarrow> bool" where
  "aead_correct cr key \<longleftrightarrow>
     (\<forall>iv text sealed tag. length iv = IV_BYTES \<and> cr_encrypt cr key iv QUOTE_VERSION text = (sealed, tag) \<longrightarrow>
        length tag = TAG_BYTES \<and> (text \<noteq> [] \<longrightarrow> sealed \<noteq> [])
        \<and> cr_decrypt cr key iv QUOTE_VERSION sealed tag = Some text)"

definition aead_authentic :: "crypto \<Rightarrow> byte list \<Rightarrow> bool" where
  "aead_authentic cr key \<longleftrightarrow>
     (\<forall>iv text sealed tag. cr_decrypt cr key iv QUOTE_VERSION sealed tag = Some text \<longrightarrow>
        cr_encrypt cr key iv QUOTE_VERSION text = (sealed, tag))"

definition payload_ok :: "QuotePayload \<Rightarrow> bool" where
  "payload_ok p \<longleftrightarrow>
     qp_userId p \<noteq> '''' \<and> qp_checkoutId p \<noteq> '''' \<and> qp_fingerprint p \<noteq> ''''
     \<and> \<bar>qp_finalPriceToman p\<bar> \<le> MAX_SAFE_INTEGER \<and> \<bar>qp_expiresAtMs p\<bar> \<le> MAX_SAFE_INTEGER"

lemma version_prefix:
  "takeWhile (\<lambda>c. c \<noteq> CHR ''.'') (QUOTE_VERSION @ ''.'' @ e) = QUOTE_VERSION"
  "tl (dropWhile (\<lambda>c. c \<noteq> CHR ''.'') (QUOTE_VERSION @ ''.'' @ e)) = e"
  by (simp_all add: QUOTE_VERSION_def)

lemma body_reads_back:
  assumes "payload_ok p"
  obtains rec where "json_parse (object_text (quote_body p)) = Some (JObj rec)"
    and "quote_fields rec = Some p"
proof
  have big: "MAX_SAFE_INTEGER < DOUBLE_OVERFLOW"
    by (simp add: MAX_SAFE_INTEGER_def DOUBLE_OVERFLOW_def)
  show "json_parse (object_text (quote_body p)) =
      Some (JObj (map (\<lambda>kv. (fst kv, flat_json (snd kv))) (quote_body p)))"
    using assms big by (intro json_object_roundtrip) (auto simp: quote_body_def small_flat_def payload_ok_def)
  show "quote_fields (map (\<lambda>kv. (fst kv, flat_json (snd kv))) (quote_body p)) = Some p"
    using assms by (simp add: quote_fields_def quote_body_def payload_ok_def nonempty_string_def
        safe_integer_value_def jint_def as_safe_integer_def)
qed

lemma unseal_sealed:
  assumes "quoteKey cr secret = Some key" and "aead_correct cr key" and "length iv = IV_BYTES"
    and "cr_encrypt cr key iv QUOTE_VERSION text = (sealed, tag)"
  shows "unseal_quote cr secret (iv @ sealed @ tag) = Some text"
proof -
  have "length tag = TAG_BYTES" "cr_decrypt cr key iv QUOTE_VERSION sealed tag = Some text"
    using assms(2-4) by (auto simp: aead_correct_def)
  then show ?thesis using assms(1,3) by (simp add: unseal_quote_def Let_def)
qed

lemma sealed_token_opens:
  assumes k: "quoteKey cr secret = Some key" and c: "aead_correct cr key"
    and iv: "length iv = IV_BYTES" and ok: "payload_ok p"
  shows "openQuote cr secret (JStr (sealed_token cr key iv (object_text (quote_body p)))) now =
    (if now < qp_expiresAtMs p then Inr p else Inl QUOTE_EXPIRED_REASON)"
proof -
  let ?body = "object_text (quote_body p)"
  obtain sealed tag where e: "cr_encrypt cr key iv QUOTE_VERSION ?body = (sealed, tag)"
    by (cases "cr_encrypt cr key iv QUOTE_VERSION ?body")
  have "length tag = TAG_BYTES" "sealed \<noteq> []"
    using c iv e by (auto simp: aead_correct_def object_text_def)
  then have len: "\<not> length (iv @ sealed @ tag) \<le> IV_BYTES + TAG_BYTES"
    using iv by (cases sealed) simp_all
  have dot: "CHR ''.'' \<in> set (QUOTE_VERSION @ ''.'' @ x)" "QUOTE_VERSION @ ''.'' @ x \<noteq> ''''" for x
    by simp_all
  obtain rec where "json_parse ?body = Some (JObj rec)" "quote_fields rec = Some p"
    using body_reads_back [OF ok] .
  then have "openQuote cr secret (JStr (QUOTE_VERSION @ ''.'' @ b64url_encode (iv @ sealed @ tag))) now =
      (if now < qp_expiresAtMs p then Inr p else Inl QUOTE_EXPIRED_REASON)"
    unfolding openQuote_def json.case Let_def version_prefix b64url_roundtrip
      unseal_sealed [OF k c iv e]
    using dot len by (simp only: simp_thms if_True if_False option.case json.case) simp
  then show ?thesis using e by (simp add: sealed_token_def)
qed

text \<open>
  C36. What was sealed opens, and only until it expires: with a secret configured, the token of a
  payload with non-empty identifiers and safe integers opens to that very payload before its expiry
  and is reported expired from it on.
\<close>

theorem quote_roundtrip:
  assumes "js_trim secret \<noteq> ''''" and "aead_correct cr (cr_scrypt cr secret QUOTE_KEY_CONTEXT)"
    and "length iv = IV_BYTES" and "payload_ok p"
  shows "\<exists>token. sealQuote cr secret iv p = Some token
    \<and> openQuote cr secret (JStr token) now =
        (if now < qp_expiresAtMs p then Inr p else Inl QUOTE_EXPIRED_REASON)"
proof -
  have "quoteKey cr secret = Some (cr_scrypt cr secret QUOTE_KEY_CONTEXT)"
    using assms(1) by (simp add: quoteKey_def)
  then show ?thesis using sealed_token_opens [OF _ assms(2-4)] by (simp add: sealQuote_def)
qed

text \<open>
  C37. Only what this server sealed opens, byte for byte: a token that opens is exactly the
  encoding, under the configured key, of some text that reads as the payload returned, and its
  expiry lies in the future. Nothing opens without the secret.
\<close>

theorem opened_quote_was_sealed:
  assumes "openQuote cr secret v now = Inr p"
    and "aead_authentic cr (cr_scrypt cr secret QUOTE_KEY_CONTEXT)"
  shows "js_trim secret \<noteq> '''' \<and> now < qp_expiresAtMs p
    \<and> (\<exists>iv body rec. length iv = IV_BYTES
        \<and> v = JStr (sealed_token cr (cr_scrypt cr secret QUOTE_KEY_CONTEXT) iv body)
        \<and> json_parse body = Some (JObj rec) \<and> quote_fields rec = Some p)"
proof -
  let ?key = "cr_scrypt cr secret QUOTE_KEY_CONTEXT"
  obtain token raw plain rec where t: "v = JStr token" "CHR ''.'' \<in> set token"
      "takeWhile (\<lambda>c. c \<noteq> CHR ''.'') token = QUOTE_VERSION"
    and raw: "b64url_encode raw = tl (dropWhile (\<lambda>c. c \<noteq> CHR ''.'') token)"
      "\<not> length raw \<le> IV_BYTES + TAG_BYTES" "unseal_quote cr secret raw = Some plain"
    and rec: "json_parse plain = Some (JObj rec)" "quote_fields rec = Some p" "now < qp_expiresAtMs p"
    using assms(1) by (auto simp: openQuote_def Let_def split: json.splits if_splits option.splits)
  let ?iv = "take IV_BYTES raw" and ?tag = "drop (length raw - TAG_BYTES) raw"
    and ?sealed = "drop IV_BYTES (take (length raw - TAG_BYTES) raw)"
  have s: "js_trim secret \<noteq> ''''" and "cr_decrypt cr ?key ?iv QUOTE_VERSION ?sealed ?tag = Some plain"
    using raw(3) by (auto simp: unseal_quote_def Let_def quoteKey_def split: if_splits)
  then have e: "cr_encrypt cr ?key ?iv QUOTE_VERSION plain = (?sealed, ?tag)"
    using assms(2) by (simp add: aead_authentic_def)
  have "?iv @ ?sealed = take (length raw - TAG_BYTES) raw"
  proof -
    have "IV_BYTES \<le> length raw - TAG_BYTES" using raw(2) by linarith
    then show ?thesis
      using append_take_drop_id [of IV_BYTES "take (length raw - TAG_BYTES) raw"] by (simp add: min_def)
  qed
  then have "?iv @ ?sealed @ ?tag = raw" by (metis append.assoc append_take_drop_id)
  moreover have "token = QUOTE_VERSION @ CHR ''.'' # tl (dropWhile (\<lambda>c. c \<noteq> CHR ''.'') token)"
  proof -
    obtain d r where d: "dropWhile (\<lambda>c. c \<noteq> CHR ''.'') token = d # r" "d = CHR ''.''"
      using t(2) hd_dropWhile [of "\<lambda>c. c \<noteq> CHR ''.''" token]
      by (cases "dropWhile (\<lambda>c. c \<noteq> CHR ''.'') token") auto
    then show ?thesis using takeWhile_dropWhile_id [of "\<lambda>c. c \<noteq> CHR ''.''" token] t(3) by simp
  qed
  ultimately have "v = JStr (sealed_token cr ?key ?iv plain)"
    using e raw(1) t(1) by (simp add: sealed_token_def)
  moreover have "length ?iv = IV_BYTES" using raw(2) by simp
  ultimately show ?thesis using s rec by blast
qed

end
