(* ===== verification/Checkout.thy ===== *)
theory Checkout
  imports Options Quote Settlement
begin

text \<open>
  The checkout draft and its quote (packages/service-renewal/src/checkout.ts): the price of an
  operation, the frozen snapshot, the two ways a draft is created, and the quote over the live rows.
\<close>

section \<open>Names of the schema's values\<close>

fun product_type_name :: "ProductType \<Rightarrow> string" where
  "product_type_name ProductType_SERVICE_PRODUCT = ''SERVICE_PRODUCT''"
| "product_type_name ProductType_OTHER_PRODUCT = ''OTHER_PRODUCT''"

fun panel_type_name :: "PanelType \<Rightarrow> string" where
  "panel_type_name PanelType_MARZBAN = ''MARZBAN''"
| "panel_type_name PanelType_XUI = ''XUI''"

fun panel_status_name :: "PanelStatus \<Rightarrow> string" where
  "panel_status_name PanelStatus_ACTIVE = ''ACTIVE''"
| "panel_status_name PanelStatus_INACTIVE = ''INACTIVE''"
| "panel_status_name PanelStatus_MAINTENANCE = ''MAINTENANCE''"
| "panel_status_name PanelStatus_FAILED = ''FAILED''"

fun service_status_name :: "ServiceStatus \<Rightarrow> string" where
  "service_status_name ServiceStatus_CREATING = ''CREATING''"
| "service_status_name ServiceStatus_ACTIVE = ''ACTIVE''"
| "service_status_name ServiceStatus_DISABLED = ''DISABLED''"
| "service_status_name ServiceStatus_EXPIRED = ''EXPIRED''"
| "service_status_name ServiceStatus_LIMITED = ''LIMITED''"
| "service_status_name ServiceStatus_DELETED = ''DELETED''"
| "service_status_name ServiceStatus_FAILED = ''FAILED''"

fun location_name :: "ServiceLocation \<Rightarrow> string" where
  "location_name ServiceLocation_MULTI_LOCATION = ''MULTI_LOCATION''"
| "location_name ServiceLocation_DEDICATED_LOCATION = ''DEDICATED_LOCATION''"
| "location_name ServiceLocation_TEST = ''TEST''"

fun reset_cycle_name :: "TrafficResetCycle \<Rightarrow> string" where
  "reset_cycle_name Reset_NO_RESET = ''NO_RESET''"
| "reset_cycle_name Reset_DAY = ''DAY''"
| "reset_cycle_name Reset_WEEK = ''WEEK''"
| "reset_cycle_name Reset_MONTH = ''MONTH''"
| "reset_cycle_name Reset_YEAR = ''YEAR''"

fun delivery_type_name :: "OtherProductDeliveryType \<Rightarrow> string" where
  "delivery_type_name Delivery_MANUAL_ADMIN = ''MANUAL_ADMIN''"
| "delivery_type_name Delivery_STOCK_ITEM = ''STOCK_ITEM''"

section \<open>The price\<close>

record OperationPricing =
  pg_originalPriceToman :: int
  pg_discountCode :: "string option"
  pg_discountCodeId :: "string option"
  pg_discountAmountToman :: int
  pg_finalPriceToman :: int

definition full_price :: "int \<Rightarrow> OperationPricing" where
  "full_price original =
     \<lparr>pg_originalPriceToman = original, pg_discountCode = None, pg_discountCodeId = None,
      pg_discountAmountToman = 0, pg_finalPriceToman = original\<rparr>"

text \<open>\<open>purpose\<close> is the override of a new purchase, or the operation's own.\<close>

definition priceOperation ::
  "db \<Rightarrow> int \<Rightarrow> string \<Rightarrow> UserGroup \<Rightarrow> DiscountPurpose \<Rightarrow> product_with_relations \<Rightarrow> string option \<Rightarrow>
   DiscountRejection + OperationPricing" where
  "priceOperation s now userId grp purpose product discountCode =
     (let original = pr_priceToman (p_row product) in
      case discountCode of
        None \<Rightarrow> Inr (full_price original)
      | Some code \<Rightarrow>
          if js_trim code = '''' then Inr (full_price original)
          else case validateDiscountCode s now code userId grp original purpose of
            Inl reason \<Rightarrow> Inl reason
          | Inr v \<Rightarrow> Inr \<lparr>pg_originalPriceToman = original,
              pg_discountCode = Some (dc_code (dv_discountCode v)),
              pg_discountCodeId = Some (dc_id (dv_discountCode v)),
              pg_discountAmountToman = dv_discountAmountToman v,
              pg_finalPriceToman = dv_finalPriceToman v\<rparr>)"

section \<open>The snapshot\<close>

definition resolveSoldInboundIds :: "product_with_relations \<Rightarrow> int list option" where
  "resolveSoldInboundIds product =
     (case p_panel product of
        None \<Rightarrow> None
      | Some panel \<Rightarrow>
          if pr_type (p_row product) \<noteq> ProductType_SERVICE_PRODUCT \<or> pn_type panel \<noteq> PanelType_XUI
          then None
          else case resolveProductInboundIds panel (pr_inboundIds (p_row product)) of
            InboundOk ids inherited \<Rightarrow> Some ids
          | _ \<Rightarrow> None)"

text \<open>The blocks the two kinds of snapshot share.\<close>

definition product_block :: "product_with_relations \<Rightarrow> json_obj" where
  "product_block p =
     [(''productId'', JStr (pr_id (p_row p))),
      (''productType'', JStr (product_type_name (pr_type (p_row p)))),
      (''productName'', JStr (pr_name (p_row p))),
      (''invoiceDescription'',
         JStr (case pr_invoiceDescription (p_row p) of None \<Rightarrow> '''' | Some d \<Rightarrow> d)),
      (''categoryId'', JStr (pr_categoryId (p_row p))),
      (''categoryName'', JStr (cat_name (p_category p))),
      (''panelId'', jopt JStr (pr_panelId (p_row p))),
      (''panelName'', jopt (\<lambda>pn. JStr (pn_name pn)) (p_panel p)),
      (''panelType'', jopt (\<lambda>pn. JStr (panel_type_name (pn_type pn))) (p_panel p)),
      (''serviceLocation'', jopt (\<lambda>l. JStr (location_name l)) (pr_serviceLocation (p_row p))),
      (''allLocations'', JBool (pr_allLocations (p_row p))),
      (''volumeGb'', jopt jint (pr_volumeGb (p_row p))),
      (''durationDays'', jopt jint (pr_durationDays (p_row p))),
      (''trafficResetCycle'', jopt (\<lambda>c. JStr (reset_cycle_name c)) (pr_trafficResetCycle (p_row p))),
      (''requiredUserInfoEnabled'', JBool (pr_requiredUserInfoEnabled (p_row p))),
      (''requiredUserInfoPromptText'', jopt JStr (pr_requiredUserInfoPromptText (p_row p))),
      (''deliveryType'', jopt (\<lambda>d. JStr (delivery_type_name d)) (pr_deliveryType (p_row p)))]"

definition naming_block :: "panel_row \<Rightarrow> json_obj" where
  "naming_block pn =
     [(''namingStrategy'', JStr (pn_usernamePatternType pn)),
      (''namingCustomText'', jopt JStr (pn_usernameCustomText pn)),
      (''namingRandomLength'', jopt jint (pn_usernameRandomLength pn)),
      (''namingRepresentativePrefix'', jopt JStr (pn_representativeUsernamePrefix pn))]"

definition price_block :: "OperationPricing \<Rightarrow> product_with_relations \<Rightarrow> json_obj" where
  "price_block pricing p =
     [(''originalPriceToman'', jint (pg_originalPriceToman pricing)),
      (''discountCode'', jopt JStr (pg_discountCode pricing)),
      (''discountAmountToman'', jint (pg_discountAmountToman pricing)),
      (''finalPriceToman'', jint (pg_finalPriceToman pricing)),
      (''inboundIds'', jopt (\<lambda>ids. JArr (map jint ids)) (resolveSoldInboundIds p))]"

fun target_block :: "ServiceOperation \<Rightarrow> product_with_relations \<Rightarrow> service_row \<Rightarrow> json_obj" where
  "target_block RENEWAL p sv =
     [(''renewalTargetServiceId'', JStr (sv_id sv)),
      (''renewalTargetUsername'', JStr (sv_username sv)),
      (''renewalMethod'', JStr ''ADD_TIME_AND_VOLUME_TO_NEXT_PERIOD''),
      (''renewalTargetStatus'', JStr (service_status_name (sv_status sv))),
      (''renewalTargetExpiresAt'', jopt (\<lambda>t. JStr (toISOString t)) (sv_expiresAt sv)),
      (''renewalTargetRemainingBytes'', JStr (show_int (sv_remainingBytes sv))),
      (''renewalTargetVolumeBytes'', JStr (show_int (sv_volumeBytes sv)))]"
| "target_block EXTRA_VOLUME p sv =
     [(''flowType'', JStr ''EXTRA_VOLUME''),
      (''extraVolumeTargetServiceId'', JStr (sv_id sv)),
      (''extraVolumeTargetUsername'', JStr (sv_username sv)),
      (''extraVolumeGb'', jint (or_zero (pr_volumeGb (p_row p)))),
      (''extraVolumeTargetRemainingBytes'', JStr (show_int (sv_remainingBytes sv))),
      (''extraVolumeTargetVolumeBytes'', JStr (show_int (sv_volumeBytes sv)))]"
| "target_block EXTRA_TIME p sv =
     [(''flowType'', JStr ''EXTRA_TIME''),
      (''extraTimeTargetServiceId'', JStr (sv_id sv)),
      (''extraTimeTargetUsername'', JStr (sv_username sv)),
      (''extraTimeDays'', jint (or_zero (pr_durationDays (p_row p)))),
      (''extraTimeTargetExpiresAt'', jopt (\<lambda>t. JStr (toISOString t)) (sv_expiresAt sv))]"

definition buildOperationSnapshot ::
  "product_with_relations \<Rightarrow> service_row \<Rightarrow> ServiceOperation \<Rightarrow> OperationPricing \<Rightarrow> json_obj" where
  "buildOperationSnapshot product service operation pricing =
     product_block product
     @ (case p_panel product of
          Some panel \<Rightarrow>
            if pr_type (p_row product) = ProductType_SERVICE_PRODUCT then naming_block panel else []
        | None \<Rightarrow> [])
     @ price_block pricing product
     @ target_block operation product service"

record purchase_selection =
  sel_normalizedUsername :: string
  sel_usernameMode :: ServiceUsernameMode
  sel_reservationId :: string
  sel_note :: "string option"

fun username_mode_name :: "ServiceUsernameMode \<Rightarrow> string" where
  "username_mode_name UsernameMode_CUSTOM = ''CUSTOM''"
| "username_mode_name UsernameMode_RANDOM = ''RANDOM''"

definition selection_block :: "purchase_selection \<Rightarrow> json_obj" where
  "selection_block sel =
     [(''serviceUsername'', JStr (sel_normalizedUsername sel)),
      (''serviceUsernameMode'', JStr (username_mode_name (sel_usernameMode sel))),
      (''serviceUsernameSelectionSource'',
         JStr (if sel_usernameMode sel = UsernameMode_RANDOM then ''USER_RANDOM'' else ''USER_CUSTOM'')),
      (''serviceUsernameReservationId'', JStr (sel_reservationId sel)),
      (''serviceUserNote'', jopt JStr (sel_note sel))]"

definition buildPurchaseSnapshot ::
  "product_with_relations \<Rightarrow> OperationPricing \<Rightarrow> purchase_selection \<Rightarrow> json_obj" where
  "buildPurchaseSnapshot product pricing selection =
     product_block product
     @ (case p_panel product of Some panel \<Rightarrow> naming_block panel | None \<Rightarrow> [])
     @ selection_block selection
     @ price_block pricing product"

section \<open>Creating a draft\<close>

definition checkoutPublicId :: "string \<Rightarrow> string" where
  "checkoutPublicId i = take 8 i"

definition isCheckoutPublicId :: "json \<Rightarrow> bool" where
  "isCheckoutPublicId v = (case v of JStr s \<Rightarrow> hex8 s | _ \<Rightarrow> False)"

interpretation checkout_id: public_id hex8 checkoutPublicId
  by unfold_locales (simp_all add: hex8_lower js_lower_idem checkoutPublicId_def hex8_length)

record CheckoutDraftDto =
  cd_checkoutId :: string
  cd_operation :: ServiceOperation
  cd_option :: option_dto
  cd_serviceId :: string
  cd_serviceLabel :: string
  cd_originalPriceToman :: int
  cd_discountCode :: "string option"
  cd_discountAmountToman :: int
  cd_finalPriceToman :: int
  cd_currency :: string
  cd_expiresAt :: string

definition toDraftDto ::
  "checkout_row \<Rightarrow> option_dto \<Rightarrow> service_row \<Rightarrow> ServiceOperation \<Rightarrow> OperationPricing \<Rightarrow> CheckoutDraftDto" where
  "toDraftDto checkout opt service operation pricing =
     \<lparr>cd_checkoutId = checkoutPublicId (co_id checkout), cd_operation = operation,
      cd_option = opt, cd_serviceId = take 8 (sv_id service),
      cd_serviceLabel = sv_username service,
      cd_originalPriceToman = pg_originalPriceToman pricing,
      cd_discountCode = pg_discountCode pricing,
      cd_discountAmountToman = pg_discountAmountToman pricing,
      cd_finalPriceToman = pg_finalPriceToman pricing,
      cd_currency = ''IRT'', cd_expiresAt = toISOString (co_expiresAt checkout)\<rparr>"

text \<open>The row of a draft; \<open>serviceId\<close> is null for a new purchase.\<close>

definition draft_row ::
  "string \<Rightarrow> string \<Rightarrow> string option \<Rightarrow> CommerceOperation \<Rightarrow> json_obj \<Rightarrow> OperationPricing \<Rightarrow> int \<Rightarrow> string \<Rightarrow>
   checkout_row" where
  "draft_row userId productId serviceId operation captured pricing expiresAt i =
     \<lparr>co_id = i, co_userId = userId, co_purpose = CheckoutPurpose_ORDER_PAYMENT,
      co_productId = Some productId, co_serviceId = serviceId,
      co_orderType = Some (OPERATION_ORDER_TYPE operation),
      co_productSnapshot = Some (JObj captured), co_otherProductFulfillmentSnapshot = None,
      co_originalPriceToman = pg_originalPriceToman pricing,
      co_discountAmountToman = pg_discountAmountToman pricing,
      co_finalPriceToman = pg_finalPriceToman pricing,
      co_discountCodeId = pg_discountCodeId pricing, co_status = CheckoutStatus_PENDING,
      co_settledByPaymentId = None, co_expiresAt = expiresAt, co_paidAt = None\<rparr>"

definition cancelled :: "checkout_row \<Rightarrow> checkout_row" where
  "cancelled c = c\<lparr>co_status := CheckoutStatus_CANCELLED\<rparr>"

definition pending_for_service :: "string \<Rightarrow> string \<Rightarrow> checkout_row \<Rightarrow> bool" where
  "pending_for_service userId serviceId c \<longleftrightarrow>
     co_userId c = userId \<and> co_serviceId c = Some serviceId \<and> co_status c = CheckoutStatus_PENDING"

definition pending_for_product :: "string \<Rightarrow> string \<Rightarrow> checkout_row \<Rightarrow> bool" where
  "pending_for_product userId productId c \<longleftrightarrow>
     co_userId c = userId \<and> co_productId c = Some productId \<and> co_status c = CheckoutStatus_PENDING"

datatype 'd create_result =
    DraftCreated checkout_row 'd
  | DraftRefused CommerceResultCode "DiscountRejection option" "UsernameOutcome option"
  | DraftThrows

text \<open>
  The statements of \<open>createOperationCheckout\<close> are separate: \<open>others n\<close> is what other processes do
  to the database before its next one.
\<close>

definition createOperationCheckout ::
  "(nat \<Rightarrow> db \<Rightarrow> db) \<Rightarrow> int \<Rightarrow> OptionListArgs \<Rightarrow> string \<Rightarrow> string option \<Rightarrow> db \<Rightarrow>
   CheckoutDraftDto create_result \<times> db" where
  "createOperationCheckout others now args publicOptionId discountCode s =
     (case resolveServiceOperationOption s args publicOptionId of
        Inl code \<Rightarrow> (DraftRefused code None None, s)
      | Inr resolved \<Rightarrow>
          let product = rs_product resolved;
              service = fst (rs_owned resolved);
              s1 = others 0 s
          in case priceOperation s1 now (ol_userId args) (ol_group args)
                 (OPERATION_DISCOUNT_PURPOSE (OnService (ol_operation args))) product discountCode of
               Inl reason \<Rightarrow> (DraftRefused PRODUCT_UNAVAILABLE (Some reason) None, s1)
             | Inr pricing \<Rightarrow>
                 let s2 = others 1 s1;
                     expiresAt = now + checkoutExpiryMinutes s2 * 60000;
                     s3 = others 2 s2;
                     s4 = snd (update_checkouts (pending_for_service (ol_userId args) (sv_id service))
                            cancelled s3);
                     s5 = others 3 s4
                 in case tx_bind (tx_do draw_id) (\<lambda>i. create_checkout
                        (draft_row (ol_userId args) (pr_id (p_row product)) (Some (sv_id service))
                          (OnService (ol_operation args))
                          (buildOperationSnapshot product service (ol_operation args) pricing)
                          pricing expiresAt i)) s5 of
                      Inl (_ :: unit thrown) \<Rightarrow> (DraftThrows, s5)
                    | Inr (checkout, s6) \<Rightarrow>
                        (DraftCreated checkout
                          (toDraftDto checkout (rs_option resolved) service (ol_operation args) pricing), s6))"

section \<open>A new subscription\<close>

record PurchaseDraftDto =
  pd_checkoutId :: string
  pd_productId :: string
  pd_productLabel :: string
  pd_locationLabel :: "string option"
  pd_username :: string
  pd_usernameMode :: ServiceUsernameMode
  pd_durationDays :: "int option"
  pd_trafficGb :: "int option"
  pd_originalPriceToman :: int
  pd_discountCode :: "string option"
  pd_discountAmountToman :: int
  pd_finalPriceToman :: int
  pd_currency :: string
  pd_expiresAt :: string

record PurchaseCheckoutArgs =
  pc_userId :: string
  pc_group :: UserGroup
  pc_publicProductId :: string
  pc_usernameMode :: ServiceUsernameMode
  pc_requestedUsername :: "string option"
  pc_draftNonce :: string
  pc_note :: "string option"
  pc_discountCode :: "string option"

datatype purchase_exn = PurchaseClaimFailed

definition purchase_claim ::
  "PurchaseCheckoutArgs \<Rightarrow> string \<Rightarrow> string \<Rightarrow> string \<Rightarrow> ServiceUsernameMode \<Rightarrow> ReservationClaimArgs" where
  "purchase_claim args panelId reservationId username mode =
     \<lparr>rc_reservationId = reservationId, rc_userId = pc_userId args,
      rc_draftNonce = Some (pc_draftNonce args), rc_normalizedUsername = username, rc_mode = mode,
      rc_panelId = panelId\<rparr>"

text \<open>
  The advisory lock serializes this body per owner and product; in the model every body is atomic.
\<close>

definition purchase_transaction ::
  "string \<Rightarrow> string \<Rightarrow> json_obj \<Rightarrow> OperationPricing \<Rightarrow> int \<Rightarrow> ReservationClaimArgs \<Rightarrow> int \<Rightarrow>
   (purchase_exn, checkout_row) tx" where
  "purchase_transaction userId productId captured pricing expiresAt claim now =
     tx_bind (tx_do (update_checkouts (pending_for_product userId productId) cancelled)) (\<lambda>_.
     tx_bind (tx_do draw_id) (\<lambda>i.
     tx_bind (create_checkout
         (draft_row userId productId None NewPurchase captured pricing expiresAt i)) (\<lambda>created.
     tx_bind (claimReservationForCheckout claim (co_id created) now) (\<lambda>ok.
     if \<not> ok then tx_fail (Thrown PurchaseClaimFailed) else tx_return created))))"

definition toPurchaseDto ::
  "checkout_row \<Rightarrow> product_with_relations \<Rightarrow> panel_row \<Rightarrow> string \<Rightarrow> ServiceUsernameMode \<Rightarrow>
   OperationPricing \<Rightarrow> PurchaseDraftDto" where
  "toPurchaseDto checkout product panel username mode pricing =
     \<lparr>pd_checkoutId = checkoutPublicId (co_id checkout),
      pd_productId = catalogPublicId (pr_id (p_row product)),
      pd_productLabel = pr_name (p_row product), pd_locationLabel = Some (pn_name panel),
      pd_username = username, pd_usernameMode = mode,
      pd_durationDays = pr_durationDays (p_row product), pd_trafficGb = pr_volumeGb (p_row product),
      pd_originalPriceToman = pg_originalPriceToman pricing,
      pd_discountCode = pg_discountCode pricing,
      pd_discountAmountToman = pg_discountAmountToman pricing,
      pd_finalPriceToman = pg_finalPriceToman pricing,
      pd_currency = ''IRT'', pd_expiresAt = toISOString (co_expiresAt checkout)\<rparr>"

text \<open>What the buyer asked for: a random name over the given random bytes, or the typed one.\<close>

definition hold_username ::
  "(nat \<Rightarrow> (db \<Rightarrow> db) \<times> (db \<Rightarrow> db)) \<Rightarrow> probe \<Rightarrow> int \<Rightarrow> PurchaseCheckoutArgs \<Rightarrow> string \<Rightarrow> nat list list \<Rightarrow>
   db \<Rightarrow> (ReserveResult \<times> db) option" where
  "hold_username rothers probe now args panelId bufs s =
     (if pc_usernameMode args = UsernameMode_RANDOM
      then reserveRandomServiceUsername rothers probe now (pc_userId args) panelId
        (Some (pc_draftNonce args)) bufs s
      else Some (reserveServiceUsername (fst (rothers 0)) (snd (rothers 0)) probe now
        \<lparr>ra_userId = pc_userId args, ra_panelId = panelId, ra_mode = UsernameMode_CUSTOM,
         ra_normalizedUsername = js_lower (js_trim
           (case pc_requestedUsername args of None \<Rightarrow> '''' | Some u \<Rightarrow> u)),
         ra_draftNonce = Some (pc_draftNonce args)\<rparr> s))"

text \<open>
  \<open>others n\<close> is what other processes do between the statements of the call, \<open>rothers\<close> inside the
  reservation; None when the random source is exhausted.
\<close>

definition createPurchaseCheckout ::
  "(nat \<Rightarrow> db \<Rightarrow> db) \<Rightarrow> (nat \<Rightarrow> (db \<Rightarrow> db) \<times> (db \<Rightarrow> db)) \<Rightarrow> probe \<Rightarrow> int \<Rightarrow> PurchaseCheckoutArgs \<Rightarrow>
   nat list list \<Rightarrow> db \<Rightarrow> (PurchaseDraftDto create_result \<times> db) option" where
  "createPurchaseCheckout others rothers probe now args bufs s =
     (case resolvePurchasableProduct s (pc_group args) (pc_publicProductId args) of
        None \<Rightarrow> Some (DraftRefused PRODUCT_UNAVAILABLE None None, s)
      | Some product \<Rightarrow>
          (case (pr_panelId (p_row product), p_panel product) of
             (Some panelId, Some panel) \<Rightarrow>
               let s1 = others 0 s in
               (case priceOperation s1 now (pc_userId args) (pc_group args) Purpose_PURCHASE product
                   (pc_discountCode args) of
                  Inl reason \<Rightarrow> Some (DraftRefused PRODUCT_UNAVAILABLE (Some reason) None, s1)
                | Inr pricing \<Rightarrow>
                    (case hold_username rothers probe now args panelId bufs (others 1 s1) of
                       None \<Rightarrow> None
                     | Some (NotReserved outcome, s2) \<Rightarrow>
                         Some (DraftRefused OPTION_UNAVAILABLE None (Some outcome), s2)
                     | Some (Reserved reservationId username mode, s2) \<Rightarrow>
                         let s3 = others 2 s2;
                             expiresAt = now + checkoutExpiryMinutes s3 * 60000;
                             captured = buildPurchaseSnapshot product pricing
                               \<lparr>sel_normalizedUsername = username,
                                sel_usernameMode = pc_usernameMode args,
                                sel_reservationId = reservationId, sel_note = pc_note args\<rparr>
                         in (case run_transaction (purchase_transaction (pc_userId args)
                                 (pr_id (p_row product)) captured pricing expiresAt
                                 (purchase_claim args panelId reservationId username mode) now)
                                 (others 3 s3) of
                               (Inr checkout, s4) \<Rightarrow>
                                 Some (DraftCreated checkout (toPurchaseDto checkout product panel
                                   username (pc_usernameMode args) pricing), s4)
                             | (Inl (Thrown PurchaseClaimFailed), s4) \<Rightarrow>
                                 Some (DraftRefused CHECKOUT_UNAVAILABLE None None, s4)
                             | (Inl _, s4) \<Rightarrow> Some (DraftThrows, s4))))
           | _ \<Rightarrow> Some (DraftRefused PRODUCT_UNAVAILABLE None None, s)))"

section \<open>The quote\<close>

fun operationOfOrderType :: "OrderType option \<Rightarrow> CommerceOperation option" where
  "operationOfOrderType (Some OrderType_SERVICE_PURCHASE) = Some NewPurchase"
| "operationOfOrderType (Some OrderType_SERVICE_RENEWAL) = Some (OnService RENEWAL)"
| "operationOfOrderType (Some OrderType_EXTRA_VOLUME) = Some (OnService EXTRA_VOLUME)"
| "operationOfOrderType (Some OrderType_EXTRA_TIME) = Some (OnService EXTRA_TIME)"
| "operationOfOrderType _ = None"

definition owned_pending :: "string \<Rightarrow> string \<Rightarrow> checkout_row \<Rightarrow> bool" where
  "owned_pending userId publicCheckoutId c \<longleftrightarrow>
     co_userId c = userId \<and> starts_with (co_id c) (js_lower publicCheckoutId)
     \<and> co_status c = CheckoutStatus_PENDING \<and> co_settledByPaymentId c = None
     \<and> co_purpose c = CheckoutPurpose_ORDER_PAYMENT"

definition loadOwnedPendingCheckout ::
  "db \<Rightarrow> string \<Rightarrow> string \<Rightarrow> int \<Rightarrow> (checkout_row \<times> CommerceOperation) option" where
  "loadOwnedPendingCheckout s userId publicCheckoutId nowMs =
     (if \<not> isCheckoutPublicId (JStr publicCheckoutId) then None
      else case take 2 (filter (owned_pending userId publicCheckoutId) (checkouts s)) of
        [checkout] \<Rightarrow>
          if co_expiresAt checkout \<le> nowMs then None
          else map_option (\<lambda>operation. (checkout, operation)) (operationOfOrderType (co_orderType checkout))
      | _ \<Rightarrow> None)"

definition loadQuoteState ::
  "db \<Rightarrow> string \<Rightarrow> string \<Rightarrow> string option \<Rightarrow> (product_with_relations \<times> service_row option) option" where
  "loadQuoteState s userId productId serviceId =
     (case find (\<lambda>p. pr_id (p_row p) = productId) (all_products s) of
        None \<Rightarrow> None
      | Some product \<Rightarrow>
          (case serviceId of
             None \<Rightarrow> Some (product, None)
           | Some i \<Rightarrow>
               (case find (\<lambda>sv. sv_id sv = i \<and> sv_userId sv = userId) (services s) of
                  None \<Rightarrow> None
                | Some service \<Rightarrow> Some (product, Some service))))"

definition priced_world ::
  "string \<Rightarrow> checkout_row \<Rightarrow> product_with_relations \<times> service_row option \<Rightarrow> fingerprint_input" where
  "priced_world productId checkout state =
     \<lparr>fi_productId = productId,
      fi_productPriceToman = pr_priceToman (p_row (fst state)),
      fi_productActive = pr_isActive (p_row (fst state)),
      fi_categoryActive = cat_isActive (p_category (fst state)),
      fi_panelId = pr_panelId (p_row (fst state)),
      fi_panelStatus = map_option (\<lambda>pn. panel_status_name (pn_status pn)) (p_panel (fst state)),
      fi_discountCodeId = co_discountCodeId checkout,
      fi_discountAmountToman = co_discountAmountToman checkout,
      fi_finalPriceToman = co_finalPriceToman checkout,
      fi_serviceId = map_option sv_id (snd state),
      fi_serviceStatus = map_option (\<lambda>sv. service_status_name (sv_status sv)) (snd state),
      fi_serviceExpiresAtMs = Option.bind (snd state) sv_expiresAt,
      fi_serviceVolumeBytes = map_option (\<lambda>sv. show_int (sv_volumeBytes sv)) (snd state)\<rparr>"

record QuoteDto =
  qd_quote :: string
  qd_operation :: CommerceOperation
  qd_checkoutId :: string
  qd_optionLabel :: string
  qd_serviceLabel :: string
  qd_originalPriceToman :: int
  qd_discountCode :: "string option"
  qd_discountAmountToman :: int
  qd_finalPriceToman :: int
  qd_currency :: string
  qd_walletBalanceToman :: int
  qd_expectedBalanceAfterToman :: int
  qd_affordable :: bool
  qd_grantedDurationDays :: "jsnum option"
  qd_grantedTrafficGb :: "jsnum option"
  qd_currentExpiresAt :: "string option"
  qd_expectedExpiresAt :: "string option"
  qd_quoteExpiresAt :: string

definition numberOrNull :: "json option \<Rightarrow> jsnum option" where
  "numberOrNull v =
     (case v of Some (JNum n) \<Rightarrow> if n = NNonFinite then None else Some n | _ \<Rightarrow> None)"

text \<open>The date a number of days after a date: fractions of a millisecond are truncated.\<close>

fun plus_days :: "int \<Rightarrow> jsnum \<Rightarrow> int" where
  "plus_days t (NInt d) = t + d * DAY_MS"
| "plus_days t (NFrac m k) =
     (let num = t * 10 ^ k + m * DAY_MS in sgn num * (\<bar>num\<bar> div 10 ^ k))"
| "plus_days t NNonFinite = t"

text \<open>None is the RangeError of \<open>toISOString\<close> on an invalid date.\<close>

definition expectedExpiry ::
  "CommerceOperation \<Rightarrow> service_row \<Rightarrow> jsnum option \<Rightarrow> int \<Rightarrow> string option option" where
  "expectedExpiry operation service grantedDurationDays nowMs =
     (case (grantedDurationDays, sv_expiresAt service) of
        (Some days, Some expiresAt) \<Rightarrow>
          if operation \<noteq> OnService EXTRA_TIME then Some None
          else let t = plus_days (max expiresAt nowMs) days
               in if js_date t then Some (Some (toISOString t)) else None
      | _ \<Rightarrow> Some None)"

datatype quote_result = QuoteIssued QuoteDto | QuoteRefused CommerceResultCode | QuoteThrows

definition text_or_empty :: "json option \<Rightarrow> string" where
  "text_or_empty v = (case v of Some (JStr x) \<Rightarrow> x | _ \<Rightarrow> '''')"

definition quote_payload ::
  "crypto \<Rightarrow> string \<Rightarrow> string \<Rightarrow> checkout_row \<Rightarrow> CommerceOperation \<Rightarrow>
   product_with_relations \<times> service_row option \<Rightarrow> int \<Rightarrow> QuotePayload" where
  "quote_payload cr userId productId checkout operation state quoteExpiresAtMs =
     \<lparr>qp_userId = userId, qp_checkoutId = co_id checkout,
      qp_operation = commerce_operation_name operation,
      qp_finalPriceToman = co_finalPriceToman checkout,
      qp_fingerprint = quoteFingerprint cr (priced_world productId checkout state),
      qp_expiresAtMs = quoteExpiresAtMs\<rparr>"

definition issueQuoteForCheckout ::
  "crypto \<Rightarrow> string \<Rightarrow> byte list \<Rightarrow> db \<Rightarrow> string \<Rightarrow> string \<Rightarrow> int \<Rightarrow> int \<Rightarrow> quote_result" where
  "issueQuoteForCheckout cr secret iv s userId publicCheckoutId walletBalanceToman nowMs =
     (case loadOwnedPendingCheckout s userId publicCheckoutId nowMs of
        None \<Rightarrow> QuoteRefused CHECKOUT_UNAVAILABLE
      | Some (checkout, operation) \<Rightarrow>
          let captured = as_record (co_productSnapshot checkout) in
          (case map_of captured ''productId'' of
             Some (JStr productId) \<Rightarrow>
               if operation \<noteq> NewPurchase \<and> co_serviceId checkout = None
               then QuoteRefused CHECKOUT_UNAVAILABLE
               else (case loadQuoteState s userId productId (co_serviceId checkout) of
                  None \<Rightarrow> QuoteRefused QUOTE_STALE
                | Some state \<Rightarrow>
                    let quoteExpiresAtMs = nowMs + RENEWAL_QUOTE_TTL_SECONDS * 1000;
                        days = (if operation = OnService EXTRA_VOLUME then None
                          else numberOrNull (map_of captured ''durationDays''));
                        gigabytes = (if operation = OnService EXTRA_TIME then None
                          else numberOrNull (map_of captured ''volumeGb''))
                    in (case sealQuote cr secret iv
                          (quote_payload cr userId productId checkout operation state quoteExpiresAtMs) of
                          None \<Rightarrow> QuoteThrows
                        | Some quote \<Rightarrow>
                            (case (case snd state of None \<Rightarrow> Some None
                                | Some service \<Rightarrow>
                                    if operation = NewPurchase then Some None
                                    else expectedExpiry operation service days nowMs) of
                               None \<Rightarrow> QuoteThrows
                             | Some expected \<Rightarrow>
                                 QuoteIssued
                                   \<lparr>qd_quote = quote, qd_operation = operation,
                                    qd_checkoutId = checkoutPublicId (co_id checkout),
                                    qd_optionLabel = text_or_empty (map_of captured ''productName''),
                                    qd_serviceLabel = (case snd state of
                                      Some service \<Rightarrow> sv_username service
                                    | None \<Rightarrow> text_or_empty (map_of captured ''serviceUsername'')),
                                    qd_originalPriceToman = co_originalPriceToman checkout,
                                    qd_discountCode = (case map_of captured ''discountCode'' of
                                      Some (JStr c) \<Rightarrow> Some c | _ \<Rightarrow> None),
                                    qd_discountAmountToman = co_discountAmountToman checkout,
                                    qd_finalPriceToman = co_finalPriceToman checkout,
                                    qd_currency = ''IRT'',
                                    qd_walletBalanceToman = walletBalanceToman,
                                    qd_expectedBalanceAfterToman =
                                      walletBalanceToman - co_finalPriceToman checkout,
                                    qd_affordable = (walletBalanceToman \<ge> co_finalPriceToman checkout),
                                    qd_grantedDurationDays = days,
                                    qd_grantedTrafficGb = gigabytes,
                                    qd_currentExpiresAt =
                                      map_option toISOString (Option.bind (snd state) sv_expiresAt),
                                    qd_expectedExpiresAt = expected,
                                    qd_quoteExpiresAt = toISOString quoteExpiresAtMs\<rparr>)))
           | _ \<Rightarrow> QuoteRefused CHECKOUT_UNAVAILABLE))"

section \<open>What a draft is\<close>

lemma priceOperation_amounts:
  assumes "priceOperation s now u g purpose p code = Inr pg" and "0 \<le> pr_priceToman (p_row p)"
  shows "pg_originalPriceToman pg = pr_priceToman (p_row p)
    \<and> 0 \<le> pg_discountAmountToman pg \<and> pg_discountAmountToman pg \<le> pg_originalPriceToman pg
    \<and> pg_finalPriceToman pg = pg_originalPriceToman pg - pg_discountAmountToman pg"
proof -
  have v: "0 \<le> dv_discountAmountToman v \<and> dv_discountAmountToman v \<le> pr_priceToman (p_row p)
      \<and> dv_finalPriceToman v = pr_priceToman (p_row p) - dv_discountAmountToman v"
    if "validateDiscountCode s now c u g (pr_priceToman (p_row p)) purpose = Inr v" for c v
    using validateDiscountCode_Inr [OF that] calculateDiscountAmount_range [OF assms(2)] by auto
  show ?thesis
    using assms(1) v
    by (auto simp: priceOperation_def full_price_def Let_def assms(2)
        split: option.splits if_splits sum.splits)
qed

lemma draft_row_simps [simp]:
  "co_id (draft_row u p sv oper cap pg ex i) = i"
  "co_userId (draft_row u p sv oper cap pg ex i) = u"
  "co_productId (draft_row u p sv oper cap pg ex i) = Some p"
  "co_serviceId (draft_row u p sv oper cap pg ex i) = sv"
  "co_status (draft_row u p sv oper cap pg ex i) = CheckoutStatus_PENDING"
  "co_orderType (draft_row u p sv oper cap pg ex i) = Some (OPERATION_ORDER_TYPE oper)"
  "co_purpose (draft_row u p sv oper cap pg ex i) = CheckoutPurpose_ORDER_PAYMENT"
  "co_settledByPaymentId (draft_row u p sv oper cap pg ex i) = None"
  "co_originalPriceToman (draft_row u p sv oper cap pg ex i) = pg_originalPriceToman pg"
  "co_discountAmountToman (draft_row u p sv oper cap pg ex i) = pg_discountAmountToman pg"
  "co_finalPriceToman (draft_row u p sv oper cap pg ex i) = pg_finalPriceToman pg"
  "co_discountCodeId (draft_row u p sv oper cap pg ex i) = pg_discountCodeId pg"
  "co_productSnapshot (draft_row u p sv oper cap pg ex i) = Some (JObj cap)"
  "co_expiresAt (draft_row u p sv oper cap pg ex i) = ex"
  by (simp_all add: draft_row_def)

lemma cancelled_simps [simp]:
  "co_status (cancelled c) = CheckoutStatus_CANCELLED" "co_id (cancelled c) = co_id c"
  by (simp_all add: cancelled_def)

lemma filter_cancelled:
  assumes "\<And>c. P c \<Longrightarrow> co_status c = CheckoutStatus_PENDING"
  shows "filter P (update_where P cancelled t) = []"
  by (auto simp: filter_empty_conv set_update_where dest: assms [of "cancelled x" for x])

lemma claimReservation_Inr:
  assumes "claimReservationForCheckout claim cs now s = Inr (True, s')"
  obtains r where "filter (claimable claim now) (reservations s) = [r]"
    and "s' = s\<lparr>reservations := update_where (claimable claim now) (bound_to_checkout cs now) (reservations s)\<rparr>"
  using assms
  by (auto simp: claimReservationForCheckout_def tx_defs update_reservations_def count_where_def
      length_Suc_conv)

lemma purchase_transaction_Inr:
  assumes "purchase_transaction u pid cap pg ex claim now s = Inr (c, s')"
  shows "c = draft_row u pid None NewPurchase cap pg ex (uuids s (drawn s))
    \<and> checkouts s' = update_where (pending_for_product u pid) cancelled (checkouts s) @ [c]
    \<and> (\<exists>r. filter (claimable claim now) (reservations s) = [r])
    \<and> reservations s' = update_where (claimable claim now) (bound_to_checkout (co_id c) now) (reservations s)"
proof -
  let ?t = "s\<lparr>checkouts := update_where (pending_for_product u pid) cancelled (checkouts s), drawn := Suc (drawn s)\<rparr>"
  let ?c = "draft_row u pid None NewPurchase cap pg ex (uuids s (drawn s))"
  obtain s2 where "(create_checkout ?c :: (purchase_exn, checkout_row) tx) ?t = Inr (c, s2)"
    and cl: "(claimReservationForCheckout claim (co_id c) now :: (purchase_exn, bool) tx) s2 = Inr (True, s')"
    using assms
    by (auto simp: purchase_transaction_def tx_bind_Inr tx_do_Inr update_checkouts_def draw_id_def
        tx_fail_Inr tx_return_Inr split: if_splits dest: create_checkout_Inr)
  then have "c = ?c \<and> s2 = ?t\<lparr>checkouts := checkouts ?t @ [?c]\<rparr>" by (auto dest: create_checkout_Inr)
  moreover obtain r where "filter (claimable claim now) (reservations s2) = [r]"
    and "s' = s2\<lparr>reservations := update_where (claimable claim now) (bound_to_checkout (co_id c) now) (reservations s2)\<rparr>"
    by (rule claimReservation_Inr [OF cl])
  ultimately show ?thesis by simp
qed

lemma purchase_created:
  assumes "createPurchaseCheckout others rothers probe now args bufs s = Some (DraftCreated c dto, s')"
  obtains product panelId panel pricing i username mode t where
    "resolvePurchasableProduct s (pc_group args) (pc_publicProductId args) = Some product"
    and "pr_panelId (p_row product) = Some panelId" and "p_panel product = Some panel"
    and "priceOperation (others 0 s) now (pc_userId args) (pc_group args) Purpose_PURCHASE product
           (pc_discountCode args) = Inr pricing"
    and "purchase_transaction (pc_userId args) (pr_id (p_row product))
           (buildPurchaseSnapshot product pricing
             \<lparr>sel_normalizedUsername = username, sel_usernameMode = pc_usernameMode args,
              sel_reservationId = i, sel_note = pc_note args\<rparr>)
           pricing (co_expiresAt c) (purchase_claim args panelId i username mode) now t = Inr (c, s')"
    and "dto = toPurchaseDto c product panel username (pc_usernameMode args) pricing"
proof -
  obtain product where p: "resolvePurchasableProduct s (pc_group args) (pc_publicProductId args) = Some product"
    using assms by (auto simp: createPurchaseCheckout_def split: option.splits)
  obtain panelId panel where pn: "pr_panelId (p_row product) = Some panelId" "p_panel product = Some panel"
    using assms by (auto simp: createPurchaseCheckout_def p split: option.splits)
  obtain pricing where pr: "priceOperation (others 0 s) now (pc_userId args) (pc_group args)
      Purpose_PURCHASE product (pc_discountCode args) = Inr pricing"
    using assms by (auto simp: createPurchaseCheckout_def p pn Let_def split: sum.splits)
  obtain i username mode s2 where h: "hold_username rothers probe now args panelId bufs (others 1 (others 0 s))
      = Some (Reserved i username mode, s2)"
    using assms by (auto simp: createPurchaseCheckout_def p pn pr Let_def
        split: option.splits prod.splits ReserveResult.splits)
  let ?cap = "buildPurchaseSnapshot product pricing
      \<lparr>sel_normalizedUsername = username, sel_usernameMode = pc_usernameMode args,
       sel_reservationId = i, sel_note = pc_note args\<rparr>"
  let ?tx = "purchase_transaction (pc_userId args) (pr_id (p_row product)) ?cap pricing
      (now + checkoutExpiryMinutes (others 2 s2) * 60000) (purchase_claim args panelId i username mode) now"
  have tx: "?tx (others 3 (others 2 s2)) = Inr (c, s')"
    and d: "dto = toPurchaseDto c product panel username (pc_usernameMode args) pricing"
    using assms by (auto simp: createPurchaseCheckout_def p pn pr h [unfolded One_nat_def] Let_def run_transaction_def
        split: sum.splits prod.splits thrown.splits purchase_exn.splits)
  moreover have "co_expiresAt c = now + checkoutExpiryMinutes (others 2 s2) * 60000"
    using purchase_transaction_Inr [OF tx] by simp
  ultimately show ?thesis using that p pn pr by metis
qed

lemma purchase_snapshot_names:
  "map_of (buildPurchaseSnapshot p pg sel) ''serviceUsername'' = Some (JStr (sel_normalizedUsername sel))"
  "map_of (buildPurchaseSnapshot p pg sel) ''serviceUsernameReservationId'' = Some (JStr (sel_reservationId sel))"
  "map_of (buildPurchaseSnapshot p pg sel) ''panelId'' = Some (jopt JStr (pr_panelId (p_row p)))"
  "map_of (buildPurchaseSnapshot p pg sel) ''productId'' = Some (JStr (pr_id (p_row p)))"
  "map_of (buildPurchaseSnapshot p pg sel) ''originalPriceToman'' = Some (jint (pg_originalPriceToman pg))"
  "map_of (buildPurchaseSnapshot p pg sel) ''discountAmountToman'' = Some (jint (pg_discountAmountToman pg))"
  "map_of (buildPurchaseSnapshot p pg sel) ''finalPriceToman'' = Some (jint (pg_finalPriceToman pg))"
  by (simp_all add: buildPurchaseSnapshot_def product_block_def naming_block_def selection_block_def
      price_block_def split: option.split)

lemma operation_snapshot_names:
  "map_of (buildOperationSnapshot p sv oper pg) ''productId'' = Some (JStr (pr_id (p_row p)))"
  "map_of (buildOperationSnapshot p sv oper pg) ''originalPriceToman'' = Some (jint (pg_originalPriceToman pg))"
  "map_of (buildOperationSnapshot p sv oper pg) ''discountAmountToman'' = Some (jint (pg_discountAmountToman pg))"
  "map_of (buildOperationSnapshot p sv oper pg) ''finalPriceToman'' = Some (jint (pg_finalPriceToman pg))"
  by (simp_all add: buildOperationSnapshot_def product_block_def naming_block_def price_block_def
      split: option.split)

lemma claimed_hold:
  assumes "filter (claimable claim now) t = [r]"
  shows "bound_to_checkout cs now r \<in> set (update_where (claimable claim now) (bound_to_checkout cs now) t)
    \<and> claimable claim now r"
proof -
  have "r \<in> set (filter (claimable claim now) t)" unfolding assms by simp
  then show ?thesis by (auto simp: set_update_where)
qed

text \<open>
  C38. A new subscription is never on offer without its username: a created draft is the buyer's
  only pending draft for that product; its amounts are the product's live price less a discount
  between zero and it; and the very hold its snapshot names is bound to it, under the buyer, the
  product's panel and the name the buyer was told, with no expiry of its own.
\<close>

theorem purchase_draft_is_priced_and_held:
  assumes "createPurchaseCheckout others rothers probe now args bufs s = Some (DraftCreated c dto, s')"
  shows "\<exists>product panelId. resolvePurchasableProduct s (pc_group args) (pc_publicProductId args) = Some product
    \<and> pr_panelId (p_row product) = Some panelId
    \<and> filter (pending_for_product (pc_userId args) (pr_id (p_row product))) (checkouts s') = [c]
    \<and> co_orderType c = Some OrderType_SERVICE_PURCHASE
    \<and> (0 \<le> pr_priceToman (p_row product) \<longrightarrow>
         co_originalPriceToman c = pr_priceToman (p_row product) \<and> 0 \<le> co_discountAmountToman c
         \<and> co_discountAmountToman c \<le> co_originalPriceToman c
         \<and> co_finalPriceToman c = co_originalPriceToman c - co_discountAmountToman c)
    \<and> (\<exists>r \<in> set (reservations s'). rv_status r = Reservation_BOUND
         \<and> rv_checkoutSessionId r = Some (co_id c) \<and> rv_userId r = pc_userId args
         \<and> rv_panelId r = panelId \<and> rv_normalizedUsername r = pd_username dto \<and> rv_expiresAt r = None
         \<and> map_of (as_record (co_productSnapshot c)) ''serviceUsernameReservationId'' = Some (JStr (rv_id r))
         \<and> map_of (as_record (co_productSnapshot c)) ''serviceUsername'' = Some (JStr (rv_normalizedUsername r))
         \<and> map_of (as_record (co_productSnapshot c)) ''panelId'' = Some (JStr panelId))"
proof (rule purchase_created [OF assms])
  fix product panelId panel pricing i username mode t
  let ?sel = "\<lparr>sel_normalizedUsername = username, sel_usernameMode = pc_usernameMode args,
    sel_reservationId = i, sel_note = pc_note args\<rparr>"
  let ?claim = "purchase_claim args panelId i username mode"
  assume p: "resolvePurchasableProduct s (pc_group args) (pc_publicProductId args) = Some product"
      "pr_panelId (p_row product) = Some panelId"
    and pr: "priceOperation (others 0 s) now (pc_userId args) (pc_group args) Purpose_PURCHASE product
      (pc_discountCode args) = Inr pricing"
    and tx: "purchase_transaction (pc_userId args) (pr_id (p_row product))
      (buildPurchaseSnapshot product pricing ?sel) pricing (co_expiresAt c) ?claim now t = Inr (c, s')"
    and d: "dto = toPurchaseDto c product panel username (pc_usernameMode args) pricing"
  let ?pend = "pending_for_product (pc_userId args) (pr_id (p_row product))"
  note t = purchase_transaction_Inr [OF tx]
  obtain r where r: "filter (claimable ?claim now) (reservations t) = [r]" using t by blast
  have c: "?pend c" "co_orderType c = Some OrderType_SERVICE_PURCHASE"
    "as_record (co_productSnapshot c) = buildPurchaseSnapshot product pricing ?sel"
    "co_originalPriceToman c = pg_originalPriceToman pricing"
    "co_discountAmountToman c = pg_discountAmountToman pricing"
    "co_finalPriceToman c = pg_finalPriceToman pricing"
    by (subst conjunct1 [OF t], simp add: pending_for_product_def as_record_def)+
  have "filter ?pend (checkouts s') = [c]"
  proof -
    have "filter ?pend (update_where ?pend cancelled (checkouts t)) = []"
      by (rule filter_cancelled) (simp add: pending_for_product_def)
    then show ?thesis using t c(1) by simp
  qed
  moreover have "\<exists>r \<in> set (reservations s'). rv_status r = Reservation_BOUND
      \<and> rv_checkoutSessionId r = Some (co_id c) \<and> rv_userId r = pc_userId args
      \<and> rv_panelId r = panelId \<and> rv_normalizedUsername r = pd_username dto \<and> rv_expiresAt r = None
      \<and> rv_id r = i"
    using claimed_hold [OF r, of "co_id c"] t
    by (intro bexI [of _ "bound_to_checkout (co_id c) now r"])
      (auto simp: bound_to_checkout_def claimable_def purchase_claim_def d toPurchaseDto_def)
  moreover have "pd_username dto = username" by (simp add: d toPurchaseDto_def)
  moreover have "0 \<le> pr_priceToman (p_row product) \<longrightarrow>
      co_originalPriceToman c = pr_priceToman (p_row product) \<and> 0 \<le> co_discountAmountToman c
      \<and> co_discountAmountToman c \<le> co_originalPriceToman c
      \<and> co_finalPriceToman c = co_originalPriceToman c - co_discountAmountToman c"
    using c priceOperation_amounts [OF pr] by auto
  ultimately show ?thesis using p c by (auto simp: purchase_snapshot_names jopt_def)
qed

text \<open>
  A draft for a service operation replaces the older ones: its amounts are the option's live
  price less a discount between zero and it, and after it the buyer's pending drafts for that
  service are the new one and those another request created between the cancellation and the
  creation, which are separate statements; without such a request the new draft is the only one.
\<close>

theorem operation_draft_replaces_older:
  assumes "createOperationCheckout others now args oid code s = (DraftCreated c dto, s')"
  shows "\<exists>res t. resolveServiceOperationOption s args oid = Inr res
    \<and> co_serviceId c = Some (sv_id (fst (rs_owned res)))
    \<and> co_productId c = Some (pr_id (p_row (rs_product res)))
    \<and> (0 \<le> pr_priceToman (p_row (rs_product res)) \<longrightarrow>
         co_originalPriceToman c = pr_priceToman (p_row (rs_product res)) \<and> 0 \<le> co_discountAmountToman c
         \<and> co_discountAmountToman c \<le> co_originalPriceToman c
         \<and> co_finalPriceToman c = co_originalPriceToman c - co_discountAmountToman c)
    \<and> filter (pending_for_service (ol_userId args) (sv_id (fst (rs_owned res)))) (checkouts t) = []
    \<and> filter (pending_for_service (ol_userId args) (sv_id (fst (rs_owned res)))) (checkouts s') =
        filter (pending_for_service (ol_userId args) (sv_id (fst (rs_owned res)))) (checkouts (others 3 t)) @ [c]"
proof -
  obtain res where res: "resolveServiceOperationOption s args oid = Inr res"
    using assms by (auto simp: createOperationCheckout_def split: sum.splits)
  let ?sv = "fst (rs_owned res)" and ?p = "rs_product res"
  let ?pend = "pending_for_service (ol_userId args) (sv_id ?sv)"
  obtain pricing where pr: "priceOperation (others 0 s) now (ol_userId args) (ol_group args)
      (OPERATION_DISCOUNT_PURPOSE (OnService (ol_operation args))) ?p code = Inr pricing"
    using assms by (auto simp: createOperationCheckout_def res Let_def split: sum.splits)
  define t where "t = snd (update_checkouts ?pend cancelled (others 2 (others 1 (others 0 s))))"
  have e: "\<exists>ex cap. c = draft_row (ol_userId args) (pr_id (p_row ?p)) (Some (sv_id ?sv))
        (OnService (ol_operation args)) cap pricing ex (uuids (others 3 t) (drawn (others 3 t)))
      \<and> checkouts s' = checkouts (others 3 t) @ [c]"
    using assms
    by (auto simp: createOperationCheckout_def res pr [simplified] Let_def t_def tx_bind_Inr tx_do_Inr draw_id_def
        split: sum.splits prod.splits dest!: create_checkout_Inr)
  have "filter ?pend (checkouts t) = []"
    unfolding t_def update_checkouts_def
    by (simp, rule filter_cancelled) (simp add: pending_for_service_def)
  moreover have "filter ?pend (checkouts s') = filter ?pend (checkouts (others 3 t)) @ [c]"
    using e by (auto simp: pending_for_service_def)
  ultimately show ?thesis using e priceOperation_amounts [OF pr] res by fastforce
qed

section \<open>What a quote says\<close>

lemma load_owned_pending:
  assumes "loadOwnedPendingCheckout s u pid now = Some (c, oper)"
  shows "c \<in> set (checkouts s) \<and> owned_pending u pid c \<and> now < co_expiresAt c
    \<and> co_orderType c = Some (OPERATION_ORDER_TYPE oper)"
proof -
  have f: "take 2 (filter (owned_pending u pid) (checkouts s)) = [c]" and ex: "now < co_expiresAt c"
    and o: "operationOfOrderType (co_orderType c) = Some oper"
    using assms by (auto simp: loadOwnedPendingCheckout_def split: if_splits list.splits)
  have "c \<in> set (take 2 (filter (owned_pending u pid) (checkouts s)))" unfolding f by simp
  then have "c \<in> set (checkouts s) \<and> owned_pending u pid c" by (auto dest: in_set_takeD)
  moreover have "co_orderType c = Some (OPERATION_ORDER_TYPE oper)"
    using o by (cases "co_orderType c" rule: operationOfOrderType.cases) auto
  ultimately show ?thesis using ex by simp
qed

lemma quote_issued:
  assumes "issueQuoteForCheckout cr secret iv s u pid balance now = QuoteIssued dto"
  obtains c oper productId state where "loadOwnedPendingCheckout s u pid now = Some (c, oper)"
    and "map_of (as_record (co_productSnapshot c)) ''productId'' = Some (JStr productId)"
    and "loadQuoteState s u productId (co_serviceId c) = Some state"
    and "sealQuote cr secret iv
           (quote_payload cr u productId c oper state (now + RENEWAL_QUOTE_TTL_SECONDS * 1000)) = Some (qd_quote dto)"
    and "qd_operation dto = oper" and "qd_originalPriceToman dto = co_originalPriceToman c"
    and "qd_discountAmountToman dto = co_discountAmountToman c"
    and "qd_finalPriceToman dto = co_finalPriceToman c"
    and "qd_expectedBalanceAfterToman dto = balance - co_finalPriceToman c"
    and "qd_affordable dto = (co_finalPriceToman c \<le> balance)"
proof -
  obtain c oper where l: "loadOwnedPendingCheckout s u pid now = Some (c, oper)"
    using assms by (auto simp: issueQuoteForCheckout_def split: option.splits)
  obtain productId where m: "map_of (as_record (co_productSnapshot c)) ''productId'' = Some (JStr productId)"
    using assms by (auto simp: issueQuoteForCheckout_def l Let_def split: option.splits json.splits)
  obtain state where st: "loadQuoteState s u productId (co_serviceId c) = Some state"
    using assms by (auto simp: issueQuoteForCheckout_def l m Let_def split: option.splits if_splits)
  obtain q where q: "sealQuote cr secret iv
      (quote_payload cr u productId c oper state (now + RENEWAL_QUOTE_TTL_SECONDS * 1000)) = Some q"
    using assms
    by (cases "sealQuote cr secret iv
        (quote_payload cr u productId c oper state (now + RENEWAL_QUOTE_TTL_SECONDS * 1000))")
      (auto simp: issueQuoteForCheckout_def l m st Let_def split: if_splits)
  show ?thesis
    using assms
    by (intro that [OF l m st])
      (auto simp: issueQuoteForCheckout_def l m st q Let_def split: if_splits option.splits)
qed

text \<open>
  What separates two priced worlds in the fingerprint: no field holds the separator, and no
  identifier is the placeholder of a missing one.
\<close>

definition framed_world :: "fingerprint_input \<Rightarrow> bool" where
  "framed_world i \<longleftrightarrow>
     (\<forall>x \<in> set (quote_parts i). CHR 0x00 \<notin> set x)
     \<and> Some ''-'' \<notin> {fi_panelId i, fi_panelStatus i, fi_discountCodeId i, fi_serviceId i,
         fi_serviceStatus i, fi_serviceVolumeBytes i}"

lemma show_int_not_dash: "show_int n \<noteq> ''-''"
proof -
  obtain c r where "show_nat (nat n) = c # r" "is_digit c" using show_nat_head by blast
  then show ?thesis using digit_not_sign [of c] show_nat_nonempty [of "nat (- n)"] by (simp add: show_int_def)
qed

lemma dash_inject: "x \<noteq> Some ''-'' \<Longrightarrow> y \<noteq> Some ''-'' \<Longrightarrow> dash x = dash y \<Longrightarrow> x = y"
  by (auto simp: dash_def split: option.splits)

lemma bit_inject: "bit a = bit b \<longleftrightarrow> a = b"
  by (simp add: bit_def)

lemma quote_parts_inject:
  assumes "framed_world a" and "framed_world b" and "quote_parts a = quote_parts b"
  shows "a = b"
proof -
  have d: "dash (map_option show_int x) = dash (map_option show_int y) \<Longrightarrow> x = y" for x y
    using show_int_not_dash dash_inject [of "map_option show_int x" "map_option show_int y"]
    by (cases x; cases y) (auto simp: show_int_inject)
  note eq = assms(3) [unfolded quote_parts_def list.inject]
  have "fi_productId a = fi_productId b" "fi_productPriceToman a = fi_productPriceToman b"
    "fi_productActive a = fi_productActive b" "fi_categoryActive a = fi_categoryActive b"
    "fi_discountAmountToman a = fi_discountAmountToman b" "fi_finalPriceToman a = fi_finalPriceToman b"
    using eq by (simp_all only: show_int_inject bit_inject)
  moreover have "fi_serviceExpiresAtMs a = fi_serviceExpiresAtMs b" by (rule d) (use eq in blast)
  moreover have f: "fi_panelId i \<noteq> Some ''-'' \<and> fi_panelStatus i \<noteq> Some ''-''
      \<and> fi_discountCodeId i \<noteq> Some ''-'' \<and> fi_serviceId i \<noteq> Some ''-''
      \<and> fi_serviceStatus i \<noteq> Some ''-'' \<and> fi_serviceVolumeBytes i \<noteq> Some ''-''" if "framed_world i" for i
    using that unfolding framed_world_def by (metis insert_iff)
  have "fi_panelId a = fi_panelId b \<and> fi_panelStatus a = fi_panelStatus b
    \<and> fi_discountCodeId a = fi_discountCodeId b \<and> fi_serviceId a = fi_serviceId b
    \<and> fi_serviceStatus a = fi_serviceStatus b \<and> fi_serviceVolumeBytes a = fi_serviceVolumeBytes b"
    by (intro conjI; rule dash_inject; use eq f [OF assms(1)] f [OF assms(2)] in argo)
  ultimately show ?thesis by (cases a; cases b) simp
qed

lemma fingerprint_inject:
  assumes "framed_world a" and "framed_world b"
    and "cr_sha256 cr (js_join [CHR 0x00] (quote_parts a)) = cr_sha256 cr (js_join [CHR 0x00] (quote_parts b)) \<Longrightarrow>
      js_join [CHR 0x00] (quote_parts a) = js_join [CHR 0x00] (quote_parts b)"
    and "quoteFingerprint cr a = quoteFingerprint cr b"
  shows "a = b"
proof -
  have "length (quote_parts a) = length (quote_parts b)" by (simp add: quote_parts_def)
  then have "quote_parts a = quote_parts b"
    using assms js_join_inject [of "quote_parts a" "quote_parts b" "CHR 0x00"]
    by (simp add: framed_world_def quoteFingerprint_def)
  with assms(1,2) show ?thesis by (rule quote_parts_inject)
qed

end
