(* ===== verification/CommerceApplications.thy ===== *)
theory CommerceApplications
  imports Applications Checkout
begin

text \<open>
  The theorems about options, quotes and drafts applied to the small shop.
\<close>

section \<open>Options\<close>

definition shop_options :: OptionListArgs where
  "shop_options = \<lparr>ol_userId = ''u'', ol_publicServiceId = ''01234567'', ol_operation = RENEWAL,
     ol_group = UserGroup_F\<rparr>"

lemma shop_option_resolves: "succeeded (resolveServiceOperationOption shop shop_options ''1234ABCD'')"
  by code_simp

theorem chosen_option_is_deliverable_witness:
  "\<exists>res sv pn. resolveServiceOperationOption shop shop_options ''1234ABCD'' = Inr res
    \<and> rs_owned res = (sv, pn) \<and> sv_userId sv = ''u'' \<and> p_panel (rs_product res) = Some pn"
proof (rule succeededE [OF shop_option_resolves])
  fix res
  assume r: "resolveServiceOperationOption shop shop_options ''1234ABCD'' = Inr res"
  obtain sv pn where o: "rs_owned res = (sv, pn)" by (cases "rs_owned res")
  from chosen_option_is_deliverable [OF r o refl] show ?thesis using r o by (auto simp: shop_options_def)
qed

section \<open>Quotes\<close>

text \<open>A cipher that changes nothing, which satisfies the laws of the real one.\<close>

definition plain_crypto :: crypto where
  "plain_crypto = \<lparr>cr_scrypt = (\<lambda>_ _. []),
     cr_encrypt = (\<lambda>_ _ _ text. (map (\<lambda>c. of_nat (of_char c)) text, replicate TAG_BYTES 0)),
     cr_decrypt = (\<lambda>_ _ _ sealed tag.
       if tag = replicate TAG_BYTES 0 then Some (map (\<lambda>b. char_of (unat b)) sealed) else None),
     cr_sha256 = (\<lambda>s. s)\<rparr>"

lemma byte_of_char: "char_of (unat (of_nat (of_char c) :: byte)) = c"
proof -
  have "unat (of_nat (of_char c) :: byte) = of_char c"
    by (simp add: unat_of_nat)
  then show ?thesis by simp
qed

lemma plain_crypto_laws: "aead_correct plain_crypto key" "aead_authentic plain_crypto key"
proof -
  have "unat b mod 256 = unat b" for b :: byte
    using unsigned_less [of b, where ?'a = nat] by simp
  then have "word_of_nat (unat b mod 256) = b" for b :: byte by simp
  then show "aead_correct plain_crypto key" "aead_authentic plain_crypto key"
    by (auto simp: aead_correct_def aead_authentic_def plain_crypto_def comp_def byte_of_char
        split: if_splits)
qed

definition shop_quote :: QuotePayload where
  "shop_quote = \<lparr>qp_userId = ''u'', qp_checkoutId = ''k'', qp_operation = ''RENEWAL'',
     qp_finalPriceToman = 700, qp_fingerprint = ''f'', qp_expiresAtMs = 5000\<rparr>"

lemma shop_quote_ok: "payload_ok shop_quote"
  by (simp add: payload_ok_def shop_quote_def MAX_SAFE_INTEGER_def)

lemma shop_secret: "js_trim ''secret'' \<noteq> ''''"
  by code_simp

theorem quote_roundtrip_witness:
  "\<exists>token. sealQuote plain_crypto ''secret'' (replicate 12 0) shop_quote = Some token
    \<and> openQuote plain_crypto ''secret'' (JStr token) 1000 = Inr shop_quote
    \<and> openQuote plain_crypto ''secret'' (JStr token) 5000 = Inl QUOTE_EXPIRED_REASON"
proof -
  have iv: "length (replicate 12 (0::byte)) = IV_BYTES" by (simp add: IV_BYTES_def)
  note q = quote_roundtrip [OF shop_secret plain_crypto_laws(1) iv shop_quote_ok]
  have "qp_expiresAtMs shop_quote = 5000" by (simp add: shop_quote_def)
  then show ?thesis using q [of 1000] q [of 5000] by auto
qed

theorem opened_quote_was_sealed_witness:
  "\<exists>token iv body. sealQuote plain_crypto ''secret'' (replicate 12 0) shop_quote = Some token
    \<and> length iv = IV_BYTES \<and> token = sealed_token plain_crypto [] iv body"
proof -
  have iv: "length (replicate 12 (0::byte)) = IV_BYTES" by (simp add: IV_BYTES_def)
  have k: "quoteKey plain_crypto ''secret'' = Some []"
    using shop_secret by (simp add: quoteKey_def plain_crypto_def)
  have "qp_expiresAtMs shop_quote = 5000" by (simp add: shop_quote_def)
  then obtain token where t: "sealQuote plain_crypto ''secret'' (replicate 12 0) shop_quote = Some token"
    and o: "openQuote plain_crypto ''secret'' (JStr token) 1000 = Inr shop_quote"
    using sealed_token_opens [OF k plain_crypto_laws(1) iv shop_quote_ok, of 1000] k
    by (auto simp: sealQuote_def)
  from opened_quote_was_sealed [OF o plain_crypto_laws(2)] show ?thesis
    using t by (auto simp: plain_crypto_def)
qed

section \<open>Drafts\<close>

definition draft_created :: "'d create_result \<Rightarrow> bool" where
  "draft_created r = (case r of DraftCreated _ _ \<Rightarrow> True | _ \<Rightarrow> False)"

lemma draft_createdE:
  assumes "draft_created r"
  obtains c d where "r = DraftCreated c d"
  using assms by (cases r) (auto simp: draft_created_def)

definition shop_purchase :: PurchaseCheckoutArgs where
  "shop_purchase = \<lparr>pc_userId = ''u'', pc_group = UserGroup_F, pc_publicProductId = ''1234abcd'',
     pc_usernameMode = UsernameMode_CUSTOM, pc_requestedUsername = Some '' Alice123'',
     pc_draftNonce = ''d'', pc_note = None, pc_discountCode = Some ''ten''\<rparr>"

lemma shop_purchase_created:
  "case createPurchaseCheckout (\<lambda>_. id) (\<lambda>_. (id, id)) (\<lambda>p n. Probe_not_found) 1000 shop_purchase [] shop of
     Some (r, s') \<Rightarrow> draft_created r | None \<Rightarrow> False"
  by code_simp

theorem purchase_draft_is_priced_and_held_witness:
  "\<exists>c dto s'. createPurchaseCheckout (\<lambda>_. id) (\<lambda>_. (id, id)) (\<lambda>p n. Probe_not_found) 1000 shop_purchase
      [] shop = Some (DraftCreated c dto, s')
    \<and> (\<exists>r \<in> set (reservations s'). rv_status r = Reservation_BOUND
         \<and> rv_checkoutSessionId r = Some (co_id c) \<and> rv_userId r = ''u'')"
proof -
  obtain r s' where run: "createPurchaseCheckout (\<lambda>_. id) (\<lambda>_. (id, id)) (\<lambda>p n. Probe_not_found) 1000
      shop_purchase [] shop = Some (r, s')" and d: "draft_created r"
    using shop_purchase_created by (auto split: option.splits prod.splits)
  obtain c dto where r: "r = DraftCreated c dto" by (rule draft_createdE [OF d])
  have "pc_userId shop_purchase = ''u''" by (simp add: shop_purchase_def)
  with purchase_draft_is_priced_and_held [OF run [unfolded r]] run r show ?thesis by metis
qed

text \<open>Another request creates its draft between the cancellation and the creation of ours.\<close>

definition rival_draft :: checkout_row where
  "rival_draft = draft_row ''u'' ''1234abcd...'' (Some ''0123456789ab'') (OnService RENEWAL) []
     (full_price 700) 9000 ''rival''"

definition rival :: "nat \<Rightarrow> db \<Rightarrow> db" where
  "rival n s = (if n = 3 then s\<lparr>checkouts := checkouts s @ [rival_draft]\<rparr> else s)"

lemma shop_operation_created:
  "draft_created (fst (createOperationCheckout rival 1000 shop_options ''1234abcd'' None shop))"
  by code_simp

theorem operation_draft_replaces_older_witness:
  "\<exists>c dto s'. createOperationCheckout rival 1000 shop_options ''1234abcd'' None shop = (DraftCreated c dto, s')
    \<and> filter (pending_for_service ''u'' ''0123456789ab'') (checkouts s') = [rival_draft, c]"
proof -
  obtain r s' where run: "createOperationCheckout rival 1000 shop_options ''1234abcd'' None shop = (r, s')"
    by (cases "createOperationCheckout rival 1000 shop_options ''1234abcd'' None shop")
  obtain c dto where r: "r = DraftCreated c dto"
    using shop_operation_created run draft_createdE by (metis fst_conv)
  have "map_option (\<lambda>res. sv_id (fst (rs_owned res)))
      (case resolveServiceOperationOption shop shop_options ''1234abcd'' of Inr x \<Rightarrow> Some x | Inl _ \<Rightarrow> None)
      = Some ''0123456789ab''"
    by code_simp
  then have sv: "resolveServiceOperationOption shop shop_options ''1234abcd'' = Inr res \<Longrightarrow>
      sv_id (fst (rs_owned res)) = ''0123456789ab''" for res by simp
  have u: "ol_userId shop_options = ''u''" by (simp add: shop_options_def)
  obtain t where t: "filter (pending_for_service ''u'' ''0123456789ab'') (checkouts t) = []"
    "filter (pending_for_service ''u'' ''0123456789ab'') (checkouts s') =
        filter (pending_for_service ''u'' ''0123456789ab'') (checkouts (rival 3 t)) @ [c]"
    using operation_draft_replaces_older [OF run [unfolded r]] sv unfolding u by metis
  have "pending_for_service ''u'' ''0123456789ab'' rival_draft"
    by (simp add: pending_for_service_def rival_draft_def)
  with t have "filter (pending_for_service ''u'' ''0123456789ab'') (checkouts s') = [rival_draft, c]"
    by (simp add: rival_def)
  with run r show ?thesis by blast
qed

end
