(* ===== verification/ServiceLock.thy ===== *)
theory ServiceLock
  imports Prelude
begin

text \<open>
  The distributed lock of a service (packages/service-renewal/src/service-lock.ts): the Redis commands
  it sends, the acquisition loop, the heartbeat and the release, and the cooldown gate that shares its
  client. A command is delivered, dropped, or delivered with its reply lost.
\<close>

section \<open>Constants and keys\<close>

definition SERVICE_LOCK_TTL_MS :: int where "SERVICE_LOCK_TTL_MS = 90000"
definition SERVICE_LOCK_WAIT_MS :: int where "SERVICE_LOCK_WAIT_MS = 5000"
definition RECONCILE_LOCK_WAIT_MS :: int where "RECONCILE_LOCK_WAIT_MS = 0"
definition RETRY_BASE_DELAY_MS :: int where "RETRY_BASE_DELAY_MS = 150"
definition RETRY_JITTER_MS :: int where "RETRY_JITTER_MS = 100"

definition serviceOperationLockKey :: "string \<Rightarrow> string" where
  "serviceOperationLockKey serviceId = ''zedbot:service-operation:'' @ serviceId"

definition serviceProvisioningLockKey :: "string \<Rightarrow> string \<Rightarrow> string" where
  "serviceProvisioningLockKey panelId username =
     ''zedbot:service-provisioning:'' @ panelId @ '':'' @ username"

definition serviceDiagnosticsCooldownKey :: "string \<Rightarrow> string \<Rightarrow> string" where
  "serviceDiagnosticsCooldownKey userId serviceId = ''zedbot:diag-cooldown:'' @ userId @ '':'' @ serviceId"

section \<open>The Redis commands\<close>

text \<open>A key holds a value until its expiry; the clock is shared.\<close>

record redis =
  rd_store :: "string \<Rightarrow> (string \<times> int) option"
  rd_now :: int

definition live :: "redis \<Rightarrow> string \<Rightarrow> string option" where
  "live r key =
     (case rd_store r key of
        None \<Rightarrow> None
      | Some (token, expiry) \<Rightarrow> if rd_now r < expiry then Some token else None)"

definition put :: "string \<Rightarrow> (string \<times> int) option \<Rightarrow> redis \<Rightarrow> redis" where
  "put key entry r = r\<lparr>rd_store := (rd_store r)(key := entry)\<rparr>"

definition set_nx_px :: "string \<Rightarrow> string \<Rightarrow> int \<Rightarrow> redis \<Rightarrow> bool \<times> redis" where
  "set_nx_px key token ttl r =
     (if live r key = None then (True, put key (Some (token, rd_now r + ttl)) r) else (False, r))"

definition RELEASE_LUA :: "string \<Rightarrow> string \<Rightarrow> redis \<Rightarrow> nat \<times> redis" where
  "RELEASE_LUA key token r = (if live r key = Some token then (1, put key None r) else (0, r))"

definition RENEW_LUA :: "string \<Rightarrow> string \<Rightarrow> int \<Rightarrow> redis \<Rightarrow> nat \<times> redis" where
  "RENEW_LUA key token ttl r =
     (if live r key = Some token then (1, put key (Some (token, rd_now r + ttl)) r) else (0, r))"

definition pttl :: "string \<Rightarrow> redis \<Rightarrow> int \<times> redis" where
  "pttl key r =
     (case rd_store r key of
        Some (_, expiry) \<Rightarrow> if rd_now r < expiry then expiry - rd_now r else -2
      | None \<Rightarrow> -2, r)"

datatype fault = Delivered | Dropped | ReplyLost

definition commandWithTimeout :: "fault \<Rightarrow> (redis \<Rightarrow> 'a \<times> redis) \<Rightarrow> redis \<Rightarrow> 'a option \<times> redis" where
  "commandWithTimeout fault command r =
     (case fault of
        Delivered \<Rightarrow> (Some (fst (command r)), snd (command r))
      | Dropped \<Rightarrow> (None, r)
      | ReplyLost \<Rightarrow> (None, snd (command r)))"

section \<open>The cooldown gate\<close>

datatype CooldownGate = Armed | Cooling int | Degraded

definition checkAndArmCooldown ::
  "bool \<Rightarrow> fault \<Rightarrow> fault \<Rightarrow> string \<Rightarrow> int \<Rightarrow> redis \<Rightarrow> CooldownGate \<times> redis" where
  "checkAndArmCooldown configured f g key ttlMs r =
     (if \<not> configured then (Degraded, r)
      else case commandWithTimeout f (set_nx_px key ''1'' ttlMs) r of
        (None, r1) \<Rightarrow> (Degraded, r1)
      | (Some True, r1) \<Rightarrow> (Armed, r1)
      | (Some False, r1) \<Rightarrow>
          (case commandWithTimeout g (pttl key) r1 of
             (Some ms, r2) \<Rightarrow> (Cooling (if 0 < ms then ms else 0), r2)
           | (None, r2) \<Rightarrow> (Cooling 0, r2)))"

definition clearCooldown :: "bool \<Rightarrow> fault \<Rightarrow> string \<Rightarrow> redis \<Rightarrow> redis" where
  "clearCooldown configured f key r =
     (if \<not> configured then r else snd (commandWithTimeout f (\<lambda>r. ((), put key None r)) r))"

section \<open>The lock\<close>

record ServiceLock =
  lk_key :: string
  lk_token :: string
  lk_lost :: bool
  lk_released :: bool

definition makeLock :: "string \<Rightarrow> string \<Rightarrow> ServiceLock" where
  "makeLock key token = \<lparr>lk_key = key, lk_token = token, lk_lost = False, lk_released = False\<rparr>"

text \<open>One tick of the heartbeat; it stops once the lock is lost or released.\<close>

definition heartbeat :: "fault \<Rightarrow> ServiceLock \<Rightarrow> redis \<Rightarrow> ServiceLock \<times> redis" where
  "heartbeat f l r =
     (if lk_lost l \<or> lk_released l then (l, r)
      else case commandWithTimeout f (RENEW_LUA (lk_key l) (lk_token l) SERVICE_LOCK_TTL_MS) r of
        (Some renewed, r1) \<Rightarrow> (if renewed \<noteq> 1 then l\<lparr>lk_lost := True\<rparr> else l, r1)
      | (None, r1) \<Rightarrow> (l, r1))"

definition release :: "fault \<Rightarrow> ServiceLock \<Rightarrow> redis \<Rightarrow> ServiceLock \<times> redis" where
  "release f l r =
     (l\<lparr>lk_released := True\<rparr>, snd (commandWithTimeout f (RELEASE_LUA (lk_key l) (lk_token l)) r))"

datatype ServiceLockAcquisition = Acquired ServiceLock | Contended | Unavailable

text \<open>
  The loop of \<open>acquireServiceLock\<close>: \<open>faults n\<close> is the fate of the n-th attempt, \<open>jitter n\<close> the random
  part of its delay, and \<open>sleep n d\<close> what happens while the caller sleeps \<open>d\<close> milliseconds.
\<close>

partial_function (option) acquire_loop ::
  "(nat \<Rightarrow> fault) \<Rightarrow> (nat \<Rightarrow> int) \<Rightarrow> (nat \<Rightarrow> int \<Rightarrow> redis \<Rightarrow> redis) \<Rightarrow> string \<Rightarrow> string \<Rightarrow> int \<Rightarrow> nat \<Rightarrow> redis \<Rightarrow>
   (ServiceLockAcquisition \<times> redis) option" where
  "acquire_loop faults jitter sleep key token deadline n r =
     (let res = commandWithTimeout (faults n) (set_nx_px key token SERVICE_LOCK_TTL_MS) r in
      if fst res = None then Some (Unavailable, snd res)
      else if fst res = Some True then Some (Acquired (makeLock key token), snd res)
      else if deadline - rd_now (snd res) \<le> 0 then Some (Contended, snd res)
      else acquire_loop faults jitter sleep key token deadline (Suc n)
             (sleep n (min (RETRY_BASE_DELAY_MS + jitter n) (deadline - rd_now (snd res))) (snd res)))"

definition acquireServiceLock ::
  "(nat \<Rightarrow> fault) \<Rightarrow> (nat \<Rightarrow> int) \<Rightarrow> (nat \<Rightarrow> int \<Rightarrow> redis \<Rightarrow> redis) \<Rightarrow> bool \<Rightarrow> string \<Rightarrow> string \<Rightarrow> int \<Rightarrow> redis \<Rightarrow>
   (ServiceLockAcquisition \<times> redis) option" where
  "acquireServiceLock faults jitter sleep configured key token waitMs r =
     (if \<not> configured then Some (Unavailable, r)
      else acquire_loop faults jitter sleep key token (rd_now r + waitMs) 0 r)"

definition isLockBackendAvailable ::
  "(nat \<Rightarrow> fault) \<Rightarrow> fault \<Rightarrow> (nat \<Rightarrow> int \<Rightarrow> redis \<Rightarrow> redis) \<Rightarrow> bool \<Rightarrow> string \<Rightarrow> string \<Rightarrow> redis \<Rightarrow>
   (bool \<times> redis) option" where
  "isLockBackendAvailable faults f sleep configured nonce token r =
     map_option (\<lambda>(acq, r1).
         case acq of Acquired l \<Rightarrow> (True, snd (release f l r1)) | _ \<Rightarrow> (False, r1))
       (acquireServiceLock faults (\<lambda>_. 0) sleep configured
          (''zedbot:service-lock:probe:'' @ nonce) token 0 r)"

section \<open>Waiting is bounded\<close>

lemma set_nx_px_now [simp]: "rd_now (snd (set_nx_px key token ttl r)) = rd_now r"
  by (simp add: set_nx_px_def put_def)

lemma command_now:
  assumes "\<And>r. rd_now (snd (command r)) = rd_now r"
  shows "rd_now (snd (commandWithTimeout f command r)) = rd_now r"
  using assms by (simp add: commandWithTimeout_def split: fault.split)

text \<open>One attempt, as a call that may not wait makes it.\<close>

lemma single_attempt:
  "acquireServiceLock faults jitter sleep True key token 0 r =
     Some (case commandWithTimeout (faults 0) (set_nx_px key token SERVICE_LOCK_TTL_MS) r of
         (None, r1) \<Rightarrow> (Unavailable, r1)
       | (Some True, r1) \<Rightarrow> (Acquired (makeLock key token), r1)
       | (Some False, r1) \<Rightarrow> (Contended, r1))"
proof -
  have "rd_now (snd (commandWithTimeout (faults 0) (set_nx_px key token SERVICE_LOCK_TTL_MS) r)) = rd_now r"
    by (rule command_now) simp
  then show ?thesis
    unfolding acquireServiceLock_def
    by (subst acquire_loop.simps) (auto simp: Let_def split: prod.split option.split bool.split)
qed

text \<open>
  A call that waits makes such attempts, one after each sleep, until one does not find the key taken or
  its time is up.
\<close>

lemma acquire_loop_attempts:
  "acquire_loop faults jitter sleep key token deadline n r =
     (case acquireServiceLock (\<lambda>_. faults n) jitter sleep True key token 0 r of
        Some (Contended, r1) \<Rightarrow>
          if deadline - rd_now r1 \<le> 0 then Some (Contended, r1)
          else acquire_loop faults jitter sleep key token deadline (Suc n)
            (sleep n (min (RETRY_BASE_DELAY_MS + jitter n) (deadline - rd_now r1)) r1)
      | result \<Rightarrow> result)"
  unfolding single_attempt
  by (subst acquire_loop.simps) (auto simp: Let_def split: prod.split option.split bool.split)

text \<open>What one attempt does.\<close>

lemma attempt_cases:
  assumes "acquireServiceLock faults jitter sleep True key token 0 r = Some (got, r')"
  obtains (taken) "live r key \<noteq> None" "r' = r" "got = (if faults 0 = Delivered then Contended else Unavailable)"
  | (dropped) "live r key = None" "r' = r" "got = Unavailable" "faults 0 = Dropped"
  | (stored) "live r key = None" "r' = put key (Some (token, rd_now r + SERVICE_LOCK_TTL_MS)) r"
      "got = (if faults 0 = Delivered then Acquired (makeLock key token) else Unavailable)"
proof -
  note run = assms [unfolded single_attempt commandWithTimeout_def set_nx_px_def]
  show thesis
  proof (cases "live r key = None")
    case False
    then have "r' = r" "got = (if faults 0 = Delivered then Contended else Unavailable)"
      using run by (cases "faults 0"; simp)+
    with False show thesis by (rule taken)
  next
    case True
    show thesis
    proof (cases "faults 0 = Dropped")
      case d: True
      then have "r' = r" "got = Unavailable" using run by simp_all
      with True d show thesis by (intro dropped)
    next
      case d: False
      then have "r' = put key (Some (token, rd_now r + SERVICE_LOCK_TTL_MS)) r"
        "got = (if faults 0 = Delivered then Acquired (makeLock key token) else Unavailable)"
        using run True by (cases "faults 0"; simp)+
      with True show thesis by (rule stored)
    qed
  qed
qed

lemma acquire_loop_bounded:
  assumes "\<And>n d r. 0 < d \<Longrightarrow> rd_now r + d \<le> rd_now (sleep n d r) \<and> rd_now (sleep n d r) \<le> rd_now r + d + late"
    and "\<And>n. 0 \<le> jitter n"
  shows "\<exists>acq r'. acquire_loop faults jitter sleep key token deadline n r = Some (acq, r')
    \<and> rd_now r' \<le> max (rd_now r) (deadline + late)
    \<and> (acq = Contended \<longrightarrow> deadline \<le> rd_now r' \<and> live r' key \<noteq> None)
    \<and> (\<forall>l. acq = Acquired l \<longrightarrow> l = makeLock key token \<and> live r' key = Some token)
    \<and> (acq = Unavailable \<longrightarrow> (\<exists>m. faults m \<noteq> Delivered))"
proof (induction "nat (deadline - rd_now r)" arbitrary: n r rule: less_induct)
  case less
  obtain got r1 where one: "acquireServiceLock (\<lambda>_. faults n) jitter sleep True key token 0 r = Some (got, r1)"
    by (cases "acquireServiceLock (\<lambda>_. faults n) jitter sleep True key token 0 r") (auto simp: single_attempt)
  have ttl: "0 < SERVICE_LOCK_TTL_MS" by (simp add: SERVICE_LOCK_TTL_MS_def)
  have c: "rd_now r1 = rd_now r \<and> (got = Contended \<longrightarrow> live r1 key \<noteq> None)
      \<and> (\<forall>l. got = Acquired l \<longrightarrow> l = makeLock key token \<and> live r1 key = Some token)
      \<and> (got = Unavailable \<longrightarrow> faults n \<noteq> Delivered)"
    by (rule attempt_cases [OF one]) (use ttl in \<open>auto simp: put_def live_def split: if_splits\<close>)
  let ?d = "min (RETRY_BASE_DELAY_MS + jitter n) (deadline - rd_now r1)"
  show ?case
  proof (cases "got = Contended \<and> 0 < deadline - rd_now r1")
    case False
    then have "acquire_loop faults jitter sleep key token deadline n r = Some (got, r1)"
      using False by (subst acquire_loop_attempts) (auto simp: one split: ServiceLockAcquisition.split)
    then show ?thesis using False c by auto
  next
    case True
    then have d: "0 < ?d" "?d \<le> deadline - rd_now r1"
      using assms(2) [of n] by (simp_all add: RETRY_BASE_DELAY_MS_def)
    let ?r = "sleep n ?d r1"
    note sl = assms(1) [OF d(1), of r1 n]
    have "nat (deadline - rd_now ?r) < nat (deadline - rd_now r)" using sl d c True by linarith
    from less [OF this, of "Suc n"] obtain acq r' where
        l: "acquire_loop faults jitter sleep key token deadline (Suc n) ?r = Some (acq, r')"
        "rd_now r' \<le> max (rd_now ?r) (deadline + late)"
        "acq = Contended \<longrightarrow> deadline \<le> rd_now r' \<and> live r' key \<noteq> None"
        "\<forall>l. acq = Acquired l \<longrightarrow> l = makeLock key token \<and> live r' key = Some token"
        "acq = Unavailable \<longrightarrow> (\<exists>m. faults m \<noteq> Delivered)"
      by blast
    have "rd_now ?r \<le> deadline + late" using sl d by linarith
    then have "rd_now r' \<le> max (rd_now r) (deadline + late)" using l(2) by linarith
    moreover have "acquire_loop faults jitter sleep key token deadline n r = Some (acq, r')"
      using True l(1) by (subst acquire_loop_attempts) (simp add: one)
    ultimately show ?thesis using l(3-5) by blast
  qed
qed

text \<open>
  C17. Acquiring returns within its waiting time. Whatever the fates of the commands, and whatever the
  other processes do to the store while the caller sleeps: if a sleep takes at least what was asked and at
  most \<open>late\<close> milliseconds more, the call returns no later than \<open>late\<close> after the allowed wait. It gives up
  as contended only when the wait is over and another token holds the key; a lock it returns is the entry of
  the store; it is unavailable only without a client or after a failed command. With no waiting time it makes exactly one attempt. The time that the commands themselves take
  is not counted.
\<close>

theorem acquire_terminates:
  assumes "\<And>n d r. 0 < d \<Longrightarrow> rd_now r + d \<le> rd_now (sleep n d r) \<and> rd_now (sleep n d r) \<le> rd_now r + d + late"
    and "\<And>n. 0 \<le> jitter n"
  shows "(\<exists>acq r'. acquireServiceLock faults jitter sleep configured key token waitMs r = Some (acq, r')
      \<and> rd_now r' \<le> rd_now r + max 0 waitMs + late
      \<and> (acq = Contended \<longrightarrow> rd_now r + waitMs \<le> rd_now r' \<and> live r' key \<noteq> None)
      \<and> (\<forall>l. acq = Acquired l \<longrightarrow> l = makeLock key token \<and> live r' key = Some token)
      \<and> (acq = Unavailable \<longrightarrow> \<not> configured \<or> (\<exists>m. faults m \<noteq> Delivered)))
    \<and> (configured \<longrightarrow> acquireServiceLock faults jitter sleep configured key token 0 r =
        Some (case commandWithTimeout (faults 0) (set_nx_px key token SERVICE_LOCK_TTL_MS) r of
            (None, r1) \<Rightarrow> (Unavailable, r1)
          | (Some True, r1) \<Rightarrow> (Acquired (makeLock key token), r1)
          | (Some False, r1) \<Rightarrow> (Contended, r1)))"
proof (intro conjI impI)
  have late: "0 \<le> late" using assms(1) [of 1 r 0] by simp
  show "\<exists>acq r'. acquireServiceLock faults jitter sleep configured key token waitMs r = Some (acq, r')
      \<and> rd_now r' \<le> rd_now r + max 0 waitMs + late
      \<and> (acq = Contended \<longrightarrow> rd_now r + waitMs \<le> rd_now r' \<and> live r' key \<noteq> None)
      \<and> (\<forall>l. acq = Acquired l \<longrightarrow> l = makeLock key token \<and> live r' key = Some token)
      \<and> (acq = Unavailable \<longrightarrow> \<not> configured \<or> (\<exists>m. faults m \<noteq> Delivered))"
  proof (cases configured)
    case False
    then show ?thesis using late by (simp add: acquireServiceLock_def)
  next
    case True
    obtain acq r' where l: "acquire_loop faults jitter sleep key token (rd_now r + waitMs) 0 r = Some (acq, r')"
        "rd_now r' \<le> max (rd_now r) (rd_now r + waitMs + late)"
        "acq = Contended \<longrightarrow> rd_now r + waitMs \<le> rd_now r' \<and> live r' key \<noteq> None"
        "\<forall>l. acq = Acquired l \<longrightarrow> l = makeLock key token \<and> live r' key = Some token"
        "acq = Unavailable \<longrightarrow> (\<exists>m. faults m \<noteq> Delivered)"
      using acquire_loop_bounded [of sleep late jitter faults key token "rd_now r + waitMs" 0 r, OF assms(1) assms(2)]
      by blast
    have "rd_now r' \<le> rd_now r + max 0 waitMs + late" using l(2) late by linarith
    then show ?thesis using True l by (auto simp: acquireServiceLock_def)
  qed
qed (simp add: single_attempt)

section \<open>A lease excludes every other holder\<close>

text \<open>
  The system of all holders, on the operations of the code. A holder is the lock its call returned, with the
  last time the store confirmed it. Each attempt of a waiting call is a step of its own
  (\<open>acquire_loop_attempts\<close>), so others act between two attempts; a token that may have reached the store is
  never drawn again. Any command may be dropped or lose its reply, and a holder may be late with its
  heartbeats or its release as long as it likes.
\<close>

record lock_world =
  lw_redis :: redis
  lw_holders :: "string \<Rightarrow> (ServiceLock \<times> int) option"
  lw_drawn :: "string set"

inductive lock_step :: "lock_world \<Rightarrow> lock_world \<Rightarrow> bool" where
  tick: "0 \<le> d \<Longrightarrow> lock_step w (w\<lparr>lw_redis := (lw_redis w)\<lparr>rd_now := rd_now (lw_redis w) + d\<rparr>\<rparr>)"
| attempt: "token \<notin> lw_drawn w \<Longrightarrow>
    acquireServiceLock faults jitter sleep True key token 0 (lw_redis w) = Some (got, r) \<Longrightarrow>
    lock_step w \<lparr>lw_redis = r,
      lw_holders = (case got of
          Acquired l \<Rightarrow> (lw_holders w)(token \<mapsto> (l, rd_now (lw_redis w)))
        | _ \<Rightarrow> lw_holders w),
      lw_drawn = (if got = Contended then lw_drawn w else insert token (lw_drawn w))\<rparr>"
| beat: "lw_holders w token = Some (l, since) \<Longrightarrow> heartbeat f l (lw_redis w) = (l', r) \<Longrightarrow>
    lock_step w (w\<lparr>lw_redis := r, lw_holders := (lw_holders w)(token \<mapsto>
      (l', if f = Delivered \<and> \<not> lk_lost l' \<and> \<not> lk_released l' then rd_now (lw_redis w) else since))\<rparr>)"
| release: "lw_holders w token = Some (l, since) \<Longrightarrow> release f l (lw_redis w) = (l', r) \<Longrightarrow>
    lock_step w (w\<lparr>lw_redis := r, lw_holders := (lw_holders w)(token \<mapsto> (l', since))\<rparr>)"

text \<open>A lease: a holder that has not released and was confirmed within the last TTL.\<close>

definition leases :: "lock_world \<Rightarrow> string \<Rightarrow> ServiceLock \<Rightarrow> bool" where
  "leases w token l \<longleftrightarrow>
     (\<exists>since. lw_holders w token = Some (l, since) \<and> \<not> lk_released l
        \<and> rd_now (lw_redis w) < since + SERVICE_LOCK_TTL_MS)"

text \<open>The store holds the entry of a lease, for at least as long as the holder believes.\<close>

definition holder_ok :: "redis \<Rightarrow> string \<Rightarrow> ServiceLock \<Rightarrow> int \<Rightarrow> bool" where
  "holder_ok r token l since \<longleftrightarrow> lk_token l = token \<and> since \<le> rd_now r
     \<and> (\<not> lk_released l \<and> rd_now r < since + SERVICE_LOCK_TTL_MS \<longrightarrow> \<not> lk_lost l
        \<and> (\<exists>e. rd_store r (lk_key l) = Some (token, e) \<and> since + SERVICE_LOCK_TTL_MS \<le> e))"

definition leases_ok :: "lock_world \<Rightarrow> bool" where
  "leases_ok w \<longleftrightarrow>
     (\<forall>token l since. lw_holders w token = Some (l, since) \<longrightarrow>
        token \<in> lw_drawn w \<and> holder_ok (lw_redis w) token l since)"

lemma leases_okD:
  assumes "leases_ok w" and "lw_holders w token = Some (l, since)"
  shows "token \<in> lw_drawn w" and "holder_ok (lw_redis w) token l since"
  using assms by (auto simp: leases_ok_def)

text \<open>A store that keeps the entry of a live token keeps the holder of that token.\<close>

lemma holder_ok_kept:
  assumes "holder_ok r token l since" and "rd_now r \<le> rd_now r'"
    and "live r (lk_key l) = Some token \<Longrightarrow> rd_store r' (lk_key l) = rd_store r (lk_key l)"
  shows "holder_ok r' token l since"
proof -
  have "live r (lk_key l) = Some token"
    if "rd_store r (lk_key l) = Some (token, e)" "since + SERVICE_LOCK_TTL_MS \<le> e" "rd_now r' < since + SERVICE_LOCK_TTL_MS"
    for e
    using that assms(2) by (simp add: live_def)
  then show ?thesis using assms unfolding holder_ok_def by fastforce
qed

lemma leases_ok_attempt:
  assumes ok: "leases_ok w" and new: "token \<notin> lw_drawn w"
    and one: "acquireServiceLock faults jitter sleep True key token 0 (lw_redis w) = Some (got, r)"
  shows "leases_ok \<lparr>lw_redis = r,
      lw_holders = (case got of
          Acquired l \<Rightarrow> (lw_holders w)(token \<mapsto> (l, rd_now (lw_redis w)))
        | _ \<Rightarrow> lw_holders w),
      lw_drawn = (if got = Contended then lw_drawn w else insert token (lw_drawn w))\<rparr>"
proof -
  have fresh: "lw_holders w token = None"
    using leases_okD(1) [OF ok] new by (cases "lw_holders w token") auto
  have old: "t \<in> lw_drawn w" "holder_ok (lw_redis w) t l since"
    "live (lw_redis w) key = None \<Longrightarrow> holder_ok (put key e (lw_redis w)) t l since"
    if "lw_holders w t = Some (l, since)" for t l since e
  proof -
    note h = leases_okD [OF ok that]
    show "t \<in> lw_drawn w" "holder_ok (lw_redis w) t l since" by (rule h)+
    show "holder_ok (put key e (lw_redis w)) t l since" if "live (lw_redis w) key = None"
      using h(2) by (rule holder_ok_kept) (use that in \<open>auto simp: put_def\<close>)
  qed
  have mine: "holder_ok (put key (Some (token, rd_now s + SERVICE_LOCK_TTL_MS)) s) token (makeLock key token) (rd_now s)" for s
    by (simp add: holder_ok_def put_def makeLock_def)
  show ?thesis
    using one
  proof (rule attempt_cases)
    assume "live (lw_redis w) key \<noteq> None" "r = lw_redis w"
      "got = (if faults 0 = Delivered then Contended else Unavailable)"
    then show ?thesis using old(1,2) by (auto simp: leases_ok_def)
  next
    assume "r = lw_redis w" "got = Unavailable"
    then show ?thesis using old(1,2) by (auto simp: leases_ok_def)
  next
    assume "live (lw_redis w) key = None"
      "r = put key (Some (token, rd_now (lw_redis w) + SERVICE_LOCK_TTL_MS)) (lw_redis w)"
      "got = (if faults 0 = Delivered then Acquired (makeLock key token) else Unavailable)"
    then show ?thesis using old(1,3) mine by (auto simp: leases_ok_def)
  qed
qed

lemma RENEW_cases:
  obtains "live r key = Some token" "RENEW_LUA key token ttl r = (1, put key (Some (token, rd_now r + ttl)) r)"
  | "live r key \<noteq> Some token" "RENEW_LUA key token ttl r = (0, r)"
  by (auto simp: RENEW_LUA_def)

lemma heartbeat_cases:
  assumes "heartbeat f l r = (l', r')"
  obtains (idle) "l' = l" "r' = r" "f \<noteq> Delivered \<or> lk_lost l \<or> lk_released l"
  | (renewed) "\<not> lk_lost l" "\<not> lk_released l" "l' = l" "live r (lk_key l) = Some (lk_token l)"
      "r' = put (lk_key l) (Some (lk_token l, rd_now r + SERVICE_LOCK_TTL_MS)) r"
  | (missing) "\<not> lk_lost l" "\<not> lk_released l" "l' = l\<lparr>lk_lost := True\<rparr>" "live r (lk_key l) \<noteq> Some (lk_token l)" "r' = r"
proof -
  note run = assms [unfolded heartbeat_def commandWithTimeout_def RENEW_LUA_def]
  show thesis
  proof (cases "f \<noteq> Delivered \<or> lk_lost l \<or> lk_released l")
    case True
    show thesis
    proof (cases "f = ReplyLost \<and> \<not> lk_lost l \<and> \<not> lk_released l \<and> live r (lk_key l) = Some (lk_token l)")
      case x: True
      then have "l' = l" "r' = put (lk_key l) (Some (lk_token l, rd_now r + SERVICE_LOCK_TTL_MS)) r"
        using run x by auto
      moreover have "\<not> lk_lost l" "\<not> lk_released l" "live r (lk_key l) = Some (lk_token l)" using x by simp_all
      ultimately show thesis by (intro renewed)
    next
      case x: False
      then have "l' = l" "r' = r" using run True by (cases f; auto split: if_splits)+
      with True show thesis by (intro idle)
    qed
  next
    case False
    show thesis
    proof (cases "live r (lk_key l) = Some (lk_token l)")
      case True
      then have "l' = l" "r' = put (lk_key l) (Some (lk_token l, rd_now r + SERVICE_LOCK_TTL_MS)) r"
        using run False True by auto
      with True False show thesis by (intro renewed) simp_all
    next
      case x: False
      then have "l' = l\<lparr>lk_lost := True\<rparr>" "r' = r" using run False by simp_all
      with x False show thesis by (intro missing) simp_all
    qed
  qed
qed

lemma leases_ok_beat:
  assumes ok: "leases_ok w" and l: "lw_holders w token = Some (l, since)"
    and b: "heartbeat f l (lw_redis w) = (l', r)"
  shows "leases_ok (w\<lparr>lw_redis := r, lw_holders := (lw_holders w)(token \<mapsto>
      (l', if f = Delivered \<and> \<not> lk_lost l' \<and> \<not> lk_released l' then rd_now (lw_redis w) else since))\<rparr>)"
proof -
  note h = leases_okD [OF ok l]
  have tok: "lk_token l = token" and past: "since \<le> rd_now (lw_redis w)" using h(2) by (simp_all add: holder_ok_def)
  show ?thesis
    using b
  proof (rule heartbeat_cases)
    assume "l' = l" "r = lw_redis w" "f \<noteq> Delivered \<or> lk_lost l \<or> lk_released l"
    then show ?thesis using ok l by (auto simp: leases_ok_def)
  next
    assume a: "l' = l\<lparr>lk_lost := True\<rparr>" "r = lw_redis w" "live (lw_redis w) (lk_key l) \<noteq> Some (lk_token l)"
      "\<not> lk_released l"
    then have "holder_ok r token l' since"
      using h(2) tok by (auto simp: holder_ok_def live_def)
    then show ?thesis using ok h(1) a by (auto simp: leases_ok_def)
  next
    assume a: "l' = l" "live (lw_redis w) (lk_key l) = Some (lk_token l)" "\<not> lk_lost l"
      "r = put (lk_key l) (Some (lk_token l, rd_now (lw_redis w) + SERVICE_LOCK_TTL_MS)) (lw_redis w)"
    have others: "holder_ok r t m sn" if "lw_holders w t = Some (m, sn)" "t \<noteq> token" for t m sn
      using leases_okD(2) [OF ok that(1)]
      by (rule holder_ok_kept) (use a tok that(2) in \<open>auto simp: put_def\<close>)
    have "holder_ok r token l (rd_now (lw_redis w))" "holder_ok r token l since"
      using a tok past by (auto simp: holder_ok_def put_def)
    then show ?thesis using others ok h(1) a(1) by (auto simp: leases_ok_def)
  qed
qed

lemma release_store:
  assumes "release f l r = (l', r')"
  shows "l' = l\<lparr>lk_released := True\<rparr> \<and> rd_now r' = rd_now r
    \<and> (\<forall>k. k = lk_key l \<and> live r k = Some (lk_token l) \<or> rd_store r' k = rd_store r k)"
  using assms by (cases f) (auto simp: release_def commandWithTimeout_def RELEASE_LUA_def put_def split: if_splits)

lemma leases_ok_release:
  assumes ok: "leases_ok w" and l: "lw_holders w token = Some (l, since)"
    and rel: "release f l (lw_redis w) = (l', r)"
  shows "leases_ok (w\<lparr>lw_redis := r, lw_holders := (lw_holders w)(token \<mapsto> (l', since))\<rparr>)"
proof -
  note h = leases_okD [OF ok l] and s = release_store [OF rel]
  have "holder_ok r t m sn" if "lw_holders w t = Some (m, sn)" "t \<noteq> token" for t m sn
    using leases_okD(2) [OF ok that(1)]
  proof (rule holder_ok_kept)
    show "rd_now (lw_redis w) \<le> rd_now r" using s by simp
    have "lk_token l \<noteq> t" using h(2) that(2) by (auto simp: holder_ok_def)
    then show "rd_store r (lk_key m) = rd_store (lw_redis w) (lk_key m)"
      if "live (lw_redis w) (lk_key m) = Some t"
      using s that by (metis option.inject)
  qed
  moreover have "holder_ok r token l' since" using h(2) s by (simp add: holder_ok_def)
  ultimately show ?thesis using ok h(1) by (auto simp: leases_ok_def)
qed

lemma leases_ok_step: "lock_step w w' \<Longrightarrow> leases_ok w \<Longrightarrow> leases_ok w'"
proof (induction rule: lock_step.induct)
  case (tick d w)
  then show ?case
    by (auto simp: leases_ok_def intro: holder_ok_kept [of "lw_redis w"])
next
  case (attempt token w faults jitter sleep key got r)
  then show ?case by (intro leases_ok_attempt)
next
  case (beat w token l since f l' r)
  then show ?case by (intro leases_ok_beat)
next
  case (release w token l since f l' r)
  then show ?case by (intro leases_ok_release)
qed

definition idle_world :: "int \<Rightarrow> lock_world" where
  "idle_world now = \<lparr>lw_redis = \<lparr>rd_store = (\<lambda>_. None), rd_now = now\<rparr>, lw_holders = (\<lambda>_. None), lw_drawn = {}\<rparr>"

lemma idle_leases_ok: "leases_ok (idle_world now)"
  by (simp add: leases_ok_def idle_world_def)

lemma reachable_leases_ok: "lock_step\<^sup>*\<^sup>* (idle_world now) w \<Longrightarrow> leases_ok w"
  by (induction rule: rtranclp_induct) (rule idle_leases_ok, erule leases_ok_step)

lemma leases_live:
  assumes "leases_ok w" and "leases w token l"
  shows "live (lw_redis w) (lk_key l) = Some token" and "lk_token l = token" and "\<not> lk_lost l" and "\<not> lk_released l"
proof -
  obtain since where "lw_holders w token = Some (l, since)" "\<not> lk_released l"
      "rd_now (lw_redis w) < since + SERVICE_LOCK_TTL_MS"
    using assms(2) by (auto simp: leases_def)
  then show "live (lw_redis w) (lk_key l) = Some token" "lk_token l = token" "\<not> lk_lost l" "\<not> lk_released l"
    using leases_okD(2) [OF assms(1)] by (fastforce simp: holder_ok_def live_def)+
qed

text \<open>
  C16. A lease excludes. In every reachable state, of the holders of one key that have not released, at most
  one was confirmed by the store within the last TTL, and it has not been told that it lost the lock. While
  there is such a holder, no attempt to acquire the key succeeds; its own heartbeat renews the entry; the
  release of any other holder of the key, however late, leaves the store alone; and any other holder learns
  from its next heartbeat that the store answers that it lost the lock. A holder that the store has not
  confirmed for a whole TTL is not excluded: until that heartbeat it may run beside a new one.
\<close>

theorem lease_excludes:
  assumes "lock_step\<^sup>*\<^sup>* (idle_world now) w" and "leases w a la"
  shows "(\<forall>b lb. leases w b lb \<and> lk_key lb = lk_key la \<longrightarrow> b = a) \<and> \<not> lk_lost la
    \<and> (\<forall>b faults jitter sleep. acquireServiceLock faults jitter sleep True (lk_key la) b 0 (lw_redis w)
        = Some (if faults 0 = Delivered then Contended else Unavailable, lw_redis w))
    \<and> heartbeat Delivered la (lw_redis w)
        = (la, put (lk_key la) (Some (a, rd_now (lw_redis w) + SERVICE_LOCK_TTL_MS)) (lw_redis w))
    \<and> (\<forall>b lb since f. lw_holders w b = Some (lb, since) \<and> lk_key lb = lk_key la \<and> b \<noteq> a \<longrightarrow>
        snd (release f lb (lw_redis w)) = lw_redis w
        \<and> heartbeat Delivered lb (lw_redis w)
          = (if lk_lost lb \<or> lk_released lb then lb else lb\<lparr>lk_lost := True\<rparr>, lw_redis w))"
proof (intro conjI allI impI)
  note ok = reachable_leases_ok [OF assms(1)]
  note la = leases_live [OF ok assms(2)]
  show "b = a" if "leases w b lb \<and> lk_key lb = lk_key la" for b lb
    using leases_live(1) [OF ok conjunct1 [OF that]] la(1) that by simp
  show "\<not> lk_lost la" by (rule la(3))
  show "acquireServiceLock faults jitter sleep True (lk_key la) b 0 (lw_redis w)
      = Some (if faults 0 = Delivered then Contended else Unavailable, lw_redis w)" for b faults jitter sleep
    using la(1) by (cases "faults 0") (simp_all add: single_attempt commandWithTimeout_def set_nx_px_def)
  show "heartbeat Delivered la (lw_redis w)
      = (la, put (lk_key la) (Some (a, rd_now (lw_redis w) + SERVICE_LOCK_TTL_MS)) (lw_redis w))"
    using la by (simp add: heartbeat_def commandWithTimeout_def RENEW_LUA_def)
  fix b lb since f
  assume b: "lw_holders w b = Some (lb, since) \<and> lk_key lb = lk_key la \<and> b \<noteq> a"
  then have "lk_token lb = b" using leases_okD(2) [OF ok, of b lb since] by (simp add: holder_ok_def)
  then have n: "live (lw_redis w) (lk_key lb) \<noteq> Some (lk_token lb)" using la(1) b by auto
  show "snd (release f lb (lw_redis w)) = lw_redis w"
    using n by (cases f) (simp_all add: release_def commandWithTimeout_def RELEASE_LUA_def)
  show "heartbeat Delivered lb (lw_redis w)
      = (if lk_lost lb \<or> lk_released lb then lb else lb\<lparr>lk_lost := True\<rparr>, lw_redis w)"
    using n by (simp add: heartbeat_def commandWithTimeout_def RENEW_LUA_def)
qed

section \<open>Applications\<close>

definition quiet_sleep :: "nat \<Rightarrow> int \<Rightarrow> redis \<Rightarrow> redis" where
  "quiet_sleep n d r = r\<lparr>rd_now := rd_now r + d\<rparr>"

theorem acquire_terminates_witness:
  "\<exists>acq r'. acquireServiceLock (\<lambda>_. Delivered) (\<lambda>_. 99) quiet_sleep True ''k'' ''t'' SERVICE_LOCK_WAIT_MS
     \<lparr>rd_store = [''k'' \<mapsto> (''other'', 1000000)], rd_now = 0\<rparr> = Some (acq, r') \<and> rd_now r' \<le> 5000"
proof -
  have "rd_now r + d \<le> rd_now (quiet_sleep n d r) \<and> rd_now (quiet_sleep n d r) \<le> rd_now r + d + 0" for n d r
    by (simp add: quiet_sleep_def)
  from acquire_terminates [of quiet_sleep 0 "\<lambda>_. 99" "\<lambda>_. Delivered" True "''k''" "''t''" SERVICE_LOCK_WAIT_MS
      "\<lparr>rd_store = [''k'' \<mapsto> (''other'', 1000000)], rd_now = 0\<rparr>", OF this]
  show ?thesis by (auto simp: SERVICE_LOCK_WAIT_MS_def)
qed

text \<open>One holder goes quiet for two minutes, another takes the key.\<close>

definition taken_over :: lock_world where
  "taken_over =
     \<lparr>lw_redis = \<lparr>rd_store = [''k'' \<mapsto> (''b'', 210000)], rd_now = 120000\<rparr>,
      lw_holders = [''a'' \<mapsto> (makeLock ''k'' ''a'', 0), ''b'' \<mapsto> (makeLock ''k'' ''b'', 120000)],
      lw_drawn = {''a'', ''b''}\<rparr>"

lemma taken_over_reachable: "lock_step\<^sup>*\<^sup>* (idle_world 0) taken_over"
proof -
  define w1 where "w1 = \<lparr>lw_redis = \<lparr>rd_store = [''k'' \<mapsto> (''a'', 90000)], rd_now = 0\<rparr>,
    lw_holders = [''a'' \<mapsto> (makeLock ''k'' ''a'', 0)], lw_drawn = {''a''}\<rparr>"
  define w2 where "w2 = w1\<lparr>lw_redis := (lw_redis w1)\<lparr>rd_now := 120000\<rparr>\<rparr>"
  have "lock_step (idle_world 0) w1"
    using lock_step.attempt [of "''a''" "idle_world 0" "\<lambda>_. Delivered" "\<lambda>_. 0" quiet_sleep "''k''"
        "Acquired (makeLock ''k'' ''a'')" "lw_redis w1"]
    by (simp add: single_attempt commandWithTimeout_def set_nx_px_def live_def put_def idle_world_def w1_def
        SERVICE_LOCK_TTL_MS_def fun_upd_def)
  moreover have "lock_step w1 w2"
    using lock_step.tick [of 120000 w1] by (simp add: w1_def w2_def)
  moreover have "lock_step w2 taken_over"
    using lock_step.attempt [of "''b''" w2 "\<lambda>_. Delivered" "\<lambda>_. 0" quiet_sleep "''k''"
        "Acquired (makeLock ''k'' ''b'')" "lw_redis taken_over"]
    by (simp add: single_attempt commandWithTimeout_def set_nx_px_def live_def put_def w1_def w2_def taken_over_def
        SERVICE_LOCK_TTL_MS_def insert_commute)
  ultimately show ?thesis
    by (meson rtranclp.rtrancl_into_rtrancl rtranclp.rtrancl_refl)
qed

theorem lease_excludes_witness:
  "leases taken_over ''b'' (makeLock ''k'' ''b'')
    \<and> heartbeat Delivered (makeLock ''k'' ''a'') (lw_redis taken_over)
      = ((makeLock ''k'' ''a'')\<lparr>lk_lost := True\<rparr>, lw_redis taken_over)"
proof -
  have l: "leases taken_over ''b'' (makeLock ''k'' ''b'')"
    by (simp add: leases_def taken_over_def makeLock_def SERVICE_LOCK_TTL_MS_def)
  have a: "lw_holders taken_over ''a'' = Some (makeLock ''k'' ''a'', 0)" by (simp add: taken_over_def)
  have k: "lk_key (makeLock ''k'' ''a'') = lk_key (makeLock ''k'' ''b'')" "\<not> lk_lost (makeLock ''k'' ''a'')"
    "\<not> lk_released (makeLock ''k'' ''a'')" by (simp_all add: makeLock_def)
  have "heartbeat Delivered (makeLock ''k'' ''a'') (lw_redis taken_over)
      = (if lk_lost (makeLock ''k'' ''a'') \<or> lk_released (makeLock ''k'' ''a'') then makeLock ''k'' ''a''
         else (makeLock ''k'' ''a'')\<lparr>lk_lost := True\<rparr>, lw_redis taken_over)"
    using lease_excludes [OF taken_over_reachable l] a k(1) by blast
  then show ?thesis using l k by simp
qed

end
