(* ===== verification/PanelAdapter.thy ===== *)
theory PanelAdapter
  imports PanelCapability
begin

text \<open>
  The construction of a panel adapter (packages/service-renewal/src/panel-adapter.ts): which client is
  built from a panel row, and when it throws. \<open>decrypt\<close> is decryptSecret, None where it throws.
\<close>

section \<open>The client of a panel\<close>

datatype panel_client =
    MarzbanClient string string string
  | XuiTokenClient string string
  | XuiSessionClient string string string

datatype adapter_error = MarzbanCredentialsIncomplete | XuiVariantUnsupported string
  | XuiAuthModeUnsupported string | XuiTokenMissing | XuiCredentialsIncomplete | SecretUnreadable

definition decrypted :: "(string \<Rightarrow> string option) \<Rightarrow> string \<Rightarrow> (string \<Rightarrow> panel_client) \<Rightarrow> adapter_error + panel_client" where
  "decrypted decrypt secret client =
     (case decrypt secret of None \<Rightarrow> Inl SecretUnreadable | Some plain \<Rightarrow> Inr (client plain))"

definition buildAdapterForPanel :: "(string \<Rightarrow> string option) \<Rightarrow> panel_row \<Rightarrow> adapter_error + panel_client" where
  "buildAdapterForPanel decrypt panel =
     (if pn_type panel = PanelType_MARZBAN then
        (case (pn_username panel, pn_passwordEncrypted panel) of
           (Some username, Some secret) \<Rightarrow> decrypted decrypt secret (MarzbanClient (pn_baseUrl panel) username)
         | _ \<Rightarrow> Inl MarzbanCredentialsIncomplete)
      else
        let variant = resolveXuiVariant panel; authMode = resolveXuiAuthMode panel in
        if variant \<notin> set SUPPORTED_XUI_VARIANTS then Inl (XuiVariantUnsupported variant)
        else if authMode \<notin> set SUPPORTED_XUI_AUTH_MODES then Inl (XuiAuthModeUnsupported authMode)
        else if authMode = ''API_TOKEN'' then
          (case pn_tokenEncrypted panel of
             None \<Rightarrow> Inl XuiTokenMissing
           | Some secret \<Rightarrow> decrypted decrypt secret (XuiTokenClient (pn_baseUrl panel)))
        else
          (case (pn_username panel, pn_passwordEncrypted panel) of
             (Some username, Some secret) \<Rightarrow> decrypted decrypt secret (XuiSessionClient (pn_baseUrl panel) username)
           | _ \<Rightarrow> Inl XuiCredentialsIncomplete))"

definition http_scheme :: "string \<Rightarrow> bool" where
  "http_scheme s \<longleftrightarrow> starts_with (js_lower s) ''http://'' \<or> starts_with (js_lower s) ''https://''"

definition normalizeSubscriptionBase :: "panel_row \<Rightarrow> string option" where
  "normalizeSubscriptionBase panel =
     (let domain = (case pn_subscriptionDomain panel of None \<Rightarrow> '''' | Some d \<Rightarrow> js_trim d) in
      if domain = '''' then None
      else Some (if http_scheme domain then domain else ''https://'' @ domain))"

section \<open>An operation on offer can be carried out\<close>

text \<open>The stored secret the adapter of a panel needs.\<close>

definition panel_secret :: "panel_row \<Rightarrow> string option" where
  "panel_secret panel =
     (if pn_type panel = PanelType_XUI \<and> resolveXuiAuthMode panel = ''API_TOKEN''
      then pn_tokenEncrypted panel else pn_passwordEncrypted panel)"

text \<open>
  The gate before payment and the construction after it: for a panel on which an operation is
  available, building the adapter fails exactly when its secret cannot be decrypted, or when the
  panel is an XUI panel whose authentication mode is none of the supported ones, which the gate
  does not ask about. A failure of any other kind was excluded by the gate.
\<close>

theorem available_panel_builds:
  assumes "panelOperationAvailable panel capability"
  shows "case buildAdapterForPanel decrypt panel of
      Inr _ \<Rightarrow> (\<exists>secret plain. panel_secret panel = Some secret \<and> decrypt secret = Some plain)
    | Inl SecretUnreadable \<Rightarrow> (\<exists>secret. panel_secret panel = Some secret \<and> decrypt secret = None)
    | Inl (XuiAuthModeUnsupported authMode) \<Rightarrow> pn_type panel = PanelType_XUI
        \<and> authMode = resolveXuiAuthMode panel \<and> authMode \<notin> set SUPPORTED_XUI_AUTH_MODES
    | Inl _ \<Rightarrow> False"
proof -
  have av: "panelSupportsOperation panel capability" "panelHasCredentials panel"
    using assms by (simp_all add: panelOperationAvailable_def)
  show ?thesis
  proof (cases "pn_type panel")
    case PanelType_MARZBAN
    then show ?thesis using av
      by (auto simp: buildAdapterForPanel_def panelHasCredentials_def panel_secret_def decrypted_def
          split: option.splits)
  next
    case PanelType_XUI
    then have "resolveXuiVariant panel \<in> set SUPPORTED_XUI_VARIANTS"
      using av(1) by (auto simp: panelSupportsOperation_def panelCapabilities_def split: if_splits)
    then show ?thesis using av(2) PanelType_XUI
      by (auto simp: buildAdapterForPanel_def panelHasCredentials_def panel_secret_def decrypted_def Let_def
          split: option.splits if_splits)
  qed
qed

text \<open>A base is absent or absolute.\<close>

lemma subscription_base_absolute:
  assumes "normalizeSubscriptionBase panel = Some base"
  shows "http_scheme base"
proof -
  have "js_lower ''https://'' = ''https://''" by code_simp
  then have "http_scheme (''https://'' @ d)" for d
    by (simp add: http_scheme_def starts_with_def js_lower_def)
  then show ?thesis using assms
    by (auto simp: normalizeSubscriptionBase_def Let_def split: if_splits)
qed

end
