(* ===== verification/Execution.thy ===== *)
theory Execution
  imports Checkout PanelAdapter
begin

text \<open>
  The execution of a paid order (packages/service-renewal/src/execution.ts): provisioning a new
  service, applying an operation to an existing one, the definite refund, and the reconciliation of
  orders whose remote outcome is unknown. The panel is a parameter: an adapter answers each call. The
  lock of packages/service-renewal/src/service-lock.ts enters through its outcome.
\<close>

section \<open>Vocabulary\<close>

definition GIB :: int where "GIB = 1073741824"
definition COMMERCE_OPERATION_INTENT_EVENT :: string where
  "COMMERCE_OPERATION_INTENT_EVENT = ''COMMERCE_OPERATION_INTENT''"
definition COMMERCE_OPERATION_APPLIED_EVENT :: string where
  "COMMERCE_OPERATION_APPLIED_EVENT = ''COMMERCE_OPERATION_APPLIED''"
definition TRIAL_CONVERTED_EVENT_TYPE :: string where
  "TRIAL_CONVERTED_EVENT_TYPE = ''TRIAL_CONVERTED_TO_PAID''"
definition REFUND_PROVISIONING_REASON :: string where
  "REFUND_PROVISIONING_REASON = ''REFUND_PROVISIONING_FAILED''"

datatype ExecutionClassification = SUCCESS | ALREADY_CONVERGED | REPLAY

text \<open>What a call can throw besides database faults.\<close>

datatype exec_exn = AdapterUnavailable | InvalidDate

datatype CommerceExecutionResult =
    Executed ExecutionClassification service_row
  | DefiniteFailure bool string
  | ReconciliationRequired string
  | Busy string
  | ExecutionThrows "exec_exn thrown"

text \<open>A property of an object that may be undefined, null or a value.\<close>

datatype 'a field = Undefined | Null | Value 'a

fun field_or :: "'a field \<Rightarrow> 'a \<Rightarrow> 'a" where
  "field_or (Value x) d = x"
| "field_or _ d = d"

fun field_opt :: "'a field \<Rightarrow> 'a option" where
  "field_opt (Value x) = Some x"
| "field_opt _ = None"

record remote_account =
  rm_username :: "string option"
  rm_usedBytes :: "int option"
  rm_totalBytes :: "int field"
  rm_remainingBytes :: "int field"
  rm_expiresAt :: "int field"
  rm_subscriptionUrl :: "string option"
  rm_subscriptionToken :: "string option"
  rm_configLinks :: "string list option"
  rm_remoteClientId :: "string option"
  rm_remoteInboundIds :: "int list option"
  rm_remoteMetadata :: "json_obj option"

text \<open>
  The answer of the panel: an account; a failure (is it uncertain, its message, does it prove that no
  such account exists); or an exception.
\<close>

datatype remote_reply = RemoteOk remote_account | RemoteFailed bool "string option" bool | RemoteThrew

record create_input =
  ci_username :: string
  ci_note :: string
  ci_volumeBytes :: "int option"
  ci_durationDays :: int
  ci_expiresAt :: "int option"
  ci_templateUsername :: "string option"
  ci_dataLimitResetStrategy :: "string option"
  ci_trafficResetCycle :: "TrafficResetCycle option"
  ci_subscriptionBaseUrl :: "string option"
  ci_inboundIds :: "int list option"
  ci_protocolSettings :: "json option"

record mutate_input =
  mi_username :: string
  mi_totalBytes :: "int option"
  mi_expiresAt :: "int option"
  mi_subscriptionBaseUrl :: "string option"

record adapter =
  ad_createServiceAccount :: "create_input \<Rightarrow> remote_reply"
  ad_renewServiceAccount :: "mutate_input \<Rightarrow> remote_reply"
  ad_addServiceVolume :: "mutate_input \<Rightarrow> remote_reply"
  ad_addServiceTime :: "mutate_input \<Rightarrow> remote_reply"
  ad_getServiceAccount :: "string \<Rightarrow> string option \<Rightarrow> remote_reply"

text \<open>
  The world of one call: what other processes do between its steps, how an adapter is built (None
  where that throws), the outcome of the lock (None when it was not acquired, otherwise whether it
  was lost when asked), and the clock.
\<close>

record exec_env =
  ex_others :: "nat \<Rightarrow> db \<Rightarrow> db"
  ex_build :: "panel_row \<Rightarrow> adapter option"
  ex_lock :: "bool option"
  ex_now :: int

record order_rows =
  or_order :: order_row
  or_product :: "product_row option"
  or_panel :: "panel_row option"
  or_checkout :: "checkout_row option"

definition orderRows :: "string \<Rightarrow> db \<Rightarrow> order_rows option" where
  "orderRows orderId s =
     map_option (\<lambda>ord.
       let product = Option.bind (o_productId ord) (\<lambda>i. find (\<lambda>p. pr_id p = i) (products s)) in
       \<lparr>or_order = ord, or_product = product,
        or_panel = Option.bind (Option.bind product pr_panelId) (\<lambda>i. find (\<lambda>p. pn_id p = i) (panels s)),
        or_checkout = Option.bind (o_checkoutSessionId ord) (\<lambda>i. find (\<lambda>c. co_id c = i) (checkouts s))\<rparr>)
     (find (\<lambda>ord. o_id ord = orderId) (orders s))"

definition stringField :: "json_obj \<Rightarrow> string \<Rightarrow> string option" where
  "stringField v key = nonempty_string (map_of v key)"

definition intField :: "json_obj \<Rightarrow> string \<Rightarrow> int option" where
  "intField v key = safe_integer_value (map_of v key)"

definition captured_of :: "order_rows \<Rightarrow> json_obj" where
  "captured_of rows = as_record (Option.bind (or_checkout rows) co_productSnapshot)"

fun first_of :: "'a option list \<Rightarrow> 'a \<Rightarrow> 'a" where
  "first_of [] d = d"
| "first_of (Some x # xs) d = x"
| "first_of (None # xs) d = first_of xs d"

section \<open>The order's row\<close>

text \<open>\<open>updateMany\<close> on the orders; the client stamps \<open>updatedAt\<close>.\<close>

definition update_orders :: "int \<Rightarrow> (order_row \<Rightarrow> bool) \<Rightarrow> (order_row \<Rightarrow> order_row) \<Rightarrow> db \<Rightarrow> nat \<times> db" where
  "update_orders now P f s =
     (count_where P (orders s),
      s\<lparr>orders := update_where P (\<lambda>ord. (f ord)\<lparr>o_updatedAt := now\<rparr>) (orders s)\<rparr>)"

definition completed :: "int \<Rightarrow> order_row \<Rightarrow> order_row" where
  "completed now ord = ord\<lparr>o_status := OrderStatus_COMPLETED, o_completedAt := Some now\<rparr>"

definition has_status :: "string \<Rightarrow> OrderStatus list \<Rightarrow> order_row \<Rightarrow> bool" where
  "has_status orderId sts ord \<longleftrightarrow> o_id ord = orderId \<and> o_status ord \<in> set sts"

definition to_status :: "OrderStatus \<Rightarrow> order_row \<Rightarrow> order_row" where
  "to_status st ord = ord\<lparr>o_status := st\<rparr>"

definition claim_order :: "int \<Rightarrow> string \<Rightarrow> db \<Rightarrow> nat \<times> db" where
  "claim_order now orderId =
     update_orders now (has_status orderId [OrderStatus_PAID]) (to_status OrderStatus_PROVISIONING)"

definition complete_provisioning :: "int \<Rightarrow> string \<Rightarrow> db \<Rightarrow> nat \<times> db" where
  "complete_provisioning now orderId =
     update_orders now (has_status orderId [OrderStatus_PROVISIONING]) (completed now)"

text \<open>\<open>order.update\<close>: without a guard on the status; a missing row is an error.\<close>

definition complete_any :: "int \<Rightarrow> string \<Rightarrow> ('e, unit) tx" where
  "complete_any now orderId =
     tx_bind (tx_do (update_orders now (\<lambda>ord. o_id ord = orderId) (completed now)))
       (\<lambda>n. tx_require (n = 1) DbFault)"

section \<open>The definite refund\<close>

definition refund_of :: "string \<Rightarrow> wallet_tx_row \<Rightarrow> bool" where
  "refund_of orderId t \<longleftrightarrow>
     wt_relatedOrderId t = Some orderId \<and> wt_reason t = Some REFUND_PROVISIONING_REASON"

definition credited :: "int \<Rightarrow> user_row \<Rightarrow> user_row" where
  "credited amount u = u\<lparr>u_balanceToman := u_balanceToman u + amount,
     u_totalRefundedToman := u_totalRefundedToman u + amount\<rparr>"

definition refund_row :: "int \<Rightarrow> order_row \<Rightarrow> int \<Rightarrow> string \<Rightarrow> wallet_tx_row" where
  "refund_row now ord balance i =
     \<lparr>wt_id = i, wt_userId = o_userId ord, wt_amountToman = o_finalPriceToman ord, wt_type = WT_REFUND,
      wt_source = WS_SYSTEM, wt_reason = Some REFUND_PROVISIONING_REASON,
      wt_relatedOrderId = Some (o_id ord), wt_relatedPaymentId = o_paymentId ord,
      wt_balanceBeforeToman = balance - o_finalPriceToman ord, wt_balanceAfterToman = balance,
      wt_createdAt = now\<rparr>"

definition credit_refund :: "int \<Rightarrow> order_row \<Rightarrow> (exec_exn, unit) tx" where
  "credit_refund now ord =
     (let amount = o_finalPriceToman ord; userId = o_userId ord in
      tx_bind (update_users (\<lambda>u. u_id u = userId) (credited amount)) (\<lambda>_.
      tx_bind (tx_read (\<lambda>s. find (\<lambda>u. u_id u = userId) (users s))) (\<lambda>row.
      tx_bind (tx_some row DbFault) (\<lambda>u.
      tx_bind (tx_do draw_id) (\<lambda>i.
      tx_bind (create_wallet_tx (refund_row now ord (u_balanceToman u) i)) (\<lambda>_.
      onWalletBalanceChanged now
        \<lparr>oa_userId = userId, oa_balanceBeforeToman = Some (u_balanceToman u - amount),
         oa_balanceAfterToman = u_balanceToman u\<rparr>))))))"

definition refundDefinite :: "int \<Rightarrow> order_row \<Rightarrow> string \<Rightarrow> (exec_exn, bool) tx" where
  "refundDefinite now ord reason =
     tx_bind (tx_do (update_orders now
         (has_status (o_id ord) [OrderStatus_PAID, OrderStatus_PROVISIONING])
         (\<lambda>x. x\<lparr>o_status := OrderStatus_FAILED, o_failureReason := Some (take 500 reason)\<rparr>)))
     (\<lambda>flipped.
     tx_bind (tx_read (\<lambda>s. \<exists>t \<in> set (wallet_txs s). refund_of (o_id ord) t)) (\<lambda>existing.
     if existing then tx_return True
     else if flipped \<noteq> 1 then tx_return False
     else tx_then (tx_write (releaseReservationForFailedOrder (o_id ord) (o_checkoutSessionId ord) now))
       (if o_finalPriceToman ord \<le> 0 then tx_return True
        else tx_then (credit_refund now ord) (tx_return True))))"

definition refund_and_fail :: "int \<Rightarrow> order_row \<Rightarrow> string \<Rightarrow> string \<Rightarrow> db \<Rightarrow> CommerceExecutionResult \<times> db" where
  "refund_and_fail now ord reason code s =
     (case run_transaction (refundDefinite now ord reason) s of
        (Inr refunded, s') \<Rightarrow> (DefiniteFailure refunded code, s')
      | (Inl e, s') \<Rightarrow> (ExecutionThrows e, s'))"

definition acquiredFailure :: CommerceExecutionResult where
  "acquiredFailure = Busy ''EXECUTION_BUSY''"

section \<open>Provisioning a new service\<close>

definition order_note :: "string \<Rightarrow> string" where
  "order_note orderId = ''zedbot order:'' @ take 8 orderId"

definition frozen_inbounds :: "order_row \<Rightarrow> int list option" where
  "frozen_inbounds ord =
     (case o_inboundIdsSnapshot ord of
        Some (JArr xs) \<Rightarrow> Some (List.map_filter (\<lambda>v. safe_integer_value (Some v)) xs)
      | _ \<Rightarrow> None)"

definition protocol_settings :: "panel_row \<Rightarrow> json option" where
  "protocol_settings panel =
     (case pn_protocolSettings panel of
        Some (JObj kvs) \<Rightarrow> Some (JObj kvs) | Some (JArr xs) \<Rightarrow> Some (JArr xs) | _ \<Rightarrow> None)"

definition sold_volume :: "order_rows \<Rightarrow> int" where
  "sold_volume rows =
     first_of [o_volumeGbSnapshot (or_order rows), intField (captured_of rows) ''volumeGb''] 0"

definition sold_duration :: "order_rows \<Rightarrow> int" where
  "sold_duration rows =
     first_of [o_durationDaysSnapshot (or_order rows), intField (captured_of rows) ''durationDays''] 0"

definition sold_bytes :: "order_rows \<Rightarrow> int option" where
  "sold_bytes rows = (if sold_volume rows > 0 then Some (sold_volume rows * GIB) else None)"

definition sold_until :: "int \<Rightarrow> order_rows \<Rightarrow> int option" where
  "sold_until now rows =
     (if sold_duration rows > 0 then Some (now + sold_duration rows * DAY_MS) else None)"

definition create_request :: "int \<Rightarrow> order_rows \<Rightarrow> product_row \<Rightarrow> panel_row \<Rightarrow> string \<Rightarrow> create_input" where
  "create_request now rows product panel username =
     \<lparr>ci_username = username, ci_note = order_note (o_id (or_order rows)),
      ci_volumeBytes = sold_bytes rows, ci_durationDays = sold_duration rows,
      ci_expiresAt = sold_until now rows, ci_templateUsername = pn_templateUsername panel,
      ci_dataLimitResetStrategy = pn_resetStrategy panel,
      ci_trafficResetCycle = pr_trafficResetCycle product,
      ci_subscriptionBaseUrl = normalizeSubscriptionBase panel,
      ci_inboundIds = frozen_inbounds (or_order rows),
      ci_protocolSettings = protocol_settings panel\<rparr>"

definition links_json :: "string list option \<Rightarrow> json option" where
  "links_json x = map_option (\<lambda>ls. JArr (map JStr ls)) x"

definition provisioned_service ::
  "int \<Rightarrow> order_rows \<Rightarrow> product_row \<Rightarrow> panel_row \<Rightarrow> string \<Rightarrow> remote_account \<Rightarrow> string \<Rightarrow> service_row" where
  "provisioned_service now rows product panel username remote i =
     (let ord = or_order rows in
      \<lparr>sv_id = i, sv_userId = o_userId ord, sv_orderId = Some (o_id ord), sv_panelId = pn_id panel,
       sv_productId = o_productId ord, sv_panelType = pn_type panel,
       sv_username = first_of [rm_username remote] username,
       sv_note = Some (order_note (o_id ord)), sv_userNote = o_serviceNoteSnapshot ord,
       sv_status = ServiceStatus_ACTIVE, sv_source = ServiceSource_PAID,
       sv_serviceLocation = first_of [pr_serviceLocation product] ServiceLocation_MULTI_LOCATION,
       sv_convertedToPaidAt = None, sv_firstPaidOrderId = None,
       sv_productNameSnapshot = Some (first_of [o_productNameSnapshot ord] (pr_name product)),
       sv_panelNameSnapshot = Some (first_of [o_panelNameSnapshot ord] (pn_name panel)),
       sv_volumeBytes = first_of [sold_bytes rows] 0, sv_usedBytes = 0,
       sv_remainingBytes = first_of [sold_bytes rows] 0,
       sv_durationDays = sold_duration rows, sv_startsAt = now, sv_expiresAt = sold_until now rows,
       sv_subscriptionUrl = rm_subscriptionUrl remote,
       sv_subscriptionToken = rm_subscriptionToken remote,
       sv_configLinks = links_json (rm_configLinks remote),
       sv_remoteClientId = rm_remoteClientId remote,
       sv_remoteInboundIds = map_option (\<lambda>ids. JArr (map jint ids)) (rm_remoteInboundIds remote),
       sv_remoteMetadata = map_option JObj (rm_remoteMetadata remote), sv_createdAt = now, sv_deletedAt = None\<rparr>)"

text \<open>
  The service of an order, its hold consumed and the order completed; an existing service is kept.
  \<open>build\<close> makes the row, \<open>complete\<close> is how the order's row is updated.
\<close>

definition persist_new_service ::
  "int \<Rightarrow> string \<Rightarrow> (string \<Rightarrow> service_row) \<Rightarrow> (exec_exn, unit) tx \<Rightarrow> (exec_exn, service_row) tx" where
  "persist_new_service now orderId build complete =
     tx_bind (tx_read (\<lambda>s. find (\<lambda>sv. sv_orderId sv = Some orderId) (services s))) (\<lambda>existing.
     case existing of
       Some sv \<Rightarrow> tx_return sv
     | None \<Rightarrow>
         tx_bind (tx_do draw_id) (\<lambda>i.
         tx_bind (create_service (build i)) (\<lambda>created.
         tx_then (tx_write (consumeReservationForOrder orderId (sv_id created) (sv_username created) now))
         (tx_then complete (tx_return created)))))"

definition run_execution ::
  "ExecutionClassification \<Rightarrow> (exec_exn, service_row) tx \<Rightarrow> db \<Rightarrow> CommerceExecutionResult \<times> db" where
  "run_execution c m s =
     (case run_transaction m s of
        (Inr sv, s') \<Rightarrow> (Executed c sv, s')
      | (Inl e, s') \<Rightarrow> (ExecutionThrows e, s'))"

definition tx_count :: "(db \<Rightarrow> nat \<times> db) \<Rightarrow> ('e, unit) tx" where
  "tx_count f = tx_bind (tx_do f) (\<lambda>_. tx_return ())"

text \<open>What follows a mutation of the panel: uncertain, refused, or persisted unless the lock is lost.\<close>

definition after_remote ::
  "exec_env \<Rightarrow> bool \<Rightarrow> order_row \<Rightarrow> remote_reply \<Rightarrow> (remote_account \<Rightarrow> (exec_exn, service_row) tx) \<Rightarrow> nat \<Rightarrow>
   db \<Rightarrow> CommerceExecutionResult \<times> db" where
  "after_remote env lost ord reply persist n s =
     (let s1 = ex_others env n s in
      case reply of
        RemoteThrew \<Rightarrow> (ReconciliationRequired ''REMOTE_RESULT_UNCERTAIN'', s1)
      | RemoteFailed uncertain message absent \<Rightarrow>
          if uncertain then (ReconciliationRequired ''REMOTE_RESULT_UNCERTAIN'', s1)
          else refund_and_fail (ex_now env) ord (first_of [message] ''definite panel refusal'')
            ''REMOTE_DEFINITE_FAILURE'' s1
      | RemoteOk remote \<Rightarrow>
          if lost then (ReconciliationRequired ''LOCK_LOST_AFTER_REMOTE'', s1)
          else run_execution SUCCESS (persist remote) s1)"

definition provision_locked ::
  "exec_env \<Rightarrow> bool \<Rightarrow> order_rows \<Rightarrow> product_row \<Rightarrow> panel_row \<Rightarrow> string \<Rightarrow> db \<Rightarrow>
   CommerceExecutionResult \<times> db" where
  "provision_locked env lost rows product panel username s =
     (let ord = or_order rows; orderId = o_id ord; now = ex_now env; s1 = ex_others env 3 s in
      case find (\<lambda>sv. sv_orderId sv = Some orderId) (services s1) of
        Some replay \<Rightarrow> (Executed ALREADY_CONVERGED replay, s1)
      | None \<Rightarrow>
          (case claim_order now orderId (ex_others env 4 s1) of (n, s2) \<Rightarrow>
            if n \<noteq> 1 then (acquiredFailure, s2)
            else case ex_build env panel of
              None \<Rightarrow> (ExecutionThrows (Thrown AdapterUnavailable), s2)
            | Some adapter \<Rightarrow>
                after_remote env lost ord
                  (ad_createServiceAccount adapter (create_request now rows product panel username))
                  (\<lambda>remote. persist_new_service now orderId
                     (provisioned_service now rows product panel username remote)
                     (tx_count (complete_provisioning now orderId)))
                  5 s2))"

definition provisionPaidOrder :: "exec_env \<Rightarrow> string \<Rightarrow> db \<Rightarrow> CommerceExecutionResult \<times> db" where
  "provisionPaidOrder env orderId s =
     (let now = ex_now env; s0 = ex_others env 0 s in
      case orderRows orderId s0 of
        None \<Rightarrow> (acquiredFailure, s0)
      | Some rows \<Rightarrow>
          if o_type (or_order rows) \<noteq> OrderType_SERVICE_PURCHASE then (acquiredFailure, s0)
          else let s1 = ex_others env 1 s0 in
          (case find (\<lambda>sv. sv_orderId sv = Some orderId) (services s1) of
             Some already \<Rightarrow>
               (Executed REPLAY already,
                snd (update_orders now (\<lambda>ord. o_id ord = orderId \<and> o_status ord \<noteq> OrderStatus_COMPLETED)
                  (completed now) (ex_others env 2 s1)))
           | None \<Rightarrow>
               (case (or_product rows, or_panel rows) of
                  (Some product, Some panel) \<Rightarrow>
                    if o_status (or_order rows) \<noteq> OrderStatus_PAID then (acquiredFailure, s1)
                    else let captured = captured_of rows; s2 = ex_others env 2 s1 in
                    (case stringField captured ''serviceUsername'' of
                       Some username \<Rightarrow>
                         if stringField captured ''panelId'' \<noteq> Some (pn_id panel)
                            \<or> pn_status panel \<noteq> PanelStatus_ACTIVE
                         then refund_and_fail now (or_order rows) ''invalid frozen provisioning target''
                           ''PROVISIONING_TARGET_INVALID'' s2
                         else (case ex_lock env of
                             None \<Rightarrow> (acquiredFailure, s2)
                           | Some lost \<Rightarrow> provision_locked env lost rows product panel username s2)
                     | None \<Rightarrow> refund_and_fail now (or_order rows) ''invalid frozen provisioning target''
                           ''PROVISIONING_TARGET_INVALID'' s2)
                | _ \<Rightarrow> (acquiredFailure, s1))))"

section \<open>An operation on an existing service\<close>

record post_state =
  ps_totalBytes :: "int option"
  ps_remainingBytes :: "int option"
  ps_expiresAt :: "int option"
  ps_durationDays :: int
  ps_volumeGb :: int

definition topped_up :: "service_row \<Rightarrow> int \<Rightarrow> int" where
  "topped_up service volumeGb =
     (if sv_remainingBytes service > 0 then sv_remainingBytes service else 0) + volumeGb * GIB"

definition expiry_base :: "service_row \<Rightarrow> int \<Rightarrow> int" where
  "expiry_base service now =
     (case sv_expiresAt service of Some t \<Rightarrow> if t > now then t else now | None \<Rightarrow> now)"

definition expected :: "ServiceOperation \<Rightarrow> service_row \<Rightarrow> order_row \<Rightarrow> int \<Rightarrow> post_state" where
  "expected operation service ord now =
     (let volumeGb = first_of [o_volumeGbSnapshot ord] 0;
          durationDays = first_of [o_durationDaysSnapshot ord] 0
      in case operation of
           EXTRA_VOLUME \<Rightarrow>
             \<lparr>ps_totalBytes = Some (topped_up service volumeGb),
              ps_remainingBytes = Some (topped_up service volumeGb),
              ps_expiresAt = sv_expiresAt service, ps_durationDays = durationDays, ps_volumeGb = volumeGb\<rparr>
         | EXTRA_TIME \<Rightarrow>
             \<lparr>ps_totalBytes = (if sv_volumeBytes service > 0 then Some (sv_volumeBytes service) else None),
              ps_remainingBytes = Some (sv_remainingBytes service),
              ps_expiresAt = Some (expiry_base service now + durationDays * DAY_MS),
              ps_durationDays = durationDays, ps_volumeGb = volumeGb\<rparr>
         | RENEWAL \<Rightarrow>
             (let totalBytes = (if volumeGb = 0 then None else Some (topped_up service volumeGb)) in
              \<lparr>ps_totalBytes = totalBytes, ps_remainingBytes = totalBytes,
               ps_expiresAt = (if durationDays > 0 then Some (expiry_base service now + durationDays * DAY_MS)
                 else sv_expiresAt service),
               ps_durationDays = durationDays, ps_volumeGb = volumeGb\<rparr>))"

definition applied_event :: "string \<Rightarrow> string \<Rightarrow> event_row \<Rightarrow> bool" where
  "applied_event eventType orderId e \<longleftrightarrow>
     ev_eventType e = eventType \<and> map_of (ev_metadata e) ''orderId'' = Some (JStr orderId)"

definition iso_opt :: "int option \<Rightarrow> json" where
  "iso_opt x = jopt (\<lambda>t. JStr (toISOString t)) x"

definition valid_expiry :: "int option \<Rightarrow> bool" where
  "valid_expiry x = (case x of None \<Rightarrow> True | Some t \<Rightarrow> js_date t)"

definition service_event :: "service_row \<Rightarrow> string \<Rightarrow> string \<Rightarrow> json_obj \<Rightarrow> string \<Rightarrow> event_row" where
  "service_event service userId eventType metadata i =
     \<lparr>ev_id = i, ev_serviceId = sv_id service, ev_userId = userId, ev_panelId = sv_panelId service,
      ev_eventType = eventType, ev_metadata = metadata\<rparr>"

definition log_event :: "service_row \<Rightarrow> string \<Rightarrow> string \<Rightarrow> json_obj \<Rightarrow> ('e, unit) tx" where
  "log_event service userId eventType metadata =
     tx_bind (tx_do draw_id) (\<lambda>i.
     tx_bind (create_event (service_event service userId eventType metadata i)) (\<lambda>_. tx_return ()))"

definition intent_metadata :: "ServiceOperation \<Rightarrow> service_row \<Rightarrow> order_row \<Rightarrow> post_state \<Rightarrow> json_obj" where
  "intent_metadata operation service ord target =
     [(''orderId'', JStr (o_id ord)), (''operation'', JStr (operation_name operation)),
      (''beforeTotalBytes'', JStr (show_int (sv_volumeBytes service))),
      (''beforeRemainingBytes'', JStr (show_int (sv_remainingBytes service))),
      (''beforeExpiresAt'', iso_opt (sv_expiresAt service)),
      (''expectedTotalBytes'', jopt (\<lambda>n. JStr (show_int n)) (ps_totalBytes target)),
      (''expectedExpiresAt'', iso_opt (ps_expiresAt target))]"

text \<open>The intent is recorded with the claim; printing an invalid date throws inside the body.\<close>

definition claim_operation ::
  "int \<Rightarrow> ServiceOperation \<Rightarrow> service_row \<Rightarrow> order_row \<Rightarrow> post_state \<Rightarrow> (exec_exn, bool) tx" where
  "claim_operation now operation service ord target =
     tx_bind (tx_do (claim_order now (o_id ord))) (\<lambda>changed.
     if changed \<noteq> 1 then tx_return False
     else tx_then (tx_require (valid_expiry (ps_expiresAt target)) (Thrown InvalidDate))
       (tx_then (log_event service (o_userId ord) COMMERCE_OPERATION_INTENT_EVENT
          (intent_metadata operation service ord target)) (tx_return True)))"

definition converted :: "int \<Rightarrow> string \<Rightarrow> service_row \<Rightarrow> service_row" where
  "converted now orderId sv = sv\<lparr>sv_convertedToPaidAt := Some now, sv_firstPaidOrderId := Some orderId\<rparr>"

definition unconverted_trial :: "string \<Rightarrow> service_row \<Rightarrow> bool" where
  "unconverted_trial serviceId sv \<longleftrightarrow>
     sv_id sv = serviceId \<and> sv_source sv = ServiceSource_FREE_TRIAL \<and> sv_convertedToPaidAt sv = None"

definition update_services :: "(service_row \<Rightarrow> bool) \<Rightarrow> (service_row \<Rightarrow> service_row) \<Rightarrow> ('e, nat) tx" where
  "update_services P f =
     (\<lambda>s. if \<exists>sv \<in> set (services s). P sv \<and> \<not> service_in_range (f sv) then Inl DbFault
          else Inr (count_where P (services s), s\<lparr>services := update_where P f (services s)\<rparr>))"

definition convertTrial :: "service_row \<Rightarrow> string \<Rightarrow> int \<Rightarrow> ('e, unit) tx" where
  "convertTrial service orderId now =
     tx_bind (update_services (unconverted_trial (sv_id service)) (converted now orderId)) (\<lambda>changed.
     if changed = 1
     then log_event service (sv_userId service) TRIAL_CONVERTED_EVENT_TYPE [(''orderId'', JStr orderId)]
     else tx_return ())"

text \<open>The row after the panel applied the operation.\<close>

definition applied_service :: "post_state \<Rightarrow> remote_account \<Rightarrow> service_row \<Rightarrow> service_row" where
  "applied_service target remote sv =
     sv\<lparr>sv_volumeBytes := field_or (rm_totalBytes remote) (first_of [ps_totalBytes target] 0),
        sv_remainingBytes := field_or (rm_remainingBytes remote) (first_of [ps_remainingBytes target] 0),
        sv_usedBytes := first_of [rm_usedBytes remote] 0,
        sv_expiresAt := (case rm_expiresAt remote of
          Undefined \<Rightarrow> ps_expiresAt target | Null \<Rightarrow> None | Value t \<Rightarrow> Some t),
        sv_status := ServiceStatus_ACTIVE,
        sv_subscriptionUrl := (case rm_subscriptionUrl remote of
          None \<Rightarrow> sv_subscriptionUrl sv | Some u \<Rightarrow> Some u),
        sv_configLinks := (case rm_configLinks remote of
          None \<Rightarrow> sv_configLinks sv | Some ls \<Rightarrow> links_json (Some ls))\<rparr>"

text \<open>
  \<open>service.update\<close>, the applied event, the completion of the order and the conversion of a trial;
  the service's row, which must exist, is returned as the update left it.
\<close>

definition persist_operation ::
  "int \<Rightarrow> service_row \<Rightarrow> order_row \<Rightarrow> json_obj \<Rightarrow> (service_row \<Rightarrow> service_row) \<Rightarrow> (exec_exn, unit) tx \<Rightarrow>
   (exec_exn, service_row) tx" where
  "persist_operation now service ord metadata f complete =
     tx_bind (update_services (\<lambda>sv. sv_id sv = sv_id service) f) (\<lambda>_.
     tx_bind (tx_read (\<lambda>s. find (\<lambda>sv. sv_id sv = sv_id service) (services s))) (\<lambda>row.
     tx_bind (tx_some row DbFault) (\<lambda>updated.
     tx_then (log_event service (o_userId ord) COMMERCE_OPERATION_APPLIED_EVENT metadata)
     (tx_then complete
     (tx_then (convertTrial service (o_id ord) now) (tx_return updated))))))"

definition invalid_grant :: "ServiceOperation \<Rightarrow> service_row \<Rightarrow> post_state \<Rightarrow> bool" where
  "invalid_grant operation service target \<longleftrightarrow>
     operation = EXTRA_VOLUME \<and> (ps_volumeGb target \<le> 0 \<or> sv_volumeBytes service \<le> 0)
     \<or> operation = EXTRA_TIME \<and> (ps_durationDays target \<le> 0 \<or> sv_expiresAt service = None)"

definition mutate ::
  "adapter \<Rightarrow> ServiceOperation \<Rightarrow> service_row \<Rightarrow> panel_row \<Rightarrow> post_state \<Rightarrow> remote_reply" where
  "mutate adapter operation service panel target =
     (let input = \<lparr>mi_username = sv_username service, mi_totalBytes = ps_totalBytes target,
            mi_expiresAt = ps_expiresAt target,
            mi_subscriptionBaseUrl = normalizeSubscriptionBase panel\<rparr>
      in case operation of
           RENEWAL \<Rightarrow> ad_renewServiceAccount adapter input
         | EXTRA_VOLUME \<Rightarrow> ad_addServiceVolume adapter (input\<lparr>mi_expiresAt := sv_expiresAt service\<rparr>)
         | EXTRA_TIME \<Rightarrow> ad_addServiceTime adapter input)"

definition operable_target :: "string \<Rightarrow> order_row \<Rightarrow> db \<Rightarrow> (service_row \<times> panel_row) option" where
  "operable_target serviceId ord s =
     (case find (\<lambda>sv. sv_id sv = serviceId \<and> sv_userId sv = o_userId ord \<and> sv_deletedAt sv = None)
         (services s) of
        None \<Rightarrow> None
      | Some sv \<Rightarrow>
          (case panel_of s sv of
             Some panel \<Rightarrow> if pn_status panel = PanelStatus_ACTIVE then Some (sv, panel) else None
           | None \<Rightarrow> None))"

definition apply_operation ::
  "exec_env \<Rightarrow> bool \<Rightarrow> ServiceOperation \<Rightarrow> order_row \<Rightarrow> service_row \<Rightarrow> panel_row \<Rightarrow> db \<Rightarrow>
   CommerceExecutionResult \<times> db" where
  "apply_operation env lost operation ord service panel s =
     (let now = ex_now env; target = expected operation service ord now in
      if invalid_grant operation service target
      then refund_and_fail now ord ''invalid operation grant'' ''INVALID_GRANT'' (ex_others env 5 s)
      else (case run_transaction (claim_operation now operation service ord target) (ex_others env 5 s) of
          (Inl e, s1) \<Rightarrow> (ExecutionThrows e, s1)
        | (Inr claimed, s1) \<Rightarrow>
            if \<not> claimed then (acquiredFailure, s1)
            else case ex_build env panel of
              None \<Rightarrow> (ExecutionThrows (Thrown AdapterUnavailable), s1)
            | Some adapter \<Rightarrow>
                after_remote env lost ord (mutate adapter operation service panel target)
                  (\<lambda>remote. persist_operation now service ord
                     [(''orderId'', JStr (o_id ord)), (''operation'', JStr (operation_name operation))]
                     (applied_service target remote)
                     (tx_count (complete_provisioning now (o_id ord)))) 6 s1))"

definition executeServiceOperation ::
  "exec_env \<Rightarrow> string \<Rightarrow> ServiceOperation \<Rightarrow> db \<Rightarrow> CommerceExecutionResult \<times> db" where
  "executeServiceOperation env orderId operation s =
     (let s0 = ex_others env 0 s in
      case Option.bind (find (\<lambda>ord. o_id ord = orderId) (orders s0)) o_serviceId of
        None \<Rightarrow> (acquiredFailure, s0)
      | Some _ \<Rightarrow>
          (case ex_lock env of
             None \<Rightarrow> (acquiredFailure, s0)
           | Some lost \<Rightarrow>
               let s1 = ex_others env 1 s0 in
               (case Option.bind (orderRows orderId s1)
                   (\<lambda>rows. map_option (\<lambda>i. (or_order rows, i)) (o_serviceId (or_order rows))) of
                  None \<Rightarrow> (acquiredFailure, s1)
                | Some (ord, serviceId) \<Rightarrow>
                    let s2 = ex_others env 2 s1 in
                    (case Option.bind
                         (find (applied_event COMMERCE_OPERATION_APPLIED_EVENT orderId) (events s2))
                         (\<lambda>e. find (\<lambda>sv. sv_id sv = ev_serviceId e) (services s2)) of
                       Some service \<Rightarrow> (Executed REPLAY service, s2)
                     | None \<Rightarrow>
                         if o_status ord \<noteq> OrderStatus_PAID then (acquiredFailure, s2)
                         else let s3 = ex_others env 3 s2 in
                           (case operable_target serviceId ord s3 of
                              None \<Rightarrow> refund_and_fail (ex_now env) ord ''operation target unavailable''
                                ''SERVICE_UNAVAILABLE'' (ex_others env 4 s3)
                            | Some (service, panel) \<Rightarrow>
                                apply_operation env lost operation ord service panel s3)))))"

definition executePaidCommerceOrder :: "exec_env \<Rightarrow> string \<Rightarrow> db \<Rightarrow> CommerceExecutionResult \<times> db" where
  "executePaidCommerceOrder env orderId s =
     (case find (\<lambda>ord. o_id ord = orderId) (orders s) of
        None \<Rightarrow> (Busy ''ORDER_NOT_FOUND'', s)
      | Some head \<Rightarrow>
          (case o_type head of
             OrderType_SERVICE_PURCHASE \<Rightarrow> provisionPaidOrder env orderId s
           | OrderType_SERVICE_RENEWAL \<Rightarrow> executeServiceOperation env orderId RENEWAL s
           | OrderType_EXTRA_VOLUME \<Rightarrow> executeServiceOperation env orderId EXTRA_VOLUME s
           | OrderType_EXTRA_TIME \<Rightarrow> executeServiceOperation env orderId EXTRA_TIME s
           | _ \<Rightarrow> (Busy ''ORDER_TYPE_UNSUPPORTED'', s)))"

section \<open>Reconciliation\<close>

text \<open>The row adopted from an account the panel turned out to have.\<close>

definition adopted_service ::
  "int \<Rightarrow> order_rows \<Rightarrow> panel_row \<Rightarrow> string \<Rightarrow> remote_account \<Rightarrow> string \<Rightarrow> service_row" where
  "adopted_service now rows panel username remote i =
     (let ord = or_order rows; volumeGb = first_of [o_volumeGbSnapshot ord] 0 in
      \<lparr>sv_id = i, sv_userId = o_userId ord, sv_orderId = Some (o_id ord), sv_panelId = pn_id panel,
       sv_productId = o_productId ord, sv_panelType = pn_type panel,
       sv_username = first_of [rm_username remote] username, sv_note = None, sv_userNote = None,
       sv_status = ServiceStatus_ACTIVE, sv_source = ServiceSource_PAID,
       sv_serviceLocation = first_of [Option.bind (or_product rows) pr_serviceLocation]
         ServiceLocation_MULTI_LOCATION,
       sv_convertedToPaidAt = None, sv_firstPaidOrderId = None,
       sv_productNameSnapshot = o_productNameSnapshot ord,
       sv_panelNameSnapshot = o_panelNameSnapshot ord,
       sv_volumeBytes = field_or (rm_totalBytes remote) (volumeGb * GIB),
       sv_usedBytes = first_of [rm_usedBytes remote] 0,
       sv_remainingBytes = field_or (rm_remainingBytes remote) 0,
       sv_durationDays = first_of [o_durationDaysSnapshot ord] 0, sv_startsAt = now,
       sv_expiresAt = field_opt (rm_expiresAt remote),
       sv_subscriptionUrl = rm_subscriptionUrl remote,
       sv_subscriptionToken = rm_subscriptionToken remote,
       sv_configLinks = links_json (rm_configLinks remote), sv_remoteClientId = None,
       sv_remoteInboundIds = None, sv_remoteMetadata = None, sv_createdAt = now, sv_deletedAt = None\<rparr>)"

definition reconcile_purchase ::
  "exec_env \<Rightarrow> order_rows \<Rightarrow> db \<Rightarrow> CommerceExecutionResult \<times> db" where
  "reconcile_purchase env rows s =
     (let now = ex_now env; ord = or_order rows in
      case (or_panel rows, stringField (captured_of rows) ''serviceUsername'') of
        (Some panel, Some username) \<Rightarrow>
          (case ex_lock env of
             None \<Rightarrow> (acquiredFailure, s)
           | Some _ \<Rightarrow>
               (case ex_build env panel of
                  None \<Rightarrow> (ExecutionThrows (Thrown AdapterUnavailable), s)
                | Some adapter \<Rightarrow>
                    let reply = ad_getServiceAccount adapter username (normalizeSubscriptionBase panel);
                        s1 = ex_others env 1 s
                    in (case reply of
                          RemoteThrew \<Rightarrow> (ExecutionThrows (Thrown AdapterUnavailable), s1)
                        | RemoteFailed uncertain message absent \<Rightarrow>
                            if absent then refund_and_fail now ord ''reconciliation proved account absent''
                              ''REMOTE_ABSENT'' s1
                            else (ReconciliationRequired ''REMOTE_READ_UNCERTAIN'', s1)
                        | RemoteOk remote \<Rightarrow>
                            run_execution ALREADY_CONVERGED
                              (persist_new_service now (o_id ord)
                                 (adopted_service now rows panel username remote)
                                 (complete_any now (o_id ord))) s1)))
      | _ \<Rightarrow> (acquiredFailure, s))"

text \<open>What the panel shows is compared with the intent: total bytes or expiry as expected.\<close>

definition bytes_text :: "remote_account \<Rightarrow> string option" where
  "bytes_text remote = map_option show_int (field_opt (rm_totalBytes remote))"

definition expiry_text :: "remote_account \<Rightarrow> string option" where
  "expiry_text remote = map_option toISOString (field_opt (rm_expiresAt remote))"

definition bytes_as_expected :: "json_obj \<Rightarrow> remote_account \<Rightarrow> bool" where
  "bytes_as_expected meta remote \<longleftrightarrow>
     stringField meta ''expectedTotalBytes'' \<noteq> None
     \<and> bytes_text remote = stringField meta ''expectedTotalBytes''"

definition judged_applied :: "json_obj \<Rightarrow> remote_account \<Rightarrow> bool" where
  "judged_applied meta remote \<longleftrightarrow>
     bytes_as_expected meta remote
     \<or> stringField meta ''expectedExpiresAt'' \<noteq> None
       \<and> expiry_text remote = stringField meta ''expectedExpiresAt''"

text \<open>A null or undefined total is equal to no stored text.\<close>

definition judged_unchanged :: "json_obj \<Rightarrow> remote_account \<Rightarrow> bool" where
  "judged_unchanged meta remote \<longleftrightarrow>
     bytes_text remote \<noteq> None \<and> stringField meta ''beforeTotalBytes'' = bytes_text remote
     \<and> stringField meta ''beforeExpiresAt'' = expiry_text remote"

definition reconciled_service :: "remote_account \<Rightarrow> service_row \<Rightarrow> service_row" where
  "reconciled_service remote sv =
     sv\<lparr>sv_volumeBytes := (case rm_totalBytes remote of
          Undefined \<Rightarrow> sv_volumeBytes sv | Null \<Rightarrow> 0 | Value n \<Rightarrow> n),
        sv_remainingBytes := (case rm_remainingBytes remote of
          Undefined \<Rightarrow> sv_remainingBytes sv | Null \<Rightarrow> 0 | Value n \<Rightarrow> n),
        sv_usedBytes := first_of [rm_usedBytes remote] (sv_usedBytes sv),
        sv_expiresAt := (case rm_expiresAt remote of
          Undefined \<Rightarrow> sv_expiresAt sv | Null \<Rightarrow> None | Value t \<Rightarrow> Some t)\<rparr>"

text \<open>Unless the bytes decide, the expiry is printed, which throws on an invalid date.\<close>

definition reconcile_applied ::
  "exec_env \<Rightarrow> order_row \<Rightarrow> event_row \<Rightarrow> service_row \<Rightarrow> remote_account \<Rightarrow> db \<Rightarrow>
   CommerceExecutionResult \<times> db" where
  "reconcile_applied env ord intent service remote s =
     (let now = ex_now env; meta = ev_metadata intent in
      if \<not> bytes_as_expected meta remote \<and> \<not> valid_expiry (field_opt (rm_expiresAt remote))
      then (ExecutionThrows (Thrown InvalidDate), s)
      else if judged_applied meta remote then
        run_execution ALREADY_CONVERGED
          (persist_operation now service ord [(''orderId'', JStr (o_id ord)), (''reconciled'', JBool True)]
             (reconciled_service remote) (complete_any now (o_id ord))) s
      else if judged_unchanged meta remote
      then refund_and_fail now ord ''reconciliation proved operation absent'' ''REMOTE_UNCHANGED'' s
      else (ReconciliationRequired ''REMOTE_STATE_AMBIGUOUS'', s))"

text \<open>The newest intent of the order; the table is in creation order.\<close>

definition reconcile_operation ::
  "exec_env \<Rightarrow> order_row \<Rightarrow> db \<Rightarrow> CommerceExecutionResult \<times> db" where
  "reconcile_operation env ord s =
     (case (find (applied_event COMMERCE_OPERATION_INTENT_EVENT (o_id ord)) (rev (events s)), o_serviceId ord) of
        (Some intent, Some serviceId) \<Rightarrow>
          let s1 = ex_others env 1 s in
          (case Option.bind (find (\<lambda>sv. sv_id sv = serviceId \<and> sv_userId sv = o_userId ord) (services s1))
               (\<lambda>sv. map_option (\<lambda>pn. (sv, pn)) (panel_of s1 sv)) of
             None \<Rightarrow> (acquiredFailure, s1)
           | Some (service, panel) \<Rightarrow>
               (case ex_lock env of
                  None \<Rightarrow> (acquiredFailure, s1)
                | Some _ \<Rightarrow>
                    (case ex_build env panel of
                       None \<Rightarrow> (ExecutionThrows (Thrown AdapterUnavailable), s1)
                     | Some adapter \<Rightarrow>
                         let s2 = ex_others env 2 s1 in
                         (case ad_getServiceAccount adapter (sv_username service)
                             (normalizeSubscriptionBase panel) of
                            RemoteThrew \<Rightarrow> (ExecutionThrows (Thrown AdapterUnavailable), s2)
                          | RemoteFailed _ _ _ \<Rightarrow> (ReconciliationRequired ''REMOTE_READ_UNCERTAIN'', s2)
                          | RemoteOk remote \<Rightarrow> reconcile_applied env ord intent service remote s2))))
      | _ \<Rightarrow> (acquiredFailure, s))"

definition reconcileCommerceOrder :: "exec_env \<Rightarrow> string \<Rightarrow> db \<Rightarrow> CommerceExecutionResult \<times> db" where
  "reconcileCommerceOrder env orderId s =
     (case orderRows orderId s of
        None \<Rightarrow> (acquiredFailure, s)
      | Some rows \<Rightarrow>
          if o_status (or_order rows) \<noteq> OrderStatus_PROVISIONING then (acquiredFailure, s)
          else if o_type (or_order rows) = OrderType_SERVICE_PURCHASE
          then reconcile_purchase env rows (ex_others env 0 s)
          else reconcile_operation env (or_order rows) (ex_others env 0 s))"

section \<open>The sweep\<close>

definition stale_commerce_order :: "int \<Rightarrow> order_row \<Rightarrow> bool" where
  "stale_commerce_order olderThan ord \<longleftrightarrow>
     o_status ord = OrderStatus_PROVISIONING
     \<and> o_type ord \<in> {OrderType_SERVICE_PURCHASE, OrderType_SERVICE_RENEWAL, OrderType_EXTRA_VOLUME,
         OrderType_EXTRA_TIME}
     \<and> o_updatedAt ord < olderThan"

text \<open>An exception of one order ends the sweep: the orders after it are not reconciled.\<close>

fun sweep_orders ::
  "(string \<Rightarrow> exec_env) \<Rightarrow> string list \<Rightarrow> db \<Rightarrow>
   (exec_exn thrown + (string \<times> CommerceExecutionResult) list) \<times> db" where
  "sweep_orders env [] s = (Inr [], s)"
| "sweep_orders env (i # is) s =
     (case reconcileCommerceOrder (env i) i s of
        (ExecutionThrows e, s') \<Rightarrow> (Inl e, s')
      | (result, s') \<Rightarrow>
          (case sweep_orders env is s' of
             (Inl e, s'') \<Rightarrow> (Inl e, s'')
           | (Inr results, s'') \<Rightarrow> (Inr ((i, result) # results), s'')))"

definition stale_order_ids :: "int \<Rightarrow> int \<Rightarrow> db \<Rightarrow> string list" where
  "stale_order_ids olderThan limit s =
     map o_id (take (nat (max 1 (min limit 100)))
       (sort_key o_updatedAt (filter (stale_commerce_order olderThan) (orders s))))"

definition reconcileStaleCommerceOrders ::
  "(string \<Rightarrow> exec_env) \<Rightarrow> int \<Rightarrow> int \<Rightarrow> db \<Rightarrow>
   (exec_exn thrown + (string \<times> CommerceExecutionResult) list) \<times> db" where
  "reconcileStaleCommerceOrders env olderThan limit s =
     sweep_orders env (stale_order_ids olderThan limit s) s"

section \<open>The refund\<close>

definition one_refund :: "db \<Rightarrow> bool" where
  "one_refund s \<longleftrightarrow> (\<forall>i. count_where (refund_of i) (wallet_txs s) \<le> 1)"

definition failed :: "int \<Rightarrow> string \<Rightarrow> order_row \<Rightarrow> order_row" where
  "failed now reason ord = ord\<lparr>o_status := OrderStatus_FAILED,
     o_failureReason := Some (take 500 reason), o_updatedAt := now\<rparr>"

definition refundable :: "string \<Rightarrow> order_row \<Rightarrow> bool" where
  "refundable i = has_status i [OrderStatus_PAID, OrderStatus_PROVISIONING]"

lemma credit_refund_Inr:
  assumes "credit_refund now ord s = Inr ((), s')"
  shows "\<exists>u i. find (\<lambda>u. u_id u = o_userId ord) (users s') = Some u
    \<and> users s' = update_where (\<lambda>u. u_id u = o_userId ord) (credited (o_finalPriceToman ord)) (users s)
    \<and> wallet_txs s' = wallet_txs s @ [refund_row now ord (u_balanceToman u) i]
    \<and> orders s' = orders s \<and> services s' = services s \<and> reservations s' = reservations s
    \<and> events s' = events s"
proof -
  obtain n s1 u row s2 where u1: "(update_users (\<lambda>u. u_id u = o_userId ord) (credited (o_finalPriceToman ord)) :: (exec_exn, nat) tx) s = Inr (n, s1)"
    and f: "find (\<lambda>u. u_id u = o_userId ord) (users s1) = Some u"
    and c: "(create_wallet_tx (refund_row now ord (u_balanceToman u) (uuids s1 (drawn s1))) :: (exec_exn, wallet_tx_row) tx)
        (s1\<lparr>drawn := Suc (drawn s1)\<rparr>) = Inr (row, s2)"
    and w: "onWalletBalanceChanged now
        \<lparr>oa_userId = o_userId ord, oa_balanceBeforeToman = Some (u_balanceToman u - o_finalPriceToman ord),
         oa_balanceAfterToman = u_balanceToman u\<rparr> s2 = (Inr ((), s') :: exec_exn thrown + unit \<times> db)"
    using assms by (auto simp: credit_refund_def Let_def tx_bind_Inr tx_read_Inr tx_some_Inr tx_do_Inr draw_id_def)
  have o: "only_alerts s2 s'" by (rule post_Inr [OF onWalletBalanceChanged_frame w])
  have s2: "s2 = s1\<lparr>drawn := Suc (drawn s1),
      wallet_txs := wallet_txs s1 @ [refund_row now ord (u_balanceToman u) (uuids s1 (drawn s1))]\<rparr>"
    using c by (auto simp: create_wallet_tx_def split: if_splits)
  have s1: "s1 = s\<lparr>users := update_where (\<lambda>u. u_id u = o_userId ord) (credited (o_finalPriceToman ord)) (users s)\<rparr>"
    using u1 by (auto simp: update_users_def split: if_splits)
  show ?thesis using f only_alerts_keeps [OF o] by (auto simp: s2 s1)
qed

lemma flipped_orders:
  "update_orders now (has_status i [OrderStatus_PAID, OrderStatus_PROVISIONING])
     (\<lambda>x. x\<lparr>o_status := OrderStatus_FAILED, o_failureReason := Some (take 500 reason)\<rparr>) s =
   (count_where (refundable i) (orders s),
    s\<lparr>orders := update_where (refundable i) (failed now reason) (orders s)\<rparr>)"
  by (simp add: update_orders_def refundable_def failed_def [abs_def])

lemma refundDefinite_Inr:
  assumes "refundDefinite now ord reason s = Inr (b, s')"
  defines "existing \<equiv> \<exists>t \<in> set (wallet_txs s). refund_of (o_id ord) t"
    and "flipped \<equiv> count_where (refundable (o_id ord)) (orders s) = 1"
  shows "orders s' = update_where (refundable (o_id ord)) (failed now reason) (orders s)
    \<and> services s' = services s \<and> events s' = events s
    \<and> (b \<longleftrightarrow> existing \<or> flipped)
    \<and> (if \<not> existing \<and> flipped
       then reservations s' = reservations (releaseReservationForFailedOrder (o_id ord) (o_checkoutSessionId ord) now s)
       else reservations s' = reservations s)
    \<and> (if \<not> existing \<and> flipped \<and> 0 < o_finalPriceToman ord
       then \<exists>u i. find (\<lambda>u. u_id u = o_userId ord) (users s') = Some u
         \<and> users s' = update_where (\<lambda>u. u_id u = o_userId ord) (credited (o_finalPriceToman ord)) (users s)
         \<and> wallet_txs s' = wallet_txs s @ [refund_row now ord (u_balanceToman u) i]
       else users s' = users s \<and> wallet_txs s' = wallet_txs s)"
proof -
  let ?s = "s\<lparr>orders := update_where (refundable (o_id ord)) (failed now reason) (orders s)\<rparr>"
  let ?r = "releaseReservationForFailedOrder (o_id ord) (o_checkoutSessionId ord) now ?s"
  have run: "(if existing then tx_return True
      else if count_where (refundable (o_id ord)) (orders s) \<noteq> 1 then tx_return False
      else tx_then (tx_write (releaseReservationForFailedOrder (o_id ord) (o_checkoutSessionId ord) now))
        (if o_finalPriceToman ord \<le> 0 then tx_return True
         else tx_then (credit_refund now ord) (tx_return True))) ?s = Inr (b, s')"
    using assms(1) unfolding refundDefinite_def existing_def
    by (simp add: tx_bind_def tx_do_def tx_read_def flipped_orders)
  have r: "?r = ?s\<lparr>reservations := reservations (releaseReservationForFailedOrder (o_id ord) (o_checkoutSessionId ord) now s)\<rparr>"
    by (simp add: releaseReservationForFailedOrder_def update_reservations_def)
  show ?thesis
  proof (cases "\<not> existing \<and> flipped \<and> 0 < o_finalPriceToman ord")
    case True
    then have "credit_refund now ord ?r = Inr ((), s') \<and> b"
      using run by (simp add: flipped_def tx_then_Inr tx_write_Inr tx_return_Inr)
    with credit_refund_Inr [of now ord ?r s'] True show ?thesis by (auto simp: r)
  next
    case False
    then have "s' = (if \<not> existing \<and> flipped then ?r else ?s) \<and> b = (existing \<or> flipped)"
      using run by (auto simp: flipped_def tx_then_Inr tx_write_Inr tx_return_Inr split: if_splits)
    then show ?thesis using False by (auto simp: r)
  qed
qed

lemma refund_keeps_one:
  assumes "refundDefinite now ord reason s = Inr (b, s')" and "one_refund s"
  shows "one_refund s'"
proof -
  note r = refundDefinite_Inr [OF assms(1)]
  show ?thesis
  proof (cases "wallet_txs s' = wallet_txs s")
    case True
    then show ?thesis using assms(2) by (simp add: one_refund_def)
  next
    case False
    then have c: "\<not> (\<exists>t \<in> set (wallet_txs s). refund_of (o_id ord) t)
        \<and> count_where (refundable (o_id ord)) (orders s) = 1 \<and> 0 < o_finalPriceToman ord"
      using r by presburger
    then have "\<exists>u i. find (\<lambda>u. u_id u = o_userId ord) (users s') = Some u
        \<and> users s' = update_where (\<lambda>u. u_id u = o_userId ord) (credited (o_finalPriceToman ord)) (users s)
        \<and> wallet_txs s' = wallet_txs s @ [refund_row now ord (u_balanceToman u) i]"
      using r by presburger
    then obtain u :: user_row and i
      where w: "wallet_txs s' = wallet_txs s @ [refund_row now ord (u_balanceToman u) i]" by blast
    note none = conjunct1 [OF c]
    have "count_where (refund_of (o_id ord)) (wallet_txs s) = 0" using none by (simp add: count_where_0)
    moreover have "refund_of k (refund_row now ord (u_balanceToman u) i) \<longleftrightarrow> k = o_id ord" for k
      by (auto simp: refund_of_def refund_row_def)
    ultimately show ?thesis using assms(2) w
      by (auto simp: one_refund_def count_where_append count_where_single)
  qed
qed

text \<open>
  C7. A definite refund pays once. When it reports success on an order nobody refunded before, the
  order was the one row still paid or in provisioning and is now failed with the reason, and a
  positive price went back: the buyer's balance and refunded total rise by exactly the price and one
  ledger row records it, with the balance before and after. Running it again reports success and
  changes no balance, no ledger row and no reservation.
\<close>

theorem definite_refund_pays_once:
  assumes "run_transaction (refundDefinite now ord reason) s = (Inr True, s')"
    and "unique_by u_id (users s)" and "unique_by o_id (orders s)"
    and "\<not> (\<exists>t \<in> set (wallet_txs s). refund_of (o_id ord) t)" and "0 < o_finalPriceToman ord"
  shows "(\<exists>x. find (\<lambda>x. o_id x = o_id ord) (orders s) = Some x
        \<and> o_status x \<in> {OrderStatus_PAID, OrderStatus_PROVISIONING}
        \<and> find (\<lambda>x. o_id x = o_id ord) (orders s') = Some (failed now reason x))
    \<and> (\<exists>u u' i. find (\<lambda>u. u_id u = o_userId ord) (users s) = Some u
        \<and> find (\<lambda>u. u_id u = o_userId ord) (users s') = Some u'
        \<and> u_balanceToman u' = u_balanceToman u + o_finalPriceToman ord
        \<and> u_totalRefundedToman u' = u_totalRefundedToman u + o_finalPriceToman ord
        \<and> wallet_txs s' = wallet_txs s @ [refund_row now ord (u_balanceToman u') i])
    \<and> (\<exists>s''. run_transaction (refundDefinite now' ord reason') s' = (Inr True, s'')
        \<and> users s'' = users s' \<and> wallet_txs s'' = wallet_txs s' \<and> reservations s'' = reservations s')"
proof -
  have run: "refundDefinite now ord reason s = Inr (True, s')"
    using assms(1) by (auto simp: run_transaction_def split: sum.splits)
  note r = refundDefinite_Inr [OF run]
  have fl: "count_where (refundable (o_id ord)) (orders s) = 1" using r assms(4) by auto
  obtain u' i where u': "find (\<lambda>u. u_id u = o_userId ord) (users s') = Some u'"
    and us: "users s' = update_where (\<lambda>u. u_id u = o_userId ord) (credited (o_finalPriceToman ord)) (users s)"
    and w: "wallet_txs s' = wallet_txs s @ [refund_row now ord (u_balanceToman u') i]"
    using r fl assms(4,5) by auto
  have "find (\<lambda>u. u_id u = o_userId ord) (users s') =
      map_option (\<lambda>u. if u_id u = o_userId ord then credited (o_finalPriceToman ord) u else u)
        (find (\<lambda>u. u_id u = o_userId ord) (users s))"
    unfolding us by (rule find_update_where) (simp add: credited_def)
  then obtain u where u: "find (\<lambda>u. u_id u = o_userId ord) (users s) = Some u"
    and cr: "u' = credited (o_finalPriceToman ord) u"
    using u' by (cases "find (\<lambda>u. u_id u = o_userId ord) (users s)") (auto dest: find_Some_in)
  have "refundable (o_id ord) = (\<lambda>x. o_id x = o_id ord \<and> o_status x \<in> {OrderStatus_PAID, OrderStatus_PROVISIONING})"
    by (simp add: refundable_def has_status_def [abs_def])
  then obtain x where x: "find (\<lambda>x. o_id x = o_id ord) (orders s) = Some x"
    "o_status x \<in> {OrderStatus_PAID, OrderStatus_PROVISIONING}"
    using fl count_where_key [OF assms(3), of "o_id ord"] by (auto split: option.splits if_splits)
  have "find (\<lambda>x. o_id x = o_id ord) (orders s') =
      map_option (\<lambda>x. if refundable (o_id ord) x then failed now reason x else x)
        (find (\<lambda>x. o_id x = o_id ord) (orders s))"
    unfolding r [THEN conjunct1] by (rule find_update_where) (simp add: failed_def)
  moreover have "refundable (o_id ord) x"
    using x find_Some_in [OF x(1)] by (simp add: refundable_def has_status_def)
  moreover have ex: "\<exists>t \<in> set (wallet_txs s'). refund_of (o_id ord) t"
    using w by (simp add: refund_of_def refund_row_def)
  have "refundDefinite now' ord reason' s' =
      Inr (True, s'\<lparr>orders := update_where (refundable (o_id ord)) (failed now' reason') (orders s')\<rparr>)"
    using ex unfolding refundDefinite_def
    by (simp add: tx_bind_def tx_do_def tx_read_def tx_return_def flipped_orders)
  ultimately show ?thesis
    using x u u' cr w by (auto simp: credited_def run_transaction_def intro!: exI [of _ i])
qed

section \<open>Only the refund touches money\<close>

definition same_money :: "db \<Rightarrow> db \<Rightarrow> bool" where
  "same_money s s' \<longleftrightarrow> users s' = users s \<and> wallet_txs s' = wallet_txs s"

lemma same_money_refl [simp]: "same_money s s"
  by (simp add: same_money_def)

lemma same_money_trans: "same_money s t \<Longrightarrow> same_money t v \<Longrightarrow> same_money s v"
  by (simp add: same_money_def)

lemma post_case_option [tx_rules]:
  "post (case x of None \<Rightarrow> m | Some a \<Rightarrow> f a) s Q =
     ((x = None \<longrightarrow> post m s Q) \<and> (\<forall>a. x = Some a \<longrightarrow> post (f a) s Q))"
  by (cases x) simp_all

lemma post_update_services [tx_rules]:
  "post (update_services P f) s Q =
     ((\<forall>sv \<in> set (services s). P sv \<longrightarrow> service_in_range (f sv)) \<longrightarrow>
      Q (count_where P (services s)) (s\<lparr>services := update_where P f (services s)\<rparr>))"
  by (auto simp: post_def update_services_def)

lemma post_log_event [tx_rules]:
  "post (log_event sv u ty meta) s Q =
     (let e = service_event sv u ty meta (uuids s (drawn s)) in
      fk sv_id (services s) (Some (ev_serviceId e)) \<and> fk u_id (users s) (Some (ev_userId e))
      \<and> fk pn_id (panels s) (Some (ev_panelId e)) \<longrightarrow>
      Q () (s\<lparr>drawn := Suc (drawn s), events := events s @ [e]\<rparr>))"
  by (simp add: log_event_def tx_rules draw_id_def Let_def)

lemma update_orders_simps [simp]:
  "fst (update_orders now P f s) = count_where P (orders s)"
  "snd (update_orders now P f s) =
     s\<lparr>orders := update_where P (\<lambda>ord. (f ord)\<lparr>o_updatedAt := now\<rparr>) (orders s)\<rparr>"
  by (simp_all add: update_orders_def)

lemma consume_money [simp]:
  "users (consumeReservationForOrder i j k now s) = users s"
  "wallet_txs (consumeReservationForOrder i j k now s) = wallet_txs s"
  "orders (consumeReservationForOrder i j k now s) = orders s"
  "services (consumeReservationForOrder i j k now s) = services s"
  "events (consumeReservationForOrder i j k now s) = events s"
  by (simp_all add: consumeReservationForOrder_def update_reservations_def)

lemma complete_money:
  "post (tx_count (complete_provisioning now i)) s (\<lambda>_. same_money s)"
  "post (complete_any now i) s (\<lambda>_. same_money s)"
  by (simp_all add: tx_count_def complete_any_def complete_provisioning_def tx_rules same_money_def)

lemma persist_new_service_money:
  assumes "\<And>s. post complete s (\<lambda>_. same_money s)"
  shows "post (persist_new_service now i b complete) s (\<lambda>_. same_money s)"
proof -
  have "post complete t (\<lambda>_. same_money s)" if "same_money s t" for t
    by (rule post_mono [OF assms]) (rule same_money_trans [OF that])
  then show ?thesis
    by (auto simp: persist_new_service_def tx_rules draw_id_def) (simp add: same_money_def)
qed

lemma convertTrial_money: "post (convertTrial sv i now) s (\<lambda>_. same_money s)"
  by (simp add: convertTrial_def tx_rules same_money_def Let_def)

lemma persist_operation_money:
  assumes "\<And>s. post complete s (\<lambda>_. same_money s)"
  shows "post (persist_operation now sv ord meta f complete) s (\<lambda>_. same_money s)"
proof -
  have c: "post complete t (\<lambda>_ v. post (convertTrial sv (o_id ord) now) v (\<lambda>_. same_money s))"
    if "same_money s t" for t
    using assms [of t] by (rule post_mono)
      (rule post_mono [OF convertTrial_money], use that in \<open>auto intro: same_money_trans\<close>)
  show ?thesis
    by (simp add: persist_operation_def tx_rules Let_def)
      (intro allI impI c, simp add: same_money_def)
qed

lemma claim_operation_money: "post (claim_operation now oper sv ord target) s (\<lambda>_. same_money s)"
  by (simp add: claim_operation_def claim_order_def tx_rules same_money_def Let_def)

text \<open>
  A call whose steps keep an invariant keeps it: the interleaved processes, the refund, and the
  bodies that leave the money alone.
\<close>

lemma run_execution_post:
  assumes "post m s (\<lambda>_. I)" and "I s"
  shows "I (snd (run_execution c m s))"
  using run_transaction_invariant [OF assms]
  by (auto simp: run_execution_def split: prod.split sum.split)

lemma refund_and_fail_one_refund: "one_refund s \<Longrightarrow> one_refund (snd (refund_and_fail now ord reason code s))"
  by (auto simp: refund_and_fail_def run_transaction_def refund_keeps_one split: sum.split prod.split)

lemma same_money_one_refund: "same_money s s' \<Longrightarrow> one_refund s \<Longrightarrow> one_refund s'"
  by (simp add: same_money_def one_refund_def)

lemma post_one_refund:
  "post m s (\<lambda>_. same_money s) \<Longrightarrow> one_refund s \<Longrightarrow> post m s (\<lambda>_. one_refund)"
  by (erule post_mono) (erule same_money_one_refund)

lemma run_execution_one_refund:
  "post m s (\<lambda>_. same_money s) \<Longrightarrow> one_refund s \<Longrightarrow> one_refund (snd (run_execution c m s))"
  by (rule run_execution_post [OF post_one_refund])

text \<open>What a step of a call may do to an invariant of the ledger; the others keep it.\<close>

definition keeps :: "(db \<Rightarrow> bool) \<Rightarrow> (nat \<Rightarrow> db \<Rightarrow> db) \<Rightarrow> bool" where
  "keeps I others \<longleftrightarrow> (\<forall>n s. I s \<longrightarrow> I (others n s))"

lemma after_remote_one_refund:
  assumes "keeps one_refund (ex_others env)" and "one_refund s"
    and "\<And>remote s. post (persist remote) s (\<lambda>_. same_money s)"
  shows "one_refund (snd (after_remote env lost ord reply persist n s))"
proof -
  have "one_refund (ex_others env n s)" using assms(1,2) by (simp add: keeps_def)
  then show ?thesis
    using run_execution_post [OF post_one_refund [OF assms(3)]] refund_and_fail_one_refund
    by (auto simp: after_remote_def Let_def split: remote_reply.split)
qed

lemma claim_order_keeps:
  "snd (claim_order now i s) = s\<lparr>orders := orders (snd (claim_order now i s))\<rparr>"
  by (simp add: claim_order_def)

lemma orders_one_refund [simp]: "one_refund (s\<lparr>orders := x\<rparr>) = one_refund s"
  by (simp add: one_refund_def)

lemma provisionPaidOrder_one_refund:
  assumes "keeps one_refund (ex_others env)" and "one_refund s"
  shows "one_refund (snd (provisionPaidOrder env orderId s))"
proof -
  have o: "one_refund t \<Longrightarrow> one_refund (ex_others env n t)" for n t
    using assms(1) by (simp add: keeps_def)
  have l: "one_refund (snd (provision_locked env lost rows product panel username t))" if "one_refund t" for lost rows product panel username t
    using that o
    by (auto simp: provision_locked_def Let_def claim_order_def update_orders_def split: option.split
        intro!: after_remote_one_refund [OF assms(1)] persist_new_service_money complete_money)
  show ?thesis
    using assms(2) o l refund_and_fail_one_refund
    by (auto simp: provisionPaidOrder_def Let_def split: option.split prod.split)
qed

lemma apply_operation_one_refund:
  assumes "keeps one_refund (ex_others env)" and "one_refund s"
  shows "one_refund (snd (apply_operation env lost oper ord sv pn s))"
proof -
  have s: "one_refund (ex_others env 5 s)" using assms by (simp add: keeps_def)
  have c: "one_refund t" if "run_transaction (claim_operation now oper sv ord target) (ex_others env 5 s) = (x, t)"
    for now target x t
    using run_transaction_invariant [OF post_one_refund [OF claim_operation_money s] s] that
    by (metis snd_conv)
  show ?thesis
    using s c refund_and_fail_one_refund
    by (auto simp: apply_operation_def Let_def split: option.split prod.split sum.split
        intro!: after_remote_one_refund [OF assms(1)] persist_operation_money complete_money)
qed

lemma executeServiceOperation_one_refund:
  assumes "keeps one_refund (ex_others env)" and "one_refund s"
  shows "one_refund (snd (executeServiceOperation env orderId oper s))"
proof -
  have o: "one_refund t \<Longrightarrow> one_refund (ex_others env n t)" for n t
    using assms(1) by (simp add: keeps_def)
  show ?thesis
    using assms(2) o refund_and_fail_one_refund apply_operation_one_refund [OF assms(1)]
    by (auto simp: executeServiceOperation_def Let_def split: option.split prod.split)
qed

lemma reconcile_one_refund:
  assumes "keeps one_refund (ex_others env)" and "one_refund s"
  shows "one_refund (snd (reconcileCommerceOrder env orderId s))"
proof -
  have o: "one_refund t \<Longrightarrow> one_refund (ex_others env n t)" for n t
    using assms(1) by (simp add: keeps_def)
  have p: "one_refund (snd (reconcile_purchase env rows t))" if "one_refund t" for rows t
    using that o refund_and_fail_one_refund
    by (auto simp: reconcile_purchase_def Let_def split: option.split remote_reply.split
        intro!: run_execution_one_refund persist_new_service_money complete_money)
  have a: "one_refund (snd (reconcile_applied env ord e sv remote t))" if "one_refund t" for ord e sv remote t
    using that refund_and_fail_one_refund
    by (auto simp: reconcile_applied_def Let_def
        intro!: run_execution_one_refund persist_operation_money complete_money)
  have q: "one_refund (snd (reconcile_operation env ord t))" if "one_refund t" for ord t
    using that o a
    by (auto simp: reconcile_operation_def Let_def split: option.split prod.split remote_reply.split)
  show ?thesis
    using assms(2) o p q by (auto simp: reconcileCommerceOrder_def split: option.split)
qed

text \<open>
  C8. No order is refunded twice: with at most one refund row per order before, there is at most
  one after executing an order, after reconciling one, and after a whole sweep, on every path and
  whatever other processes that respect this do in between.
\<close>

theorem no_order_is_refunded_twice:
  assumes "one_refund s" and "keeps one_refund (ex_others env)"
    and "\<And>i. keeps one_refund (ex_others (envs i))"
  shows "one_refund (snd (executePaidCommerceOrder env orderId s))
    \<and> one_refund (snd (reconcileCommerceOrder env orderId s))
    \<and> one_refund (snd (reconcileStaleCommerceOrders envs olderThan limit s))"
proof (intro conjI)
  show "one_refund (snd (executePaidCommerceOrder env orderId s))"
    using assms provisionPaidOrder_one_refund executeServiceOperation_one_refund
    by (auto simp: executePaidCommerceOrder_def split: option.split OrderType.split)
  show "one_refund (snd (reconcileCommerceOrder env orderId s))"
    using assms by (simp add: reconcile_one_refund)
  have "one_refund (snd (sweep_orders envs is s))" for "is"
    using assms(1)
  proof (induction "is" arbitrary: s)
    case (Cons i "is")
    have "one_refund (snd (reconcileCommerceOrder (envs i) i s))"
      using reconcile_one_refund [OF assms(3) Cons.prems] .
    then show ?case
      using Cons.IH by (fastforce split: prod.split CommerceExecutionResult.split sum.split)
  qed simp
  then show "one_refund (snd (reconcileStaleCommerceOrders envs olderThan limit s))"
    by (simp add: reconcileStaleCommerceOrders_def)
qed

section \<open>A call with no interference\<close>

definition quiet :: "exec_env \<Rightarrow> bool" where
  "quiet env \<longleftrightarrow> (\<forall>n s. ex_others env n s = s)"

lemma quietD [simp]: "quiet env \<Longrightarrow> ex_others env n s = s"
  by (simp add: quiet_def)

definition order_at :: "string \<Rightarrow> db \<Rightarrow> order_row option" where
  "order_at i s = find (\<lambda>ord. o_id ord = i) (orders s)"

lemma orderRows_Some: "orderRows i s = Some rows \<Longrightarrow> order_at i s = Some (or_order rows)"
  by (auto simp: orderRows_def order_at_def Let_def)

lemma orderRows_None: "orderRows i s = None \<longleftrightarrow> order_at i s = None"
  by (simp add: orderRows_def order_at_def)

lemma order_at_id: "order_at i s = Some ord \<Longrightarrow> o_id ord = i"
  by (auto simp: order_at_def dest: find_Some_in)

lemma order_at_update:
  assumes "\<And>x. o_id (f x) = o_id x"
  shows "order_at i (s\<lparr>orders := update_where P f (orders s)\<rparr>) =
    map_option (\<lambda>x. if P x then f x else x) (order_at i s)"
  unfolding order_at_def by (simp add: find_update_where assms)

definition provisioning :: "int \<Rightarrow> order_row \<Rightarrow> order_row" where
  "provisioning now ord = ord\<lparr>o_status := OrderStatus_PROVISIONING, o_updatedAt := now\<rparr>"

lemma claim_order_eq:
  "claim_order now i s =
     (count_where (has_status i [OrderStatus_PAID]) (orders s),
      s\<lparr>orders := update_where (has_status i [OrderStatus_PAID]) (provisioning now) (orders s)\<rparr>)"
  by (simp add: claim_order_def update_orders_def to_status_def provisioning_def [abs_def])

lemma claimed_status:
  assumes "claim_order now i s = (1, s')"
  shows "s' = s\<lparr>orders := update_where (has_status i [OrderStatus_PAID]) (provisioning now) (orders s)\<rparr>"
    and "\<exists>x \<in> set (orders s). o_id x = i \<and> o_status x = OrderStatus_PAID"
proof -
  show "s' = s\<lparr>orders := update_where (has_status i [OrderStatus_PAID]) (provisioning now) (orders s)\<rparr>"
    using assms by (simp add: claim_order_eq)
  have "count_where (has_status i [OrderStatus_PAID]) (orders s) \<noteq> 0" using assms by (simp add: claim_order_eq)
  then show "\<exists>x \<in> set (orders s). o_id x = i \<and> o_status x = OrderStatus_PAID"
    by (auto simp: count_where_0 has_status_def)
qed

lemma claimed_order_at:
  assumes "claim_order now i s = (1, s')" and "order_at i s = Some ord" and "o_status ord = OrderStatus_PAID"
  shows "order_at i s' = Some (provisioning now ord)"
  using claimed_status(1) [OF assms(1)] assms(2,3) order_at_id [OF assms(2)]
  by (simp add: order_at_update provisioning_def has_status_def)

text \<open>
  What a call that reached the panel did first: it claimed the order, which was paid.
\<close>

definition claimed_by :: "int \<Rightarrow> string \<Rightarrow> db \<Rightarrow> db \<Rightarrow> bool" where
  "claimed_by now i s t \<longleftrightarrow>
     (\<exists>ord. order_at i s = Some ord \<and> o_status ord = OrderStatus_PAID
        \<and> order_at i t = Some (provisioning now ord))
     \<and> same_money s t \<and> services t = services s \<and> reservations t = reservations s
     \<and> map o_id (orders t) = map o_id (orders s)
     \<and> (\<forall>e \<in> set (events t). e \<in> set (events s) \<or> ev_eventType e = COMMERCE_OPERATION_INTENT_EVENT)"

lemma claim_order_claimed_by:
  assumes "claim_order now i s = (1, t)" and "order_at i s = Some ord" and "o_status ord = OrderStatus_PAID"
  shows "claimed_by now i s t"
  using claimed_order_at [OF assms] assms(2,3) claimed_status(1) [OF assms(1)]
  by (auto simp: claimed_by_def same_money_def map_update_where provisioning_def)

lemma claim_operation_claimed_by:
  assumes "claim_operation now oper sv ord target s = Inr (True, t)"
    and "order_at (o_id ord) s = Some ord" and "o_status ord = OrderStatus_PAID"
  shows "claimed_by now (o_id ord) s t"
proof -
  obtain s1 where c': "(1, s1) = claim_order now (o_id ord) s"
    and l: "log_event sv (o_userId ord) COMMERCE_OPERATION_INTENT_EVENT (intent_metadata oper sv ord target) s1
      = (Inr ((), t) :: exec_exn thrown + unit \<times> db)"
    using assms(1)
    by (auto simp: claim_operation_def tx_bind_Inr tx_do_Inr tx_then_Inr tx_require_Inr tx_return_Inr
        split: if_splits)
  note c = c' [symmetric]
  have "order_at (o_id ord) t = order_at (o_id ord) s1 \<and> same_money s1 t \<and> services t = services s1
      \<and> reservations t = reservations s1 \<and> orders t = orders s1
      \<and> (\<forall>e \<in> set (events t). e \<in> set (events s1) \<or> ev_eventType e = COMMERCE_OPERATION_INTENT_EVENT)"
    using l by (auto simp: log_event_def tx_bind_Inr tx_do_Inr tx_return_Inr draw_id_def create_event_def
        order_at_def same_money_def service_event_def split: if_splits)
  with claim_order_claimed_by [OF c assms(2,3)] show ?thesis
    by (auto simp: claimed_by_def intro: same_money_trans)
qed

lemma run_transaction_Inr: "run_transaction m s = (Inr a, u) \<longleftrightarrow> m s = Inr (a, u)"
  by (auto simp: run_transaction_def split: sum.splits)

lemma refund_and_fail_cases:
  assumes "refund_and_fail now ord reason code s = (r, s')"
  shows "(\<exists>b. r = DefiniteFailure b code \<and> refundDefinite now ord reason s = Inr (b, s'))
    \<or> (\<exists>e. r = ExecutionThrows e \<and> s' = s)"
  using assms by (auto simp: refund_and_fail_def run_transaction_Inr split: sum.splits prod.splits
      dest: run_transaction_rollback)

lemma run_execution_cases:
  assumes "run_execution c m s = (r, s')"
  shows "(\<exists>sv. r = Executed c sv \<and> m s = Inr (sv, s')) \<or> (\<exists>e. r = ExecutionThrows e \<and> s' = s)"
  using assms by (auto simp: run_execution_def run_transaction_Inr split: sum.splits prod.splits
      dest: run_transaction_rollback)

text \<open>The four ways in which a call that reached the panel ends.\<close>

lemma after_remote_quiet:
  assumes "quiet env" and "after_remote env lost ord reply persist n s = (r, s')"
  obtains code where "r = ReconciliationRequired code" and "s' = s"
  | reason code b where "r = DefiniteFailure b code" and "refundDefinite (ex_now env) ord reason s = Inr (b, s')"
  | remote sv where "r = Executed SUCCESS sv" and "persist remote s = Inr (sv, s')"
  | e where "r = ExecutionThrows e" and "s' = s"
  using assms
  by (auto simp: after_remote_def split: remote_reply.splits if_splits
      dest!: run_execution_cases refund_and_fail_cases)

definition new_service_persisted :: "int \<Rightarrow> string \<Rightarrow> service_row \<Rightarrow> db \<Rightarrow> db \<Rightarrow> bool" where
  "new_service_persisted now i sv t s' \<longleftrightarrow>
     (\<exists>b. (\<forall>k. sv_orderId (b k) = Some i) \<and> find (\<lambda>sv. sv_orderId sv = Some i) (services t) = None
        \<and> persist_new_service now i b (tx_count (complete_provisioning now i)) t = Inr (sv, s'))"

definition never_applied :: "string \<Rightarrow> db \<Rightarrow> bool" where
  "never_applied i s \<longleftrightarrow>
     Option.bind (find (applied_event COMMERCE_OPERATION_APPLIED_EVENT i) (events s))
       (\<lambda>e. find (\<lambda>sv. sv_id sv = ev_serviceId e) (services s)) = None"

definition operation_persisted :: "int \<Rightarrow> order_row \<Rightarrow> service_row \<Rightarrow> db \<Rightarrow> db \<Rightarrow> bool" where
  "operation_persisted now ord sv t s' \<longleftrightarrow>
     (\<exists>service meta f. service \<in> set (services t) \<and> (\<forall>x. sv_id (f x) = sv_id x)
        \<and> map_of meta ''orderId'' = Some (JStr (o_id ord))
        \<and> persist_operation now service ord meta f (tx_count (complete_provisioning now (o_id ord))) t
            = Inr (sv, s'))"

text \<open>
  How a call without interference ends, for the outcomes that follow a mutation of the panel.
\<close>

definition after_claim :: "int \<Rightarrow> string \<Rightarrow> db \<Rightarrow> CommerceExecutionResult \<Rightarrow> db \<Rightarrow> bool" where
  "after_claim now i s r s' \<longleftrightarrow>
     (case r of
        ReconciliationRequired _ \<Rightarrow> claimed_by now i s s'
      | Executed SUCCESS sv \<Rightarrow>
          (\<exists>t ord. claimed_by now i s t \<and> order_at i s = Some ord
             \<and> (if o_type ord = OrderType_SERVICE_PURCHASE then new_service_persisted now i sv t s'
                else operation_persisted now ord sv t s' \<and> o_serviceId ord \<noteq> None \<and> never_applied i s))
      | _ \<Rightarrow> True)"

lemma after_claim_simps [simp]:
  "after_claim now i s (Busy code) s'" "after_claim now i s (DefiniteFailure b code) s'"
  "after_claim now i s (ExecutionThrows e) s'" "after_claim now i s (Executed REPLAY sv) s'"
  "after_claim now i s (Executed ALREADY_CONVERGED sv) s'"
  by (simp_all add: after_claim_def)

lemma provision_locked_quiet:
  assumes q: "quiet env" and run: "provision_locked env lost rows product panel username s = (r, s')"
    and at: "order_at (o_id (or_order rows)) s = Some (or_order rows)"
    and paid: "o_status (or_order rows) = OrderStatus_PAID"
    and ty: "o_type (or_order rows) = OrderType_SERVICE_PURCHASE"
  shows "after_claim (ex_now env) (o_id (or_order rows)) s r s'"
proof (cases "find (\<lambda>sv. sv_orderId sv = Some (o_id (or_order rows))) (services s)")
  case (Some x)
  then show ?thesis using run q by (auto simp: provision_locked_def after_claim_def)
next
  case None
  obtain n t where c: "claim_order (ex_now env) (o_id (or_order rows)) s = (n, t)"
    by (cases "claim_order (ex_now env) (o_id (or_order rows)) s")
  show ?thesis
  proof (cases "n = 1 \<and> ex_build env panel \<noteq> None")
    case False
    then show ?thesis using run q None c
      by (auto simp: provision_locked_def Let_def after_claim_def acquiredFailure_def split: if_splits)
  next
    case True
    then obtain adapter where a: "ex_build env panel = Some adapter" by auto
    have cl: "claimed_by (ex_now env) (o_id (or_order rows)) s t"
      using claim_order_claimed_by [OF _ at paid] c True by simp
    have ar: "after_remote env lost (or_order rows)
        (ad_createServiceAccount adapter (create_request (ex_now env) rows product panel username))
        (\<lambda>remote. persist_new_service (ex_now env) (o_id (or_order rows))
           (provisioned_service (ex_now env) rows product panel username remote)
           (tx_count (complete_provisioning (ex_now env) (o_id (or_order rows))))) 5 t = (r, s')"
      using run q None c a True by (simp add: provision_locked_def Let_def)
    show ?thesis
    proof (rule after_remote_quiet [OF q ar])
      fix code assume "r = ReconciliationRequired code" "s' = t"
      then show ?thesis using cl by (simp add: after_claim_def)
    next
      fix remote sv
      assume "r = Executed SUCCESS sv" and p: "persist_new_service (ex_now env) (o_id (or_order rows))
           (provisioned_service (ex_now env) rows product panel username remote)
           (tx_count (complete_provisioning (ex_now env) (o_id (or_order rows)))) t = Inr (sv, s')"
      moreover have "\<forall>k. sv_orderId (provisioned_service (ex_now env) rows product panel username remote k)
          = Some (o_id (or_order rows))"
        by (simp add: provisioned_service_def Let_def)
      moreover have "find (\<lambda>sv. sv_orderId sv = Some (o_id (or_order rows))) (services t) = None"
        using None cl by (simp add: claimed_by_def)
      ultimately have "new_service_persisted (ex_now env) (o_id (or_order rows)) sv t s'"
        unfolding new_service_persisted_def by blast
      with cl at ty \<open>r = _\<close> show ?thesis by (auto simp: after_claim_def)
    qed (auto simp: after_claim_def)
  qed
qed

lemma refund_after_claim: "refund_and_fail now ord reason code s = (r, s') \<Longrightarrow> after_claim now' i t r s'"
  by (auto simp: after_claim_def dest!: refund_and_fail_cases)

lemma provisionPaidOrder_quiet:
  assumes q: "quiet env" and run: "provisionPaidOrder env i s = (r, s')"
  shows "after_claim (ex_now env) i s r s'"
proof (cases "orderRows i s")
  case None
  then show ?thesis using run q by (auto simp: provisionPaidOrder_def acquiredFailure_def)
next
  case (Some rows)
  note at = orderRows_Some [OF Some]
  show ?thesis
  proof (cases "o_type (or_order rows) = OrderType_SERVICE_PURCHASE
      \<and> find (\<lambda>sv. sv_orderId sv = Some i) (services s) = None \<and> or_product rows \<noteq> None \<and> or_panel rows \<noteq> None
      \<and> o_status (or_order rows) = OrderStatus_PAID \<and> stringField (captured_of rows) ''serviceUsername'' \<noteq> None")
    case False
    then show ?thesis using run q Some
      by (auto simp: provisionPaidOrder_def Let_def acquiredFailure_def
          split: option.splits if_splits intro: refund_after_claim)
  next
    case True
    then obtain product panel username where x: "or_product rows = Some product" "or_panel rows = Some panel"
        "stringField (captured_of rows) ''serviceUsername'' = Some username" by auto
    show ?thesis
    proof (cases "stringField (captured_of rows) ''panelId'' = Some (pn_id panel)
        \<and> pn_status panel = PanelStatus_ACTIVE \<and> ex_lock env \<noteq> None")
      case False
      then show ?thesis using run q Some True x
        by (auto simp: provisionPaidOrder_def Let_def acquiredFailure_def
            split: if_splits intro: refund_after_claim)
    next
      case target: True
      then obtain lost where "ex_lock env = Some lost" by auto
      then have "provision_locked env lost rows product panel username s = (r, s')"
        using run q Some True x target by (simp add: provisionPaidOrder_def Let_def)
      from provision_locked_quiet [OF q this] at order_at_id [OF at] True show ?thesis by simp
    qed
  qed
qed

lemma operable_target_in:
  "operable_target serviceId ord s = Some (sv, pn) \<Longrightarrow> sv \<in> set (services s)"
  by (auto simp: operable_target_def split: option.splits if_splits dest: find_Some_in)

lemma apply_operation_quiet:
  assumes q: "quiet env" and run: "apply_operation env lost oper ord service panel s = (r, s')"
    and at: "order_at (o_id ord) s = Some ord" and paid: "o_status ord = OrderStatus_PAID"
    and ty: "o_type ord \<noteq> OrderType_SERVICE_PURCHASE" and sv: "service \<in> set (services s)"
    and new: "o_serviceId ord \<noteq> None" "never_applied (o_id ord) s"
  shows "after_claim (ex_now env) (o_id ord) s r s'"
proof -
  let ?target = "expected oper service ord (ex_now env)"
  let ?claim = "run_transaction (claim_operation (ex_now env) oper service ord ?target) s"
  show ?thesis
  proof (cases "invalid_grant oper service ?target")
    case True
    then show ?thesis using run q by (auto simp: apply_operation_def Let_def intro: refund_after_claim)
  next
    case valid: False
    obtain x t where c: "?claim = (x, t)" by (cases ?claim)
    show ?thesis
    proof (cases "x = Inr True \<and> ex_build env panel \<noteq> None")
      case False
      then show ?thesis using run q valid c
        by (auto simp: apply_operation_def Let_def acquiredFailure_def split: sum.splits if_splits)
    next
      case True
      then obtain adapter where a: "ex_build env panel = Some adapter" by auto
      have "claim_operation (ex_now env) oper service ord ?target s = Inr (True, t)"
        using c True by (simp add: run_transaction_Inr)
      note cl = claim_operation_claimed_by [OF this at paid]
      have "service \<in> set (services t)" using sv cl by (simp add: claimed_by_def)
      have ar: "after_remote env lost ord (mutate adapter oper service panel ?target)
          (\<lambda>remote. persist_operation (ex_now env) service ord
             [(''orderId'', JStr (o_id ord)), (''operation'', JStr (operation_name oper))]
             (applied_service ?target remote)
             (tx_count (complete_provisioning (ex_now env) (o_id ord)))) 6 t = (r, s')"
        using run q valid c a True by (simp add: apply_operation_def Let_def)
      show ?thesis
      proof (rule after_remote_quiet [OF q ar])
        fix code assume "r = ReconciliationRequired code" "s' = t"
        then show ?thesis using cl by (simp add: after_claim_def)
      next
        fix remote sv'
        assume r: "r = Executed SUCCESS sv'"
          and p: "persist_operation (ex_now env) service ord
             [(''orderId'', JStr (o_id ord)), (''operation'', JStr (operation_name oper))]
             (applied_service ?target remote)
             (tx_count (complete_provisioning (ex_now env) (o_id ord))) t = Inr (sv', s')"
        have "\<forall>x. sv_id (applied_service ?target remote x) = sv_id x" by (simp add: applied_service_def)
        moreover have "map_of [(''orderId'', JStr (o_id ord)), (''operation'', JStr (operation_name oper))]
            ''orderId'' = Some (JStr (o_id ord))" by simp
        ultimately have "operation_persisted (ex_now env) ord sv' t s'"
          using p \<open>service \<in> set (services t)\<close> unfolding operation_persisted_def by blast
        then show ?thesis using cl at ty r new by (auto simp: after_claim_def)
      qed auto
    qed
  qed
qed

lemma executeServiceOperation_quiet:
  assumes q: "quiet env" and run: "executeServiceOperation env i oper s = (r, s')"
    and ty: "\<And>ord. order_at i s = Some ord \<Longrightarrow> o_type ord \<noteq> OrderType_SERVICE_PURCHASE"
  shows "after_claim (ex_now env) i s r s'"
proof (cases "orderRows i s")
  case None
  then have "order_at i s = None" by (simp add: orderRows_None)
  then show ?thesis using run q
    by (auto simp: executeServiceOperation_def order_at_def acquiredFailure_def)
next
  case (Some rows)
  let ?ord = "or_order rows"
  note at = orderRows_Some [OF Some]
  show ?thesis
  proof (cases "\<exists>lost serviceId sv pn. ex_lock env = Some lost \<and> o_serviceId ?ord = Some serviceId
      \<and> never_applied i s \<and> o_status ?ord = OrderStatus_PAID \<and> operable_target serviceId ?ord s = Some (sv, pn)")
    case True
    then obtain lost serviceId sv pn where x: "ex_lock env = Some lost" "o_serviceId ?ord = Some serviceId"
      "never_applied i s"
      "o_status ?ord = OrderStatus_PAID" "operable_target serviceId ?ord s = Some (sv, pn)" by blast
    have "apply_operation env lost oper ?ord sv pn s = (r, s')"
      using run q Some x at
      by (simp add: executeServiceOperation_def Let_def order_at_def never_applied_def)
    from apply_operation_quiet [OF q this _ x(4) _ operable_target_in [OF x(5)]]
    show ?thesis using at ty order_at_id [OF at] x(2,3) by simp
  next
    case False
    then show ?thesis using run q Some at
      by (auto simp: executeServiceOperation_def Let_def order_at_def acquiredFailure_def never_applied_def
          split: option.splits if_splits intro: refund_after_claim)
  qed
qed

lemma executePaidCommerceOrder_quiet:
  assumes q: "quiet env" and run: "executePaidCommerceOrder env i s = (r, s')"
  shows "after_claim (ex_now env) i s r s'"
proof (cases "order_at i s")
  case None
  then show ?thesis using run by (auto simp: executePaidCommerceOrder_def order_at_def)
next
  case (Some ord)
  then have "after_claim (ex_now env) i s r s'"
    if "executeServiceOperation env i oper s = (r, s')" "o_type ord \<noteq> OrderType_SERVICE_PURCHASE" for oper
    using executeServiceOperation_quiet [OF q that(1)] that(2) by simp
  then show ?thesis
    using run Some provisionPaidOrder_quiet [OF q]
    by (cases "o_type ord") (auto simp: executePaidCommerceOrder_def order_at_def)
qed

text \<open>
  C10. An uncertain outcome moves nothing. When no other process interferes and a call ends with
  reconciliation required, the order was paid and is now in provisioning, and every balance, ledger
  row, service and username hold is what it was: nothing is granted and nothing is refunded.
\<close>

theorem uncertain_outcome_moves_nothing:
  assumes "quiet env" and "executePaidCommerceOrder env i s = (ReconciliationRequired code, s')"
  shows "users s' = users s \<and> wallet_txs s' = wallet_txs s \<and> services s' = services s
    \<and> reservations s' = reservations s
    \<and> (\<exists>ord ord'. order_at i s = Some ord \<and> o_status ord = OrderStatus_PAID
        \<and> order_at i s' = Some ord' \<and> o_status ord' = OrderStatus_PROVISIONING)"
  using executePaidCommerceOrder_quiet [OF assms]
  by (auto simp: after_claim_def claimed_by_def same_money_def provisioning_def)

lemma unpaid_ignores_adapter:
  assumes q: "quiet env" and at: "order_at i s = Some ord" and np: "o_status ord \<noteq> OrderStatus_PAID"
  shows "executePaidCommerceOrder (env\<lparr>ex_build := b\<rparr>) i s = executePaidCommerceOrder env i s"
proof -
  have q': "quiet (env\<lparr>ex_build := b\<rparr>)" using q unfolding quiet_def by simp
  have "orderRows i s \<noteq> None" using at by (simp add: orderRows_None)
  then obtain rows where rows: "orderRows i s = Some rows" by auto
  then have ord: "or_order rows = ord" using orderRows_Some at by fastforce
  have "provisionPaidOrder (env\<lparr>ex_build := b\<rparr>) i s = provisionPaidOrder env i s"
    using q q' np by (simp add: provisionPaidOrder_def rows ord Let_def cong: option.case_cong prod.case_cong)
  moreover have "executeServiceOperation (env\<lparr>ex_build := b\<rparr>) i oper s = executeServiceOperation env i oper s"
    for oper
    using q q' np at
    by (cases "o_serviceId ord"; cases "ex_lock env")
      (simp_all add: executeServiceOperation_def rows ord order_at_def [symmetric] Let_def)
  ultimately show ?thesis
    by (simp add: executePaidCommerceOrder_def split: option.split OrderType.split)
qed

text \<open>
  C11. The panel is asked at most once. An order that is not paid never reaches the panel: with no
  interference the result and the database are the same whatever adapter there is; and after a call
  that ended with an uncertain outcome the order is not paid any more, so a second call is such a one.
\<close>

theorem panel_is_asked_at_most_once:
  assumes "quiet env" and "order_at i s = Some ord"
  shows "(o_status ord \<noteq> OrderStatus_PAID \<longrightarrow>
      executePaidCommerceOrder (env\<lparr>ex_build := b\<rparr>) i s = executePaidCommerceOrder env i s)
    \<and> (executePaidCommerceOrder env i s = (ReconciliationRequired code, s') \<longrightarrow>
      executePaidCommerceOrder (env\<lparr>ex_build := b\<rparr>) i s' = executePaidCommerceOrder env i s')"
  using unpaid_ignores_adapter [OF assms(1)] assms(2) executePaidCommerceOrder_quiet [OF assms(1)]
  by (fastforce simp: after_claim_def claimed_by_def provisioning_def)

section \<open>A successful execution is final\<close>

definition finished :: "int \<Rightarrow> order_row \<Rightarrow> order_row" where
  "finished now ord = (completed now ord)\<lparr>o_updatedAt := now\<rparr>"

lemma finished_simps [simp]:
  "o_id (finished now ord) = o_id ord" "o_status (finished now ord) = OrderStatus_COMPLETED"
  "o_type (finished now ord) = o_type ord" "o_serviceId (finished now ord) = o_serviceId ord"
  "o_productId (finished now ord) = o_productId ord" "o_completedAt (finished now ord) = Some now"
  by (simp_all add: finished_def completed_def)

lemma complete_provisioning_eq:
  "complete_provisioning now i s =
     (count_where (has_status i [OrderStatus_PROVISIONING]) (orders s),
      s\<lparr>orders := update_where (has_status i [OrderStatus_PROVISIONING]) (finished now) (orders s)\<rparr>)"
  by (simp add: complete_provisioning_def update_orders_def finished_def [abs_def])

lemma post_complete [tx_rules]:
  "post (tx_count (complete_provisioning now i)) s Q =
     Q () (s\<lparr>orders := update_where (has_status i [OrderStatus_PROVISIONING]) (finished now) (orders s)\<rparr>)"
  by (simp add: tx_count_def complete_provisioning_eq tx_rules)

lemma persist_new_service_post:
  assumes "find (\<lambda>sv. sv_orderId sv = Some i) (services t) = None" and "\<forall>k. sv_orderId (b k) = Some i"
  shows "post (persist_new_service now i b (tx_count (complete_provisioning now i))) t (\<lambda>sv s'.
      services s' = services t @ [sv] \<and> sv_orderId sv = Some i \<and> events s' = events t
      \<and> orders s' = update_where (has_status i [OrderStatus_PROVISIONING]) (finished now) (orders t))"
  using assms by (simp add: persist_new_service_def tx_rules draw_id_def)

text \<open>Everything but the order row, the service's row and the appended events is as it was.\<close>

definition operation_applied :: "int \<Rightarrow> order_row \<Rightarrow> service_row \<Rightarrow> db \<Rightarrow> db \<Rightarrow> bool" where
  "operation_applied now ord sv t s' \<longleftrightarrow>
     (\<exists>e more_events. events s' = events t @ e # more_events
        \<and> applied_event COMMERCE_OPERATION_APPLIED_EVENT (o_id ord) e \<and> ev_serviceId e = sv_id sv)
     \<and> map sv_id (services s') = map sv_id (services t) \<and> sv_id sv \<in> sv_id ` set (services t)
     \<and> orders s' = update_where (has_status (o_id ord) [OrderStatus_PROVISIONING]) (finished now) (orders t)"

lemma find_updated_in:
  assumes "find (\<lambda>r. k r = x) (update_where P f xs) = Some a" and "\<forall>r. k (f r) = k r"
  shows "k a \<in> k ` set xs"
  using find_Some_in [OF assms(1)] assms(2) by (auto simp: set_update_where)

lemma persist_operation_post:
  assumes "\<forall>x. sv_id (f x) = sv_id x" and "map_of meta ''orderId'' = Some (JStr (o_id ord))"
  shows "post (persist_operation now service ord meta f (tx_count (complete_provisioning now (o_id ord)))) t
      (\<lambda>sv s'. operation_applied now ord sv t s')"
  using assms
  by (auto simp: persist_operation_def convertTrial_def tx_rules Let_def operation_applied_def
      applied_event_def service_event_def map_update_where converted_def dest: find_Some_in find_updated_in)

lemma finished_order_at:
  assumes "claimed_by now i s t"
    and "orders s' = update_where (has_status i [OrderStatus_PROVISIONING]) (finished now) (orders t)"
    and "order_at i s = Some ord"
  shows "order_at i s' = Some (finished now (provisioning now ord))"
proof -
  have p: "order_at i t = Some (provisioning now ord)" using assms(1,3) by (auto simp: claimed_by_def)
  have "order_at i s' = order_at i (t\<lparr>orders := orders s'\<rparr>)" by (simp add: order_at_def)
  then show ?thesis using p order_at_id [OF p]
    by (simp add: assms(2) order_at_update) (simp add: provisioning_def has_status_def)
qed

lemma order_at_only:
  assumes "unique_by o_id (orders s)" and "order_at i s = Some ord"
  shows "\<forall>x \<in> set (orders s). o_id x = i \<longrightarrow> x = ord"
  using assms find_Some_in [OF assms(2) [unfolded order_at_def]] by (auto dest: unique_by_inj)

text \<open>The events of the log refer to services that are there.\<close>

definition events_have_services :: "db \<Rightarrow> bool" where
  "events_have_services s \<longleftrightarrow> (\<forall>e \<in> set (events s). ev_serviceId e \<in> sv_id ` set (services s))"

lemma find_image: "k \<in> g ` set xs \<longleftrightarrow> (\<exists>x. find (\<lambda>x. g x = k) xs = Some x)"
  by (induction xs) auto

lemma never_applied_none:
  assumes "never_applied i s" and "events_have_services s"
  shows "find (applied_event COMMERCE_OPERATION_APPLIED_EVENT i) (events s) = None"
proof (rule ccontr)
  assume "find (applied_event COMMERCE_OPERATION_APPLIED_EVENT i) (events s) \<noteq> None"
  then obtain e where e: "find (applied_event COMMERCE_OPERATION_APPLIED_EVENT i) (events s) = Some e" by auto
  then have "ev_serviceId e \<in> sv_id ` set (services s)"
    using assms(2) by (auto simp: events_have_services_def dest: find_Some_in)
  with assms(1) e show False by (auto simp: never_applied_def find_image)
qed

lemma replay_purchase:
  assumes q: "quiet env" and at: "order_at i s = Some ord" and ty: "o_type ord = OrderType_SERVICE_PURCHASE"
    and u: "unique_by o_id (orders s)" and st: "o_status ord = OrderStatus_COMPLETED"
    and sv: "find (\<lambda>sv. sv_orderId sv = Some i) (services s) = Some sv"
  shows "executePaidCommerceOrder env i s = (Executed REPLAY sv, s)"
proof -
  have "orderRows i s \<noteq> None" using at by (simp add: orderRows_None)
  then obtain rows where rows: "orderRows i s = Some rows" by auto
  then have ord: "or_order rows = ord" using orderRows_Some at by fastforce
  have "\<forall>x \<in> set (orders s). \<not> (o_id x = i \<and> o_status x \<noteq> OrderStatus_COMPLETED)"
    using order_at_only [OF u at] st by blast
  then have "snd (update_orders (ex_now env) (\<lambda>x. o_id x = i \<and> o_status x \<noteq> OrderStatus_COMPLETED)
      (completed (ex_now env)) s) = s"
    by (simp add: update_where_none)
  then show ?thesis using q at ty sv rows ord
    by (simp add: executePaidCommerceOrder_def order_at_def [symmetric] provisionPaidOrder_def Let_def)
qed

lemma replay_operation:
  assumes q: "quiet env" and at: "order_at i s = Some ord"
    and ty: "o_type ord \<in> {OrderType_SERVICE_RENEWAL, OrderType_EXTRA_VOLUME, OrderType_EXTRA_TIME}"
    and lk: "ex_lock env \<noteq> None" and si: "o_serviceId ord \<noteq> None"
    and e: "find (applied_event COMMERCE_OPERATION_APPLIED_EVENT i) (events s) = Some e"
    and sv: "find (\<lambda>sv. sv_id sv = ev_serviceId e) (services s) = Some sv"
  shows "executePaidCommerceOrder env i s = (Executed REPLAY sv, s)"
proof -
  have "orderRows i s \<noteq> None" using at by (simp add: orderRows_None)
  then obtain rows where rows: "orderRows i s = Some rows" by auto
  then have ord: "or_order rows = ord" using orderRows_Some at by fastforce
  have "executeServiceOperation env i oper s = (Executed REPLAY sv, s)" for oper
    using q lk si e sv rows ord at
    by (auto simp: executeServiceOperation_def order_at_def [symmetric] Let_def)
  then show ?thesis using ty at by (auto simp: executePaidCommerceOrder_def order_at_def [symmetric])
qed

lemma success_type:
  assumes "executePaidCommerceOrder env i s = (Executed c sv, s')" and "order_at i s = Some ord"
  shows "o_type ord = OrderType_SERVICE_PURCHASE
    \<or> o_type ord \<in> {OrderType_SERVICE_RENEWAL, OrderType_EXTRA_VOLUME, OrderType_EXTRA_TIME}"
  using assms by (auto simp: executePaidCommerceOrder_def order_at_def split: OrderType.splits)

lemma applied_is_found:
  assumes cl: "claimed_by now i s t" and ap: "operation_applied now ord sv t s'" and i: "o_id ord = i"
    and "never_applied i s" and "events_have_services s"
  obtains e sv' where "find (applied_event COMMERCE_OPERATION_APPLIED_EVENT i) (events s') = Some e"
    and "find (\<lambda>x. sv_id x = ev_serviceId e) (services s') = Some sv'" and "sv_id sv' = sv_id sv"
proof -
  have "\<forall>e \<in> set (events s). \<not> applied_event COMMERCE_OPERATION_APPLIED_EVENT i e"
    using never_applied_none [OF assms(4,5)] by (simp add: find_None_iff)
  then have "find (applied_event COMMERCE_OPERATION_APPLIED_EVENT i) (events t) = None"
    using cl unfolding claimed_by_def find_None_iff
    by (auto simp: applied_event_def COMMERCE_OPERATION_APPLIED_EVENT_def COMMERCE_OPERATION_INTENT_EVENT_def)
  then obtain e where e: "find (applied_event COMMERCE_OPERATION_APPLIED_EVENT i) (events s') = Some e"
      "ev_serviceId e = sv_id sv"
    using ap i by (auto simp: operation_applied_def find_append)
  have "sv_id sv \<in> set (map sv_id (services s'))" using ap by (simp add: operation_applied_def)
  then obtain sv' where "find (\<lambda>x. sv_id x = sv_id sv) (services s') = Some sv'" by (auto simp: find_image)
  with e that [OF e(1)] show ?thesis by (auto dest: find_Some_in)
qed

lemma success_persisted:
  assumes q: "quiet env" and run: "executePaidCommerceOrder env i s = (Executed SUCCESS sv, s')"
    and ev: "events_have_services s" and q': "quiet env'" and lk: "ex_lock env' \<noteq> None"
  obtains t ord where "claimed_by (ex_now env) i s t" and "order_at i s = Some ord" and "same_money t s'"
    and "orders s' = update_where (has_status i [OrderStatus_PROVISIONING]) (finished (ex_now env)) (orders t)"
    and "\<exists>sv'. sv' \<in> set (services s') \<and> sv_id sv' = sv_id sv
        \<and> (order_at i s' = Some (finished (ex_now env) (provisioning (ex_now env) ord)) \<and> unique_by o_id (orders s')
           \<longrightarrow> executePaidCommerceOrder env' i s' = (Executed REPLAY sv', s'))"
proof -
  obtain t ord where cl: "claimed_by (ex_now env) i s t" and at: "order_at i s = Some ord"
    and out: "if o_type ord = OrderType_SERVICE_PURCHASE then new_service_persisted (ex_now env) i sv t s'
        else operation_persisted (ex_now env) ord sv t s' \<and> o_serviceId ord \<noteq> None \<and> never_applied i s"
    using executePaidCommerceOrder_quiet [OF q run] by (auto simp: after_claim_def)
  note i = order_at_id [OF at]
  show ?thesis
  proof (cases "o_type ord = OrderType_SERVICE_PURCHASE")
    case True
    then obtain b where none: "find (\<lambda>sv. sv_orderId sv = Some i) (services t) = None"
      and b: "\<forall>k. sv_orderId (b k) = Some i"
      and p: "persist_new_service (ex_now env) i b (tx_count (complete_provisioning (ex_now env) i)) t = Inr (sv, s')"
      using out by (auto simp: new_service_persisted_def)
    note r = post_Inr [OF persist_new_service_post [OF none b] p] post_Inr [OF persist_new_service_money [OF complete_money(1)] p]
    have "find (\<lambda>sv. sv_orderId sv = Some i) (services s') = Some sv" using r none by (simp add: find_append)
    then show ?thesis using r True that [OF cl at] replay_purchase [OF q', of i s' "finished (ex_now env) (provisioning (ex_now env) ord)" sv]
      by (auto simp: provisioning_def)
  next
    case False
    then have out': "operation_persisted (ex_now env) ord sv t s'" "o_serviceId ord \<noteq> None" "never_applied i s"
      using out by auto
    then obtain service meta f where f: "\<forall>x. sv_id (f x) = sv_id x"
      and meta: "map_of meta ''orderId'' = Some (JStr (o_id ord))"
      and p: "persist_operation (ex_now env) service ord meta f
          (tx_count (complete_provisioning (ex_now env) (o_id ord))) t = Inr (sv, s')"
      by (auto simp: operation_persisted_def)
    note ap = post_Inr [OF persist_operation_post [OF f meta] p]
    note mm = post_Inr [OF persist_operation_money [OF complete_money(1)] p]
    obtain e sv' where e: "find (applied_event COMMERCE_OPERATION_APPLIED_EVENT i) (events s') = Some e"
      "find (\<lambda>x. sv_id x = ev_serviceId e) (services s') = Some sv'" "sv_id sv' = sv_id sv"
      by (rule applied_is_found [OF cl ap i out'(3) ev])
    show ?thesis
      using that [OF cl at] ap mm i e find_Some_in [OF e(2)] success_type [OF run at] False out'(2)
        replay_operation [OF q' _ _ lk _ e(1,2), of "finished (ex_now env) (provisioning (ex_now env) ord)"]
      by (auto simp: operation_applied_def provisioning_def)
  qed
qed

text \<open>
  C9. A successful execution is final. It completes the order, which was paid, moves no money, and
  the service it returns is stored. Another call for the same order, whatever panel it is given, is
  answered from the database: it replays that service and changes nothing.
\<close>

theorem successful_execution_is_final:
  assumes q: "quiet env" and run: "executePaidCommerceOrder env i s = (Executed SUCCESS sv, s')"
    and u: "unique_by o_id (orders s)" and ev: "events_have_services s"
    and q': "quiet env'" and lk: "ex_lock env' \<noteq> None"
  shows "(\<exists>ord ord'. order_at i s = Some ord \<and> o_status ord = OrderStatus_PAID
        \<and> order_at i s' = Some ord' \<and> o_status ord' = OrderStatus_COMPLETED)
    \<and> users s' = users s \<and> wallet_txs s' = wallet_txs s
    \<and> (\<exists>sv'. sv' \<in> set (services s') \<and> sv_id sv' = sv_id sv
        \<and> executePaidCommerceOrder env' i s' = (Executed REPLAY sv', s'))"
proof (rule success_persisted [OF q run ev q' lk])
  fix t ord
  assume cl: "claimed_by (ex_now env) i s t" and at: "order_at i s = Some ord" and m: "same_money t s'"
    and os: "orders s' = update_where (has_status i [OrderStatus_PROVISIONING]) (finished (ex_now env)) (orders t)"
    and replay: "\<exists>sv'. sv' \<in> set (services s') \<and> sv_id sv' = sv_id sv
        \<and> (order_at i s' = Some (finished (ex_now env) (provisioning (ex_now env) ord)) \<and> unique_by o_id (orders s')
           \<longrightarrow> executePaidCommerceOrder env' i s' = (Executed REPLAY sv', s'))"
  note at' = finished_order_at [OF cl os at]
  have "map o_id (orders s') = map o_id (orders s)" using cl os by (simp add: map_update_where claimed_by_def)
  then have "unique_by o_id (orders s')" using u by (simp add: unique_by_def)
  moreover have "o_status ord = OrderStatus_PAID" "same_money s s'"
    using cl at same_money_trans [OF _ m] by (auto simp: claimed_by_def)
  ultimately show ?thesis using replay at at' by (auto simp: same_money_def)
qed

section \<open>What reconciliation concludes\<close>

text \<open>What a definite refund of an order does to the database, and whether the order counts as refunded.\<close>

definition refund_effect :: "int \<Rightarrow> order_row \<Rightarrow> string \<Rightarrow> db \<Rightarrow> bool \<Rightarrow> db \<Rightarrow> bool" where
  "refund_effect now ord reason s b s' \<longleftrightarrow>
     (let already = (\<exists>t \<in> set (wallet_txs s). refund_of (o_id ord) t);
          flipped = (count_where (refundable (o_id ord)) (orders s) = 1) in
      orders s' = update_where (refundable (o_id ord)) (failed now reason) (orders s)
      \<and> services s' = services s \<and> events s' = events s
      \<and> (b \<longleftrightarrow> already \<or> flipped)
      \<and> reservations s' = (if \<not> already \<and> flipped
          then reservations (releaseReservationForFailedOrder (o_id ord) (o_checkoutSessionId ord) now s)
          else reservations s)
      \<and> (if \<not> already \<and> flipped \<and> 0 < o_finalPriceToman ord
         then \<exists>u i. find (\<lambda>u. u_id u = o_userId ord) (users s') = Some u
           \<and> users s' = update_where (\<lambda>u. u_id u = o_userId ord) (credited (o_finalPriceToman ord)) (users s)
           \<and> wallet_txs s' = wallet_txs s @ [refund_row now ord (u_balanceToman u) i]
         else users s' = users s \<and> wallet_txs s' = wallet_txs s))"

lemma refund_and_fail_effect:
  assumes "refund_and_fail now ord reason code' s = (DefiniteFailure b code, s')"
  shows "code = code'" and "refund_effect now ord reason s b s'"
proof -
  have "run_transaction (refundDefinite now ord reason) s = (Inr b, s')" and c: "code = code'"
    using assms by (auto simp: refund_and_fail_def split: prod.splits sum.splits)
  then have "refundDefinite now ord reason s = Inr (b, s')" by (simp add: run_transaction_Inr)
  note r = refundDefinite_Inr [OF this]
  show "code = code'" by (rule c)
  show "refund_effect now ord reason s b s'"
    unfolding refund_effect_def Let_def using r by (cases "\<exists>t \<in> set (wallet_txs s). refund_of (o_id ord) t") auto
qed

lemma run_execution_not_failed: "run_execution c m s \<noteq> (DefiniteFailure b code, s')"
  by (auto simp: run_execution_def split: prod.split sum.split)

lemma reconcile_purchase_refunds:
  assumes "reconcile_purchase env rows s = (DefiniteFailure b code, s')" and "quiet env"
  obtains panel username adapter uncertain message where "or_panel rows = Some panel"
    "stringField (captured_of rows) ''serviceUsername'' = Some username" "ex_build env panel = Some adapter"
    "ad_getServiceAccount adapter username (normalizeSubscriptionBase panel) = RemoteFailed uncertain message True"
    "refund_and_fail (ex_now env) (or_order rows) ''reconciliation proved account absent'' ''REMOTE_ABSENT'' s
      = (DefiniteFailure b code, s')"
  using assms run_execution_not_failed
  by (auto simp: reconcile_purchase_def acquiredFailure_def Let_def split: option.splits remote_reply.splits if_splits)

lemma reconcile_operation_refunds:
  assumes "reconcile_operation env ord s = (DefiniteFailure b code, s')" and "quiet env"
  obtains intent serviceId service panel adapter remote
  where "find (applied_event COMMERCE_OPERATION_INTENT_EVENT (o_id ord)) (rev (events s)) = Some intent"
    "o_serviceId ord = Some serviceId"
    "find (\<lambda>sv. sv_id sv = serviceId \<and> sv_userId sv = o_userId ord) (services s) = Some service"
    "panel_of s service = Some panel" "ex_build env panel = Some adapter"
    "ad_getServiceAccount adapter (sv_username service) (normalizeSubscriptionBase panel) = RemoteOk remote"
    "judged_unchanged (ev_metadata intent) remote" "\<not> judged_applied (ev_metadata intent) remote"
    "refund_and_fail (ex_now env) ord ''reconciliation proved operation absent'' ''REMOTE_UNCHANGED'' s
      = (DefiniteFailure b code, s')"
proof -
  obtain intent serviceId service panel adapter remote where
      x: "find (applied_event COMMERCE_OPERATION_INTENT_EVENT (o_id ord)) (rev (events s)) = Some intent"
        "o_serviceId ord = Some serviceId"
        "find (\<lambda>sv. sv_id sv = serviceId \<and> sv_userId sv = o_userId ord) (services s) = Some service"
        "panel_of s service = Some panel" "ex_build env panel = Some adapter"
        "ad_getServiceAccount adapter (sv_username service) (normalizeSubscriptionBase panel) = RemoteOk remote"
    and r: "reconcile_applied env ord intent service remote s = (DefiniteFailure b code, s')"
    using assms
    by (auto simp: reconcile_operation_def acquiredFailure_def Let_def bind_eq_Some_conv
        split: option.splits remote_reply.splits)
  have "judged_unchanged (ev_metadata intent) remote" "\<not> judged_applied (ev_metadata intent) remote"
    "refund_and_fail (ex_now env) ord ''reconciliation proved operation absent'' ''REMOTE_UNCHANGED'' s
      = (DefiniteFailure b code, s')"
    using r run_execution_not_failed by (auto simp: reconcile_applied_def Let_def split: if_splits)
  with x show thesis by (rule that)
qed

lemma one_refundable:
  assumes "order_at i s = Some ord" and "o_status ord = OrderStatus_PROVISIONING" and "unique_by o_id (orders s)"
  shows "count_where (refundable i) (orders s) = 1"
proof -
  have m: "ord \<in> set (orders s)" "o_id ord = i" using find_Some_in [OF assms(1) [unfolded order_at_def]] by simp_all
  have d: "distinct (orders s)" using assms(3) by (simp add: unique_by_def distinct_map)
  have "refundable i ord" using m(2) assms(2) by (simp add: refundable_def has_status_def)
  moreover have "o_id x = i" if "refundable i x" for x using that by (simp add: refundable_def has_status_def)
  ultimately have "set (filter (refundable i) (orders s)) = {ord}"
    using order_at_only [OF assms(3,1)] m(1) unfolding set_filter by blast
  then show ?thesis using distinct_card [OF distinct_filter [OF d, of "refundable i"]] by (simp add: count_where_def)
qed

text \<open>
  C12. Reconciliation refunds only what the panel disproved, and exactly once. With no interference, when it
  reports a definite failure, the order was in provisioning and its own panel was asked about its own
  account. For a new service this is the panel of the order and the account name frozen in its checkout, and
  the panel answered that no such account exists. For an operation it is the panel and the account
  of the user's service that the order names, and the panel showed exactly the total bytes and the
  expiry that the newest intent of the order recorded before the operation. The database is then that of a definite
  refund of this order: it is failed, and unless a refund row of it exists its user is credited exactly its
  final price with one ledger row; an order that is unique in its table is reported as refunded.
\<close>

theorem reconciliation_refunds_only_the_disproved:
  assumes "quiet env" and "reconcileCommerceOrder env i s = (DefiniteFailure b code, s')"
  shows "\<exists>rows. orderRows i s = Some rows \<and> o_status (or_order rows) = OrderStatus_PROVISIONING
    \<and> (if o_type (or_order rows) = OrderType_SERVICE_PURCHASE
       then (\<exists>panel username adapter uncertain message. or_panel rows = Some panel
           \<and> stringField (captured_of rows) ''serviceUsername'' = Some username
           \<and> ex_build env panel = Some adapter
           \<and> ad_getServiceAccount adapter username (normalizeSubscriptionBase panel) = RemoteFailed uncertain message True)
         \<and> code = ''REMOTE_ABSENT''
         \<and> refund_effect (ex_now env) (or_order rows) ''reconciliation proved account absent'' s b s'
       else (\<exists>intent serviceId service panel adapter remote.
             find (applied_event COMMERCE_OPERATION_INTENT_EVENT i) (rev (events s)) = Some intent
           \<and> o_serviceId (or_order rows) = Some serviceId
           \<and> find (\<lambda>sv. sv_id sv = serviceId \<and> sv_userId sv = o_userId (or_order rows)) (services s) = Some service
           \<and> panel_of s service = Some panel \<and> ex_build env panel = Some adapter
           \<and> ad_getServiceAccount adapter (sv_username service) (normalizeSubscriptionBase panel) = RemoteOk remote
           \<and> bytes_text remote \<noteq> None
           \<and> stringField (ev_metadata intent) ''beforeTotalBytes'' = bytes_text remote
           \<and> stringField (ev_metadata intent) ''beforeExpiresAt'' = expiry_text remote
           \<and> \<not> judged_applied (ev_metadata intent) remote)
         \<and> code = ''REMOTE_UNCHANGED''
         \<and> refund_effect (ex_now env) (or_order rows) ''reconciliation proved operation absent'' s b s')
    \<and> (unique_by o_id (orders s) \<longrightarrow> b)"
proof -
  obtain rows where rows: "orderRows i s = Some rows" and st: "o_status (or_order rows) = OrderStatus_PROVISIONING"
    using assms(2) by (auto simp: reconcileCommerceOrder_def acquiredFailure_def split: option.splits if_splits)
  note at = orderRows_Some [OF rows]
  have i: "o_id (or_order rows) = i" by (rule order_at_id [OF at])
  have paid: b if "refund_effect (ex_now env) (or_order rows) reason s b s'" "unique_by o_id (orders s)" for reason
    using that one_refundable [OF at st] i by (simp add: refund_effect_def Let_def)
  show ?thesis
  proof (cases "o_type (or_order rows) = OrderType_SERVICE_PURCHASE")
    case True
    then have "reconcile_purchase env rows s = (DefiniteFailure b code, s')"
      using assms rows st by (simp add: reconcileCommerceOrder_def)
    then obtain panel username adapter uncertain message where x: "or_panel rows = Some panel"
        "stringField (captured_of rows) ''serviceUsername'' = Some username" "ex_build env panel = Some adapter"
        "ad_getServiceAccount adapter username (normalizeSubscriptionBase panel) = RemoteFailed uncertain message True"
      and r: "refund_and_fail (ex_now env) (or_order rows) ''reconciliation proved account absent'' ''REMOTE_ABSENT'' s
        = (DefiniteFailure b code, s')"
      by (rule reconcile_purchase_refunds [OF _ assms(1)])
    show ?thesis using rows st True x refund_and_fail_effect [OF r] paid by auto
  next
    case False
    then have "reconcile_operation env (or_order rows) s = (DefiniteFailure b code, s')"
      using assms rows st by (simp add: reconcileCommerceOrder_def)
    then obtain intent serviceId service panel adapter remote
      where x: "find (applied_event COMMERCE_OPERATION_INTENT_EVENT (o_id (or_order rows))) (rev (events s)) = Some intent"
        "o_serviceId (or_order rows) = Some serviceId"
        "find (\<lambda>sv. sv_id sv = serviceId \<and> sv_userId sv = o_userId (or_order rows)) (services s) = Some service"
        "panel_of s service = Some panel" "ex_build env panel = Some adapter"
        "ad_getServiceAccount adapter (sv_username service) (normalizeSubscriptionBase panel) = RemoteOk remote"
        "judged_unchanged (ev_metadata intent) remote" "\<not> judged_applied (ev_metadata intent) remote"
      and r: "refund_and_fail (ex_now env) (or_order rows) ''reconciliation proved operation absent'' ''REMOTE_UNCHANGED'' s
        = (DefiniteFailure b code, s')"
      by (rule reconcile_operation_refunds [OF _ assms(1)])
    have "\<exists>intent serviceId service panel adapter remote.
             find (applied_event COMMERCE_OPERATION_INTENT_EVENT i) (rev (events s)) = Some intent
           \<and> o_serviceId (or_order rows) = Some serviceId
           \<and> find (\<lambda>sv. sv_id sv = serviceId \<and> sv_userId sv = o_userId (or_order rows)) (services s) = Some service
           \<and> panel_of s service = Some panel \<and> ex_build env panel = Some adapter
           \<and> ad_getServiceAccount adapter (sv_username service) (normalizeSubscriptionBase panel) = RemoteOk remote
           \<and> bytes_text remote \<noteq> None
           \<and> stringField (ev_metadata intent) ''beforeTotalBytes'' = bytes_text remote
           \<and> stringField (ev_metadata intent) ''beforeExpiresAt'' = expiry_text remote
           \<and> \<not> judged_applied (ev_metadata intent) remote"
      using x(1-6,8) x(7) [unfolded judged_unchanged_def] unfolding i by blast
    then show ?thesis using rows st False refund_and_fail_effect [OF r] paid by auto
  qed
qed

section \<open>An add-on the panel never applied\<close>

text \<open>The account the panel shows when nothing was applied to the service.\<close>

definition shows_unchanged :: "remote_account \<Rightarrow> service_row \<Rightarrow> bool" where
  "shows_unchanged remote sv \<longleftrightarrow>
     rm_totalBytes remote = Value (sv_volumeBytes sv) \<and> field_opt (rm_expiresAt remote) = sv_expiresAt sv"

lemma intent_fields:
  "stringField (intent_metadata oper sv ord target) ''expectedTotalBytes'' = map_option show_int (ps_totalBytes target)"
  "stringField (intent_metadata oper sv ord target) ''expectedExpiresAt'' = map_option toISOString (ps_expiresAt target)"
proof -
  have s: "show_int n \<noteq> ''''" for n
    using show_nat_nonempty by (simp add: show_int_def)
  have "toISOString t \<noteq> ''''" for t by (simp add: toISOString_def Let_def split: prod.split)
  with s show
    "stringField (intent_metadata oper sv ord target) ''expectedTotalBytes'' = map_option show_int (ps_totalBytes target)"
    "stringField (intent_metadata oper sv ord target) ''expectedExpiresAt'' = map_option toISOString (ps_expiresAt target)"
    by (auto simp: stringField_def intent_metadata_def nonempty_string_def jopt_def iso_opt_def split: option.split)
qed

lemma unchanged_addon_judged_applied:
  assumes "oper = EXTRA_VOLUME \<and> sv_expiresAt sv \<noteq> None \<or> oper = EXTRA_TIME \<and> 0 < sv_volumeBytes sv"
    and "shows_unchanged remote sv"
  shows "judged_applied (intent_metadata oper sv ord (expected oper sv ord now)) remote"
  using assms unfolding judged_applied_def bytes_as_expected_def intent_fields shows_unchanged_def
  by (auto simp: expected_def Let_def bytes_text_def expiry_text_def)

lemma post_complete_any [tx_rules]:
  "post (complete_any now i) s Q =
     (count_where (\<lambda>x. o_id x = i) (orders s) = 1 \<longrightarrow>
      Q () (s\<lparr>orders := update_where (\<lambda>x. o_id x = i) (finished now) (orders s)\<rparr>))"
  by (simp add: complete_any_def tx_rules finished_def [abs_def])

lemma found_reconciled:
  assumes "find (\<lambda>x. sv_id x = sv_id sv) (update_where (\<lambda>x. sv_id x = sv_id sv) (reconciled_service remote) xs) = Some a"
    and "shows_unchanged remote sv"
  shows "sv_volumeBytes a = sv_volumeBytes sv"
  using find_Some_in [OF assms(1)] assms(2)
  by (auto simp: set_update_where reconciled_service_def shows_unchanged_def)

lemma reconciled_post:
  assumes "shows_unchanged remote sv"
  shows "post (persist_operation now sv ord meta (reconciled_service remote) (complete_any now (o_id ord))) s
      (\<lambda>sv' s'. same_money s s' \<and> sv_volumeBytes sv' = sv_volumeBytes sv
        \<and> orders s' = update_where (\<lambda>x. o_id x = o_id ord) (finished now) (orders s))"
  by (auto simp: persist_operation_def convertTrial_def tx_rules Let_def same_money_def
      dest: found_reconciled [OF _ assms])

text \<open>
  C18. A lost add-on is not refunded. Extra volume for a service with an expiry, and extra time for
  one with a volume, keep one of the two values the intent expects. So when the panel's answer to the
  mutation was lost and the account is in fact unchanged, reconciliation takes the operation for
  applied: it never refunds, no money moves, and unless the database fails the order is completed
  with the service's volume still what it was.
\<close>

theorem lost_addon_is_never_refunded:
  assumes "quiet env" and "order_at i s = Some ord"
    and "o_status ord = OrderStatus_PROVISIONING" and "o_type ord \<noteq> OrderType_SERVICE_PURCHASE"
    and "find (applied_event COMMERCE_OPERATION_INTENT_EVENT i) (rev (events s)) = Some intent"
    and "ev_metadata intent = intent_metadata oper sv ord (expected oper sv ord claimedAt)"
    and "oper = EXTRA_VOLUME \<and> sv_expiresAt sv \<noteq> None \<or> oper = EXTRA_TIME \<and> 0 < sv_volumeBytes sv"
    and "find (\<lambda>x. sv_id x = the (o_serviceId ord) \<and> sv_userId x = o_userId ord) (services s) = Some sv"
    and "o_serviceId ord \<noteq> None" and "panel_of s sv = Some panel" and "ex_lock env \<noteq> None"
    and "ex_build env panel = Some adapter"
    and "ad_getServiceAccount adapter (sv_username sv) (normalizeSubscriptionBase panel) = RemoteOk remote"
    and "shows_unchanged remote sv"
    and "reconcileCommerceOrder env i s = (r, s')"
  shows "users s' = users s \<and> wallet_txs s' = wallet_txs s
    \<and> ((\<exists>sv' ord'. r = Executed ALREADY_CONVERGED sv' \<and> sv_volumeBytes sv' = sv_volumeBytes sv
          \<and> order_at i s' = Some ord' \<and> o_status ord' = OrderStatus_COMPLETED)
        \<or> (\<exists>e. r = ExecutionThrows e \<and> s' = s))"
proof -
  note i = order_at_id [OF assms(2)]
  have "orderRows i s \<noteq> None" using assms(2) by (simp add: orderRows_None)
  then obtain rows where rows: "orderRows i s = Some rows" by auto
  then have ord: "or_order rows = ord" using orderRows_Some assms(2) by fastforce
  have "reconcile_operation env ord s = reconcile_applied env ord intent sv remote s"
    using assms(1,5,8-13) i by (auto simp: reconcile_operation_def Let_def)
  then have run: "reconcile_applied env ord intent sv remote s = (r, s')"
    using assms(1,3,4,15) rows ord by (simp add: reconcileCommerceOrder_def)
  have "judged_applied (ev_metadata intent) remote"
    using unchanged_addon_judged_applied [OF assms(7,14)] assms(6) by simp
  with run consider "\<exists>e. r = ExecutionThrows e \<and> s' = s"
    | "run_execution ALREADY_CONVERGED (persist_operation (ex_now env) sv ord
          [(''orderId'', JStr (o_id ord)), (''reconciled'', JBool True)]
          (reconciled_service remote) (complete_any (ex_now env) (o_id ord))) s = (r, s')"
    by (auto simp: reconcile_applied_def Let_def split: if_splits)
  then show ?thesis
  proof cases
    case 2
    show ?thesis
    proof (rule disjE [OF run_execution_cases [OF 2]])
      assume "\<exists>sv'. r = Executed ALREADY_CONVERGED sv' \<and> persist_operation (ex_now env) sv ord
          [(''orderId'', JStr (o_id ord)), (''reconciled'', JBool True)]
          (reconciled_service remote) (complete_any (ex_now env) (o_id ord)) s = Inr (sv', s')"
      then obtain sv' where r: "r = Executed ALREADY_CONVERGED sv'"
        and p: "persist_operation (ex_now env) sv ord [(''orderId'', JStr (o_id ord)), (''reconciled'', JBool True)]
          (reconciled_service remote) (complete_any (ex_now env) (o_id ord)) s = Inr (sv', s')" by auto
      note x = post_Inr [OF reconciled_post [OF assms(14)] p]
      then have "order_at i s' = Some (finished (ex_now env) ord)"
        using assms(2) i find_update_where [of o_id "finished (ex_now env)" i "\<lambda>x. o_id x = i" "orders s"]
        by (simp add: order_at_def)
      with x r show ?thesis by (auto simp: same_money_def)
    qed auto
  qed auto
qed

section \<open>What the sweep reaches\<close>

lemma sweep_orders_ids: "sweep_orders envs ids s = (Inr results, s') \<Longrightarrow> map fst results = ids"
proof (induction ids arbitrary: s results)
  case (Cons i ids)
  obtain r t where r: "reconcileCommerceOrder (envs i) i s = (r, t)" by (cases "reconcileCommerceOrder (envs i) i s")
  then show ?case using Cons by (cases r) (auto split: prod.splits sum.splits)
qed simp

lemma stale_order_id:
  assumes "i \<in> set (stale_order_ids olderThan limit s)"
  shows "\<exists>ord \<in> set (orders s). o_id ord = i \<and> stale_commerce_order olderThan ord"
proof -
  obtain ord where "ord \<in> set (sort_key o_updatedAt (filter (stale_commerce_order olderThan) (orders s)))"
    and "i = o_id ord"
    using assms by (auto simp: stale_order_ids_def dest: in_set_takeD)
  then show ?thesis by auto
qed

lemma taken_before_dropped:
  assumes "sorted (map f xs)" and "x \<in> set (take n xs)" and "y \<in> set xs" and "y \<notin> set (take n xs)"
  shows "f x \<le> f y"
proof -
  have "y \<in> set (drop n xs)" using assms(3,4) append_take_drop_id [of n xs] by (metis Un_iff set_append)
  moreover have "sorted (map f (take n xs) @ map f (drop n xs))"
    using assms(1) by (simp flip: map_append)
  ultimately show ?thesis using assms(2) by (auto simp: sorted_append)
qed

text \<open>
  A sweep that ends reconciles the oldest stale orders, each once and in order: its results are
  those of the selected orders, at most 100 and at most the limit (a limit below 1 counts as 1); every
  one was in provisioning and untouched since the given time; and a stale order it left out is not
  older than any it took.
\<close>

theorem sweep_takes_the_oldest:
  assumes "reconcileStaleCommerceOrders envs olderThan limit s = (Inr results, s')"
    and "unique_by o_id (orders s)"
  shows "length results \<le> 100 \<and> int (length results) \<le> max 1 limit \<and> distinct (map fst results)
    \<and> (\<forall>i \<in> set (map fst results). \<exists>ord \<in> set (orders s). o_id ord = i \<and> stale_commerce_order olderThan ord)
    \<and> (\<forall>x \<in> set (orders s). \<forall>y \<in> set (orders s). o_id x \<in> set (map fst results)
        \<and> o_id y \<notin> set (map fst results) \<and> stale_commerce_order olderThan y
        \<longrightarrow> o_updatedAt x \<le> o_updatedAt y)"
proof -
  let ?xs = "sort_key o_updatedAt (filter (stale_commerce_order olderThan) (orders s))"
  let ?n = "nat (max 1 (min limit 100))"
  have ids: "map fst results = map o_id (take ?n ?xs)"
    using sweep_orders_ids assms(1) by (simp add: reconcileStaleCommerceOrders_def stale_order_ids_def)
  then have len: "length results = length (take ?n ?xs)" by (metis length_map)
  have "inj_on o_id (set ?xs)" using assms(2) by (auto simp: unique_by_def distinct_map intro: inj_on_subset)
  moreover have "distinct ?xs" using assms(2) by (simp add: unique_by_def distinct_map)
  ultimately have d: "distinct (map o_id (take ?n ?xs))"
    by (simp add: distinct_map inj_on_subset [OF _ set_take_subset])
  have "o_updatedAt x \<le> o_updatedAt y"
    if h: "x \<in> set (orders s)" "y \<in> set (orders s)" "o_id x \<in> set (map fst results)"
      "o_id y \<notin> set (map fst results)" "stale_commerce_order olderThan y" for x y
  proof (rule taken_before_dropped [of o_updatedAt ?xs x ?n y])
    obtain z where "z \<in> set (take ?n ?xs)" "o_id z = o_id x" using h(3) unfolding ids by auto
    moreover have "z \<in> set (orders s)" using calculation(1) by (auto dest!: in_set_takeD)
    ultimately show "x \<in> set (take ?n ?xs)" using unique_by_inj [OF assms(2)] h(1) by metis
    show "y \<notin> set (take ?n ?xs)" using h(4) unfolding ids by auto
  qed (use h in auto)
  moreover have "\<forall>i \<in> set (map fst results). \<exists>ord \<in> set (orders s). o_id ord = i \<and> stale_commerce_order olderThan ord"
    using stale_order_id [of _ olderThan limit s] ids by (simp add: stale_order_ids_def)
  moreover have "length results \<le> 100 \<and> int (length results) \<le> max 1 limit" unfolding len by simp linarith
  ultimately show ?thesis using d ids by metis
qed

text \<open>
  C19. One unusable panel stops the sweep. When the oldest stale order is a new service on a panel
  for which no adapter can be built, the whole sweep throws with the database as it was: none of the
  younger stale orders is reconciled, by this sweep or by any later one that meets the same panel.
\<close>

theorem unusable_panel_stops_the_sweep:
  assumes "stale_order_ids olderThan limit s = i # ids" and "quiet (envs i)"
    and "orderRows i s = Some rows" and "o_status (or_order rows) = OrderStatus_PROVISIONING"
    and "o_type (or_order rows) = OrderType_SERVICE_PURCHASE"
    and "or_panel rows = Some panel" and "stringField (captured_of rows) ''serviceUsername'' \<noteq> None"
    and "ex_lock (envs i) \<noteq> None" and "ex_build (envs i) panel = None"
  shows "reconcileStaleCommerceOrders envs olderThan limit s = (Inl (Thrown AdapterUnavailable), s)"
  using assms
  by (auto simp: reconcileStaleCommerceOrders_def reconcileCommerceOrder_def reconcile_purchase_def Let_def)

end
