(* ===== verification/ExecutionApplications.thy ===== *)
theory ExecutionApplications
  imports Applications Execution
begin

text \<open>
  The theorems about the execution of paid orders and about panel adapters, applied to the small shop.
\<close>

definition paid_order :: "string \<Rightarrow> OrderType \<Rightarrow> order_row" where
  "paid_order i ty = sample_order\<lparr>o_id := i, o_userId := ''u'', o_type := ty, o_finalPriceToman := 700\<rparr>"

definition purchase_checkout :: checkout_row where
  "purchase_checkout = sample_checkout\<lparr>co_id := ''k'', co_userId := ''u'',
     co_productSnapshot := Some (JObj [(''serviceUsername'', JStr ''alice123''), (''panelId'', JStr ''n'')])\<rparr>"

definition sold_service :: service_row where
  "sold_service = shop_service\<lparr>sv_volumeBytes := 10, sv_remainingBytes := 5, sv_expiresAt := Some 5000\<rparr>"

definition paid_shop :: db where
  "paid_shop = shop\<lparr>checkouts := [purchase_checkout], services := [sold_service],
     orders :=
       [(paid_order ''p'' OrderType_SERVICE_PURCHASE)\<lparr>o_productId := Some ''1234abcd'',
          o_checkoutSessionId := Some ''k''\<rparr>,
        (paid_order ''v'' OrderType_EXTRA_VOLUME)\<lparr>o_serviceId := Some ''0123456789ab'',
          o_volumeGbSnapshot := Some 1\<rparr>]\<rparr>"

definition no_account :: remote_account where
  "no_account = \<lparr>rm_username = None, rm_usedBytes = None, rm_totalBytes = Undefined,
     rm_remainingBytes = Undefined, rm_expiresAt = Undefined, rm_subscriptionUrl = None,
     rm_subscriptionToken = None, rm_configLinks = None, rm_remoteClientId = None,
     rm_remoteInboundIds = None, rm_remoteMetadata = None\<rparr>"

definition answering :: "remote_reply \<Rightarrow> adapter" where
  "answering reply = \<lparr>ad_createServiceAccount = (\<lambda>_. reply), ad_renewServiceAccount = (\<lambda>_. reply),
     ad_addServiceVolume = (\<lambda>_. reply), ad_addServiceTime = (\<lambda>_. reply),
     ad_getServiceAccount = (\<lambda>_ _. reply)\<rparr>"

definition calm :: "adapter option \<Rightarrow> exec_env" where
  "calm a = \<lparr>ex_others = (\<lambda>_ s. s), ex_build = (\<lambda>_. a), ex_lock = Some False, ex_now = 1000\<rparr>"

lemma calm_quiet: "quiet (calm a)" "ex_lock (calm a) \<noteq> None"
  by (simp_all add: quiet_def calm_def)


text \<open>A call on a paid order that meets no obstacle asks the panel.\<close>

lemma purchase_asks:
  assumes "orderRows i s = Some rows" and "o_id (or_order rows) = i"
    and "o_type (or_order rows) = OrderType_SERVICE_PURCHASE" and "o_status (or_order rows) = OrderStatus_PAID"
    and "find (\<lambda>sv. sv_orderId sv = Some i) (services s) = None"
    and "or_product rows = Some product" and "or_panel rows = Some panel" and "pn_status panel = PanelStatus_ACTIVE"
    and "stringField (captured_of rows) ''serviceUsername'' = Some username"
    and "stringField (captured_of rows) ''panelId'' = Some (pn_id panel)"
    and "claim_order 1000 i s = (1, t)"
  shows "executePaidCommerceOrder (calm (Some (answering reply))) i s =
    after_remote (calm (Some (answering reply))) False (or_order rows) reply
      (\<lambda>remote. persist_new_service 1000 i (provisioned_service 1000 rows product panel username remote)
         (tx_count (complete_provisioning 1000 i))) 5 t"
proof -
  have "find (\<lambda>ord. o_id ord = i) (orders s) = Some (or_order rows)"
    using orderRows_Some [OF assms(1)] by (simp add: order_at_def)
  then show ?thesis using assms
    by (simp add: executePaidCommerceOrder_def provisionPaidOrder_def provision_locked_def Let_def calm_def
        answering_def)
qed

definition purchase_rows :: order_rows where
  "purchase_rows = the (orderRows ''p'' paid_shop)"

lemma purchase_rows:
  "orderRows ''p'' paid_shop = Some purchase_rows" "o_id (or_order purchase_rows) = ''p''"
  "o_type (or_order purchase_rows) = OrderType_SERVICE_PURCHASE"
  "o_status (or_order purchase_rows) = OrderStatus_PAID"
  "find (\<lambda>sv. sv_orderId sv = Some ''p'') (services paid_shop) = None"
  "or_product purchase_rows = Some (shop_product ''1234abcd'')" "or_panel purchase_rows = Some shop_panel"
  "pn_status shop_panel = PanelStatus_ACTIVE"
  "stringField (captured_of purchase_rows) ''serviceUsername'' = Some ''alice123''"
  "stringField (captured_of purchase_rows) ''panelId'' = Some (pn_id shop_panel)"
  by (simp_all add: purchase_rows_def orderRows_def paid_shop_def shop_defs sample_defs paid_order_def
      purchase_checkout_def sold_service_def captured_of_def stringField_def nonempty_string_def
      as_record_def Let_def)

definition purchase_claimed :: db where
  "purchase_claimed = snd (claim_order 1000 ''p'' paid_shop)"

lemma purchase_claimed: "claim_order 1000 ''p'' paid_shop = (1, purchase_claimed)"
proof -
  have "fst (claim_order 1000 ''p'' paid_shop) = 1" by code_simp
  then show ?thesis by (simp add: purchase_claimed_def prod_eq_iff)
qed

lemmas purchase_asks_the_panel = purchase_asks [OF purchase_rows purchase_claimed]

abbreviation env_with :: "remote_reply \<Rightarrow> exec_env" where
  "env_with reply \<equiv> calm (Some (answering reply))"

definition refused :: remote_reply where "refused = RemoteFailed False None True"

lemma calm_simps [simp]: "ex_others (calm a) n s = s" "ex_now (calm a) = 1000" "ex_build (calm a) pn = a"
  "ex_lock (calm a) = Some False"
  by (simp_all add: calm_def)

lemma lost_purchase:
  "executePaidCommerceOrder (env_with RemoteThrew) ''p'' paid_shop =
     (ReconciliationRequired ''REMOTE_RESULT_UNCERTAIN'', purchase_claimed)"
  by (simp add: purchase_asks_the_panel after_remote_def)

lemma purchase_at: "order_at ''p'' paid_shop = Some (or_order purchase_rows)"
  by (rule orderRows_Some [OF purchase_rows(1)])

lemma paid_shop_ok: "unique_by o_id (orders paid_shop)" "unique_by u_id (users paid_shop)"
  "events_have_services paid_shop" "one_refund paid_shop" "wallet_txs paid_shop = []"
  by (simp_all add: unique_by_def events_have_services_def one_refund_def count_where_def paid_shop_def
      shop_defs sample_defs paid_order_def)

definition purchase_persist :: "(exec_exn, service_row) tx" where
  "purchase_persist = persist_new_service 1000 ''p''
     (provisioned_service 1000 purchase_rows (shop_product ''1234abcd'') shop_panel ''alice123'' no_account)
     (tx_count (complete_provisioning 1000 ''p''))"

lemma purchase_persists: "succeeded (purchase_persist purchase_claimed)"
  by code_simp

lemma run_execution_succeeds:
  assumes "succeeded (m s)"
  shows "\<exists>sv s'. run_execution c m s = (Executed c sv, s')"
proof -
  obtain sv s' where "m s = Inr (sv, s')" using succeededE [OF assms] by (metis surj_pair)
  then show ?thesis by (simp add: run_execution_def run_transaction_def)
qed

lemma bought:
  obtains sv s' where "executePaidCommerceOrder (env_with (RemoteOk no_account)) ''p'' paid_shop = (Executed SUCCESS sv, s')"
  using run_execution_succeeds [where m = purchase_persist and c = SUCCESS, OF purchase_persists]
  by (auto simp: purchase_asks_the_panel after_remote_def purchase_persist_def)

lemma refund_succeeds: "succeeded (refundDefinite 1000 (or_order purchase_rows) ''x'' paid_shop)"
  by code_simp

section \<open>Outcomes\<close>

lemma refunded_once:
  obtains s' where "run_transaction (refundDefinite 1000 (or_order purchase_rows) ''x'') paid_shop = (Inr True, s')"
proof -
  obtain b s' where r: "refundDefinite 1000 (or_order purchase_rows) ''x'' paid_shop = Inr (b, s')"
    using succeededE [OF refund_succeeds] by (metis surj_pair)
  moreover have "fst (projr (refundDefinite 1000 (or_order purchase_rows) ''x'' paid_shop))" by code_simp
  ultimately show ?thesis using that by (simp add: run_transaction_def)
qed

lemma purchase_order:
  "o_id (or_order purchase_rows) = ''p''" "o_userId (or_order purchase_rows) = ''u''"
  "o_finalPriceToman (or_order purchase_rows) = 700"
  by (simp_all add: purchase_rows_def orderRows_def paid_shop_def paid_order_def sample_order_def Let_def)

theorem definite_refund_pays_once_witness:
  "\<exists>s' u u'. run_transaction (refundDefinite 1000 (or_order purchase_rows) ''x'') paid_shop = (Inr True, s')
    \<and> find (\<lambda>u. u_id u = ''u'') (users paid_shop) = Some u
    \<and> find (\<lambda>u. u_id u = ''u'') (users s') = Some u' \<and> u_balanceToman u' = u_balanceToman u + 700"
proof (rule refunded_once)
  fix s' assume r: "run_transaction (refundDefinite 1000 (or_order purchase_rows) ''x'') paid_shop = (Inr True, s')"
  have "\<not> (\<exists>t \<in> set (wallet_txs paid_shop). refund_of (o_id (or_order purchase_rows)) t)"
    by (simp add: paid_shop_ok)
  from definite_refund_pays_once [where now' = 0 and reason' = "''x''", OF r paid_shop_ok(2,1) this] r
  show ?thesis by (auto simp: purchase_order)
qed

theorem no_order_is_refunded_twice_witness:
  "one_refund (snd (executePaidCommerceOrder (env_with refused) ''p'' paid_shop))
    \<and> one_refund (snd (reconcileStaleCommerceOrders (\<lambda>_. env_with refused) 2000 50 paid_shop))"
proof -
  have "keeps one_refund (ex_others (env_with refused))" by (simp add: keeps_def)
  from no_order_is_refunded_twice [OF paid_shop_ok(4) this this] show ?thesis by blast
qed

theorem uncertain_outcome_moves_nothing_witness:
  "services purchase_claimed = services paid_shop
    \<and> (\<exists>ord. order_at ''p'' purchase_claimed = Some ord \<and> o_status ord = OrderStatus_PROVISIONING)"
  using uncertain_outcome_moves_nothing [OF calm_quiet(1) lost_purchase] by blast

theorem panel_is_asked_at_most_once_witness:
  "executePaidCommerceOrder (env_with RemoteThrew) ''p'' paid_shop =
     (ReconciliationRequired ''REMOTE_RESULT_UNCERTAIN'', purchase_claimed)
   \<and> executePaidCommerceOrder ((env_with RemoteThrew)\<lparr>ex_build := (\<lambda>_. Some (answering (RemoteOk no_account)))\<rparr>)
       ''p'' purchase_claimed = executePaidCommerceOrder (env_with RemoteThrew) ''p'' purchase_claimed"
  using panel_is_asked_at_most_once [OF calm_quiet(1) purchase_at] lost_purchase by blast

theorem successful_execution_is_final_witness:
  "\<exists>sv s' sv'. executePaidCommerceOrder (env_with (RemoteOk no_account)) ''p'' paid_shop = (Executed SUCCESS sv, s')
    \<and> executePaidCommerceOrder (env_with RemoteThrew) ''p'' s' = (Executed REPLAY sv', s') \<and> sv_id sv' = sv_id sv"
proof (rule bought)
  fix sv s'
  assume r: "executePaidCommerceOrder (env_with (RemoteOk no_account)) ''p'' paid_shop = (Executed SUCCESS sv, s')"
  from successful_execution_is_final [OF calm_quiet(1) r paid_shop_ok(1,3) calm_quiet(1) calm_quiet(2)] r
  show ?thesis by blast
qed

section \<open>Reconciliation\<close>

definition claimed_rows :: order_rows where "claimed_rows = the (orderRows ''p'' purchase_claimed)"

lemma claimed_rows:
  "orderRows ''p'' purchase_claimed = Some claimed_rows" "o_id (or_order claimed_rows) = ''p''"
  "o_type (or_order claimed_rows) = OrderType_SERVICE_PURCHASE"
  "o_status (or_order claimed_rows) = OrderStatus_PROVISIONING"
  "or_panel claimed_rows = Some shop_panel"
  "stringField (captured_of claimed_rows) ''serviceUsername'' = Some ''alice123''"
  by (simp_all add: claimed_rows_def purchase_claimed_def claim_order_eq provisioning_def has_status_def
      update_where_def orderRows_def paid_shop_def shop_defs sample_defs paid_order_def
      purchase_checkout_def sold_service_def captured_of_def stringField_def nonempty_string_def
      as_record_def Let_def)

lemma refused_refund: "succeeded (refundDefinite 1000 (or_order claimed_rows) ''reconciliation proved account absent'' purchase_claimed)"
  by code_simp

lemma reconciled_refund:
  obtains b s' where "reconcileCommerceOrder (env_with refused) ''p'' purchase_claimed = (DefiniteFailure b ''REMOTE_ABSENT'', s')"
proof -
  obtain b s' where "refundDefinite 1000 (or_order claimed_rows) ''reconciliation proved account absent''
      purchase_claimed = Inr (b, s')"
    using succeededE [OF refused_refund] by (metis surj_pair)
  then show ?thesis using that claimed_rows
    by (simp add: reconcileCommerceOrder_def reconcile_purchase_def Let_def answering_def refused_def
        refund_and_fail_def run_transaction_def)
qed

text \<open>An add-on for a service without an expiry: in provisioning, its intent recorded, the account unchanged.\<close>

definition timeless_service :: service_row where
  "timeless_service = sold_service\<lparr>sv_expiresAt := None\<rparr>"

definition timeless_order :: order_row where
  "timeless_order = (paid_order ''v'' OrderType_EXTRA_VOLUME)\<lparr>o_serviceId := Some ''0123456789ab'',
     o_volumeGbSnapshot := Some 1, o_status := OrderStatus_PROVISIONING\<rparr>"

definition timeless_intent :: event_row where
  "timeless_intent = service_event timeless_service ''u'' COMMERCE_OPERATION_INTENT_EVENT
     (intent_metadata EXTRA_VOLUME timeless_service timeless_order (expected EXTRA_VOLUME timeless_service timeless_order 1000)) ''e''"

definition timeless_shop :: db where
  "timeless_shop = paid_shop\<lparr>orders := [timeless_order], events := [timeless_intent], services := [timeless_service]\<rparr>"

definition timeless_account :: remote_account where
  "timeless_account = no_account\<lparr>rm_totalBytes := Value 10\<rparr>"

lemma timeless_facts:
  "order_at ''v'' timeless_shop = Some timeless_order" "o_status timeless_order = OrderStatus_PROVISIONING"
  "o_type timeless_order \<noteq> OrderType_SERVICE_PURCHASE" "o_id timeless_order = ''v''"
  "\<And>rows. orderRows ''v'' timeless_shop = Some rows \<Longrightarrow> or_order rows = timeless_order"
  "find (applied_event COMMERCE_OPERATION_INTENT_EVENT ''v'') (rev (events timeless_shop)) = Some timeless_intent"
  "o_serviceId timeless_order = Some ''0123456789ab''"
  "find (\<lambda>x. sv_id x = ''0123456789ab'' \<and> sv_userId x = o_userId timeless_order) (services timeless_shop) = Some timeless_service"
  "panel_of timeless_shop timeless_service = Some shop_panel"
proof -
  show at: "order_at ''v'' timeless_shop = Some timeless_order"
    by (simp add: order_at_def timeless_shop_def timeless_order_def paid_order_def)
  show "or_order rows = timeless_order" if "orderRows ''v'' timeless_shop = Some rows" for rows
    using orderRows_Some [OF that] at by simp
qed (simp_all add: timeless_shop_def timeless_order_def timeless_service_def timeless_intent_def paid_shop_def paid_order_def
    sold_service_def shop_defs sample_defs applied_event_def service_event_def intent_metadata_def panel_of_def)

lemma before_fields:
  "stringField (intent_metadata oper sv ord target) ''beforeTotalBytes'' = Some (show_int (sv_volumeBytes sv))"
  "sv_expiresAt sv = None \<Longrightarrow> stringField (intent_metadata oper sv ord target) ''beforeExpiresAt'' = None"
proof -
  have "show_int n \<noteq> []" for n using show_nat_nonempty by (simp add: show_int_def)
  then show "stringField (intent_metadata oper sv ord target) ''beforeTotalBytes'' = Some (show_int (sv_volumeBytes sv))"
    by (simp add: stringField_def intent_metadata_def nonempty_string_def)
  show "stringField (intent_metadata oper sv ord target) ''beforeExpiresAt'' = None" if "sv_expiresAt sv = None"
    using that by (simp add: stringField_def intent_metadata_def nonempty_string_def iso_opt_def jopt_def)
qed

lemma timeless_judged:
  "judged_unchanged (ev_metadata timeless_intent) timeless_account"
  "\<not> judged_applied (ev_metadata timeless_intent) timeless_account"
  "valid_expiry (field_opt (rm_expiresAt timeless_account))"
proof -
  have m: "ev_metadata timeless_intent = intent_metadata EXTRA_VOLUME timeless_service timeless_order
      (expected EXTRA_VOLUME timeless_service timeless_order 1000)" by (simp add: timeless_intent_def service_event_def)
  have sv: "sv_expiresAt timeless_service = None" "sv_volumeBytes timeless_service = 10"
    by (simp_all add: timeless_service_def sold_service_def sample_defs)
  have a: "bytes_text timeless_account = Some (show_int 10)" "expiry_text timeless_account = None"
    "field_opt (rm_expiresAt timeless_account) = None"
    by (simp_all add: timeless_account_def no_account_def bytes_text_def expiry_text_def)
  show "judged_unchanged (ev_metadata timeless_intent) timeless_account"
    unfolding judged_unchanged_def m a before_fields(1) before_fields(2) [OF sv(1)] sv by simp
  have "ps_totalBytes (expected EXTRA_VOLUME timeless_service timeless_order 1000) = Some (topped_up timeless_service 1)"
    "ps_expiresAt (expected EXTRA_VOLUME timeless_service timeless_order 1000) = None"
    using sv by (simp_all add: expected_def Let_def timeless_order_def paid_order_def)
  moreover have "topped_up timeless_service 1 \<noteq> 10" by (simp add: topped_up_def GIB_def)
  ultimately show "\<not> judged_applied (ev_metadata timeless_intent) timeless_account"
    unfolding judged_applied_def bytes_as_expected_def m intent_fields a by simp
  show "valid_expiry (field_opt (rm_expiresAt timeless_account))" by (simp add: a valid_expiry_def)
qed

lemma timeless_refundable:
  "succeeded (refundDefinite 1000 timeless_order ''reconciliation proved operation absent''
     (paid_shop\<lparr>orders := [timeless_order], events := es, services := [timeless_service]\<rparr>))"
  by code_simp

lemma timeless_refund:
  obtains b s' where "reconcileCommerceOrder (env_with (RemoteOk timeless_account)) ''v'' timeless_shop
    = (DefiniteFailure b ''REMOTE_UNCHANGED'', s')"
proof -
  obtain b s' where r: "refundDefinite 1000 timeless_order ''reconciliation proved operation absent'' timeless_shop = Inr (b, s')"
    using succeededE [OF timeless_refundable [of "[timeless_intent]", folded timeless_shop_def]] by (metis surj_pair)
  have a: "reconcile_applied (env_with (RemoteOk timeless_account)) timeless_order timeless_intent timeless_service
      timeless_account timeless_shop = (DefiniteFailure b ''REMOTE_UNCHANGED'', s')"
    using timeless_judged r by (simp add: reconcile_applied_def Let_def refund_and_fail_def run_transaction_def)
  obtain rows where rows: "orderRows ''v'' timeless_shop = Some rows"
    using timeless_facts(1) orderRows_None [of "''v''" timeless_shop] by (cases "orderRows ''v'' timeless_shop") auto
  note o = timeless_facts(5) [OF rows]
  have "reconcile_operation (env_with (RemoteOk timeless_account)) timeless_order timeless_shop
      = (DefiniteFailure b ''REMOTE_UNCHANGED'', s')"
    using a timeless_facts by (simp add: reconcile_operation_def Let_def answering_def)
  then show thesis
    using that rows o timeless_facts(2,3) by (simp add: reconcileCommerceOrder_def answering_def)
qed

theorem reconciliation_refunds_only_the_disproved_witness:
  "(\<exists>s'. reconcileCommerceOrder (env_with refused) ''p'' purchase_claimed = (DefiniteFailure True ''REMOTE_ABSENT'', s')
      \<and> (\<exists>rows. orderRows ''p'' purchase_claimed = Some rows \<and> or_panel rows = Some shop_panel
        \<and> refund_effect 1000 (or_order rows) ''reconciliation proved account absent'' purchase_claimed True s'))
    \<and> (\<exists>s'. reconcileCommerceOrder (env_with (RemoteOk timeless_account)) ''v'' timeless_shop
        = (DefiniteFailure True ''REMOTE_UNCHANGED'', s')
      \<and> (\<exists>rows. orderRows ''v'' timeless_shop = Some rows
        \<and> refund_effect 1000 (or_order rows) ''reconciliation proved operation absent'' timeless_shop True s'))"
proof (rule conjI)
  obtain b s' where r: "reconcileCommerceOrder (env_with refused) ''p'' purchase_claimed = (DefiniteFailure b ''REMOTE_ABSENT'', s')"
    by (rule reconciled_refund)
  have u: "unique_by o_id (orders purchase_claimed)" by code_simp
  from reconciliation_refunds_only_the_disproved [OF calm_quiet(1) r] u r claimed_rows
  show "\<exists>s'. reconcileCommerceOrder (env_with refused) ''p'' purchase_claimed = (DefiniteFailure True ''REMOTE_ABSENT'', s')
      \<and> (\<exists>rows. orderRows ''p'' purchase_claimed = Some rows \<and> or_panel rows = Some shop_panel
        \<and> refund_effect 1000 (or_order rows) ''reconciliation proved account absent'' purchase_claimed True s')"
    by auto
next
  obtain b s' where r: "reconcileCommerceOrder (env_with (RemoteOk timeless_account)) ''v'' timeless_shop
      = (DefiniteFailure b ''REMOTE_UNCHANGED'', s')" by (rule timeless_refund)
  have u: "unique_by o_id (orders timeless_shop)" by (simp add: unique_by_def timeless_shop_def)
  from reconciliation_refunds_only_the_disproved [OF calm_quiet(1) r] u r timeless_facts(3,5)
  show "\<exists>s'. reconcileCommerceOrder (env_with (RemoteOk timeless_account)) ''v'' timeless_shop
        = (DefiniteFailure True ''REMOTE_UNCHANGED'', s')
      \<and> (\<exists>rows. orderRows ''v'' timeless_shop = Some rows
        \<and> refund_effect 1000 (or_order rows) ''reconciliation proved operation absent'' timeless_shop True s')"
    by auto
qed

text \<open>The add-on of the shop: in provisioning, its intent recorded, the account unchanged.\<close>

definition addon_order :: order_row where
  "addon_order = (paid_order ''v'' OrderType_EXTRA_VOLUME)\<lparr>o_serviceId := Some ''0123456789ab'',
     o_volumeGbSnapshot := Some 1, o_status := OrderStatus_PROVISIONING\<rparr>"

definition addon_intent :: event_row where
  "addon_intent = service_event sold_service ''u'' COMMERCE_OPERATION_INTENT_EVENT
     (intent_metadata EXTRA_VOLUME sold_service addon_order (expected EXTRA_VOLUME sold_service addon_order 1000)) ''e''"

definition addon_shop :: db where
  "addon_shop = paid_shop\<lparr>orders := [addon_order], events := [addon_intent]\<rparr>"

definition unchanged_account :: remote_account where
  "unchanged_account = no_account\<lparr>rm_totalBytes := Value 10, rm_expiresAt := Value 5000\<rparr>"

lemmas addon_defs = addon_shop_def addon_order_def paid_shop_def paid_order_def sold_service_def shop_defs
  sample_defs

lemma addon_facts:
  "order_at ''v'' addon_shop = Some addon_order" "o_status addon_order = OrderStatus_PROVISIONING"
  "o_type addon_order \<noteq> OrderType_SERVICE_PURCHASE"
  "find (applied_event COMMERCE_OPERATION_INTENT_EVENT ''v'') (rev (events addon_shop)) = Some addon_intent"
  "ev_metadata addon_intent = intent_metadata EXTRA_VOLUME sold_service addon_order
     (expected EXTRA_VOLUME sold_service addon_order 1000)"
  "EXTRA_VOLUME = EXTRA_VOLUME \<and> sv_expiresAt sold_service \<noteq> None
     \<or> EXTRA_VOLUME = EXTRA_TIME \<and> 0 < sv_volumeBytes sold_service"
  "find (\<lambda>x. sv_id x = the (o_serviceId addon_order) \<and> sv_userId x = o_userId addon_order) (services addon_shop)
     = Some sold_service"
  "o_serviceId addon_order \<noteq> None" "panel_of addon_shop sold_service = Some shop_panel"
  "shows_unchanged unchanged_account sold_service"
  by (simp_all add: addon_defs order_at_def addon_intent_def applied_event_def service_event_def
      intent_metadata_def panel_of_def shows_unchanged_def unchanged_account_def no_account_def)

lemma addon_persists:
  "succeeded (persist_operation 1000 sold_service addon_order [(''orderId'', JStr ''v''), (''reconciled'', JBool True)]
     (reconciled_service unchanged_account) (complete_any 1000 ''v'') addon_shop)"
  by (simp add: succeeded_def persist_operation_def convertTrial_def tx_bind_def tx_then_def tx_do_def tx_read_def
      tx_some_def tx_return_def tx_require_def update_services_def log_event_def create_event_def draw_id_def
      complete_any_def update_orders_def completed_def reconciled_service_def unchanged_account_def no_account_def
      addon_defs service_in_range_def int8_def int4_def INT4_MAX_def INT4_MIN_def js_date_def service_event_def fk_def update_where_def
      count_where_def unconverted_trial_def)

definition addon_persist :: "(exec_exn, service_row) tx" where
  "addon_persist = persist_operation 1000 sold_service addon_order
     [(''orderId'', JStr ''v''), (''reconciled'', JBool True)] (reconciled_service unchanged_account)
     (complete_any 1000 ''v'')"

lemma addon_id: "o_id addon_order = ''v''"
  by (simp add: addon_order_def paid_order_def)

lemma addon_reconciled:
  obtains sv s' where "reconcileCommerceOrder (env_with (RemoteOk unchanged_account)) ''v'' addon_shop
    = (Executed ALREADY_CONVERGED sv, s')"
proof -
  have "succeeded (addon_persist addon_shop)" using addon_persists by (simp add: addon_persist_def)
  then obtain sv s' where r: "run_execution ALREADY_CONVERGED addon_persist addon_shop = (Executed ALREADY_CONVERGED sv, s')"
    using run_execution_succeeds [where m = addon_persist and s = addon_shop] by blast
  have "judged_applied (ev_metadata addon_intent) unchanged_account"
    using unchanged_addon_judged_applied [OF addon_facts(6,10)] by (simp add: addon_facts(5))
  moreover have "valid_expiry (field_opt (rm_expiresAt unchanged_account))"
    by (simp add: unchanged_account_def valid_expiry_def js_date_def)
  ultimately have a: "reconcile_applied (env_with (RemoteOk unchanged_account)) addon_order addon_intent sold_service
      unchanged_account addon_shop = (Executed ALREADY_CONVERGED sv, s')"
    using r by (simp add: reconcile_applied_def Let_def addon_persist_def addon_id)
  have "orderRows ''v'' addon_shop \<noteq> None" using addon_facts(1) by (simp add: orderRows_None)
  then obtain rows where rows: "orderRows ''v'' addon_shop = Some rows" by auto
  then have "or_order rows = addon_order" using orderRows_Some addon_facts(1) by fastforce
  then have "reconcileCommerceOrder (env_with (RemoteOk unchanged_account)) ''v'' addon_shop
      = (Executed ALREADY_CONVERGED sv, s')"
    using addon_facts(2-4,7-9) a rows
    by (auto simp: reconcileCommerceOrder_def reconcile_operation_def Let_def answering_def addon_id)
  then show ?thesis by (rule that)
qed

theorem lost_addon_is_never_refunded_witness:
  "\<exists>sv s'. reconcileCommerceOrder (env_with (RemoteOk unchanged_account)) ''v'' addon_shop
      = (Executed ALREADY_CONVERGED sv, s')
    \<and> sv_volumeBytes sv = 10 \<and> users s' = users addon_shop \<and> wallet_txs s' = wallet_txs addon_shop"
proof (rule addon_reconciled)
  fix sv s'
  assume r: "reconcileCommerceOrder (env_with (RemoteOk unchanged_account)) ''v'' addon_shop
    = (Executed ALREADY_CONVERGED sv, s')"
  have b: "ex_build (env_with (RemoteOk unchanged_account)) shop_panel = Some (answering (RemoteOk unchanged_account))"
    "ad_getServiceAccount (answering (RemoteOk unchanged_account)) (sv_username sold_service)
       (normalizeSubscriptionBase shop_panel) = RemoteOk unchanged_account"
    by (simp_all add: answering_def)
  from lost_addon_is_never_refunded [OF calm_quiet(1) addon_facts(1-9) calm_quiet(2) b addon_facts(10) r] r
  show ?thesis by (auto simp: sold_service_def)
qed

section \<open>Sweeps\<close>

lemma stale_purchase: "stale_order_ids 2000 50 purchase_claimed = [''p'']"
proof -
  have "filter (stale_commerce_order 2000) (orders purchase_claimed) = [or_order claimed_rows]"
    by (simp add: claimed_rows_def purchase_claimed_def claim_order_eq provisioning_def has_status_def
        update_where_def orderRows_def paid_shop_def shop_defs sample_defs paid_order_def Let_def
        stale_commerce_order_def)
  then show ?thesis by (simp add: stale_order_ids_def claimed_rows(2))
qed

lemma claimed_unique: "unique_by o_id (orders purchase_claimed)"
  using paid_shop_ok(1)
  by (simp add: purchase_claimed_def claim_order_eq unique_by_update_where provisioning_def)

lemma swept:
  "reconcileStaleCommerceOrders (\<lambda>_. env_with (RemoteFailed True None False)) 2000 50 purchase_claimed =
     (Inr [(''p'', ReconciliationRequired ''REMOTE_READ_UNCERTAIN'')], purchase_claimed)"
  using claimed_rows
  by (simp add: reconcileStaleCommerceOrders_def stale_purchase reconcileCommerceOrder_def
      reconcile_purchase_def Let_def answering_def)

theorem sweep_takes_the_oldest_witness:
  "\<exists>ord \<in> set (orders purchase_claimed). o_id ord = ''p'' \<and> stale_commerce_order 2000 ord"
  using sweep_takes_the_oldest [OF swept claimed_unique] by simp

theorem unusable_panel_stops_the_sweep_witness:
  "reconcileStaleCommerceOrders (\<lambda>_. calm None) 2000 50 purchase_claimed =
     (Inl (Thrown AdapterUnavailable), purchase_claimed)"
  by (rule unusable_panel_stops_the_sweep [OF stale_purchase _ claimed_rows(1,4,3,5)])
    (simp_all add: calm_quiet claimed_rows)

section \<open>Panel adapters\<close>

lemma shop_panel_available: "panelOperationAvailable shop_panel Cap_renewService"
  by code_simp

theorem available_panel_builds_witness:
  "\<exists>a. buildAdapterForPanel Some shop_panel = Inr a"
  using available_panel_builds [OF shop_panel_available, of Some]
  by (auto simp: shop_panel_def sample_panel_def split: sum.splits adapter_error.splits)

text \<open>A panel that is offered although no adapter can be built for it: its mode of authentication is unknown.\<close>

definition odd_panel :: panel_row where
  "odd_panel = shop_panel\<lparr>pn_type := PanelType_XUI, pn_authMode := Some ''OTP''\<rparr>"

lemma odd_panel_offered: "panelOperationAvailable odd_panel Cap_renewService"
  by code_simp

lemma odd_panel_unbuildable: "buildAdapterForPanel Some odd_panel = Inl (XuiAuthModeUnsupported ''OTP'')"
  by code_simp

end
