(* ===== verification/Idempotency.thy ===== *)
theory Idempotency
  imports Checkout
begin

text \<open>
  Request idempotency of the Mini App (apps/api/src/miniapp/commerce/idempotency.ts): one row per user
  and client request, bound to the payload by a fingerprint.
\<close>

section \<open>Keys and fingerprints\<close>

definition commerce_checkout_confirm :: string where
  "commerce_checkout_confirm = ''commerce-checkout-confirm''"

text \<open>\<open>/^[A-Za-z0-9_-]{16,64}$/\<close>\<close>

definition isValidClientRequestId :: "json \<Rightarrow> bool" where
  "isValidClientRequestId v =
     (case v of JStr s \<Rightarrow> 16 \<le> length s \<and> length s \<le> 64 \<and> list_all is_key_char s | _ \<Rightarrow> False)"

definition framed_part :: "string \<Rightarrow> string" where
  "framed_part part = show_nat (length part) @ ''.'' @ part"

definition commerceFingerprint :: "crypto \<Rightarrow> string list \<Rightarrow> string" where
  "commerceFingerprint cr parts = cr_sha256 cr (concat (map framed_part parts))"

section \<open>Running a request once\<close>

record CommerceIdempotencyResult =
  resultCheckoutSessionId :: "string option"
  resultPaymentId :: "string option"

record run_args =
  ra_userId :: string
  ra_clientRequestId :: string
  ra_operation :: string
  ra_fingerprint :: string

text \<open>Two more endings are exceptions: of \<open>execute\<close>, and of the database.\<close>

datatype 'x run_outcome = RunExecuted CommerceIdempotencyResult | RunReplayed CommerceIdempotencyResult
  | RunConflict | RunThrows 'x | RunDbFault

definition stored_row :: "run_args \<Rightarrow> db \<Rightarrow> idem_row option" where
  "stored_row args s =
     find (\<lambda>r. ir_userId r = ra_userId args \<and> ir_clientRequestId r = ra_clientRequestId args) (idem_rows s)"

definition stored_result :: "idem_row \<Rightarrow> CommerceIdempotencyResult" where
  "stored_result r = \<lparr>resultCheckoutSessionId = ir_resultCheckoutSessionId r,
     resultPaymentId = ir_resultPaymentId r\<rparr>"

definition result_row :: "run_args \<Rightarrow> CommerceIdempotencyResult \<Rightarrow> string \<Rightarrow> idem_row" where
  "result_row args value i =
     \<lparr>ir_id = i, ir_userId = ra_userId args, ir_clientRequestId = ra_clientRequestId args,
      ir_operation = ra_operation args, ir_targetTicketId = None,
      ir_fingerprint = ra_fingerprint args, ir_resultTicketId = '''', ir_resultMessageId = '''',
      ir_resultCheckoutSessionId = resultCheckoutSessionId value,
      ir_resultPaymentId = resultPaymentId value\<rparr>"

text \<open>
  \<open>execute\<close> runs before the row is written and its effects stay. \<open>others n\<close> is what other processes
  do before the next statement.
\<close>

definition runIdempotentCommerce ::
  "(nat \<Rightarrow> db \<Rightarrow> db) \<Rightarrow> run_args \<Rightarrow> (db \<Rightarrow> ('x + CommerceIdempotencyResult) \<times> db) \<Rightarrow> db \<Rightarrow>
   'x run_outcome \<times> db" where
  "runIdempotentCommerce others args execute s =
     (let s0 = others 0 s in
      case stored_row args s0 of
        Some existing \<Rightarrow>
          if ir_fingerprint existing \<noteq> ra_fingerprint args \<or> ir_operation existing \<noteq> ra_operation args
          then (RunConflict, s0) else (RunReplayed (stored_result existing), s0)
      | None \<Rightarrow>
          (case execute (others 1 s0) of
             (Inl e, s1) \<Rightarrow> (RunThrows e, s1)
           | (Inr value, s1) \<Rightarrow>
               let s2 = others 2 s1 in
               (case run_transaction (tx_bind (tx_do draw_id) (\<lambda>i. create_idem (result_row args value i))) s2 of
                  (Inr _, s3) \<Rightarrow> (RunExecuted value, s3)
                | (Inl UniqueViolation, s3) \<Rightarrow>
                    let s4 = others 3 s3 in
                    (case stored_row args s4 of
                       Some winner \<Rightarrow>
                         if ir_fingerprint winner = ra_fingerprint args
                         then (RunReplayed (stored_result winner), s4) else (RunConflict, s4)
                     | None \<Rightarrow> (RunConflict, s4))
                | (Inl (_ :: unit thrown), s3) \<Rightarrow> (RunDbFault, s3))))"

section \<open>The fingerprint tells payloads apart\<close>

lemma dot_not_digit: "\<not> is_digit CHR ''.''"
  by (simp add: is_digit_def char_code_def)

lemma digits_then_dot:
  assumes "show_nat m @ CHR ''.'' # x = show_nat n @ CHR ''.'' # y"
  shows "m = n \<and> x = y"
proof -
  have d: "takeWhile is_digit (show_nat k @ CHR ''.'' # z) = show_nat k" for k z
    using show_nat_digits [of k] dot_not_digit by (simp add: takeWhile_append2 list_all_iff)
  have "show_nat m = show_nat n" using assms d by metis
  with assms show ?thesis by (simp add: show_nat_inject)
qed

lemma framed_part_append: "framed_part p @ y = show_nat (length p) @ CHR ''.'' # p @ y"
  by (simp add: framed_part_def)

lemma framed_parts_inject: "concat (map framed_part ps) = concat (map framed_part qs) \<Longrightarrow> ps = qs"
proof (induction ps arbitrary: qs)
  case Nil
  then show ?case by (cases qs) (auto simp: framed_part_def)
next
  case (Cons p ps)
  then obtain q qs' where qs: "qs = q # qs'"
    by (cases qs) (auto simp: framed_part_def)
  have "length p = length q \<and> p @ concat (map framed_part ps) = q @ concat (map framed_part qs')"
    by (rule digits_then_dot) (use Cons.prems in \<open>simp add: qs framed_part_append\<close>)
  then have "p = q \<and> concat (map framed_part ps) = concat (map framed_part qs')"
    using append_eq_append_conv [of p q] by blast
  with Cons.IH qs show ?case by simp
qed

section \<open>A request runs once\<close>

lemma stored_after_create:
  assumes "run_transaction (tx_bind (tx_do draw_id) (\<lambda>i. create_idem (result_row args value i))) s
    = (Inr r, s')"
  shows "stored_row args s' = Some r \<and> (\<exists>i. r = result_row args value i)"
proof -
  have "post (tx_bind (tx_do draw_id) (\<lambda>i. create_idem (result_row args value i))) s
      (\<lambda>r s'. stored_row args s' = Some r \<and> (\<exists>i. r = result_row args value i))"
    by (auto simp: tx_rules draw_id_def stored_row_def find_append result_row_def find_None_iff
        split: option.split dest: find_Some_in)
  from run_transaction_post [OF this assms] show ?thesis .
qed

text \<open>
  C14. A request runs once. When it was executed, the same request sent again is answered with the
  result that was stored, without running anything and without a change to the database, and a
  request that reuses its key with another payload or for another operation is refused as a
  conflict, also without a change.
\<close>

theorem executed_request_is_replayed:
  fixes execute' :: "db \<Rightarrow> ('x + CommerceIdempotencyResult) \<times> db"
  assumes "runIdempotentCommerce others args execute s = (RunExecuted value, s')"
  shows "runIdempotentCommerce (\<lambda>_ s. s) args execute' s' = (RunReplayed value, s')
    \<and> (ra_userId args' = ra_userId args \<and> ra_clientRequestId args' = ra_clientRequestId args
        \<and> (ra_fingerprint args' \<noteq> ra_fingerprint args \<or> ra_operation args' \<noteq> ra_operation args)
       \<longrightarrow> runIdempotentCommerce (\<lambda>_ s. s) args' execute' s' = (RunConflict, s'))"
proof -
  obtain r t where "run_transaction (tx_bind (tx_do draw_id) (\<lambda>i. create_idem (result_row args value i))) t
      = (Inr r :: unit thrown + idem_row, s')"
    using assms by (auto simp: runIdempotentCommerce_def Let_def split: option.splits if_splits prod.splits
        sum.splits thrown.splits)
  from stored_after_create [OF this] have r: "stored_row args s' = Some r" "\<exists>i. r = result_row args value i"
    by auto
  have "stored_row args' s' = stored_row args s'"
    if "ra_userId args' = ra_userId args" "ra_clientRequestId args' = ra_clientRequestId args"
    using that by (simp add: stored_row_def)
  with r show ?thesis
    by (auto simp: runIdempotentCommerce_def Let_def result_row_def stored_result_def)
qed

end
