(* ===== verification/MiniApp.thy ===== *)
theory MiniApp
  imports SettlementFacts Idempotency
begin

text \<open>
  The commerce routes of the Mini App (apps/api/src/miniapp/commerce/routes.ts): quoting a new
  subscription or an operation on a service, showing a draft, and paying it from the wallet. A request
  is its JSON body, the authenticated user, and the verdict of the guards that run before it.
\<close>

section \<open>Replies\<close>

datatype Code = Code_FEATURE_DISABLED | Code_FEATURE_UNAVAILABLE | Code_BAD_REQUEST | Code_NOT_FOUND
  | Code_PRODUCT_UNAVAILABLE | Code_SERVICE_NOT_ELIGIBLE | Code_OPTION_UNAVAILABLE
  | Code_CHECKOUT_UNAVAILABLE | Code_DISCOUNT_INVALID | Code_QUOTE_EXPIRED | Code_QUOTE_STALE
  | Code_INSUFFICIENT_BALANCE | Code_IDEMPOTENCY_CONFLICT | Code_WALLET_DISABLED | Code_INTERNAL

text \<open>\<open>Crashed\<close> is an exception that leaves the handler; the framework answers 500.\<close>

datatype 'a reply = Rejected nat string | Failed nat Code | Replied nat 'a | Crashed

fun mapDomainCode :: "CommerceResultCode \<Rightarrow> Code" where
  "mapDomainCode PRODUCT_UNAVAILABLE = Code_PRODUCT_UNAVAILABLE"
| "mapDomainCode SERVICE_NOT_ELIGIBLE = Code_SERVICE_NOT_ELIGIBLE"
| "mapDomainCode OPTION_UNAVAILABLE = Code_OPTION_UNAVAILABLE"
| "mapDomainCode CHECKOUT_UNAVAILABLE = Code_CHECKOUT_UNAVAILABLE"
| "mapDomainCode CODE_INSUFFICIENT_BALANCE = Code_INSUFFICIENT_BALANCE"
| "mapDomainCode CODE_IDEMPOTENCY_CONFLICT = Code_IDEMPOTENCY_CONFLICT"
| "mapDomainCode QUOTE_EXPIRED = Code_QUOTE_EXPIRED"
| "mapDomainCode QUOTE_STALE = Code_QUOTE_STALE"
| "mapDomainCode SERVICE_NOT_FOUND = Code_NOT_FOUND"
| "mapDomainCode DISCOUNT_INVALID = Code_DISCOUNT_INVALID"
| "mapDomainCode _ = Code_INTERNAL"

text \<open>The same function on the codes of the settlement.\<close>

fun mapSettlementCode :: "WalletSettlementFailure \<Rightarrow> Code" where
  "mapSettlementCode INSUFFICIENT_BALANCE = Code_INSUFFICIENT_BALANCE"
| "mapSettlementCode IDEMPOTENCY_CONFLICT = Code_IDEMPOTENCY_CONFLICT"
| "mapSettlementCode WALLET_DISABLED = Code_WALLET_DISABLED"
| "mapSettlementCode DISCOUNT_CHANGED = Code_DISCOUNT_INVALID"
| "mapSettlementCode _ = Code_INTERNAL"

section \<open>Helpers\<close>

record api_user =
  au_id :: string
  au_group :: UserGroup
  au_balanceToman :: int

text \<open>
  What a request depends on besides its body and the database: the verdict of the guards, whether the
  settings can be read, the cipher and its secret, random vectors, the clock, and what other processes
  do before each step.
\<close>

record api_env =
  ae_rejection :: "(nat \<times> string) option"
  ae_readable :: bool
  ae_crypto :: crypto
  ae_secret :: string
  ae_iv :: "byte list"
  ae_now :: int
  ae_others :: "nat \<Rightarrow> db \<Rightarrow> db"

definition readable_db :: "api_env \<Rightarrow> db \<Rightarrow> db option" where
  "readable_db env s = (if ae_readable env then Some s else None)"

definition requireRollout :: "api_env \<Rightarrow> string list \<Rightarrow> db \<Rightarrow> bool" where
  "requireRollout env keys s \<longleftrightarrow> (\<forall>key \<in> set keys. isMiniAppRolloutEnabled key (readable_db env s))"

definition walletEnabled :: "db option \<Rightarrow> bool" where
  "walletEnabled d =
     (case d of
        None \<Rightarrow> False
      | Some s \<Rightarrow>
          (case setting_value ''wallet_payment_enabled'' s of
             None \<Rightarrow> False
           | Some v \<Rightarrow> js_lower (js_trim v) \<in> set TRUE_VALUES))"

definition snapshot_of :: "checkout_row \<Rightarrow> json_obj" where
  "snapshot_of checkout = as_record (co_productSnapshot checkout)"

definition validMoney :: "checkout_row \<Rightarrow> bool" where
  "validMoney checkout \<longleftrightarrow>
     co_originalPriceToman checkout > 0 \<and> co_discountAmountToman checkout \<ge> 0
     \<and> co_finalPriceToman checkout > 0
     \<and> co_originalPriceToman checkout - co_discountAmountToman checkout = co_finalPriceToman checkout"

definition checkoutByInternalId :: "db \<Rightarrow> string \<Rightarrow> string \<Rightarrow> checkout_row option" where
  "checkoutByInternalId s userId i = find (\<lambda>c. co_id c = i \<and> co_userId c = userId) (checkouts s)"

definition body_field :: "json \<Rightarrow> string \<Rightarrow> json" where
  "body_field body key = (case map_of (as_record (Some body)) key of Some v \<Rightarrow> v | None \<Rightarrow> JNull)"

definition trimmed_field :: "json \<Rightarrow> string \<Rightarrow> string" where
  "trimmed_field body key = (case body_field body key of JStr x \<Rightarrow> js_trim x | _ \<Rightarrow> '''')"

definition commerce_operation_of :: "string \<Rightarrow> CommerceOperation option" where
  "commerce_operation_of name = find (\<lambda>c. commerce_operation_name c = name) COMMERCE_OPERATIONS"

definition service_operation_of :: "json \<Rightarrow> ServiceOperation option" where
  "service_operation_of v =
     (case v of JStr x \<Rightarrow> find (\<lambda>c. operation_name c = x) SERVICE_OPERATIONS | _ \<Rightarrow> None)"

section \<open>Replies with a draft\<close>

record MiniAppCheckout =
  mc_publicId :: string
  mc_status :: CheckoutStatus
  mc_purpose :: CheckoutPurpose
  mc_orderType :: "OrderType option"
  mc_productName :: "string option"
  mc_panelName :: "string option"
  mc_username :: "string option"
  mc_originalPriceToman :: int
  mc_discountAmountToman :: int
  mc_finalPriceToman :: int
  mc_discountCode :: "string option"
  mc_needsCustomerInputBeforePayment :: bool
  mc_expiresAt :: string

text \<open>The creation date of a row is not a column of the model.\<close>

definition toMiniAppCheckout :: "checkout_row \<Rightarrow> MiniAppCheckout" where
  "toMiniAppCheckout c =
     (let field = (\<lambda>key. nonempty_string (map_of (as_record (co_productSnapshot c)) key)) in
      \<lparr>mc_publicId = take 8 (co_id c), mc_status = co_status c, mc_purpose = co_purpose c,
       mc_orderType = co_orderType c, mc_productName = field ''productName'',
       mc_panelName = field ''panelName'', mc_username = field ''serviceUsername'',
       mc_originalPriceToman = co_originalPriceToman c,
       mc_discountAmountToman = co_discountAmountToman c,
       mc_finalPriceToman = co_finalPriceToman c, mc_discountCode = field ''discountCode'',
       mc_needsCustomerInputBeforePayment = False, mc_expiresAt = toISOString (co_expiresAt c)\<rparr>)"

record quote_reply =
  qr_kind :: string
  qr_servicePublicId :: "string option"
  qr_productPublicId :: string
  qr_productName :: string
  qr_panelName :: "string option"
  qr_username :: "string option"
  qr_note :: "string option"
  qr_originalPriceToman :: int
  qr_discountAmountToman :: int
  qr_finalPriceToman :: int
  qr_discountCode :: "string option"
  qr_walletPayEnabled :: bool
  qr_affordable :: bool
  qr_walletBalanceToman :: int
  qr_expectedBalanceAfterToman :: int
  qr_quoteExpiresAt :: string
  qr_draftToken :: string

definition string_value :: "json option \<Rightarrow> string option" where
  "string_value v = (case v of Some (JStr x) \<Rightarrow> Some x | _ \<Rightarrow> None)"

definition quoteResponse :: "QuoteDto \<Rightarrow> checkout_row \<Rightarrow> bool \<Rightarrow> quote_reply" where
  "quoteResponse dto checkout walletPayEnabled =
     (let captured = snapshot_of checkout in
      \<lparr>qr_kind = (case qd_operation dto of NewPurchase \<Rightarrow> ''SERVICE'' | OnService x \<Rightarrow> operation_name x),
       qr_servicePublicId = None,
       qr_productPublicId = (case string_value (map_of captured ''productId'') of
         Some x \<Rightarrow> take 8 x | None \<Rightarrow> ''''),
       qr_productName = qd_optionLabel dto,
       qr_panelName = string_value (map_of captured ''panelName''),
       qr_username = (if qd_serviceLabel dto = '''' then None else Some (qd_serviceLabel dto)),
       qr_note = string_value (map_of captured ''serviceUserNote''),
       qr_originalPriceToman = qd_originalPriceToman dto,
       qr_discountAmountToman = qd_discountAmountToman dto,
       qr_finalPriceToman = qd_finalPriceToman dto, qr_discountCode = qd_discountCode dto,
       qr_walletPayEnabled = walletPayEnabled, qr_affordable = qd_affordable dto,
       qr_walletBalanceToman = qd_walletBalanceToman dto,
       qr_expectedBalanceAfterToman = qd_expectedBalanceAfterToman dto,
       qr_quoteExpiresAt = qd_quoteExpiresAt dto, qr_draftToken = qd_quote dto\<rparr>)"

definition addonResponse :: "ServiceOperation \<Rightarrow> string \<Rightarrow> string \<Rightarrow> QuoteDto \<Rightarrow> bool \<Rightarrow> quote_reply" where
  "addonResponse operation serviceId productPublicId dto walletPayEnabled =
     \<lparr>qr_kind = operation_name operation, qr_servicePublicId = Some serviceId,
      qr_productPublicId = productPublicId, qr_productName = qd_optionLabel dto, qr_panelName = None,
      qr_username = Some (qd_serviceLabel dto), qr_note = None,
      qr_originalPriceToman = qd_originalPriceToman dto,
      qr_discountAmountToman = qd_discountAmountToman dto,
      qr_finalPriceToman = qd_finalPriceToman dto, qr_discountCode = qd_discountCode dto,
      qr_walletPayEnabled = walletPayEnabled, qr_affordable = qd_affordable dto,
      qr_walletBalanceToman = qd_walletBalanceToman dto,
      qr_expectedBalanceAfterToman = qd_expectedBalanceAfterToman dto,
      qr_quoteExpiresAt = qd_quoteExpiresAt dto, qr_draftToken = qd_quote dto\<rparr>"

section \<open>POST /commerce/pay/wallet\<close>

record payment_reply =
  pp_checkout :: MiniAppCheckout
  pp_paymentPublicId :: string
  pp_orderPublicId :: string
  pp_balanceToman :: int
  pp_fulfillmentStatus :: OrderStatus
  pp_followUp :: string

definition pay_args ::
  "api_env \<Rightarrow> api_user \<Rightarrow> string \<Rightarrow> CommerceOperation \<Rightarrow> checkout_row \<Rightarrow> OrderType \<Rightarrow> string \<Rightarrow>
   WalletSettlementArgs" where
  "pay_args env owner key operation checkout orderType productId =
     \<lparr>sa_userId = au_id owner, sa_orderType = orderType, sa_productId = productId,
      sa_serviceId = co_serviceId checkout, sa_snapshot = snapshot_of checkout,
      sa_originalPriceToman = NInt (co_originalPriceToman checkout),
      sa_discountAmountToman = NInt (co_discountAmountToman checkout),
      sa_finalPriceToman = NInt (co_finalPriceToman checkout),
      sa_discountCodeId = co_discountCodeId checkout, sa_idempotencyKey = key,
      sa_isWalletEnabled = (\<lambda>s. walletEnabled (readable_db env s)),
      sa_existingCheckoutId = Some (co_id checkout), sa_isExistingCheckoutSettleable = None,
      sa_otherProductFulfillmentSnapshot = None,
      sa_claimReservation =
        (if operation = NewPurchase then Some (miniapp_claim (snapshot_of checkout) (au_id owner)) else None)\<rparr>"

text \<open>The reply, and the job that asks the bot to deliver the order.\<close>

definition payment_response :: "WalletSettlementSuccess \<Rightarrow> payment_reply" where
  "payment_response r =
     \<lparr>pp_checkout = toMiniAppCheckout (ws_checkout r), pp_paymentPublicId = take 8 (pay_id (ws_payment r)),
      pp_orderPublicId = take 8 (o_id (ws_order r)), pp_balanceToman = ws_newBalanceToman r,
      pp_fulfillmentStatus = o_status (ws_order r), pp_followUp = o_id (ws_order r)\<rparr>"

text \<open>
  The settlement and its answer. A draft without a product or an order type, which no code creates, is
  not followed into the database.
\<close>

definition settle_draft ::
  "api_env \<Rightarrow> api_user \<Rightarrow> string \<Rightarrow> CommerceOperation \<Rightarrow> checkout_row \<Rightarrow> db \<Rightarrow> payment_reply reply \<times> db" where
  "settle_draft env owner key operation checkout s =
     (case (co_orderType checkout, co_productId checkout) of
        (Some orderType, Some productId) \<Rightarrow>
          (case settleWalletOrder (cr_sha256 (ae_crypto env)) (\<lambda>n. ae_others env (4 + n))
              (pay_args env owner key operation checkout orderType productId) (ae_now env) s of
             (Settled r, s') \<Rightarrow> (Replied (if ws_alreadyPaid r then 200 else 201) (payment_response r), s')
           | (Refused code, s') \<Rightarrow>
               (Failed (if code = INSUFFICIENT_BALANCE then 409 else 400) (mapSettlementCode code), s')
           | (Raised _, s') \<Rightarrow> (Crashed, s'))
      | _ \<Rightarrow> (Crashed, s))"

text \<open>The world is quoted again and compared with the token that the client accepted.\<close>

definition pay_draft ::
  "api_env \<Rightarrow> api_user \<Rightarrow> string \<Rightarrow> QuotePayload \<Rightarrow> CommerceOperation \<Rightarrow> checkout_row \<Rightarrow> db \<Rightarrow>
   payment_reply reply \<times> db" where
  "pay_draft env owner key opened operation checkout s =
     (let s2 = ae_others env 2 s in
      case find (\<lambda>u. u_id u = au_id owner) (users s2) of
        None \<Rightarrow> (Failed 404 Code_NOT_FOUND, s2)
      | Some freshUser \<Rightarrow>
          let s3 = ae_others env 3 s2 in
          (case issueQuoteForCheckout (ae_crypto env) (ae_secret env) (ae_iv env) s3 (au_id owner)
              (checkoutPublicId (co_id checkout)) (u_balanceToman freshUser) (ae_now env) of
             QuoteThrows \<Rightarrow> (Crashed, s3)
           | QuoteRefused code \<Rightarrow> (Failed 409 (mapDomainCode code), s3)
           | QuoteIssued fresh \<Rightarrow>
               if qd_quote fresh = '''' then (Failed 409 Code_QUOTE_STALE, s3)
               else (case openQuote (ae_crypto env) (ae_secret env) (JStr (qd_quote fresh)) (ae_now env) of
                  Inl _ \<Rightarrow> (Failed 409 Code_QUOTE_STALE, s3)
                | Inr freshOpened \<Rightarrow>
                    if qp_fingerprint freshOpened \<noteq> qp_fingerprint opened
                       \<or> qp_finalPriceToman opened \<noteq> co_finalPriceToman checkout
                       \<or> qp_operation opened \<noteq> qp_operation freshOpened
                    then (Failed 409 Code_QUOTE_STALE, s3)
                    else settle_draft env owner key operation checkout s3)))"

definition payWallet :: "api_env \<Rightarrow> api_user \<Rightarrow> json \<Rightarrow> db \<Rightarrow> payment_reply reply \<times> db" where
  "payWallet env owner body s =
     (case ae_rejection env of
        Some (status, code) \<Rightarrow> (Rejected status code, s)
      | None \<Rightarrow>
          (case body_field body ''clientRequestId'' of
             JStr key \<Rightarrow>
               if \<not> isRenewalIdempotencyKey (JStr key) then (Failed 400 Code_BAD_REQUEST, s)
               else (case openQuote (ae_crypto env) (ae_secret env) (body_field body ''draftToken'') (ae_now env) of
                  Inl QUOTE_EXPIRED_REASON \<Rightarrow> (Failed 400 Code_QUOTE_EXPIRED, s)
                | Inl _ \<Rightarrow> (Failed 400 Code_BAD_REQUEST, s)
                | Inr opened \<Rightarrow>
                    if qp_userId opened \<noteq> au_id owner then (Failed 400 Code_BAD_REQUEST, s)
                    else (case commerce_operation_of (qp_operation opened) of
                       None \<Rightarrow> (Failed 400 Code_BAD_REQUEST, s)
                     | Some operation \<Rightarrow>
                         let s0 = ae_others env 0 s in
                         if \<not> requireRollout env [OPERATION_SETTLE_ROLLOUT_KEY operation] s0
                         then (Failed 403 Code_FEATURE_DISABLED, s0)
                         else let s1 = ae_others env 1 s0 in
                           (case checkoutByInternalId s1 (au_id owner) (qp_checkoutId opened) of
                              None \<Rightarrow> (Failed 409 Code_CHECKOUT_UNAVAILABLE, s1)
                            | Some checkout \<Rightarrow>
                                if co_status checkout \<noteq> CheckoutStatus_PENDING \<or> \<not> validMoney checkout
                                then (Failed 409 Code_CHECKOUT_UNAVAILABLE, s1)
                                else pay_draft env owner key opened operation checkout s1)))
           | _ \<Rightarrow> (Failed 400 Code_BAD_REQUEST, s)))"

section \<open>POST /commerce/checkout\<close>

definition showCheckout :: "api_env \<Rightarrow> api_user \<Rightarrow> json \<Rightarrow> db \<Rightarrow> MiniAppCheckout reply \<times> db" where
  "showCheckout env owner body s =
     (case ae_rejection env of
        Some (status, code) \<Rightarrow> (Rejected status code, s)
      | None \<Rightarrow>
          let s0 = ae_others env 0 s in
          if \<not> requireRollout env [MINIAPP_COMMERCE_CHECKOUT_ENABLED_KEY] s0
          then (Failed 403 Code_FEATURE_DISABLED, s0)
          else (case openQuote (ae_crypto env) (ae_secret env) (body_field body ''draftToken'') (ae_now env) of
             Inl QUOTE_EXPIRED_REASON \<Rightarrow> (Failed 400 Code_QUOTE_EXPIRED, s0)
           | Inl _ \<Rightarrow> (Failed 400 Code_BAD_REQUEST, s0)
           | Inr opened \<Rightarrow>
               if qp_userId opened \<noteq> au_id owner then (Failed 400 Code_BAD_REQUEST, s0)
               else let s1 = ae_others env 1 s0 in
                 (case checkoutByInternalId s1 (au_id owner) (qp_checkoutId opened) of
                    None \<Rightarrow> (Failed 404 Code_CHECKOUT_UNAVAILABLE, s1)
                  | Some checkout \<Rightarrow> (Replied 200 (toMiniAppCheckout checkout), s1))))"

section \<open>POST /commerce/quote and /commerce/services/:serviceId/addon-quote\<close>

text \<open>What the body of an idempotent request can throw: a refusal of the domain, or another error.\<close>

datatype route_exn = DomainRefusal CommerceResultCode | OtherError

fun as_execution :: "'d create_result \<times> db \<Rightarrow> (route_exn + CommerceIdempotencyResult) \<times> db" where
  "as_execution (DraftCreated c _, s) =
     (Inr \<lparr>resultCheckoutSessionId = Some (co_id c), resultPaymentId = None\<rparr>, s)"
| "as_execution (DraftRefused code _ _, s) = (Inl (DomainRefusal code), s)"
| "as_execution (DraftThrows, s) = (Inl OtherError, s)"

text \<open>After the request ran: the draft is read back, quoted and shown.\<close>

definition quote_draft ::
  "api_env \<Rightarrow> api_user \<Rightarrow> (QuoteDto \<Rightarrow> checkout_row \<Rightarrow> bool \<Rightarrow> quote_reply) \<Rightarrow> string \<Rightarrow> db \<Rightarrow>
   quote_reply reply \<times> db" where
  "quote_draft env owner response checkoutId s =
     (let s1 = ae_others env 20 s in
      case checkoutByInternalId s1 (au_id owner) checkoutId of
        None \<Rightarrow> (Failed 404 Code_CHECKOUT_UNAVAILABLE, s1)
      | Some checkout \<Rightarrow>
          let s2 = ae_others env 21 s1 in
          (case issueQuoteForCheckout (ae_crypto env) (ae_secret env) (ae_iv env) s2 (au_id owner)
              (checkoutPublicId (co_id checkout)) (au_balanceToman owner) (ae_now env) of
             QuoteThrows \<Rightarrow> (Failed 503 Code_INTERNAL, s2)
           | QuoteRefused code \<Rightarrow> (Failed 409 (mapDomainCode code), s2)
           | QuoteIssued dto \<Rightarrow>
               let s3 = ae_others env 22 s2 in
               (Replied 200 (response dto checkout (walletEnabled (readable_db env s3))), s3)))"

definition after_run ::
  "api_env \<Rightarrow> api_user \<Rightarrow> (QuoteDto \<Rightarrow> checkout_row \<Rightarrow> bool \<Rightarrow> quote_reply) \<Rightarrow> quote_reply reply \<Rightarrow>
   route_exn run_outcome \<times> db \<Rightarrow> quote_reply reply \<times> db" where
  "after_run env owner response missing out =
     (case out of
        (RunConflict, s) \<Rightarrow> (Failed 409 Code_IDEMPOTENCY_CONFLICT, s)
      | (RunThrows (DomainRefusal code), s) \<Rightarrow> (Failed 409 (mapDomainCode code), s)
      | (RunThrows OtherError, s) \<Rightarrow> (Failed 503 Code_INTERNAL, s)
      | (RunDbFault, s) \<Rightarrow> (Failed 503 Code_INTERNAL, s)
      | (RunExecuted v, s) \<Rightarrow>
          (case resultCheckoutSessionId v of
             None \<Rightarrow> (missing, s) | Some i \<Rightarrow> quote_draft env owner response i s)
      | (RunReplayed v, s) \<Rightarrow>
          (case resultCheckoutSessionId v of
             None \<Rightarrow> (missing, s) | Some i \<Rightarrow> quote_draft env owner response i s))"

definition addonQuote ::
  "api_env \<Rightarrow> (nat \<Rightarrow> db \<Rightarrow> db) \<Rightarrow> api_user \<Rightarrow> string \<Rightarrow> json \<Rightarrow> db \<Rightarrow> quote_reply reply \<times> db" where
  "addonQuote env inner owner serviceId body s =
     (case ae_rejection env of
        Some (status, code) \<Rightarrow> (Rejected status code, s)
      | None \<Rightarrow>
          (case (service_operation_of (body_field body ''kind''), body_field body ''productPublicId'',
               body_field body ''clientRequestId'') of
             (Some operation, JStr productPublicId, JStr clientRequestId) \<Rightarrow>
               if \<not> isValidClientRequestId (JStr clientRequestId) then (Failed 400 Code_BAD_REQUEST, s)
               else let s0 = ae_others env 0 s in
                 if \<not> requireRollout env [MINIAPP_COMMERCE_CHECKOUT_ENABLED_KEY] s0
                 then (Failed 403 Code_FEATURE_DISABLED, s0)
                 else let discountCode = trimmed_field body ''discountCode'' in
                   after_run env owner
                     (\<lambda>dto _ enabled. addonResponse operation serviceId productPublicId dto enabled)
                     (Failed 404 Code_CHECKOUT_UNAVAILABLE)
                     (runIdempotentCommerce (\<lambda>n. ae_others env (10 + n))
                        \<lparr>ra_userId = au_id owner, ra_clientRequestId = clientRequestId,
                         ra_operation = commerce_checkout_confirm,
                         ra_fingerprint = commerceFingerprint (ae_crypto env)
                           [operation_name operation, serviceId, productPublicId, discountCode]\<rparr>
                        (\<lambda>t. as_execution (createOperationCheckout inner (ae_now env)
                           \<lparr>ol_userId = au_id owner, ol_publicServiceId = serviceId,
                            ol_operation = operation, ol_group = au_group owner\<rparr>
                           productPublicId (if discountCode = '''' then None else Some discountCode) t)) s0)
           | _ \<Rightarrow> (Failed 400 Code_BAD_REQUEST, s)))"

definition username_mode_of :: "json \<Rightarrow> ServiceUsernameMode option" where
  "username_mode_of v =
     (if v = JStr ''RANDOM'' then Some UsernameMode_RANDOM
      else if v = JStr ''CUSTOM'' then Some UsernameMode_CUSTOM else None)"

text \<open>An exhausted source of random bytes counts as an exception.\<close>

definition purchaseQuote ::
  "api_env \<Rightarrow> (nat \<Rightarrow> db \<Rightarrow> db) \<Rightarrow> (nat \<Rightarrow> (db \<Rightarrow> db) \<times> (db \<Rightarrow> db)) \<Rightarrow> probe \<Rightarrow> nat list list \<Rightarrow>
   api_user \<Rightarrow> json \<Rightarrow> db \<Rightarrow> quote_reply reply \<times> db" where
  "purchaseQuote env inner rinner probe bufs owner body s =
     (case ae_rejection env of
        Some (status, code) \<Rightarrow> (Rejected status code, s)
      | None \<Rightarrow>
          let s0 = ae_others env 0 s in
          if \<not> requireRollout env [MINIAPP_COMMERCE_CHECKOUT_ENABLED_KEY] s0
          then (Failed 403 Code_FEATURE_DISABLED, s0)
          else
            (case (body_field body ''productPublicId'', username_mode_of (body_field body ''usernameMode''),
                 body_field body ''clientRequestId'') of
               (JStr productPublicId, Some mode, JStr clientRequestId) \<Rightarrow>
                 let note = trimmed_field body ''note'';
                     discountCode = trimmed_field body ''discountCode'';
                     username = (case body_field body ''username'' of JStr x \<Rightarrow> x | _ \<Rightarrow> '''')
                 in if body_field body ''kind'' \<noteq> JStr ''SERVICE''
                       \<or> \<not> isValidClientRequestId (JStr clientRequestId)
                       \<or> length note > 200 \<or> length discountCode > 64
                    then (Failed 400 Code_BAD_REQUEST, s0)
                    else after_run env owner quoteResponse (Failed 503 Code_INTERNAL)
                      (runIdempotentCommerce (\<lambda>n. ae_others env (10 + n))
                        \<lparr>ra_userId = au_id owner, ra_clientRequestId = clientRequestId,
                         ra_operation = commerce_checkout_confirm,
                         ra_fingerprint = commerceFingerprint (ae_crypto env)
                           [''purchase'', productPublicId, (if mode = UsernameMode_RANDOM then ''RANDOM'' else ''CUSTOM''),
                            username, note, discountCode]\<rparr>
                        (\<lambda>t. case createPurchaseCheckout inner rinner probe (ae_now env)
                             \<lparr>pc_userId = au_id owner, pc_group = au_group owner,
                              pc_publicProductId = productPublicId, pc_usernameMode = mode,
                              pc_requestedUsername = Some username, pc_draftNonce = clientRequestId,
                              pc_note = (if note = '''' then None else Some note),
                              pc_discountCode = (if discountCode = '''' then None else Some discountCode)\<rparr>
                             bufs t of
                           None \<Rightarrow> (Inl OtherError, t) | Some out \<Rightarrow> as_execution out) s0)
             | _ \<Rightarrow> (Failed 400 Code_BAD_REQUEST, s0)))"

section \<open>GET /commerce/flags and GET /commerce/checkouts/:checkoutId\<close>

definition commerceFlags :: "api_env \<Rightarrow> db \<Rightarrow> (string \<times> bool) list" where
  "commerceFlags env s = readMiniAppRolloutState (readable_db env s)"

definition public_checkout :: "string \<Rightarrow> string \<Rightarrow> checkout_row \<Rightarrow> bool" where
  "public_checkout userId publicId c \<longleftrightarrow> co_userId c = userId \<and> starts_with (co_id c) (js_lower publicId)"

definition readCheckout :: "api_user \<Rightarrow> string \<Rightarrow> db \<Rightarrow> MiniAppCheckout reply" where
  "readCheckout owner publicId s =
     (if \<not> hex8 publicId then Failed 404 Code_NOT_FOUND
      else case take 2 (filter (public_checkout (au_id owner) publicId) (checkouts s)) of
        [c] \<Rightarrow> Replied 200 (toMiniAppCheckout c)
      | _ \<Rightarrow> Failed 404 Code_NOT_FOUND)"

section \<open>What a payment settles\<close>

definition uninterrupted :: "api_env \<Rightarrow> bool" where
  "uninterrupted env \<longleftrightarrow> (\<forall>n s. ae_others env n s = s)"

lemma uninterruptedD: "uninterrupted env \<Longrightarrow> ae_others env n s = s"
  by (simp add: uninterrupted_def)

lemma elapsed_uninterrupted: "uninterrupted env \<Longrightarrow> elapsed (\<lambda>n. ae_others env (4 + n)) n s = s"
  by (induction n) (simp_all add: elapsed_simps uninterruptedD)

text \<open>The steps of a payment that succeeded.\<close>

lemma payWallet_Replied:
  assumes q: "uninterrupted env" and run: "payWallet env owner body s = (Replied status r, s')"
  obtains key opened operation checkout u fresh freshOpened orderType productId result
  where "body_field body ''clientRequestId'' = JStr key"
    and "openQuote (ae_crypto env) (ae_secret env) (body_field body ''draftToken'') (ae_now env) = Inr opened"
    and "qp_userId opened = au_id owner" and "commerce_operation_of (qp_operation opened) = Some operation"
    and "requireRollout env [OPERATION_SETTLE_ROLLOUT_KEY operation] s"
    and "checkoutByInternalId s (au_id owner) (qp_checkoutId opened) = Some checkout"
    and "co_status checkout = CheckoutStatus_PENDING" and "validMoney checkout"
    and "find (\<lambda>u. u_id u = au_id owner) (users s) = Some u"
    and "issueQuoteForCheckout (ae_crypto env) (ae_secret env) (ae_iv env) s (au_id owner)
          (checkoutPublicId (co_id checkout)) (u_balanceToman u) (ae_now env) = QuoteIssued fresh"
    and "openQuote (ae_crypto env) (ae_secret env) (JStr (qd_quote fresh)) (ae_now env) = Inr freshOpened"
    and "qp_fingerprint freshOpened = qp_fingerprint opened"
    and "qp_finalPriceToman opened = co_finalPriceToman checkout"
    and "qp_operation opened = qp_operation freshOpened"
    and "co_orderType checkout = Some orderType" and "co_productId checkout = Some productId"
    and "settleWalletOrder (cr_sha256 (ae_crypto env)) (\<lambda>n. ae_others env (4 + n))
          (pay_args env owner key operation checkout orderType productId) (ae_now env) s = (Settled result, s')"
    and "r = payment_response result" and "status = (if ws_alreadyPaid result then 200 else 201)"
proof -
  note n = uninterruptedD [OF q]
  have rej: "ae_rejection env = None" using run by (cases "ae_rejection env") (auto simp: payWallet_def)
  obtain key where key: "body_field body ''clientRequestId'' = JStr key"
      "isRenewalIdempotencyKey (JStr key)"
    using run rej by (auto simp: payWallet_def split: json.splits if_splits)
  obtain opened operation where op:
      "openQuote (ae_crypto env) (ae_secret env) (body_field body ''draftToken'') (ae_now env) = Inr opened"
      "qp_userId opened = au_id owner" "commerce_operation_of (qp_operation opened) = Some operation"
    using run rej key by (auto simp: payWallet_def split: sum.splits QuoteFailure.splits if_splits option.splits)
  have roll: "requireRollout env [OPERATION_SETTLE_ROLLOUT_KEY operation] s"
    using run rej key op n by (auto simp: payWallet_def Let_def split: if_splits)
  obtain checkout where c: "checkoutByInternalId s (au_id owner) (qp_checkoutId opened) = Some checkout"
      "co_status checkout = CheckoutStatus_PENDING" "validMoney checkout"
    using run rej key op n roll by (auto simp: payWallet_def Let_def split: option.splits if_splits)
  have pd: "pay_draft env owner key opened operation checkout s = (Replied status r, s')"
    using run rej key op n roll c by (simp add: payWallet_def Let_def)
  obtain u where u: "find (\<lambda>u. u_id u = au_id owner) (users s) = Some u"
    using pd n by (auto simp: pay_draft_def Let_def split: option.splits)
  obtain fresh where f: "issueQuoteForCheckout (ae_crypto env) (ae_secret env) (ae_iv env) s (au_id owner)
      (checkoutPublicId (co_id checkout)) (u_balanceToman u) (ae_now env) = QuoteIssued fresh"
    using pd n u by (auto simp: pay_draft_def Let_def split: quote_result.splits)
  obtain freshOpened where fo:
      "openQuote (ae_crypto env) (ae_secret env) (JStr (qd_quote fresh)) (ae_now env) = Inr freshOpened"
      "qp_fingerprint freshOpened = qp_fingerprint opened"
      "qp_finalPriceToman opened = co_finalPriceToman checkout"
      "qp_operation opened = qp_operation freshOpened"
    using pd n u f by (auto simp: pay_draft_def Let_def split: sum.splits if_splits)
  then have "settle_draft env owner key operation checkout s = (Replied status r, s')"
    using pd n u f by (auto simp: pay_draft_def Let_def split: if_splits)
  then show ?thesis
    using that [OF key(1) op roll c u f fo]
    by (auto simp: settle_draft_def split: option.splits prod.splits settlement_outcome.splits)
qed

lemma framed_pay_args: "framed_callback (pay_args env owner key operation checkout orderType productId)"
  using miniapp.reservation_claimer_axioms by (simp add: framed_callback_def pay_args_def)

text \<open>
  What the payment relies on: the cipher opens what it sealed, the hash is never empty, and stored
  identifiers are lower-case and prices in the range of their column.
\<close>

definition api_ok :: "api_env \<Rightarrow> api_user \<Rightarrow> db \<Rightarrow> bool" where
  "api_ok env owner s \<longleftrightarrow>
     aead_correct (ae_crypto env) (cr_scrypt (ae_crypto env) (ae_secret env) QUOTE_KEY_CONTEXT)
     \<and> length (ae_iv env) = IV_BYTES \<and> (\<forall>x. cr_sha256 (ae_crypto env) x \<noteq> '''')
     \<and> \<bar>ae_now env\<bar> \<le> 8640000000000000 \<and> au_id owner \<noteq> ''''
     \<and> (\<forall>c \<in> set (checkouts s). co_id c \<noteq> '''' \<and> js_lower (co_id c) = co_id c \<and> int4 (co_finalPriceToman c))"

lemma take_lower: "js_lower i = i \<Longrightarrow> js_lower (take n i) = take n i"
  by (metis js_lower_def take_map)

lemma owned_pending_self:
  assumes "co_id c' = i" and "js_lower i = i"
    and "co_userId c' = u" and "co_status c' = CheckoutStatus_PENDING" and "co_settledByPaymentId c' = None"
    and "co_purpose c' = CheckoutPurpose_ORDER_PAYMENT"
  shows "owned_pending u (checkoutPublicId i) c'"
  using assms by (simp add: owned_pending_def checkoutPublicId_def take_lower)

lemma loaded_is:
  assumes "loadOwnedPendingCheckout s u pid now = Some (c, oper)" and "c' \<in> set (checkouts s)"
    and "owned_pending u pid c'"
  shows "c' = c"
proof -
  have f: "take 2 (filter (owned_pending u pid) (checkouts s)) = [c]"
    using assms(1) by (auto simp: loadOwnedPendingCheckout_def split: if_splits list.splits)
  then have e: "filter (owned_pending u pid) (checkouts s) = [c]"
    by (cases "filter (owned_pending u pid) (checkouts s)" rule: list.exhaust;
        cases "tl (filter (owned_pending u pid) (checkouts s))") auto
  have "c' \<in> set (filter (owned_pending u pid) (checkouts s))" using assms(2,3) by simp
  then show ?thesis unfolding e by simp
qed

text \<open>A payment of status 201 is a fresh settlement of the draft that the token names.\<close>

lemma paid_draft:
  assumes q: "uninterrupted env" and ids: "ids_ok s"
    and run: "settleWalletOrder digest (\<lambda>n. ae_others env (4 + n))
      (pay_args env owner key operation checkout orderType productId) now s = (Settled result, s')"
    and new: "\<not> ws_alreadyPaid result" and c: "checkout \<in> set (checkouts s)"
  obtains u pid where "find (\<lambda>u. u_id u = au_id owner) (users s) = Some u"
    and "co_finalPriceToman checkout \<le> u_balanceToman u"
    and "users s' = update_where (\<lambda>x. u_id x = au_id owner)
          (debited (co_discountAmountToman checkout) (co_finalPriceToman checkout)) (users s)"
    and "co_userId checkout = au_id owner" and "co_purpose checkout = CheckoutPurpose_ORDER_PAYMENT"
    and "co_settledByPaymentId checkout = None" and "now < co_expiresAt checkout"
    and "checkouts s' = update_where (\<lambda>c. co_id c = co_id checkout)
          (\<lambda>c. c\<lparr>co_settledByPaymentId := Some pid\<rparr>)
          (update_where (\<lambda>c. co_id c = co_id checkout) (paid_at now) (checkouts s))"
    and "settings s' = settings s"
proof -
  let ?args = "pay_args env owner key operation checkout orderType productId"
  have ids4: "ids_ok (elapsed (\<lambda>n. ae_others env (4 + n)) 4 s)"
    using ids elapsed_uninterrupted [OF q] by simp
  obtain am where am: "financial_amounts ?args = Some am"
    and st: "settled ?args am (settlementPayloadFingerprint digest ?args am)
        (checkoutExpiryMinutes (elapsed (\<lambda>n. ae_others env (4 + n)) 3 s)) now s result s'"
    using fresh_settlement [OF run new ids4 framed_pay_args] elapsed_uninterrupted [OF q] by metis
  have a: "am = (co_originalPriceToman checkout, co_discountAmountToman checkout, co_finalPriceToman checkout)"
    using financial_amounts_Some [of ?args] am by (cases am) (auto simp: pay_args_def)
  obtain u table pid oid wid where u: "find (\<lambda>u. u_id u = sa_userId ?args) (users s) = Some u"
      "snd (snd am) \<le> u_balanceToman u"
    and t: "taken ?args am (checkoutExpiryMinutes (elapsed (\<lambda>n. ae_others env (4 + n)) 3 s)) now s
      (ws_checkout result) table"
    and us: "users s' = update_where (\<lambda>x. u_id x = sa_userId ?args) (debited (fst (snd am)) (snd (snd am))) (users s)"
    and cs: "checkouts s' = update_where (\<lambda>c. co_id c = co_id (ws_checkout result))
          (\<lambda>c. c\<lparr>co_settledByPaymentId := Some pid\<rparr>) table"
    and o: "other_tables_kept s s'"
    using settledE [OF st] by metis
  let ?k = "draft_settleable ?args (co_finalPriceToman checkout) now (co_id checkout)"
  obtain c0 where c0: "c0 \<in> set (checkouts s)" "?k c0" "ws_checkout result = paid_at now c0"
    and table: "table = update_where ?k (paid_at now) (checkouts s)"
    using t a by (auto simp: taken_def pay_args_def)
  have un: "unique_by co_id (checkouts s)" using ids by (simp add: ids_ok_def)
  have c0c: "c0 = checkout" using unique_by_inj [OF un c0(1) c] c0(2) by (simp add: draft_settleable_def)
  have only: "?k x \<longleftrightarrow> co_id x = co_id checkout" if "x \<in> set (checkouts s)" for x
    using unique_by_inj [OF un that c] c0(2) c0c by (auto simp: draft_settleable_def)
  have "table = update_where (\<lambda>c. co_id c = co_id checkout) (paid_at now) (checkouts s)"
    unfolding table update_where_def by (rule map_cong) (simp_all add: only)
  with u us cs o a c0 c0c show ?thesis
    by (intro that [of u pid]) (simp_all add: pay_args_def draft_settleable_def other_tables_kept_def)
qed

text \<open>The token of a quote carries the fingerprint of the world that was quoted.\<close>

lemma issued_fingerprint:
  assumes ok: "api_ok env owner s" and i: "issueQuoteForCheckout (ae_crypto env) (ae_secret env) (ae_iv env) s
      (au_id owner) pid balance (ae_now env) = QuoteIssued fresh"
    and op: "openQuote (ae_crypto env) (ae_secret env) (JStr (qd_quote fresh)) (ae_now env) = Inr freshOpened"
  obtains c oper productId state where "loadOwnedPendingCheckout s (au_id owner) pid (ae_now env) = Some (c, oper)"
    and "map_of (snapshot_of c) ''productId'' = Some (JStr productId)"
    and "loadQuoteState s (au_id owner) productId (co_serviceId c) = Some state"
    and "qp_fingerprint freshOpened = quoteFingerprint (ae_crypto env) (priced_world productId c state)"
proof (rule quote_issued [OF i])
  fix c oper productId state
  assume l: "loadOwnedPendingCheckout s (au_id owner) pid (ae_now env) = Some (c, oper)"
    and m: "map_of (as_record (co_productSnapshot c)) ''productId'' = Some (JStr productId)"
    and st: "loadQuoteState s (au_id owner) productId (co_serviceId c) = Some state"
    and q: "sealQuote (ae_crypto env) (ae_secret env) (ae_iv env)
          (quote_payload (ae_crypto env) (au_id owner) productId c oper state
             (ae_now env + RENEWAL_QUOTE_TTL_SECONDS * 1000)) = Some (qd_quote fresh)"
  let ?p = "quote_payload (ae_crypto env) (au_id owner) productId c oper state
      (ae_now env + RENEWAL_QUOTE_TTL_SECONDS * 1000)"
  obtain key where key: "quoteKey (ae_crypto env) (ae_secret env) = Some key"
    and t: "qd_quote fresh = sealed_token (ae_crypto env) key (ae_iv env) (object_text (quote_body ?p))"
    using q by (auto simp: sealQuote_def split: option.splits)
  have k: "key = cr_scrypt (ae_crypto env) (ae_secret env) QUOTE_KEY_CONTEXT"
    using key by (simp add: quoteKey_def split: if_splits)
  have c: "c \<in> set (checkouts s)" using load_owned_pending [OF l] by blast
  have "payload_ok ?p"
    using ok c by (auto simp: payload_ok_def quote_payload_def api_ok_def quoteFingerprint_def int4_def
        INT4_MIN_def INT4_MAX_def MAX_SAFE_INTEGER_def RENEWAL_QUOTE_TTL_SECONDS_def)
  then have "freshOpened = ?p"
    using sealed_token_opens [OF key] ok op t k by (auto simp: api_ok_def split: if_splits)
  then show ?thesis using that [OF l _ st] m by (simp add: quote_payload_def snapshot_of_def)
qed


lemma openQuote_later:
  "openQuote cr secret v now = Inr p \<Longrightarrow>
   openQuote cr secret v now' = (if now' < qp_expiresAtMs p then Inr p else Inl QUOTE_EXPIRED_REASON)"
  by (auto simp: openQuote_def Let_def not_le split: json.splits if_splits option.splits)

text \<open>
  C15. A payment that settled cannot be replayed through the route. The settlement answers a retry of
  its key with the first result, but the route asks whether the draft is pending before it calls the
  settlement: the same request sent again, at any later time, is answered that the checkout is
  unavailable, or that the quote has expired, and never with the payment that was made.
\<close>

theorem settled_payment_is_refused_on_retry:
  assumes "payWallet env owner body s = (Replied 201 r, s')" and "uninterrupted env" and "ids_ok s"
  shows "payWallet (env\<lparr>ae_now := later\<rparr>) owner body s'
    \<in> {(Failed 409 Code_CHECKOUT_UNAVAILABLE, s'), (Failed 400 Code_QUOTE_EXPIRED, s')}"
proof (rule payWallet_Replied [OF assms(2,1)])
  fix key opened operation checkout u fresh freshOpened orderType productId result
  assume key: "body_field body ''clientRequestId'' = JStr key"
    and o: "openQuote (ae_crypto env) (ae_secret env) (body_field body ''draftToken'') (ae_now env) = Inr opened"
      "qp_userId opened = au_id owner" "commerce_operation_of (qp_operation opened) = Some operation"
    and roll: "requireRollout env [OPERATION_SETTLE_ROLLOUT_KEY operation] s"
    and c: "checkoutByInternalId s (au_id owner) (qp_checkoutId opened) = Some checkout"
    and run: "settleWalletOrder (cr_sha256 (ae_crypto env)) (\<lambda>n. ae_others env (4 + n))
          (pay_args env owner key operation checkout orderType productId) (ae_now env) s = (Settled result, s')"
    and st: "(201 :: nat) = (if ws_alreadyPaid result then 200 else 201)"
  have cin: "checkout \<in> set (checkouts s)" "co_id checkout = qp_checkoutId opened"
    using c find_Some_in [of _ "checkouts s" checkout] by (auto simp: checkoutByInternalId_def)
  have new: "\<not> ws_alreadyPaid result" using st by (auto split: if_splits)
  obtain pid where cs: "checkouts s' = update_where (\<lambda>c. co_id c = co_id checkout)
          (\<lambda>c. c\<lparr>co_settledByPaymentId := Some pid\<rparr>)
          (update_where (\<lambda>c. co_id c = co_id checkout) (paid_at (ae_now env)) (checkouts s))"
      "settings s' = settings s"
    by (rule paid_draft [OF assms(2,3) run new cin(1)], rule that, assumption+)
  have paid: "co_status c' = CheckoutStatus_PAID"
    if "checkoutByInternalId s' (au_id owner) (qp_checkoutId opened) = Some c'" for c'
  proof -
    have "c' \<in> set (checkouts s') \<and> co_id c' = qp_checkoutId opened"
      using that find_Some_in [of _ "checkouts s'" c'] by (auto simp: checkoutByInternalId_def)
    then show ?thesis by (auto simp: cs(1) cin(2) set_update_where paid_at_def split: if_splits)
  qed
  have roll': "requireRollout (env\<lparr>ae_now := later\<rparr>) [OPERATION_SETTLE_ROLLOUT_KEY operation] s'"
    using roll cs(2) by (simp add: requireRollout_def isMiniAppRolloutEnabled_def readable_db_def setting_value_def
        split: if_splits)
  have rej: "ae_rejection env = None" "isRenewalIdempotencyKey (JStr key)"
    using assms(1) key by (auto simp: payWallet_def split: option.splits if_splits)
  show ?thesis
    using key o rej roll' paid openQuote_later [OF o(1), of later] uninterruptedD [OF assms(2)]
    by (auto simp: payWallet_def Let_def split: option.splits)
qed

section \<open>A quote request creates one draft\<close>

lemma run_leaves_row:
  assumes "runIdempotentCommerce others args execute s = (out, s')"
    and "out = RunExecuted v \<or> out = RunReplayed v"
  shows "\<exists>r. stored_row args s' = Some r \<and> ir_fingerprint r = ra_fingerprint args"
  using assms stored_after_create
  by (fastforce simp: runIdempotentCommerce_def Let_def result_row_def
      split: option.splits if_splits prod.splits sum.splits thrown.splits)

lemma run_with_row:
  assumes "stored_row args s = Some r"
  shows "runIdempotentCommerce (\<lambda>_ s. s) args execute s =
    (if ir_fingerprint r \<noteq> ra_fingerprint args \<or> ir_operation r \<noteq> ra_operation args then (RunConflict, s)
     else (RunReplayed (stored_result r), s))"
  using assms by (simp add: runIdempotentCommerce_def)

lemma quote_draft_reads:
  "uninterrupted env \<Longrightarrow> snd (quote_draft env owner response i s) = s"
  by (simp add: quote_draft_def Let_def uninterruptedD split: option.split quote_result.split)

lemma after_run_reads:
  "uninterrupted env \<Longrightarrow> snd (after_run env owner response missing (out, s)) = s"
  by (cases out) (auto simp: after_run_def quote_draft_reads split: option.split route_exn.split)

lemma after_run_Replied:
  assumes "after_run env owner response (Failed st code) (out, s) = (Replied st' q, s')"
  shows "\<exists>v. out = RunExecuted v \<or> out = RunReplayed v"
  using assms by (cases out) (auto simp: after_run_def split: route_exn.splits)

text \<open>The request of an add-on quote, as far as its body says.\<close>

definition addon_run_args :: "api_env \<Rightarrow> api_user \<Rightarrow> string \<Rightarrow> ServiceOperation \<Rightarrow> string \<Rightarrow> string \<Rightarrow> string \<Rightarrow> run_args" where
  "addon_run_args env owner serviceId operation product key discountCode =
     \<lparr>ra_userId = au_id owner, ra_clientRequestId = key, ra_operation = commerce_checkout_confirm,
      ra_fingerprint = commerceFingerprint (ae_crypto env)
        [operation_name operation, serviceId, product, discountCode]\<rparr>"

definition addon_request :: "json \<Rightarrow> ServiceOperation \<Rightarrow> string \<Rightarrow> string \<Rightarrow> bool" where
  "addon_request body operation product key \<longleftrightarrow>
     service_operation_of (body_field body ''kind'') = Some operation
     \<and> body_field body ''productPublicId'' = JStr product
     \<and> body_field body ''clientRequestId'' = JStr key \<and> isValidClientRequestId (JStr key)"

lemma addonQuote_eq:
  assumes "addon_request body operation product key" and "ae_rejection env = None" and "uninterrupted env"
    and "requireRollout env [MINIAPP_COMMERCE_CHECKOUT_ENABLED_KEY] s"
  obtains execute response where "addonQuote env inner owner serviceId body s =
    after_run env owner response (Failed 404 Code_CHECKOUT_UNAVAILABLE)
      (runIdempotentCommerce (\<lambda>_ s. s)
        (addon_run_args env owner serviceId operation product key (trimmed_field body ''discountCode'')) execute s)"
proof -
  have "(\<lambda>n. ae_others env (10 + n)) = (\<lambda>_ s. s)" using assms(3) by (auto simp: uninterrupted_def)
  then show ?thesis
    using assms that by (auto simp: addonQuote_def addon_request_def addon_run_args_def Let_def uninterruptedD)
qed

lemma addonQuote_Replied:
  assumes "addonQuote env inner owner serviceId body s = (Replied st q, s')" and "uninterrupted env"
  obtains operation product key where "addon_request body operation product key"
    and "ae_rejection env = None" and "requireRollout env [MINIAPP_COMMERCE_CHECKOUT_ENABLED_KEY] s"
  using assms
  by (auto simp: addonQuote_def addon_request_def Let_def uninterruptedD
      split: option.splits json.splits if_splits)

lemma addon_leaves_row:
  assumes run: "addonQuote env inner owner serviceId body s = (Replied st q, s')" and q: "uninterrupted env"
    and req: "addon_request body operation product key"
  shows "\<exists>r. stored_row (addon_run_args env owner serviceId operation product key
      (trimmed_field body ''discountCode'')) s' = Some r
    \<and> ir_fingerprint r = ra_fingerprint (addon_run_args env owner serviceId operation product key
      (trimmed_field body ''discountCode''))"
proof -
  let ?args = "addon_run_args env owner serviceId operation product key (trimmed_field body ''discountCode'')"
  have pre: "ae_rejection env = None" "requireRollout env [MINIAPP_COMMERCE_CHECKOUT_ENABLED_KEY] s"
    using addonQuote_Replied [OF run q] by blast+
  obtain execute response where e: "addonQuote env inner owner serviceId body s =
      after_run env owner response (Failed 404 Code_CHECKOUT_UNAVAILABLE)
        (runIdempotentCommerce (\<lambda>_ s. s) ?args execute s)"
    using addonQuote_eq [OF req pre(1) q pre(2)] by blast
  obtain out t where o: "runIdempotentCommerce (\<lambda>_ s. s) ?args execute s = (out, t)"
    by (cases "runIdempotentCommerce (\<lambda>_ s. s) ?args execute s")
  have a: "after_run env owner response (Failed 404 Code_CHECKOUT_UNAVAILABLE) (out, t) = (Replied st q, s')"
    using run e o by simp
  then have "s' = t" using after_run_reads [OF q] by (metis snd_conv)
  moreover obtain v where "out = RunExecuted v \<or> out = RunReplayed v" using after_run_Replied [OF a] by blast
  ultimately show ?thesis using run_leaves_row [OF o] by blast
qed

lemma addon_fingerprint_differs:
  assumes "inj (cr_sha256 (ae_crypto env))" and "(operation', product', code') \<noteq> (operation, product, code)"
  shows "ra_fingerprint (addon_run_args env owner serviceId operation' product' key code')
    \<noteq> ra_fingerprint (addon_run_args env owner serviceId operation product key code)"
proof
  assume "ra_fingerprint (addon_run_args env owner serviceId operation' product' key code')
    = ra_fingerprint (addon_run_args env owner serviceId operation product key code)"
  then have "concat (map framed_part [operation_name operation', serviceId, product', code'])
      = concat (map framed_part [operation_name operation, serviceId, product, code])"
    unfolding addon_run_args_def commerceFingerprint_def run_args.simps by (rule injD [OF assms(1)])
  from framed_parts_inject [OF this] have "operation_name operation' = operation_name operation"
    "product' = product" "code' = code" by simp_all
  moreover from this(1) have "operation' = operation" by (cases operation; cases operation') simp_all
  ultimately show False using assms(2) by simp
qed

text \<open>
  A quote request creates one draft. After an add-on quote was answered, the same request sent
  again changes nothing in the database, and a request that reuses its key for another operation,
  option or discount code is refused as a conflict, also without a change, provided the hash does not
  collide.
\<close>

theorem repeated_quote_request_creates_nothing:
  assumes "addonQuote env inner owner serviceId body s = (Replied 200 q, s')" and "uninterrupted env"
    and "requireRollout env [MINIAPP_COMMERCE_CHECKOUT_ENABLED_KEY] s'"
    and "addon_request body operation product key" and "addon_request body' operation' product' key"
    and "inj (cr_sha256 (ae_crypto env))"
  shows "snd (addonQuote env inner' owner serviceId body s') = s'
    \<and> ((operation', product', trimmed_field body' ''discountCode'')
          \<noteq> (operation, product, trimmed_field body ''discountCode'')
        \<longrightarrow> addonQuote env inner' owner serviceId body' s' = (Failed 409 Code_IDEMPOTENCY_CONFLICT, s'))"
proof -
  let ?args = "addon_run_args env owner serviceId operation product key (trimmed_field body ''discountCode'')"
  let ?args' = "addon_run_args env owner serviceId operation' product' key (trimmed_field body' ''discountCode'')"
  have rej: "ae_rejection env = None" using addonQuote_Replied [OF assms(1,2)] by blast
  obtain r where r: "stored_row ?args s' = Some r" "ir_fingerprint r = ra_fingerprint ?args"
    using addon_leaves_row [OF assms(1,2,4)] by blast
  have r': "stored_row ?args' s' = Some r" using r(1) by (simp add: stored_row_def addon_run_args_def)
  obtain execute response where e: "addonQuote env inner' owner serviceId body s' =
      after_run env owner response (Failed 404 Code_CHECKOUT_UNAVAILABLE)
        (runIdempotentCommerce (\<lambda>_ s. s) ?args execute s')"
    using addonQuote_eq [OF assms(4) rej assms(2,3)] by blast
  obtain execute' response' where e': "addonQuote env inner' owner serviceId body' s' =
      after_run env owner response' (Failed 404 Code_CHECKOUT_UNAVAILABLE)
        (runIdempotentCommerce (\<lambda>_ s. s) ?args' execute' s')"
    using addonQuote_eq [OF assms(5) rej assms(2,3)] by blast
  have "snd (addonQuote env inner' owner serviceId body s') = s'"
    unfolding e run_with_row [OF r(1)] using after_run_reads [OF assms(2)] by simp
  moreover have "addonQuote env inner' owner serviceId body' s' = (Failed 409 Code_IDEMPOTENCY_CONFLICT, s')"
    if "(operation', product', trimmed_field body' ''discountCode'')
      \<noteq> (operation, product, trimmed_field body ''discountCode'')"
  proof -
    have "ir_fingerprint r \<noteq> ra_fingerprint ?args'"
      using addon_fingerprint_differs [OF assms(6) that] r(2) by metis
    then show ?thesis unfolding e' run_with_row [OF r'] by (simp add: after_run_def)
  qed
  ultimately show ?thesis by blast
qed

end
