(* ===== verification/MiniAppApplications.thy ===== *)
theory MiniAppApplications
  imports CommerceApplications MiniApp
begin

text \<open>
  The theorems about the routes of the Mini App and request idempotency, applied to the small shop: a
  pending renewal draft, its token, and the payment.
\<close>

definition pay_crypto :: crypto where
  "pay_crypto = plain_crypto\<lparr>cr_sha256 := (\<lambda>s. CHR ''#'' # s)\<rparr>"

lemma pay_crypto_laws: "aead_correct pay_crypto key" "inj (cr_sha256 pay_crypto)" "cr_scrypt pay_crypto secret ctx = []"
  using plain_crypto_laws(1) [of key]
  by (simp_all add: pay_crypto_def aead_correct_def inj_def) (simp add: plain_crypto_def)

definition pay_snapshot :: json_obj where
  "pay_snapshot = [(''productId'', JStr ''1234abcd''), (''productName'', JStr ''one''),
     (''originalPriceToman'', jint 700), (''discountAmountToman'', jint 0), (''finalPriceToman'', jint 700)]"

definition pay_checkout :: checkout_row where
  "pay_checkout = sample_checkout\<lparr>co_id := ''0a1b2c3d'', co_userId := ''u'', co_productId := Some ''1234abcd'',
     co_serviceId := Some ''0123456789ab'', co_orderType := Some OrderType_SERVICE_RENEWAL,
     co_productSnapshot := Some (JObj pay_snapshot), co_originalPriceToman := 700,
     co_finalPriceToman := 700, co_expiresAt := 5000\<rparr>"

definition pay_shop :: db where
  "pay_shop = shop\<lparr>checkouts := [pay_checkout],
     settings := [shop_setting ''wallet_payment_enabled'' ''true'',
       shop_setting MINIAPP_WALLET_RENEWAL_ENABLED_KEY ''true'',
       shop_setting MINIAPP_COMMERCE_CHECKOUT_ENABLED_KEY ''true'']\<rparr>"

definition pay_env :: api_env where
  "pay_env = \<lparr>ae_rejection = None, ae_readable = True, ae_crypto = pay_crypto, ae_secret = ''secret'',
     ae_iv = replicate 12 0, ae_now = 1000, ae_others = (\<lambda>_ s. s)\<rparr>"

definition pay_owner :: api_user where
  "pay_owner = \<lparr>au_id = ''u'', au_group = UserGroup_F, au_balanceToman = 1000\<rparr>"

definition pay_state :: "product_with_relations \<times> service_row option" where
  "pay_state = the (loadQuoteState pay_shop ''u'' ''1234abcd'' (Some ''0123456789ab''))"

definition pay_payload :: QuotePayload where
  "pay_payload = quote_payload pay_crypto ''u'' ''1234abcd'' pay_checkout (OnService RENEWAL) pay_state 121000"

definition pay_token :: string where
  "pay_token = sealed_token pay_crypto [] (replicate 12 0) (object_text (quote_body pay_payload))"

definition pay_body :: json where
  "pay_body = JObj [(''clientRequestId'', JStr ''0123456789abcdef''), (''draftToken'', JStr pay_token)]"

lemma pay_state_loaded: "loadQuoteState pay_shop ''u'' ''1234abcd'' (Some ''0123456789ab'') = Some pay_state"
proof -
  have "loadQuoteState pay_shop ''u'' ''1234abcd'' (Some ''0123456789ab'') \<noteq> None" by code_simp
  then show ?thesis by (auto simp: pay_state_def)
qed

lemma pay_loaded: "loadOwnedPendingCheckout pay_shop ''u'' ''0a1b2c3d'' 1000 = Some (pay_checkout, OnService RENEWAL)"
  by code_simp

lemma pay_key: "quoteKey pay_crypto ''secret'' = Some []"
  using shop_secret by (simp add: quoteKey_def pay_crypto_laws)

lemma pay_issued:
  "\<exists>d. issueQuoteForCheckout pay_crypto ''secret'' (replicate 12 0) pay_shop ''u'' ''0a1b2c3d'' 1000 1000
      = QuoteIssued d \<and> qd_quote d = pay_token"
proof -
  have m: "map_of (as_record (co_productSnapshot pay_checkout)) ''productId'' = Some (JStr ''1234abcd'')"
    and sv: "co_serviceId pay_checkout = Some ''0123456789ab''" by code_simp+
  have q: "sealQuote pay_crypto ''secret'' (replicate 12 0) pay_payload = Some pay_token"
    by (simp add: sealQuote_def pay_key pay_token_def)
  have x: "expectedExpiry (OnService RENEWAL) service days now = Some None" for service days now
    by (simp add: expectedExpiry_def split: option.split)
  show ?thesis
    using m sv pay_state_loaded q x
    by (simp add: issueQuoteForCheckout_def pay_loaded Let_def pay_payload_def RENEWAL_QUOTE_TTL_SECONDS_def
        split: option.split)
qed

lemma pay_payload_ok: "payload_ok pay_payload"
  by (simp add: payload_ok_def pay_payload_def quote_payload_def pay_checkout_def sample_checkout_def
      quoteFingerprint_def pay_crypto_def MAX_SAFE_INTEGER_def)

lemma pay_opens: "openQuote pay_crypto ''secret'' (JStr pay_token) now =
    (if now < 121000 then Inr pay_payload else Inl QUOTE_EXPIRED_REASON)"
  using sealed_token_opens [OF pay_key pay_crypto_laws(1) _ pay_payload_ok, of "replicate 12 0"]
  by (simp add: pay_token_def IV_BYTES_def pay_payload_def quote_payload_def)

definition pay_settlement :: WalletSettlementArgs where
  "pay_settlement = pay_args pay_env pay_owner ''0123456789abcdef'' (OnService RENEWAL) pay_checkout
     OrderType_SERVICE_RENEWAL ''1234abcd''"

definition settles_now :: "settlement_outcome \<Rightarrow> bool" where
  "settles_now x = (case x of Settled r \<Rightarrow> \<not> ws_alreadyPaid r | _ \<Rightarrow> False)"

lemma pay_settles: "settles_now (fst (settleWalletOrder (cr_sha256 pay_crypto) (\<lambda>_ s. s) pay_settlement 1000 pay_shop))"
  by code_simp

section \<open>The payment\<close>

lemma pay_env_simps [simp]:
  "ae_rejection pay_env = None" "ae_crypto pay_env = pay_crypto" "ae_secret pay_env = ''secret''"
  "ae_iv pay_env = replicate 12 0" "ae_now pay_env = 1000" "ae_others pay_env n s = s"
  "au_id pay_owner = ''u''" "uninterrupted pay_env"
  by (simp_all add: pay_env_def pay_owner_def uninterrupted_def)

lemma pay_body_simps: "body_field pay_body ''clientRequestId'' = JStr ''0123456789abcdef''"
  "body_field pay_body ''draftToken'' = JStr pay_token"
  by (simp_all add: pay_body_def body_field_def as_record_def)

lemma pay_facts:
  "isRenewalIdempotencyKey (JStr ''0123456789abcdef'')" "requireRollout pay_env [OPERATION_SETTLE_ROLLOUT_KEY (OnService RENEWAL)] pay_shop"
  "commerce_operation_of ''RENEWAL'' = Some (OnService RENEWAL)"
  "checkoutByInternalId pay_shop ''u'' ''0a1b2c3d'' = Some pay_checkout"
  "co_status pay_checkout = CheckoutStatus_PENDING" "validMoney pay_checkout" "co_id pay_checkout = ''0a1b2c3d''"
  "checkoutPublicId ''0a1b2c3d'' = ''0a1b2c3d''" "co_finalPriceToman pay_checkout = 700"
  "co_orderType pay_checkout = Some OrderType_SERVICE_RENEWAL" "co_productId pay_checkout = Some ''1234abcd''"
  "map_option u_balanceToman (find (\<lambda>u. u_id u = ''u'') (users pay_shop)) = Some 1000"
  by code_simp+

lemma pay_payload_simps: "qp_userId pay_payload = ''u''" "qp_checkoutId pay_payload = ''0a1b2c3d''"
  "qp_operation pay_payload = ''RENEWAL''" "qp_finalPriceToman pay_payload = 700"
  by (simp_all add: pay_payload_def quote_payload_def pay_facts)

lemma pay_token_nonempty: "pay_token \<noteq> ''''"
  by (simp add: pay_token_def sealed_token_def QUOTE_VERSION_def split: prod.split)

lemma paid:
  obtains r s' where "payWallet pay_env pay_owner pay_body pay_shop = (Replied 201 r, s')"
proof -
  obtain d where d: "issueQuoteForCheckout pay_crypto ''secret'' (replicate 12 0) pay_shop ''u'' ''0a1b2c3d'' 1000 1000
      = QuoteIssued d" "qd_quote d = pay_token"
    using pay_issued by blast
  obtain r s' where st: "settleWalletOrder (cr_sha256 pay_crypto) (\<lambda>_ s. s) pay_settlement 1000 pay_shop = (Settled r, s')"
    and new: "\<not> ws_alreadyPaid r"
    using pay_settles
    by (cases "settleWalletOrder (cr_sha256 pay_crypto) (\<lambda>_ s. s) pay_settlement 1000 pay_shop")
      (auto simp: settles_now_def split: settlement_outcome.splits)
  have o: "(\<lambda>n. ae_others pay_env (4 + n)) = (\<lambda>_ s. s)" by (simp add: fun_eq_iff)
  obtain u where u: "find (\<lambda>u. u_id u = ''u'') (users pay_shop) = Some u" "u_balanceToman u = 1000"
    using pay_facts(12) by auto
  have "settle_draft pay_env pay_owner ''0123456789abcdef'' (OnService RENEWAL) pay_checkout pay_shop
      = (Replied 201 (payment_response r), s')"
    using st new o pay_facts(10,11) by (simp add: settle_draft_def pay_settlement_def)
  then have "pay_draft pay_env pay_owner ''0123456789abcdef'' pay_payload (OnService RENEWAL) pay_checkout pay_shop
      = (Replied 201 (payment_response r), s')"
    using u d pay_facts(7,8,9) pay_opens [of 1000] pay_token_nonempty pay_payload_simps(4)
    by (simp add: pay_draft_def Let_def)
  then have "payWallet pay_env pay_owner pay_body pay_shop = (Replied 201 (payment_response r), s')"
    using pay_facts(1-6) pay_body_simps pay_opens [of 1000] pay_payload_simps
    by (simp add: payWallet_def Let_def)
  then show ?thesis by (rule that)
qed

lemma pay_order_name: "show_nat n \<noteq> ''0a1b2c3d''"
proof -
  have "\<not> is_digit CHR ''a''" by (simp add: is_digit_def char_code_def)
  then show ?thesis using show_nat_digits [of n] by auto
qed

lemma pay_shop_ok: "ids_ok pay_shop" "api_ok pay_env pay_owner pay_shop"
proof -
  show "ids_ok pay_shop"
    by (simp add: ids_ok_def unique_by_def fresh_for_def pay_shop_def shop_defs sample_defs pay_checkout_def
        inj_show_nat pay_order_name)
  have "js_lower ''0a1b2c3d'' = ''0a1b2c3d''" by code_simp
  then show "api_ok pay_env pay_owner pay_shop"
    by (simp add: api_ok_def pay_crypto_laws(1) pay_shop_def IV_BYTES_def int4_def INT4_MIN_def INT4_MAX_def
        pay_facts) (simp add: pay_crypto_def)
qed


theorem settled_payment_is_refused_on_retry_witness:
  "\<exists>r s'. payWallet pay_env pay_owner pay_body pay_shop = (Replied 201 r, s')
    \<and> payWallet (pay_env\<lparr>ae_now := 2000\<rparr>) pay_owner pay_body s'
      \<in> {(Failed 409 Code_CHECKOUT_UNAVAILABLE, s'), (Failed 400 Code_QUOTE_EXPIRED, s')}"
proof (rule paid)
  fix r s' assume r: "payWallet pay_env pay_owner pay_body pay_shop = (Replied 201 r, s')"
  from settled_payment_is_refused_on_retry [OF r pay_env_simps(8) pay_shop_ok(1)] r show ?thesis by blast
qed

section \<open>The add-on quote, asked twice\<close>

definition addon_body :: json where
  "addon_body = JObj [(''clientRequestId'', JStr ''0123456789abcdef''), (''kind'', JStr ''RENEWAL''),
     (''productPublicId'', JStr ''1234abcd'')]"

definition quote_shop :: db where
  "quote_shop = pay_shop\<lparr>checkouts := [], uuids := (\<lambda>n. ''0a1b2c3d'' @ show_nat n)\<rparr>"



lemma renewal_quote_issued:
  assumes "loadOwnedPendingCheckout s userId public now = Some (c, OnService RENEWAL)"
    and "map_of (as_record (co_productSnapshot c)) ''productId'' = Some (JStr p)" and "co_serviceId c = Some sv"
    and "loadQuoteState s userId p (Some sv) \<noteq> None" and "quoteKey cr secret = Some key"
  shows "\<exists>d. issueQuoteForCheckout cr secret iv s userId public balance now = QuoteIssued d"
proof -
  have "expectedExpiry (OnService RENEWAL) service days now = Some None" for service days
    by (simp add: expectedExpiry_def split: option.split)
  then show ?thesis
    using assms by (auto simp: issueQuoteForCheckout_def sealQuote_def Let_def split: option.split)
qed

definition quoted_draft :: "db \<Rightarrow> string \<Rightarrow> bool" where
  "quoted_draft s i = (case (checkoutByInternalId s ''u'' i, loadOwnedPendingCheckout s ''u'' ''0a1b2c3d'' 1000) of
     (Some d, Some (c, OnService RENEWAL)) \<Rightarrow> checkoutPublicId (co_id d) = ''0a1b2c3d''
       \<and> map_of (as_record (co_productSnapshot c)) ''productId'' = Some (JStr ''1234abcd'')
       \<and> co_serviceId c = Some ''0123456789ab''
       \<and> loadQuoteState s ''u'' ''1234abcd'' (Some ''0123456789ab'') \<noteq> None
       \<and> requireRollout pay_env [MINIAPP_COMMERCE_CHECKOUT_ENABLED_KEY] s
   | _ \<Rightarrow> False)"

definition addon_run :: "route_exn run_outcome \<times> db" where
  "addon_run = runIdempotentCommerce (\<lambda>_ s. s)
     (addon_run_args pay_env pay_owner ''01234567'' RENEWAL ''1234abcd'' ''0123456789abcdef'' [])
     (\<lambda>t. as_execution (createOperationCheckout (\<lambda>_ s. s) 1000 shop_options ''1234abcd'' None t)) quote_shop"

lemma addon_runs: "case addon_run of (RunExecuted v, s') \<Rightarrow>
     (case resultCheckoutSessionId v of Some i \<Rightarrow> quoted_draft s' i | None \<Rightarrow> False) | _ \<Rightarrow> False"
  by code_simp

definition other_addon_body :: json where
  "other_addon_body = JObj [(''clientRequestId'', JStr ''0123456789abcdef''), (''kind'', JStr ''EXTRA_TIME''),
     (''productPublicId'', JStr ''1234abcd'')]"

definition note_request :: run_args where
  "note_request = \<lparr>ra_userId = ''u'', ra_clientRequestId = ''k'', ra_operation = ''o'', ra_fingerprint = ''x''\<rparr>"

definition note_result :: CommerceIdempotencyResult where
  "note_result = \<lparr>resultCheckoutSessionId = Some ''c'', resultPaymentId = None\<rparr>"

lemma addon_requests: "addon_request addon_body RENEWAL ''1234abcd'' ''0123456789abcdef''"
  "addon_request other_addon_body EXTRA_TIME ''1234abcd'' ''0123456789abcdef''"
  by code_simp+

lemma addon_body_fields: "body_field addon_body ''kind'' = JStr ''RENEWAL''"
  "body_field addon_body ''productPublicId'' = JStr ''1234abcd''"
  "body_field addon_body ''clientRequestId'' = JStr ''0123456789abcdef''" "trimmed_field addon_body ''discountCode'' = []"
  "isValidClientRequestId (JStr ''0123456789abcdef'')"  "service_operation_of (JStr ''RENEWAL'') = Some RENEWAL"
  "requireRollout pay_env [MINIAPP_COMMERCE_CHECKOUT_ENABLED_KEY] quote_shop"
  by code_simp+

lemma addon_quoted:
  obtains q s' where "addonQuote pay_env (\<lambda>_ s. s) pay_owner ''01234567'' addon_body quote_shop = (Replied 200 q, s')"
    and "requireRollout pay_env [MINIAPP_COMMERCE_CHECKOUT_ENABLED_KEY] s'"
proof -
  obtain v s' i where r: "addon_run = (RunExecuted v, s')" and i: "resultCheckoutSessionId v = Some i"
    and q: "quoted_draft s' i"
    using addon_runs by (auto split: prod.splits run_outcome.splits option.splits)
  obtain d c where d: "checkoutByInternalId s' ''u'' i = Some d" "checkoutPublicId (co_id d) = ''0a1b2c3d''"
    and c: "loadOwnedPendingCheckout s' ''u'' ''0a1b2c3d'' 1000 = Some (c, OnService RENEWAL)"
      "map_of (as_record (co_productSnapshot c)) ''productId'' = Some (JStr ''1234abcd'')"
      "co_serviceId c = Some ''0123456789ab''"
    and l: "loadQuoteState s' ''u'' ''1234abcd'' (Some ''0123456789ab'') \<noteq> None"
    and ro: "requireRollout pay_env [MINIAPP_COMMERCE_CHECKOUT_ENABLED_KEY] s'"
    using q by (auto simp: quoted_draft_def split: option.splits CommerceOperation.splits ServiceOperation.splits)
  obtain dto where "issueQuoteForCheckout pay_crypto ''secret'' (replicate 12 0) s' ''u'' ''0a1b2c3d'' 1000 1000
      = QuoteIssued dto"
    using renewal_quote_issued [OF c l pay_key] by blast
  moreover have "(\<lambda>n. ae_others pay_env (10 + n)) = (\<lambda>_ s. s)" by (simp add: fun_eq_iff)
  moreover have "au_balanceToman pay_owner = 1000" "au_group pay_owner = UserGroup_F" by (simp_all add: pay_owner_def)
  ultimately have "\<exists>q. addonQuote pay_env (\<lambda>_ s. s) pay_owner ''01234567'' addon_body quote_shop = (Replied 200 q, s')"
    using r i d addon_body_fields
    by (simp add: addonQuote_def addon_run_def addon_run_args_def shop_options_def after_run_def quote_draft_def Let_def)
  then show ?thesis using that ro by blast
qed

theorem repeated_quote_request_creates_nothing_witness:
  "\<exists>q s'. addonQuote pay_env (\<lambda>_ s. s) pay_owner ''01234567'' addon_body quote_shop = (Replied 200 q, s')
    \<and> snd (addonQuote pay_env (\<lambda>_ s. s) pay_owner ''01234567'' addon_body s') = s'
    \<and> addonQuote pay_env (\<lambda>_ s. s) pay_owner ''01234567'' other_addon_body s'
        = (Failed 409 Code_IDEMPOTENCY_CONFLICT, s')"
proof (rule addon_quoted)
  fix q s' assume r: "addonQuote pay_env (\<lambda>_ s. s) pay_owner ''01234567'' addon_body quote_shop = (Replied 200 q, s')"
    and ro: "requireRollout pay_env [MINIAPP_COMMERCE_CHECKOUT_ENABLED_KEY] s'"
  have i: "inj (cr_sha256 (ae_crypto pay_env))" using pay_crypto_laws(2) by simp
  show ?thesis
    using repeated_quote_request_creates_nothing [OF r pay_env_simps(8) ro addon_requests i,
        where inner' = "\<lambda>_ s. s"] r by blast
qed

theorem executed_request_is_replayed_witness:
  "\<exists>s'. runIdempotentCommerce (\<lambda>_ s. s) note_request
      (\<lambda>t. (Inr note_result :: unit + CommerceIdempotencyResult, t)) shop = (RunExecuted note_result, s')
    \<and> runIdempotentCommerce (\<lambda>_ s. s) note_request (\<lambda>t. (Inl (), t)) s' = (RunReplayed note_result, s')
    \<and> runIdempotentCommerce (\<lambda>_ s. s) (note_request\<lparr>ra_fingerprint := ''y''\<rparr>)
        (\<lambda>t. (Inl (), t)) s' = (RunConflict, s')"
proof -
  let ?run = "runIdempotentCommerce (\<lambda>_ s. s) note_request
      (\<lambda>t. (Inr note_result :: unit + CommerceIdempotencyResult, t)) shop"
  have "fst ?run = RunExecuted note_result" by code_simp
  then obtain s' where r: "?run = (RunExecuted note_result, s')" by (cases ?run) simp
  show ?thesis
    using r executed_request_is_replayed [OF r, where execute' = "\<lambda>t. (Inl (), t)" and args' = note_request]
      executed_request_is_replayed [OF r, where execute' = "\<lambda>t. (Inl (), t)"
        and args' = "note_request\<lparr>ra_fingerprint := ''y''\<rparr>"]
    by (simp add: note_request_def)
qed

end
