(* ===== verification/SupportContract.thy ===== *)
theory SupportContract
  imports Contract
begin

text \<open>
  packages/support-tickets/src/contract.ts, with the vocabularies of packages/shared/src/support-tickets-v2.ts
  it uses: what a support request may contain, when a user may reply, and the fingerprint that binds a
  request identifier to its content. A missing field of a request is \<open>JNull\<close>; no rule tells the two apart.
\<close>

section \<open>Vocabularies\<close>

datatype SupportDomainError = INVALID_SUBJECT | INVALID_MESSAGE | INVALID_CATEGORY | INVALID_ORIGIN
  | INVALID_SERVICE | INVALID_TICKET_ID | TICKET_NOT_FOUND | TICKET_CLOSED | INVALID_REQUEST_ID
  | SUPPORT_IDEMPOTENCY_CONFLICT

type_synonym 'a SupportDomainResult = "SupportDomainError + 'a"

definition SUPPORT_TICKET_CATEGORIES :: "string list" where
  "SUPPORT_TICKET_CATEGORIES = [''CONNECTION'', ''PAYMENT'', ''SERVICE_MANAGEMENT'', ''ACCOUNT'', ''OTHER'']"

definition SUPPORT_TICKET_ORIGINS :: "string list" where
  "SUPPORT_TICKET_ORIGINS =
     [''GENERAL'', ''SERVICE_DETAIL'', ''CONNECTION_GUIDE'', ''SERVICE_DIAGNOSTICS'', ''MINIAPP'']"

definition isSupportTicketCategory :: "json \<Rightarrow> bool" where
  "isSupportTicketCategory v = (case v of JStr s \<Rightarrow> s \<in> set SUPPORT_TICKET_CATEGORIES | _ \<Rightarrow> False)"

definition isSupportTicketOrigin :: "json \<Rightarrow> bool" where
  "isSupportTicketOrigin v = (case v of JStr s \<Rightarrow> s \<in> set SUPPORT_TICKET_ORIGINS | _ \<Rightarrow> False)"

definition supportCategoryPrefersService :: "string \<Rightarrow> bool" where
  "supportCategoryPrefersService c \<longleftrightarrow> c = ''CONNECTION'' \<or> c = ''SERVICE_MANAGEMENT''"

definition categoryPrefersService :: "string \<Rightarrow> bool" where
  "categoryPrefersService c = supportCategoryPrefersService c"

definition categoryRequiresService :: "string \<Rightarrow> bool" where
  "categoryRequiresService c = False"

section \<open>Normalization\<close>

definition TICKET_SUBJECT_MIN :: nat where "TICKET_SUBJECT_MIN = 3"
definition TICKET_SUBJECT_MAX :: nat where "TICKET_SUBJECT_MAX = 100"
definition TICKET_MESSAGE_MIN :: nat where "TICKET_MESSAGE_MIN = 1"
definition TICKET_MESSAGE_MAX :: nat where "TICKET_MESSAGE_MAX = 3000"

definition normalizeSubject :: "json \<Rightarrow> string SupportDomainResult" where
  "normalizeSubject raw =
     (case raw of
        JStr s \<Rightarrow> (let clean = js_trim s in
          if length clean < TICKET_SUBJECT_MIN \<or> TICKET_SUBJECT_MAX < length clean
          then Inl INVALID_SUBJECT else Inr clean)
      | _ \<Rightarrow> Inl INVALID_SUBJECT)"

definition normalizeMessage :: "json \<Rightarrow> string SupportDomainResult" where
  "normalizeMessage raw =
     (case raw of
        JStr s \<Rightarrow> (let clean = js_trim s in
          if length clean < TICKET_MESSAGE_MIN \<or> TICKET_MESSAGE_MAX < length clean
          then Inl INVALID_MESSAGE else Inr clean)
      | _ \<Rightarrow> Inl INVALID_MESSAGE)"

definition normalizeCategory :: "json \<Rightarrow> string SupportDomainResult" where
  "normalizeCategory raw =
     (case raw of JStr s \<Rightarrow> if isSupportTicketCategory raw then Inr s else Inl INVALID_CATEGORY
      | _ \<Rightarrow> Inl INVALID_CATEGORY)"

definition normalizeOrigin :: "json \<Rightarrow> string SupportDomainResult" where
  "normalizeOrigin raw =
     (case raw of JStr s \<Rightarrow> if isSupportTicketOrigin raw then Inr s else Inl INVALID_ORIGIN
      | _ \<Rightarrow> Inl INVALID_ORIGIN)"

definition request_id_pattern :: "string \<Rightarrow> bool" where
  "request_id_pattern s \<longleftrightarrow> 16 \<le> length s \<and> length s \<le> 64 \<and> list_all is_key_char s"

definition normalizeRequestId :: "json \<Rightarrow> string SupportDomainResult" where
  "normalizeRequestId raw =
     (case raw of JStr s \<Rightarrow> if request_id_pattern s then Inr s else Inl INVALID_REQUEST_ID
      | _ \<Rightarrow> Inl INVALID_REQUEST_ID)"

section \<open>Status\<close>

definition userMayReply :: "SupportTicketStatus \<Rightarrow> bool" where
  "userMayReply status \<longleftrightarrow> status \<noteq> Ticket_CLOSED"

definition TICKET_STATUS_AFTER_CREATE :: SupportTicketStatus where
  "TICKET_STATUS_AFTER_CREATE = Ticket_WAITING_ADMIN"
definition TICKET_STATUS_AFTER_USER_REPLY :: SupportTicketStatus where
  "TICKET_STATUS_AFTER_USER_REPLY = Ticket_WAITING_ADMIN"
definition TICKET_STATUS_AFTER_ADMIN_REPLY :: SupportTicketStatus where
  "TICKET_STATUS_AFTER_ADMIN_REPLY = Ticket_WAITING_USER"

definition isWaitingForUser :: "SupportTicketStatus \<Rightarrow> bool" where
  "isWaitingForUser status \<longleftrightarrow> status = Ticket_WAITING_USER \<or> status = Ticket_ANSWERED"

section \<open>Fingerprints\<close>

datatype MiniAppIdempotentOperation = SUPPORT_TICKET_CREATE | SUPPORT_TICKET_REPLY

fun idempotent_operation_name :: "MiniAppIdempotentOperation \<Rightarrow> string" where
  "idempotent_operation_name SUPPORT_TICKET_CREATE = ''SUPPORT_TICKET_CREATE''"
| "idempotent_operation_name SUPPORT_TICKET_REPLY = ''SUPPORT_TICKET_REPLY''"

definition FINGERPRINT_SEPARATOR :: char where "FINGERPRINT_SEPARATOR = CHR 0x00"

definition prefixed_part :: "string \<Rightarrow> string" where
  "prefixed_part p = show_nat (length p) @ '':'' @ p"

fun join_parts :: "string list \<Rightarrow> string" where
  "join_parts [] = []"
| "join_parts [p] = prefixed_part p"
| "join_parts (p # q # ps) = prefixed_part p @ FINGERPRINT_SEPARATOR # join_parts (q # ps)"

definition mutationFingerprint :: "(string \<Rightarrow> string) \<Rightarrow> string list \<Rightarrow> string" where
  "mutationFingerprint sha parts = sha (join_parts parts)"

definition idempotentRecordMatches ::
  "idem_row \<Rightarrow> MiniAppIdempotentOperation \<Rightarrow> string option \<Rightarrow> string \<Rightarrow> bool" where
  "idempotentRecordMatches stored operation targetTicketId fingerprint \<longleftrightarrow>
     ir_operation stored = idempotent_operation_name operation
     \<and> ir_targetTicketId stored = targetTicketId \<and> ir_fingerprint stored = fingerprint"

section \<open>Notification rules and transport\<close>

datatype SupportNotificationKind = Ticket_created | User_replied

fun notification_kind_name :: "SupportNotificationKind \<Rightarrow> string" where
  "notification_kind_name Ticket_created = ''support.ticket_created''"
| "notification_kind_name User_replied = ''support.user_replied''"

definition SUPPORT_NOTIFICATION_KINDS :: "string list" where
  "SUPPORT_NOTIFICATION_KINDS = map notification_kind_name [Ticket_created, User_replied]"

definition isSupportNotificationKind :: "string \<Rightarrow> bool" where
  "isSupportNotificationKind v \<longleftrightarrow> v \<in> set SUPPORT_NOTIFICATION_KINDS"

definition NOTIFICATION_STALE_CLAIM_MS :: int where "NOTIFICATION_STALE_CLAIM_MS = 5 * 60 * 1000"
definition NOTIFICATION_MAX_ATTEMPTS :: int where "NOTIFICATION_MAX_ATTEMPTS = 6"

definition notificationRetryDelayMs :: "int \<Rightarrow> int" where
  "notificationRetryDelayMs attempts =
     (let step = max 1 attempts in min (15 * 60 * 1000) (10000 * 2 ^ nat (step - 1)))"

fun supportDomainErrorStatus :: "SupportDomainError \<Rightarrow> nat" where
  "supportDomainErrorStatus INVALID_SUBJECT = 400"
| "supportDomainErrorStatus INVALID_MESSAGE = 400"
| "supportDomainErrorStatus INVALID_CATEGORY = 400"
| "supportDomainErrorStatus INVALID_ORIGIN = 400"
| "supportDomainErrorStatus INVALID_SERVICE = 400"
| "supportDomainErrorStatus INVALID_REQUEST_ID = 400"
| "supportDomainErrorStatus INVALID_TICKET_ID = 404"
| "supportDomainErrorStatus TICKET_NOT_FOUND = 404"
| "supportDomainErrorStatus TICKET_CLOSED = 409"
| "supportDomainErrorStatus SUPPORT_IDEMPOTENCY_CONFLICT = 409"

definition WORST_CASE_MUTATION_BYTES :: nat where
  "WORST_CASE_MUTATION_BYTES =
     (TICKET_MESSAGE_MAX + TICKET_SUBJECT_MAX) * 6 + 64 + 64 + 16 + 1024"

definition SUPPORT_MUTATION_BODY_LIMIT_BYTES :: nat where
  "SUPPORT_MUTATION_BODY_LIMIT_BYTES = (WORST_CASE_MUTATION_BYTES + 1023) div 1024 * 1024"

section \<open>What normalization promises\<close>

named_theorems normal_simps

lemma normalizeSubject_Inr [normal_simps]:
  "normalizeSubject raw = Inr v \<longleftrightarrow> (\<exists>s. raw = JStr s \<and> v = js_trim s \<and> 3 \<le> length v \<and> length v \<le> 100)"
  by (auto simp: normalizeSubject_def Let_def TICKET_SUBJECT_MIN_def TICKET_SUBJECT_MAX_def
      split: json.splits if_splits)

lemma normalizeMessage_Inr [normal_simps]:
  "normalizeMessage raw = Inr v \<longleftrightarrow> (\<exists>s. raw = JStr s \<and> v = js_trim s \<and> 1 \<le> length v \<and> length v \<le> 3000)"
  by (auto simp: normalizeMessage_def Let_def TICKET_MESSAGE_MIN_def TICKET_MESSAGE_MAX_def Suc_le_eq
      split: json.splits if_splits)

lemma normalizeCategory_Inr [normal_simps]:
  "normalizeCategory raw = Inr v \<longleftrightarrow> raw = JStr v \<and> v \<in> set SUPPORT_TICKET_CATEGORIES"
  by (auto simp: normalizeCategory_def isSupportTicketCategory_def split: json.splits)

lemma normalizeOrigin_Inr [normal_simps]:
  "normalizeOrigin raw = Inr v \<longleftrightarrow> raw = JStr v \<and> v \<in> set SUPPORT_TICKET_ORIGINS"
  by (auto simp: normalizeOrigin_def isSupportTicketOrigin_def split: json.splits)

lemma normalizeRequestId_Inr [normal_simps]:
  "normalizeRequestId raw = Inr v \<longleftrightarrow> raw = JStr v \<and> request_id_pattern v"
  by (auto simp: normalizeRequestId_def split: json.splits)

section \<open>The fingerprint tells mutations apart\<close>

lemma prefixed_part_append: "prefixed_part p @ y = show_nat (length p) @ CHR '':'' # p @ y"
  by (simp add: prefixed_part_def)

lemma prefixed_part_inject:
  assumes "prefixed_part p @ x = prefixed_part q @ y"
  shows "p = q \<and> x = y"
proof -
  have "\<not> is_digit CHR '':''" by (simp add: is_digit_def char_code_def)
  then have d: "takeWhile is_digit (show_nat k @ CHR '':'' # z) = show_nat k" for k z
    using show_nat_digits [of k] by (simp add: takeWhile_append2 list_all_iff)
  have "show_nat (length p) = show_nat (length q)"
    using assms d unfolding prefixed_part_append by metis
  with assms show ?thesis by (simp add: prefixed_part_append)
qed

lemma join_parts_nonempty: "join_parts ps = [] \<longleftrightarrow> ps = []"
  by (cases ps rule: join_parts.cases) (simp_all add: prefixed_part_def)

lemma join_parts_inject: "join_parts ps = join_parts qs \<Longrightarrow> ps = qs"
proof (induction ps arbitrary: qs rule: join_parts.induct)
  case 1
  then show ?case using join_parts_nonempty [of qs] by simp
next
  case (2 p)
  then show ?case
    using prefixed_part_inject [of p "[]"]
    by (cases qs rule: join_parts.cases) (auto simp: prefixed_part_def)
next
  case (3 p q ps)
  show ?case
  proof (cases qs rule: join_parts.cases)
    case 1
    then show ?thesis using 3 join_parts_nonempty by fastforce
  next
    case (2 r)
    then show ?thesis
      using 3 prefixed_part_inject [of p "FINGERPRINT_SEPARATOR # join_parts (q # ps)" r "[]"] by simp
  next
    case (3 r t rs)
    then show ?thesis
      using "3.prems" "3.IH" [of "t # rs"]
        prefixed_part_inject [of p "FINGERPRINT_SEPARATOR # join_parts (q # ps)" r
          "FINGERPRINT_SEPARATOR # join_parts (t # rs)"] by simp
  qed
qed

lemma mutationFingerprint_inject: "inj sha \<Longrightarrow> mutationFingerprint sha ps = mutationFingerprint sha qs \<longleftrightarrow> ps = qs"
  by (auto simp: mutationFingerprint_def dest: injD join_parts_inject)

section \<open>The backoff and the body limit\<close>

text \<open>A retry waits between ten seconds and a quarter of an hour, and never less than the one before.\<close>

lemma notificationRetryDelay_bounds:
  "10000 \<le> notificationRetryDelayMs n" "notificationRetryDelayMs n \<le> 900000"
  by (simp_all add: notificationRetryDelayMs_def Let_def)

lemma notificationRetryDelay_mono: "m \<le> n \<Longrightarrow> notificationRetryDelayMs m \<le> notificationRetryDelayMs n"
  by (auto simp: notificationRetryDelayMs_def Let_def min_le_iff_disj intro!: power_increasing)

text \<open>Every admissible create request fits the limit, whatever its serializer escapes.\<close>

lemma body_limit_covers_worst_case:
  "WORST_CASE_MUTATION_BYTES \<le> SUPPORT_MUTATION_BODY_LIMIT_BYTES \<and> SUPPORT_MUTATION_BODY_LIMIT_BYTES = 20480"
  by (simp add: WORST_CASE_MUTATION_BYTES_def SUPPORT_MUTATION_BODY_LIMIT_BYTES_def TICKET_MESSAGE_MAX_def
      TICKET_SUBJECT_MAX_def)

end
