(* ===== verification/SupportTickets.thy ===== *)
theory SupportTickets
  imports SupportContract "HOL-Library.List_Lexorder" "HOL-Library.Product_Lexorder"
begin

text \<open>
  packages/support-tickets/src/tickets.ts: a user's tickets and their messages. \<open>others n\<close> is what other
  processes do to the database before the next statement; a transaction is one statement. The text of a
  request is what the client sent, as JSON; a missing field is \<open>JNull\<close>.
\<close>

section \<open>Resolution\<close>

type_synonym ticket_with_label = "ticket_row \<times> (string \<times> string) option"

definition service_label :: "db \<Rightarrow> ticket_row \<Rightarrow> (string \<times> string) option" where
  "service_label s t =
     (case tk_serviceId t of
        None \<Rightarrow> None
      | Some i \<Rightarrow> map_option (\<lambda>v. (sv_id v, sv_username v)) (find (\<lambda>v. sv_id v = i) (services s)))"

definition canonicalTicketPublicId :: "json \<Rightarrow> string option" where
  "canonicalTicketPublicId v = canonicalPublicId v hex8"

fun only :: "'a list \<Rightarrow> 'a option" where
  "only [x] = Some x"
| "only _ = None"

definition resolveOwnedTicket :: "db \<Rightarrow> string \<Rightarrow> json \<Rightarrow> ticket_with_label option" where
  "resolveOwnedTicket s userId ticketPublicId =
     (case canonicalTicketPublicId ticketPublicId of
        None \<Rightarrow> None
      | Some canonical \<Rightarrow>
          map_option (\<lambda>t. (t, service_label s t))
            (only (filter (\<lambda>t. starts_with (tk_id t) canonical \<and> tk_userId t = userId) (support_tickets s))))"

definition findOwnedService :: "db \<Rightarrow> string \<Rightarrow> string \<Rightarrow> service_row option" where
  "findOwnedService s userId canonical =
     only (filter (\<lambda>v. starts_with (sv_id v) canonical \<and> sv_userId v = userId \<and> sv_deletedAt v = None
       \<and> sv_status v \<noteq> ServiceStatus_DELETED) (services s))"

definition resolveOwnedSupportService :: "db \<Rightarrow> string \<Rightarrow> json \<Rightarrow> service_row option" where
  "resolveOwnedSupportService s userId servicePublicId =
     (case canonicalServicePublicId servicePublicId of
        None \<Rightarrow> None | Some canonical \<Rightarrow> findOwnedService s userId canonical)"

section \<open>Replay of a completed request\<close>

type_synonym IdempotentReplay = "ticket_with_label \<times> string"

datatype support_outcome = Answered "IdempotentReplay SupportDomainResult" | SupportThrows

definition stored_request :: "db \<Rightarrow> string \<Rightarrow> string \<Rightarrow> idem_row option" where
  "stored_request s userId clientRequestId =
     find (\<lambda>r. ir_userId r = userId \<and> ir_clientRequestId r = clientRequestId) (idem_rows s)"

definition owned_ticket :: "db \<Rightarrow> string \<Rightarrow> string \<Rightarrow> ticket_row option" where
  "owned_ticket s userId ticketId =
     find (\<lambda>t. tk_id t = ticketId \<and> tk_userId t = userId) (support_tickets s)"

definition replayIfCompleted ::
  "(nat \<Rightarrow> db \<Rightarrow> db) \<Rightarrow> string \<Rightarrow> string \<Rightarrow> MiniAppIdempotentOperation \<Rightarrow> string option \<Rightarrow> string \<Rightarrow> db \<Rightarrow>
   IdempotentReplay SupportDomainResult option \<times> db" where
  "replayIfCompleted others userId clientRequestId operation targetTicketId fingerprint s =
     (let s0 = others 0 s in
      case stored_request s0 userId clientRequestId of
        None \<Rightarrow> (None, s0)
      | Some stored \<Rightarrow>
          if \<not> idempotentRecordMatches stored operation targetTicketId fingerprint
          then (Some (Inl SUPPORT_IDEMPOTENCY_CONFLICT), s0)
          else let s1 = others 1 s0 in
            (case owned_ticket s1 userId (ir_resultTicketId stored) of
               None \<Rightarrow> (Some (Inl TICKET_NOT_FOUND), s1)
             | Some t \<Rightarrow> (Some (Inr ((t, service_label s1 t), ir_resultMessageId stored)), s1)))"

section \<open>Creating a ticket\<close>

record CreateTicketInput =
  ci_subject :: json
  ci_message :: json
  ci_category :: json
  ci_origin :: json
  ci_servicePublicId :: json
  ci_clientRequestId :: json

record create_command =
  cc_requestId :: string
  cc_subject :: string
  cc_message :: string
  cc_category :: string
  cc_origin :: string
  cc_service :: "string option"

definition chain :: "'e + 'a \<Rightarrow> ('a \<Rightarrow> 'e + 'b) \<Rightarrow> 'e + 'b" where
  "chain r f = (case r of Inl e \<Rightarrow> Inl e | Inr a \<Rightarrow> f a)"

definition wanted_service :: "json \<Rightarrow> string option SupportDomainResult" where
  "wanted_service v =
     (if v = JNull then Inr None
      else case canonicalServicePublicId v of
        None \<Rightarrow> Inl SupportDomainError.INVALID_SERVICE | Some canonical \<Rightarrow> Inr (Some canonical))"

definition read_create_input :: "CreateTicketInput \<Rightarrow> create_command SupportDomainResult" where
  "read_create_input input =
     chain (normalizeRequestId (ci_clientRequestId input)) (\<lambda>requestId.
     chain (normalizeSubject (ci_subject input)) (\<lambda>subject.
     chain (normalizeMessage (ci_message input)) (\<lambda>message.
     chain (normalizeCategory (ci_category input)) (\<lambda>category.
     chain (normalizeOrigin (ci_origin input)) (\<lambda>origin.
     chain (wanted_service (ci_servicePublicId input)) (\<lambda>service.
       Inr \<lparr>cc_requestId = requestId, cc_subject = subject, cc_message = message, cc_category = category,
            cc_origin = origin, cc_service = service\<rparr>))))))"

definition create_parts :: "create_command \<Rightarrow> string list" where
  "create_parts c =
     [''SUPPORT_TICKET_CREATE'', cc_subject c, cc_message c, cc_category c, cc_origin c,
      (case cc_service c of None \<Rightarrow> CHR 0x00 # ''none'' | Some canonical \<Rightarrow> canonical)]"

definition new_ticket :: "string \<Rightarrow> create_command \<Rightarrow> string option \<Rightarrow> int \<Rightarrow> string \<Rightarrow> ticket_row" where
  "new_ticket userId c serviceId now i =
     \<lparr>tk_id = i, tk_userId = userId, tk_status = TICKET_STATUS_AFTER_CREATE, tk_subject = Some (cc_subject c),
      tk_createdAt = now, tk_updatedAt = now, tk_closedAt = None, tk_closedByAdminId = None,
      tk_serviceId = serviceId, tk_category = Some (cc_category c), tk_origin = Some (cc_origin c)\<rparr>"

definition user_message :: "string \<Rightarrow> string \<Rightarrow> string \<Rightarrow> int \<Rightarrow> string \<Rightarrow> message_row" where
  "user_message userId ticketId body now i =
     \<lparr>sm_id = i, sm_ticketId = ticketId, sm_senderType = Sender_USER, sm_senderUserId = Some userId,
      sm_senderAdminId = None, sm_text = Some body, sm_fileId = None, sm_createdAt = now\<rparr>"

definition request_row ::
  "string \<Rightarrow> string \<Rightarrow> MiniAppIdempotentOperation \<Rightarrow> string option \<Rightarrow> string \<Rightarrow> string \<Rightarrow> string \<Rightarrow> string \<Rightarrow>
   idem_row" where
  "request_row userId requestId operation target fingerprint ticketId messageId i =
     \<lparr>ir_id = i, ir_userId = userId, ir_clientRequestId = requestId,
      ir_operation = idempotent_operation_name operation, ir_targetTicketId = target,
      ir_fingerprint = fingerprint, ir_resultTicketId = ticketId, ir_resultMessageId = messageId,
      ir_resultCheckoutSessionId = None, ir_resultPaymentId = None\<rparr>"

definition new_intent :: "string \<Rightarrow> string \<Rightarrow> SupportNotificationKind \<Rightarrow> int \<Rightarrow> string \<Rightarrow> intent_row" where
  "new_intent ticketId messageId kind now i =
     \<lparr>si_id = i, si_ticketId = ticketId, si_messageId = messageId, si_kind = notification_kind_name kind,
      si_status = Intent_PENDING, si_attempts = 0, si_deliveredCount = 0, si_safeErrorCode = None,
      si_nextAttemptAt = None, si_claimedAt = None, si_sentAt = None, si_recipientsExpandedAt = None,
      si_createdAt = now\<rparr>"

text \<open>What both mutations write after the ticket: the message, the request and the intent to notify.\<close>

definition write_message ::
  "string \<Rightarrow> string \<Rightarrow> string \<Rightarrow> MiniAppIdempotentOperation \<Rightarrow> string option \<Rightarrow> string \<Rightarrow>
   SupportNotificationKind \<Rightarrow> int \<Rightarrow> string \<Rightarrow> ('e, message_row) tx" where
  "write_message userId requestId body operation target fingerprint kind now ticketId =
     tx_bind (tx_do draw_id) (\<lambda>mi.
     tx_bind (create_message (user_message userId ticketId body now mi)) (\<lambda>created.
     tx_bind (tx_do draw_id) (\<lambda>ri.
     tx_bind (create_idem (request_row userId requestId operation target fingerprint ticketId (sm_id created) ri)) (\<lambda>_.
     tx_bind (tx_do draw_id) (\<lambda>ni.
     tx_bind (create_intent (new_intent ticketId (sm_id created) kind now ni)) (\<lambda>_.
       tx_return created))))))"

datatype support_exn = ServicePreconditionFailed

definition linked_service :: "string \<Rightarrow> string option \<Rightarrow> (support_exn, string option) tx" where
  "linked_service userId wanted =
     (case wanted of
        None \<Rightarrow> tx_return None
      | Some canonical \<Rightarrow>
          tx_bind (tx_read (\<lambda>s. findOwnedService s userId canonical)) (\<lambda>found.
          tx_bind (tx_some found (Thrown ServicePreconditionFailed)) (\<lambda>v.
            tx_return (Some (sv_id v)))))"

definition create_transaction ::
  "(string \<Rightarrow> string) \<Rightarrow> int \<Rightarrow> string \<Rightarrow> create_command \<Rightarrow> (support_exn, IdempotentReplay) tx" where
  "create_transaction sha now userId c =
     tx_bind (linked_service userId (cc_service c)) (\<lambda>serviceId.
     tx_bind (tx_do draw_id) (\<lambda>i.
     tx_bind (create_ticket (new_ticket userId c serviceId now i)) (\<lambda>ticket.
     tx_bind (tx_read (\<lambda>s. service_label s ticket)) (\<lambda>label.
     tx_bind (write_message userId (cc_requestId c) (cc_message c) SUPPORT_TICKET_CREATE None
       (mutationFingerprint sha (create_parts c)) Ticket_created now (tk_id ticket)) (\<lambda>created.
       tx_return ((ticket, label), sm_id created))))))"

definition createTicket ::
  "(nat \<Rightarrow> db \<Rightarrow> db) \<Rightarrow> (string \<Rightarrow> string) \<Rightarrow> int \<Rightarrow> string \<Rightarrow> CreateTicketInput \<Rightarrow> db \<Rightarrow>
   support_outcome \<times> db" where
  "createTicket others sha now userId input s =
     (case read_create_input input of
        Inl e \<Rightarrow> (Answered (Inl e), s)
      | Inr c \<Rightarrow>
          let fingerprint = mutationFingerprint sha (create_parts c);
              replay = (\<lambda>o' t. replayIfCompleted o' userId (cc_requestId c) SUPPORT_TICKET_CREATE None fingerprint t)
          in (case replay others s of
                (Some answer, s1) \<Rightarrow> (Answered answer, s1)
              | (None, s1) \<Rightarrow>
                  (case run_transaction (create_transaction sha now userId c) (others 2 s1) of
                     (Inr value, s2) \<Rightarrow> (Answered (Inr value), s2)
                   | (Inl (Thrown ServicePreconditionFailed), s2) \<Rightarrow>
                       (Answered (Inl SupportDomainError.INVALID_SERVICE), s2)
                   | (Inl DbFault, s2) \<Rightarrow> (SupportThrows, s2)
                   | (Inl UniqueViolation, s2) \<Rightarrow>
                       (case replay (\<lambda>n. others (3 + n)) s2 of
                          (Some raced, s3) \<Rightarrow> (Answered raced, s3)
                        | (None, s3) \<Rightarrow> (SupportThrows, s3)))))"

section \<open>Replying to a ticket\<close>

record ReplyInput =
  ri_ticketPublicId :: json
  ri_message :: json
  ri_clientRequestId :: json

definition reply_parts :: "string \<Rightarrow> string \<Rightarrow> string list" where
  "reply_parts ticketId body = [''SUPPORT_TICKET_REPLY'', ticketId, body]"

definition open_for_reply :: "string \<Rightarrow> string \<Rightarrow> ticket_row \<Rightarrow> bool" where
  "open_for_reply userId ticketId t \<longleftrightarrow> tk_id t = ticketId \<and> tk_userId t = userId \<and> tk_status t \<noteq> Ticket_CLOSED"

definition answered_by_user :: "int \<Rightarrow> ticket_row \<Rightarrow> ticket_row" where
  "answered_by_user now t = t\<lparr>tk_status := TICKET_STATUS_AFTER_USER_REPLY, tk_updatedAt := now\<rparr>"

definition reply_transaction ::
  "(string \<Rightarrow> string) \<Rightarrow> int \<Rightarrow> string \<Rightarrow> string \<Rightarrow> string \<Rightarrow> string \<Rightarrow>
   (unit, IdempotentReplay SupportDomainResult) tx" where
  "reply_transaction sha now userId requestId ticketId body =
     tx_bind (tx_read (\<lambda>s. count_where (open_for_reply userId ticketId) (support_tickets s))) (\<lambda>moved.
     tx_bind (tx_write (\<lambda>s. s\<lparr>support_tickets :=
       update_where (open_for_reply userId ticketId) (answered_by_user now) (support_tickets s)\<rparr>)) (\<lambda>_.
     if moved = 0 then tx_return (Inl TICKET_CLOSED)
     else
     tx_bind (write_message userId requestId body SUPPORT_TICKET_REPLY (Some ticketId)
       (mutationFingerprint sha (reply_parts ticketId body)) User_replied now ticketId) (\<lambda>created.
     tx_bind (tx_read (\<lambda>s. find (\<lambda>t. tk_id t = ticketId) (support_tickets s))) (\<lambda>found.
     tx_bind (tx_some found DbFault) (\<lambda>fresh.
     tx_bind (tx_read (\<lambda>s. service_label s fresh)) (\<lambda>label.
       tx_return (Inr ((fresh, label), sm_id created))))))))"

record reply_command =
  rc_requestId :: string
  rc_message :: string
  rc_ticket :: string

definition read_reply_input :: "ReplyInput \<Rightarrow> reply_command SupportDomainResult" where
  "read_reply_input input =
     chain (normalizeRequestId (ri_clientRequestId input)) (\<lambda>requestId.
     chain (normalizeMessage (ri_message input)) (\<lambda>message.
     chain (case canonicalTicketPublicId (ri_ticketPublicId input) of
              None \<Rightarrow> Inl INVALID_TICKET_ID | Some canonical \<Rightarrow> Inr canonical) (\<lambda>ticket.
       Inr \<lparr>rc_requestId = requestId, rc_message = message, rc_ticket = ticket\<rparr>)))"

definition replyToTicket ::
  "(nat \<Rightarrow> db \<Rightarrow> db) \<Rightarrow> (string \<Rightarrow> string) \<Rightarrow> int \<Rightarrow> string \<Rightarrow> ReplyInput \<Rightarrow> db \<Rightarrow> support_outcome \<times> db" where
  "replyToTicket others sha now userId input s =
     (case read_reply_input input of
        Inl e \<Rightarrow> (Answered (Inl e), s)
      | Inr c \<Rightarrow>
          let s0 = others 0 s in
          (case resolveOwnedTicket s0 userId (JStr (rc_ticket c)) of
             None \<Rightarrow> (Answered (Inl TICKET_NOT_FOUND), s0)
           | Some (ticket, _) \<Rightarrow>
               let fingerprint = mutationFingerprint sha (reply_parts (tk_id ticket) (rc_message c));
                   replay = (\<lambda>o' t. replayIfCompleted o' userId (rc_requestId c) SUPPORT_TICKET_REPLY
                     (Some (tk_id ticket)) fingerprint t)
               in (case replay (\<lambda>n. others (1 + n)) s0 of
                     (Some answer, s1) \<Rightarrow> (Answered answer, s1)
                   | (None, s1) \<Rightarrow>
                       if \<not> userMayReply (tk_status ticket) then (Answered (Inl TICKET_CLOSED), s1)
                       else (case run_transaction
                           (reply_transaction sha now userId (rc_requestId c) (tk_id ticket) (rc_message c))
                           (others 3 s1) of
                           (Inr value, s2) \<Rightarrow> (Answered value, s2)
                         | (Inl UniqueViolation, s2) \<Rightarrow>
                             (case replay (\<lambda>n. others (4 + n)) s2 of
                                (Some raced, s3) \<Rightarrow> (Answered raced, s3)
                              | (None, s3) \<Rightarrow> (SupportThrows, s3))
                         | (Inl _, s2) \<Rightarrow> (SupportThrows, s2)))))"

section \<open>Pages\<close>

text \<open>
  One page of a collection read backwards from a position: the rows before it in the order of \<open>key\<close>, the
  latest first, with one row more than the page holds to tell whether there is another.
\<close>

definition keyset_rows :: "('r \<Rightarrow> 'k::linorder) \<Rightarrow> ('r \<Rightarrow> bool) \<Rightarrow> nat \<Rightarrow> 'k option \<Rightarrow> 'r list \<Rightarrow> 'r list" where
  "keyset_rows key mine limit before rows =
     take (limit + 1) (rev (sort_key key (filter (\<lambda>r. mine r
       \<and> (case before of None \<Rightarrow> True | Some c \<Rightarrow> key r < c)) rows)))"

definition page_end :: "('r \<Rightarrow> 'k) \<Rightarrow> bool \<Rightarrow> 'r list \<Rightarrow> 'k option" where
  "page_end key hasMore page = (if hasMore \<and> page \<noteq> [] then Some (key (List.last page)) else None)"

type_synonym keyset_cursor = "int \<times> string"

record MessagePage =
  mp_messages :: "message_row list"
  mp_hasMore :: bool
  mp_older :: "keyset_cursor option"

definition message_position :: "message_row \<Rightarrow> keyset_cursor" where
  "message_position m = (sm_createdAt m, sm_id m)"

definition listOwnedTicketMessages ::
  "(db \<Rightarrow> db) \<Rightarrow> db \<Rightarrow> string \<Rightarrow> json \<Rightarrow> nat \<Rightarrow> keyset_cursor option \<Rightarrow> MessagePage option" where
  "listOwnedTicketMessages between s userId ticketPublicId limit olderThan =
     (case resolveOwnedTicket s userId ticketPublicId of
        None \<Rightarrow> None
      | Some (ticket, _) \<Rightarrow>
          let rows = keyset_rows message_position (\<lambda>m. sm_ticketId m = tk_id ticket) limit olderThan
                (support_messages (between s));
              hasMore = (limit < length rows);
              page = (if hasMore then take limit rows else rows)
          in Some \<lparr>mp_messages = rev page, mp_hasMore = hasMore,
               mp_older = page_end message_position hasMore page\<rparr>)"

record TicketPage =
  tp_tickets :: "ticket_with_label list"
  tp_hasMore :: bool
  tp_next :: "keyset_cursor option"

definition ticket_position :: "ticket_row \<Rightarrow> keyset_cursor" where
  "ticket_position t = (tk_updatedAt t, tk_id t)"

definition listOwnedTickets :: "db \<Rightarrow> string \<Rightarrow> nat \<Rightarrow> keyset_cursor option \<Rightarrow> TicketPage" where
  "listOwnedTickets s userId limit after =
     (let rows = keyset_rows ticket_position (\<lambda>t. tk_userId t = userId) limit after (support_tickets s);
          hasMore = (limit < length rows);
          page = (if hasMore then take limit rows else rows)
      in \<lparr>tp_tickets = map (\<lambda>t. (t, service_label s t)) page, tp_hasMore = hasMore,
          tp_next = page_end ticket_position hasMore page\<rparr>)"

section \<open>Summaries\<close>

datatype TicketWaitingParty = Waiting_USER | Waiting_SUPPORT

definition WAITING_SUPPORT_STATUSES :: "SupportTicketStatus list" where
  "WAITING_SUPPORT_STATUSES = [Ticket_WAITING_ADMIN, Ticket_OPEN]"
definition WAITING_USER_STATUSES :: "SupportTicketStatus list" where
  "WAITING_USER_STATUSES = [Ticket_WAITING_USER, Ticket_ANSWERED]"

definition ticketWaitingParty :: "SupportTicketStatus \<Rightarrow> TicketWaitingParty option" where
  "ticketWaitingParty status =
     (if status \<in> set WAITING_SUPPORT_STATUSES then Some Waiting_SUPPORT
      else if status \<in> set WAITING_USER_STATUSES then Some Waiting_USER else None)"

record TicketSummary =
  ts_total :: nat
  ts_waitingSupport :: nat
  ts_waitingUser :: nat
  ts_closed :: nat

text \<open>The groups of \<open>groupBy\<close>: a status that occurs, with its count, in any order.\<close>

definition status_groups :: "string \<Rightarrow> db \<Rightarrow> (SupportTicketStatus \<times> nat) list" where
  "status_groups userId s =
     (let mine = map tk_status (filter (\<lambda>t. tk_userId t = userId) (support_tickets s))
      in map (\<lambda>st. (st, count_list mine st)) (remdups mine))"

fun add_group :: "SupportTicketStatus \<times> nat \<Rightarrow> TicketSummary \<Rightarrow> TicketSummary" where
  "add_group (status, n) acc =
     (let acc = acc\<lparr>ts_total := ts_total acc + n\<rparr> in
      case ticketWaitingParty status of
        Some Waiting_SUPPORT \<Rightarrow> acc\<lparr>ts_waitingSupport := ts_waitingSupport acc + n\<rparr>
      | Some Waiting_USER \<Rightarrow> acc\<lparr>ts_waitingUser := ts_waitingUser acc + n\<rparr>
      | None \<Rightarrow> acc\<lparr>ts_closed := ts_closed acc + n\<rparr>)"

definition summarizeOwnedTickets :: "string \<Rightarrow> db \<Rightarrow> TicketSummary" where
  "summarizeOwnedTickets userId s =
     fold add_group (status_groups userId s)
       \<lparr>ts_total = 0, ts_waitingSupport = 0, ts_waitingUser = 0, ts_closed = 0\<rparr>"

definition ticketHasAttachments :: "string \<Rightarrow> db \<Rightarrow> bool" where
  "ticketHasAttachments ticketId s \<longleftrightarrow>
     (\<exists>m \<in> set (support_messages s). sm_ticketId m = ticketId \<and> sm_fileId m \<noteq> None)"

lemma run_transaction_Inr_iff: "run_transaction m s = (Inr a, s') \<longleftrightarrow> m s = Inr (a, s')"
  by (auto simp: run_transaction_def split: sum.splits prod.splits)

end
