(* ===== verification/SupportTicketFacts.thy ===== *)
theory SupportTicketFacts
  imports SupportTickets
begin

text \<open>
  What the operations on a user's tickets do, that a request takes effect once, that a closed ticket takes
  no reply, and that the pages of a conversation put together are the conversation.
\<close>

section \<open>What a mutation writes\<close>

text \<open>The message, the request and the intent, with the identifiers drawn for them.\<close>

definition after_message ::
  "string \<Rightarrow> string \<Rightarrow> string \<Rightarrow> MiniAppIdempotentOperation \<Rightarrow> string option \<Rightarrow> string \<Rightarrow>
   SupportNotificationKind \<Rightarrow> int \<Rightarrow> string \<Rightarrow> db \<Rightarrow> db" where
  "after_message userId requestId body operation target fingerprint kind now ticketId s =
     s\<lparr>support_messages := support_messages s @ [user_message userId ticketId body now (uuids s (drawn s))],
       idem_rows := idem_rows s @ [request_row userId requestId operation target fingerprint ticketId
         (uuids s (drawn s)) (uuids s (Suc (drawn s)))],
       support_intents := support_intents s @
         [new_intent ticketId (uuids s (drawn s)) kind now (uuids s (Suc (Suc (drawn s))))],
       drawn := Suc (Suc (Suc (drawn s)))\<rparr>"

lemma write_message_Inr:
  assumes "write_message userId requestId body operation target fingerprint kind now ticketId s = Inr (m, s')"
  shows "m = user_message userId ticketId body now (uuids s (drawn s))
    \<and> s' = after_message userId requestId body operation target fingerprint kind now ticketId s
    \<and> stored_request s userId requestId = None
    \<and> (\<exists>t \<in> set (support_tickets s). tk_id t = ticketId)"
proof -
  have "post (write_message userId requestId body operation target fingerprint kind now ticketId) s
      (\<lambda>m s'. m = user_message userId ticketId body now (uuids s (drawn s))
        \<and> s' = after_message userId requestId body operation target fingerprint kind now ticketId s
        \<and> stored_request s userId requestId = None
        \<and> (\<exists>t \<in> set (support_tickets s). tk_id t = ticketId))"
    unfolding write_message_def
    by (auto simp: tx_rules after_message_def user_message_def request_row_def new_intent_def fk_def
        stored_request_def find_None_all)
  from post_Inr [OF this assms] show ?thesis .
qed

definition create_effect ::
  "(string \<Rightarrow> string) \<Rightarrow> int \<Rightarrow> string \<Rightarrow> create_command \<Rightarrow> string option \<Rightarrow> db \<Rightarrow> db" where
  "create_effect sha now userId c serviceId s =
     after_message userId (cc_requestId c) (cc_message c) SUPPORT_TICKET_CREATE None
       (mutationFingerprint sha (create_parts c)) Ticket_created now (uuids s (drawn s))
       (s\<lparr>support_tickets := support_tickets s @ [new_ticket userId c serviceId now (uuids s (drawn s))],
          drawn := Suc (drawn s)\<rparr>)"

text \<open>The service a ticket is linked to is the one the user could see when the ticket was written.\<close>

definition links_service :: "db \<Rightarrow> string \<Rightarrow> string option \<Rightarrow> string option \<Rightarrow> bool" where
  "links_service s userId wanted serviceId =
     (case wanted of
        None \<Rightarrow> serviceId = None
      | Some canonical \<Rightarrow> \<exists>v. findOwnedService s userId canonical = Some v \<and> serviceId = Some (sv_id v))"

lemma linked_service_Inr:
  "linked_service userId wanted s = Inr (serviceId, s') \<Longrightarrow> s' = s \<and> links_service s userId wanted serviceId"
  by (auto simp: linked_service_def links_service_def tx_success split: option.splits)

lemma create_transaction_Inr:
  assumes "create_transaction sha now userId c s = Inr (((t, label), m), s')"
  shows "\<exists>serviceId. s' = create_effect sha now userId c serviceId s
    \<and> links_service s userId (cc_service c) serviceId
    \<and> t = new_ticket userId c serviceId now (uuids s (drawn s)) \<and> m = uuids s (Suc (drawn s))
    \<and> stored_request s userId (cc_requestId c) = None"
proof -
  obtain serviceId s1 tk msg s2 where l: "linked_service userId (cc_service c) s = Inr (serviceId, s1)"
    and k: "(create_ticket (new_ticket userId c serviceId now (uuids s1 (drawn s1))) :: (support_exn, _) tx)
      (s1\<lparr>drawn := Suc (drawn s1)\<rparr>) = Inr (tk, s2)"
    and w: "(write_message userId (cc_requestId c) (cc_message c) SUPPORT_TICKET_CREATE None
       (mutationFingerprint sha (create_parts c)) Ticket_created now (tk_id tk) :: (support_exn, _) tx) s2
      = Inr (msg, s')"
    and r: "t = tk" "m = sm_id msg"
    using assms by (simp add: create_transaction_def tx_success draw_id_def) blast
  note L = linked_service_Inr [OF l]
  have K: "tk = new_ticket userId c serviceId now (uuids s (drawn s))"
    "s2 = s\<lparr>support_tickets := support_tickets s @ [tk], drawn := Suc (drawn s)\<rparr>"
    using k L by (auto simp: create_ticket_def split: if_splits)
  from write_message_Inr [OF w] show ?thesis
    using L K r
    by (intro exI [of _ serviceId])
      (auto simp: create_effect_def new_ticket_def user_message_def stored_request_def)
qed

definition reply_effect ::
  "(string \<Rightarrow> string) \<Rightarrow> int \<Rightarrow> string \<Rightarrow> string \<Rightarrow> string \<Rightarrow> string \<Rightarrow> db \<Rightarrow> db" where
  "reply_effect sha now userId requestId ticketId body s =
     after_message userId requestId body SUPPORT_TICKET_REPLY (Some ticketId)
       (mutationFingerprint sha (reply_parts ticketId body)) User_replied now ticketId
       (s\<lparr>support_tickets :=
          update_where (open_for_reply userId ticketId) (answered_by_user now) (support_tickets s)\<rparr>)"

lemma reply_transaction_Inr:
  assumes "reply_transaction sha now userId requestId ticketId body s = Inr (value, s')"
  shows "(\<exists>t \<in> set (support_tickets s). open_for_reply userId ticketId t)
      \<and> (\<exists>t label. value = Inr ((t, label), uuids s (drawn s)) \<and> tk_id t = ticketId)
      \<and> s' = reply_effect sha now userId requestId ticketId body s
      \<and> stored_request s userId requestId = None
    \<or> (\<forall>t \<in> set (support_tickets s). \<not> open_for_reply userId ticketId t) \<and> value = Inl TICKET_CLOSED \<and> s' = s"
proof -
  let ?s1 = "s\<lparr>support_tickets :=
    update_where (open_for_reply userId ticketId) (answered_by_user now) (support_tickets s)\<rparr>"
  show ?thesis
  proof (cases "count_where (open_for_reply userId ticketId) (support_tickets s) = 0")
    case True
    then have n: "\<forall>t \<in> set (support_tickets s). \<not> open_for_reply userId ticketId t" by (simp add: count_where_0)
    with True assms show ?thesis
      by (auto simp: reply_transaction_def tx_success update_where_none)
  next
    case False
    then have n: "\<exists>t \<in> set (support_tickets s). open_for_reply userId ticketId t" by (simp add: count_where_0)
    obtain msg s2 fresh where w: "(write_message userId requestId body SUPPORT_TICKET_REPLY (Some ticketId)
        (mutationFingerprint sha (reply_parts ticketId body)) User_replied now ticketId :: (unit, _) tx) ?s1
      = Inr (msg, s2)"
      and f: "find (\<lambda>t. tk_id t = ticketId) (support_tickets s2) = Some fresh"
      and v: "value = Inr ((fresh, service_label s2 fresh), sm_id msg)" "s' = s2"
      using assms False by (simp add: reply_transaction_def tx_success) blast
    have "tk_id fresh = ticketId" using find_Some_in [OF f] by simp
    then show ?thesis
      using write_message_Inr [OF w] n v by (auto simp: reply_effect_def user_message_def stored_request_def)
  qed
qed

section \<open>Replays\<close>

definition answers :: "idem_row \<Rightarrow> IdempotentReplay \<Rightarrow> bool" where
  "answers r v \<longleftrightarrow> tk_id (fst (fst v)) = ir_resultTicketId r \<and> snd v = ir_resultMessageId r"

lemma replay_Some:
  assumes "replayIfCompleted others userId requestId operation target fingerprint s = (Some answer, s')"
  shows "\<exists>r. stored_request (others 0 s) userId requestId = Some r
    \<and> (if idempotentRecordMatches r operation target fingerprint
       then answer = Inl TICKET_NOT_FOUND \<or> (\<exists>v. answer = Inr v \<and> answers r v)
       else answer = Inl SUPPORT_IDEMPOTENCY_CONFLICT)"
  using assms
  by (auto simp: replayIfCompleted_def answers_def owned_ticket_def Let_def
      split: option.splits if_splits dest: find_Some_in)

lemma replay_None:
  "replayIfCompleted others userId requestId operation target fingerprint s = (None, s') \<longleftrightarrow>
     stored_request (others 0 s) userId requestId = None \<and> s' = others 0 s"
  by (auto simp: replayIfCompleted_def Let_def split: option.splits)

lemma replay_quiet: "snd (replayIfCompleted (\<lambda>_ s. s) userId requestId operation target fingerprint s) = s"
  by (auto simp: replayIfCompleted_def Let_def split: option.splits)

lemma replay_stored:
  "stored_request s userId requestId = Some r \<Longrightarrow>
   replayIfCompleted (\<lambda>_ s. s) userId requestId operation target fingerprint s =
     (Some (if \<not> idempotentRecordMatches r operation target fingerprint then Inl SUPPORT_IDEMPOTENCY_CONFLICT
        else case owned_ticket s userId (ir_resultTicketId r) of
          None \<Rightarrow> Inl TICKET_NOT_FOUND
        | Some t \<Rightarrow> Inr ((t, service_label s t), ir_resultMessageId r)), s)"
  by (auto simp: replayIfCompleted_def split: option.splits)

section \<open>How a request can be answered\<close>

text \<open>A stored request answers \<open>v\<close>; the reads of the answer are the only steps from \<open>s\<close> to \<open>s'\<close>.\<close>

definition replayed ::
  "(nat \<Rightarrow> db \<Rightarrow> db) \<Rightarrow> string \<Rightarrow> string \<Rightarrow> MiniAppIdempotentOperation \<Rightarrow> string option \<Rightarrow> string \<Rightarrow>
   IdempotentReplay \<Rightarrow> db \<Rightarrow> db \<Rightarrow> bool" where
  "replayed others userId requestId operation target fingerprint v s s' \<longleftrightarrow>
     (\<exists>r. stored_request (others 0 s) userId requestId = Some r
       \<and> idempotentRecordMatches r operation target fingerprint \<and> answers r v
       \<and> s' = others 1 (others 0 s)
       \<and> owned_ticket s' userId (tk_id (fst (fst v))) = Some (fst (fst v)))"

lemma replay_answer:
  "replayIfCompleted others userId requestId operation target fingerprint s = (Some (Inr v), s') \<Longrightarrow>
   replayed others userId requestId operation target fingerprint v s s'"
proof -
  assume "replayIfCompleted others userId requestId operation target fingerprint s = (Some (Inr v), s')"
  then obtain r t where r: "stored_request (others 0 s) userId requestId = Some r"
    "idempotentRecordMatches r operation target fingerprint" "s' = others 1 (others 0 s)"
    and t: "owned_ticket s' userId (ir_resultTicketId r) = Some t" "fst (fst v) = t" "snd v = ir_resultMessageId r"
    by (auto simp: replayIfCompleted_def Let_def split: option.splits if_splits)
  have "tk_id t = ir_resultTicketId r" using t(1) by (auto simp: owned_ticket_def dest: find_Some_in)
  then show ?thesis using r t by (auto simp: replayed_def answers_def)
qed

definition created ::
  "(string \<Rightarrow> string) \<Rightarrow> int \<Rightarrow> string \<Rightarrow> create_command \<Rightarrow> IdempotentReplay \<Rightarrow> db \<Rightarrow> db \<Rightarrow> bool" where
  "created sha now userId c v w s' \<longleftrightarrow>
     (\<exists>serviceId. s' = create_effect sha now userId c serviceId w
       \<and> links_service w userId (cc_service c) serviceId
       \<and> fst (fst v) = new_ticket userId c serviceId now (uuids w (drawn w))
       \<and> snd v = uuids w (Suc (drawn w)) \<and> stored_request w userId (cc_requestId c) = None)"

lemma createTicket_Inr:
  assumes run: "createTicket others sha now userId input s = (Answered (Inr v), s')"
    and c: "read_create_input input = Inr c"
  shows "created sha now userId c v (others 2 (others 0 s)) s'
    \<or> replayed others userId (cc_requestId c) SUPPORT_TICKET_CREATE None
        (mutationFingerprint sha (create_parts c)) v s s'
    \<or> replayed (\<lambda>n. others (3 + n)) userId (cc_requestId c) SUPPORT_TICKET_CREATE None
        (mutationFingerprint sha (create_parts c)) v (others 2 (others 0 s)) s'"
proof -
  let ?replay = "\<lambda>o' t. replayIfCompleted o' userId (cc_requestId c) SUPPORT_TICKET_CREATE None
    (mutationFingerprint sha (create_parts c)) t"
  let ?w = "others 2 (others 0 s)"
  obtain answer s1 where r1: "?replay others s = (answer, s1)" by (cases "?replay others s")
  show ?thesis
  proof (cases answer)
    case (Some a)
    with run c r1 have "?replay others s = (Some (Inr v), s')" by (simp add: createTicket_def)
    from replay_answer [OF this] show ?thesis by simp
  next
    case None
    with r1 have s1: "s1 = others 0 s" using replay_None by metis
    obtain res s2 where t: "run_transaction (create_transaction sha now userId c) ?w = (res, s2)"
      by (cases "run_transaction (create_transaction sha now userId c) ?w")
    show ?thesis
    proof (cases res)
      case (Inr x)
      with run c r1 None s1 t have "run_transaction (create_transaction sha now userId c) ?w = (Inr v, s')"
        by (simp add: createTicket_def)
      then have "create_transaction sha now userId c ?w = Inr (((fst (fst v), snd (fst v)), snd v), s')"
        by (simp add: run_transaction_Inr_iff)
      from create_transaction_Inr [OF this] show ?thesis by (auto simp: created_def)
    next
      case (Inl e)
      with t have "s2 = ?w" using run_transaction_rollback by blast
      moreover have e: "e = UniqueViolation"
        using run c r1 None s1 t Inl by (cases e) (auto simp: createTicket_def split: support_exn.splits)
      moreover obtain a s3 where r3: "?replay (\<lambda>n. others (3 + n)) ?w = (a, s3)"
        by (cases "?replay (\<lambda>n. others (3 + n)) ?w")
      ultimately have "a = Some (Inr v) \<and> s3 = s'"
        using run c r1 None s1 t Inl by (cases a) (simp_all add: createTicket_def)
      with r3 replay_answer [of "\<lambda>n. others (3 + n)"] show ?thesis by simp
    qed
  qed
qed

definition replied_to ::
  "(string \<Rightarrow> string) \<Rightarrow> int \<Rightarrow> string \<Rightarrow> reply_command \<Rightarrow> string \<Rightarrow> IdempotentReplay \<Rightarrow> db \<Rightarrow> db \<Rightarrow> bool" where
  "replied_to sha now userId c ticketId v w s' \<longleftrightarrow>
     s' = reply_effect sha now userId (rc_requestId c) ticketId (rc_message c) w
     \<and> (\<exists>t \<in> set (support_tickets w). open_for_reply userId ticketId t)
     \<and> tk_id (fst (fst v)) = ticketId \<and> snd v = uuids w (drawn w)
     \<and> stored_request w userId (rc_requestId c) = None"

lemma replyToTicket_Inr:
  assumes run: "replyToTicket others sha now userId input s = (Answered (Inr v), s')"
    and c: "read_reply_input input = Inr c"
  shows "\<exists>ticket label. resolveOwnedTicket (others 0 s) userId (JStr (rc_ticket c)) = Some (ticket, label)
    \<and> (replied_to sha now userId c (tk_id ticket) v (others 3 (others 1 (others 0 s))) s'
      \<or> replayed (\<lambda>n. others (1 + n)) userId (rc_requestId c) SUPPORT_TICKET_REPLY (Some (tk_id ticket))
          (mutationFingerprint sha (reply_parts (tk_id ticket) (rc_message c))) v (others 0 s) s'
      \<or> replayed (\<lambda>n. others (4 + n)) userId (rc_requestId c) SUPPORT_TICKET_REPLY (Some (tk_id ticket))
          (mutationFingerprint sha (reply_parts (tk_id ticket) (rc_message c))) v
          (others 3 (others 1 (others 0 s))) s')"
proof -
  obtain ticket label where tl: "resolveOwnedTicket (others 0 s) userId (JStr (rc_ticket c)) = Some (ticket, label)"
    using run c
    by (cases "resolveOwnedTicket (others 0 s) userId (JStr (rc_ticket c))") (auto simp: replyToTicket_def)
  let ?replay = "\<lambda>o' t. replayIfCompleted o' userId (rc_requestId c) SUPPORT_TICKET_REPLY (Some (tk_id ticket))
    (mutationFingerprint sha (reply_parts (tk_id ticket) (rc_message c))) t"
  let ?tx = "reply_transaction sha now userId (rc_requestId c) (tk_id ticket) (rc_message c)"
  let ?w = "others 3 (others 1 (others 0 s))"
  obtain answer s1 where r1: "?replay (\<lambda>n. others (1 + n)) (others 0 s) = (answer, s1)"
    by (cases "?replay (\<lambda>n. others (1 + n)) (others 0 s)")
  have "replied_to sha now userId c (tk_id ticket) v ?w s'
      \<or> ?replay (\<lambda>n. others (1 + n)) (others 0 s) = (Some (Inr v), s')
      \<or> ?replay (\<lambda>n. others (4 + n)) ?w = (Some (Inr v), s')"
  proof (cases answer)
    case (Some a)
    with run c r1 tl show ?thesis by (simp add: replyToTicket_def Let_def)
  next
    case None
    with r1 have s1: "s1 = others 1 (others 0 s)" using replay_None by (metis add.right_neutral)
    obtain res s2 where t: "run_transaction ?tx ?w = (res, s2)" by (cases "run_transaction ?tx ?w")
    show ?thesis
    proof (cases res)
      case (Inr x)
      with run c r1 None s1 t tl have "run_transaction ?tx ?w = (Inr (Inr v), s')"
        by (simp add: replyToTicket_def Let_def split: if_splits)
      then have "?tx ?w = Inr (Inr v, s')" by (simp add: run_transaction_Inr_iff)
      from reply_transaction_Inr [OF this] show ?thesis by (auto simp: replied_to_def)
    next
      case (Inl e)
      with t have "s2 = ?w" using run_transaction_rollback by blast
      moreover have e: "e = UniqueViolation"
        using run c r1 None s1 t tl Inl by (cases e) (auto simp: replyToTicket_def Let_def split: if_splits)
      moreover obtain a s3 where r3: "?replay (\<lambda>n. others (4 + n)) ?w = (a, s3)"
        by (cases "?replay (\<lambda>n. others (4 + n)) ?w")
      ultimately have "a = Some (Inr v) \<and> s3 = s'"
        using run c r1 None s1 t tl Inl by (cases a) (auto simp: replyToTicket_def Let_def split: if_splits)
      with r3 show ?thesis by simp
    qed
  qed
  with tl show ?thesis
    using replay_answer [of "\<lambda>n. others (1 + n)"] replay_answer [of "\<lambda>n. others (4 + n)"] by blast
qed

text \<open>
  A support request that is answered with a ticket has created exactly one, or is the answer to an
  earlier one. In the first case the ticket, its first message, the record of the request and the intent
  to tell the administrators are written together, and the ticket is linked to the service that the
  user could see at that moment; in the second the request was stored with this content and nothing is
  written.
\<close>

theorem ticket_is_created_or_replayed:
  assumes "createTicket others sha now userId input s = (Answered (Inr v), s')"
    and "read_create_input input = Inr c"
  shows "(\<exists>w serviceId. w = others 2 (others 0 s)
      \<and> s' = create_effect sha now userId c serviceId w
      \<and> links_service w userId (cc_service c) serviceId
      \<and> fst (fst v) = new_ticket userId c serviceId now (uuids w (drawn w)) \<and> snd v = uuids w (Suc (drawn w)))
    \<or> (\<exists>w r. w \<in> {others 0 s, others 3 (others 2 (others 0 s))} \<and> s' \<in> {others 1 w, others 4 w}
      \<and> stored_request w userId (cc_requestId c) = Some r
      \<and> ir_fingerprint r = mutationFingerprint sha (create_parts c) \<and> answers r v)"
  using createTicket_Inr [OF assms]
  by (auto simp: created_def replayed_def idempotentRecordMatches_def)

section \<open>A request takes effect once\<close>

text \<open>Requests are never deleted, so what other processes do keeps the stored ones.\<close>

definition keeps_requests :: "(db \<Rightarrow> db) \<Rightarrow> bool" where
  "keeps_requests f \<longleftrightarrow>
     (\<forall>s u k r. stored_request s u k = Some r \<longrightarrow> stored_request (f s) u k = Some r)"

lemma find_snoc: "find P (xs @ [x]) = (case find P xs of Some y \<Rightarrow> Some y | None \<Rightarrow> if P x then Some x else None)"
  by (induction xs) auto

lemma stored_after_message:
  "stored_request s userId requestId = None \<Longrightarrow>
   stored_request (after_message userId requestId body operation target fingerprint kind now ticketId s) userId requestId
     = Some (request_row userId requestId operation target fingerprint ticketId (uuids s (drawn s))
         (uuids s (Suc (drawn s))))"
  by (simp add: stored_request_def after_message_def find_snoc request_row_def)

lemma replayed_stored:
  assumes "replayed others userId requestId operation target fingerprint v s s'" and "keeps_requests (others 1)"
  shows "\<exists>r. stored_request s' userId requestId = Some r
    \<and> idempotentRecordMatches r operation target fingerprint \<and> answers r v"
  using assms by (auto simp: replayed_def keeps_requests_def)

lemma created_stored:
  assumes "created sha now userId c v w s'"
  shows "\<exists>r. stored_request s' userId (cc_requestId c) = Some r
    \<and> idempotentRecordMatches r SUPPORT_TICKET_CREATE None (mutationFingerprint sha (create_parts c)) \<and> answers r v"
  using assms
  by (auto simp: created_def create_effect_def stored_after_message stored_request_def request_row_def
      idempotentRecordMatches_def answers_def new_ticket_def stored_after_message [unfolded stored_request_def])

lemma replied_stored:
  assumes "replied_to sha now userId c ticketId v w s'"
  shows "\<exists>r. stored_request s' userId (rc_requestId c) = Some r
    \<and> idempotentRecordMatches r SUPPORT_TICKET_REPLY (Some ticketId)
        (mutationFingerprint sha (reply_parts ticketId (rc_message c))) \<and> answers r v"
  using assms
  by (auto simp: replied_to_def reply_effect_def request_row_def idempotentRecordMatches_def answers_def
      stored_after_message [unfolded stored_request_def] stored_request_def)

text \<open>The content of a request can be read back from what is hashed.\<close>

lemma hex8_not_none: "hex8 x \<Longrightarrow> js_lower x \<noteq> CHR 0x00 # ''none''"
proof
  assume "hex8 x" and e: "js_lower x = CHR 0x00 # ''none''"
  moreover have "length x = 5" using arg_cong [OF e, of length] by simp
  ultimately show False using hex8_length by force
qed

lemma wanted_service_Inr: "wanted_service v \<noteq> Inr (Some (CHR 0x00 # ''none''))"
  by (auto simp: wanted_service_def canonicalServicePublicId_def canonicalPublicId_def hex8_not_none
      split: if_splits json.splits option.splits)

lemma create_parts_inject:
  assumes "read_create_input i = Inr c" and "read_create_input j = Inr d"
    and "create_parts c = create_parts d" and "cc_requestId c = cc_requestId d"
  shows "c = d"
proof -
  have n: "cc_service c \<noteq> Some (CHR 0x00 # ''none'')" "cc_service d \<noteq> Some (CHR 0x00 # ''none'')"
    using assms(1,2) by (auto simp: read_create_input_def chain_def wanted_service_Inr split: sum.splits)
  then have "cc_service c = cc_service d"
    using assms(3) by (auto simp: create_parts_def split: option.splits)
  then show ?thesis using assms(3,4) by (simp add: create_parts_def)
qed

text \<open>
  C20. Creating a ticket happens once. However the world has moved on since - the ticket closed, the
  service gone - the same request is answered again with the same ticket and the same message and
  changes nothing; the same request identifier with another content is refused as a conflict, also
  without a change.
\<close>

theorem ticket_request_runs_once:
  assumes "createTicket others sha now userId input s = (Answered (Inr v), s')"
    and "read_create_input input = Inr c" and "\<forall>n. keeps_requests (others n)" and "keeps_requests later"
    and "read_create_input again = Inr d" and "cc_requestId d = cc_requestId c" and "inj sha"
    and "owned_ticket (later s') userId (tk_id (fst (fst v))) = Some t"
  shows "createTicket (\<lambda>_ s. s) sha now' userId again (later s')
    = (Answered (if d = c then Inr ((t, service_label (later s') t), snd v) else Inl SUPPORT_IDEMPOTENCY_CONFLICT),
       later s')"
proof -
  obtain r where r: "stored_request s' userId (cc_requestId c) = Some r" "answers r v"
    "idempotentRecordMatches r SUPPORT_TICKET_CREATE None (mutationFingerprint sha (create_parts c))"
    using createTicket_Inr [OF assms(1,2)] created_stored replayed_stored assms(3) by metis
  then have l: "stored_request (later s') userId (cc_requestId d) = Some r"
    using assms(4,6) by (simp add: keeps_requests_def)
  have "idempotentRecordMatches r SUPPORT_TICKET_CREATE None (mutationFingerprint sha (create_parts d)) \<longleftrightarrow> d = c"
    using r(3) create_parts_inject [OF assms(2,5)] mutationFingerprint_inject [OF assms(7)] assms(6)
    by (auto simp: idempotentRecordMatches_def)
  then show ?thesis
    using assms(5,8) replay_stored [OF l] r(2) by (simp add: createTicket_def answers_def)
qed

lemma resolved_owned:
  assumes "resolveOwnedTicket s userId public = Some (t, label)" and "unique_by tk_id (support_tickets s)"
  shows "owned_ticket s userId (tk_id t) = Some t \<and> label = service_label s t"
proof -
  obtain canonical where c: "only (filter (\<lambda>t. starts_with (tk_id t) canonical \<and> tk_userId t = userId) (support_tickets s))
      = Some t" and l: "label = service_label s t"
    using assms(1) by (auto simp: resolveOwnedTicket_def split: option.splits)
  then have "filter (\<lambda>t. starts_with (tk_id t) canonical \<and> tk_userId t = userId) (support_tickets s) = [t]"
    by (cases "filter (\<lambda>t. starts_with (tk_id t) canonical \<and> tk_userId t = userId) (support_tickets s)"
        rule: only.cases) auto
  then have t: "t \<in> set (support_tickets s)" "tk_userId t = userId"
    using filter_eq_ConsD by fastforce+
  then have "\<exists>x. owned_ticket s userId (tk_id t) = Some x"
    by (cases "owned_ticket s userId (tk_id t)") (auto simp: owned_ticket_def find_None_all)
  then obtain x where x: "owned_ticket s userId (tk_id t) = Some x" ..
  then have "x \<in> set (support_tickets s)" "tk_id x = tk_id t" by (auto simp: owned_ticket_def dest: find_Some_in)
  with t assms(2) have "x = t" by (blast dest: unique_by_inj)
  with x l show ?thesis by simp
qed

text \<open>
  A reply is written once. As long as the ticket can be found, the same reply sent again is
  answered with the message that was written and writes nothing, even when the ticket was closed
  since; another text under the same request identifier is refused as a conflict.
\<close>

theorem reply_request_runs_once:
  assumes "replyToTicket others sha now userId input s = (Answered (Inr v), s')"
    and "read_reply_input input = Inr c" and "\<forall>n. keeps_requests (others n)" and "keeps_requests later"
    and "read_reply_input again = Inr d" and "rc_requestId d = rc_requestId c" and "inj sha"
    and "resolveOwnedTicket (later s') userId (JStr (rc_ticket d)) = Some (t, label)"
    and "unique_by tk_id (support_tickets (later s'))" and "tk_id t = tk_id (fst (fst v))"
    and "resolveOwnedTicket (others 0 s) userId (JStr (rc_ticket c)) = Some (t0, label0)" and "tk_id t0 = tk_id t"
  shows "replyToTicket (\<lambda>_ s. s) sha now' userId again (later s')
    = (Answered (if rc_message d = rc_message c then Inr ((t, label), snd v)
         else Inl SUPPORT_IDEMPOTENCY_CONFLICT), later s')"
proof -
  obtain r where r: "stored_request s' userId (rc_requestId c) = Some r" "answers r v"
    "idempotentRecordMatches r SUPPORT_TICKET_REPLY (Some (tk_id t))
       (mutationFingerprint sha (reply_parts (tk_id t) (rc_message c)))"
    using replyToTicket_Inr [OF assms(1,2)] replied_stored replayed_stored assms(3,11,12)
    by (smt (verit) Pair_inject option.inject)
  then have l: "stored_request (later s') userId (rc_requestId d) = Some r"
    using assms(4,6) by (simp add: keeps_requests_def)
  have m: "idempotentRecordMatches r SUPPORT_TICKET_REPLY (Some (tk_id t))
      (mutationFingerprint sha (reply_parts (tk_id t) (rc_message d))) \<longleftrightarrow> rc_message d = rc_message c"
    using r(3) mutationFingerprint_inject [OF assms(7)] by (auto simp: idempotentRecordMatches_def reply_parts_def)
  show ?thesis
    using assms(5,8,10) replay_stored [OF l] resolved_owned [OF assms(8,9)] r(2) m
    by (simp add: replyToTicket_def answers_def Let_def)
qed

section \<open>Refusals and closed tickets\<close>

text \<open>Unless it writes, a call leaves the database as other processes left it.\<close>

lemma replay_states:
  "replayIfCompleted others userId requestId operation target fingerprint s = (answer, s') \<Longrightarrow>
     s' = others 0 s \<or> s' = others 1 (others 0 s)"
  by (auto simp: replayIfCompleted_def Let_def split: option.splits if_splits)

lemma create_transaction_created:
  "run_transaction (create_transaction sha now userId c) w = (Inr v, s') \<Longrightarrow> created sha now userId c v w s'"
  using create_transaction_Inr [of sha now userId c w "fst (fst v)" "snd (fst v)" "snd v" s']
  by (auto simp: created_def run_transaction_Inr_iff)

lemma createTicket_final:
  assumes "createTicket others sha now userId input s = (out, s')"
  shows "s' \<in> {s, others 0 s, others 1 (others 0 s), others 2 (others 0 s), others 3 (others 2 (others 0 s)),
        others 4 (others 3 (others 2 (others 0 s)))}
    \<or> (\<exists>v c. out = Answered (Inr v) \<and> read_create_input input = Inr c
        \<and> created sha now userId c v (others 2 (others 0 s)) s')"
proof (cases "read_create_input input")
  case (Inl e)
  with assms show ?thesis by (simp add: createTicket_def)
next
  case (Inr c)
  let ?w = "others 2 (others 0 s)"
  let ?replay = "\<lambda>o' t. replayIfCompleted o' userId (cc_requestId c) SUPPORT_TICKET_CREATE None
    (mutationFingerprint sha (create_parts c)) t"
  obtain answer s1 where r1: "?replay others s = (answer, s1)" by (cases "?replay others s")
  obtain res s2 where t: "run_transaction (create_transaction sha now userId c) ?w = (res, s2)"
    by (cases "run_transaction (create_transaction sha now userId c) ?w")
  obtain a s3 where r3: "?replay (\<lambda>n. others (3 + n)) ?w = (a, s3)" by (cases "?replay (\<lambda>n. others (3 + n)) ?w")
  have s3: "s3 = others 3 ?w \<or> s3 = others 4 (others 3 ?w)" using replay_states [OF r3] by simp
  show ?thesis
  proof (cases answer)
    case (Some x)
    with Inr assms r1 replay_states [OF r1] show ?thesis by (auto simp: createTicket_def)
  next
    case None
    with r1 have s1: "s1 = others 0 s" using replay_None by metis
    show ?thesis
    proof (cases res)
      case b: (Inl e)
      then have "s2 = ?w" using t run_transaction_rollback by blast
      then have "s' = ?w \<or> s' = s3"
        using assms Inr r1 None s1 t b r3
        by (cases e; cases a) (auto simp: createTicket_def split: support_exn.splits)
      then show ?thesis using s3 by auto
    next
      case b: (Inr v)
      then have "out = Answered (Inr v)" "s' = s2" using assms Inr r1 None s1 t by (simp_all add: createTicket_def)
      then show ?thesis using Inr t b create_transaction_created by blast
    qed
  qed
qed

lemma reply_transaction_replied:
  assumes "run_transaction (reply_transaction sha now userId (rc_requestId c) ticketId (rc_message c)) w = (Inr value, s')"
  shows "(\<exists>v. value = Inr v \<and> replied_to sha now userId c ticketId v w s') \<or> value = Inl TICKET_CLOSED \<and> s' = w"
  using reply_transaction_Inr [OF assms [unfolded run_transaction_Inr_iff]] by (auto simp: replied_to_def)

lemma replyToTicket_final:
  assumes "replyToTicket others sha now userId input s = (out, s')"
  shows "s' \<in> {s, others 0 s, others 1 (others 0 s), others 2 (others 1 (others 0 s)), others 3 (others 1 (others 0 s)),
        others 4 (others 3 (others 1 (others 0 s))), others 5 (others 4 (others 3 (others 1 (others 0 s))))}
    \<or> (\<exists>v c ticket label. out = Answered (Inr v) \<and> read_reply_input input = Inr c
        \<and> resolveOwnedTicket (others 0 s) userId (JStr (rc_ticket c)) = Some (ticket, label)
        \<and> replied_to sha now userId c (tk_id ticket) v (others 3 (others 1 (others 0 s))) s')"
proof (cases "read_reply_input input")
  case (Inl e)
  with assms show ?thesis by (simp add: replyToTicket_def)
next
  case (Inr c)
  show ?thesis
  proof (cases "resolveOwnedTicket (others 0 s) userId (JStr (rc_ticket c))")
    case None
    with Inr assms show ?thesis by (simp add: replyToTicket_def Let_def)
  next
    case (Some x)
    then obtain ticket label where tl: "resolveOwnedTicket (others 0 s) userId (JStr (rc_ticket c)) = Some (ticket, label)"
      by (cases x) auto
    let ?w = "others 3 (others 1 (others 0 s))"
    let ?tx = "reply_transaction sha now userId (rc_requestId c) (tk_id ticket) (rc_message c)"
    let ?replay = "\<lambda>o' t. replayIfCompleted o' userId (rc_requestId c) SUPPORT_TICKET_REPLY (Some (tk_id ticket))
      (mutationFingerprint sha (reply_parts (tk_id ticket) (rc_message c))) t"
    obtain answer s1 where r1: "?replay (\<lambda>n. others (1 + n)) (others 0 s) = (answer, s1)"
      by (cases "?replay (\<lambda>n. others (1 + n)) (others 0 s)")
    obtain res s2 where t: "run_transaction ?tx ?w = (res, s2)" by (cases "run_transaction ?tx ?w")
    obtain a s3 where r3: "?replay (\<lambda>n. others (4 + n)) ?w = (a, s3)" by (cases "?replay (\<lambda>n. others (4 + n)) ?w")
    have s3: "s3 = others 4 ?w \<or> s3 = others 5 (others 4 ?w)" using replay_states [OF r3] by simp
    have s1: "s1 = others 1 (others 0 s) \<or> s1 = others 2 (others 1 (others 0 s))"
      using replay_states [OF r1] by (simp add: numeral_2_eq_2)
    show ?thesis
    proof (cases answer)
      case a: (Some y)
      with Inr assms r1 tl s1 show ?thesis by (auto simp: replyToTicket_def Let_def)
    next
      case n: None
      with r1 have e1: "s1 = others 1 (others 0 s)" using replay_None by (metis add.right_neutral)
      show ?thesis
      proof (cases res)
        case b: (Inl e)
        then have "s2 = ?w" using t run_transaction_rollback by blast
        then have "s' = s1 \<or> s' = ?w \<or> s' = s3"
          using assms Inr tl r1 n e1 t b r3
          by (cases e; cases a) (auto simp: replyToTicket_def Let_def split: if_splits)
        then show ?thesis using e1 s3 by auto
      next
        case b: (Inr reply)
        then have "s' = s1 \<or> out = Answered reply \<and> s' = s2"
          using assms Inr tl r1 n e1 t by (auto simp: replyToTicket_def Let_def split: if_splits)
        then show ?thesis using Inr tl e1 reply_transaction_replied [OF t [unfolded b]] by auto
      qed
    qed
  qed
qed

text \<open>
  A support request that is refused, or that fails, leaves no trace: without interference, whatever
  is not answered with a ticket has changed nothing.
\<close>

theorem refused_support_request_leaves_no_trace:
  "((\<exists>v. fst (createTicket (\<lambda>_ s. s) sha now userId input s) = Answered (Inr v))
      \<or> snd (createTicket (\<lambda>_ s. s) sha now userId input s) = s)
    \<and> ((\<exists>v. fst (replyToTicket (\<lambda>_ s. s) sha now userId reply s) = Answered (Inr v))
      \<or> snd (replyToTicket (\<lambda>_ s. s) sha now userId reply s) = s)"
  using createTicket_final [OF surjective_pairing, of "\<lambda>_ s. s" sha now userId input s]
    replyToTicket_final [OF surjective_pairing, of "\<lambda>_ s. s" sha now userId reply s] by auto

text \<open>The messages of a ticket.\<close>

definition conversation :: "db \<Rightarrow> string \<Rightarrow> message_row list" where
  "conversation s ticketId = filter (\<lambda>m. sm_ticketId m = ticketId) (support_messages s)"

lemma reply_effect_conversation:
  "conversation (reply_effect sha now userId requestId ticketId body s) i =
    conversation s i @ (if i = ticketId then [user_message userId ticketId body now (uuids s (drawn s))] else [])"
  by (simp add: conversation_def reply_effect_def after_message_def user_message_def)

text \<open>
  C21. A closed ticket takes no reply, wherever the close falls. Let an administrator do anything to the
  database between the check of a reply and its commit: whatever the user is answered, the
  conversation of a ticket that is closed by then stays as it is.
\<close>

theorem closed_ticket_takes_no_reply:
  assumes "replyToTicket (\<lambda>n. if n = 3 then admin else (\<lambda>s. s)) sha now userId input s = (out, s')"
    and "unique_by tk_id (support_tickets (admin s))"
    and "t \<in> set (support_tickets (admin s))" and "tk_status t = Ticket_CLOSED"
  shows "s' = s \<or> conversation s' (tk_id t) = conversation (admin s) (tk_id t)"
proof -
  from replyToTicket_final [OF assms(1)] consider "s' = s" | "s' = admin s"
    | ticketId c v where "replied_to sha now userId c ticketId v (admin s) s'"
    by auto
  then show ?thesis
  proof cases
    case 3
    then obtain x where "x \<in> set (support_tickets (admin s))" "open_for_reply userId ticketId x"
      by (auto simp: replied_to_def)
    then have "tk_id t \<noteq> ticketId"
      using unique_by_inj [OF assms(2,3)] assms(4) by (auto simp: open_for_reply_def)
    with 3 show ?thesis by (simp add: replied_to_def reply_effect_conversation)
  qed simp_all
qed

section \<open>The bookkeeping of support requests\<close>

definition request_kept :: "db \<Rightarrow> idem_row \<Rightarrow> bool" where
  "request_kept s r \<longleftrightarrow>
     (\<exists>t \<in> set (support_tickets s). \<exists>m \<in> set (support_messages s).
        tk_id t = ir_resultTicketId r \<and> tk_userId t = ir_userId r \<and> sm_id m = ir_resultMessageId r
        \<and> sm_ticketId m = tk_id t \<and> sm_senderUserId m = Some (ir_userId r))"

definition support_request :: "idem_row \<Rightarrow> bool" where
  "support_request r \<longleftrightarrow> ir_operation r \<in> range idempotent_operation_name"

definition ids_drawn :: "db \<Rightarrow> bool" where
  "ids_drawn s \<longleftrightarrow> inj (uuids s)
     \<and> unique_by tk_id (support_tickets s) \<and> fresh_for tk_id (support_tickets s) s
     \<and> unique_by sm_id (support_messages s) \<and> fresh_for sm_id (support_messages s) s
     \<and> unique_by si_id (support_intents s) \<and> fresh_for si_id (support_intents s) s"

lemma fresh_snoc:
  "fresh_for k t s \<Longrightarrow> inj (uuids s) \<Longrightarrow> drawn s \<le> n \<Longrightarrow> k r = uuids s n \<Longrightarrow> n < drawn s' \<Longrightarrow> uuids s' = uuids s \<Longrightarrow>
   fresh_for k (t @ [r]) s'"
  by (fastforce simp: fresh_for_def dest: injD)

lemma unique_snoc:
  "unique_by k t \<Longrightarrow> fresh_for k t s \<Longrightarrow> drawn s \<le> n \<Longrightarrow> k r = uuids s n \<Longrightarrow> unique_by k (t @ [r])"
  by (auto simp: unique_by_def fresh_for_def)

lemma fresh_on: "fresh_for k t s \<Longrightarrow> uuids s' = uuids s \<Longrightarrow> drawn s \<le> drawn s' \<Longrightarrow> fresh_for k t s'"
  by (simp add: fresh_for_def)

lemma ids_drawn_message:
  assumes "ids_drawn s"
  shows "ids_drawn (after_message userId requestId body operation target fingerprint kind now ticketId s)"
  using assms
  by (auto simp: ids_drawn_def after_message_def user_message_def new_intent_def
      intro: fresh_on fresh_snoc [of _ _ s "drawn s"] fresh_snoc [of _ _ s "Suc (Suc (drawn s))"]
        unique_snoc [of _ _ s "drawn s"] unique_snoc [of _ _ s "Suc (Suc (drawn s))"])

text \<open>The books, but for the first message of the ticket \<open>i\<close>.\<close>

definition support_ok_but :: "string option \<Rightarrow> db \<Rightarrow> bool" where
  "support_ok_but i s \<longleftrightarrow> ids_drawn s
     \<and> (\<forall>t \<in> set (support_tickets s). Some (tk_id t) \<noteq> i \<longrightarrow> (\<exists>m \<in> set (support_messages s). sm_ticketId m = tk_id t))
     \<and> (\<forall>m \<in> set (support_messages s). sm_ticketId m \<in> tk_id ` set (support_tickets s))
     \<and> (\<forall>m \<in> set (support_messages s). sm_senderType m = Sender_USER \<longrightarrow>
          (\<exists>i \<in> set (support_intents s). si_messageId i = sm_id m \<and> si_ticketId i = sm_ticketId m))
     \<and> (\<forall>i \<in> set (support_intents s). \<exists>m \<in> set (support_messages s).
          sm_id m = si_messageId i \<and> sm_ticketId m = si_ticketId i)
     \<and> (\<forall>r \<in> set (idem_rows s). support_request r \<longrightarrow> request_kept s r)"

definition support_ok :: "db \<Rightarrow> bool" where
  "support_ok s \<longleftrightarrow> support_ok_but None s"

lemmas support_ok_defs = support_ok_def support_ok_but_def

lemma request_kept_mono:
  "request_kept s r \<Longrightarrow> set (support_messages s) \<subseteq> set (support_messages s') \<Longrightarrow>
   (\<lambda>t. (tk_id t, tk_userId t)) ` set (support_tickets s) \<subseteq> (\<lambda>t. (tk_id t, tk_userId t)) ` set (support_tickets s') \<Longrightarrow>
   request_kept s' r"
  by (fastforce simp: request_kept_def image_iff subset_iff)

lemma support_ok_message:
  assumes ok: "support_ok_but i s" and i: "i = None \<or> i = Some ticketId"
    and t: "\<exists>t \<in> set (support_tickets s). tk_id t = ticketId \<and> tk_userId t = userId"
  shows "support_ok (after_message userId requestId body operation target fingerprint kind now ticketId s)"
    (is "support_ok ?s'")
proof -
  let ?m = "user_message userId ticketId body now (uuids s (drawn s))"
  have m: "support_messages ?s' = support_messages s @ [?m]" "support_tickets ?s' = support_tickets s"
    "support_intents ?s' = support_intents s @ [new_intent ticketId (uuids s (drawn s)) kind now (uuids s (Suc (Suc (drawn s))))]"
    "idem_rows ?s' = idem_rows s @ [request_row userId requestId operation target fingerprint ticketId
       (uuids s (drawn s)) (uuids s (Suc (drawn s)))]"
    by (simp_all add: after_message_def)
  have "ids_drawn ?s'" using ok ids_drawn_message by (simp add: support_ok_but_def)
  moreover have "request_kept ?s' r" if "r \<in> set (idem_rows ?s')" "support_request r" for r
  proof (cases "r \<in> set (idem_rows s)")
    case True
    with that ok have "request_kept s r" by (simp add: support_ok_but_def)
    then show ?thesis by (rule request_kept_mono) (auto simp: m)
  next
    case False
    with that(1) m have r: "r = request_row userId requestId operation target fingerprint ticketId
       (uuids s (drawn s)) (uuids s (Suc (drawn s)))" by simp
    then show ?thesis using t by (auto simp: request_kept_def m request_row_def user_message_def)
  qed
  ultimately show ?thesis
    using ok i t
    by (auto simp: support_ok_defs m user_message_def new_intent_def)
qed

lemma created_ok:
  assumes "created sha now userId c v w s'" and "support_ok w"
  shows "support_ok s'"
proof -
  obtain serviceId where s': "s' = create_effect sha now userId c serviceId w" using assms(1) by (auto simp: created_def)
  let ?t = "new_ticket userId c serviceId now (uuids w (drawn w))"
  let ?w = "w\<lparr>support_tickets := support_tickets w @ [?t], drawn := Suc (drawn w)\<rparr>"
  have "ids_drawn ?w"
    using assms(2)
    by (auto simp: support_ok_defs ids_drawn_def new_ticket_def
        intro: fresh_on fresh_snoc [of _ _ w "drawn w"] unique_snoc [of _ _ w "drawn w"])
  moreover have "request_kept ?w r" if "request_kept w r" for r
    using that by (rule request_kept_mono) auto
  ultimately have "support_ok_but (Some (uuids w (drawn w))) ?w"
    using assms(2) by (auto simp: support_ok_defs new_ticket_def)
  then show ?thesis
    unfolding s' create_effect_def
    by (rule support_ok_message) (simp_all add: new_ticket_def)
qed

lemma replied_ok:
  assumes "replied_to sha now userId c ticketId v w s'" and "support_ok w"
  shows "support_ok s'"
proof -
  let ?upd = "update_where (open_for_reply userId ticketId) (answered_by_user now)"
  let ?w = "w\<lparr>support_tickets := ?upd (support_tickets w)\<rparr>"
  have k: "tk_id (answered_by_user now t) = tk_id t" "tk_userId (answered_by_user now t) = tk_userId t" for t
    by (simp_all add: answered_by_user_def)
  have im: "f ` set (?upd (support_tickets w)) = f ` set (support_tickets w)"
    if "\<And>t. f (answered_by_user now t) = f t" for f :: "ticket_row \<Rightarrow> 'k"
    using map_update_where [where k = f and f = "answered_by_user now", OF that] by (metis list.set_map)
  have "ids_drawn ?w"
    using assms(2) by (simp add: support_ok_defs ids_drawn_def fresh_for_def unique_by_update_where k im)
  moreover have "request_kept ?w r" if "request_kept w r" for r
    using that by (rule request_kept_mono) (simp_all add: im k)
  moreover have "\<exists>m \<in> set (support_messages w). sm_ticketId m = tk_id t" if t: "t \<in> set (?upd (support_tickets w))" for t
  proof -
    have "tk_id t \<in> tk_id ` set (support_tickets w)" using t im [of tk_id, OF k(1)] by blast
    then show ?thesis using assms(2) by (auto simp: support_ok_defs)
  qed
  ultimately have "support_ok_but None ?w"
    using assms(2) im [of tk_id, OF k(1)] by (simp add: support_ok_defs)
  moreover obtain t where t: "t \<in> set (support_tickets w)" "open_for_reply userId ticketId t"
    using assms(1) by (auto simp: replied_to_def)
  then have "answered_by_user now t \<in> set (?upd (support_tickets w))" by (auto simp: set_update_where)
  then have "\<exists>u \<in> set (support_tickets ?w). tk_id u = ticketId \<and> tk_userId u = userId"
    using t(2) by (intro bexI [of _ "answered_by_user now t"]) (simp_all add: k open_for_reply_def)
  ultimately have "support_ok (reply_effect sha now userId (rc_requestId c) ticketId (rc_message c) w)"
    unfolding reply_effect_def by (intro support_ok_message [where i = None]) simp_all
  then show ?thesis using assms(1) by (simp add: replied_to_def)
qed

text \<open>
  C22. The books of the support desk stay balanced, whatever a user asks for and whatever other
  processes do that keeps them: every ticket has a message and every message a ticket, each message of
  a user has its intent to notify, each intent its message, and every support request that is stored
  points to a ticket of the same user and to a message of that user on it.
\<close>

theorem support_keeps_its_books:
  assumes "\<forall>n s. support_ok s \<longrightarrow> support_ok (others n s)" and "support_ok s"
  shows "support_ok (snd (createTicket others sha now userId input s))
    \<and> support_ok (snd (replyToTicket others sha now userId reply s))"
proof -
  have o: "support_ok (others n t)" if "support_ok t" for n t using assms(1) that by blast
  show ?thesis
    using createTicket_final [OF surjective_pairing, of others sha now userId input s]
      replyToTicket_final [OF surjective_pairing, of others sha now userId reply s]
    by (auto simp: o assms(2) dest!: created_ok [OF _ o [OF o]] replied_ok [OF _ o [OF o [OF o]]])
qed

section \<open>Pages\<close>

definition before_cursor :: "('r \<Rightarrow> 'k::linorder) \<Rightarrow> 'k option \<Rightarrow> 'r \<Rightarrow> bool" where
  "before_cursor key c r = (case c of None \<Rightarrow> True | Some c \<Rightarrow> key r < c)"

definition latest_first :: "('r \<Rightarrow> 'k::linorder) \<Rightarrow> ('r \<Rightarrow> bool) \<Rightarrow> 'r list \<Rightarrow> 'r list" where
  "latest_first key mine rows = rev (sort_key key (filter mine rows))"

lemma keyset_rows_eq:
  "keyset_rows key mine limit c rows = take (limit + 1) (filter (before_cursor key c) (latest_first key mine rows))"
proof -
  have "filter (\<lambda>r. mine r \<and> (case c of None \<Rightarrow> True | Some c \<Rightarrow> key r < c)) rows
      = filter (before_cursor key c) (filter mine rows)"
    by (simp add: before_cursor_def conj_commute)
  then show ?thesis by (simp add: keyset_rows_def latest_first_def filter_sort rev_filter [symmetric])
qed

text \<open>A client that follows the cursor of each page; \<open>n\<close> bounds how many pages it asks for.\<close>

primrec segments ::
  "nat \<Rightarrow> ('r \<Rightarrow> 'k::linorder) \<Rightarrow> ('r \<Rightarrow> bool) \<Rightarrow> nat \<Rightarrow> 'r list \<Rightarrow> 'k option \<Rightarrow> 'r list list" where
  "segments 0 key mine limit rows c = []"
| "segments (Suc n) key mine limit rows c =
     (let rs = keyset_rows key mine limit c rows;
          hasMore = (limit < length rs);
          page = (if hasMore then take limit rs else rs)
      in page # (case page_end key hasMore page of
           None \<Rightarrow> [] | Some c' \<Rightarrow> segments n key mine limit rows (Some c')))"

lemma filter_after:
  assumes "sorted (map key (rev (xs @ d # ys)))" and "distinct (map key (xs @ d # ys))"
  shows "filter (before_cursor key (Some (key d))) (xs @ d # ys) = ys"
proof -
  have "\<forall>x \<in> set xs. key d \<le> key x" "\<forall>y \<in> set ys. key y < key d"
    using assms by (fastforce simp: sorted_append order.strict_iff_order image_iff)+
  then show ?thesis by (auto simp: before_cursor_def filter_empty_conv filter_id_conv)
qed

lemma segments_concat:
  assumes "0 < limit" and "distinct (map key (filter mine rows))"
    and "filter (before_cursor key c) (latest_first key mine rows) = drop j (latest_first key mine rows)"
    and "length (latest_first key mine rows) - j \<le> n"
  shows "concat (segments (Suc n) key mine limit rows c) = drop j (latest_first key mine rows)"
  using assms(3,4)
proof (induction n arbitrary: c j)
  case 0
  then show ?case by (simp add: keyset_rows_eq page_end_def)
next
  case (Suc n)
  let ?D = "latest_first key mine rows"
  show ?case
  proof (cases "j + limit < length ?D")
    case False
    then show ?thesis using Suc.prems by (simp add: keyset_rows_eq page_end_def Let_def)
  next
    case True
    then have more: "limit < length (keyset_rows key mine limit c rows)" using Suc.prems by (simp add: keyset_rows_eq)
    let ?page = "take limit (drop j ?D)"
    have p: "take limit (keyset_rows key mine limit c rows) = ?page" using Suc.prems by (simp add: keyset_rows_eq)
    have last: "List.last ?page = ?D ! (j + limit - 1)" "?page \<noteq> []"
      using True assms(1) by (auto simp: last_conv_nth min_def)
    have split: "?D = take (j + limit - 1) ?D @ ?D ! (j + limit - 1) # drop (j + limit) ?D"
      using True assms(1) id_take_nth_drop [of "j + limit - 1" ?D] by simp
    have "sorted (map key (rev ?D))" by (simp add: latest_first_def)
    moreover have "distinct (map key ?D)" using assms(2) by (simp add: latest_first_def distinct_map)
    ultimately have "filter (before_cursor key (Some (key (?D ! (j + limit - 1))))) ?D = drop (j + limit) ?D"
      using split filter_after by metis
    from Suc.IH [OF this] have "concat (segments (Suc n) key mine limit rows (Some (key (?D ! (j + limit - 1)))))
        = drop (j + limit) ?D"
      using Suc.prems(2) assms(1) True by simp
    then show ?thesis
      using more p last by (simp add: page_end_def Let_def) (metis add.commute append_take_drop_id drop_drop)
  qed
qed

lemma segments_all:
  assumes "0 < limit" and "distinct (map key (filter mine rows))" and "length (filter mine rows) < n"
  shows "concat (segments n key mine limit rows None) = latest_first key mine rows"
proof -
  obtain m where "n = Suc m" "length (latest_first key mine rows) \<le> m"
    using assms(3) by (cases n) (auto simp: latest_first_def)
  then show ?thesis using segments_concat [OF assms(1,2), of None 0 m] by (simp add: before_cursor_def)
qed

lemma segments_bounded: "xs \<in> set (segments n key mine limit rows c) \<Longrightarrow> length xs \<le> limit"
  by (induction n arbitrary: c) (auto simp: Let_def keyset_rows_eq split: option.splits if_splits)

text \<open>A client that reads a conversation back to its start, page by page.\<close>

primrec read_back :: "nat \<Rightarrow> (keyset_cursor option \<Rightarrow> MessagePage option) \<Rightarrow> keyset_cursor option \<Rightarrow> message_row list list" where
  "read_back 0 page c = []"
| "read_back (Suc n) page c =
     (case page c of
        None \<Rightarrow> []
      | Some p \<Rightarrow> mp_messages p # (case mp_older p of None \<Rightarrow> [] | Some c' \<Rightarrow> read_back n page (Some c')))"

lemma read_back_segments:
  assumes "resolveOwnedTicket s userId public = Some (t, label)"
  shows "read_back n (listOwnedTicketMessages (\<lambda>s. s) s userId public limit) c =
    map rev (segments n message_position (\<lambda>m. sm_ticketId m = tk_id t) limit (support_messages s) c)"
  using assms by (induction n arbitrary: c) (simp_all add: listOwnedTicketMessages_def Let_def split: option.split)

text \<open>
  The pages of a conversation are the conversation. A client that opens a ticket of its own and
  follows the cursors back, with any page size, sees pages of at most that size that put together,
  the oldest page first, are all the messages of the ticket in their order, none missing and none twice.
\<close>

theorem pages_are_the_conversation:
  assumes "resolveOwnedTicket s userId public = Some (t, label)" and "0 < limit"
    and "unique_by sm_id (support_messages s)" and "length (conversation s (tk_id t)) < n"
  shows "(let pages = read_back n (listOwnedTicketMessages (\<lambda>s. s) s userId public limit) None in
    concat (rev pages) = sort_key message_position (conversation s (tk_id t))
    \<and> (\<forall>page \<in> set pages. length page \<le> limit))"
proof -
  let ?mine = "\<lambda>m. sm_ticketId m = tk_id t"
  have "distinct (map sm_id (filter ?mine (support_messages s)))"
    using assms(3) by (auto simp: unique_by_def distinct_map inj_on_def)
  then have "distinct (map message_position (filter ?mine (support_messages s)))"
    by (auto simp: distinct_map inj_on_def message_position_def)
  from segments_all [OF assms(2) this] assms(4)
  have "concat (segments n message_position ?mine limit (support_messages s) None)
      = latest_first message_position ?mine (support_messages s)"
    by (simp add: conversation_def)
  then show ?thesis
    using read_back_segments [OF assms(1)] segments_bounded
    by (fastforce simp: Let_def rev_map rev_concat [symmetric] latest_first_def conversation_def)
qed

section \<open>Summaries\<close>

lemma fold_add_group:
  "ts_total (fold add_group gs acc) = ts_total acc + sum_list (map snd gs)"
  "ts_waitingSupport (fold add_group gs acc) = ts_waitingSupport acc
       + sum_list (map snd (filter (\<lambda>g. ticketWaitingParty (fst g) = Some Waiting_SUPPORT) gs))"
  "ts_waitingUser (fold add_group gs acc) = ts_waitingUser acc
       + sum_list (map snd (filter (\<lambda>g. ticketWaitingParty (fst g) = Some Waiting_USER) gs))"
  "ts_closed (fold add_group gs acc) = ts_closed acc
       + sum_list (map snd (filter (\<lambda>g. ticketWaitingParty (fst g) = None) gs))"
  by (induction gs arbitrary: acc; auto simp: Let_def split: option.splits TicketWaitingParty.splits)+

lemma sum_of_groups:
  "sum_list (map snd (filter (\<lambda>g. P (fst g)) (map (\<lambda>st. (st, count_list xs st)) (remdups xs)))) = length (filter P xs)"
proof -
  have "sum_list (map snd (filter (\<lambda>g. P (fst g)) (map (\<lambda>st. (st, count_list xs st)) (remdups xs))))
      = sum_list (map (count_list xs) (filter P (remdups xs)))"
    by (simp add: filter_map o_def)
  also have "\<dots> = sum (count_list xs) (set (filter P xs))"
    by (simp add: sum_list_distinct_conv_sum_set distinct_remdups)
  also have "\<dots> = sum (count_list (filter P xs)) (set (filter P xs))"
    by (rule sum.cong) (auto simp: count_list_eq_length_filter filter_filter intro: arg_cong [of _ _ length] filter_cong)
  also have "\<dots> = length (filter P xs)" by (rule sum_count_set) auto
  finally show ?thesis .
qed

text \<open>
  The numbers of the support page add up: the total is the number of the user's tickets, and every
  ticket counts for exactly one of the three parties it can wait for, closed ones for nobody.
\<close>

theorem summary_counts_every_ticket:
  "summarizeOwnedTickets userId s =
    (let mine = filter (\<lambda>t. tk_userId t = userId) (support_tickets s) in
     \<lparr>ts_total = length mine,
      ts_waitingSupport = count_where (\<lambda>t. tk_status t \<in> {Ticket_WAITING_ADMIN, Ticket_OPEN}) mine,
      ts_waitingUser = count_where (\<lambda>t. tk_status t \<in> {Ticket_WAITING_USER, Ticket_ANSWERED}) mine,
      ts_closed = count_where (\<lambda>t. tk_status t = Ticket_CLOSED) mine\<rparr>)"
proof -
  let ?mine = "filter (\<lambda>t. tk_userId t = userId) (support_tickets s)"
  let ?st = "map tk_status ?mine"
  let ?gs = "map (\<lambda>st. (st, count_list ?st st)) (remdups ?st)"
  have g: "status_groups userId s = ?gs" by (simp add: status_groups_def Let_def)
  have p: "(x \<in> {Ticket_WAITING_ADMIN, Ticket_OPEN}) = (ticketWaitingParty x = Some Waiting_SUPPORT)"
    "(x \<in> {Ticket_WAITING_USER, Ticket_ANSWERED}) = (ticketWaitingParty x = Some Waiting_USER)"
    "(x = Ticket_CLOSED) = (ticketWaitingParty x = None)" for x
    by (cases x; simp add: ticketWaitingParty_def WAITING_SUPPORT_STATUSES_def WAITING_USER_STATUSES_def)+
  have "length (filter P ?st) = count_where (\<lambda>t. P (tk_status t)) ?mine" for P
    by (simp add: count_where_def filter_map o_def)
  then have n: "sum_list (map snd (filter (\<lambda>g. P (fst g)) ?gs)) = count_where (\<lambda>t. P (tk_status t)) ?mine" for P
    using sum_of_groups [of P ?st] by simp
  have t: "sum_list (map snd ?gs) = length ?mine" using n [of "\<lambda>_. True"] by (simp add: count_where_def)
  let ?sum = "fold add_group ?gs \<lparr>ts_total = 0, ts_waitingSupport = 0, ts_waitingUser = 0, ts_closed = 0\<rparr>"
  have "ts_total ?sum = length ?mine"
    "ts_waitingSupport ?sum = count_where (\<lambda>t. ticketWaitingParty (tk_status t) = Some Waiting_SUPPORT) ?mine"
    "ts_waitingUser ?sum = count_where (\<lambda>t. ticketWaitingParty (tk_status t) = Some Waiting_USER) ?mine"
    "ts_closed ?sum = count_where (\<lambda>t. ticketWaitingParty (tk_status t) = None) ?mine"
    unfolding fold_add_group t
    using n [of "\<lambda>st. ticketWaitingParty st = Some Waiting_SUPPORT"]
      n [of "\<lambda>st. ticketWaitingParty st = Some Waiting_USER"] n [of "\<lambda>st. ticketWaitingParty st = None"]
    by simp_all
  then show ?thesis
    unfolding summarizeOwnedTickets_def g p Let_def by (intro TicketSummary.equality) simp_all
qed

end
