(* ===== verification/SupportNotifications.thy ===== *)
theory SupportNotifications
  imports SupportTickets
begin

text \<open>
  packages/support-tickets/src/notifications.ts and its caller support-notification.service.ts of the bot:
  the outbox that tells the administrators about a ticket. An intent is claimed, its recipients are frozen,
  each recipient is claimed and told, and the intent is settled from the states of its recipients. Every
  statement is one step; \<open>others n\<close> is what other workers do before the next one. Whether a message
  reaches an administrator is the answer \<open>send\<close> of Telegram for that recipient and attempt: None for
  success, or the classified code of the failure. The text of the message is not modelled.
\<close>

section \<open>Statements on intents\<close>

record DeliverableIntent =
  di_id :: string
  di_kind :: string
  di_attempts :: int
  di_ticketId :: string
  di_messageId :: string

record DeliverableRecipient =
  dr_id :: string
  dr_adminId :: string
  dr_attempts :: int
  dr_adminChatId :: string

definition due :: "int \<Rightarrow> int option \<Rightarrow> bool" where
  "due now nextAttemptAt = (case nextAttemptAt of None \<Rightarrow> True | Some t \<Rightarrow> t \<le> now)"

definition update_intents ::
  "(intent_row \<Rightarrow> bool) \<Rightarrow> (intent_row \<Rightarrow> intent_row) \<Rightarrow> db \<Rightarrow> nat \<times> db" where
  "update_intents P f s =
     (count_where P (support_intents s), s\<lparr>support_intents := update_where P f (support_intents s)\<rparr>)"

definition update_recipients ::
  "(recipient_row \<Rightarrow> bool) \<Rightarrow> (recipient_row \<Rightarrow> recipient_row) \<Rightarrow> db \<Rightarrow> nat \<times> db" where
  "update_recipients P f s =
     (count_where P (support_recipients s), s\<lparr>support_recipients := update_where P f (support_recipients s)\<rparr>)"

definition claim_intent :: "string \<Rightarrow> int \<Rightarrow> db \<Rightarrow> nat \<times> db" where
  "claim_intent i now =
     update_intents (\<lambda>r. si_id r = i \<and> si_status r = Intent_PENDING)
       (\<lambda>r. r\<lparr>si_status := Intent_SENDING, si_claimedAt := Some now, si_attempts := si_attempts r + 1\<rparr>)"

definition claimable_intent :: "intent_row \<Rightarrow> DeliverableIntent" where
  "claimable_intent r =
     \<lparr>di_id = si_id r, di_kind = si_kind r, di_attempts = si_attempts r, di_ticketId = si_ticketId r,
      di_messageId = si_messageId r\<rparr>"

definition won_intent :: "nat \<Rightarrow> DeliverableIntent \<Rightarrow> DeliverableIntent list" where
  "won_intent n candidate =
     (if n = 1 then [candidate\<lparr>di_attempts := di_attempts candidate + 1\<rparr>] else [])"

fun claim_intents ::
  "(nat \<Rightarrow> db \<Rightarrow> db) \<Rightarrow> int \<Rightarrow> DeliverableIntent list \<Rightarrow> db \<Rightarrow> DeliverableIntent list \<times> db" where
  "claim_intents others now [] s = ([], s)"
| "claim_intents others now (candidate # candidates) s =
     (case claim_intent (di_id candidate) now (others 0 s) of
        (n, s1) \<Rightarrow>
          (case claim_intents (\<lambda>k. others (Suc k)) now candidates s1 of
             (claimed, s2) \<Rightarrow> (won_intent n candidate @ claimed, s2)))"

definition claimDueIntents ::
  "(nat \<Rightarrow> db \<Rightarrow> db) \<Rightarrow> nat \<Rightarrow> int \<Rightarrow> db \<Rightarrow> DeliverableIntent list \<times> db" where
  "claimDueIntents others limit now s =
     (let s0 = others 0 s;
          candidates = map claimable_intent (take limit (sort_key si_createdAt
            (filter (\<lambda>r. si_status r = Intent_PENDING \<and> due now (si_nextAttemptAt r)) (support_intents s0))))
      in claim_intents (\<lambda>k. others (Suc k)) now candidates s0)"

definition claimIntentForTicket ::
  "(nat \<Rightarrow> db \<Rightarrow> db) \<Rightarrow> string \<Rightarrow> SupportNotificationKind \<Rightarrow> int \<Rightarrow> db \<Rightarrow> DeliverableIntent option \<times> db" where
  "claimIntentForTicket others ticketId kind now s =
     (let s0 = others 0 s in
      case rev (sort_key si_createdAt (filter (\<lambda>r. si_ticketId r = ticketId
          \<and> si_kind r = notification_kind_name kind \<and> si_status r = Intent_PENDING) (support_intents s0))) of
        [] \<Rightarrow> (None, s0)
      | r # _ \<Rightarrow>
          (case claim_intent (si_id r) now (others 1 s0) of
             (n, s1) \<Rightarrow> (case won_intent n (claimable_intent r) of [] \<Rightarrow> (None, s1) | d # _ \<Rightarrow> (Some d, s1))))"

section \<open>Freezing the recipients\<close>

record FreezeOutcome =
  fo_frozen :: bool
  fo_created :: nat

definition FREEZE_MAX_ATTEMPTS :: nat where "FREEZE_MAX_ATTEMPTS = 5"

definition eligibleAdminIds :: "db \<Rightarrow> string list" where
  "eligibleAdminIds s = sort (map ad_id (filter ad_isActive (admins s)))"

definition new_recipient :: "string \<Rightarrow> int \<Rightarrow> string \<Rightarrow> string \<Rightarrow> recipient_row" where
  "new_recipient intentId now adminId i =
     \<lparr>sr_id = i, sr_intentId = intentId, sr_adminId = adminId, sr_status = Recipient_PENDING, sr_attempts = 0,
      sr_safeErrorCode = None, sr_nextAttemptAt = None, sr_claimedAt = None, sr_sentAt = None,
      sr_createdAt = now\<rparr>"

fun create_recipients :: "string \<Rightarrow> int \<Rightarrow> string list \<Rightarrow> db \<Rightarrow> nat \<times> db" where
  "create_recipients intentId now [] s = (0, s)"
| "create_recipients intentId now (adminId # adminIds) s =
     (case draw_id s of (i, s1) \<Rightarrow>
        if \<exists>r \<in> set (support_recipients s1). sr_intentId r = intentId \<and> sr_adminId r = adminId
        then create_recipients intentId now adminIds s1
        else (case create_recipients intentId now adminIds
            (s1\<lparr>support_recipients := support_recipients s1 @ [new_recipient intentId now adminId i]\<rparr>) of
          (n, s2) \<Rightarrow> (Suc n, s2)))"

definition freezeInTransaction :: "string \<Rightarrow> int \<Rightarrow> (unit, FreezeOutcome) tx" where
  "freezeInTransaction intentId now =
     tx_bind (tx_read eligibleAdminIds) (\<lambda>adminIds.
     tx_bind (tx_do (update_intents (\<lambda>r. si_id r = intentId \<and> si_recipientsExpandedAt r = None)
       (\<lambda>r. r\<lparr>si_recipientsExpandedAt := Some now\<rparr>))) (\<lambda>won.
     if won = 0 then tx_return \<lparr>fo_frozen = False, fo_created = 0\<rparr>
     else if adminIds = [] then tx_return \<lparr>fo_frozen = True, fo_created = 0\<rparr>
     else tx_bind (tx_do (create_recipients intentId now adminIds)) (\<lambda>created.
       tx_return \<lparr>fo_frozen = True, fo_created = created\<rparr>)))"

text \<open>
  \<open>collides k\<close> says that the backend refuses the k-th attempt for a serialization failure. None is the
  last failure, rethrown.
\<close>

fun freeze_attempts ::
  "nat \<Rightarrow> (nat \<Rightarrow> db \<Rightarrow> db) \<Rightarrow> (nat \<Rightarrow> bool) \<Rightarrow> string \<Rightarrow> int \<Rightarrow> db \<Rightarrow> FreezeOutcome option \<times> db" where
  "freeze_attempts 0 others collides intentId now s = (None, s)"
| "freeze_attempts (Suc k) others collides intentId now s =
     (if collides 0
      then freeze_attempts k (\<lambda>n. others (Suc n)) (\<lambda>n. collides (Suc n)) intentId now (others 0 s)
      else (case run_transaction (freezeInTransaction intentId now) (others 0 s) of
              (Inr outcome, s1) \<Rightarrow> (Some outcome, s1)
            | (Inl _, s1) \<Rightarrow> (None, s1)))"

definition expandRecipients ::
  "(nat \<Rightarrow> db \<Rightarrow> db) \<Rightarrow> (nat \<Rightarrow> bool) \<Rightarrow> string \<Rightarrow> int \<Rightarrow> db \<Rightarrow> FreezeOutcome option \<times> db" where
  "expandRecipients others collides intentId now s =
     freeze_attempts FREEZE_MAX_ATTEMPTS others collides intentId now s"

section \<open>Statements on recipients\<close>

definition skip_recipient :: "string \<Rightarrow> db \<Rightarrow> nat \<times> db" where
  "skip_recipient i =
     update_recipients (\<lambda>r. sr_id r = i \<and> sr_status r = Recipient_PENDING)
       (\<lambda>r. r\<lparr>sr_status := Recipient_SKIPPED, sr_claimedAt := None,
          sr_safeErrorCode := Some ''admin-inactive''\<rparr>)"

definition claim_recipient :: "string \<Rightarrow> int \<Rightarrow> db \<Rightarrow> nat \<times> db" where
  "claim_recipient i now =
     update_recipients (\<lambda>r. sr_id r = i \<and> sr_status r = Recipient_PENDING)
       (\<lambda>r. r\<lparr>sr_status := Recipient_SENDING, sr_claimedAt := Some now, sr_attempts := sr_attempts r + 1\<rparr>)"

type_synonym recipient_candidate = "recipient_row \<times> admin_row"

definition deliverable :: "recipient_candidate \<Rightarrow> DeliverableRecipient" where
  "deliverable c =
     \<lparr>dr_id = sr_id (fst c), dr_adminId = sr_adminId (fst c), dr_attempts = sr_attempts (fst c) + 1,
      dr_adminChatId = show_int (ad_telegramId (snd c))\<rparr>"

fun claim_recipients ::
  "(nat \<Rightarrow> db \<Rightarrow> db) \<Rightarrow> int \<Rightarrow> recipient_candidate list \<Rightarrow> db \<Rightarrow> DeliverableRecipient list \<times> db" where
  "claim_recipients others now [] s = ([], s)"
| "claim_recipients others now (c # cs) s =
     (if \<not> ad_isActive (snd c)
      then claim_recipients (\<lambda>k. others (Suc k)) now cs (snd (skip_recipient (sr_id (fst c)) (others 0 s)))
      else (case claim_recipient (sr_id (fst c)) now (others 0 s) of
              (n, s1) \<Rightarrow>
                (case claim_recipients (\<lambda>k. others (Suc k)) now cs s1 of
                   (claimed, s2) \<Rightarrow> ((if n = 1 then [deliverable c] else []) @ claimed, s2))))"

definition recipient_candidates :: "string \<Rightarrow> int \<Rightarrow> db \<Rightarrow> recipient_candidate list" where
  "recipient_candidates intentId now s =
     List.map_filter (\<lambda>r. map_option (Pair r) (find (\<lambda>a. ad_id a = sr_adminId r) (admins s)))
       (sort_key sr_createdAt (filter (\<lambda>r. sr_intentId r = intentId \<and> sr_status r = Recipient_PENDING
         \<and> due now (sr_nextAttemptAt r)) (support_recipients s)))"

definition claimDueRecipients ::
  "(nat \<Rightarrow> db \<Rightarrow> db) \<Rightarrow> string \<Rightarrow> int \<Rightarrow> db \<Rightarrow> DeliverableRecipient list \<times> db" where
  "claimDueRecipients others intentId now s =
     (let s0 = others 0 s
      in claim_recipients (\<lambda>k. others (Suc k)) now (recipient_candidates intentId now s0) s0)"

definition markRecipientSent :: "string \<Rightarrow> int \<Rightarrow> db \<Rightarrow> db" where
  "markRecipientSent i now s =
     snd (update_recipients (\<lambda>r. sr_id r = i \<and> sr_status r = Recipient_SENDING)
       (\<lambda>r. r\<lparr>sr_status := Recipient_SENT, sr_sentAt := Some now, sr_claimedAt := None,
          sr_safeErrorCode := None\<rparr>) s)"

definition markRecipientFailed :: "string \<Rightarrow> int \<Rightarrow> string \<Rightarrow> int \<Rightarrow> db \<Rightarrow> db" where
  "markRecipientFailed i attempts code now s =
     (let exhausted = (NOTIFICATION_MAX_ATTEMPTS \<le> attempts) in
      snd (update_recipients (\<lambda>r. sr_id r = i \<and> sr_status r = Recipient_SENDING)
       (\<lambda>r. r\<lparr>sr_status := (if exhausted then Recipient_FAILED else Recipient_PENDING), sr_claimedAt := None,
          sr_safeErrorCode := Some code,
          sr_nextAttemptAt := (if exhausted then None else Some (now + notificationRetryDelayMs attempts))\<rparr>) s))"

section \<open>Settling\<close>

record IntentOutcome =
  io_complete :: bool
  io_sent :: nat
  io_failed :: nat
  io_skipped :: nat
  io_pending :: nat

definition recipients_in :: "string \<Rightarrow> SupportRecipientStatus \<Rightarrow> db \<Rightarrow> nat" where
  "recipients_in intentId status s =
     count_where (\<lambda>r. sr_intentId r = intentId \<and> sr_status r = status) (support_recipients s)"

definition intent_outcome :: "string \<Rightarrow> db \<Rightarrow> IntentOutcome" where
  "intent_outcome intentId s =
     (let pending = recipients_in intentId Recipient_PENDING s + recipients_in intentId Recipient_SENDING s
      in \<lparr>io_complete = (pending = 0), io_sent = recipients_in intentId Recipient_SENT s,
          io_failed = recipients_in intentId Recipient_FAILED s,
          io_skipped = recipients_in intentId Recipient_SKIPPED s, io_pending = pending\<rparr>)"

definition settled_intent :: "IntentOutcome \<Rightarrow> int \<Rightarrow> int \<Rightarrow> intent_row \<Rightarrow> intent_row" where
  "settled_intent outcome attempts now r =
     (if \<not> io_complete outcome
      then r\<lparr>si_status := Intent_PENDING, si_claimedAt := None,
          si_nextAttemptAt := Some (now + notificationRetryDelayMs
            (if NOTIFICATION_MAX_ATTEMPTS \<le> attempts then NOTIFICATION_MAX_ATTEMPTS else attempts))\<rparr>
      else r\<lparr>si_status :=
            (if io_sent outcome > 0 \<or> io_sent outcome + io_failed outcome + io_skipped outcome = 0
             then Intent_SENT else Intent_FAILED),
          si_sentAt := Some now, si_claimedAt := None, si_nextAttemptAt := None,
          si_deliveredCount := int (io_sent outcome)\<rparr>)"

definition settleIntent ::
  "(nat \<Rightarrow> db \<Rightarrow> db) \<Rightarrow> string \<Rightarrow> int \<Rightarrow> int \<Rightarrow> db \<Rightarrow> IntentOutcome \<times> db" where
  "settleIntent others intentId intentAttempts now s =
     (let s0 = others 0 s; outcome = intent_outcome intentId s0
      in (outcome, snd (update_intents (\<lambda>r. si_id r = intentId \<and> si_status r = Intent_SENDING)
           (settled_intent outcome intentAttempts now) (others 1 s0))))"

definition abandonIntent :: "string \<Rightarrow> string \<Rightarrow> int \<Rightarrow> db \<Rightarrow> db" where
  "abandonIntent intentId code now s =
     snd (update_intents (\<lambda>r. si_id r = intentId \<and> si_status r = Intent_SENDING)
       (\<lambda>r. r\<lparr>si_status := Intent_FAILED, si_claimedAt := None, si_nextAttemptAt := None,
          si_safeErrorCode := Some code, si_sentAt := Some now\<rparr>) s)"

section \<open>Recovery\<close>

definition stale :: "int \<Rightarrow> int option \<Rightarrow> bool" where
  "stale cutoff claimedAt = (case claimedAt of None \<Rightarrow> False | Some t \<Rightarrow> t < cutoff)"

definition in_scope :: "string list option \<Rightarrow> string \<Rightarrow> bool" where
  "in_scope scope ticketId = (case scope of None \<Rightarrow> True | Some ids \<Rightarrow> ticketId \<in> set ids)"

definition recover_recipients :: "int \<Rightarrow> string list option \<Rightarrow> int \<Rightarrow> db \<Rightarrow> nat \<times> db" where
  "recover_recipients cutoff scope now s =
     update_recipients (\<lambda>r. sr_status r = Recipient_SENDING \<and> stale cutoff (sr_claimedAt r)
         \<and> (scope = None \<or> (\<exists>i \<in> set (support_intents s). si_id i = sr_intentId r \<and> in_scope scope (si_ticketId i))))
       (\<lambda>r. r\<lparr>sr_status := Recipient_PENDING, sr_claimedAt := None, sr_nextAttemptAt := Some now\<rparr>) s"

definition recover_intents :: "int \<Rightarrow> string list option \<Rightarrow> int \<Rightarrow> db \<Rightarrow> nat \<times> db" where
  "recover_intents cutoff scope now s =
     update_intents (\<lambda>r. si_status r = Intent_SENDING \<and> stale cutoff (si_claimedAt r)
         \<and> in_scope scope (si_ticketId r))
       (\<lambda>r. r\<lparr>si_status := Intent_PENDING, si_claimedAt := None, si_nextAttemptAt := Some now\<rparr>) s"

definition recoverStaleClaims :: "(nat \<Rightarrow> db \<Rightarrow> db) \<Rightarrow> string list option \<Rightarrow> int \<Rightarrow> db \<Rightarrow> nat \<times> db" where
  "recoverStaleClaims others scope now s =
     (let cutoff = now - NOTIFICATION_STALE_CLAIM_MS in
      case recover_recipients cutoff scope now (others 0 s) of
        (n, s1) \<Rightarrow> (case recover_intents cutoff scope now (others 1 s1) of (m, s2) \<Rightarrow> (n + m, s2)))"

record NotificationBacklog =
  nb_pending :: nat
  nb_sending :: nat
  nb_failed :: nat
  nb_recipientsPending :: nat
  nb_recipientsFailed :: nat

definition notificationBacklog :: "db \<Rightarrow> NotificationBacklog" where
  "notificationBacklog s =
     \<lparr>nb_pending = count_where (\<lambda>r. si_status r = Intent_PENDING) (support_intents s),
      nb_sending = count_where (\<lambda>r. si_status r = Intent_SENDING) (support_intents s),
      nb_failed = count_where (\<lambda>r. si_status r = Intent_FAILED) (support_intents s),
      nb_recipientsPending = count_where (\<lambda>r. sr_status r = Recipient_PENDING) (support_recipients s),
      nb_recipientsFailed = count_where (\<lambda>r. sr_status r = Recipient_FAILED) (support_recipients s)\<rparr>"

definition recordIntent ::
  "string \<Rightarrow> string \<Rightarrow> SupportNotificationKind \<Rightarrow> int \<Rightarrow> ('e, unit) tx" where
  "recordIntent ticketId messageId kind now =
     tx_bind (tx_do draw_id) (\<lambda>i.
     tx_bind (create_intent (new_intent ticketId messageId kind now i)) (\<lambda>_. tx_return ()))"

section \<open>Delivery\<close>

record IntentDeliveryResult =
  dl_sent :: nat
  dl_failed :: nat
  dl_skipped :: nat
  dl_complete :: bool

text \<open>The chats a message reached, in order, go beside the result. \<open>clock n\<close> is the clock at step \<open>n\<close>.\<close>

fun send_all ::
  "(nat \<Rightarrow> db \<Rightarrow> db) \<Rightarrow> (DeliverableRecipient \<Rightarrow> string option) \<Rightarrow> (nat \<Rightarrow> int) \<Rightarrow> DeliverableRecipient list \<Rightarrow>
   db \<Rightarrow> string list \<times> nat \<times> db" where
  "send_all others send clock [] s = ([], 0, s)"
| "send_all others send clock (r # rs) s =
     (let s1 = others 0 s in
      case send r of
        None \<Rightarrow>
          (case send_all (\<lambda>n. others (Suc n)) send (\<lambda>n. clock (Suc n)) rs (markRecipientSent (dr_id r) (clock 0) s1) of
             (told, failed, s2) \<Rightarrow> (dr_adminChatId r # told, failed, s2))
      | Some code \<Rightarrow>
          (case send_all (\<lambda>n. others (Suc n)) send (\<lambda>n. clock (Suc n)) rs
              (markRecipientFailed (dr_id r) (dr_attempts r) code (clock 0) s1) of
             (told, failed, s2) \<Rightarrow> (told, Suc failed, s2)))"

definition rendered :: "db \<Rightarrow> string \<Rightarrow> bool" where
  "rendered s ticketId \<longleftrightarrow> (\<exists>t \<in> set (support_tickets s). tk_id t = ticketId)"

text \<open>
  None is an exception: the freeze lost every attempt. \<open>others k n\<close> is what happens before the \<open>n\<close>-th statement of
  the \<open>k\<close>-th call.
\<close>

definition deliverClaimedIntent ::
  "(nat \<Rightarrow> nat \<Rightarrow> db \<Rightarrow> db) \<Rightarrow> (nat \<Rightarrow> bool) \<Rightarrow> (DeliverableRecipient \<Rightarrow> string option) \<Rightarrow> (nat \<Rightarrow> int) \<Rightarrow>
   DeliverableIntent \<Rightarrow> db \<Rightarrow> (IntentDeliveryResult option \<times> string list) \<times> db" where
  "deliverClaimedIntent others collides send clock intent s =
     (let parked = \<lparr>dl_sent = 0, dl_failed = 0, dl_skipped = 0, dl_complete = True\<rparr> in
      if \<not> isSupportNotificationKind (di_kind intent)
      then ((Some parked, []), abandonIntent (di_id intent) ''unknown-kind'' (clock 0) (others 0 0 s))
      else let s0 = others 0 0 s in
        if \<not> rendered s0 (di_ticketId intent)
        then ((Some parked, []), abandonIntent (di_id intent) ''ticket-missing'' (clock 0) (others 0 1 s0))
        else
          (case expandRecipients (others 1) collides (di_id intent) (clock 1) s0 of
             (None, s1) \<Rightarrow> ((None, []), s1)
           | (Some _, s1) \<Rightarrow>
               (case claimDueRecipients (others 2) (di_id intent) (clock 2) s1 of
                  (recipients, s2) \<Rightarrow>
                    (case send_all (others 3) send (\<lambda>n. clock (3 + n)) recipients s2 of
                       (told, failed, s3) \<Rightarrow>
                         (case settleIntent (others 4) (di_id intent) (di_attempts intent)
                             (clock (3 + length recipients)) s3 of
                            (outcome, s4) \<Rightarrow>
                              ((Some \<lparr>dl_sent = length told, dl_failed = failed, dl_skipped = io_skipped outcome,
                                  dl_complete = io_complete outcome\<rparr>, told), s4))))))"

record delivery_env =
  de_others :: "nat \<Rightarrow> nat \<Rightarrow> nat \<Rightarrow> db \<Rightarrow> db"
  de_collides :: "nat \<Rightarrow> nat \<Rightarrow> bool"
  de_send :: "nat \<Rightarrow> DeliverableRecipient \<Rightarrow> string option"
  de_clock :: "nat \<Rightarrow> nat \<Rightarrow> int"

text \<open>The environment of the \<open>n\<close>-th delivery of a batch.\<close>

definition deliverTicketNotificationNow ::
  "delivery_env \<Rightarrow> string \<Rightarrow> SupportNotificationKind \<Rightarrow> db \<Rightarrow> (nat \<times> string list) \<times> db" where
  "deliverTicketNotificationNow env ticketId kind s =
     (case claimIntentForTicket (de_others env 0 0) ticketId kind (de_clock env 0 0) s of
        (None, s1) \<Rightarrow> ((0, []), s1)
      | (Some intent, s1) \<Rightarrow>
          (case deliverClaimedIntent (de_others env 1) (de_collides env 1) (de_send env 1) (de_clock env 1) intent s1 of
             ((Some result, told), s2) \<Rightarrow> ((dl_sent result, told), s2)
           | ((None, told), s2) \<Rightarrow> ((0, told), s2)))"

fun deliver_each ::
  "delivery_env \<Rightarrow> nat \<Rightarrow> DeliverableIntent list \<Rightarrow> db \<Rightarrow> string list \<times> db" where
  "deliver_each env k [] s = ([], s)"
| "deliver_each env k (intent # intents) s =
     (case deliverClaimedIntent (de_others env k) (de_collides env k) (de_send env k) (de_clock env k) intent s of
        ((_, told), s1) \<Rightarrow>
          (case deliver_each env (Suc k) intents s1 of (more', s2) \<Rightarrow> (told @ more', s2)))"

definition deliverPendingNotifications :: "delivery_env \<Rightarrow> nat \<Rightarrow> db \<Rightarrow> (nat \<times> string list) \<times> db" where
  "deliverPendingNotifications env limit s =
     (case claimDueIntents (de_others env 0 0) limit (de_clock env 0 0) s of
        (claimed, s1) \<Rightarrow>
          (case deliver_each env 1 claimed s1 of (told, s2) \<Rightarrow> ((length claimed, told), s2)))"

definition SWEEP_BATCH :: nat where "SWEEP_BATCH = 20"

definition runSupportNotificationSweep ::
  "(nat \<Rightarrow> db \<Rightarrow> db) \<Rightarrow> int \<Rightarrow> delivery_env \<Rightarrow> db \<Rightarrow> (nat \<times> nat \<times> string list) \<times> db" where
  "runSupportNotificationSweep others now env s =
     (case recoverStaleClaims others None now s of
        (recovered, s1) \<Rightarrow>
          (case deliverPendingNotifications env SWEEP_BATCH s1 of
             ((delivered, told), s2) \<Rightarrow> ((recovered, delivered, told), s2)))"

end
