(* ===== verification/SupportNotificationFacts.thy ===== *)
theory SupportNotificationFacts
  imports SupportNotifications
begin

text \<open>
  The outbox as a protocol: the statements that workers run against the tables of intents and recipients
  are the steps, in any order, and what the functions of the code do is a run of such steps as long as
  the rest of the system is one. What is settled stays settled, a frozen set of recipients never grows,
  and no two workers hold one recipient at a time.
\<close>

section \<open>Steps and runs\<close>

definition frozen :: "db \<Rightarrow> string \<Rightarrow> bool" where
  "frozen s i \<longleftrightarrow> (\<exists>r \<in> set (support_intents s). si_id r = i)
     \<and> (\<forall>r \<in> set (support_intents s). si_id r = i \<longrightarrow> si_recipientsExpandedAt r \<noteq> None)"

datatype outbox_event = Recipient_claimed string | Recipient_failed string | Claims_recovered | Other_step

text \<open>
  The rest of the system may do anything but touch the recipients, thaw an intent or draw identifiers
  again that were drawn.
\<close>

definition foreign :: "db \<Rightarrow> db \<Rightarrow> bool" where
  "foreign s s' \<longleftrightarrow> support_recipients s' = support_recipients s \<and> (\<forall>i. frozen s i \<longrightarrow> frozen s' i)
     \<and> uuids s' = uuids s \<and> drawn s \<le> drawn s'"

inductive outbox_step :: "db \<Rightarrow> outbox_event \<Rightarrow> db \<Rightarrow> bool" where
  foreign_step: "foreign s s' \<Longrightarrow> outbox_step s Other_step s'"
| freeze_step: "run_transaction (freezeInTransaction i now) s = (res, s') \<Longrightarrow> outbox_step s Other_step s'"
| claim_step: "claim_recipient i now s = (n, s') \<Longrightarrow>
    outbox_step s (if n = 1 then Recipient_claimed i else Other_step) s'"
| skip_step: "skip_recipient i s = (n, s') \<Longrightarrow> outbox_step s Other_step s'"
| sent_step: "outbox_step s Other_step (markRecipientSent i now s)"
| failed_step: "outbox_step s (Recipient_failed i) (markRecipientFailed i attempts code now s)"
| recover_step: "recover_recipients cutoff scope now s = (n, s') \<Longrightarrow> outbox_step s Claims_recovered s'"

inductive outbox_run :: "db \<Rightarrow> outbox_event list \<Rightarrow> db \<Rightarrow> bool" where
  run_nil: "outbox_run s [] s"
| run_cons: "outbox_step s e s1 \<Longrightarrow> outbox_run s1 es s' \<Longrightarrow> outbox_run s (e # es) s'"

inductive_cases outbox_run_ConsE: "outbox_run s (e # es) s'"
inductive_simps outbox_run_Nil [simp]: "outbox_run s [] s'"

lemma outbox_run_single: "outbox_step s e s' \<Longrightarrow> outbox_run s [e] s'"
  by (blast intro: run_cons run_nil)

lemma outbox_run_append: "outbox_run s es s1 \<Longrightarrow> outbox_run s1 fs s' \<Longrightarrow> outbox_run s (es @ fs) s'"
  by (induction rule: outbox_run.induct) (auto intro: run_cons)

lemma outbox_run_split: "outbox_run s (es @ fs) s' \<Longrightarrow> \<exists>s1. outbox_run s es s1 \<and> outbox_run s1 fs s'"
  by (induction es arbitrary: s) (auto elim!: outbox_run_ConsE, metis run_cons)

section \<open>What the steps keep\<close>

definition settled_status :: "SupportRecipientStatus \<Rightarrow> bool" where
  "settled_status st \<longleftrightarrow> st \<in> {Recipient_SENT, Recipient_FAILED, Recipient_SKIPPED}"

definition obligations :: "db \<Rightarrow> string \<Rightarrow> string set" where
  "obligations s i = sr_adminId ` {r \<in> set (support_recipients s). sr_intentId r = i}"

definition recipients_ok :: "db \<Rightarrow> bool" where
  "recipients_ok s \<longleftrightarrow> inj (uuids s) \<and> unique_by sr_id (support_recipients s)
     \<and> fresh_for sr_id (support_recipients s) s"

lemma create_recipients_grows:
  assumes "create_recipients i now adminIds s = (n, s')"
  shows "support_intents s' = support_intents s \<and> uuids s' = uuids s \<and> drawn s \<le> drawn s' \<and> admins s' = admins s
    \<and> (\<exists>new. support_recipients s' = support_recipients s @ new
        \<and> (\<forall>r \<in> set new. sr_intentId r = i \<and> sr_id r \<in> uuids s ` {drawn s ..< drawn s'}))
    \<and> (recipients_ok s \<longrightarrow> recipients_ok s')"
  using assms
proof (induction adminIds arbitrary: s n)
  case Nil
  then show ?case by simp
next
  case (Cons a as)
  let ?s1 = "s\<lparr>drawn := Suc (drawn s)\<rparr>"
  show ?case
  proof (cases "\<exists>r \<in> set (support_recipients s). sr_intentId r = i \<and> sr_adminId r = a")
    case True
    then have run: "create_recipients i now as ?s1 = (n, s')" using Cons.prems by (simp add: draw_id_def)
    have "recipients_ok s \<Longrightarrow> recipients_ok ?s1" by (auto simp: recipients_ok_def fresh_for_def)
    then show ?thesis using Cons.IH [OF run] by (fastforce simp: Suc_le_eq)
  next
    case False
    let ?row = "new_recipient i now a (uuids s (drawn s))"
    let ?s2 = "?s1\<lparr>support_recipients := support_recipients s @ [?row]\<rparr>"
    obtain m where run: "create_recipients i now as ?s2 = (m, s')"
      using Cons.prems False by (auto simp: draw_id_def split: prod.splits)
    have row: "sr_intentId ?row = i" "sr_id ?row = uuids s (drawn s)" by (simp_all add: new_recipient_def)
    have "recipients_ok s \<Longrightarrow> recipients_ok ?s2"
      unfolding recipients_ok_def using fresh_append [of s sr_id "support_recipients s" ?s2 ?row] row by simp
    moreover obtain new where "support_recipients s' = (support_recipients s @ [?row]) @ new"
      "\<forall>r \<in> set new. sr_intentId r = i \<and> sr_id r \<in> uuids s ` {Suc (drawn s) ..< drawn s'}"
      using Cons.IH [OF run] by auto
    ultimately show ?thesis using Cons.IH [OF run] row
      by (intro conjI exI [of _ "?row # new"]) auto
  qed
qed

lemma freeze_frame:
  assumes "run_transaction (freezeInTransaction i now) s = (res, s')"
  shows "(\<exists>new. support_recipients s' = support_recipients s @ new \<and> (frozen s i \<longrightarrow> new = [])
      \<and> (\<forall>r \<in> set new. sr_intentId r = i \<and> sr_id r \<in> uuids s ` {drawn s ..< drawn s'}))
    \<and> (\<forall>j. frozen s j \<longrightarrow> frozen s' j) \<and> uuids s' = uuids s \<and> drawn s \<le> drawn s'
    \<and> (recipients_ok s \<longrightarrow> recipients_ok s')"
proof (cases res)
  case (Inl e)
  then have "s' = s" using assms run_transaction_rollback by metis
  then show ?thesis by simp
next
  case (Inr out)
  let ?P = "\<lambda>r. si_id r = i \<and> si_recipientsExpandedAt r = None"
  let ?s1 = "s\<lparr>support_intents := update_where ?P (\<lambda>r. r\<lparr>si_recipientsExpandedAt := Some now\<rparr>) (support_intents s)\<rparr>"
  have "freezeInTransaction i now s = Inr (out, s')" using assms Inr by (simp add: run_transaction_Inr_iff)
  then have cases: "s' = ?s1 \<or> \<not> frozen s i \<and> (\<exists>n. create_recipients i now (eligibleAdminIds s) ?s1 = (n, s'))"
    by (auto simp: freezeInTransaction_def tx_success update_intents_def count_where_0 frozen_def split: if_splits)
      (metis prod.collapse)+
  have fz: "frozen ?s1 j" if "frozen s j" for j
    using that by (auto simp: frozen_def set_update_where)
  have ok: "recipients_ok ?s1" if "recipients_ok s" using that by (auto simp: recipients_ok_def fresh_for_def)
  from cases show ?thesis
  proof
    assume "s' = ?s1"
    then show ?thesis using fz ok by auto
  next
    assume "\<not> frozen s i \<and> (\<exists>n. create_recipients i now (eligibleAdminIds s) ?s1 = (n, s'))"
    then obtain n where "\<not> frozen s i" and c: "create_recipients i now (eligibleAdminIds s) ?s1 = (n, s')" by blast
    note g = create_recipients_grows [OF c]
    then have "frozen s' j = frozen ?s1 j" for j by (simp add: frozen_def)
    with g \<open>\<not> frozen s i\<close> show ?thesis using fz ok by auto
  qed
qed

lemmas recipient_statements = claim_recipient_def skip_recipient_def markRecipientSent_def markRecipientFailed_def
  recover_recipients_def update_recipients_def Let_def

lemma update_recipients_keeps:
  assumes "update_recipients P f s = (n, s')" and "\<And>r. sr_id (f r) = sr_id r"
  shows "foreign (s\<lparr>support_recipients := x\<rparr>) (s'\<lparr>support_recipients := x\<rparr>)"
    and "recipients_ok s \<Longrightarrow> recipients_ok s'"
proof -
  have "sr_id ` set (update_where P f (support_recipients s)) = sr_id ` set (support_recipients s)"
    using map_update_where [where k = sr_id and f = f, OF assms(2)] by (metis list.set_map)
  then show "recipients_ok s \<Longrightarrow> recipients_ok s'"
    using assms(1) [symmetric] assms(2)
    by (simp add: update_recipients_def recipients_ok_def fresh_for_def unique_by_update_where)
  show "foreign (s\<lparr>support_recipients := x\<rparr>) (s'\<lparr>support_recipients := x\<rparr>)"
    using assms(1) by (auto simp: update_recipients_def foreign_def frozen_def)
qed

text \<open>A statement on recipients moves open rows and keeps their identity.\<close>

lemma step_cases:
  assumes "outbox_step s e s'"
  obtains (same) "foreign s s'" "e = Other_step"
  | (grown) i new where "support_recipients s' = support_recipients s @ new" "frozen s i \<longrightarrow> new = []"
      "\<forall>r \<in> set new. sr_intentId r = i \<and> sr_id r \<in> uuids s ` {drawn s ..< drawn s'}"
      "\<forall>j. frozen s j \<longrightarrow> frozen s' j" "recipients_ok s \<longrightarrow> recipients_ok s'" "e = Other_step"
  | (moved) P f where "update_recipients P f s = (count_where P (support_recipients s), s')"
      "\<And>r. sr_id (f r) = sr_id r \<and> sr_intentId (f r) = sr_intentId r \<and> sr_adminId (f r) = sr_adminId r"
      "\<And>r. P r \<Longrightarrow> \<not> settled_status (sr_status r)"
      "\<And>r i. P r \<Longrightarrow> sr_status (f r) = Recipient_PENDING \<Longrightarrow> sr_id r = i \<Longrightarrow> e \<in> {Recipient_failed i, Claims_recovered}"
      "\<And>i. e = Recipient_claimed i \<Longrightarrow> P = (\<lambda>r. sr_id r = i \<and> sr_status r = Recipient_PENDING)
         \<and> (\<forall>r. sr_status (f r) = Recipient_SENDING) \<and> count_where P (support_recipients s) = 1"
  using assms
proof cases
  case foreign_step
  then show ?thesis using same by blast
next
  case (freeze_step i now res)
  then show ?thesis using freeze_frame [OF freeze_step(2)] by (auto intro: grown)
next
  case (claim_step i now n)
  then show ?thesis
    by (intro moved [of "\<lambda>r. sr_id r = i \<and> sr_status r = Recipient_PENDING"
        "\<lambda>r. r\<lparr>sr_status := Recipient_SENDING, sr_claimedAt := Some now, sr_attempts := sr_attempts r + 1\<rparr>"])
      (auto simp: recipient_statements settled_status_def split: if_splits)
next
  case (skip_step i n)
  then show ?thesis
    by (intro moved [of "\<lambda>r. sr_id r = i \<and> sr_status r = Recipient_PENDING"
        "\<lambda>r. r\<lparr>sr_status := Recipient_SKIPPED, sr_claimedAt := None, sr_safeErrorCode := Some ''admin-inactive''\<rparr>"])
      (auto simp: recipient_statements settled_status_def)
next
  case (sent_step i now)
  then show ?thesis
    by (intro moved [of "\<lambda>r. sr_id r = i \<and> sr_status r = Recipient_SENDING"
        "\<lambda>r. r\<lparr>sr_status := Recipient_SENT, sr_sentAt := Some now, sr_claimedAt := None, sr_safeErrorCode := None\<rparr>"])
      (auto simp: recipient_statements settled_status_def)
next
  case (failed_step i attempts code now)
  then show ?thesis
    by (intro moved [of "\<lambda>r. sr_id r = i \<and> sr_status r = Recipient_SENDING"
        "\<lambda>r. r\<lparr>sr_status := (if NOTIFICATION_MAX_ATTEMPTS \<le> attempts then Recipient_FAILED else Recipient_PENDING),
          sr_claimedAt := None, sr_safeErrorCode := Some code,
          sr_nextAttemptAt := (if NOTIFICATION_MAX_ATTEMPTS \<le> attempts then None
            else Some (now + notificationRetryDelayMs attempts))\<rparr>"])
      (auto simp: recipient_statements settled_status_def)
next
  case (recover_step cutoff scope now n)
  then show ?thesis
    by (intro moved [of "\<lambda>r. sr_status r = Recipient_SENDING \<and> stale cutoff (sr_claimedAt r)
         \<and> (scope = None \<or> (\<exists>i \<in> set (support_intents s). si_id i = sr_intentId r \<and> in_scope scope (si_ticketId i)))"
        "\<lambda>r. r\<lparr>sr_status := Recipient_PENDING, sr_claimedAt := None, sr_nextAttemptAt := Some now\<rparr>"])
      (auto simp: recipient_statements settled_status_def)
qed

lemma step_ok: "outbox_step s e s' \<Longrightarrow> recipients_ok s \<Longrightarrow> recipients_ok s'"
  by (erule step_cases)
    (auto simp: foreign_def recipients_ok_def fresh_for_def
       dest: update_recipients_keeps(2) [unfolded recipients_ok_def fresh_for_def])

lemma step_keeps_settled:
  assumes "outbox_step s e s'" and "r \<in> set (support_recipients s)" and "settled_status (sr_status r)"
  shows "r \<in> set (support_recipients s')"
  using assms(1)
proof (cases rule: step_cases)
  case (moved P f)
  then have "\<not> P r" using assms(3) by blast
  with moved(1) assms(2) show ?thesis by (auto simp: update_recipients_def set_update_where)
qed (use assms(2) in \<open>auto simp: foreign_def\<close>)

lemma step_obligations:
  assumes "outbox_step s e s'" and "frozen s i"
  shows "frozen s' i \<and> obligations s' i = obligations s i"
  using assms(1)
proof (cases rule: step_cases)
  case same
  with assms(2) show ?thesis by (auto simp: foreign_def obligations_def)
next
  case (grown j new)
  then have "obligations s' i = obligations s i" using assms(2) by (cases "i = j") (auto simp: obligations_def)
  with grown(4) assms(2) show ?thesis by blast
next
  case (moved P f)
  have k: "map (\<lambda>r. (sr_intentId r, sr_adminId r)) (update_where P f (support_recipients s))
      = map (\<lambda>r. (sr_intentId r, sr_adminId r)) (support_recipients s)"
    by (rule map_update_where) (simp add: moved(2))
  have "obligations t i = {a. (i, a) \<in> set (map (\<lambda>r. (sr_intentId r, sr_adminId r)) (support_recipients t))}" for t
    by (auto simp: obligations_def image_iff)
  note o = this
  have s': "support_recipients s' = update_where P f (support_recipients s)" "support_intents s' = support_intents s"
    using moved(1) by (auto simp: update_recipients_def)
  have "obligations s' i = obligations s i" unfolding o s' k ..
  with assms(2) show ?thesis by (simp add: frozen_def s')
qed

text \<open>A recipient is held while nobody can claim it.\<close>

definition held :: "string \<Rightarrow> db \<Rightarrow> bool" where
  "held i s \<longleftrightarrow> (\<exists>r \<in> set (support_recipients s). sr_id r = i)
     \<and> (\<forall>r \<in> set (support_recipients s). sr_id r = i \<longrightarrow> sr_status r \<noteq> Recipient_PENDING)"

lemma step_held:
  assumes "outbox_step s e s'" and "recipients_ok s" and "held i s" and "e \<notin> {Recipient_failed i, Claims_recovered}"
  shows "held i s' \<and> e \<noteq> Recipient_claimed i"
  using assms(1)
proof (cases rule: step_cases)
  case same
  with assms(3) show ?thesis by (simp add: foreign_def held_def)
next
  case (grown j new)
  have "i \<notin> uuids s ` {drawn s ..< drawn s'}"
    using assms(2,3) by (auto simp: recipients_ok_def fresh_for_def held_def) (metis imageI)
  then have "\<forall>r \<in> set new. sr_id r \<noteq> i" using grown(3) by blast
  with grown(1,6) assms(3) show ?thesis by (auto simp: held_def)
next
  case (moved P f)
  have "e \<noteq> Recipient_claimed i"
  proof
    assume "e = Recipient_claimed i"
    from moved(5) [OF this] have "count_where (\<lambda>r. sr_id r = i \<and> sr_status r = Recipient_PENDING) (support_recipients s) = 1"
      by auto
    then show False using assms(3) by (auto simp: held_def count_where_def filter_empty_conv)
  qed
  moreover have "support_recipients s' = update_where P f (support_recipients s)"
    using moved(1) by (auto simp: update_recipients_def)
  moreover have "sr_status (f r) \<noteq> Recipient_PENDING" if "P r" "sr_id r = i" for r
    using moved(4) [OF that(1) _ that(2)] assms(4) by blast
  moreover have "\<exists>r' \<in> set (update_where P f (support_recipients s)). sr_id r' = i"
  proof -
    obtain r where "r \<in> set (support_recipients s)" "sr_id r = i" using assms(3) by (auto simp: held_def)
    then show ?thesis using moved(2)
      by (intro bexI [of _ "if P r then f r else r"]) (auto simp: update_where_def)
  qed
  ultimately show ?thesis
    using assms(3) moved(2) by (auto simp: held_def update_where_def)
qed

lemma step_claims:
  assumes "outbox_step s (Recipient_claimed i) s'" and "recipients_ok s"
  shows "held i s'"
  using assms(1)
proof (cases rule: step_cases)
  case (moved P f)
  let ?Q = "\<lambda>r. sr_id r = i \<and> sr_status r = Recipient_PENDING"
  have P: "P = ?Q" "\<forall>r. sr_status (f r) = Recipient_SENDING" "count_where ?Q (support_recipients s) = 1"
    using moved(5) [of i] by auto
  then obtain r where "r \<in> set (support_recipients s)" "?Q r"
    by (metis count_where_0 zero_neq_one)
  moreover have "support_recipients s' = update_where ?Q f (support_recipients s)"
    using moved(1) P(1) by (auto simp: update_recipients_def)
  ultimately show ?thesis using P(2) moved(2) by (auto simp: held_def set_update_where)
qed auto

section \<open>What the runs keep\<close>

lemma run_ok: "outbox_run s es s' \<Longrightarrow> recipients_ok s \<Longrightarrow> recipients_ok s'"
  by (induction rule: outbox_run.induct) (auto dest: step_ok)

lemma run_keeps_settled:
  "outbox_run s es s' \<Longrightarrow> r \<in> set (support_recipients s) \<Longrightarrow> settled_status (sr_status r) \<Longrightarrow>
   r \<in> set (support_recipients s')"
  by (induction rule: outbox_run.induct) (auto dest: step_keeps_settled)

lemma run_obligations:
  "outbox_run s es s' \<Longrightarrow> frozen s i \<Longrightarrow> frozen s' i \<and> obligations s' i = obligations s i"
  by (induction rule: outbox_run.induct) (auto dest: step_obligations)

lemma run_held:
  "outbox_run s es s' \<Longrightarrow> recipients_ok s \<Longrightarrow> held i s \<Longrightarrow>
   set es \<inter> {Recipient_failed i, Claims_recovered} = {} \<Longrightarrow> held i s' \<and> Recipient_claimed i \<notin> set es"
proof (induction rule: outbox_run.induct)
  case (run_cons s e s1 es s')
  then show ?case using step_held [OF run_cons.hyps(1)] step_ok by fastforce
qed simp

text \<open>
  C23. No two workers hold one recipient. In every sequence of statements of any number of workers, between
  two successful claims of the same recipient its message has failed or a sweep has returned abandoned
  claims; so nobody is told twice unless a send failed or a worker died.
\<close>

theorem claims_are_separated:
  assumes "outbox_run s (before @ Recipient_claimed i # between @ Recipient_claimed i # after) s'"
    and "recipients_ok s"
  shows "Recipient_failed i \<in> set between \<or> Claims_recovered \<in> set between"
proof (rule ccontr)
  assume none: "\<not> ?thesis"
  obtain s1 s2 where r: "outbox_run s before s1" "outbox_step s1 (Recipient_claimed i) s2"
    "outbox_run s2 (between @ Recipient_claimed i # after) s'"
    using outbox_run_split [OF assms(1)] by (blast elim: outbox_run_ConsE)
  then have ok: "recipients_ok s2" "held i s2" using assms(2) run_ok step_ok step_claims by blast+
  obtain s3 s4 where t: "outbox_run s2 between s3" "outbox_step s3 (Recipient_claimed i) s4"
    using outbox_run_split [OF r(3)] by (blast elim: outbox_run_ConsE)
  with run_held [OF t(1) ok] none run_ok [OF t(1) ok(1)] step_held [OF t(2)] show False by blast
qed

section \<open>The code follows the protocol\<close>

definition reaches :: "db \<Rightarrow> db \<Rightarrow> bool" where
  "reaches s s' \<longleftrightarrow> (\<exists>es. outbox_run s es s')"

definition follows :: "(nat \<Rightarrow> db \<Rightarrow> db) \<Rightarrow> bool" where
  "follows others \<longleftrightarrow> (\<forall>n s. reaches s (others n s))"

lemma reaches_refl [simp]: "reaches s s"
  by (auto simp: reaches_def intro: run_nil)

lemma reaches_trans [trans]: "reaches s t \<Longrightarrow> reaches t u \<Longrightarrow> reaches s u"
  by (auto simp: reaches_def dest: outbox_run_append)

lemma reaches_step: "outbox_step s e s' \<Longrightarrow> reaches s s'"
  by (auto simp: reaches_def dest: outbox_run_single)

lemma followsD: "follows others \<Longrightarrow> reaches s t \<Longrightarrow> reaches s (others n t)"
  by (meson follows_def reaches_trans)

lemma follows_shift: "follows others \<Longrightarrow> follows (\<lambda>k. others (Suc k))"
  by (simp add: follows_def)

lemma update_intents_reaches:
  assumes "\<And>r. si_id (f r) = si_id r \<and> si_recipientsExpandedAt (f r) = si_recipientsExpandedAt r"
    and "update_intents P f s = (n, s')"
  shows "reaches s s'"
proof -
  let ?k = "\<lambda>r. (si_id r, si_recipientsExpandedAt r)"
  have s': "s' = s\<lparr>support_intents := update_where P f (support_intents s)\<rparr>"
    using assms(2) by (simp add: update_intents_def)
  have "map ?k (update_where P f (support_intents s)) = map ?k (support_intents s)"
    by (rule map_update_where) (simp add: assms(1))
  moreover have "frozen t i \<longleftrightarrow> (\<exists>x \<in> set (map ?k (support_intents t)). fst x = i)
      \<and> (\<forall>x \<in> set (map ?k (support_intents t)). fst x = i \<longrightarrow> snd x \<noteq> None)" for t i
    by (auto simp: frozen_def)
  moreover have "support_intents s' = update_where P f (support_intents s)" by (simp add: s')
  ultimately have "frozen s' i \<longleftrightarrow> frozen s i" for i by (simp only:)
  then have "foreign s s'" by (simp add: foreign_def s')
  then show ?thesis by (rule reaches_step [OF foreign_step])
qed

lemma claim_intent_reaches: "claim_intent i now s = (n, s') \<Longrightarrow> reaches s s'"
  unfolding claim_intent_def by (erule update_intents_reaches [rotated]) simp

lemma claim_intents_reaches:
  "follows others \<Longrightarrow> claim_intents others now cs s = (claimed, s') \<Longrightarrow> reaches s s'"
proof (induction cs arbitrary: others s claimed)
  case (Cons c cs)
  obtain n s1 rest where c: "claim_intent (di_id c) now (others 0 s) = (n, s1)"
    and r: "claim_intents (\<lambda>k. others (Suc k)) now cs s1 = (rest, s')"
    using Cons.prems(2) by (auto split: prod.splits)
  show ?case
    using followsD [OF Cons.prems(1) reaches_refl] claim_intent_reaches [OF c]
      Cons.IH [OF follows_shift [OF Cons.prems(1)] r] by (blast intro: reaches_trans)
qed simp

lemma claimDueIntents_reaches:
  "follows others \<Longrightarrow> claimDueIntents others limit now s = (claimed, s') \<Longrightarrow> reaches s s'"
  unfolding claimDueIntents_def Let_def
  by (rule reaches_trans [OF followsD [OF _ reaches_refl] claim_intents_reaches [OF follows_shift]])

lemma claimIntentForTicket_reaches:
  assumes "follows others" and "claimIntentForTicket others ticketId kind now s = (d, s')"
  shows "reaches s s'"
  using assms(2) followsD [OF assms(1) reaches_refl]
    reaches_trans [OF followsD [OF assms(1) followsD [OF assms(1) reaches_refl]] claim_intent_reaches]
  by (auto simp: claimIntentForTicket_def Let_def split: list.splits prod.splits)

lemma freeze_attempts_reaches:
  "follows others \<Longrightarrow> freeze_attempts k others collides i now s = (out, s') \<Longrightarrow> reaches s s'"
proof (induction k arbitrary: others collides s)
  case (Suc k)
  note o = followsD [OF Suc.prems(1) reaches_refl]
  show ?case
  proof (cases "collides 0")
    case True
    with Suc.prems(2) Suc.IH [OF follows_shift [OF Suc.prems(1)]] have "reaches (others 0 s) s'" by auto
    then show ?thesis using o by (blast intro: reaches_trans)
  next
    case False
    obtain res s1 where t: "run_transaction (freezeInTransaction i now) (others 0 s) = (res, s1)"
      by (cases "run_transaction (freezeInTransaction i now) (others 0 s)")
    then have "s1 = s'" using Suc.prems(2) False by (cases res) auto
    then show ?thesis using o reaches_step [OF freeze_step [OF t]] by (blast intro: reaches_trans)
  qed
qed simp

lemma claim_recipients_reaches:
  "follows others \<Longrightarrow> claim_recipients others now cs s = (claimed, s') \<Longrightarrow> reaches s s'"
proof (induction cs arbitrary: others s claimed)
  case (Cons c cs)
  note o = followsD [OF Cons.prems(1) reaches_refl] and IH = Cons.IH [OF follows_shift [OF Cons.prems(1)]]
  show ?case
  proof (cases "ad_isActive (snd c)")
    case False
    obtain n s1 where k: "skip_recipient (sr_id (fst c)) (others 0 s) = (n, s1)"
      by (cases "skip_recipient (sr_id (fst c)) (others 0 s)")
    with Cons.prems(2) False have "claim_recipients (\<lambda>k. others (Suc k)) now cs s1 = (claimed, s')" by simp
    from IH [OF this] show ?thesis using o reaches_step [OF skip_step [OF k]] by (blast intro: reaches_trans)
  next
    case True
    obtain n s1 rest where k: "claim_recipient (sr_id (fst c)) now (others 0 s) = (n, s1)"
      and r: "claim_recipients (\<lambda>k. others (Suc k)) now cs s1 = (rest, s')"
      using Cons.prems(2) True by (auto split: prod.splits)
    from IH [OF r] show ?thesis using o reaches_step [OF claim_step [OF k]] by (blast intro: reaches_trans)
  qed
qed simp

lemma claimDueRecipients_reaches:
  "follows others \<Longrightarrow> claimDueRecipients others i now s = (claimed, s') \<Longrightarrow> reaches s s'"
  unfolding claimDueRecipients_def Let_def
  by (rule reaches_trans [OF followsD [OF _ reaches_refl] claim_recipients_reaches [OF follows_shift]])

lemma send_all_reaches:
  "follows others \<Longrightarrow> send_all others send clock rs s = (told, failed, s') \<Longrightarrow> reaches s s'"
proof (induction rs arbitrary: others clock s told failed)
  case (Cons r rs)
  note o = followsD [OF Cons.prems(1) reaches_refl] and IH = Cons.IH [OF follows_shift [OF Cons.prems(1)]]
  obtain e s1 where s1: "outbox_step (others 0 s) e s1"
    and run: "\<exists>told failed. send_all (\<lambda>n. others (Suc n)) send (\<lambda>n. clock (Suc n)) rs s1 = (told, failed, s')"
    using Cons.prems(2) by (auto simp: Let_def split: option.splits prod.splits intro: sent_step failed_step)
  then show ?case using IH o reaches_step [OF s1] by (blast intro: reaches_trans)
qed simp

lemma settleIntent_reaches:
  assumes "follows others" and "settleIntent others i attempts now s = (out, s')"
  shows "reaches s s'"
proof -
  obtain n where "update_intents (\<lambda>r. si_id r = i \<and> si_status r = Intent_SENDING)
      (settled_intent out attempts now) (others 1 (others 0 s)) = (n, s')"
    using assms(2) by (auto simp: settleIntent_def Let_def) (metis prod.collapse)
  then have "reaches (others 1 (others 0 s)) s'"
    by (rule update_intents_reaches [rotated]) (simp add: settled_intent_def)
  then show ?thesis using followsD [OF assms(1)] reaches_refl by (blast intro: reaches_trans)
qed

lemma abandonIntent_reaches: "reaches s (abandonIntent i code now s)"
  unfolding abandonIntent_def
  by (rule update_intents_reaches [where f = "\<lambda>r. r\<lparr>si_status := Intent_FAILED, si_claimedAt := None,
      si_nextAttemptAt := None, si_safeErrorCode := Some code, si_sentAt := Some now\<rparr>", OF _ surjective_pairing]) simp

lemma recoverStaleClaims_reaches:
  assumes "follows others" and "recoverStaleClaims others scope now s = (n, s')"
  shows "reaches s s'"
proof -
  let ?cutoff = "now - NOTIFICATION_STALE_CLAIM_MS"
  obtain m k s1 where r: "recover_recipients ?cutoff scope now (others 0 s) = (m, s1)"
    and i: "recover_intents ?cutoff scope now (others 1 s1) = (k, s')"
    using assms(2) by (auto simp: recoverStaleClaims_def Let_def split: prod.splits)
  have "reaches (others 1 s1) s'" using i unfolding recover_intents_def by (rule update_intents_reaches [rotated]) simp
  moreover have "reaches (others 0 s) s1" by (rule reaches_step [OF recover_step [OF r]])
  ultimately show ?thesis using followsD [OF assms(1)] reaches_refl by (blast intro: reaches_trans)
qed

lemma deliverClaimedIntent_reaches:
  assumes o: "\<forall>k. follows (others k)" and run: "deliverClaimedIntent others collides send clock intent s = (out, s')"
  shows "reaches s s'"
proof -
  note f = followsD [OF o [rule_format]]
  show ?thesis
  proof (cases "isSupportNotificationKind (di_kind intent) \<and> rendered (others 0 0 s) (di_ticketId intent)")
    case False
    then have "s' = abandonIntent (di_id intent) ''unknown-kind'' (clock 0) (others 0 0 s)
        \<or> s' = abandonIntent (di_id intent) ''ticket-missing'' (clock 0) (others 0 1 (others 0 0 s))"
      using run by (auto simp: deliverClaimedIntent_def Let_def split: if_splits)
    then show ?thesis
      using reaches_trans [OF f abandonIntent_reaches, OF reaches_refl] reaches_trans [OF f abandonIntent_reaches, OF f, OF reaches_refl]
      by blast
  next
    case True
    obtain x s1 where e: "expandRecipients (others 1) collides (di_id intent) (clock 1) (others 0 0 s) = (x, s1)"
      by (cases "expandRecipients (others 1) collides (di_id intent) (clock 1) (others 0 0 s)")
    then have s1: "reaches s s1"
      using freeze_attempts_reaches o f [OF reaches_refl] unfolding expandRecipients_def by (blast intro: reaches_trans)
    show ?thesis
    proof (cases x)
      case None
      with run e True s1 show ?thesis by (simp add: deliverClaimedIntent_def Let_def)
    next
      case (Some y)
      obtain rs s2 where c: "claimDueRecipients (others 2) (di_id intent) (clock 2) s1 = (rs, s2)"
        by (cases "claimDueRecipients (others 2) (di_id intent) (clock 2) s1")
      obtain told failed s3 where d: "send_all (others 3) send (\<lambda>n. clock (3 + n)) rs s2 = (told, failed, s3)"
        by (cases "send_all (others 3) send (\<lambda>n. clock (3 + n)) rs s2") auto
      obtain oc s4 where t: "settleIntent (others 4) (di_id intent) (di_attempts intent) (clock (3 + length rs)) s3 = (oc, s4)"
        by (cases "settleIntent (others 4) (di_id intent) (di_attempts intent) (clock (3 + length rs)) s3")
      have "s' = s4" using run e True Some c d t by (simp add: deliverClaimedIntent_def Let_def)
      then show ?thesis
        using s1 claimDueRecipients_reaches [OF o [rule_format] c] send_all_reaches [OF o [rule_format] d]
          settleIntent_reaches [OF o [rule_format] t] by (blast intro: reaches_trans)
    qed
  qed
qed

lemma deliver_each_reaches:
  "\<forall>k j. follows (de_others env k j) \<Longrightarrow> deliver_each env k intents s = (told, s') \<Longrightarrow> reaches s s'"
proof (induction intents arbitrary: k s told)
  case (Cons intent intents)
  obtain out s1 rest where d: "deliverClaimedIntent (de_others env k) (de_collides env k) (de_send env k) (de_clock env k)
      intent s = (out, s1)" and r: "deliver_each env (Suc k) intents s1 = (rest, s')"
    using Cons.prems(2) by (auto split: prod.splits)
  show ?case
    using deliverClaimedIntent_reaches [OF _ d] Cons.prems(1) Cons.IH [OF Cons.prems(1) r] by (blast intro: reaches_trans)
qed simp

lemma deliverTicketNotificationNow_reaches:
  assumes o: "\<forall>k j. follows (de_others env k j)" and run: "deliverTicketNotificationNow env ticketId kind s = (out, s')"
  shows "reaches s s'"
proof -
  obtain d s1 where c: "claimIntentForTicket (de_others env 0 0) ticketId kind (de_clock env 0 0) s = (d, s1)"
    by (cases "claimIntentForTicket (de_others env 0 0) ticketId kind (de_clock env 0 0) s")
  note c' = claimIntentForTicket_reaches [OF o [rule_format] c]
  show ?thesis
  proof (cases d)
    case None
    with run c c' show ?thesis by (simp add: deliverTicketNotificationNow_def)
  next
    case (Some intent)
    obtain x told s2 where r: "deliverClaimedIntent (de_others env 1) (de_collides env 1) (de_send env 1) (de_clock env 1)
        intent s1 = ((x, told), s2)"
      by (cases "deliverClaimedIntent (de_others env 1) (de_collides env 1) (de_send env 1) (de_clock env 1) intent s1") auto
    then have "s' = s2" using run c Some by (cases x) (simp_all add: deliverTicketNotificationNow_def)
    then show ?thesis using c' deliverClaimedIntent_reaches [OF _ r] o by (blast intro: reaches_trans)
  qed
qed

lemma runSupportNotificationSweep_reaches:
  assumes "follows others" and o: "\<forall>k j. follows (de_others env k j)"
    and "runSupportNotificationSweep others now env s = (out, s')"
  shows "reaches s s'"
proof -
  obtain n s1 claimed s2 told where r: "recoverStaleClaims others None now s = (n, s1)"
    and c: "claimDueIntents (de_others env 0 0) SWEEP_BATCH (de_clock env 0 0) s1 = (claimed, s2)"
    and d: "deliver_each env 1 claimed s2 = (told, s')"
    using assms(3) by (auto simp: runSupportNotificationSweep_def deliverPendingNotifications_def split: prod.splits)
  show ?thesis
    using recoverStaleClaims_reaches [OF assms(1) r] claimDueIntents_reaches [OF o [rule_format] c]
      deliver_each_reaches [OF o d] by (blast intro: reaches_trans)
qed

text \<open>
  What is settled stays settled, and nobody is added to an event that was frozen. Whatever the other
  workers and the rest of the system do in between, a sweep of the outbox and the delivery right after a
  message leave every recipient who was told, given up or skipped exactly as it is, and the
  administrators owed an intent whose recipients were frozen are the same before and after.
\<close>

theorem settled_recipients_stay:
  assumes "follows others" and "\<forall>k j. follows (de_others env k j)"
    and "s' = snd (runSupportNotificationSweep others now env s) \<or> s' = snd (deliverTicketNotificationNow env ticketId kind s)"
  shows "(\<forall>r \<in> set (support_recipients s). settled_status (sr_status r) \<longrightarrow> r \<in> set (support_recipients s'))
    \<and> (\<forall>i. frozen s i \<longrightarrow> frozen s' i \<and> obligations s' i = obligations s i)"
proof -
  have "reaches s s'"
    using assms(3) runSupportNotificationSweep_reaches [OF assms(1,2) surjective_pairing]
      deliverTicketNotificationNow_reaches [OF assms(2) surjective_pairing] by blast
  then show ?thesis using run_keeps_settled run_obligations unfolding reaches_def by blast
qed

section \<open>The first delivery\<close>

abbreviation still :: "nat \<Rightarrow> db \<Rightarrow> db" where "still \<equiv> \<lambda>_ s. s"

definition eligible :: "db \<Rightarrow> admin_row list" where
  "eligible s = sort_key ad_id (filter ad_isActive (admins s))"

lemma eligibleAdminIds_eq:
  assumes "unique_by ad_id (admins s)"
  shows "eligibleAdminIds s = map ad_id (eligible s)"
proof (rule sorted_distinct_set_unique)
  show "distinct (eligibleAdminIds s)" "distinct (map ad_id (eligible s))"
    using assms by (auto simp: eligibleAdminIds_def eligible_def unique_by_def distinct_map inj_on_def)
qed (simp_all add: eligibleAdminIds_def eligible_def)

definition new_rows :: "string \<Rightarrow> int \<Rightarrow> string list \<Rightarrow> db \<Rightarrow> recipient_row list" where
  "new_rows i now ids s = map2 (\<lambda>a k. new_recipient i now a (uuids s k)) ids [drawn s ..< drawn s + length ids]"

lemma create_recipients_new:
  assumes "distinct ids" and "\<forall>r \<in> set (support_recipients s). sr_intentId r = i \<longrightarrow> sr_adminId r \<notin> set ids"
  shows "create_recipients i now ids s = (length ids,
    s\<lparr>support_recipients := support_recipients s @ new_rows i now ids s, drawn := drawn s + length ids\<rparr>)"
  using assms
proof (induction ids arbitrary: s)
  case Nil
  then show ?case by (simp add: new_rows_def)
next
  case (Cons a ids)
  let ?row = "new_recipient i now a (uuids s (drawn s))"
  let ?s2 = "s\<lparr>drawn := Suc (drawn s), support_recipients := support_recipients s @ [?row]\<rparr>"
  have "create_recipients i now ids ?s2 = (length ids, ?s2\<lparr>support_recipients := support_recipients ?s2
      @ new_rows i now ids ?s2, drawn := drawn ?s2 + length ids\<rparr>)"
    by (rule Cons.IH) (use Cons.prems in \<open>auto simp: new_recipient_def\<close>)
  moreover have "new_rows i now (a # ids) s = ?row # new_rows i now ids ?s2"
    by (simp add: new_rows_def upt_conv_Cons del: upt_Suc)
  moreover have "\<not> (\<exists>r \<in> set (support_recipients s). sr_intentId r = i \<and> sr_adminId r = a)" using Cons.prems(2) by auto
  ultimately show ?case by (auto simp: draw_id_def)
qed

text \<open>Rows that are told apart by their identifiers, claimed and marked one after the other.\<close>

lemma claim_recipients_wins:
  assumes "unique_by sr_id (support_recipients s)" and "distinct (map (sr_id \<circ> fst) cs)"
    and "\<forall>c \<in> set cs. ad_isActive (snd c)
      \<and> (\<exists>r \<in> set (support_recipients s). sr_id r = sr_id (fst c) \<and> sr_status r = Recipient_PENDING)"
  shows "\<exists>s'. claim_recipients still now cs s = (map deliverable cs, s')
    \<and> support_intents s' = support_intents s
    \<and> map sr_id (support_recipients s') = map sr_id (support_recipients s)
    \<and> map sr_intentId (support_recipients s') = map sr_intentId (support_recipients s)
    \<and> (\<forall>r \<in> set (support_recipients s'). if sr_id r \<in> (sr_id \<circ> fst) ` set cs then sr_status r = Recipient_SENDING
        else r \<in> set (support_recipients s))"
  using assms
proof (induction cs arbitrary: s)
  case (Cons c cs)
  let ?i = "sr_id (fst c)"
  let ?P = "\<lambda>r. sr_id r = ?i \<and> sr_status r = Recipient_PENDING"
  obtain n s1 where k: "claim_recipient ?i now s = (n, s1)" by (cases "claim_recipient ?i now s")
  obtain f where s1: "s1 = s\<lparr>support_recipients := update_where ?P f (support_recipients s)\<rparr>"
    and f: "\<And>r. sr_id (f r) = sr_id r" "\<And>r. sr_intentId (f r) = sr_intentId r" "\<And>r. sr_status (f r) = Recipient_SENDING"
    and n: "n = count_where ?P (support_recipients s)"
    using k by (auto simp: claim_recipient_def update_recipients_def)
  have "n \<noteq> 0" using Cons.prems(3) by (auto simp: n count_where_0)
  moreover have "n \<le> 1" unfolding n by (rule count_where_unique [OF Cons.prems(1)])
  ultimately have n1: "n = 1" by simp
  have maps: "map sr_id (support_recipients s1) = map sr_id (support_recipients s)"
    "map sr_intentId (support_recipients s1) = map sr_intentId (support_recipients s)"
    by (simp_all add: s1 map_update_where f)
  have u: "unique_by sr_id (support_recipients s1)" using Cons.prems(1) maps(1) by (simp add: unique_by_def)
  have pend: "\<exists>r \<in> set (support_recipients s1). sr_id r = sr_id (fst d) \<and> sr_status r = Recipient_PENDING"
    if d: "d \<in> set cs" for d
  proof -
    obtain r where r: "r \<in> set (support_recipients s)" "sr_id r = sr_id (fst d)" "sr_status r = Recipient_PENDING"
      using Cons.prems(3) d by auto
    then have "\<not> ?P r" using Cons.prems(2) d by force
    with r show ?thesis by (intro bexI [of _ r]) (auto simp: s1 set_update_where)
  qed
  obtain s' where IH: "claim_recipients still now cs s1 = (map deliverable cs, s')"
    "support_intents s' = support_intents s1" "map sr_id (support_recipients s') = map sr_id (support_recipients s1)"
    "map sr_intentId (support_recipients s') = map sr_intentId (support_recipients s1)"
    "\<forall>r \<in> set (support_recipients s'). if sr_id r \<in> (sr_id \<circ> fst) ` set cs then sr_status r = Recipient_SENDING
        else r \<in> set (support_recipients s1)"
    using Cons.IH [OF u] Cons.prems(2,3) pend by auto
  have "if sr_id r \<in> (sr_id \<circ> fst) ` set (c # cs) then sr_status r = Recipient_SENDING else r \<in> set (support_recipients s)"
    if r: "r \<in> set (support_recipients s')" for r
  proof (cases "sr_id r \<in> (sr_id \<circ> fst) ` set cs")
    case True
    with r IH(5) show ?thesis by auto
  next
    case False
    then have "r \<in> set (support_recipients s1)" using r IH(5) by auto
    then obtain x where x: "x \<in> set (support_recipients s)" "r = (if ?P x then f x else x)"
      by (auto simp: s1 update_where_def)
    show ?thesis
    proof (cases "sr_id r = ?i")
      case True
      then have "sr_id x = ?i" using x f by (auto split: if_splits)
      moreover obtain y where "y \<in> set (support_recipients s)" "?P y" using Cons.prems(3) by auto
      ultimately have "x = y" using unique_by_inj [OF Cons.prems(1) x(1)] by auto
      then show ?thesis using True x \<open>?P y\<close> f(3) by auto
    next
      case b: False
      then show ?thesis using False x f(1) by (auto split: if_splits)
    qed
  qed
  then show ?case
    using k n1 IH Cons.prems(3) maps by (auto simp: s1)
qed simp

lemma send_all_tells:
  assumes "unique_by sr_id (support_recipients s)"
    and "\<forall>d \<in> set rs. \<forall>r \<in> set (support_recipients s). sr_id r = dr_id d \<longrightarrow> sr_status r \<in> {Recipient_SENDING, Recipient_SENT}"
  shows "\<exists>s'. send_all still (\<lambda>_. None) clock rs s = (map dr_adminChatId rs, 0, s')
    \<and> support_intents s' = support_intents s
    \<and> map sr_intentId (support_recipients s') = map sr_intentId (support_recipients s)
    \<and> (\<forall>r \<in> set (support_recipients s'). if sr_id r \<in> dr_id ` set rs then sr_status r = Recipient_SENT
        else r \<in> set (support_recipients s))"
  using assms
proof (induction rs arbitrary: s clock)
  case (Cons d rs)
  let ?P = "\<lambda>r. sr_id r = dr_id d \<and> sr_status r = Recipient_SENDING"
  let ?s1 = "markRecipientSent (dr_id d) (clock 0) s"
  obtain f where s1: "?s1 = s\<lparr>support_recipients := update_where ?P f (support_recipients s)\<rparr>"
    and f: "\<And>r. sr_id (f r) = sr_id r" "\<And>r. sr_intentId (f r) = sr_intentId r" "\<And>r. sr_status (f r) = Recipient_SENT"
    by (auto simp: markRecipientSent_def update_recipients_def)
  have maps: "map sr_id (support_recipients ?s1) = map sr_id (support_recipients s)"
    "map sr_intentId (support_recipients ?s1) = map sr_intentId (support_recipients s)"
    by (simp_all add: s1 map_update_where f)
  then have u: "unique_by sr_id (support_recipients ?s1)" using Cons.prems(1) by (simp add: unique_by_def)
  have p: "\<forall>d' \<in> set rs. \<forall>r \<in> set (support_recipients ?s1). sr_id r = dr_id d' \<longrightarrow> sr_status r \<in> {Recipient_SENDING, Recipient_SENT}"
    using Cons.prems(2) f by (auto simp: s1 update_where_def)
  obtain s' where IH: "send_all still (\<lambda>_. None) (\<lambda>n. clock (Suc n)) rs ?s1 = (map dr_adminChatId rs, 0, s')"
    "support_intents s' = support_intents ?s1" "map sr_intentId (support_recipients s') = map sr_intentId (support_recipients ?s1)"
    "\<forall>r \<in> set (support_recipients s'). if sr_id r \<in> dr_id ` set rs then sr_status r = Recipient_SENT
        else r \<in> set (support_recipients ?s1)"
    using Cons.IH [OF u p] by blast
  have "if sr_id r \<in> dr_id ` set (d # rs) then sr_status r = Recipient_SENT else r \<in> set (support_recipients s)"
    if r: "r \<in> set (support_recipients s')" for r
  proof (cases "sr_id r \<in> dr_id ` set rs")
    case True
    with r IH(4) show ?thesis by auto
  next
    case False
    then have "r \<in> set (support_recipients ?s1)" using r IH(4) by auto
    then obtain x where x: "x \<in> set (support_recipients s)" "r = (if ?P x then f x else x)"
      by (auto simp: s1 update_where_def)
    then show ?thesis using False f Cons.prems(2) by (auto split: if_splits)
  qed
  then show ?case using IH maps by (auto simp: s1)
qed simp

text \<open>What there is to know of the rows that a freeze writes.\<close>

lemma new_rows_facts:
  assumes "recipients_ok s"
  shows "length (new_rows i now ids s) = length ids" "map sr_adminId (new_rows i now ids s) = ids"
    "map sr_id (new_rows i now ids s) = map (uuids s) [drawn s ..< drawn s + length ids]"
    "\<forall>r \<in> set (new_rows i now ids s). sr_intentId r = i \<and> sr_status r = Recipient_PENDING
       \<and> sr_nextAttemptAt r = None \<and> sr_createdAt r = now"
    "unique_by sr_id (support_recipients s @ new_rows i now ids s)"
proof -
  let ?new = "new_rows i now ids s"
  show "length ?new = length ids" by (simp add: new_rows_def)
  show "map sr_adminId ?new = ids" "map sr_id ?new = map (uuids s) [drawn s ..< drawn s + length ids]"
    by (auto intro!: nth_equalityI simp: new_rows_def new_recipient_def)
  then have "sr_id ` set ?new = uuids s ` {drawn s ..< drawn s + length ids}" "distinct (map sr_id ?new)"
    using assms by (metis atLeastLessThan_upt image_set, auto simp: recipients_ok_def distinct_map intro: inj_on_subset)
  then show "unique_by sr_id (support_recipients s @ ?new)"
    using assms by (auto simp: recipients_ok_def unique_by_def fresh_for_def) (metis imageI)
  show "\<forall>r \<in> set ?new. sr_intentId r = i \<and> sr_status r = Recipient_PENDING
       \<and> sr_nextAttemptAt r = None \<and> sr_createdAt r = now"
    by (auto simp: new_rows_def new_recipient_def set_zip)
qed

lemma freeze_new:
  assumes "recipients_ok s" and "unique_by ad_id (admins s)"
    and "\<forall>r \<in> set (support_recipients s). sr_intentId r \<noteq> i"
    and "r \<in> set (support_intents s)" and "si_id r = i" and "si_recipientsExpandedAt r = None"
  shows "\<exists>fo s'. expandRecipients still (\<lambda>_. False) i now s = (Some fo, s') \<and> admins s' = admins s
    \<and> support_recipients s' = support_recipients s @ new_rows i now (map ad_id (eligible s)) s
    \<and> support_intents s' = update_where (\<lambda>r. si_id r = i \<and> si_recipientsExpandedAt r = None)
        (\<lambda>r. r\<lparr>si_recipientsExpandedAt := Some now\<rparr>) (support_intents s)"
proof -
  let ?P = "\<lambda>r. si_id r = i \<and> si_recipientsExpandedAt r = None"
  let ?s1 = "s\<lparr>support_intents := update_where ?P (\<lambda>r. r\<lparr>si_recipientsExpandedAt := Some now\<rparr>) (support_intents s)\<rparr>"
  let ?ids = "map ad_id (eligible s)"
  have ids: "eligibleAdminIds s = ?ids" "distinct ?ids"
    using eligibleAdminIds_eq [OF assms(2)] assms(2)
    by (auto simp: eligible_def unique_by_def distinct_map inj_on_def)
  have c: "create_recipients i now ?ids ?s1 = (length ?ids, ?s1\<lparr>support_recipients := support_recipients s
      @ new_rows i now ?ids ?s1, drawn := drawn s + length ?ids\<rparr>)"
    using create_recipients_new [OF ids(2), of ?s1 i now] assms(3) by simp
  have rows: "new_rows i now ?ids ?s1 = new_rows i now ?ids s" "new_rows i now [] s = []" by (simp_all add: new_rows_def)
  have n: "count_where ?P (support_intents s) \<noteq> 0" using assms(4-6) by (auto simp: count_where_0)
  have "\<exists>fo s'. freezeInTransaction i now s = Inr (fo, s') \<and> admins s' = admins s
    \<and> support_recipients s' = support_recipients s @ new_rows i now ?ids s
    \<and> support_intents s' = support_intents ?s1"
  proof (cases "?ids = []")
    case True
    then show ?thesis using n ids(1) rows(2)
      by (simp add: freezeInTransaction_def tx_success update_intents_def)
  next
    case False
    then show ?thesis using n ids(1) rows(1) c
      by (simp add: freezeInTransaction_def tx_success update_intents_def)
  qed
  then show ?thesis
    by (auto simp: expandRecipients_def FREEZE_MAX_ATTEMPTS_def eval_nat_numeral run_transaction_def split: sum.splits prod.splits)
qed

lemma sorted_const: "\<forall>x \<in> set xs. f x = c \<Longrightarrow> sorted (map f xs)"
  by (induction xs) auto

lemma map_filter_zip:
  "length xs = length ys \<Longrightarrow> \<forall>(x, y) \<in> set (zip xs ys). f x = Some (x, y) \<Longrightarrow> List.map_filter f xs = zip xs ys"
  by (induction xs ys rule: list_induct2) (simp_all add: map_filter_simps)

text \<open>The rows that a freeze wrote are due at once, each with its administrator.\<close>

lemma freeze_filter:
  assumes "\<forall>r \<in> set new. sr_intentId r = i \<and> sr_status r = Recipient_PENDING
       \<and> sr_nextAttemptAt r = None \<and> sr_createdAt r = now"
    and "\<forall>r \<in> set old. sr_intentId r \<noteq> i"
  shows "filter (\<lambda>r. sr_intentId r = i \<and> sr_status r = Recipient_PENDING \<and> due later (sr_nextAttemptAt r)) (old @ new) = new"
  "sort_key sr_createdAt new = new"
proof -
  let ?P = "\<lambda>r. sr_intentId r = i \<and> sr_status r = Recipient_PENDING \<and> due later (sr_nextAttemptAt r)"
  have "filter ?P old = []" using assms(2) by (simp add: filter_empty_conv)
  moreover have "filter ?P new = new" using assms(1) by (simp add: filter_id_conv due_def)
  ultimately show "filter ?P (old @ new) = new" by simp
  show "sort_key sr_createdAt new = new"
    by (rule sort_key_id_if_sorted, rule sorted_const) (use assms(1) in blast)
qed

lemma freeze_lookup:
  assumes "unique_by ad_id (admins s)" and len: "length new = length (eligible s)"
   and adm: "map sr_adminId new = map ad_id (eligible s)"
  shows "List.map_filter (\<lambda>r. map_option (Pair r) (find (\<lambda>a. ad_id a = sr_adminId r) (admins s))) new
      = zip new (eligible s)"
proof (rule map_filter_zip [OF len], intro ballI, simp only: split_paired_all prod.case)
    fix x y assume "(x, y) \<in> set (zip new (eligible s))"
    then obtain k where k: "k < length (eligible s)" "x = new ! k" "y = eligible s ! k"
      using len by (auto simp: set_zip)
    have "map sr_adminId new ! k = map ad_id (eligible s) ! k" by (simp only: adm)
    then have "sr_adminId x = ad_id y" using k len by simp
    moreover have "y \<in> set (eligible s)" using k by simp
    then have "y \<in> set (admins s)" by (simp add: eligible_def)
    ultimately show "map_option (Pair x) (find (\<lambda>a. ad_id a = sr_adminId x) (admins s)) = Some (x, y)"
      using find_unique [OF assms(1), of y] by simp
qed

lemma new_candidates:
  assumes "recipients_ok s" and "unique_by ad_id (admins s)"
    and "\<forall>r \<in> set (support_recipients s). sr_intentId r \<noteq> i"
    and s1: "admins s1 = admins s" "support_recipients s1 = support_recipients s @ new_rows i now (map ad_id (eligible s)) s"
  shows "recipient_candidates i later s1 = zip (new_rows i now (map ad_id (eligible s)) s) (eligible s)"
proof -
  note new = new_rows_facts [OF assms(1), of i now "map ad_id (eligible s)"]
  have len: "length (new_rows i now (map ad_id (eligible s)) s) = length (eligible s)" using new(1) by simp
  show ?thesis unfolding recipient_candidates_def s1 freeze_filter [OF new(4) assms(3)] by (rule freeze_lookup [OF assms(2) len new(2)])
qed
lemma count_by_key:
  assumes "map k xs = map k ys"
  shows "count_where (\<lambda>r. P (k r)) xs = count_where (\<lambda>r. P (k r)) ys"
proof -
  have "count_where (\<lambda>r. P (k r)) zs = length (filter P (map k zs))" for zs
    by (simp add: count_where_def filter_map o_def)
  then show ?thesis unfolding assms by (simp only: assms)
qed

text \<open>When every obligation of an intent was met, the intent is settled as sent.\<close>

lemma settle_all_sent:
  assumes "\<forall>x \<in> set (support_recipients s). sr_intentId x = i \<longrightarrow> sr_status x = Recipient_SENT"
    and "count_where (\<lambda>x. sr_intentId x = i) (support_recipients s) = n"
    and "r \<in> set (support_intents s)" and "si_id r = i" and "si_status r = Intent_SENDING"
    and "settleIntent still i attempts now s = (out, s')"
  shows "io_complete out \<and> (\<exists>r' \<in> set (support_intents s'). si_id r' = i \<and> si_status r' = Intent_SENT
    \<and> si_deliveredCount r' = int n)"
proof -
  have z: "recipients_in i st s = 0" if "st \<noteq> Recipient_SENT" for st
    using assms(1) that by (auto simp: recipients_in_def count_where_0)
  have "filter (\<lambda>x. sr_intentId x = i \<and> sr_status x = Recipient_SENT) (support_recipients s)
      = filter (\<lambda>x. sr_intentId x = i) (support_recipients s)"
    by (rule filter_cong) (use assms(1) in auto)
  then have "recipients_in i Recipient_SENT s = n"
    using assms(2) by (simp add: recipients_in_def count_where_def)
  then have o: "intent_outcome i s = \<lparr>io_complete = True, io_sent = n, io_failed = 0, io_skipped = 0, io_pending = 0\<rparr>"
    using z by (simp add: intent_outcome_def Let_def)
  let ?P = "\<lambda>r. si_id r = i \<and> si_status r = Intent_SENDING"
  have "out = intent_outcome i s" "support_intents s' =
      update_where ?P (settled_intent (intent_outcome i s) attempts now) (support_intents s)"
    using assms(6) by (auto simp: settleIntent_def update_intents_def Let_def)
  moreover from this(2) have "settled_intent (intent_outcome i s) attempts now r \<in> set (support_intents s')"
    using assms(3-5) by (auto simp: set_update_where)
  ultimately show ?thesis using assms(4) unfolding o
    by (intro conjI, simp, intro bexI [of _ "settled_intent (intent_outcome i s) attempts now r"])
      (auto simp: settled_intent_def o)
qed

text \<open>
  C24. The first delivery reaches everyone. When a worker holds a new intent, nobody interferes and every
  send succeeds, the message goes to each administrator who is active at that moment, exactly once and to
  no one else; the delivery reports completion and the intent is SENT with their number.
\<close>

theorem first_delivery_reaches_everyone:
  assumes "recipients_ok s" and "unique_by ad_id (admins s)" and "unique_by si_id (support_intents s)"
    and "\<forall>r \<in> set (support_recipients s). sr_intentId r \<noteq> di_id intent"
    and "r \<in> set (support_intents s)" and "si_id r = di_id intent" and "si_status r = Intent_SENDING"
    and "si_recipientsExpandedAt r = None"
    and "isSupportNotificationKind (di_kind intent)" and "rendered s (di_ticketId intent)"
  shows "\<exists>result told s' r'. deliverClaimedIntent (\<lambda>_. still) (\<lambda>_. False) (\<lambda>_. None) clock intent s
      = ((Some result, told), s') \<and> dl_complete result
    \<and> told = map (\<lambda>a. show_int (ad_telegramId a)) (eligible s)
    \<and> r' \<in> set (support_intents s') \<and> si_id r' = di_id intent \<and> si_status r' = Intent_SENT
    \<and> si_deliveredCount r' = int (length (eligible s))"
proof -
  let ?i = "di_id intent" and ?ids = "map ad_id (eligible s)"
  let ?new = "new_rows ?i (clock 1) ?ids s"
  note new = new_rows_facts [OF assms(1), of ?i "clock 1" ?ids]
  obtain fo s1 where e: "expandRecipients still (\<lambda>_. False) ?i (clock 1) s = (Some fo, s1)" "admins s1 = admins s"
    "support_recipients s1 = support_recipients s @ ?new"
    "support_intents s1 = update_where (\<lambda>r. si_id r = ?i \<and> si_recipientsExpandedAt r = None)
        (\<lambda>r. r\<lparr>si_recipientsExpandedAt := Some (clock 1)\<rparr>) (support_intents s)"
    using freeze_new [OF assms(1,2,4,5,6,8)] by blast
  let ?cs = "zip ?new (eligible s)"
  have len: "length ?new = length (eligible s)" using new(1) by simp
  have ids: "map (sr_id \<circ> fst) ?cs = map sr_id ?new" using map_fst_zip [OF len] by (metis map_map)
  have idset: "(sr_id \<circ> fst) ` set ?cs = sr_id ` set ?new" using ids by (metis list.set_map)
  have u1: "unique_by sr_id (support_recipients s1)" using new(5) e(3) by simp
  have "distinct (map sr_id ?new)" using new(5) by (simp add: unique_by_def)
  moreover have "ad_isActive (snd c) \<and> (\<exists>r \<in> set (support_recipients s1). sr_id r = sr_id (fst c)
      \<and> sr_status r = Recipient_PENDING)" if "c \<in> set ?cs" for c
  proof -
    have "fst c \<in> set ?new" "snd c \<in> set (eligible s)" using that by (metis in_set_zipE prod.collapse)+
    then show ?thesis using new(4) e(3) by (auto simp: eligible_def)
  qed
  ultimately obtain s2 where c: "claim_recipients still (clock 2) ?cs s1 = (map deliverable ?cs, s2)"
    "support_intents s2 = support_intents s1" "map sr_id (support_recipients s2) = map sr_id (support_recipients s1)"
    "map sr_intentId (support_recipients s2) = map sr_intentId (support_recipients s1)"
    "\<forall>r \<in> set (support_recipients s2). if sr_id r \<in> sr_id ` set ?new then sr_status r = Recipient_SENDING
        else r \<in> set (support_recipients s1)"
    using claim_recipients_wins [OF u1, of ?cs "clock 2"] unfolding ids idset by auto
  have u2: "unique_by sr_id (support_recipients s2)" using u1 c(3) by (simp add: unique_by_def)
  have drs: "dr_id ` set (map deliverable ?cs) = sr_id ` set ?new"
    using idset by (auto simp: deliverable_def image_image)
  have "sr_status x \<in> {Recipient_SENDING, Recipient_SENT}"
    if "y \<in> set (map deliverable ?cs)" "x \<in> set (support_recipients s2)" "sr_id x = dr_id y" for x y
  proof -
    have "sr_id x \<in> sr_id ` set ?new" using that(1,3) drs by (metis image_eqI)
    then show ?thesis using c(5) that(2) by auto
  qed
  then obtain s3 where d: "send_all still (\<lambda>_. None) (\<lambda>n. clock (3 + n)) (map deliverable ?cs) s2
      = (map dr_adminChatId (map deliverable ?cs), 0, s3)" "support_intents s3 = support_intents s2"
    "map sr_intentId (support_recipients s3) = map sr_intentId (support_recipients s2)"
    "\<forall>r \<in> set (support_recipients s3). if sr_id r \<in> sr_id ` set ?new then sr_status r = Recipient_SENT
        else r \<in> set (support_recipients s2)"
    using send_all_tells [OF u2, of "map deliverable ?cs" "\<lambda>n. clock (3 + n)"] unfolding drs by blast
  have "sr_status x = Recipient_SENT" if "x \<in> set (support_recipients s3)" "sr_intentId x = ?i" for x
  proof (rule ccontr)
    assume "sr_status x \<noteq> Recipient_SENT"
    then have n: "sr_id x \<notin> sr_id ` set ?new" and "x \<in> set (support_recipients s2)" using d(4) that(1) by (auto split: if_splits)
    then have "x \<in> set (support_recipients s1)" using c(5) by auto
    with n have "x \<in> set (support_recipients s)" using e(3) by auto
    then show False using assms(4) that(2) by blast
  qed
  moreover have "count_where (\<lambda>x. sr_intentId x = ?i) (support_recipients s3) = length (eligible s)"
  proof -
    have "count_where (\<lambda>x. sr_intentId x = ?i) (support_recipients s3) = count_where (\<lambda>x. sr_intentId x = ?i) (support_recipients s1)"
      using count_by_key [of sr_intentId _ _ "\<lambda>j. j = ?i"] c(4) d(3) by metis
    also have "\<dots> = length ?new"
      using assms(4) new(4) by (simp add: e(3) count_where_append count_where_def filter_empty_conv filter_id_conv)
    finally show ?thesis using len by simp
  qed
  moreover have "\<exists>r1 \<in> set (support_intents s3). si_id r1 = ?i \<and> si_status r1 = Intent_SENDING"
    using assms(5-8) by (intro bexI [of _ "r\<lparr>si_recipientsExpandedAt := Some (clock 1)\<rparr>"])
      (auto simp: d(2) c(2) e(4) set_update_where)
  moreover obtain out s4 where t: "settleIntent still ?i (di_attempts intent) (clock (3 + length (map deliverable ?cs))) s3 = (out, s4)"
    by (cases "settleIntent still ?i (di_attempts intent) (clock (3 + length (map deliverable ?cs))) s3")
  ultimately obtain r' where r': "io_complete out" "r' \<in> set (support_intents s4)" "si_id r' = ?i" "si_status r' = Intent_SENT"
    "si_deliveredCount r' = int (length (eligible s))"
    using settle_all_sent by metis
  have "map dr_adminChatId (map deliverable ?cs) = map (\<lambda>a. show_int (ad_telegramId a)) (map snd ?cs)"
    by (simp add: deliverable_def comp_def)
  then have told: "map dr_adminChatId (map deliverable ?cs) = map (\<lambda>a. show_int (ad_telegramId a)) (eligible s)"
    unfolding map_snd_zip [OF len] .
  have "claimDueRecipients still ?i (clock 2) s1 = (map deliverable ?cs, s2)"
    using c(1) new_candidates [OF assms(1,2,4) e(2,3)] by (simp add: claimDueRecipients_def)
  then have "deliverClaimedIntent (\<lambda>_. still) (\<lambda>_. False) (\<lambda>_. None) clock intent s =
      ((Some \<lparr>dl_sent = length (eligible s), dl_failed = 0, dl_skipped = io_skipped out, dl_complete = io_complete out\<rparr>,
        map (\<lambda>a. show_int (ad_telegramId a)) (eligible s)), s4)"
    using assms(9,10) e(1) d(1) t told by (simp add: deliverClaimedIntent_def len)
  from this r'(1) refl r'(2-5) show ?thesis
    by (intro exI conjI) (assumption | simp)+
qed

end
