(* ===== verification/SupportApplications.thy ===== *)
theory SupportApplications
  imports Applications SupportTicketFacts SupportNotificationFacts
begin

text \<open>
  The theorems about support tickets and their notifications, applied to the small shop with two
  administrators, one of them inactive.
\<close>

section \<open>A desk\<close>

definition desk :: db where
  "desk = shop\<lparr>admins := [sample_admin\<lparr>ad_id := ''b'', ad_telegramId := 22\<rparr>,
      sample_admin\<lparr>ad_id := ''c'', ad_telegramId := 33, ad_isActive := False\<rparr>,
      sample_admin\<lparr>ad_id := ''a'', ad_telegramId := 11\<rparr>],
    uuids := (\<lambda>n. ''0a1b2c3d'' @ show_nat n)\<rparr>"

definition desk_sha :: "string \<Rightarrow> string" where "desk_sha s = CHR ''#'' # s"

lemma desk_sha_inj: "inj desk_sha" by (simp add: desk_sha_def inj_def)

definition ask :: "string \<Rightarrow> CreateTicketInput" where
  "ask body = \<lparr>ci_subject = JStr ''no net'', ci_message = JStr body, ci_category = JStr ''CONNECTION'',
     ci_origin = JStr ''MINIAPP'', ci_servicePublicId = JStr ''01234567'', ci_clientRequestId = JStr ''0123456789abcdef''\<rparr>"

definition tell :: "string \<Rightarrow> ReplyInput" where
  "tell body = \<lparr>ri_ticketPublicId = JStr ''0a1b2c3d'', ri_message = JStr body,
     ri_clientRequestId = JStr ''fedcba9876543210''\<rparr>"

definition asked :: "support_outcome \<times> db" where
  "asked = createTicket (\<lambda>_ s. s) desk_sha 100 ''u'' (ask ''help'') desk"

definition asked_desk :: db where "asked_desk = snd asked"

definition told_desk :: "support_outcome \<times> db" where
  "told_desk = replyToTicket (\<lambda>_ s. s) desk_sha 200 ''u'' (tell ''still'') asked_desk"

definition served :: "support_outcome \<times> db \<Rightarrow> bool" where
  "served x = (case fst x of Answered (Inr v) \<Rightarrow> tk_id (fst (fst v)) = ''0a1b2c3d0'' | _ \<Rightarrow> False)"

lemma servedE:
  assumes "served x"
  obtains v s' where "x = (Answered (Inr v), s')" "tk_id (fst (fst v)) = ''0a1b2c3d0''"
  using assms by (cases x) (auto simp: served_def split: support_outcome.splits sum.splits)

lemma asked_served: "served asked"
  by code_simp

lemma told_served: "served told_desk"
  by code_simp

definition command :: "string \<Rightarrow> create_command" where
  "command body = \<lparr>cc_requestId = ''0123456789abcdef'', cc_subject = ''no net'', cc_message = body,
     cc_category = ''CONNECTION'', cc_origin = ''MINIAPP'', cc_service = Some ''01234567''\<rparr>"

lemma commands: "read_create_input (ask ''help'') = Inr (command ''help'')"
  "read_create_input (ask ''more'') = Inr (command ''more'')"
  "read_reply_input (tell ''still'') = Inr \<lparr>rc_requestId = ''fedcba9876543210'', rc_message = ''still'', rc_ticket = ''0a1b2c3d''\<rparr>"
  "read_reply_input (tell ''other'') = Inr \<lparr>rc_requestId = ''fedcba9876543210'', rc_message = ''other'', rc_ticket = ''0a1b2c3d''\<rparr>"
  by code_simp+

lemma keeps_requests_quiet: "keeps_requests (\<lambda>s. s)"
  by (simp add: keeps_requests_def)

section \<open>Tickets\<close>

theorem ticket_is_created_or_replayed_witness:
  "\<exists>v serviceId. asked = (Answered (Inr v), asked_desk)
     \<and> asked_desk = create_effect desk_sha 100 ''u'' (command ''help'') serviceId desk"
proof (rule servedE [OF asked_served])
  fix v s' assume r: "asked = (Answered (Inr v), s')"
  have s: "s' = asked_desk" by (simp add: asked_desk_def r)
  have "stored_request desk ''u'' ''0123456789abcdef'' = None" by code_simp
  with ticket_is_created_or_replayed [OF r [unfolded asked_def] commands(1)] r s show ?thesis
    by (fastforce simp: command_def)
qed

theorem ticket_request_runs_once_witness:
  "\<exists>v t. asked = (Answered (Inr v), asked_desk)
     \<and> createTicket (\<lambda>_ s. s) desk_sha 900 ''u'' (ask ''help'') asked_desk
         = (Answered (Inr ((t, service_label asked_desk t), snd v)), asked_desk)
     \<and> createTicket (\<lambda>_ s. s) desk_sha 900 ''u'' (ask ''more'') asked_desk
         = (Answered (Inl SUPPORT_IDEMPOTENCY_CONFLICT), asked_desk)"
proof (rule servedE [OF asked_served])
  fix v s' assume r: "asked = (Answered (Inr v), s')" and i: "tk_id (fst (fst v)) = ''0a1b2c3d0''"
  have s: "s' = asked_desk" by (simp add: asked_desk_def r)
  have "owned_ticket asked_desk ''u'' ''0a1b2c3d0'' \<noteq> None" by code_simp
  then obtain t where t: "owned_ticket asked_desk ''u'' (tk_id (fst (fst v))) = Some t" using i by auto
  have k: "cc_requestId (command x) = cc_requestId (command ''help'')" for x by (simp add: command_def)
  note q = allI [OF keeps_requests_quiet]
  note once = ticket_request_runs_once [where later = "\<lambda>s. s" and now' = 900, OF r [unfolded asked_def s] commands(1) q
      keeps_requests_quiet _ _ desk_sha_inj t]
  have "command ''more'' \<noteq> command ''help''" by (simp add: command_def)
  then show ?thesis
    using r s once [OF commands(1) refl] once [OF commands(2) k] by (intro exI [of _ v] exI [of _ t]) simp
qed

lemma asked_ticket: "\<exists>t label. resolveOwnedTicket asked_desk ''u'' (JStr ''0a1b2c3d'') = Some (t, label)
    \<and> tk_id t = ''0a1b2c3d0''"
proof -
  have "case resolveOwnedTicket asked_desk ''u'' (JStr ''0a1b2c3d'') of Some (t, label) \<Rightarrow> tk_id t = ''0a1b2c3d0'' | None \<Rightarrow> False"
    by code_simp
  then show ?thesis by (auto split: option.splits)
qed

lemma told_ticket: "\<exists>t label. resolveOwnedTicket (snd told_desk) ''u'' (JStr ''0a1b2c3d'') = Some (t, label)
    \<and> tk_id t = ''0a1b2c3d0''"
proof -
  have "case resolveOwnedTicket (snd told_desk) ''u'' (JStr ''0a1b2c3d'') of Some (t, label) \<Rightarrow> tk_id t = ''0a1b2c3d0'' | None \<Rightarrow> False"
    by code_simp
  then show ?thesis by (auto split: option.splits)
qed

lemma told_unique: "unique_by tk_id (support_tickets (snd told_desk))"
proof -
  have "length (support_tickets (snd told_desk)) = 1" by code_simp
  then obtain t where "support_tickets (snd told_desk) = [t]" by (auto simp: length_Suc_conv)
  then show ?thesis by (simp add: unique_by_def)
qed

theorem reply_request_runs_once_witness:
  "\<exists>v t label. told_desk = (Answered (Inr v), snd told_desk)
     \<and> replyToTicket (\<lambda>_ s. s) desk_sha 900 ''u'' (tell ''still'') (snd told_desk)
         = (Answered (Inr ((t, label), snd v)), snd told_desk)
     \<and> replyToTicket (\<lambda>_ s. s) desk_sha 900 ''u'' (tell ''other'') (snd told_desk)
         = (Answered (Inl SUPPORT_IDEMPOTENCY_CONFLICT), snd told_desk)"
proof (rule servedE [OF told_served])
  fix v s' assume r: "told_desk = (Answered (Inr v), s')" and i: "tk_id (fst (fst v)) = ''0a1b2c3d0''"
  have s: "s' = snd told_desk" by (simp add: r)
  obtain t0 l0 where t0: "resolveOwnedTicket asked_desk ''u'' (JStr ''0a1b2c3d'') = Some (t0, l0)" "tk_id t0 = ''0a1b2c3d0''"
    using asked_ticket by blast
  obtain t l where t: "resolveOwnedTicket (snd told_desk) ''u'' (JStr ''0a1b2c3d'') = Some (t, l)" "tk_id t = ''0a1b2c3d0''"
    using told_ticket by blast
  have r': "replyToTicket (\<lambda>_ s. s) desk_sha 200 ''u'' (tell ''still'') asked_desk = (Answered (Inr v), snd told_desk)"
    using r unfolding told_desk_def by simp
  note q = allI [OF keeps_requests_quiet]
  note once = reply_request_runs_once [where later = "\<lambda>s. s" and now' = 900, OF r' commands(3) q
      keeps_requests_quiet _ _ desk_sha_inj]
  have "replyToTicket (\<lambda>_ s. s) desk_sha 900 ''u'' (tell ''still'') (snd told_desk)
         = (Answered (Inr ((t, l), snd v)), snd told_desk)"
    using once [OF commands(3), of t l t0 l0] t t0 i told_unique by simp
  moreover have "replyToTicket (\<lambda>_ s. s) desk_sha 900 ''u'' (tell ''other'') (snd told_desk)
         = (Answered (Inl SUPPORT_IDEMPOTENCY_CONFLICT), snd told_desk)"
    using once [OF commands(4), of t l t0 l0] t t0 i told_unique by simp
  ultimately show ?thesis using r s by metis
qed

section \<open>Closed tickets, books and pages\<close>

definition shut :: "db \<Rightarrow> db" where
  "shut s = s\<lparr>support_tickets := map (\<lambda>t. t\<lparr>tk_status := Ticket_CLOSED\<rparr>) (support_tickets s)\<rparr>"

lemma shut_ticket: "\<exists>t. support_tickets (shut asked_desk) = [t] \<and> tk_id t = ''0a1b2c3d0'' \<and> tk_status t = Ticket_CLOSED"
proof -
  have "case support_tickets (shut asked_desk) of [t] \<Rightarrow> tk_id t = ''0a1b2c3d0'' \<and> tk_status t = Ticket_CLOSED | _ \<Rightarrow> False"
    by code_simp
  then show ?thesis by (auto split: list.splits)
qed

theorem closed_ticket_takes_no_reply_witness:
  "\<exists>out s'. replyToTicket (\<lambda>n. if n = 3 then shut else (\<lambda>s. s)) desk_sha 200 ''u'' (tell ''still'') asked_desk = (out, s')
    \<and> out = Answered (Inl TICKET_CLOSED)
    \<and> (s' = asked_desk \<or> conversation s' ''0a1b2c3d0'' = conversation (shut asked_desk) ''0a1b2c3d0'')"
proof -
  let ?run = "replyToTicket (\<lambda>n. if n = 3 then shut else (\<lambda>s. s)) desk_sha 200 ''u'' (tell ''still'') asked_desk"
  obtain t where t: "support_tickets (shut asked_desk) = [t]" "tk_id t = ''0a1b2c3d0''" "tk_status t = Ticket_CLOSED"
    using shut_ticket by blast
  have o: "case fst ?run of Answered (Inl TICKET_CLOSED) \<Rightarrow> True | _ \<Rightarrow> False" by code_simp
  then obtain s' where r: "?run = (Answered (Inl TICKET_CLOSED), s')"
    by (cases ?run) (auto split: support_outcome.splits sum.splits SupportDomainError.splits)
  show ?thesis
    using closed_ticket_takes_no_reply [OF r, of t] t r by (simp add: unique_by_def)
qed

lemma desk_ok: "support_ok desk"
  by (simp add: support_ok_defs ids_drawn_def desk_def shop_defs empty_db_def unique_by_def fresh_for_def inj_def
      show_nat_inject)

theorem support_keeps_its_books_witness:
  "support_ok asked_desk \<and> support_ok (snd (replyToTicket (\<lambda>_ s. s) desk_sha 200 ''u'' (tell ''still'') desk))"
proof -
  have "\<forall>n s. support_ok s \<longrightarrow> support_ok ((\<lambda>_ s. s) n s)" by simp
  from support_keeps_its_books [OF this desk_ok] show ?thesis
    unfolding asked_desk_def asked_def by blast
qed

theorem pages_are_the_conversation_witness:
  "\<exists>t label. resolveOwnedTicket (snd told_desk) ''u'' (JStr ''0a1b2c3d'') = Some (t, label)
    \<and> concat (rev (read_back 3 (listOwnedTicketMessages (\<lambda>s. s) (snd told_desk) ''u'' (JStr ''0a1b2c3d'') 1) None))
        = sort_key message_position (conversation (snd told_desk) ''0a1b2c3d0'')
    \<and> length (conversation (snd told_desk) ''0a1b2c3d0'') = 2"
proof -
  obtain t label where t: "resolveOwnedTicket (snd told_desk) ''u'' (JStr ''0a1b2c3d'') = Some (t, label)" "tk_id t = ''0a1b2c3d0''"
    using told_ticket by blast
  have n: "length (conversation (snd told_desk) ''0a1b2c3d0'') = 2" by code_simp
  have "distinct (map sm_id (support_messages (snd told_desk)))" by code_simp
  then have u: "unique_by sm_id (support_messages (snd told_desk))" by (simp add: unique_by_def)
  show ?thesis
    using pages_are_the_conversation [OF t(1) _ u, of 1 3] t n by (simp add: Let_def)
qed

section \<open>The outbox\<close>

definition outbox :: db where
  "outbox = desk\<lparr>support_tickets := [sample_ticket\<lparr>tk_id := ''t''\<rparr>],
     support_intents := [sample_intent\<lparr>si_id := ''i'', si_ticketId := ''t'', si_messageId := ''m'',
       si_kind := ''support.ticket_created'', si_status := Intent_SENDING\<rparr>]\<rparr>"

definition due_outbox :: db where
  "due_outbox = outbox\<lparr>support_recipients := [sample_recipient\<lparr>sr_id := ''r'', sr_intentId := ''i'', sr_adminId := ''a''\<rparr>]\<rparr>"

lemma drawn_names: "''0a1b2c3d'' @ show_nat n \<noteq> ''r''"
  by simp

lemma outbox_ok: "recipients_ok outbox" "recipients_ok due_outbox"
  by (auto simp: recipients_ok_def due_outbox_def outbox_def desk_def shop_defs sample_defs empty_db_def unique_by_def
      fresh_for_def inj_def show_nat_inject)

lemma claim_won:
  assumes "fst (claim_recipient i now s) = 1"
  shows "outbox_step s (Recipient_claimed i) (snd (claim_recipient i now s))"
  using claim_step [of i now s 1] assms by (metis prod.collapse)

theorem claims_are_separated_witness:
  "\<exists>s'. outbox_run due_outbox ([] @ Recipient_claimed ''r'' # [Recipient_failed ''r''] @ Recipient_claimed ''r'' # []) s'
    \<and> (Recipient_failed ''r'' \<in> set [Recipient_failed ''r''] \<or> Claims_recovered \<in> set [Recipient_failed ''r''])"
proof -
  let ?s1 = "snd (claim_recipient ''r'' 10 due_outbox)"
  let ?s2 = "markRecipientFailed ''r'' 1 ''timeout'' 20 ?s1"
  have n: "fst (claim_recipient ''r'' 10 due_outbox) = 1" "fst (claim_recipient ''r'' 90000 ?s2) = 1" by code_simp+
  have "outbox_step due_outbox (Recipient_claimed ''r'') ?s1"
    using claim_won n(1) .
  moreover have "outbox_step ?s1 (Recipient_failed ''r'') ?s2" by (rule failed_step)
  moreover have "outbox_step ?s2 (Recipient_claimed ''r'') (snd (claim_recipient ''r'' 90000 ?s2))"
    using claim_won n(2) .
  ultimately have r: "outbox_run due_outbox ([] @ Recipient_claimed ''r'' # [Recipient_failed ''r''] @ Recipient_claimed ''r'' # [])
      (snd (claim_recipient ''r'' 90000 ?s2))"
    by (auto intro: run_cons run_nil)
  from claims_are_separated [OF r outbox_ok(2)] r show ?thesis by blast
qed

definition calm :: delivery_env where
  "calm = \<lparr>de_others = (\<lambda>_ _ _ s. s), de_collides = (\<lambda>_ _. False), de_send = (\<lambda>_ _. None), de_clock = (\<lambda>_ _. 50)\<rparr>"

definition told_outbox :: db where
  "told_outbox = due_outbox\<lparr>support_recipients := [sample_recipient\<lparr>sr_id := ''r'', sr_intentId := ''i'',
     sr_adminId := ''a'', sr_status := Recipient_SENT\<rparr>]\<rparr>"

theorem settled_recipients_stay_witness:
  "sample_recipient\<lparr>sr_id := ''r'', sr_intentId := ''i'', sr_adminId := ''a'', sr_status := Recipient_SENT\<rparr>
    \<in> set (support_recipients (snd (runSupportNotificationSweep (\<lambda>_ s. s) 40 calm told_outbox)))"
proof -
  have "follows (\<lambda>_ s. s)" "\<forall>k j. follows (de_others calm k j)" by (simp_all add: follows_def calm_def)
  from settled_recipients_stay [where s = told_outbox and now = 40, OF this disjI1, OF refl] show ?thesis
    by (simp add: told_outbox_def settled_status_def)
qed

theorem first_delivery_reaches_everyone_witness:
  "\<exists>result s'. deliverClaimedIntent (\<lambda>_ _ s. s) (\<lambda>_. False) (\<lambda>_. None) (\<lambda>_. 50)
      \<lparr>di_id = ''i'', di_kind = ''support.ticket_created'', di_attempts = 1, di_ticketId = ''t'', di_messageId = ''m''\<rparr> outbox
    = ((Some result, [''11'', ''22'']), s') \<and> dl_complete result"
proof -
  let ?d = "\<lparr>di_id = ''i'', di_kind = ''support.ticket_created'', di_attempts = 1, di_ticketId = ''t'', di_messageId = ''m''\<rparr>"
  have u: "unique_by ad_id (admins outbox)" "unique_by si_id (support_intents outbox)"
    "\<forall>r \<in> set (support_recipients outbox). sr_intentId r \<noteq> di_id ?d"
    by (simp_all add: outbox_def desk_def shop_defs sample_defs empty_db_def unique_by_def)
  obtain r where r: "r \<in> set (support_intents outbox)" "si_id r = di_id ?d" "si_status r = Intent_SENDING"
    "si_recipientsExpandedAt r = None"
    by (auto simp: outbox_def sample_intent_def)
  have k: "isSupportNotificationKind (di_kind ?d)" "rendered outbox (di_ticketId ?d)" by code_simp+
  have e: "map (\<lambda>a. show_int (ad_telegramId a)) (eligible outbox) = [''11'', ''22'']" by code_simp
  from first_delivery_reaches_everyone [OF outbox_ok(1) u r k, of "\<lambda>_. 50"] show ?thesis
    unfolding e by blast
qed

end
