(* ===== verification/ForceJoin.thy ===== *)
theory ForceJoin
  imports ServiceLock Database "HOL-Library.Product_Lexorder" "HOL-Library.List_Lexorder"
begin

text \<open>
  packages/force-join/src: whether a user is a member of every required channel (membership.ts), the health
  of a channel that the bot can no longer see and its retirement (channel-policy.ts), and the durable event
  that tells the owner (ops-outbox.ts); with the rule of membership of packages/shared/src/force-join.ts.
  What Telegram answers for a channel is an argument. The verdicts are cached in the Redis of the service
  lock; its clock and every other clock of a request are one. The channels of one request are checked one
  after the other.
\<close>

section \<open>Membership\<close>

definition isForceJoinMembershipActive :: "string \<Rightarrow> bool option \<Rightarrow> bool" where
  "isForceJoinMembershipActive status isMember \<longleftrightarrow>
     (if status \<in> {''creator'', ''administrator'', ''member''} then True
      else if status = ''restricted'' then isMember = Some True else False)"

fun js_includes :: "string \<Rightarrow> string \<Rightarrow> bool" where
  "js_includes [] m \<longleftrightarrow> m = []"
| "js_includes (c # r) m \<longleftrightarrow> starts_with (c # r) m \<or> js_includes r m"

datatype member_answer = Member string "bool option" | ApiError "int option" string

datatype error_class = Class_TEMP | Class_NOT_JOINED | Class_UNVERIFIABLE

definition botAccessMarkers :: "string list" where
  "botAccessMarkers =
     [''chat not found'', ''chat_not_found'', ''bot is not a member'', ''bot is not a participant'',
      ''member list is inaccessible'', ''not enough rights'', ''chat_admin_required'', ''channel_private'',
      ''channel_invalid'', ''peer_id_invalid'', ''chat_id_invalid'', ''bot was kicked'', ''bot was blocked'',
      ''the group chat was deleted'', ''have no rights'', ''forbidden'']"

definition userNotParticipantMarkers :: "string list" where
  "userNotParticipantMarkers =
     [''user_not_participant'', ''user not participant'', ''user is not a participant'', ''participant_id_invalid'']"

definition classifyMemberCheckError :: "int option \<Rightarrow> string \<Rightarrow> error_class" where
  "classifyMemberCheckError code description =
     (let desc = js_lower description in
      if case code of Some n \<Rightarrow> n = 429 \<or> 500 \<le> n | None \<Rightarrow> False then Class_TEMP
      else if list_ex (js_includes desc) botAccessMarkers then Class_UNVERIFIABLE
      else if list_ex (js_includes desc) userNotParticipantMarkers then Class_NOT_JOINED
      else if case code of Some n \<Rightarrow> 400 \<le> n \<and> n < 500 | None \<Rightarrow> False then Class_UNVERIFIABLE
      else Class_TEMP)"

section \<open>The health of a channel\<close>

definition FORCE_JOIN_ENABLED_KEY :: string where "FORCE_JOIN_ENABLED_KEY = ''force_join_enabled''"
definition FORCE_JOIN_HEALTH_FAILURE_THRESHOLD :: int where "FORCE_JOIN_HEALTH_FAILURE_THRESHOLD = 5"
definition FORCE_JOIN_HEALTH_MIN_WINDOW_MS :: int where "FORCE_JOIN_HEALTH_MIN_WINDOW_MS = 10 * 60000"
definition FORCE_JOIN_HEALTH_RESET_MS :: int where "FORCE_JOIN_HEALTH_RESET_MS = 60 * 60000"
definition FORCE_JOIN_HEALTH_COUNT_DEBOUNCE_MS :: int where "FORCE_JOIN_HEALTH_COUNT_DEBOUNCE_MS = 5000"

definition isTruthySetting :: "string option \<Rightarrow> bool" where
  "isTruthySetting v = (case v of None \<Rightarrow> False | Some s \<Rightarrow> js_lower s \<in> {''true'', ''1'', ''yes''})"

definition upsert_setting :: "string \<Rightarrow> string \<Rightarrow> db \<Rightarrow> db" where
  "upsert_setting key v s =
     (if \<exists>r \<in> set (settings s). st_key r = key
      then s\<lparr>settings := update_where (\<lambda>r. st_key r = key) (\<lambda>r. r\<lparr>st_value := v\<rparr>) (settings s)\<rparr>
      else s\<lparr>settings := settings s @ [\<lparr>st_key = key, st_value = v, st_isPublic = False\<rparr>]\<rparr>)"

definition listActiveChannels :: "db \<Rightarrow> channel_row list" where
  "listActiveChannels s =
     sort_key (\<lambda>c. (fc_sortOrder c, fc_createdAt c, fc_id c)) (filter fc_isActive (channels s))"

definition update_channel :: "string \<Rightarrow> int \<Rightarrow> (channel_row \<Rightarrow> channel_row) \<Rightarrow> db \<Rightarrow> db" where
  "update_channel i now f s =
     s\<lparr>channels := update_where (\<lambda>c. fc_id c = i) (\<lambda>c. (f c)\<lparr>fc_updatedAt := now\<rparr>) (channels s)\<rparr>"

definition recordValidationError :: "string \<Rightarrow> string \<Rightarrow> int \<Rightarrow> db \<Rightarrow> db" where
  "recordValidationError i code now =
     update_channel i now (\<lambda>c. c\<lparr>fc_lastValidatedAt := Some now, fc_lastValidationErrorCode := Some code\<rparr>)"

definition CHANNEL_RETIRED :: string where "CHANNEL_RETIRED = ''force_join.channel_auto_deactivated''"
definition AUTO_DISABLED :: string where "AUTO_DISABLED = ''force_join.auto_disabled''"
definition FORCE_JOIN_OPS_TOPIC :: string where "FORCE_JOIN_OPS_TOPIC = ''SYSTEM''"
definition LOG_GROUP_CHAT_ID_KEY :: string where "LOG_GROUP_CHAT_ID_KEY = ''log_group_chat_id''"

text \<open>The log row and, where there is a group to tell, its delivery. Message and metadata are not modelled.\<close>

definition writeForceJoinOpsEvent :: "SystemLogLevel \<Rightarrow> string \<Rightarrow> ('e, unit) tx" where
  "writeForceJoinOpsEvent level eventType =
     tx_bind (tx_do draw_id) (\<lambda>i.
     tx_bind (tx_write (\<lambda>s. s\<lparr>system_logs := system_logs s @ [\<lparr>sl_id = i, sl_level = level, sl_eventType = eventType\<rparr>]\<rparr>)) (\<lambda>_.
     tx_bind (tx_read (\<lambda>s. find (\<lambda>t. lt_key t = FORCE_JOIN_OPS_TOPIC) (log_topics s))) (\<lambda>topic.
     case topic of
       None \<Rightarrow> tx_return ()
     | Some t \<Rightarrow>
         if \<not> lt_isEnabled t then tx_return ()
         else tx_bind (tx_read (\<lambda>s. setting_value LOG_GROUP_CHAT_ID_KEY s)) (\<lambda>logGroup.
           if js_trim (case logGroup of None \<Rightarrow> '''' | Some v \<Rightarrow> v) = '''' then tx_return ()
           else tx_bind (tx_do draw_id) (\<lambda>d.
             tx_write (\<lambda>s. if \<exists>r \<in> set (log_deliveries s). ld_systemLogId r = i \<and> ld_logTopicId r = Some (lt_id t) then s
               else s\<lparr>log_deliveries := log_deliveries s @ [\<lparr>ld_id = d, ld_systemLogId = i, ld_logTopicId = Some (lt_id t)\<rparr>]\<rparr>))))))"

datatype HealthFailureOutcome = COUNTED int | RETIRED bool | NOOP

text \<open>The window of failures after one more at \<open>now\<close>: when it began, and how many it holds.\<close>

definition failure_window :: "int \<Rightarrow> channel_row \<Rightarrow> int \<times> int" where
  "failure_window now row =
     (let fresh = (case fc_healthFailureLastAt row of None \<Rightarrow> True | Some t \<Rightarrow> FORCE_JOIN_HEALTH_RESET_MS < now - t)
      in if fresh then (now, 1)
         else (case fc_healthFailureFirstAt row of None \<Rightarrow> now | Some t \<Rightarrow> t, fc_healthFailureCount row + 1))"

definition failed_channel :: "int \<Rightarrow> int \<times> int \<Rightarrow> string \<Rightarrow> channel_row \<Rightarrow> channel_row" where
  "failed_channel now window errorClass c =
     c\<lparr>fc_healthFailureCount := snd window, fc_healthFailureFirstAt := Some (fst window),
       fc_healthFailureLastAt := Some now, fc_lastValidatedAt := Some now,
       fc_lastValidationErrorCode := Some errorClass\<rparr>"

definition retired_channel :: "int \<Rightarrow> int \<times> int \<Rightarrow> string \<Rightarrow> channel_row \<Rightarrow> channel_row" where
  "retired_channel now window errorClass c =
     (failed_channel now window errorClass c)\<lparr>fc_isActive := False, fc_unhealthyAt := Some now\<rparr>"

definition debounced :: "int \<Rightarrow> channel_row \<Rightarrow> bool" where
  "debounced now row =
     (case fc_healthFailureLastAt row of None \<Rightarrow> False | Some t \<Rightarrow> now - t < FORCE_JOIN_HEALTH_COUNT_DEBOUNCE_MS)"

definition retires :: "int \<Rightarrow> int \<times> int \<Rightarrow> bool" where
  "retires now window \<longleftrightarrow> FORCE_JOIN_HEALTH_FAILURE_THRESHOLD \<le> snd window
     \<and> FORCE_JOIN_HEALTH_MIN_WINDOW_MS \<le> now - fst window"

definition retire_channel :: "string \<Rightarrow> string \<Rightarrow> int \<Rightarrow> int \<times> int \<Rightarrow> (unit, HealthFailureOutcome) tx" where
  "retire_channel i errorClass now window =
     tx_bind (tx_read (\<lambda>s. count_where (\<lambda>c. fc_isActive c \<and> fc_id c \<noteq> i) (channels s))) (\<lambda>remainingActive.
     tx_bind (tx_read (\<lambda>s. isTruthySetting (setting_value FORCE_JOIN_ENABLED_KEY s))) (\<lambda>enabled.
     let forceJoinDisabled = (enabled \<and> remainingActive = 0) in
     tx_bind (tx_write (\<lambda>s. if forceJoinDisabled then upsert_setting FORCE_JOIN_ENABLED_KEY ''false'' s else s)) (\<lambda>_.
     tx_bind (tx_write (update_channel i now (retired_channel now window errorClass))) (\<lambda>_.
     tx_bind (writeForceJoinOpsEvent Log_ERROR CHANNEL_RETIRED) (\<lambda>_.
     tx_bind (if forceJoinDisabled then writeForceJoinOpsEvent Log_ERROR AUTO_DISABLED else tx_return ()) (\<lambda>_.
       tx_return (RETIRED forceJoinDisabled)))))))"

definition health_failure :: "string \<Rightarrow> string \<Rightarrow> int \<Rightarrow> (unit, HealthFailureOutcome) tx" where
  "health_failure i errorClass now =
     tx_bind (tx_read (\<lambda>s. find (\<lambda>c. fc_id c = i) (channels s))) (\<lambda>found.
     case found of
       None \<Rightarrow> tx_return NOOP
     | Some row \<Rightarrow>
         if \<not> fc_isActive row then tx_return NOOP
         else if debounced now row then tx_return (COUNTED (fc_healthFailureCount row))
         else let window = failure_window now row in
           if \<not> retires now window
           then tx_bind (tx_write (update_channel i now (failed_channel now window errorClass))) (\<lambda>_.
             tx_return (COUNTED (snd window)))
           else retire_channel i errorClass now window)"

text \<open>\<open>broken\<close> says that the backend fails the transaction; bookkeeping never fails its caller.\<close>

definition recordChannelHealthFailure :: "bool \<Rightarrow> string \<Rightarrow> string \<Rightarrow> int \<Rightarrow> db \<Rightarrow> HealthFailureOutcome \<times> db" where
  "recordChannelHealthFailure broken i errorClass now s =
     (if broken then (NOOP, s)
      else case run_transaction (health_failure i errorClass now) s of
        (Inr outcome, s') \<Rightarrow> (outcome, s') | (Inl _, s') \<Rightarrow> (NOOP, s'))"

definition recovered_channel :: "channel_row \<Rightarrow> channel_row" where
  "recovered_channel c =
     c\<lparr>fc_healthFailureCount := 0, fc_healthFailureFirstAt := None, fc_healthFailureLastAt := None,
       fc_unhealthyAt := None\<rparr>"

definition recordChannelHealthSuccess :: "bool \<Rightarrow> string \<Rightarrow> int \<Rightarrow> db \<Rightarrow> db" where
  "recordChannelHealthSuccess broken i now s =
     (if broken then s
      else s\<lparr>channels := update_where (\<lambda>c. fc_id c = i \<and> fc_isActive c \<and> 0 < fc_healthFailureCount c)
        (\<lambda>c. (recovered_channel c)\<lparr>fc_updatedAt := now\<rparr>) (channels s)\<rparr>)"

section \<open>The check of one channel\<close>

definition JOINED_TTL_S :: int where "JOINED_TTL_S = 90"
definition NOT_JOINED_TTL_S :: int where "NOT_JOINED_TTL_S = 10"
definition ALERT_WINDOW_S :: int where "ALERT_WINDOW_S = 3600"
definition CHECK_DEBOUNCE_S :: int where "CHECK_DEBOUNCE_S = 4"

definition membershipKey :: "int \<Rightarrow> channel_row \<Rightarrow> string" where
  "membershipKey userTelegramId channel =
     ''fj:m:'' @ show_int userTelegramId @ '':'' @ fc_id channel @ '':'' @ show_int (fc_updatedAt channel)"

text \<open>
  What a request meets: the answers of Telegram, the fate of its Redis commands, whether the backend fails
  its transactions, and what other processes do to the database before its next statement on a channel.
\<close>

record join_env =
  je_answer :: "channel_row \<Rightarrow> member_answer"
  je_configured :: bool
  je_get :: "string \<Rightarrow> fault"
  je_set :: "string \<Rightarrow> fault"
  je_alert :: "string \<Rightarrow> fault"
  je_broken :: "string \<Rightarrow> bool"
  je_others :: "string \<Rightarrow> db \<Rightarrow> db"

record join_state =
  jn_redis :: redis
  jn_db :: db
  jn_memAlerts :: "string \<Rightarrow> int option"
  jn_alerts :: "(string \<times> string \<times> bool) list"

definition set_ex :: "string \<Rightarrow> string \<Rightarrow> int \<Rightarrow> redis \<Rightarrow> unit \<times> redis" where
  "set_ex key v ttlS r = ((), put key (Some (v, rd_now r + ttlS * 1000)) r)"

definition cacheGet :: "join_env \<Rightarrow> string \<Rightarrow> string \<Rightarrow> join_state \<Rightarrow> string option" where
  "cacheGet env i key st =
     (if \<not> je_configured env then None
      else case fst (commandWithTimeout (je_get env i) (\<lambda>r. (live r key, r)) (jn_redis st)) of
        None \<Rightarrow> None | Some v \<Rightarrow> v)"

definition cacheSet :: "join_env \<Rightarrow> string \<Rightarrow> string \<Rightarrow> string \<Rightarrow> int \<Rightarrow> join_state \<Rightarrow> join_state" where
  "cacheSet env i key v ttlS st =
     (if \<not> je_configured env then st
      else st\<lparr>jn_redis := snd (commandWithTimeout (je_set env i) (set_ex key v ttlS) (jn_redis st))\<rparr>)"

datatype ChannelCheck = JOINED | NOT_JOINED | TEMP | UNVERIFIABLE

definition asked_telegram :: "join_env \<Rightarrow> int \<Rightarrow> channel_row \<Rightarrow> join_state \<Rightarrow> ChannelCheck \<times> join_state" where
  "asked_telegram env userTelegramId channel st =
     (let key = membershipKey userTelegramId channel; i = fc_id channel in
      case je_answer env channel of
        ApiError code description \<Rightarrow>
          (case classifyMemberCheckError code description of
             Class_TEMP \<Rightarrow> (TEMP, st)
           | Class_UNVERIFIABLE \<Rightarrow> (UNVERIFIABLE, st)
           | Class_NOT_JOINED \<Rightarrow> (NOT_JOINED, cacheSet env i key ''0'' NOT_JOINED_TTL_S st))
      | Member status isMember \<Rightarrow>
          let st1 = (if 0 < fc_healthFailureCount channel
            then st\<lparr>jn_db := recordChannelHealthSuccess (je_broken env i) i (rd_now (jn_redis st)) (je_others env i (jn_db st))\<rparr>
            else st) in
          if isForceJoinMembershipActive status isMember then (JOINED, cacheSet env i key ''1'' JOINED_TTL_S st1)
          else (NOT_JOINED, cacheSet env i key ''0'' NOT_JOINED_TTL_S st1))"

definition checkChannel :: "join_env \<Rightarrow> int \<Rightarrow> bool \<Rightarrow> channel_row \<Rightarrow> join_state \<Rightarrow> ChannelCheck \<times> join_state" where
  "checkChannel env userTelegramId bypassNegativeCache channel st =
     (let cached = cacheGet env (fc_id channel) (membershipKey userTelegramId channel) st in
      if cached = Some ''1'' then (JOINED, st)
      else if cached = Some ''0'' \<and> \<not> bypassNegativeCache then (NOT_JOINED, st)
      else asked_telegram env userTelegramId channel st)"

fun check_channels ::
  "join_env \<Rightarrow> int \<Rightarrow> bool \<Rightarrow> channel_row list \<Rightarrow> join_state \<Rightarrow> (channel_row \<times> ChannelCheck) list \<times> join_state" where
  "check_channels env userTelegramId bypass [] st = ([], st)"
| "check_channels env userTelegramId bypass (c # cs) st =
     (case checkChannel env userTelegramId bypass c st of
        (v, st1) \<Rightarrow> (case check_channels env userTelegramId bypass cs st1 of (vs, st2) \<Rightarrow> ((c, v) # vs, st2)))"

section \<open>Alerts\<close>

definition alertKey :: "string \<Rightarrow> string \<Rightarrow> string" where
  "alertKey channelId errorClass = ''fj:alert:'' @ channelId @ '':'' @ errorClass"

definition shouldEmitChannelAlert :: "join_env \<Rightarrow> string \<Rightarrow> string \<Rightarrow> join_state \<Rightarrow> bool \<times> join_state" where
  "shouldEmitChannelAlert env channelId errorClass st =
     (let key = alertKey channelId errorClass;
          r = (if je_configured env
               then commandWithTimeout (je_alert env channelId) (set_nx_px key ''1'' (ALERT_WINDOW_S * 1000)) (jn_redis st)
               else (None, jn_redis st));
          st1 = st\<lparr>jn_redis := snd r\<rparr>; now = rd_now (jn_redis st) in
      case fst r of
        Some fresh \<Rightarrow> (fresh, st1)
      | None \<Rightarrow>
          if case jn_memAlerts st key of Some expiry \<Rightarrow> now < expiry | None \<Rightarrow> False then (False, st1)
          else (True, st1\<lparr>jn_memAlerts := (jn_memAlerts st)(key \<mapsto> now + ALERT_WINDOW_S * 1000)\<rparr>))"

definition emitUnverifiableAlert :: "join_env \<Rightarrow> channel_row \<Rightarrow> string \<Rightarrow> join_state \<Rightarrow> join_state" where
  "emitUnverifiableAlert env channel errorClass st =
     (case shouldEmitChannelAlert env (fc_id channel) errorClass st of
        (False, st1) \<Rightarrow> st1
      | (True, st1) \<Rightarrow>
          st1\<lparr>jn_db := (if je_broken env (fc_id channel) then jn_db st1
              else recordValidationError (fc_id channel) errorClass (rd_now (jn_redis st1)) (jn_db st1)),
            jn_alerts := jn_alerts st1 @ [(fc_id channel, errorClass, fc_isPrivate channel)]\<rparr>)"

definition handleUnverifiableChannel :: "join_env \<Rightarrow> channel_row \<Rightarrow> join_state \<Rightarrow> join_state" where
  "handleUnverifiableChannel env channel st =
     (let st1 = emitUnverifiableAlert env channel ''UNVERIFIABLE'' st in
      st1\<lparr>jn_db := snd (recordChannelHealthFailure (je_broken env (fc_id channel)) (fc_id channel) ''UNVERIFIABLE''
        (rd_now (jn_redis st1)) (je_others env (fc_id channel) (jn_db st1)))\<rparr>)"

definition acquireForceJoinCheckSlot :: "bool \<Rightarrow> fault \<Rightarrow> int \<Rightarrow> redis \<Rightarrow> bool \<times> redis" where
  "acquireForceJoinCheckSlot configured f userTelegramId r =
     (if \<not> configured then (True, r)
      else case commandWithTimeout f (set_nx_px (''fj:debounce:'' @ show_int userTelegramId) ''1'' (CHECK_DEBOUNCE_S * 1000)) r of
        (None, r1) \<Rightarrow> (True, r1) | (Some b, r1) \<Rightarrow> (b, r1))"

section \<open>The gate\<close>

datatype ForceJoinGateOutcome = PASS | MISSING "channel_row list" | TEMP_FAILURE

definition evaluateForceJoinMembership ::
  "join_env \<Rightarrow> int \<Rightarrow> channel_row list \<Rightarrow> bool \<Rightarrow> join_state \<Rightarrow> ForceJoinGateOutcome \<times> join_state" where
  "evaluateForceJoinMembership env userTelegramId cs bypassNegativeCache st =
     (case check_channels env userTelegramId bypassNegativeCache cs st of
        (results, st1) \<Rightarrow>
          let missing = map fst (filter (\<lambda>r. snd r = NOT_JOINED) results);
              tempFailure = list_ex (\<lambda>r. snd r = TEMP) results;
              st2 = fold (handleUnverifiableChannel env) (map fst (filter (\<lambda>r. snd r = UNVERIFIABLE) results)) st1 in
          (if missing \<noteq> [] then MISSING missing else if tempFailure then TEMP_FAILURE else PASS, st2))"

end
