(* ===== verification/MiniAppSession.thy ===== *)
theory MiniAppSession
  imports Quote "HOL-Library.List_Lexorder"
begin

text \<open>
  packages/shared/src/miniapp-initdata.ts and miniapp-session.ts: who a caller of the Mini App is. The
  signed text that Telegram hands to the page is validated once, and a signed token then stands for the
  user. In this theory a string stands for its UTF-8 bytes, one character for each. HMAC-SHA-256 and scrypt
  are the fields of the record \<open>web_crypto\<close>.
\<close>

section \<open>Text\<close>

record web_crypto = crypto +
  cr_hmac :: "byte list \<Rightarrow> string \<Rightarrow> byte list"

definition text_bytes :: "string \<Rightarrow> byte list" where
  "text_bytes s = map (\<lambda>c. of_nat (char_code c)) s"

definition text_of_bytes :: "byte list \<Rightarrow> string" where
  "text_of_bytes bs = map (\<lambda>b. char_of (unat b)) bs"

fun js_split :: "char \<Rightarrow> string \<Rightarrow> string list" where
  "js_split sep [] = [[]]"
| "js_split sep (c # r) =
     (if c = sep then [] # js_split sep r
      else case js_split sep r of [] \<Rightarrow> [[c]] | x # xs \<Rightarrow> (c # x) # xs)"

text \<open>
  What a lead byte of UTF-8 announces: how many bytes follow it, and the range of the first of them. The
  ranges leave out overlong forms, surrogates and what is beyond the last code point.
\<close>

definition utf8_lead :: "char \<Rightarrow> (nat \<times> nat \<times> nat) option" where
  "utf8_lead c =
     (let n = char_code c in
      if 194 \<le> n \<and> n \<le> 223 then Some (1, 128, 191)
      else if n = 224 then Some (2, 160, 191)
      else if n = 237 then Some (2, 128, 159)
      else if 225 \<le> n \<and> n \<le> 239 then Some (2, 128, 191)
      else if n = 240 then Some (3, 144, 191)
      else if 241 \<le> n \<and> n \<le> 243 then Some (3, 128, 191)
      else if n = 244 then Some (3, 128, 143)
      else None)"

text \<open>\<open>Buffer.toString("utf8")\<close>: what is not UTF-8 reads as U+FFFD.\<close>

definition REPLACEMENT :: string where "REPLACEMENT = [CHR 0xEF, CHR 0xBF, CHR 0xBD]"

fun utf8_lossy :: "string \<Rightarrow> nat \<times> nat \<times> nat \<Rightarrow> string \<Rightarrow> string" where
  "utf8_lossy p _ [] = (if p = [] then [] else REPLACEMENT)"
| "utf8_lossy p (n, lo, hi) (c # r) =
     (if p \<noteq> [] \<and> lo \<le> char_code c \<and> char_code c \<le> hi
      then (if n = 1 then p @ c # utf8_lossy [] (0, 0, 0) r else utf8_lossy (p @ [c]) (n - 1, 128, 191) r)
      else (if p = [] then [] else REPLACEMENT) @
        (if char_code c < 128 then c # utf8_lossy [] (0, 0, 0) r
         else case utf8_lead c of
           None \<Rightarrow> REPLACEMENT @ utf8_lossy [] (0, 0, 0) r
         | Some w \<Rightarrow> utf8_lossy [c] w r))"

definition utf8_text :: "byte list \<Rightarrow> string" where
  "utf8_text bs = utf8_lossy [] (0, 0, 0) (text_of_bytes bs)"

text \<open>\<open>decodeURIComponent\<close>: the escapes, and whether they spell UTF-8.\<close>

fun pct_escapes :: "string \<Rightarrow> (bool \<times> char) list option" where
  "pct_escapes [] = Some []"
| "pct_escapes (c # r) =
     (if c \<noteq> CHR ''%'' then map_option (Cons (False, c)) (pct_escapes r)
      else case r of
        a # b # r' \<Rightarrow>
          (case (radix_digit 16 a, radix_digit 16 b) of
             (Some x, Some y) \<Rightarrow> map_option (Cons (True, char_of (16 * x + y))) (pct_escapes r')
           | _ \<Rightarrow> None)
      | _ \<Rightarrow> None)"

fun escapes_ok :: "nat \<times> nat \<times> nat \<Rightarrow> (bool \<times> char) list \<Rightarrow> bool" where
  "escapes_ok (n, _, _) [] \<longleftrightarrow> n = 0"
| "escapes_ok (Suc n, lo, hi) ((escaped, c) # r) \<longleftrightarrow>
     escaped \<and> lo \<le> char_code c \<and> char_code c \<le> hi \<and> escapes_ok (n, 128, 191) r"
| "escapes_ok (0, _, _) ((escaped, c) # r) \<longleftrightarrow>
     (if \<not> escaped \<or> char_code c < 128 then escapes_ok (0, 0, 0) r
      else case utf8_lead c of None \<Rightarrow> False | Some w \<Rightarrow> escapes_ok w r)"

definition decodeURIComponent :: "string \<Rightarrow> string option" where
  "decodeURIComponent s =
     (case pct_escapes s of
        None \<Rightarrow> None
      | Some es \<Rightarrow> if escapes_ok (0, 0, 0) es then Some (map snd es) else None)"

definition decodeComponent :: "string \<Rightarrow> string option" where
  "decodeComponent raw = decodeURIComponent (map (\<lambda>c. if c = CHR ''+'' then CHR '' '' else c) raw)"

section \<open>The signed text of Telegram\<close>

definition MINIAPP_INITDATA_MAX_BYTES :: nat where "MINIAPP_INITDATA_MAX_BYTES = 8 * 1024"
definition MINIAPP_INITDATA_DEFAULT_MAX_AGE_SECONDS :: int where
  "MINIAPP_INITDATA_DEFAULT_MAX_AGE_SECONDS = 300"
definition MINIAPP_INITDATA_MAX_FUTURE_SKEW_SECONDS :: int where
  "MINIAPP_INITDATA_MAX_FUTURE_SKEW_SECONDS = 30"

datatype MiniAppInitDataFailure = InitData_EMPTY | TOO_LARGE | MALFORMED_ENCODING | DUPLICATE_KEY | MISSING_HASH
  | MALFORMED_HASH | MISSING_AUTH_DATE | MALFORMED_AUTH_DATE | InitData_EXPIRED | FUTURE_AUTH_DATE | MISSING_USER
  | MALFORMED_USER | InitData_BAD_SIGNATURE

type_synonym field_pairs = "(string \<times> string) list"

definition before_eq :: "string \<Rightarrow> string" where "before_eq chunk = takeWhile (\<lambda>c. c \<noteq> CHR ''='') chunk"
definition after_eq :: "string \<Rightarrow> string" where "after_eq chunk = tl (dropWhile (\<lambda>c. c \<noteq> CHR ''='') chunk)"

fun parse_chunks :: "string list \<Rightarrow> field_pairs \<Rightarrow> MiniAppInitDataFailure + field_pairs" where
  "parse_chunks [] pairs = Inr pairs"
| "parse_chunks (chunk # chunks) pairs =
     (if chunk = [] then parse_chunks chunks pairs
      else if CHR ''='' \<notin> set chunk \<or> before_eq chunk = [] then Inl MALFORMED_ENCODING
      else case (decodeComponent (before_eq chunk), decodeComponent (after_eq chunk)) of
        (Some key, Some val) \<Rightarrow>
          if key \<in> fst ` set pairs then Inl DUPLICATE_KEY else parse_chunks chunks (pairs @ [(key, val)])
      | _ \<Rightarrow> Inl MALFORMED_ENCODING)"

definition parseStrict :: "string \<Rightarrow> MiniAppInitDataFailure + field_pairs" where
  "parseStrict initData = parse_chunks (js_split CHR ''&'' initData) []"

text \<open>
  Strings compare by UTF-16 code units. On UTF-8 bytes this is the order of the bytes but for the leads of
  the code points beyond U+FFFF, which come before those of U+E000 to U+FFFF.
\<close>

definition utf16_rank :: "char \<Rightarrow> nat" where
  "utf16_rank c =
     (let n = char_code c in if 240 \<le> n then n - 2 else if 238 \<le> n then n + 16 else n)"

definition sorted_fields :: "field_pairs \<Rightarrow> field_pairs" where
  "sorted_fields pairs = sort_key (\<lambda>p. map utf16_rank (fst p)) pairs"

definition field_line :: "string \<times> string \<Rightarrow> string" where
  "field_line p = fst p @ CHR ''='' # snd p"

definition buildBotTokenCheckString :: "field_pairs \<Rightarrow> string" where
  "buildBotTokenCheckString pairs =
     js_join [CHR 0x0A] (map field_line (sorted_fields (filter (\<lambda>p. fst p \<noteq> ''hash'') pairs)))"

definition buildThirdPartyCheckString :: "field_pairs \<Rightarrow> string \<Rightarrow> string" where
  "buildThirdPartyCheckString pairs botId =
     botId @ '':WebAppData'' @ [CHR 0x0A] @ js_join [CHR 0x0A]
       (map field_line (sorted_fields (filter (\<lambda>p. fst p \<noteq> ''hash'' \<and> fst p \<noteq> ''signature'') pairs)))"

text \<open>
  The identifier is the first match of \<open>"id"\s*:\s*(-?\d+)\<close>. A white space outside ASCII between the
  tokens is not JSON, so such a text is refused in any case.
\<close>

definition ascii_ws :: "char \<Rightarrow> bool" where
  "ascii_ws c \<longleftrightarrow> char_code c = 32 \<or> 9 \<le> char_code c \<and> char_code c \<le> 13"

definition match_id :: "string \<Rightarrow> int option" where
  "match_id s =
     (let q = [CHR 0x22, CHR ''i'', CHR ''d'', CHR 0x22];
          t = dropWhile ascii_ws (drop (length q) s);
          v = dropWhile ascii_ws (tl t);
          negative = (v \<noteq> [] \<and> hd v = CHR ''-'');
          digits = takeWhile is_digit (if negative then tl v else v)
      in if starts_with s q \<and> t \<noteq> [] \<and> hd t = CHR '':'' \<and> digits \<noteq> []
         then Some (if negative then - int (read_nat digits) else int (read_nat digits)) else None)"

fun first_id :: "string \<Rightarrow> int option" where
  "first_id [] = None"
| "first_id (c # r) = (case match_id (c # r) of Some i \<Rightarrow> Some i | None \<Rightarrow> first_id r)"

definition extractTelegramId :: "string \<Rightarrow> int option" where
  "extractTelegramId rawUserJson =
     (case first_id rawUserJson of None \<Rightarrow> None | Some i \<Rightarrow> if 0 < i then Some i else None)"

text \<open>
  Whether a text is the JSON of an object. Its escapes of code points are blanked out first: which one is
  meant does not matter.
\<close>

fun blank_escapes :: "string \<Rightarrow> string" where
  "blank_escapes [] = []"
| "blank_escapes (c # r) =
     (if c \<noteq> CHR 0x5C then c # blank_escapes r
      else case r of
        u # a # b # d # e # r' \<Rightarrow>
          if u = CHR ''u'' \<and> (\<forall>x \<in> set [a, b, d, e]. radix_digit 16 x \<noteq> None) then CHR ''x'' # blank_escapes r'
          else c # u # blank_escapes (a # b # d # e # r')
      | u # r' \<Rightarrow> c # u # blank_escapes r'
      | [] \<Rightarrow> [c])"

definition json_object_text :: "string \<Rightarrow> bool" where
  "json_object_text raw = (case json_parse (blank_escapes raw) of Some (JObj _) \<Rightarrow> True | _ \<Rightarrow> False)"

definition hash_pattern :: "string \<Rightarrow> bool" where
  "hash_pattern h \<longleftrightarrow> length h = 64 \<and> (\<forall>c \<in> set h. is_digit c \<or> 97 \<le> char_code c \<and> char_code c \<le> 102)"

definition up_to_15_digits :: "string \<Rightarrow> bool" where
  "up_to_15_digits s \<longleftrightarrow> s \<noteq> [] \<and> length s \<le> 15 \<and> list_all is_digit s"

fun hex_bytes :: "string \<Rightarrow> byte list" where
  "hex_bytes (a # b # r) =
     (case (radix_digit 16 a, radix_digit 16 b) of
        (Some x, Some y) \<Rightarrow> of_nat (16 * x + y) # hex_bytes r | _ \<Rightarrow> [])"
| "hex_bytes _ = []"

record init_data_user =
  iu_telegramId :: int
  iu_authDateSeconds :: int

definition init_data_signature :: "web_crypto \<Rightarrow> string \<Rightarrow> field_pairs \<Rightarrow> byte list" where
  "init_data_signature cr botToken pairs =
     cr_hmac cr (cr_hmac cr (text_bytes ''WebAppData'') botToken) (buildBotTokenCheckString pairs)"

definition absent :: "string option \<Rightarrow> bool" where
  "absent v \<longleftrightarrow> v = None \<or> v = Some []"

text \<open>Of the user only the identifier is kept; the names are not modelled.\<close>

definition validateMiniAppInitData ::
  "web_crypto \<Rightarrow> string \<Rightarrow> int \<Rightarrow> int \<Rightarrow> string \<Rightarrow> MiniAppInitDataFailure + init_data_user" where
  "validateMiniAppInitData cr botToken maxAge now initData =
     (if initData = [] then Inl InitData_EMPTY
      else if MINIAPP_INITDATA_MAX_BYTES < length initData then Inl TOO_LARGE
      else case parseStrict initData of
        Inl e \<Rightarrow> Inl e
      | Inr pairs \<Rightarrow>
          let hash = map_of pairs ''hash''; authDate = map_of pairs ''auth_date''; user = map_of pairs ''user'' in
          if absent hash then Inl MISSING_HASH
          else if \<not> hash_pattern (the hash) then Inl MALFORMED_HASH
          else if absent authDate then Inl MISSING_AUTH_DATE
          else if \<not> up_to_15_digits (the authDate) \<or> read_nat (the authDate) = 0 then Inl MALFORMED_AUTH_DATE
          else if absent user then Inl MISSING_USER
          else if hex_bytes (the hash) \<noteq> init_data_signature cr botToken pairs then Inl InitData_BAD_SIGNATURE
          else let seconds = int (read_nat (the authDate)) in
            if now + MINIAPP_INITDATA_MAX_FUTURE_SKEW_SECONDS < seconds then Inl FUTURE_AUTH_DATE
            else if maxAge < now - seconds then Inl InitData_EXPIRED
            else case extractTelegramId (the user) of
              None \<Rightarrow> Inl MALFORMED_USER
            | Some i \<Rightarrow>
                if json_object_text (the user)
                then Inr \<lparr>iu_telegramId = i, iu_authDateSeconds = seconds\<rparr> else Inl MALFORMED_USER)"

section \<open>The session token\<close>

definition SESSION_KEY_CONTEXT :: string where "SESSION_KEY_CONTEXT = ''zedbot.miniapp.session.v1''"
definition MINIAPP_SESSION_VERSION :: string where "MINIAPP_SESSION_VERSION = ''v1''"
definition MINIAPP_SESSION_COOKIE_NAME :: string where "MINIAPP_SESSION_COOKIE_NAME = ''zb_miniapp''"
definition MINIAPP_SESSION_COOKIE_PATH :: string where "MINIAPP_SESSION_COOKIE_PATH = ''/api/miniapp''"
definition MINIAPP_SESSION_DEFAULT_TTL_SECONDS :: int where "MINIAPP_SESSION_DEFAULT_TTL_SECONDS = 15 * 60"
definition MINIAPP_SESSION_MIN_TTL_SECONDS :: int where "MINIAPP_SESSION_MIN_TTL_SECONDS = 60"
definition MINIAPP_SESSION_MAX_TTL_SECONDS :: int where "MINIAPP_SESSION_MAX_TTL_SECONDS = 60 * 60"

datatype MiniAppSessionFailure = Session_MALFORMED | UNKNOWN_VERSION | Session_BAD_SIGNATURE | Session_EXPIRED

record MiniAppSessionPayload =
  ss_userId :: string
  ss_expiresAtSeconds :: int

text \<open>None is the thrown MiniAppSessionConfigError.\<close>

definition sessionKey :: "web_crypto \<Rightarrow> string \<Rightarrow> byte list option" where
  "sessionKey cr secret =
     (if js_trim secret = '''' then None else Some (cr_scrypt cr secret SESSION_KEY_CONTEXT))"

definition session_mac :: "web_crypto \<Rightarrow> byte list \<Rightarrow> string \<Rightarrow> string" where
  "session_mac cr key body = b64url_encode (cr_hmac cr key body)"

definition session_ttl :: "int \<Rightarrow> int" where
  "session_ttl ttl = min (max ttl MINIAPP_SESSION_MIN_TTL_SECONDS) MINIAPP_SESSION_MAX_TTL_SECONDS"

definition session_body :: "string \<Rightarrow> string \<Rightarrow> string" where
  "session_body encodedUserId expiry =
     js_join ''.'' [MINIAPP_SESSION_VERSION, encodedUserId, expiry]"

definition issued_body :: "string \<Rightarrow> int \<Rightarrow> int \<Rightarrow> string" where
  "issued_body userId ttl nowMs =
     session_body (b64url_encode (text_bytes userId)) (show_int (nowMs div 1000 + session_ttl ttl))"

definition issueMiniAppSession :: "web_crypto \<Rightarrow> string \<Rightarrow> string \<Rightarrow> int \<Rightarrow> int \<Rightarrow> string option" where
  "issueMiniAppSession cr secret userId ttl nowMs =
     map_option (\<lambda>key. let body = issued_body userId ttl nowMs in body @ ''.'' @ session_mac cr key body)
       (sessionKey cr secret)"

definition verifyMiniAppSession ::
  "web_crypto \<Rightarrow> string \<Rightarrow> int \<Rightarrow> string \<Rightarrow> (MiniAppSessionFailure + MiniAppSessionPayload) option" where
  "verifyMiniAppSession cr secret nowMs token =
     (if token = [] then Some (Inl Session_MALFORMED)
      else case js_split CHR ''.'' token of
        [version, encodedUserId, expiry, signature] \<Rightarrow>
          if version \<noteq> MINIAPP_SESSION_VERSION then Some (Inl UNKNOWN_VERSION)
          else if \<not> up_to_15_digits expiry then Some (Inl Session_MALFORMED)
          else map_option (\<lambda>key.
            if signature \<noteq> session_mac cr key (session_body encodedUserId expiry) then Inl Session_BAD_SIGNATURE
            else if int (read_nat expiry) \<le> nowMs div 1000 then Inl Session_EXPIRED
            else let userId = utf8_text (b64url_decode encodedUserId) in
              if userId = [] then Inl Session_MALFORMED
              else Inr \<lparr>ss_userId = userId, ss_expiresAtSeconds = int (read_nat expiry)\<rparr>)
            (sessionKey cr secret)
      | _ \<Rightarrow> Some (Inl Session_MALFORMED))"

section \<open>The cookie\<close>

definition serializeMiniAppSessionCookie :: "string \<Rightarrow> bool \<Rightarrow> int \<Rightarrow> string" where
  "serializeMiniAppSessionCookie token secure maxAge =
     js_join ''; ''
       ([MINIAPP_SESSION_COOKIE_NAME @ ''='' @ token, ''Path='' @ MINIAPP_SESSION_COOKIE_PATH,
         ''Max-Age='' @ show_int (max 0 maxAge), ''HttpOnly'', ''SameSite=Lax'']
        @ (if secure then [''Secure''] else []))"

definition serializeMiniAppSessionClearCookie :: "bool \<Rightarrow> string" where
  "serializeMiniAppSessionClearCookie secure = serializeMiniAppSessionCookie '''' secure 0"

fun cookie_in :: "string list \<Rightarrow> string option" where
  "cookie_in [] = None"
| "cookie_in (chunk # chunks) =
     (if CHR ''='' \<notin> set chunk \<or> before_eq chunk = [] then cookie_in chunks
      else if js_trim (before_eq chunk) = MINIAPP_SESSION_COOKIE_NAME then Some (js_trim (after_eq chunk))
      else cookie_in chunks)"

definition readMiniAppSessionCookie :: "string option \<Rightarrow> string option" where
  "readMiniAppSessionCookie header =
     (case header of
        None \<Rightarrow> None
      | Some h \<Rightarrow> if h = [] then None else cookie_in (js_split CHR '';'' h))"

end
