(* ===== verification/MiniAppGuards.thy ===== *)
theory MiniAppGuards
  imports SupportTickets MiniAppSession
begin

text \<open>
  What stands in front of the routes of the Mini App, in apps/api/src/miniapp: the configured numbers
  (config.ts, trusted-proxy.ts), the origin check and the rate limiter (security.ts), the secure-transport
  decision (transport.ts), the gate of every mutation (support-guards.ts) and the sealed cursors of the
  lists (cursor.ts). The environment is a function from names to values, a request the fields that are
  read of it.
\<close>

section \<open>Configured numbers\<close>

datatype ConfigResolution = Resolution_default | Configured | Clamped | Invalid

record ResolvedIntSetting =
  rs_value :: int
  rs_resolution :: ConfigResolution

definition resolveClampedInt :: "string \<Rightarrow> int \<Rightarrow> int \<Rightarrow> int \<Rightarrow> ResolvedIntSetting" where
  "resolveClampedInt var fallback lo hi =
     (let raw = js_trim var in
      if raw = [] then \<lparr>rs_value = fallback, rs_resolution = Resolution_default\<rparr>
      else if \<not> list_all is_digit raw then \<lparr>rs_value = fallback, rs_resolution = Invalid\<rparr>
      else let parsed = int (read_nat raw) in
        if MAX_SAFE_INTEGER < parsed then \<lparr>rs_value = fallback, rs_resolution = Invalid\<rparr>
        else let clamped = min hi (max lo parsed) in
          \<lparr>rs_value = clamped, rs_resolution = (if clamped = parsed then Configured else Clamped)\<rparr>)"

type_synonym environment = "string \<Rightarrow> string"

definition MINIAPP_INITDATA_MIN_MAX_AGE_SECONDS :: int where "MINIAPP_INITDATA_MIN_MAX_AGE_SECONDS = 30"
definition MINIAPP_INITDATA_MAX_MAX_AGE_SECONDS :: int where "MINIAPP_INITDATA_MAX_MAX_AGE_SECONDS = 60 * 60"

definition miniAppInitDataMaxAgeSeconds :: "environment \<Rightarrow> int" where
  "miniAppInitDataMaxAgeSeconds env =
     rs_value (resolveClampedInt (env ''MINIAPP_INITDATA_MAX_AGE_SECONDS'') MINIAPP_INITDATA_DEFAULT_MAX_AGE_SECONDS
       MINIAPP_INITDATA_MIN_MAX_AGE_SECONDS MINIAPP_INITDATA_MAX_MAX_AGE_SECONDS)"

definition miniAppSessionTtlSeconds :: "environment \<Rightarrow> int" where
  "miniAppSessionTtlSeconds env =
     rs_value (resolveClampedInt (env ''MINIAPP_SESSION_TTL_SECONDS'') MINIAPP_SESSION_DEFAULT_TTL_SECONDS
       MINIAPP_SESSION_MIN_TTL_SECONDS MINIAPP_SESSION_MAX_TTL_SECONDS)"

definition MINIAPP_AUTH_RATE_LIMIT_DEFAULT :: int where "MINIAPP_AUTH_RATE_LIMIT_DEFAULT = 5"
definition MINIAPP_AUTH_RATE_LIMIT_MIN :: int where "MINIAPP_AUTH_RATE_LIMIT_MIN = 1"
definition MINIAPP_AUTH_RATE_LIMIT_MAX :: int where "MINIAPP_AUTH_RATE_LIMIT_MAX = 10000"

definition resolveMiniAppAuthRateLimit :: "environment \<Rightarrow> ResolvedIntSetting" where
  "resolveMiniAppAuthRateLimit env =
     resolveClampedInt (env ''MINIAPP_AUTH_RATE_LIMIT'') MINIAPP_AUTH_RATE_LIMIT_DEFAULT
       MINIAPP_AUTH_RATE_LIMIT_MIN MINIAPP_AUTH_RATE_LIMIT_MAX"

definition miniAppAuthRateLimit :: "environment \<Rightarrow> int" where
  "miniAppAuthRateLimit env = rs_value (resolveMiniAppAuthRateLimit env)"

definition MINIAPP_SUPPORT_RATE_LIMIT_DEFAULT :: int where "MINIAPP_SUPPORT_RATE_LIMIT_DEFAULT = 10"
definition MINIAPP_SUPPORT_RATE_LIMIT_MIN :: int where "MINIAPP_SUPPORT_RATE_LIMIT_MIN = 1"
definition MINIAPP_SUPPORT_RATE_LIMIT_MAX :: int where "MINIAPP_SUPPORT_RATE_LIMIT_MAX = 10000"

definition resolveMiniAppSupportRateLimit :: "environment \<Rightarrow> ResolvedIntSetting" where
  "resolveMiniAppSupportRateLimit env =
     resolveClampedInt (env ''MINIAPP_SUPPORT_RATE_LIMIT'') MINIAPP_SUPPORT_RATE_LIMIT_DEFAULT
       MINIAPP_SUPPORT_RATE_LIMIT_MIN MINIAPP_SUPPORT_RATE_LIMIT_MAX"

definition miniAppSupportRateLimit :: "environment \<Rightarrow> int" where
  "miniAppSupportRateLimit env = rs_value (resolveMiniAppSupportRateLimit env)"

definition SUPPORT_CLIENT_LIMIT_MULTIPLIER :: int where "SUPPORT_CLIENT_LIMIT_MULTIPLIER = 3"

definition miniAppSupportClientRateLimit :: "environment \<Rightarrow> int" where
  "miniAppSupportClientRateLimit env = miniAppSupportRateLimit env * SUPPORT_CLIENT_LIMIT_MULTIPLIER"

definition MINIAPP_COMMERCE_RATE_LIMIT_DEFAULT :: int where "MINIAPP_COMMERCE_RATE_LIMIT_DEFAULT = 30"
definition MINIAPP_COMMERCE_RATE_LIMIT_MIN :: int where "MINIAPP_COMMERCE_RATE_LIMIT_MIN = 1"
definition MINIAPP_COMMERCE_RATE_LIMIT_MAX :: int where "MINIAPP_COMMERCE_RATE_LIMIT_MAX = 10000"

definition resolveMiniAppCommerceRateLimit :: "environment \<Rightarrow> ResolvedIntSetting" where
  "resolveMiniAppCommerceRateLimit env =
     resolveClampedInt (env ''MINIAPP_COMMERCE_RATE_LIMIT'') MINIAPP_COMMERCE_RATE_LIMIT_DEFAULT
       MINIAPP_COMMERCE_RATE_LIMIT_MIN MINIAPP_COMMERCE_RATE_LIMIT_MAX"

definition miniAppCommerceRateLimit :: "environment \<Rightarrow> int" where
  "miniAppCommerceRateLimit env = rs_value (resolveMiniAppCommerceRateLimit env)"

definition miniAppCommerceClientRateLimit :: "environment \<Rightarrow> int" where
  "miniAppCommerceClientRateLimit env = miniAppCommerceRateLimit env * SUPPORT_CLIENT_LIMIT_MULTIPLIER"

definition API_DEFAULT_TRUSTED_PROXIES :: string where
  "API_DEFAULT_TRUSTED_PROXIES = ''loopback, linklocal, uniquelocal''"

text \<open>None is \<open>false\<close>: no forwarding header is believed.\<close>

definition apiTrustedProxies :: "string \<Rightarrow> string option" where
  "apiTrustedProxies raw =
     (let v = js_trim raw; lowered = js_lower v in
      if v = [] then Some API_DEFAULT_TRUSTED_PROXIES
      else if lowered \<in> {''none'', ''off'', ''false''} then None
      else if lowered \<in> {''true'', ''yes'', ''all'', ''*''} \<or> list_all is_digit lowered
      then Some API_DEFAULT_TRUSTED_PROXIES
      else Some v)"

section \<open>The request\<close>

datatype header = One string | Several "string list"

record api_request =
  rq_headers :: "string \<Rightarrow> header option"
  rq_protocol :: string
  rq_ip :: string

definition headerValue :: "api_request \<Rightarrow> string \<Rightarrow> string option" where
  "headerValue request h = (case rq_headers request h of Some (One v) \<Rightarrow> Some v | _ \<Rightarrow> None)"

definition isSecureRequest :: "api_request \<Rightarrow> bool" where
  "isSecureRequest request \<longleftrightarrow> js_lower (rq_protocol request) = ''https''"

datatype OriginVerdict = Origin_allowed | Origin_forbidden

definition foreign_site :: "api_request \<Rightarrow> bool" where
  "foreign_site request =
     (case headerValue request ''sec-fetch-site'' of
        None \<Rightarrow> False | Some site \<Rightarrow> site \<noteq> ''same-origin'' \<and> site \<noteq> ''none'')"

definition checkRequestOrigin :: "api_request \<Rightarrow> string list \<Rightarrow> OriginVerdict" where
  "checkRequestOrigin request allowed =
     (if foreign_site request then Origin_forbidden
      else case headerValue request ''origin'' of
        None \<Rightarrow> Origin_allowed
      | Some origin \<Rightarrow>
          if origin = ''null'' then Origin_allowed
          else if allowed = [] then Origin_allowed
          else if origin \<in> set allowed then Origin_allowed else Origin_forbidden)"

text \<open>The salted digest of the address; \<open>digest\<close> is SHA-256 printed as base64url.\<close>

definition clientRateKey :: "(string \<Rightarrow> string) \<Rightarrow> string \<Rightarrow> api_request \<Rightarrow> string" where
  "clientRateKey digest salt request = take 22 (digest (salt @ ''|'' @ rq_ip request))"

section \<open>The rate limiter\<close>

record RateLimitDecision =
  rl_allowed :: bool
  rl_retryAfterSeconds :: int

record Window =
  wn_count :: int
  wn_resetAtMs :: int

text \<open>The map of the windows is a list of entries in the order of insertion; \<open>set\<close> keeps the place of a key.\<close>

record FixedWindowRateLimiter =
  lm_windowMs :: int
  lm_maxKeys :: nat
  lm_windows :: "(string \<times> Window) list"

definition evictExpired :: "nat \<Rightarrow> int \<Rightarrow> (string \<times> Window) list \<Rightarrow> (string \<times> Window) list" where
  "evictExpired maxKeys nowMs windows =
     (let live = filter (\<lambda>w. nowMs < wn_resetAtMs (snd w)) windows in
      if maxKeys \<le> length live then drop (max 1 ((maxKeys + 9) div 10)) live else live)"

definition ceil_seconds :: "int \<Rightarrow> int" where
  "ceil_seconds ms = (ms + 999) div 1000"

definition check :: "int \<Rightarrow> string \<Rightarrow> int \<Rightarrow> FixedWindowRateLimiter \<Rightarrow> RateLimitDecision \<times> FixedWindowRateLimiter" where
  "check ceiling key nowMs l =
     (let restart = (let windows = (if lm_maxKeys l \<le> length (lm_windows l)
              then evictExpired (lm_maxKeys l) nowMs (lm_windows l) else lm_windows l) in
            (\<lparr>rl_allowed = True, rl_retryAfterSeconds = 0\<rparr>,
             l\<lparr>lm_windows := AList.update key \<lparr>wn_count = 1, wn_resetAtMs = nowMs + lm_windowMs l\<rparr> windows\<rparr>))
      in case map_of (lm_windows l) key of
        None \<Rightarrow> restart
      | Some existing \<Rightarrow>
          if wn_resetAtMs existing \<le> nowMs then restart
          else let counted = existing\<lparr>wn_count := wn_count existing + 1\<rparr> in
            (if ceiling < wn_count counted
             then \<lparr>rl_allowed = False, rl_retryAfterSeconds = max 1 (ceil_seconds (wn_resetAtMs existing - nowMs))\<rparr>
             else \<lparr>rl_allowed = True, rl_retryAfterSeconds = 0\<rparr>,
             l\<lparr>lm_windows := AList.update key counted (lm_windows l)\<rparr>))"

section \<open>The gate of a mutation\<close>

datatype MutationGuardCode = INSECURE_TRANSPORT | FORBIDDEN_ORIGIN | UNSUPPORTED_MEDIA_TYPE | Guard_RATE_LIMITED

record MutationRejection =
  mr_status :: nat
  mr_code :: MutationGuardCode
  mr_retryAfterSeconds :: "int option"

definition SUPPORT_MUTATION_WINDOW_MS :: int where "SUPPORT_MUTATION_WINDOW_MS = 60000"

record SupportMutationLimiters =
  ml_perUser :: FixedWindowRateLimiter
  ml_perClient :: FixedWindowRateLimiter

definition new_limiter :: "int \<Rightarrow> FixedWindowRateLimiter" where
  "new_limiter windowMs = \<lparr>lm_windowMs = windowMs, lm_maxKeys = 10000, lm_windows = []\<rparr>"

definition createSupportMutationLimiters :: SupportMutationLimiters where
  "createSupportMutationLimiters =
     \<lparr>ml_perUser = new_limiter SUPPORT_MUTATION_WINDOW_MS, ml_perClient = new_limiter SUPPORT_MUTATION_WINDOW_MS\<rparr>"

definition isJsonContentType :: "header option \<Rightarrow> bool" where
  "isJsonContentType raw =
     (case raw of
        Some (One v) \<Rightarrow> js_lower (js_trim (takeWhile (\<lambda>c. c \<noteq> CHR '';'') v)) = ''application/json''
      | _ \<Rightarrow> False)"

definition userRateKey :: "string \<Rightarrow> string" where "userRateKey userId = ''u:'' @ userId"

record guard_env =
  ge_allowedOrigins :: "string list"
  ge_production :: bool
  ge_userLimit :: int
  ge_clientLimit :: int
  ge_digest :: "string \<Rightarrow> string"
  ge_salt :: string
  ge_nowMs :: int

definition checkSupportMutation ::
  "guard_env \<Rightarrow> string \<Rightarrow> api_request \<Rightarrow> SupportMutationLimiters \<Rightarrow> MutationRejection option \<times> SupportMutationLimiters" where
  "checkSupportMutation env userId request limiters =
     (if ge_production env \<and> \<not> isSecureRequest request
      then (Some \<lparr>mr_status = 403, mr_code = INSECURE_TRANSPORT, mr_retryAfterSeconds = None\<rparr>, limiters)
      else if checkRequestOrigin request (ge_allowedOrigins env) = Origin_forbidden
      then (Some \<lparr>mr_status = 403, mr_code = FORBIDDEN_ORIGIN, mr_retryAfterSeconds = None\<rparr>, limiters)
      else if \<not> isJsonContentType (rq_headers request ''content-type'')
      then (Some \<lparr>mr_status = 415, mr_code = UNSUPPORTED_MEDIA_TYPE, mr_retryAfterSeconds = None\<rparr>, limiters)
      else case check (ge_userLimit env) (userRateKey userId) (ge_nowMs env) (ml_perUser limiters) of
        (user, perUser) \<Rightarrow>
          (case check (ge_clientLimit env) (clientRateKey (ge_digest env) (ge_salt env) request) (ge_nowMs env)
              (ml_perClient limiters) of
             (client, perClient) \<Rightarrow>
               (if \<not> rl_allowed user \<or> \<not> rl_allowed client
                then Some \<lparr>mr_status = 429, mr_code = Guard_RATE_LIMITED,
                  mr_retryAfterSeconds = Some (max (if rl_allowed user then 0 else rl_retryAfterSeconds user)
                    (if rl_allowed client then 0 else rl_retryAfterSeconds client))\<rparr>
                else None,
                \<lparr>ml_perUser = perUser, ml_perClient = perClient\<rparr>)))"

section \<open>Cursors\<close>

datatype CursorResource = Cursor_services | Cursor_wallet_transactions | Cursor_support_tickets | Cursor_support_messages

fun cursor_resource_name :: "CursorResource \<Rightarrow> string" where
  "cursor_resource_name Cursor_services = ''services''"
| "cursor_resource_name Cursor_wallet_transactions = ''wallet-transactions''"
| "cursor_resource_name Cursor_support_tickets = ''support-tickets''"
| "cursor_resource_name Cursor_support_messages = ''support-messages''"

definition CURSOR_VERSION :: string where "CURSOR_VERSION = ''c2''"
definition KEY_CONTEXT :: string where "KEY_CONTEXT = ''zedbot.miniapp.cursor.key.v2''"

definition cursorKey :: "web_crypto \<Rightarrow> string \<Rightarrow> byte list option" where
  "cursorKey cr secret =
     (if js_trim secret = '''' then None else Some (cr_hmac cr (text_bytes secret) KEY_CONTEXT))"

definition cursor_aad :: "CursorResource \<Rightarrow> string" where
  "cursor_aad resource = CURSOR_VERSION @ ''.'' @ cursor_resource_name resource"

text \<open>None is the exception of a missing secret; \<open>iv\<close> are the random bytes.\<close>

definition encodeCursor ::
  "web_crypto \<Rightarrow> string \<Rightarrow> byte list \<Rightarrow> CursorResource \<Rightarrow> keyset_cursor \<Rightarrow> string option" where
  "encodeCursor cr secret iv resource cursor =
     (case cursorKey cr secret of
        None \<Rightarrow> None
      | Some key \<Rightarrow>
          (case cr_encrypt cr key iv (cursor_aad resource) (show_int (fst cursor) @ ''.'' @ snd cursor) of
             (sealed, tag) \<Rightarrow> Some (CURSOR_VERSION @ ''.'' @ b64url_encode (iv @ sealed @ tag))))"

definition b64url_letter :: "char \<Rightarrow> bool" where
  "b64url_letter c \<longleftrightarrow> b64_value c \<noteq> None \<and> c \<noteq> CHR ''+'' \<and> c \<noteq> CHR ''/''"

definition is_uuid_text :: "string \<Rightarrow> bool" where
  "is_uuid_text s \<longleftrightarrow> length s = 36 \<and> list_all (\<lambda>c. radix_digit 16 c \<noteq> None \<or> c = CHR ''-'') s"

definition read_position :: "string \<Rightarrow> keyset_cursor option" where
  "read_position plaintext =
     (if CHR ''.'' \<notin> set plaintext then None
      else let rawMs = takeWhile (\<lambda>c. c \<noteq> CHR ''.'') plaintext;
               i = tl (dropWhile (\<lambda>c. c \<noteq> CHR ''.'') plaintext) in
        if \<not> up_to_15_digits rawMs \<or> read_nat rawMs = 0 then None
        else if \<not> is_uuid_text i then None else Some (int (read_nat rawMs), i))"

definition decodeCursor :: "web_crypto \<Rightarrow> string \<Rightarrow> string \<Rightarrow> CursorResource \<Rightarrow> keyset_cursor option" where
  "decodeCursor cr secret raw resource =
     (let version = takeWhile (\<lambda>c. c \<noteq> CHR ''.'') raw; body = tl (dropWhile (\<lambda>c. c \<noteq> CHR ''.'') raw);
          bytes = b64url_decode body; n = length bytes in
      if CHR ''.'' \<notin> set raw then None
      else if version \<noteq> CURSOR_VERSION then None
      else if body = [] \<or> 512 < length body \<or> \<not> list_all b64url_letter body then None
      else if n \<le> IV_BYTES + TAG_BYTES then None
      else case cursorKey cr secret of
        None \<Rightarrow> None
      | Some key \<Rightarrow>
          (case cr_decrypt cr key (take IV_BYTES bytes) (cursor_aad resource)
              (drop IV_BYTES (take (n - TAG_BYTES) bytes)) (drop (n - TAG_BYTES) bytes) of
             None \<Rightarrow> None
           | Some plaintext \<Rightarrow> read_position plaintext))"

definition MINIAPP_PAGE_DEFAULT_SIZE :: nat where "MINIAPP_PAGE_DEFAULT_SIZE = 20"
definition MINIAPP_PAGE_MAX_SIZE :: nat where "MINIAPP_PAGE_MAX_SIZE = 50"

definition clampPageSize :: "string option \<Rightarrow> nat" where
  "clampPageSize raw =
     (case raw of
        None \<Rightarrow> MINIAPP_PAGE_DEFAULT_SIZE
      | Some s \<Rightarrow>
          if s = [] \<or> 4 < length s \<or> \<not> list_all is_digit s then MINIAPP_PAGE_DEFAULT_SIZE
          else if read_nat s = 0 then MINIAPP_PAGE_DEFAULT_SIZE
          else min (read_nat s) MINIAPP_PAGE_MAX_SIZE)"

end
