(* ===== verification/MiniAppAccess.thy ===== *)
theory MiniAppAccess
  imports ForceJoin MiniAppGuards
begin

text \<open>
  The front door of the Mini App: apps/api/src/miniapp/access-policy.ts, the mandatory gates that every
  authenticated request passes, and the session part of apps/api/src/miniapp/routes.ts: signing in, signing
  out, the hook of the authenticated routes, and the reads of the profile and of one service. Which queries
  of a request fail, the answers of Telegram and what other processes do to the database between the
  statements are arguments. Every clock of a request is the one of its Redis.
\<close>

section \<open>The access policy\<close>

datatype MiniAppAccessCode = MAINTENANCE | USER_BLOCKED | USER_DISABLED | USER_UNAVAILABLE | TERMS_REQUIRED
  | FORCE_JOIN_REQUIRED | ACCESS_CHECK_UNAVAILABLE

record MiniAppAccessDenied =
  ad_code :: MiniAppAccessCode
  ad_status :: nat
  ad_requiresBot :: bool

fun STATUS_BY_CODE :: "MiniAppAccessCode \<Rightarrow> nat" where
  "STATUS_BY_CODE MAINTENANCE = 503"
| "STATUS_BY_CODE USER_BLOCKED = 403"
| "STATUS_BY_CODE USER_DISABLED = 403"
| "STATUS_BY_CODE USER_UNAVAILABLE = 403"
| "STATUS_BY_CODE TERMS_REQUIRED = 428"
| "STATUS_BY_CODE FORCE_JOIN_REQUIRED = 403"
| "STATUS_BY_CODE ACCESS_CHECK_UNAVAILABLE = 503"

definition BOT_REQUIRED :: "MiniAppAccessCode set" where
  "BOT_REQUIRED = {TERMS_REQUIRED, FORCE_JOIN_REQUIRED}"

definition deny :: "MiniAppAccessCode \<Rightarrow> MiniAppAccessDenied" where
  "deny code = \<lparr>ad_code = code, ad_status = STATUS_BY_CODE code, ad_requiresBot = (code \<in> BOT_REQUIRED)\<rparr>"

text \<open>
  The reads of one evaluation, in their order: the switch of the maintenance, the user, the switch of the
  terms, the published document, its acceptance, the switch of the forced joins, the channels.
  \<open>ac_others n\<close> is what others do to the database before read \<open>n\<close>.
\<close>

datatype access_read = Read_maintenance | Read_user | Read_terms_switch | Read_document | Read_acceptance
  | Read_join_switch | Read_channels

record access_env =
  ac_fails :: "access_read \<Rightarrow> bool"
  ac_others :: "nat \<Rightarrow> db \<Rightarrow> db"
  ac_botToken :: "string option"
  ac_join :: join_env

definition db_at :: "access_env \<Rightarrow> nat \<Rightarrow> db \<Rightarrow> db" where
  "db_at env n s = fold (ac_others env) [0..<Suc n] s"

text \<open>None is a read that failed.\<close>

definition readBooleanSetting :: "access_env \<Rightarrow> access_read \<Rightarrow> string \<Rightarrow> db \<Rightarrow> bool option" where
  "readBooleanSetting env r key s =
     (if ac_fails env r then None
      else let raw = js_lower (case setting_value key s of None \<Rightarrow> '''' | Some v \<Rightarrow> v) in
        Some (raw = ''true'' \<or> raw = ''1'' \<or> raw = ''yes''))"

text \<open>Descending by version: the database puts the document without one first.\<close>

definition document_order :: "terms_row \<Rightarrow> nat \<times> int" where
  "document_order d = (case td_version d of None \<Rightarrow> (0, 0) | Some v \<Rightarrow> (1, - v))"

definition latest_document :: "db \<Rightarrow> terms_row option" where
  "latest_document s =
     (case sort_key document_order (filter (\<lambda>d. td_status d = Terms_PUBLISHED) (terms_documents s)) of
        [] \<Rightarrow> None | d # _ \<Rightarrow> Some d)"

definition accepted_document :: "db \<Rightarrow> string \<Rightarrow> string \<Rightarrow> bool" where
  "accepted_document s userId documentId \<longleftrightarrow>
     (\<exists>a \<in> set (terms_acceptances s). ta_userId a = userId \<and> ta_termsDocumentId a = documentId)"

definition evaluateTermsGate :: "access_env \<Rightarrow> string \<Rightarrow> db \<Rightarrow> MiniAppAccessDenied option" where
  "evaluateTermsGate env userId s =
     (case readBooleanSetting env Read_terms_switch ''terms_required'' (db_at env 2 s) of
        None \<Rightarrow> Some (deny ACCESS_CHECK_UNAVAILABLE)
      | Some False \<Rightarrow> None
      | Some True \<Rightarrow>
          if ac_fails env Read_document then Some (deny ACCESS_CHECK_UNAVAILABLE)
          else case latest_document (db_at env 3 s) of
            None \<Rightarrow> None
          | Some published \<Rightarrow>
              if ac_fails env Read_acceptance then Some (deny ACCESS_CHECK_UNAVAILABLE)
              else if accepted_document (db_at env 4 s) userId (td_id published) then None
              else Some (deny TERMS_REQUIRED))"

definition evaluateForceJoinGate ::
  "access_env \<Rightarrow> int \<Rightarrow> bool \<Rightarrow> join_state \<Rightarrow> MiniAppAccessDenied option \<times> join_state" where
  "evaluateForceJoinGate env telegramId bypass st =
     (if bypass then (None, st)
      else case readBooleanSetting env Read_join_switch ''force_join_enabled'' (db_at env 5 (jn_db st)) of
        None \<Rightarrow> (Some (deny ACCESS_CHECK_UNAVAILABLE), st)
      | Some False \<Rightarrow> (None, st)
      | Some True \<Rightarrow>
          if ac_fails env Read_channels then (Some (deny ACCESS_CHECK_UNAVAILABLE), st)
          else let s = db_at env 6 (jn_db st); cs = listActiveChannels s in
            if cs = [] then (None, st)
            else if ac_botToken env \<in> {None, Some ''''} then (Some (deny ACCESS_CHECK_UNAVAILABLE), st)
            else case evaluateForceJoinMembership (ac_join env) telegramId cs False (st\<lparr>jn_db := s\<rparr>) of
              (PASS, st1) \<Rightarrow> (None, st1)
            | (TEMP_FAILURE, st1) \<Rightarrow> (Some (deny ACCESS_CHECK_UNAVAILABLE), st1)
            | (MISSING _, st1) \<Rightarrow> (Some (deny FORCE_JOIN_REQUIRED), st1))"

definition account_gate :: "user_row option \<Rightarrow> MiniAppAccessDenied + user_row" where
  "account_gate found =
     (case found of
        None \<Rightarrow> Inl (deny USER_UNAVAILABLE)
      | Some user \<Rightarrow>
          if u_status user = UserStatus_DELETED then Inl (deny USER_UNAVAILABLE)
          else if u_status user = UserStatus_BLOCKED then Inl (deny USER_BLOCKED)
          else if u_status user \<noteq> UserStatus_ACTIVE then Inl (deny USER_DISABLED)
          else Inr user)"

definition evaluateMiniAppAccess ::
  "access_env \<Rightarrow> string \<Rightarrow> join_state \<Rightarrow> (MiniAppAccessDenied + user_row) \<times> join_state" where
  "evaluateMiniAppAccess env userId st =
     (case readBooleanSetting env Read_maintenance ''maintenance_mode'' (db_at env 0 (jn_db st)) of
        None \<Rightarrow> (Inl (deny ACCESS_CHECK_UNAVAILABLE), st)
      | Some True \<Rightarrow> (Inl (deny MAINTENANCE), st)
      | Some False \<Rightarrow>
          if ac_fails env Read_user then (Inl (deny ACCESS_CHECK_UNAVAILABLE), st)
          else case account_gate (find (\<lambda>u. u_id u = userId) (users (db_at env 1 (jn_db st)))) of
            Inl denied \<Rightarrow> (Inl denied, st)
          | Inr user \<Rightarrow>
              (case evaluateTermsGate env (u_id user) (jn_db st) of
                 Some denied \<Rightarrow> (Inl denied, st)
               | None \<Rightarrow>
                   (case evaluateForceJoinGate env (u_telegramId user) (u_forceJoinBypass user) st of
                      (Some denied, st1) \<Rightarrow> (Inl denied, st1)
                    | (None, st1) \<Rightarrow> (Inr user, st1))))"

section \<open>Replies\<close>

datatype ErrorCode = Err_INVALID_INIT_DATA | Err_NOT_REGISTERED | Err_NOT_AUTHENTICATED | Err_FORBIDDEN_ORIGIN
  | Err_RATE_LIMITED | Err_BAD_REQUEST | Err_NOT_FOUND | Err_NOT_CONFIGURED | Err_INSECURE_TRANSPORT | Err_INTERNAL

text \<open>\<open>Crashed\<close> is the exception of a missing session secret, which the server answers with 500.\<close>

datatype 'a reply_body = Sent 'a | Refused ErrorCode | Access_denied MiniAppAccessCode bool
  | Gate_refused MutationGuardCode | Support_refused SupportDomainError | Crashed

record 'a http_reply =
  hr_status :: nat
  hr_body :: "'a reply_body"
  hr_setCookie :: "string option"
  hr_retryAfter :: "int option"

definition fail :: "nat \<Rightarrow> ErrorCode \<Rightarrow> 'a http_reply" where
  "fail status code = \<lparr>hr_status = status, hr_body = Refused code, hr_setCookie = None, hr_retryAfter = None\<rparr>"

definition send :: "'a \<Rightarrow> 'a http_reply" where
  "send body = \<lparr>hr_status = 200, hr_body = Sent body, hr_setCookie = None, hr_retryAfter = None\<rparr>"

definition denied_reply :: "MiniAppAccessDenied \<Rightarrow> 'a http_reply" where
  "denied_reply d =
     \<lparr>hr_status = ad_status d, hr_body = Access_denied (ad_code d) (ad_requiresBot d), hr_setCookie = None,
      hr_retryAfter = None\<rparr>"

definition crash :: "'a http_reply" where
  "crash = \<lparr>hr_status = 500, hr_body = Crashed, hr_setCookie = None, hr_retryAfter = None\<rparr>"

text \<open>The profile of the signed-in user (serializers.ts); names and the date of joining are not modelled.\<close>

record MiniAppUserDto =
  mu_status :: UserStatus
  mu_group :: UserGroup
  mu_balanceToman :: int

definition toMiniAppUser :: "user_row \<Rightarrow> MiniAppUserDto" where
  "toMiniAppUser user =
     \<lparr>mu_status = u_status user, mu_group = u_group user, mu_balanceToman = u_balanceToman user\<rparr>"

section \<open>Signing in and out\<close>

record door_env =
  dr_crypto :: web_crypto
  dr_secret :: string
  dr_config :: environment
  dr_allowedOrigins :: "string list"
  dr_production :: bool
  dr_digest :: "string \<Rightarrow> string"
  dr_salt :: string
  dr_lookupFails :: bool
  dr_access :: access_env

record door_state =
  ds_limiter :: FixedWindowRateLimiter
  ds_join :: join_state

definition now_of :: "join_state \<Rightarrow> int" where "now_of st = rd_now (jn_redis st)"

record signed_in =
  si_expiresInSeconds :: int
  si_user :: MiniAppUserDto

definition initData_of :: "json \<Rightarrow> string option" where
  "initData_of body =
     (case body of
        JObj kvs \<Rightarrow> (case map_of kvs ''initData'' of Some (JStr s) \<Rightarrow> if s = [] then None else Some s | _ \<Rightarrow> None)
      | _ \<Rightarrow> None)"

definition session_reply :: "door_env \<Rightarrow> api_request \<Rightarrow> int \<Rightarrow> string \<Rightarrow> user_row \<Rightarrow> signed_in http_reply" where
  "session_reply env request nowMs userId user =
     (let ttlSeconds = miniAppSessionTtlSeconds (dr_config env) in
      case issueMiniAppSession (dr_crypto env) (dr_secret env) userId ttlSeconds nowMs of
        None \<Rightarrow> crash
      | Some token \<Rightarrow>
          (send \<lparr>si_expiresInSeconds = ttlSeconds, si_user = toMiniAppUser user\<rparr>)
            \<lparr>hr_setCookie := Some (serializeMiniAppSessionCookie token (isSecureRequest request) ttlSeconds)\<rparr>)"

definition sign_in :: "door_env \<Rightarrow> api_request \<Rightarrow> int \<Rightarrow> join_state \<Rightarrow> signed_in http_reply \<times> join_state" where
  "sign_in env request telegramId st =
     (if dr_lookupFails env then (fail 503 Err_INTERNAL, st)
      else case find (\<lambda>u. u_telegramId u = telegramId) (users (jn_db st)) of
        None \<Rightarrow> (fail 403 Err_NOT_REGISTERED, st)
      | Some found \<Rightarrow>
          (case evaluateMiniAppAccess (dr_access env) (u_id found) st of
             (Inl denied, st1) \<Rightarrow> (denied_reply denied, st1)
           | (Inr user, st1) \<Rightarrow> (session_reply env request (now_of st1) (u_id found) user, st1)))"

definition checked_sign_in ::
  "door_env \<Rightarrow> api_request \<Rightarrow> json \<Rightarrow> join_state \<Rightarrow> signed_in http_reply \<times> join_state" where
  "checked_sign_in env request body st =
     (case ac_botToken (dr_access env) of
        None \<Rightarrow> (fail 503 Err_NOT_CONFIGURED, st)
      | Some botToken \<Rightarrow>
          (case initData_of body of
             None \<Rightarrow> (fail 400 Err_BAD_REQUEST, st)
           | Some initData \<Rightarrow>
               if MINIAPP_INITDATA_MAX_BYTES < length initData then (fail 400 Err_BAD_REQUEST, st)
               else case validateMiniAppInitData (dr_crypto env) botToken (miniAppInitDataMaxAgeSeconds (dr_config env))
                   (now_of st div 1000) initData of
                 Inl _ \<Rightarrow> (fail 401 Err_INVALID_INIT_DATA, st)
               | Inr validated \<Rightarrow> sign_in env request (iu_telegramId validated) st))"

definition post_auth :: "door_env \<Rightarrow> api_request \<Rightarrow> json \<Rightarrow> door_state \<Rightarrow> signed_in http_reply \<times> door_state" where
  "post_auth env request body st =
     (if checkRequestOrigin request (dr_allowedOrigins env) = Origin_forbidden then (fail 403 Err_FORBIDDEN_ORIGIN, st)
      else case check (miniAppAuthRateLimit (dr_config env)) (clientRateKey (dr_digest env) (dr_salt env) request)
          (now_of (ds_join st)) (ds_limiter st) of
        (rate, limiter) \<Rightarrow>
          let st1 = st\<lparr>ds_limiter := limiter\<rparr> in
          if \<not> rl_allowed rate
          then ((fail 429 Err_RATE_LIMITED)\<lparr>hr_retryAfter := Some (rl_retryAfterSeconds rate)\<rparr>, st1)
          else if dr_production env \<and> \<not> isSecureRequest request then (fail 403 Err_INSECURE_TRANSPORT, st1)
          else (case checked_sign_in env request body (ds_join st1) of
            (reply, joins) \<Rightarrow> (reply, st1\<lparr>ds_join := joins\<rparr>)))"

definition post_logout :: "door_env \<Rightarrow> api_request \<Rightarrow> unit http_reply" where
  "post_logout env request =
     (if checkRequestOrigin request (dr_allowedOrigins env) = Origin_forbidden then fail 403 Err_FORBIDDEN_ORIGIN
      else (send ())\<lparr>hr_setCookie := Some (serializeMiniAppSessionClearCookie (isSecureRequest request))\<rparr>)"

section \<open>Authenticated requests\<close>

definition authenticate ::
  "door_env \<Rightarrow> api_request \<Rightarrow> join_state \<Rightarrow> ('a http_reply + user_row) \<times> join_state" where
  "authenticate env request st =
     (case readMiniAppSessionCookie (headerValue request ''cookie'') of
        None \<Rightarrow> (Inl (fail 401 Err_NOT_AUTHENTICATED), st)
      | Some raw \<Rightarrow>
          if raw = [] then (Inl (fail 401 Err_NOT_AUTHENTICATED), st)
          else case verifyMiniAppSession (dr_crypto env) (dr_secret env) (now_of st) raw of
            None \<Rightarrow> (Inl crash, st)
          | Some (Inl _) \<Rightarrow>
              (Inl ((fail 401 Err_NOT_AUTHENTICATED)\<lparr>hr_setCookie :=
                Some (serializeMiniAppSessionClearCookie (isSecureRequest request))\<rparr>), st)
          | Some (Inr payload) \<Rightarrow>
              (case evaluateMiniAppAccess (dr_access env) (ss_userId payload) st of
                 (Inl denied, st1) \<Rightarrow> (Inl (denied_reply denied), st1)
               | (Inr user, st1) \<Rightarrow> (Inr user, st1)))"

text \<open>A route of the secured plugin: the hook, then the handler on the user it proved.\<close>

definition secured ::
  "door_env \<Rightarrow> api_request \<Rightarrow> (user_row \<Rightarrow> db \<Rightarrow> 'a http_reply) \<Rightarrow> join_state \<Rightarrow> 'a http_reply \<times> join_state" where
  "secured env request handler st =
     (case authenticate env request st of
        (Inl reply, st1) \<Rightarrow> (reply, st1)
      | (Inr user, st1) \<Rightarrow> (handler user (jn_db st1), st1))"

definition ownedVisibleServices :: "string \<Rightarrow> service_row \<Rightarrow> bool" where
  "ownedVisibleServices userId sv \<longleftrightarrow>
     sv_userId sv = userId \<and> sv_deletedAt sv = None \<and> sv_status sv \<noteq> ServiceStatus_DELETED"

record profile =
  pf_user :: MiniAppUserDto
  pf_active :: nat
  pf_total :: nat

text \<open>\<open>broken\<close> says that a read of the handler fails.\<close>

definition get_me :: "bool \<Rightarrow> user_row \<Rightarrow> db \<Rightarrow> profile http_reply" where
  "get_me broken user s =
     (if broken then fail 503 Err_INTERNAL
      else send \<lparr>pf_user = toMiniAppUser user,
        pf_active = count_where (\<lambda>sv. ownedVisibleServices (u_id user) sv \<and> sv_status sv = ServiceStatus_ACTIVE) (services s),
        pf_total = count_where (ownedVisibleServices (u_id user)) (services s)\<rparr>)"

definition day_ms :: int where "day_ms = 24 * 60 * 60 * 1000"

definition remainingDaysUntil :: "int option \<Rightarrow> int \<Rightarrow> int option" where
  "remainingDaysUntil expiresAt nowMs =
     (case expiresAt of
        None \<Rightarrow> None
      | Some t \<Rightarrow> let remainingMs = t - nowMs in if remainingMs \<le> 0 then Some 0 else Some ((remainingMs + day_ms - 1) div day_ms))"

text \<open>What the client sees of a service. Its last write and the dates of its connections are not modelled.\<close>

record MiniAppServiceSummaryDto =
  sd_id :: string
  sd_username :: string
  sd_status :: ServiceStatus
  sd_productName :: "string option"
  sd_panelName :: "string option"
  sd_location :: ServiceLocation
  sd_volumeBytes :: string
  sd_usedBytes :: string
  sd_remainingBytes :: string
  sd_durationDays :: int
  sd_remainingDays :: "int option"
  sd_startsAt :: int
  sd_expiresAt :: "int option"
  sd_createdAt :: int

record MiniAppServiceDetailDto = MiniAppServiceSummaryDto +
  sd_userNote :: "string option"
  sd_source :: ServiceSource

definition toMiniAppServiceSummary :: "int \<Rightarrow> service_row \<Rightarrow> MiniAppServiceSummaryDto" where
  "toMiniAppServiceSummary nowMs sv =
     \<lparr>sd_id = serviceShortId (sv_id sv), sd_username = sv_username sv, sd_status = sv_status sv,
      sd_productName = sv_productNameSnapshot sv, sd_panelName = sv_panelNameSnapshot sv,
      sd_location = sv_serviceLocation sv, sd_volumeBytes = show_int (sv_volumeBytes sv),
      sd_usedBytes = show_int (sv_usedBytes sv), sd_remainingBytes = show_int (sv_remainingBytes sv),
      sd_durationDays = sv_durationDays sv, sd_remainingDays = remainingDaysUntil (sv_expiresAt sv) nowMs,
      sd_startsAt = sv_startsAt sv, sd_expiresAt = sv_expiresAt sv, sd_createdAt = sv_createdAt sv\<rparr>"

definition toMiniAppServiceDetail :: "int \<Rightarrow> service_row \<Rightarrow> MiniAppServiceDetailDto" where
  "toMiniAppServiceDetail nowMs sv =
     MiniAppServiceSummaryDto.extend (toMiniAppServiceSummary nowMs sv)
       (MiniAppServiceDetailDto.fields (sv_userNote sv) (sv_source sv))"

definition get_service :: "bool \<Rightarrow> string \<Rightarrow> int \<Rightarrow> user_row \<Rightarrow> db \<Rightarrow> MiniAppServiceDetailDto http_reply" where
  "get_service broken publicId nowMs user s =
     (if \<not> isServicePublicId (JStr publicId) then fail 404 Err_NOT_FOUND
      else if broken then fail 503 Err_INTERNAL
      else case take 2 (filter (\<lambda>sv. starts_with (sv_id sv) (js_lower publicId) \<and> ownedVisibleServices (u_id user) sv)
          (services s)) of
        [sv] \<Rightarrow> send (toMiniAppServiceDetail nowMs sv)
      | _ \<Rightarrow> fail 404 Err_NOT_FOUND)"

end
