(* ===== verification/MiniAppRoutes.thy ===== *)
theory MiniAppRoutes
  imports MiniAppAccess
begin

text \<open>
  The authenticated routes of apps/api/src/miniapp behind the session hook: the paged lists and the
  dashboard of routes.ts, and the support desk of support-routes.ts, with what serializers.ts shows of their
  rows. \<open>broken\<close> says that a read of the handler fails; \<open>iv\<close> are the random bytes of the cursor it seals.
\<close>

section \<open>Pages\<close>

record page_query =
  pq_limit :: "string option"
  pq_cursor :: "string option"

text \<open>None is the bad request of a cursor that was not sealed for this list.\<close>

definition read_cursor :: "door_env \<Rightarrow> page_query \<Rightarrow> CursorResource \<Rightarrow> keyset_cursor option option" where
  "read_cursor env query resource =
     (case pq_cursor query of
        None \<Rightarrow> Some None
      | Some raw \<Rightarrow>
          if raw = [] then Some None
          else map_option Some (decodeCursor (dr_crypto env) (dr_secret env) raw resource))"

definition readPage :: "door_env \<Rightarrow> page_query \<Rightarrow> CursorResource \<Rightarrow> (nat \<times> keyset_cursor option) option" where
  "readPage env query resource = map_option (Pair (clampPageSize (pq_limit query))) (read_cursor env query resource)"

record 'a page_body =
  pg_items :: "'a list"
  pg_nextCursor :: "string option"

text \<open>The page in the reply: sealing a cursor without a secret throws, like a read that fails.\<close>

definition page_reply ::
  "door_env \<Rightarrow> byte list \<Rightarrow> CursorResource \<Rightarrow> 'a list \<Rightarrow> keyset_cursor option \<Rightarrow> 'a page_body http_reply" where
  "page_reply env iv resource items nxt =
     (case nxt of
        None \<Rightarrow> send \<lparr>pg_items = items, pg_nextCursor = None\<rparr>
      | Some position \<Rightarrow>
          (case encodeCursor (dr_crypto env) (dr_secret env) iv resource position of
             None \<Rightarrow> fail 503 Err_INTERNAL
           | Some sealed \<Rightarrow> send \<lparr>pg_items = items, pg_nextCursor = Some sealed\<rparr>))"

definition nextCursorFor :: "('r \<Rightarrow> keyset_cursor) \<Rightarrow> 'r list \<Rightarrow> 'r list \<Rightarrow> nat \<Rightarrow> keyset_cursor option" where
  "nextCursorFor position rows items limit =
     (if length rows \<le> limit \<or> items = [] then None else Some (position (List.last items)))"

definition service_position :: "service_row \<Rightarrow> keyset_cursor" where
  "service_position sv = (sv_createdAt sv, sv_id sv)"

definition transaction_position :: "wallet_tx_row \<Rightarrow> keyset_cursor" where
  "transaction_position t = (wt_createdAt t, wt_id t)"

definition get_services ::
  "door_env \<Rightarrow> bool \<Rightarrow> byte list \<Rightarrow> page_query \<Rightarrow> int \<Rightarrow> user_row \<Rightarrow> db \<Rightarrow>
   MiniAppServiceSummaryDto page_body http_reply" where
  "get_services env broken iv query nowMs user s =
     (case readPage env query Cursor_services of
        None \<Rightarrow> fail 400 Err_BAD_REQUEST
      | Some (limit, cursor) \<Rightarrow>
          if broken then fail 503 Err_INTERNAL
          else let rows = keyset_rows service_position (ownedVisibleServices (u_id user)) limit cursor (services s);
                   items = take limit rows in
            page_reply env iv Cursor_services (map (toMiniAppServiceSummary nowMs) items)
              (nextCursorFor service_position rows items limit))"

record MiniAppTransactionDto =
  td_amountToman :: int
  td_type :: WalletTransactionType
  td_source :: WalletTransactionSource
  td_balanceAfterToman :: int
  td_createdAt :: int

definition toMiniAppTransaction :: "wallet_tx_row \<Rightarrow> MiniAppTransactionDto" where
  "toMiniAppTransaction t =
     \<lparr>td_amountToman = wt_amountToman t, td_type = wt_type t, td_source = wt_source t,
      td_balanceAfterToman = wt_balanceAfterToman t, td_createdAt = wt_createdAt t\<rparr>"

text \<open>The reply carries the balance of the session's user too; it is \<open>mu_balanceToman\<close> of the profile.\<close>

definition get_transactions ::
  "door_env \<Rightarrow> bool \<Rightarrow> byte list \<Rightarrow> page_query \<Rightarrow> user_row \<Rightarrow> db \<Rightarrow> MiniAppTransactionDto page_body http_reply" where
  "get_transactions env broken iv query user s =
     (case readPage env query Cursor_wallet_transactions of
        None \<Rightarrow> fail 400 Err_BAD_REQUEST
      | Some (limit, cursor) \<Rightarrow>
          if broken then fail 503 Err_INTERNAL
          else let rows = keyset_rows transaction_position (\<lambda>t. wt_userId t = u_id user) limit cursor (wallet_txs s);
                   items = take limit rows in
            page_reply env iv Cursor_wallet_transactions (map toMiniAppTransaction items)
              (nextCursorFor transaction_position rows items limit))"

section \<open>The dashboard\<close>

definition DASHBOARD_TRANSACTION_COUNT :: nat where "DASHBOARD_TRANSACTION_COUNT = 5"
definition DASHBOARD_SERVICE_COUNT :: nat where "DASHBOARD_SERVICE_COUNT = 5"

record dashboard =
  db_user :: MiniAppUserDto
  db_total :: nat
  db_byStatus :: "(ServiceStatus \<times> nat) list"
  db_expiringWithin7Days :: nat
  db_recent :: "MiniAppServiceSummaryDto list"
  db_recentTransactions :: "MiniAppTransactionDto list"

definition service_groups :: "service_row list \<Rightarrow> (ServiceStatus \<times> nat) list" where
  "service_groups svs = map (\<lambda>st. (st, count_list (map sv_status svs) st)) (remdups (map sv_status svs))"

definition expiring_soon :: "int \<Rightarrow> service_row \<Rightarrow> bool" where
  "expiring_soon nowMs sv \<longleftrightarrow> sv_status sv = ServiceStatus_ACTIVE
     \<and> (case sv_expiresAt sv of None \<Rightarrow> False | Some t \<Rightarrow> nowMs < t \<and> t \<le> nowMs + 7 * day_ms)"

definition newest :: "('r \<Rightarrow> keyset_cursor) \<Rightarrow> nat \<Rightarrow> 'r list \<Rightarrow> 'r list" where
  "newest position n rows = take n (rev (sort_key position rows))"

text \<open>The time of the reply and of the oldest write behind it are not modelled.\<close>

definition get_dashboard :: "bool \<Rightarrow> int \<Rightarrow> user_row \<Rightarrow> db \<Rightarrow> dashboard http_reply" where
  "get_dashboard broken nowMs user s =
     (if broken then fail 503 Err_INTERNAL
      else let mine = filter (ownedVisibleServices (u_id user)) (services s); groups = service_groups mine in
        send \<lparr>db_user = toMiniAppUser user, db_total = sum_list (map snd groups), db_byStatus = groups,
          db_expiringWithin7Days = count_where (expiring_soon nowMs) mine,
          db_recent = map (toMiniAppServiceSummary nowMs) (newest service_position DASHBOARD_SERVICE_COUNT mine),
          db_recentTransactions = map toMiniAppTransaction
            (newest transaction_position DASHBOARD_TRANSACTION_COUNT (filter (\<lambda>t. wt_userId t = u_id user) (wallet_txs s)))\<rparr>)"

section \<open>What the client sees of a ticket\<close>

definition ticketShortId :: "ticket_row \<Rightarrow> string" where
  "ticketShortId t = take 8 (tk_id t)"

record MiniAppTicketSummaryDto =
  mt_id :: string
  mt_subject :: "string option"
  mt_status :: SupportTicketStatus
  mt_category :: "string option"
  mt_waitingParty :: "TicketWaitingParty option"
  mt_service :: "(string \<times> string) option"
  mt_createdAt :: int
  mt_updatedAt :: int

record MiniAppTicketDetailDto = MiniAppTicketSummaryDto +
  mt_origin :: "string option"
  mt_closedAt :: "int option"
  mt_canReply :: bool
  mt_hasAttachments :: bool

definition toMiniAppTicketSummary :: "ticket_with_label \<Rightarrow> MiniAppTicketSummaryDto" where
  "toMiniAppTicketSummary labelled =
     (case labelled of (t, service) \<Rightarrow>
        \<lparr>mt_id = ticketShortId t, mt_subject = tk_subject t, mt_status = tk_status t, mt_category = tk_category t,
         mt_waitingParty = ticketWaitingParty (tk_status t),
         mt_service = map_option (\<lambda>v. (serviceShortId (fst v), snd v)) service,
         mt_createdAt = tk_createdAt t, mt_updatedAt = tk_updatedAt t\<rparr>)"

definition toMiniAppTicketDetail :: "ticket_with_label \<Rightarrow> bool \<Rightarrow> bool \<Rightarrow> MiniAppTicketDetailDto" where
  "toMiniAppTicketDetail labelled canReply hasAttachments =
     MiniAppTicketSummaryDto.extend (toMiniAppTicketSummary labelled)
       (MiniAppTicketDetailDto.fields (tk_origin (fst labelled)) (tk_closedAt (fst labelled)) canReply hasAttachments)"

record MiniAppMessageDto =
  mm_senderType :: SupportMessageSenderType
  mm_text :: "string option"
  mm_hasAttachment :: bool
  mm_createdAt :: int

definition toMiniAppMessage :: "message_row \<Rightarrow> MiniAppMessageDto" where
  "toMiniAppMessage m =
     \<lparr>mm_senderType = sm_senderType m, mm_text = sm_text m, mm_hasAttachment = (sm_fileId m \<noteq> None),
      mm_createdAt = sm_createdAt m\<rparr>"

section \<open>Reading the support desk\<close>

definition SUMMARY_RECENT_TICKETS :: nat where "SUMMARY_RECENT_TICKETS = 5"
definition DEFAULT_MESSAGE_PAGE :: nat where "DEFAULT_MESSAGE_PAGE = 20"

definition get_support_summary ::
  "bool \<Rightarrow> user_row \<Rightarrow> db \<Rightarrow> (TicketSummary \<times> MiniAppTicketSummaryDto list) http_reply" where
  "get_support_summary broken user s =
     (if broken then fail 503 Err_INTERNAL
      else send (summarizeOwnedTickets (u_id user) s,
        map toMiniAppTicketSummary (tp_tickets (listOwnedTickets s (u_id user) SUMMARY_RECENT_TICKETS None))))"

definition get_tickets ::
  "door_env \<Rightarrow> bool \<Rightarrow> byte list \<Rightarrow> page_query \<Rightarrow> user_row \<Rightarrow> db \<Rightarrow> MiniAppTicketSummaryDto page_body http_reply" where
  "get_tickets env broken iv query user s =
     (case read_cursor env query Cursor_support_tickets of
        None \<Rightarrow> fail 400 Err_BAD_REQUEST
      | Some after \<Rightarrow>
          if broken then fail 503 Err_INTERNAL
          else let page = listOwnedTickets s (u_id user) (clampPageSize (pq_limit query)) after in
            page_reply env iv Cursor_support_tickets (map toMiniAppTicketSummary (tp_tickets page)) (tp_next page))"

definition ticket_detail :: "ticket_with_label \<Rightarrow> db \<Rightarrow> MiniAppTicketDetailDto" where
  "ticket_detail labelled s = toMiniAppTicketDetail labelled (userMayReply (tk_status (fst labelled))) (ticketHasAttachments (tk_id (fst labelled)) s)"

definition get_ticket ::
  "bool \<Rightarrow> (db \<Rightarrow> db) \<Rightarrow> string \<Rightarrow> user_row \<Rightarrow> db \<Rightarrow> MiniAppTicketDetailDto http_reply" where
  "get_ticket broken between ticketId user s =
     (if broken then fail 503 Err_INTERNAL
      else case resolveOwnedTicket s (u_id user) (JStr ticketId) of
        None \<Rightarrow> fail 404 Err_NOT_FOUND
      | Some labelled \<Rightarrow> send (ticket_detail labelled (between s)))"

definition get_messages ::
  "door_env \<Rightarrow> bool \<Rightarrow> (db \<Rightarrow> db) \<Rightarrow> byte list \<Rightarrow> page_query \<Rightarrow> string \<Rightarrow> user_row \<Rightarrow> db \<Rightarrow>
   MiniAppMessageDto page_body http_reply" where
  "get_messages env broken between iv query ticketId user s =
     (let limit = clampPageSize (Some (case pq_limit query of None \<Rightarrow> show_nat DEFAULT_MESSAGE_PAGE | Some l \<Rightarrow> l)) in
      case read_cursor env query Cursor_support_messages of
        None \<Rightarrow> fail 400 Err_BAD_REQUEST
      | Some older \<Rightarrow>
          if broken then fail 503 Err_INTERNAL
          else case listOwnedTicketMessages between s (u_id user) (JStr ticketId) limit older of
            None \<Rightarrow> fail 404 Err_NOT_FOUND
          | Some page \<Rightarrow>
              page_reply env iv Cursor_support_messages (map toMiniAppMessage (mp_messages page)) (mp_older page))"

section \<open>Writing to the support desk\<close>

record route_state =
  rt_limiters :: SupportMutationLimiters
  rt_join :: join_state

definition support_guard :: "door_env \<Rightarrow> int \<Rightarrow> guard_env" where
  "support_guard env nowMs =
     \<lparr>ge_allowedOrigins = dr_allowedOrigins env, ge_production = dr_production env,
      ge_userLimit = miniAppSupportRateLimit (dr_config env),
      ge_clientLimit = miniAppSupportClientRateLimit (dr_config env),
      ge_digest = dr_digest env, ge_salt = dr_salt env, ge_nowMs = nowMs\<rparr>"

definition sendMutationRejection :: "MutationRejection \<Rightarrow> 'a http_reply" where
  "sendMutationRejection r =
     \<lparr>hr_status = mr_status r, hr_body = Gate_refused (mr_code r), hr_setCookie = None,
      hr_retryAfter = mr_retryAfterSeconds r\<rparr>"

text \<open>A field of the body; what is missing, and a body that is no object, is \<open>JNull\<close> to the domain.\<close>

definition request_field :: "json \<Rightarrow> string \<Rightarrow> json" where
  "request_field body k =
     (case body of JObj kvs \<Rightarrow> (case map_of kvs k of Some v \<Rightarrow> v | None \<Rightarrow> JNull) | _ \<Rightarrow> JNull)"

definition ticket_input :: "json \<Rightarrow> CreateTicketInput" where
  "ticket_input body =
     \<lparr>ci_subject = request_field body ''subject'', ci_message = request_field body ''message'',
      ci_category = request_field body ''category'', ci_origin = JStr ''MINIAPP'',
      ci_servicePublicId = request_field body ''serviceId'', ci_clientRequestId = request_field body ''clientRequestId''\<rparr>"

definition reply_input :: "string \<Rightarrow> json \<Rightarrow> ReplyInput" where
  "reply_input ticketId body =
     \<lparr>ri_ticketPublicId = JStr ticketId, ri_message = request_field body ''message'',
      ri_clientRequestId = request_field body ''clientRequestId''\<rparr>"

text \<open>\<open>broken\<close> says that the read of the attachments after the write fails.\<close>

definition write_reply :: "bool \<Rightarrow> (db \<Rightarrow> db) \<Rightarrow> support_outcome \<Rightarrow> db \<Rightarrow> MiniAppTicketDetailDto http_reply" where
  "write_reply broken between outcome s =
     (case outcome of
        SupportThrows \<Rightarrow> fail 503 Err_INTERNAL
      | Answered (Inl e) \<Rightarrow>
          \<lparr>hr_status = supportDomainErrorStatus e, hr_body = Support_refused e, hr_setCookie = None, hr_retryAfter = None\<rparr>
      | Answered (Inr (labelled, _)) \<Rightarrow>
          if broken then fail 503 Err_INTERNAL else (send (ticket_detail labelled (between s)))\<lparr>hr_status := 201\<rparr>)"

text \<open>
  A mutation: the session hook, the gate, then \<open>act\<close>, the call of the domain for the user at the time of
  the request.
\<close>

definition guarded_write ::
  "door_env \<Rightarrow> bool \<Rightarrow> (db \<Rightarrow> db) \<Rightarrow> api_request \<Rightarrow> (string \<Rightarrow> int \<Rightarrow> db \<Rightarrow> support_outcome \<times> db) \<Rightarrow> route_state \<Rightarrow>
   MiniAppTicketDetailDto http_reply \<times> route_state" where
  "guarded_write env broken between request act st =
     (case authenticate env request (rt_join st) of
        (Inl reply, j) \<Rightarrow> (reply, st\<lparr>rt_join := j\<rparr>)
      | (Inr user, j) \<Rightarrow>
          (case checkSupportMutation (support_guard env (now_of j)) (u_id user) request (rt_limiters st) of
             (Some rejection, limiters) \<Rightarrow> (sendMutationRejection rejection, \<lparr>rt_limiters = limiters, rt_join = j\<rparr>)
           | (None, limiters) \<Rightarrow>
               (case act (u_id user) (now_of j) (jn_db j) of
                  (outcome, s) \<Rightarrow>
                    (write_reply broken between outcome s, \<lparr>rt_limiters = limiters, rt_join = j\<lparr>jn_db := s\<rparr>\<rparr>))))"

definition post_ticket ::
  "door_env \<Rightarrow> bool \<Rightarrow> (db \<Rightarrow> db) \<Rightarrow> (nat \<Rightarrow> db \<Rightarrow> db) \<Rightarrow> (string \<Rightarrow> string) \<Rightarrow> api_request \<Rightarrow> json \<Rightarrow> route_state \<Rightarrow>
   MiniAppTicketDetailDto http_reply \<times> route_state" where
  "post_ticket env broken between others sha request body =
     guarded_write env broken between request (\<lambda>userId now. createTicket others sha now userId (ticket_input body))"

definition post_reply ::
  "door_env \<Rightarrow> bool \<Rightarrow> (db \<Rightarrow> db) \<Rightarrow> (nat \<Rightarrow> db \<Rightarrow> db) \<Rightarrow> (string \<Rightarrow> string) \<Rightarrow> api_request \<Rightarrow> string \<Rightarrow> json \<Rightarrow> route_state \<Rightarrow>
   MiniAppTicketDetailDto http_reply \<times> route_state" where
  "post_reply env broken between others sha request ticketId body =
     guarded_write env broken between request (\<lambda>userId now. replyToTicket others sha now userId (reply_input ticketId body))"

end
