(* ===== verification/MiniAppSessionFacts.thy ===== *)
theory MiniAppSessionFacts
  imports MiniAppSession
begin

text \<open>
  What a session token and a signed text of Telegram prove: a token opens to the user it was issued to until
  it expires and cannot be made from anything else; a text that is accepted is fresh and is, up to the order
  of its fields, one that Telegram signed.
\<close>

section \<open>Splitting and joining\<close>

lemma js_split_nonempty: "js_split sep s \<noteq> []"
  by (induction s) (auto split: list.splits)

lemma js_split_append: "sep \<notin> set x \<Longrightarrow> js_split sep (x @ sep # r) = x # js_split sep r"
  by (induction x) (auto simp: js_split_nonempty split: list.splits)

lemma js_split_single: "sep \<notin> set x \<Longrightarrow> js_split sep x = [x]"
  by (induction x) auto

lemma js_split_join: "xs \<noteq> [] \<Longrightarrow> \<forall>x \<in> set xs. sep \<notin> set x \<Longrightarrow> js_split sep (js_join [sep] xs) = xs"
  by (induction "[sep]" xs rule: js_join.induct) (simp_all add: js_split_single js_split_append)

lemma js_join_split: "js_join [sep] (js_split sep s) = s"
proof (induction s)
  case (Cons c s)
  then show ?case
    using js_split_nonempty [of sep s] by (cases "js_split sep s"; cases "tl (js_split sep s)") auto
qed simp

lemma js_split_parts: "x \<in> set (js_split sep s) \<Longrightarrow> sep \<notin> set x"
  by (induction s arbitrary: x) (auto split: if_splits list.splits)

section \<open>Text\<close>

lemma text_of_text_bytes [simp]: "text_of_bytes (text_bytes s) = s"
proof -
  have "char_of (unat (of_nat (char_code c) :: byte)) = c" for c
    by (simp add: char_code_def unat_of_nat)
  then show ?thesis by (induction s) (simp_all add: text_of_bytes_def text_bytes_def)
qed

definition utf8_valid :: "string \<Rightarrow> bool" where
  "utf8_valid s \<longleftrightarrow> escapes_ok (0, 0, 0) (map (Pair True) s)"

lemma escapes_zero: "escapes_ok (0, lo, hi) es = escapes_ok (0, 0, 0) es"
  by (cases es) auto

lemma utf8_lossy_valid:
  "escapes_ok (n, lo, hi) (map (Pair True) s) \<Longrightarrow> (p = [] \<longleftrightarrow> n = 0) \<Longrightarrow> utf8_lossy p (n, lo, hi) s = p @ s"
proof (induction p "(n, lo, hi)" s arbitrary: n lo hi rule: utf8_lossy.induct)
  case (2 p n lo hi c r)
  show ?case
  proof (cases n)
    case 0
    then have p: "p = []" using "2.prems"(2) by simp
    show ?thesis
    proof (cases "char_code c < 128")
      case True
      then show ?thesis using 2 0 p by simp
    next
      case False
      then obtain w where w: "utf8_lead c = Some w" "escapes_ok w (map (Pair True) r)"
        using "2.prems"(1) 0 by (auto split: option.splits)
      then have "fst w \<noteq> 0" by (auto simp: utf8_lead_def Let_def split: if_splits)
      then show ?thesis using 2 0 p False w by (cases w) simp
    qed
  next
    case (Suc m)
    then have "escapes_ok (m, 128, 191) (map (Pair True) r)" "p \<noteq> []" "lo \<le> char_code c \<and> char_code c \<le> hi"
      using "2.prems" by auto
    then show ?thesis using "2.hyps"(1,2) Suc escapes_zero [of 128 191] by (cases m) simp_all
  qed
qed simp

lemma utf8_text_valid: "utf8_valid s \<Longrightarrow> utf8_text (text_bytes s) = s"
  using utf8_lossy_valid [of 0 0 0 s "[]"] by (simp add: utf8_valid_def utf8_text_def)

lemma b64_chars: "c \<in> set (b64url_encode bs) \<Longrightarrow> b64_value c \<noteq> None"
  using sextets_small [of bs] b64_value_char by (fastforce simp: b64url_encode_def)

lemma b64_no_sep [simp]:
  "CHR ''.'' \<notin> set (b64url_encode bs)" "CHR '';'' \<notin> set (b64url_encode bs)"
  using b64_chars by (fastforce simp: b64_value_def char_code_def)+

lemma b64url_encode_inject: "b64url_encode as = b64url_encode bs \<Longrightarrow> as = bs"
  by (metis b64url_roundtrip)

lemma text_bytes_inject: "text_bytes s = text_bytes t \<Longrightarrow> s = t"
  by (metis text_of_text_bytes)

lemma digits_no_sep [simp]:
  "CHR ''.'' \<notin> set (show_nat n)" "CHR '';'' \<notin> set (show_nat n)"
  using show_nat_digits [of n] by (auto simp: is_digit_def char_code_def)

lemma length_show_nat: "n < 10 ^ Suc k \<Longrightarrow> length (show_nat n) \<le> Suc k"
proof (induction k arbitrary: n)
  case 0
  then show ?case by (subst show_nat.simps) simp
next
  case (Suc k)
  show ?case
  proof (cases "n < 10")
    case True
    then show ?thesis by (subst show_nat.simps) simp
  next
    case False
    have "n div 10 < 10 ^ Suc k" using Suc.prems by (simp add: less_mult_imp_div_less)
    then show ?thesis using Suc.IH [of "n div 10"] False by (subst show_nat.simps) simp
  qed
qed

lemma show_nat_15: "n < 10 ^ 15 \<Longrightarrow> up_to_15_digits (show_nat n)"
  using length_show_nat [of n 14] show_nat_digits [of n] by (simp add: up_to_15_digits_def list_all_iff)

section \<open>The session token\<close>

lemma session_ttl_bounds: "60 \<le> session_ttl ttl" "session_ttl ttl \<le> 3600"
  by (simp_all add: session_ttl_def MINIAPP_SESSION_MIN_TTL_SECONDS_def MINIAPP_SESSION_MAX_TTL_SECONDS_def)

definition clock_ok :: "int \<Rightarrow> bool" where
  "clock_ok nowMs \<longleftrightarrow> 0 \<le> nowMs \<and> nowMs < 10 ^ 17"

lemma expiry_digits:
  assumes "clock_ok nowMs"
  shows "up_to_15_digits (show_int (nowMs div 1000 + session_ttl ttl))"
    "int (read_nat (show_int (nowMs div 1000 + session_ttl ttl))) = nowMs div 1000 + session_ttl ttl"
    "CHR ''.'' \<notin> set (show_int (nowMs div 1000 + session_ttl ttl))"
    "CHR '';'' \<notin> set (show_int (nowMs div 1000 + session_ttl ttl))"
proof -
  have "0 \<le> nowMs div 1000 + session_ttl ttl" "nowMs div 1000 + session_ttl ttl < 10 ^ 15"
    using assms session_ttl_bounds [of ttl] by (auto simp: clock_ok_def)
  then have "show_int (nowMs div 1000 + session_ttl ttl) = show_nat (nat (nowMs div 1000 + session_ttl ttl))"
    and "nat (nowMs div 1000 + session_ttl ttl) < 10 ^ 15" by (simp_all add: show_int_def)
  then show "up_to_15_digits (show_int (nowMs div 1000 + session_ttl ttl))"
    "int (read_nat (show_int (nowMs div 1000 + session_ttl ttl))) = nowMs div 1000 + session_ttl ttl"
    "CHR ''.'' \<notin> set (show_int (nowMs div 1000 + session_ttl ttl))"
    "CHR '';'' \<notin> set (show_int (nowMs div 1000 + session_ttl ttl))"
    using show_nat_15 \<open>0 \<le> nowMs div 1000 + session_ttl ttl\<close> by simp_all
qed

lemma token_parts:
  "session_body encoded expiry @ ''.'' @ session_mac cr key m =
    js_join ''.'' [MINIAPP_SESSION_VERSION, encoded, expiry, session_mac cr key m]"
  by (simp add: session_body_def)

lemma version_no_dot [simp]: "CHR ''.'' \<notin> set MINIAPP_SESSION_VERSION"
  by (simp add: MINIAPP_SESSION_VERSION_def)

lemma split_token:
  assumes "CHR ''.'' \<notin> set encoded" and "CHR ''.'' \<notin> set expiry"
  shows "js_split CHR ''.'' (session_body encoded expiry @ ''.'' @ session_mac cr key m)
    = [MINIAPP_SESSION_VERSION, encoded, expiry, session_mac cr key m]"
  unfolding token_parts by (rule js_split_join) (use assms in \<open>simp_all add: session_mac_def\<close>)

lemma verify_issued:
  assumes key: "sessionKey cr secret = Some key" and "userId \<noteq> []" and "utf8_valid userId" and "clock_ok nowMs"
  shows "verifyMiniAppSession cr secret later (issued_body userId ttl nowMs @ ''.'' @ session_mac cr key (issued_body userId ttl nowMs))
    = Some (let expiry = nowMs div 1000 + session_ttl ttl in
        if expiry \<le> later div 1000 then Inl Session_EXPIRED
        else Inr \<lparr>ss_userId = userId, ss_expiresAtSeconds = expiry\<rparr>)"
  using assms expiry_digits [OF assms(4), of ttl] split_token [of "b64url_encode (text_bytes userId)"
      "show_int (nowMs div 1000 + session_ttl ttl)" cr key "issued_body userId ttl nowMs"]
  by (simp add: verifyMiniAppSession_def issued_body_def Let_def b64url_roundtrip utf8_text_valid)

lemma issue_Some:
  "issueMiniAppSession cr secret userId ttl nowMs = Some token \<longleftrightarrow>
     (\<exists>key. sessionKey cr secret = Some key
       \<and> token = issued_body userId ttl nowMs @ ''.'' @ session_mac cr key (issued_body userId ttl nowMs))"
  by (auto simp: issueMiniAppSession_def Let_def)

lemma key_value:
  assumes "CHR ''='' \<notin> set k"
  shows "before_eq (k @ CHR ''='' # v) = k" "after_eq (k @ CHR ''='' # v) = v"
proof -
  have "\<forall>x \<in> set k. x \<noteq> CHR ''=''" using assms by metis
  then show "before_eq (k @ CHR ''='' # v) = k" "after_eq (k @ CHR ''='' # v) = v"
    by (simp_all add: before_eq_def after_eq_def takeWhile_tail dropWhile_append3 takeWhile_eq_all_conv dropWhile_eq_Nil_conv)
qed

lemma cookie_value:
  assumes "CHR '';'' \<notin> set token" and "\<forall>c \<in> set token. \<not> is_ws c"
  shows "readMiniAppSessionCookie (Some (serializeMiniAppSessionCookie token secure maxAge)) = Some token"
proof -
  let ?c = "MINIAPP_SESSION_COOKIE_NAME @ ''='' @ token"
  obtain r where r: "serializeMiniAppSessionCookie token secure maxAge = ?c @ CHR '';'' # r"
    by (simp add: serializeMiniAppSessionCookie_def)
  have "CHR '';'' \<notin> set ?c" using assms(1) by (simp add: MINIAPP_SESSION_COOKIE_NAME_def)
  from js_split_append [OF this]
  have s: "js_split CHR '';'' (?c @ CHR '';'' # r) = ?c # js_split CHR '';'' r" .
  have n: "CHR ''='' \<notin> set MINIAPP_SESSION_COOKIE_NAME" "MINIAPP_SESSION_COOKIE_NAME \<noteq> []"
    "js_trim MINIAPP_SESSION_COOKIE_NAME = MINIAPP_SESSION_COOKIE_NAME"
    by code_simp+
  have "before_eq ?c = MINIAPP_SESSION_COOKIE_NAME" "after_eq ?c = token"
    using key_value [OF n(1)] by simp_all
  then have "cookie_in (?c # js_split CHR '';'' r) = Some token"
    using n js_trim_id [OF assms(2)] by simp
  moreover have "?c @ CHR '';'' # r \<noteq> []" by simp
  ultimately show ?thesis
    unfolding readMiniAppSessionCookie_def r option.case using s by (simp only: if_False)
qed

lemma token_clean:
  assumes "clock_ok nowMs"
  shows "CHR '';'' \<notin> set (issued_body userId ttl nowMs @ ''.'' @ session_mac cr key m)"
    "\<forall>c \<in> set (issued_body userId ttl nowMs @ ''.'' @ session_mac cr key m). \<not> is_ws c"
proof -
  have b: "\<forall>c \<in> set (b64url_encode bs). \<not> is_ws c" for bs
    using b64_chars [of _ bs] by (fastforce simp: b64_value_def is_ws_def char_code_def Let_def split: if_splits)
  have d: "\<forall>c \<in> set (show_int (nowMs div 1000 + session_ttl ttl)). \<not> is_ws c"
    using show_int_chars by (fastforce simp: is_ws_def is_digit_def char_code_def)
  show "CHR '';'' \<notin> set (issued_body userId ttl nowMs @ ''.'' @ session_mac cr key m)"
    using expiry_digits(4) [OF assms]
    by (simp add: issued_body_def session_body_def session_mac_def MINIAPP_SESSION_VERSION_def)
  show "\<forall>c \<in> set (issued_body userId ttl nowMs @ ''.'' @ session_mac cr key m). \<not> is_ws c"
    using b d by (auto simp: issued_body_def session_body_def session_mac_def MINIAPP_SESSION_VERSION_def is_ws_def char_code_def)
qed

text \<open>
  A session opens to its user until it expires. A token that is issued, put into the cookie and read
  back verifies as the user it was issued to, with its expiry, as long as the clock is before the expiry,
  and as expired from then on; the expiry lies between one minute and one hour after the issue, whatever
  lifetime is configured.
\<close>

theorem session_opens_until_expiry:
  assumes "issueMiniAppSession cr secret userId ttl nowMs = Some token"
    and "userId \<noteq> []" and "utf8_valid userId" and "clock_ok nowMs"
  shows "readMiniAppSessionCookie (Some (serializeMiniAppSessionCookie token secure maxAge)) = Some token
    \<and> (\<exists>expiry. nowMs div 1000 + 60 \<le> expiry \<and> expiry \<le> nowMs div 1000 + 3600
        \<and> verifyMiniAppSession cr secret later token
            = Some (if expiry \<le> later div 1000 then Inl Session_EXPIRED
                else Inr \<lparr>ss_userId = userId, ss_expiresAtSeconds = expiry\<rparr>))"
proof -
  obtain key where k: "sessionKey cr secret = Some key"
    and t: "token = issued_body userId ttl nowMs @ ''.'' @ session_mac cr key (issued_body userId ttl nowMs)"
    using assms(1) issue_Some by blast
  show ?thesis
    using cookie_value [OF token_clean [OF assms(4)]] verify_issued [OF k assms(2-4)] session_ttl_bounds [of ttl]
    unfolding t by (auto simp: Let_def intro!: exI [of _ "nowMs div 1000 + session_ttl ttl"])
qed

lemma verify_Inr:
  assumes "verifyMiniAppSession cr secret nowMs token = Some (Inr p)"
  obtains key encoded expiry where "sessionKey cr secret = Some key"
    and "token = session_body encoded expiry @ ''.'' @ session_mac cr key (session_body encoded expiry)"
    and "CHR ''.'' \<notin> set encoded" and "CHR ''.'' \<notin> set expiry"
proof -
  obtain version encoded expiry signature where s: "js_split CHR ''.'' token = [version, encoded, expiry, signature]"
    using assms by (auto simp: verifyMiniAppSession_def split: if_splits list.splits)
  moreover have "\<forall>x \<in> {encoded, expiry}. CHR ''.'' \<notin> set x"
    using js_split_parts [of _ "CHR ''.''" token] unfolding s by simp
  moreover have "token = js_join ''.'' [version, encoded, expiry, signature]"
    using js_join_split [of "CHR ''.''" token] unfolding s by simp
  ultimately have "\<exists>key. sessionKey cr secret = Some key
      \<and> token = session_body encoded expiry @ ''.'' @ session_mac cr key (session_body encoded expiry)
      \<and> CHR ''.'' \<notin> set encoded \<and> CHR ''.'' \<notin> set expiry"
    using assms unfolding token_parts by (auto simp: verifyMiniAppSession_def split: if_splits)
  then show ?thesis using that by blast
qed

text \<open>
  C28. A token that opens is one that the server issued. Whoever presents a token knows no signature but
  those of texts that the server signed, and the server signs nothing but what it issues; then a token
  that verifies is, byte for byte, one that was issued to that user, and neither the user nor the expiry
  can be changed.
\<close>

theorem accepted_session_was_issued:
  assumes "verifyMiniAppSession cr secret nowMs token = Some (Inr p)"
    and "\<forall>key m. sessionKey cr secret = Some key \<and> List.last (js_split CHR ''.'' token) = session_mac cr key m \<longrightarrow> m \<in> issued"
    and "\<forall>m \<in> issued. \<exists>userId ttl t. m = issued_body userId ttl t \<and> userId \<noteq> [] \<and> utf8_valid userId \<and> clock_ok t"
  shows "\<exists>ttl t. issueMiniAppSession cr secret (ss_userId p) ttl t = Some token
    \<and> ss_expiresAtSeconds p = t div 1000 + session_ttl ttl \<and> nowMs div 1000 < ss_expiresAtSeconds p"
proof -
  obtain key encoded expiry where k: "sessionKey cr secret = Some key"
    and t: "token = session_body encoded expiry @ ''.'' @ session_mac cr key (session_body encoded expiry)"
    and d: "CHR ''.'' \<notin> set encoded" "CHR ''.'' \<notin> set expiry"
    by (rule verify_Inr [OF assms(1)])
  have "session_body encoded expiry \<in> issued"
    using assms(2) k split_token [OF d] unfolding t by simp
  then obtain userId ttl u where i: "session_body encoded expiry = issued_body userId ttl u"
    and ok: "userId \<noteq> []" "utf8_valid userId" "clock_ok u"
    using assms(3) by blast
  have "Some (Inr p) = Some (let expiry = u div 1000 + session_ttl ttl in
        if expiry \<le> nowMs div 1000 then Inl Session_EXPIRED
        else Inr \<lparr>ss_userId = userId, ss_expiresAtSeconds = expiry\<rparr>)"
    using verify_issued [OF k ok] assms(1) unfolding t i by simp
  then have "p = \<lparr>ss_userId = userId, ss_expiresAtSeconds = u div 1000 + session_ttl ttl\<rparr>"
    "nowMs div 1000 < u div 1000 + session_ttl ttl"
    by (auto simp: Let_def split: if_splits)
  moreover have "issueMiniAppSession cr secret userId ttl u = Some token"
    using k t unfolding i by (simp add: issue_Some)
  ultimately show ?thesis by auto
qed

section \<open>The signed text of Telegram\<close>

lemma parse_chunks_Inr:
  "parse_chunks chunks pairs = Inr pairs' \<Longrightarrow> distinct (map fst pairs) \<Longrightarrow> distinct (map fst pairs')"
proof (induction chunks pairs rule: parse_chunks.induct)
  case (2 chunk chunks pairs)
  then show ?case by (auto split: if_splits option.splits)
qed simp

text \<open>Fields without a line break, and keys without an equals sign: what a line of the signed text stands for.\<close>

definition plain_fields :: "field_pairs \<Rightarrow> bool" where
  "plain_fields pairs \<longleftrightarrow> (\<forall>p \<in> set pairs. CHR ''='' \<notin> set (fst p) \<and> CHR 0x0A \<notin> set (fst p) \<and> CHR 0x0A \<notin> set (snd p))"

definition signed_fields :: "field_pairs \<Rightarrow> (string \<times> string) set" where
  "signed_fields pairs = {p \<in> set pairs. fst p \<noteq> ''hash''}"

lemma field_line_inject:
  assumes "CHR ''='' \<notin> set (fst p)" and "CHR ''='' \<notin> set (fst q)" and "field_line p = field_line q"
  shows "p = q"
  using append_sep_inject [OF assms(1,2), of "snd p" "snd q"] assms(3) by (simp add: field_line_def prod_eq_iff)

definition check_lines :: "field_pairs \<Rightarrow> string list" where
  "check_lines pairs = map field_line (sorted_fields (filter (\<lambda>p. fst p \<noteq> ''hash'') pairs))"

lemma check_string: "buildBotTokenCheckString pairs = js_join [CHR 0x0A] (check_lines pairs)"
  by (simp add: buildBotTokenCheckString_def check_lines_def)

lemma check_lines_set: "set (check_lines pairs) = field_line ` signed_fields pairs"
  by (auto simp: check_lines_def sorted_fields_def signed_fields_def)

lemma join_lines_empty: "js_join sep (map field_line xs) = [] \<longleftrightarrow> xs = []"
  by (cases xs; cases "tl xs") (auto simp: field_line_def)

lemma check_string_empty: "buildBotTokenCheckString pairs = [] \<longleftrightarrow> check_lines pairs = []"
  unfolding check_string check_lines_def join_lines_empty by simp

lemma check_lines_plain: "plain_fields pairs \<Longrightarrow> \<forall>x \<in> set (check_lines pairs). CHR 0x0A \<notin> set x"
  unfolding check_lines_set by (auto simp: plain_fields_def signed_fields_def field_line_def)

lemma check_string_lines:
  assumes "plain_fields ps" and "plain_fields qs" and eq: "buildBotTokenCheckString ps = buildBotTokenCheckString qs"
  shows "check_lines ps = check_lines qs"
proof (cases "check_lines ps = []")
  case True
  then show ?thesis using check_string_empty eq by metis
next
  case False
  then have "check_lines qs \<noteq> []" using check_string_empty eq by metis
  have "js_split CHR 0x0A (buildBotTokenCheckString ps) = check_lines ps"
    unfolding check_string by (rule js_split_join [OF False check_lines_plain [OF assms(1)]])
  moreover have "js_split CHR 0x0A (buildBotTokenCheckString qs) = check_lines qs"
    unfolding check_string by (rule js_split_join [OF \<open>check_lines qs \<noteq> []\<close> check_lines_plain [OF assms(2)]])
  ultimately show ?thesis unfolding eq by (rule subst)
qed

lemma check_string_fields:
  assumes "plain_fields ps" and "plain_fields qs" and "buildBotTokenCheckString ps = buildBotTokenCheckString qs"
  shows "signed_fields ps = signed_fields qs"
proof -
  have "field_line ` signed_fields ps = field_line ` signed_fields qs"
    using check_string_lines [OF assms] check_lines_set by metis
  moreover have "inj_on field_line (signed_fields ps \<union> signed_fields qs)"
    using assms(1,2) by (intro inj_onI field_line_inject) (auto simp: plain_fields_def signed_fields_def)
  ultimately show ?thesis by (simp add: inj_on_Un_image_eq_iff)
qed

lemma map_of_signed:
  assumes "distinct (map fst ps)" and "distinct (map fst qs)" and "signed_fields ps = signed_fields qs" and "k \<noteq> ''hash''"
  shows "map_of ps k = map_of qs k"
proof -
  have "map_of xs k = Some v \<longleftrightarrow> (k, v) \<in> signed_fields xs" if "distinct (map fst xs)" for xs v
    using that assms(4) by (auto simp: signed_fields_def dest: map_of_SomeD)
  then have "map_of ps k = Some v \<longleftrightarrow> map_of qs k = Some v" for v using assms(1-3) by blast
  then show ?thesis by (metis not_Some_eq)
qed

lemma init_data_Inr:
  assumes "validateMiniAppInitData cr botToken maxAge now initData = Inr u"
  obtains pairs authDate user hash where "parseStrict initData = Inr pairs" and "distinct (map fst pairs)"
    and "map_of pairs ''hash'' = Some hash"
    and "hex_bytes hash = init_data_signature cr botToken pairs"
    and "map_of pairs ''auth_date'' = Some authDate" and "map_of pairs ''user'' = Some user"
    and "iu_authDateSeconds u = int (read_nat authDate)" and "extractTelegramId user = Some (iu_telegramId u)"
    and "now - maxAge \<le> iu_authDateSeconds u" and "iu_authDateSeconds u \<le> now + 30"
proof -
  obtain pairs where p: "parseStrict initData = Inr pairs"
    using assms by (auto simp: validateMiniAppInitData_def split: if_splits sum.splits)
  have d: "distinct (map fst pairs)" using parse_chunks_Inr [OF p [unfolded parseStrict_def]] by simp
  obtain hash authDate user where f: "map_of pairs ''hash'' = Some hash" "map_of pairs ''auth_date'' = Some authDate"
    "map_of pairs ''user'' = Some user"
    using assms p by (auto simp: validateMiniAppInitData_def Let_def absent_def split: if_splits)
  have "hex_bytes hash = init_data_signature cr botToken pairs \<and> iu_authDateSeconds u = int (read_nat authDate)
    \<and> extractTelegramId user = Some (iu_telegramId u) \<and> now - maxAge \<le> iu_authDateSeconds u
    \<and> iu_authDateSeconds u \<le> now + 30"
    using assms p f by (auto simp: validateMiniAppInitData_def Let_def MINIAPP_INITDATA_MAX_FUTURE_SKEW_SECONDS_def
        split: if_splits option.splits)
  then show ?thesis using that [OF p d f(1) _ f(2,3)] by blast
qed

text \<open>
  C29. Whom the Mini App lets in, Telegram named. Whoever sends the text knows no signature under the
  bot's token but those of the texts that Telegram signed; then a text that is accepted names the user
  and the date of one of those texts, has no field more, fewer or other than it, and its date is neither
  older than the window nor more than half a minute ahead. Fields with line breaks are excepted: the
  lines of two such texts can coincide.
\<close>

theorem accepted_init_data_was_signed:
  assumes "validateMiniAppInitData cr botToken maxAge now initData = Inr u"
    and "parseStrict initData = Inr pairs" and "plain_fields pairs"
    and "\<forall>m. cr_hmac cr (cr_hmac cr (text_bytes ''WebAppData'') botToken) m = hex_bytes (the (map_of pairs ''hash''))
      \<longrightarrow> (\<exists>fields \<in> sent. m = buildBotTokenCheckString fields)"
    and "\<forall>fields \<in> sent. plain_fields fields \<and> distinct (map fst fields)"
  shows "\<exists>fields \<in> sent. signed_fields pairs = signed_fields fields
    \<and> map_option (int \<circ> read_nat) (map_of fields ''auth_date'') = Some (iu_authDateSeconds u)
    \<and> Option.bind (map_of fields ''user'') extractTelegramId = Some (iu_telegramId u)
    \<and> now - maxAge \<le> iu_authDateSeconds u \<and> iu_authDateSeconds u \<le> now + 30"
proof -
  obtain authDate user hash where v: "distinct (map fst pairs)" "map_of pairs ''hash'' = Some hash"
    "hex_bytes hash = init_data_signature cr botToken pairs"
    "map_of pairs ''auth_date'' = Some authDate" "map_of pairs ''user'' = Some user"
    "iu_authDateSeconds u = int (read_nat authDate)" "extractTelegramId user = Some (iu_telegramId u)"
    "now - maxAge \<le> iu_authDateSeconds u" "iu_authDateSeconds u \<le> now + 30"
    using init_data_Inr [OF assms(1)] assms(2) by (metis sum.inject(2))
  obtain fields where f: "fields \<in> sent" "buildBotTokenCheckString pairs = buildBotTokenCheckString fields"
    using assms(4) v(2,3) by (auto simp: init_data_signature_def)
  have "plain_fields fields" "distinct (map fst fields)" using assms(5) f(1) by blast+
  then have s: "signed_fields pairs = signed_fields fields"
    and m: "\<forall>k. k \<noteq> ''hash'' \<longrightarrow> map_of fields k = map_of pairs k"
    using check_string_fields [OF assms(3) _ f(2)] map_of_signed [OF v(1), of fields] by auto
  have "map_of fields ''user'' = Some user" "map_of fields ''auth_date'' = Some authDate"
    using m v(4,5) by simp_all
  then show ?thesis using f(1) s v(6-9) by (intro bexI [of _ fields]) auto
qed

end
