(* ===== verification/ForceJoinFacts.thy ===== *)
theory ForceJoinFacts
  imports ForceJoin "HOL-Library.Sublist"
begin

text \<open>
  What the checks of packages/force-join promise: the gate is a verdict per channel, whatever the order in
  which the channels are checked; a channel is retired only after failures that are many and spread over
  time; retiring is recorded with the change it announces, and never leaves the switch on with no channel
  to enforce.
\<close>

section \<open>The gate is a verdict per channel\<close>

text \<open>The verdict on one channel, from the store of the cache at the start of the request.\<close>

definition channel_verdict :: "join_env \<Rightarrow> int \<Rightarrow> bool \<Rightarrow> redis \<Rightarrow> channel_row \<Rightarrow> ChannelCheck" where
  "channel_verdict env u bypass r c =
     (let cached = (if je_configured env \<and> je_get env (fc_id c) = Delivered then live r (membershipKey u c) else None) in
      if cached = Some ''1'' then JOINED
      else if cached = Some ''0'' \<and> \<not> bypass then NOT_JOINED
      else case je_answer env c of
        Member status isMember \<Rightarrow> if isForceJoinMembershipActive status isMember then JOINED else NOT_JOINED
      | ApiError code description \<Rightarrow>
          (case classifyMemberCheckError code description of
             Class_TEMP \<Rightarrow> TEMP | Class_NOT_JOINED \<Rightarrow> NOT_JOINED | Class_UNVERIFIABLE \<Rightarrow> UNVERIFIABLE))"

lemma cacheGet_eq:
  "cacheGet env i key st = (if je_configured env \<and> je_get env i = Delivered then live (jn_redis st) key else None)"
  by (cases "je_get env i") (simp_all add: cacheGet_def commandWithTimeout_def)

lemma checkChannel_verdict: "fst (checkChannel env u bypass c st) = channel_verdict env u bypass (jn_redis st) c"
  by (auto simp: checkChannel_def cacheGet_eq channel_verdict_def asked_telegram_def Let_def
      split: member_answer.splits error_class.splits)

text \<open>A check changes the cache at the key of its own channel only, and takes no time.\<close>

definition same_cache :: "string set \<Rightarrow> redis \<Rightarrow> redis \<Rightarrow> bool" where
  "same_cache keys r r' \<longleftrightarrow> rd_now r' = rd_now r \<and> (\<forall>k. k \<notin> keys \<longrightarrow> rd_store r' k = rd_store r k)"

lemma same_cache_live: "same_cache keys r r' \<Longrightarrow> k \<notin> keys \<Longrightarrow> live r' k = live r k"
  by (auto simp: same_cache_def live_def split: option.split)

lemma set_ex_cache: "same_cache {key} r (snd (set_ex key v ttl r))"
  by (simp add: same_cache_def set_ex_def put_def)

lemma cacheSet_cache: "same_cache {key} (jn_redis st) (jn_redis (cacheSet env i key v ttl st))"
proof -
  have r: "same_cache {key} r r" for r by (simp add: same_cache_def)
  show ?thesis
    by (cases "je_set env i") (simp_all add: cacheSet_def commandWithTimeout_def set_ex_cache r)
qed

lemma asked_cache: "same_cache {membershipKey u c} (jn_redis st) (jn_redis (snd (asked_telegram env u c st)))"
proof -
  let ?k = "membershipKey u c" and ?i = "fc_id c"
  have r: "same_cache {?k} (jn_redis st) (jn_redis (cacheSet env ?i ?k v ttl st'))" if "jn_redis st' = jn_redis st" for v ttl st'
    using cacheSet_cache [of ?k st' env ?i v ttl] that by simp
  have s: "same_cache {?k} (jn_redis st) (jn_redis st)" by (simp add: same_cache_def)
  show ?thesis
  proof (cases "je_answer env c")
    case (Member status isMember)
    then show ?thesis by (simp add: asked_telegram_def Let_def r)
  next
    case (ApiError code description)
    then show ?thesis
      by (cases "classifyMemberCheckError code description") (simp_all add: asked_telegram_def Let_def r s)
  qed
qed

lemma checkChannel_cache: "same_cache {membershipKey u c} (jn_redis st) (jn_redis (snd (checkChannel env u bypass c st)))"
proof -
  have s: "same_cache {membershipKey u c} (jn_redis st) (jn_redis st)" by (simp add: same_cache_def)
  show ?thesis by (simp add: checkChannel_def Let_def asked_cache s)
qed

lemma colon_parts:
  assumes "CHR '':'' \<notin> set n" "CHR '':'' \<notin> set n'" "i @ CHR '':'' # n = i' @ CHR '':'' # n'"
  shows "i = i'"
proof -
  have "rev n @ CHR '':'' # rev i = rev n' @ CHR '':'' # rev i'"
    using arg_cong [OF assms(3), of rev] by simp
  then have "dropWhile ((\<noteq>) CHR '':'') (rev n @ CHR '':'' # rev i)
      = dropWhile ((\<noteq>) CHR '':'') (rev n' @ CHR '':'' # rev i')" by (rule arg_cong)
  moreover have "dropWhile ((\<noteq>) CHR '':'') (rev m @ CHR '':'' # x) = CHR '':'' # x" if "CHR '':'' \<notin> set m" for m x
    using that by (subst dropWhile_append2) auto
  ultimately show ?thesis using assms(1,2) by simp
qed

lemma show_int_no_colon: "CHR '':'' \<notin> set (show_int n)"
  using show_int_chars [of n] by (auto simp: is_digit_def char_code_def)

lemma membershipKey_channel: "membershipKey u c = membershipKey u d \<Longrightarrow> fc_id c = fc_id d"
proof -
  assume "membershipKey u c = membershipKey u d"
  then have "fc_id c @ CHR '':'' # show_int (fc_updatedAt c) = fc_id d @ CHR '':'' # show_int (fc_updatedAt d)"
    by (simp add: membershipKey_def)
  then show ?thesis by (rule colon_parts [OF show_int_no_colon show_int_no_colon])
qed

lemma verdict_cache:
  "same_cache keys r r' \<Longrightarrow> membershipKey u c \<notin> keys \<Longrightarrow> channel_verdict env u bypass r' c = channel_verdict env u bypass r c"
proof -
  assume "same_cache keys r r'" "membershipKey u c \<notin> keys"
  then have l: "live r' (membershipKey u c) = live r (membershipKey u c)" by (rule same_cache_live)
  show ?thesis unfolding channel_verdict_def l by (rule refl)
qed

lemma check_channels_verdicts:
  assumes "distinct (map fc_id cs)"
  shows "fst (check_channels env u bypass cs st) = map (\<lambda>c. (c, channel_verdict env u bypass (jn_redis st) c)) cs"
  using assms
proof (induction cs arbitrary: st)
  case Nil
  then show ?case by simp
next
  case (Cons c cs)
  let ?st = "snd (checkChannel env u bypass c st)"
  have v: "channel_verdict env u bypass (jn_redis ?st) d = channel_verdict env u bypass (jn_redis st) d"
    if d: "d \<in> set cs" for d
  proof (rule verdict_cache [OF checkChannel_cache])
    have "fc_id d \<noteq> fc_id c" using Cons.prems d by (metis distinct.simps(2) image_eqI list.simps(9) list.set_map)
    then show "membershipKey u d \<notin> {membershipKey u c}" using membershipKey_channel by blast
  qed
  have "fst (check_channels env u bypass cs ?st)
      = map (\<lambda>d. (d, channel_verdict env u bypass (jn_redis ?st) d)) cs"
    using Cons.IH [of ?st] Cons.prems by simp
  also have "\<dots> = map (\<lambda>d. (d, channel_verdict env u bypass (jn_redis st) d)) cs"
    using v by simp
  finally show ?case
    by (simp add: split_beta checkChannel_verdict)
qed

lemma gate_verdicts:
  assumes "distinct (map fc_id cs)"
  shows "fst (evaluateForceJoinMembership env u cs bypass st) =
    (let verdict = channel_verdict env u bypass (jn_redis st);
         missing = filter (\<lambda>c. verdict c = NOT_JOINED) cs
     in if missing \<noteq> [] then MISSING missing
        else if \<exists>c \<in> set cs. verdict c = TEMP then TEMP_FAILURE else PASS)"
proof -
  let ?v = "channel_verdict env u bypass (jn_redis st)"
  have f: "filter (\<lambda>r. snd r = NOT_JOINED) (map (\<lambda>c. (c, ?v c)) cs)
      = map (\<lambda>c. (c, ?v c)) (filter (\<lambda>c. ?v c = NOT_JOINED) cs)"
    by (simp add: filter_map o_def)
  show ?thesis
    using check_channels_verdicts [OF assms, of env u bypass st]
    by (simp add: evaluateForceJoinMembership_def split_beta Let_def f list_ex_iff o_def)
qed

text \<open>
  C30. The gate is decided channel by channel: checking the channels of a request one after the other, with
  every write of the cache between them, gives what the verdict of each channel at the start of the request
  gives, in whatever order. Some channel not joined: exactly those are asked for. Else some answer that is
  no answer: the gate fails and asks for nothing. Else it passes.
\<close>
theorem gate_is_pointwise:
  assumes "distinct (map fc_id cs)"
  shows "fst (evaluateForceJoinMembership env u cs bypass st) =
    (let verdict = channel_verdict env u bypass (jn_redis st);
         missing = filter (\<lambda>c. verdict c = NOT_JOINED) cs
     in if missing \<noteq> [] then MISSING missing
        else if \<exists>c \<in> set cs. verdict c = TEMP then TEMP_FAILURE else PASS)"
  using assms by (rule gate_verdicts)

section \<open>The record of a failure\<close>

text \<open>What one failure does to the database, written out: nothing in its transaction can fail.\<close>

definition sent_event :: "SystemLogLevel \<Rightarrow> string \<Rightarrow> db \<Rightarrow> db" where
  "sent_event level eventType s =
     snd (the (case writeForceJoinOpsEvent level eventType s :: unit thrown + (unit \<times> db) of Inr x \<Rightarrow> Some x | Inl _ \<Rightarrow> None))"

lemma writeForceJoinOpsEvent_Inr:
  "\<exists>s'. (writeForceJoinOpsEvent level eventType :: (unit, unit) tx) s = Inr ((), s')
    \<and> channels s' = channels s \<and> settings s' = settings s
    \<and> map sl_eventType (system_logs s') = map sl_eventType (system_logs s) @ [eventType]"
  by (auto simp: writeForceJoinOpsEvent_def tx_defs draw_id_def split: option.split)

lemma event_writes:
  "(writeForceJoinOpsEvent level eventType :: (unit, unit) tx) s = Inr ((), sent_event level eventType s)"
  "channels (sent_event level eventType s) = channels s"
  "settings (sent_event level eventType s) = settings s"
  "map sl_eventType (system_logs (sent_event level eventType s)) = map sl_eventType (system_logs s) @ [eventType]"
  using writeForceJoinOpsEvent_Inr [of level eventType s] by (auto simp: sent_event_def)

definition switched_off :: "string \<Rightarrow> db \<Rightarrow> bool" where
  "switched_off i s \<longleftrightarrow> isTruthySetting (setting_value FORCE_JOIN_ENABLED_KEY s)
     \<and> count_where (\<lambda>c. fc_isActive c \<and> fc_id c \<noteq> i) (channels s) = 0"

definition retired_db :: "string \<Rightarrow> string \<Rightarrow> int \<Rightarrow> int \<times> int \<Rightarrow> db \<Rightarrow> db" where
  "retired_db i errorClass now w s =
     (let off = switched_off i s;
          s1 = (if off then upsert_setting FORCE_JOIN_ENABLED_KEY ''false'' s else s);
          s2 = sent_event Log_ERROR CHANNEL_RETIRED (update_channel i now (retired_channel now w errorClass) s1)
      in if off then sent_event Log_ERROR AUTO_DISABLED s2 else s2)"

lemma retire_channel_eq: "retire_channel i e now w s = Inr (RETIRED (switched_off i s), retired_db i e now w s)"
  by (simp add: retire_channel_def retired_db_def tx_defs Let_def event_writes(1) switched_off_def conj_commute)

lemma health_failure_eq:
  "health_failure i e now s = Inr
     (case find (\<lambda>c. fc_id c = i) (channels s) of
        None \<Rightarrow> (NOOP, s)
      | Some row \<Rightarrow>
          if \<not> fc_isActive row then (NOOP, s)
          else if debounced now row then (COUNTED (fc_healthFailureCount row), s)
          else let w = failure_window now row in
            if \<not> retires now w then (COUNTED (snd w), update_channel i now (failed_channel now w e) s)
            else (RETIRED (switched_off i s), retired_db i e now w s))"
  by (simp add: health_failure_def tx_bind_def tx_read_def tx_write_def tx_return_def Let_def retire_channel_eq split: option.split)

lemma recordFailure_cases:
  obtains "recordChannelHealthFailure broken i e now s = (NOOP, s)"
  | n where "recordChannelHealthFailure broken i e now s = (COUNTED n, s)"
  | row w where "recordChannelHealthFailure broken i e now s = (COUNTED (snd w), update_channel i now (failed_channel now w e) s)"
      "find (\<lambda>c. fc_id c = i) (channels s) = Some row" "fc_isActive row" "\<not> debounced now row"
      "w = failure_window now row" "\<not> retires now w"
  | row w where "recordChannelHealthFailure broken i e now s = (RETIRED (switched_off i s), retired_db i e now w s)"
      "find (\<lambda>c. fc_id c = i) (channels s) = Some row" "fc_isActive row" "\<not> debounced now row"
      "w = failure_window now row" "retires now w"
proof -
  have r: "recordChannelHealthFailure broken i e now s =
      (if broken then (NOOP, s) else the (case health_failure i e now s of Inr x \<Rightarrow> Some x | Inl _ \<Rightarrow> None))"
    by (simp add: recordChannelHealthFailure_def run_transaction_def health_failure_eq split: prod.split)
  show ?thesis
  proof (cases broken)
    case True
    then show ?thesis using r that(1) by simp
  next
    case False
    note r = r [unfolded health_failure_eq, simplified False, simplified]
    show ?thesis
    proof (cases "find (\<lambda>c. fc_id c = i) (channels s)")
      case None
      then show ?thesis using r that(1) False by simp
    next
      case (Some row)
      note r = r [unfolded Some, simplified]
      consider "\<not> fc_isActive row" | "fc_isActive row" "debounced now row"
        | "fc_isActive row" "\<not> debounced now row" "\<not> retires now (failure_window now row)"
        | "fc_isActive row" "\<not> debounced now row" "retires now (failure_window now row)" by blast
      then show ?thesis
        by cases (use r that Some False in \<open>simp_all add: Let_def\<close>)
    qed
  qed
qed

lemma setting_value_upsert: "setting_value k (upsert_setting k v s) = Some v"
proof (cases "find (\<lambda>r. st_key r = k) (settings s)")
  case None
  then have "\<not> (\<exists>r \<in> set (settings s). st_key r = k)" by (auto simp: find_None_all)
  with None show ?thesis by (simp add: setting_value_def upsert_setting_def find_append)
next
  case (Some r)
  then have "\<exists>r \<in> set (settings s). st_key r = k" by (auto dest: find_Some_in)
  moreover have "find (\<lambda>r. st_key r = k) (update_where (\<lambda>r. st_key r = k) (\<lambda>r. r\<lparr>st_value := v\<rparr>) (settings s))
      = map_option (\<lambda>r. if st_key r = k then r\<lparr>st_value := v\<rparr> else r) (Some r)"
    using find_update_where [where k = st_key and x = k and P = "\<lambda>r. st_key r = k" and f = "\<lambda>r. r\<lparr>st_value := v\<rparr>" and t = "settings s"] Some
    by simp
  ultimately show ?thesis using Some by (auto simp: setting_value_def upsert_setting_def dest: find_Some_in)
qed

lemma update_channel_frame [simp]:
  "system_logs (update_channel i now f s) = system_logs s" "settings (update_channel i now f s) = settings s"
  "system_logs (upsert_setting k v s) = system_logs s" "channels (upsert_setting k v s) = channels s"
  by (simp_all add: update_channel_def upsert_setting_def)

lemma setting_value_settings: "settings s' = settings s \<Longrightarrow> setting_value k s' = setting_value k s"
  by (simp add: setting_value_def)

lemma active_failed:
  "map fc_id (filter fc_isActive (channels (update_channel i now (failed_channel now w e) s))) = map fc_id (filter fc_isActive (channels s))"
proof -
  have "map fc_id (filter fc_isActive (update_where (\<lambda>c. fc_id c = i) (\<lambda>c. (failed_channel now w e c)\<lparr>fc_updatedAt := now\<rparr>) t))
      = map fc_id (filter fc_isActive t)" for t
    by (induction t) (simp_all add: update_where_def failed_channel_def)
  then show ?thesis by (simp add: update_channel_def)
qed

lemma active_retired:
  "map fc_id (filter fc_isActive (channels (update_channel i now (retired_channel now w e) s)))
    = filter ((\<noteq>) i) (map fc_id (filter fc_isActive (channels s)))"
proof -
  have "map fc_id (filter fc_isActive (update_where (\<lambda>c. fc_id c = i) (\<lambda>c. (retired_channel now w e c)\<lparr>fc_updatedAt := now\<rparr>) t))
      = filter ((\<noteq>) i) (map fc_id (filter fc_isActive t))" for t
    by (induction t) (simp_all add: update_where_def retired_channel_def failed_channel_def)
  then show ?thesis by (simp add: update_channel_def)
qed

lemma retired_db_channels:
  "channels (retired_db i e now w s) = channels (update_channel i now (retired_channel now w e) s)"
  by (simp add: retired_db_def Let_def event_writes update_channel_def)

lemma retired_db_settings:
  "switched_off i s \<Longrightarrow> setting_value FORCE_JOIN_ENABLED_KEY (retired_db i e now w s) = Some ''false''"
  "\<not> switched_off i s \<Longrightarrow> settings (retired_db i e now w s) = settings s"
proof -
  assume o: "switched_off i s"
  have "settings (retired_db i e now w s) = settings (upsert_setting FORCE_JOIN_ENABLED_KEY ''false'' s)"
    using o by (simp add: retired_db_def Let_def event_writes)
  then show "setting_value FORCE_JOIN_ENABLED_KEY (retired_db i e now w s) = Some ''false''"
    by (simp add: setting_value_settings setting_value_upsert)
next
  assume "\<not> switched_off i s"
  then show "settings (retired_db i e now w s) = settings s" by (simp add: retired_db_def Let_def event_writes)
qed

lemma retired_db_logs:
  "map sl_eventType (system_logs (retired_db i e now w s))
    = map sl_eventType (system_logs s) @ CHANNEL_RETIRED # (if switched_off i s then [AUTO_DISABLED] else [])"
  by (simp add: retired_db_def Let_def event_writes)

lemma not_truthy_false: "\<not> isTruthySetting (Some ''false'')"
  by code_simp

lemmas retired_db_facts = retired_db_channels active_retired retired_db_settings retired_db_logs not_truthy_false

text \<open>
  The channels that are asked of a user change by no failure but the one that retires a channel, and
  that change is announced with it: the failure of a channel adds the event of the retirement to the log
  exactly when it makes that channel inactive, adds the event of the switch exactly when it turns the
  switch off, and does neither otherwise.
\<close>
theorem retirement_is_recorded:
  "case recordChannelHealthFailure broken i errorClass now s of (outcome, s') \<Rightarrow>
    (case outcome of
       RETIRED off \<Rightarrow>
         map sl_eventType (system_logs s') = map sl_eventType (system_logs s) @ CHANNEL_RETIRED # (if off then [AUTO_DISABLED] else [])
         \<and> map fc_id (filter fc_isActive (channels s')) = filter ((\<noteq>) i) (map fc_id (filter fc_isActive (channels s)))
         \<and> (if off then \<not> isTruthySetting (setting_value FORCE_JOIN_ENABLED_KEY s') else settings s' = settings s)
     | _ \<Rightarrow> system_logs s' = system_logs s \<and> settings s' = settings s
         \<and> map fc_id (filter fc_isActive (channels s')) = map fc_id (filter fc_isActive (channels s)))"
proof (cases rule: recordFailure_cases [of broken i errorClass now s])
  case 1
  then show ?thesis by simp
next
  case (2 n)
  then show ?thesis by simp
next
  case (3 row w)
  then show ?thesis by (simp add: active_failed)
next
  case (4 row w)
  then show ?thesis by (simp add: retired_db_facts)
qed

section \<open>A channel over time\<close>

text \<open>The bookkeeping that requests perform on the channels, in the order in which it is committed.\<close>

datatype health_event = Health_failed bool string string int | Health_succeeded bool string int

primrec health_step :: "health_event \<Rightarrow> db \<Rightarrow> db" where
  "health_step (Health_failed broken i e now) s = snd (recordChannelHealthFailure broken i e now s)"
| "health_step (Health_succeeded broken i now) s = recordChannelHealthSuccess broken i now s"

text \<open>The times of the failures of a channel since its last success.\<close>

fun failures_since :: "string \<Rightarrow> health_event list \<Rightarrow> int list \<Rightarrow> int list" where
  "failures_since i [] acc = acc"
| "failures_since i (Health_failed broken j e now # es) acc =
     failures_since i es (if j = i \<and> \<not> broken then acc @ [now] else acc)"
| "failures_since i (Health_succeeded broken j now # es) acc =
     failures_since i es (if j = i \<and> \<not> broken then [] else acc)"

definition spaced :: "int list \<Rightarrow> bool" where
  "spaced = successively (\<lambda>a b. 5000 \<le> b - a \<and> b - a \<le> 3600000)"

definition health_of :: "channel_row \<Rightarrow> int list \<Rightarrow> bool" where
  "health_of c ts \<longleftrightarrow> fc_healthFailureCount c = int (length ts) \<and> spaced ts
     \<and> (if ts = [] then fc_healthFailureLastAt c = None
        else fc_healthFailureFirstAt c = Some (hd ts) \<and> fc_healthFailureLastAt c = Some (List.last ts))"

definition channel_ok :: "string \<Rightarrow> int list \<Rightarrow> db \<Rightarrow> bool" where
  "channel_ok i acc s \<longleftrightarrow> (\<forall>c. find (\<lambda>c. fc_id c = i) (channels s) = Some c \<longrightarrow> fc_isActive c \<longrightarrow>
     (\<exists>ts. health_of c ts \<and> subseq ts acc))"

lemma spaced_snoc: "spaced ts \<Longrightarrow> (ts \<noteq> [] \<Longrightarrow> 5000 \<le> t - List.last ts \<and> t - List.last ts \<le> 3600000) \<Longrightarrow> spaced (ts @ [t])"
  by (auto simp: spaced_def successively_append_iff)

lemma health_window:
  assumes h: "health_of c ts" and b: "\<not> debounced now c"
  shows "\<exists>us. spaced (us @ [now]) \<and> subseq us ts \<and> failure_window now c = (hd (us @ [now]), int (length (us @ [now])))"
proof (cases "ts = [] \<or> 3600000 < now - List.last ts")
  case True
  then have "failure_window now c = (now, 1)"
    using h by (cases "ts = []") (auto simp: failure_window_def health_of_def FORCE_JOIN_HEALTH_RESET_MS_def)
  then show ?thesis by (intro exI [of _ "[]"]) (simp add: spaced_def)
next
  case False
  then have "failure_window now c = (hd (ts @ [now]), int (length (ts @ [now])))"
    using h by (auto simp: failure_window_def health_of_def FORCE_JOIN_HEALTH_RESET_MS_def)
  moreover have "spaced (ts @ [now])"
    using h b False by (intro spaced_snoc) (auto simp: health_of_def debounced_def FORCE_JOIN_HEALTH_COUNT_DEBOUNCE_MS_def)
  ultimately show ?thesis by blast
qed

lemma health_failed:
  assumes "w = (hd (us @ [now]), int (length (us @ [now])))" "spaced (us @ [now])"
  shows "health_of ((failed_channel now w e c)\<lparr>fc_updatedAt := now\<rparr>) (us @ [now])"
  using assms by (simp add: health_of_def failed_channel_def)

lemma find_update_channel:
  assumes "\<And>c. fc_id (f c) = fc_id c"
  shows "find (\<lambda>c. fc_id c = i) (channels (update_channel j now f s))
    = map_option (\<lambda>c. if j = i then (f c)\<lparr>fc_updatedAt := now\<rparr> else c) (find (\<lambda>c. fc_id c = i) (channels s))"
proof -
  have "find (\<lambda>c. fc_id c = i) (update_where (\<lambda>c. fc_id c = j) (\<lambda>c. (f c)\<lparr>fc_updatedAt := now\<rparr>) t)
      = map_option (\<lambda>c. if j = i then (f c)\<lparr>fc_updatedAt := now\<rparr> else c) (find (\<lambda>c. fc_id c = i) t)" for t
    by (induction t) (auto simp: update_where_def assms)
  then show ?thesis by (simp add: update_channel_def)
qed

lemma failed_id: "fc_id (failed_channel now w e c) = fc_id c" "fc_id (retired_channel now w e c) = fc_id c"
  by (simp_all add: failed_channel_def retired_channel_def)

lemma channel_ok_mono: "channel_ok i acc s \<Longrightarrow> subseq acc acc' \<Longrightarrow> channel_ok i acc' s"
  by (meson channel_ok_def subseq_order.trans)

lemma failure_channel_ok:
  assumes ok: "channel_ok i acc s"
  shows "channel_ok i (if j = i \<and> \<not> broken then acc @ [now] else acc) (snd (recordChannelHealthFailure broken j e now s))"
proof -
  let ?acc = "if j = i \<and> \<not> broken then acc @ [now] else acc"
  have m: "channel_ok i ?acc s" using ok by (rule channel_ok_mono) (simp add: prefix_imp_subseq)
  show ?thesis
  proof (cases rule: recordFailure_cases [of broken j e now s])
    case 1
    then show ?thesis using m by simp
  next
    case (2 n)
    then show ?thesis using m by simp
  next
    case (3 row w)
    have nb: "\<not> broken" using 3 by (auto simp: recordChannelHealthFailure_def)
    note f = find_update_channel [of "failed_channel now w e" i j now s, OF failed_id(1)]
    show ?thesis
    proof (cases "j = i")
      case False
      then show ?thesis using m 3(1) by (simp add: channel_ok_def f option.map_id0 map_option_case split: option.splits)
    next
      case True
      obtain ts where ts: "health_of row ts" "subseq ts acc" using ok 3 True by (auto simp: channel_ok_def)
      obtain us where us: "spaced (us @ [now])" "subseq us ts" "w = (hd (us @ [now]), int (length (us @ [now])))"
        using health_window [OF ts(1) 3(4)] 3(5) by metis
      have "subseq (us @ [now]) (acc @ [now])" using us(2) ts(2) by (meson list_emb_append_mono subseq_order.refl subseq_order.trans)
      moreover have "health_of ((failed_channel now w e row)\<lparr>fc_updatedAt := now\<rparr>) (us @ [now])"
        by (rule health_failed [OF us(3) us(1)])
      moreover have "find (\<lambda>c. fc_id c = i) (channels s) = Some row" using 3(2) True by simp
      ultimately have "find (\<lambda>c. fc_id c = i) (channels (update_channel j now (failed_channel now w e) s))
          = Some ((failed_channel now w e row)\<lparr>fc_updatedAt := now\<rparr>)"
        "health_of ((failed_channel now w e row)\<lparr>fc_updatedAt := now\<rparr>) (us @ [now])" "subseq (us @ [now]) (acc @ [now])"
        using True by (simp_all add: f [unfolded True])
      then show ?thesis using True nb 3(1) by (auto simp: channel_ok_def)
    qed
  next
    case (4 row w)
    note f = find_update_channel [of "retired_channel now w e" i j now s, OF failed_id(2)]
    show ?thesis
      using m 4(1) by (auto simp: channel_ok_def retired_db_channels f retired_channel_def split: if_splits)
  qed
qed

lemma success_channel_ok:
  assumes ok: "channel_ok i acc s"
  shows "channel_ok i (if j = i \<and> \<not> broken then [] else acc) (recordChannelHealthSuccess broken j now s)"
proof (cases broken)
  case True
  then show ?thesis using ok by (simp add: recordChannelHealthSuccess_def)
next
  case False
  have f: "find (\<lambda>c. fc_id c = i) (channels (recordChannelHealthSuccess False j now s))
    = map_option (\<lambda>c. if j = i \<and> fc_isActive c \<and> 0 < fc_healthFailureCount c then (recovered_channel c)\<lparr>fc_updatedAt := now\<rparr> else c)
        (find (\<lambda>c. fc_id c = i) (channels s))"
  proof -
    have "find (\<lambda>c. fc_id c = i) (update_where (\<lambda>c. fc_id c = j \<and> fc_isActive c \<and> 0 < fc_healthFailureCount c)
          (\<lambda>c. (recovered_channel c)\<lparr>fc_updatedAt := now\<rparr>) t)
        = map_option (\<lambda>c. if j = i \<and> fc_isActive c \<and> 0 < fc_healthFailureCount c then (recovered_channel c)\<lparr>fc_updatedAt := now\<rparr> else c)
          (find (\<lambda>c. fc_id c = i) t)" for t
      by (induction t) (auto simp: update_where_def recovered_channel_def)
    then show ?thesis by (simp add: recordChannelHealthSuccess_def)
  qed
  show ?thesis
  proof (cases "j = i")
    case True
    have e: "health_of (if 0 < fc_healthFailureCount c then (recovered_channel c)\<lparr>fc_updatedAt := now\<rparr> else c) []"
      if c: "find (\<lambda>c. fc_id c = i) (channels s) = Some c" "fc_isActive c" for c
    proof -
      obtain ts where "health_of c ts" using ok c by (auto simp: channel_ok_def)
      then show ?thesis by (cases "ts = []") (simp_all add: health_of_def recovered_channel_def spaced_def)
    qed
    show ?thesis
    proof (cases "find (\<lambda>c. fc_id c = i) (channels s)")
      case None
      then show ?thesis using False by (simp add: channel_ok_def f)
    next
      case (Some c)
      note fs = f [unfolded True Some, simplified]
      have "\<not> fc_isActive c \<Longrightarrow> ?thesis" using True False by (auto simp: channel_ok_def fs)
      moreover have "fc_isActive c \<Longrightarrow> ?thesis" using e [OF Some] True False by (auto simp: channel_ok_def fs)
      ultimately show ?thesis by blast
    qed
  next
    case no: False
    then show ?thesis using ok False by (simp add: channel_ok_def f)
  qed
qed

lemma health_run_ok: "channel_ok i acc s \<Longrightarrow> channel_ok i (failures_since i es acc) (fold health_step es s)"
proof (induction es arbitrary: acc s)
  case Nil
  then show ?case by simp
next
  case (Cons ev es)
  show ?case
  proof (cases ev)
    case (Health_failed broken j e now)
    show ?thesis
      using Cons.IH [OF failure_channel_ok [OF Cons.prems, of j broken now e]] Health_failed by simp
  next
    case (Health_succeeded broken j now)
    show ?thesis
      using Cons.IH [OF success_channel_ok [OF Cons.prems, of j broken now]] Health_succeeded by simp
  qed
qed

text \<open>
  C31. A channel that started without a failure is retired only on sustained evidence: among its failures
  since its last success there are, with the one that retires it, at least five, each at least five seconds
  and at most an hour after the one before, over ten minutes at least, whatever else happened to other
  channels.
\<close>
theorem retirement_needs_sustained_failures:
  assumes "find (\<lambda>c. fc_id c = i) (channels s) = Some row"
    and "fc_healthFailureCount row = 0" "fc_healthFailureLastAt row = None"
    and "fst (recordChannelHealthFailure broken i errorClass now (fold health_step es s)) = RETIRED off"
  shows "\<exists>ts. subseq ts (failures_since i es []) \<and> 5 \<le> length (ts @ [now]) \<and> 600000 \<le> now - hd (ts @ [now])
    \<and> spaced (ts @ [now])"
proof -
  have "channel_ok i [] s"
    using assms(1-3) by (auto simp: channel_ok_def health_of_def spaced_def)
  then have ok: "channel_ok i (failures_since i es []) (fold health_step es s)" by (rule health_run_ok)
  show ?thesis
    using assms(4)
  proof (cases rule: recordFailure_cases [of broken i errorClass now "fold health_step es s"])
    case (4 row w)
    obtain ts where ts: "health_of row ts" "subseq ts (failures_since i es [])"
      using ok 4 by (auto simp: channel_ok_def)
    obtain us where us: "spaced (us @ [now])" "subseq us ts" "failure_window now row = (hd (us @ [now]), int (length (us @ [now])))"
      using health_window [OF ts(1) 4(4)] by metis
    have "5 \<le> length (us @ [now]) \<and> 600000 \<le> now - hd (us @ [now])"
      using 4(5,6) us(3) by (simp add: retires_def FORCE_JOIN_HEALTH_FAILURE_THRESHOLD_def FORCE_JOIN_HEALTH_MIN_WINDOW_MS_def)
    moreover have "subseq us (failures_since i es [])" using us(2) ts(2) by (rule subseq_order.trans)
    ultimately show ?thesis using us(1) by blast
  qed simp_all
qed

section \<open>The switch and the channels\<close>

definition enforceable :: "db \<Rightarrow> bool" where
  "enforceable s \<longleftrightarrow> (isTruthySetting (setting_value FORCE_JOIN_ENABLED_KEY s) \<longrightarrow> listActiveChannels s \<noteq> [])"

definition active_ids :: "db \<Rightarrow> string list" where
  "active_ids s = map fc_id (filter fc_isActive (channels s))"

lemma enforceable_ids:
  "enforceable s \<longleftrightarrow> (isTruthySetting (setting_value FORCE_JOIN_ENABLED_KEY s) \<longrightarrow> active_ids s \<noteq> [])"
proof -
  have "length (listActiveChannels s) = length (active_ids s)" by (simp add: listActiveChannels_def active_ids_def)
  then have "listActiveChannels s \<noteq> [] \<longleftrightarrow> active_ids s \<noteq> []" by (metis length_0_conv)
  then show ?thesis by (simp add: enforceable_def)
qed

lemma enforceable_frame:
  "enforceable s \<Longrightarrow> active_ids s' = active_ids s \<Longrightarrow> settings s' = settings s \<Longrightarrow> enforceable s'"
  by (simp add: enforceable_ids setting_value_def)

lemma switched_off_ids:
  "count_where (\<lambda>c. fc_isActive c \<and> fc_id c \<noteq> i) (channels s) = length (filter ((\<noteq>) i) (active_ids s))"
proof -
  have "count_where (\<lambda>c. fc_isActive c \<and> fc_id c \<noteq> i) t = length (filter ((\<noteq>) i) (map fc_id (filter fc_isActive t)))" for t
    by (induction t) (auto simp: count_where_def)
  then show ?thesis by (simp add: active_ids_def)
qed

lemma failed_enforceable:
  assumes "enforceable s"
  shows "enforceable (update_channel i now (failed_channel now w e) s)"
  using active_failed [of i now w e s] update_channel_frame(2) [of i now "failed_channel now w e" s]
  by (intro enforceable_frame [OF assms]) (simp_all only: active_ids_def)

lemma retired_enforceable: "enforceable (retired_db i e now w s)"
proof (cases "switched_off i s")
  case True
  then have "\<not> isTruthySetting (setting_value FORCE_JOIN_ENABLED_KEY (retired_db i e now w s))"
    by (simp only: retired_db_settings(1) not_truthy_false not_False_eq_True)
  then show ?thesis unfolding enforceable_ids by blast
next
  case False
  have a: "active_ids (retired_db i e now w s) = filter ((\<noteq>) i) (active_ids s)"
    unfolding active_ids_def retired_db_channels active_retired by (rule refl)
  have v: "setting_value k (retired_db i e now w s) = setting_value k s" for k
    by (rule setting_value_settings) (rule retired_db_settings(2) [OF False])
  have "active_ids (retired_db i e now w s) \<noteq> []" if "isTruthySetting (setting_value FORCE_JOIN_ENABLED_KEY s)"
    using False that unfolding switched_off_def switched_off_ids a length_0_conv by blast
  then show ?thesis unfolding enforceable_ids v by blast
qed

lemma failure_enforceable:
  assumes "enforceable s"
  shows "enforceable (snd (recordChannelHealthFailure broken i e now s))"
proof (cases rule: recordFailure_cases [of broken i e now s])
  case 1
  then show ?thesis using assms by simp
next
  case (2 n)
  then show ?thesis using assms by simp
next
  case (3 row w)
  then show ?thesis by (simp only: snd_conv failed_enforceable [OF assms])
next
  case (4 row w)
  then show ?thesis by (simp only: snd_conv retired_enforceable)
qed

lemma success_enforceable:
  assumes "enforceable s"
  shows "enforceable (recordChannelHealthSuccess broken i now s)"
proof (rule enforceable_frame [OF assms])
  have "map fc_id (filter fc_isActive (update_where P (\<lambda>c. (recovered_channel c)\<lparr>fc_updatedAt := now\<rparr>) t))
      = map fc_id (filter fc_isActive t)" for P t
    by (induction t) (simp_all add: update_where_def recovered_channel_def)
  then show "active_ids (recordChannelHealthSuccess broken i now s) = active_ids s"
    unfolding recordChannelHealthSuccess_def active_ids_def by (cases broken) simp_all
  show "settings (recordChannelHealthSuccess broken i now s) = settings s"
    by (simp add: recordChannelHealthSuccess_def)
qed

text \<open>
  The bookkeeping of the channels never leaves forced joins switched on with no channel to enforce:
  whatever failures and successes are recorded, in whatever order, a switch that is on has an active
  channel if it had one before.
\<close>
theorem switch_has_channels:
  assumes "enforceable s"
  shows "enforceable (fold health_step es s)"
  using assms
proof (induction es arbitrary: s)
  case (Cons ev es)
  show ?case
    using Cons.IH Cons.prems by (cases ev) (simp_all add: failure_enforceable success_enforceable)
qed simp

end
