(* ===== verification/MiniAppGuardsFacts.thy ===== *)
theory MiniAppGuardsFacts
  imports MiniAppGuards MiniAppSessionFacts
begin

text \<open>
  What the front door of the Mini App promises: configured numbers stay in their range, the rate limiter
  bounds the requests of a client in every interval and its own memory, a refused request costs nothing
  before the limiter, and a cursor opens only for the list it was made for.
\<close>

section \<open>Configured numbers\<close>

lemma resolveClampedInt_range:
  "lo \<le> fallback \<Longrightarrow> fallback \<le> hi \<Longrightarrow> lo \<le> rs_value (resolveClampedInt var fallback lo hi)
     \<and> rs_value (resolveClampedInt var fallback lo hi) \<le> hi"
  by (auto simp: resolveClampedInt_def Let_def)

lemmas knob_defs = miniAppAuthRateLimit_def miniAppSupportRateLimit_def miniAppCommerceRateLimit_def
  miniAppInitDataMaxAgeSeconds_def miniAppSessionTtlSeconds_def resolveMiniAppAuthRateLimit_def
  resolveMiniAppSupportRateLimit_def resolveMiniAppCommerceRateLimit_def

lemmas knob_bounds = MINIAPP_AUTH_RATE_LIMIT_DEFAULT_def MINIAPP_AUTH_RATE_LIMIT_MIN_def MINIAPP_AUTH_RATE_LIMIT_MAX_def
  MINIAPP_SUPPORT_RATE_LIMIT_DEFAULT_def MINIAPP_SUPPORT_RATE_LIMIT_MIN_def MINIAPP_SUPPORT_RATE_LIMIT_MAX_def
  MINIAPP_COMMERCE_RATE_LIMIT_DEFAULT_def MINIAPP_COMMERCE_RATE_LIMIT_MIN_def MINIAPP_COMMERCE_RATE_LIMIT_MAX_def
  MINIAPP_INITDATA_DEFAULT_MAX_AGE_SECONDS_def MINIAPP_INITDATA_MIN_MAX_AGE_SECONDS_def
  MINIAPP_INITDATA_MAX_MAX_AGE_SECONDS_def MINIAPP_SESSION_DEFAULT_TTL_SECONDS_def
  MINIAPP_SESSION_MIN_TTL_SECONDS_def MINIAPP_SESSION_MAX_TTL_SECONDS_def

text \<open>
  No configuration switches a guard off. Whatever the environment holds - nothing, a typo, a number of any
  size - every limit of requests lies between 1 and 10000, the age of a signed text between half a minute
  and an hour, and a session lives between a minute and an hour, which is also the lifetime that the token
  itself is given.
\<close>

theorem configured_numbers_stay_in_range:
  "miniAppAuthRateLimit env \<in> {1..10000} \<and> miniAppSupportRateLimit env \<in> {1..10000}
    \<and> miniAppCommerceRateLimit env \<in> {1..10000} \<and> miniAppInitDataMaxAgeSeconds env \<in> {30..3600}
    \<and> miniAppSessionTtlSeconds env \<in> {60..3600} \<and> session_ttl (miniAppSessionTtlSeconds env) = miniAppSessionTtlSeconds env"
proof -
  have r: "rs_value (resolveClampedInt var fallback lo hi) \<in> {lo..hi}" if "lo \<le> fallback" "fallback \<le> hi" for var fallback lo hi
    using resolveClampedInt_range [OF that] by simp
  have "miniAppSessionTtlSeconds env \<in> {60..3600}"
    using r [of 60 900 3600 "env ''MINIAPP_SESSION_TTL_SECONDS''"] by (simp add: knob_defs knob_bounds)
  then show ?thesis
    using r [of 1 5 10000 "env ''MINIAPP_AUTH_RATE_LIMIT''"] r [of 1 10 10000 "env ''MINIAPP_SUPPORT_RATE_LIMIT''"]
      r [of 1 30 10000 "env ''MINIAPP_COMMERCE_RATE_LIMIT''"] r [of 30 300 3600 "env ''MINIAPP_INITDATA_MAX_AGE_SECONDS''"]
    by (simp add: knob_defs knob_bounds session_ttl_def)
qed

section \<open>The memory of the limiter\<close>

definition limiter_ok :: "FixedWindowRateLimiter \<Rightarrow> bool" where
  "limiter_ok l \<longleftrightarrow> 0 < lm_maxKeys l \<and> length (lm_windows l) \<le> lm_maxKeys l \<and> distinct (map fst (lm_windows l))"

fun check_all :: "int \<Rightarrow> (string \<times> int) list \<Rightarrow> FixedWindowRateLimiter \<Rightarrow> RateLimitDecision list \<times> FixedWindowRateLimiter" where
  "check_all ceiling [] l = ([], l)"
| "check_all ceiling ((key, nowMs) # requests) l =
     (case check ceiling key nowMs l of
        (d, l1) \<Rightarrow> (case check_all ceiling requests l1 of (ds, l2) \<Rightarrow> (d # ds, l2)))"

lemma length_update: "length (AList.update k v xs) = (if k \<in> fst ` set xs then length xs else Suc (length xs))"
  by (induction xs) auto

lemma set_update_subset: "set (AList.update k v xs) \<subseteq> insert (k, v) (set xs)"
  by (induction xs) auto

lemma evictExpired_ok:
  assumes "0 < maxKeys" and "length windows \<le> maxKeys" and "distinct (map fst windows)"
  shows "length (evictExpired maxKeys now windows) < maxKeys" "distinct (map fst (evictExpired maxKeys now windows))"
proof -
  let ?live = "filter (\<lambda>w. now < wn_resetAtMs (snd w)) windows"
  have "length ?live \<le> maxKeys" using assms(2) by (meson le_trans length_filter_le)
  then show "length (evictExpired maxKeys now windows) < maxKeys"
    using assms(1) by (auto simp: evictExpired_def Let_def div_greater_zero_iff Suc_le_eq intro!: diff_less)
  have "distinct (map fst ?live)" using assms(3) by (simp add: distinct_map_filter)
  then show "distinct (map fst (evictExpired maxKeys now windows))"
    by (auto simp: evictExpired_def Let_def drop_map [symmetric])
qed

lemma check_ok:
  assumes "limiter_ok l"
  shows "limiter_ok (snd (check ceiling key now l))"
proof -
  let ?w = "if lm_maxKeys l \<le> length (lm_windows l) then evictExpired (lm_maxKeys l) now (lm_windows l) else lm_windows l"
  have "length ?w < lm_maxKeys l" "distinct (map fst ?w)"
    using assms evictExpired_ok [of "lm_maxKeys l" "lm_windows l" now] by (auto simp: limiter_ok_def)
  then have r: "limiter_ok (l\<lparr>lm_windows := AList.update key v ?w\<rparr>)" for v
    using assms by (auto simp: limiter_ok_def length_update distinct_update)
  have u: "limiter_ok (l\<lparr>lm_windows := AList.update key v (lm_windows l)\<rparr>)" if "map_of (lm_windows l) key \<noteq> None" for v
    using assms that by (auto simp: limiter_ok_def length_update distinct_update map_of_eq_None_iff)
  show ?thesis
    using r u by (cases "map_of (lm_windows l) key") (simp_all add: check_def Let_def)
qed

text \<open>
  The memory of the limiter is bounded. Whoever asks, however often and under however many names, after any
  sequence of requests the limiter of a mutation keeps at most ten thousand windows, one for each key.
\<close>

theorem limiter_memory_is_bounded:
  "(let l = snd (check_all ceiling requests (new_limiter windowMs)) in
    length (lm_windows l) \<le> 10000 \<and> distinct (map fst (lm_windows l)))"
proof -
  have "limiter_ok (snd (check_all ceiling requests l)) \<and> lm_maxKeys (snd (check_all ceiling requests l)) = lm_maxKeys l"
    if "limiter_ok l" for l
    using that
  proof (induction ceiling requests l rule: check_all.induct)
    case (2 ceiling key now requests l)
    obtain d l1 where c: "check ceiling key now l = (d, l1)" by (cases "check ceiling key now l")
    have "limiter_ok l1" using check_ok [OF "2.prems", of ceiling key now] by (simp add: c)
    moreover have "lm_maxKeys l1 = lm_maxKeys l" using c by (auto simp: check_def Let_def split: option.splits if_splits)
    ultimately show ?case using "2.IH" [OF c [symmetric]] c by (auto split: prod.splits)
  qed simp
  from this [of "new_limiter windowMs"] show ?thesis by (simp add: new_limiter_def limiter_ok_def Let_def)
qed

section \<open>The requests of one client\<close>

definition counted :: "string \<Rightarrow> int \<Rightarrow> int \<Rightarrow> (string \<times> int) \<Rightarrow> RateLimitDecision \<Rightarrow> bool" where
  "counted key a b request d \<longleftrightarrow> fst request = key \<and> a \<le> snd request \<and> snd request < b \<and> rl_allowed d"

definition allowed_in :: "string \<Rightarrow> int \<Rightarrow> int \<Rightarrow> (string \<times> int) list \<Rightarrow> RateLimitDecision list \<Rightarrow> int" where
  "allowed_in key a b requests ds = int (length (filter (\<lambda>(r, d). counted key a b r d) (zip requests ds)))"

text \<open>How many requests of a key the interval from \<open>a\<close> to \<open>b\<close> still admits, given its window.\<close>

definition left_in :: "int \<Rightarrow> int \<Rightarrow> int \<Rightarrow> Window option \<Rightarrow> int" where
  "left_in ceiling a b w =
     (case w of
        None \<Rightarrow> 2 * ceiling
      | Some v \<Rightarrow>
          if b \<le> wn_resetAtMs v then max 0 (ceiling - wn_count v)
          else if a \<le> wn_resetAtMs v then max 0 (ceiling - wn_count v) + ceiling else 2 * ceiling)"

definition roomy :: "FixedWindowRateLimiter \<Rightarrow> (string \<times> int) list \<Rightarrow> bool" where
  "roomy l requests \<longleftrightarrow> distinct (map fst (lm_windows l))
     \<and> card (fst ` set (lm_windows l) \<union> fst ` set requests) < lm_maxKeys l
     \<and> (\<forall>w \<in> set (lm_windows l). 1 \<le> wn_count (snd w))"

lemma check_windows:
  assumes "roomy l ((key, now) # requests)" and "check ceiling key now l = (d, l')"
  shows "\<exists>w. lm_windows l' = AList.update key w (lm_windows l) \<and> lm_maxKeys l' = lm_maxKeys l \<and> lm_windowMs l' = lm_windowMs l
    \<and> (case map_of (lm_windows l) key of
         Some v \<Rightarrow> if now < wn_resetAtMs v
           then w = v\<lparr>wn_count := wn_count v + 1\<rparr> \<and> (rl_allowed d \<longleftrightarrow> wn_count v < ceiling)
           else w = \<lparr>wn_count = 1, wn_resetAtMs = now + lm_windowMs l\<rparr>
       | None \<Rightarrow> w = \<lparr>wn_count = 1, wn_resetAtMs = now + lm_windowMs l\<rparr>)"
proof -
  have "length (lm_windows l) = card (fst ` set (lm_windows l))"
    using assms(1) by (metis distinct_card length_map list.set_map roomy_def)
  also have "\<dots> \<le> card (fst ` set (lm_windows l) \<union> fst ` set ((key, now) # requests))"
    by (intro card_mono) auto
  finally have "\<not> lm_maxKeys l \<le> length (lm_windows l)" using assms(1) by (simp add: roomy_def)
  then show ?thesis
    using assms(2) by (auto simp: check_def Let_def split: option.splits if_splits)
qed

lemma check_roomy:
  assumes "roomy l ((key, now) # requests)" and "check ceiling key now l = (d, l')"
  shows "roomy l' requests"
proof -
  obtain w where w: "lm_windows l' = AList.update key w (lm_windows l)" "lm_maxKeys l' = lm_maxKeys l"
    and c: "1 \<le> wn_count w"
    using check_windows [OF assms] assms(1)
    by (auto simp: roomy_def split: option.splits if_splits dest!: map_of_SomeD) fastforce+
  have "fst ` set (lm_windows l') \<union> fst ` set requests = fst ` set (lm_windows l) \<union> fst ` set ((key, now) # requests)"
    using w(1) by (auto simp: dom_update [unfolded dom_map_of_conv_image_fst])
  moreover have "\<forall>x \<in> set (lm_windows l'). 1 \<le> wn_count (snd x)"
  proof
    fix x assume "x \<in> set (lm_windows l')"
    then have "x = (key, w) \<or> x \<in> set (lm_windows l)"
      unfolding w(1) using set_update_subset by fastforce
    then show "1 \<le> wn_count (snd x)" using assms(1) c by (auto simp: roomy_def)
  qed
  ultimately show ?thesis using assms(1) w by (auto simp: roomy_def distinct_update)
qed

lemma allowed_in_Cons:
  "allowed_in key a b (r # requests) (d # ds) = (if counted key a b r d then 1 else 0) + allowed_in key a b requests ds"
  by (simp add: allowed_in_def)

lemma allowed_in_late:
  "\<forall>r \<in> set requests. b \<le> snd r \<Longrightarrow> allowed_in key a b requests ds = 0"
  by (auto simp: allowed_in_def counted_def filter_empty_conv dest!: set_zip_leftD)

text \<open>One request uses up what its interval still admits.\<close>

lemma left_in_step:
  assumes room: "roomy l ((k, now) # requests)" and c: "check ceiling k now l = (d, l')" and "1 \<le> ceiling"
    and "now < a + lm_windowMs l"
  shows "left_in ceiling a (a + lm_windowMs l) (map_of (lm_windows l') key)
      + (if counted key a (a + lm_windowMs l) (k, now) d then 1 else 0)
    \<le> left_in ceiling a (a + lm_windowMs l) (map_of (lm_windows l) key)"
proof (cases "k = key")
  case False
  obtain w where "lm_windows l' = AList.update k w (lm_windows l)" using check_windows [OF room c] by blast
  then have "map_of (lm_windows l') key = map_of (lm_windows l) key" using False by (simp add: update_conv')
  then show ?thesis using False by (simp add: counted_def)
next
  case True
  obtain w where w: "lm_windows l' = AList.update key w (lm_windows l)"
    "case map_of (lm_windows l) key of
       Some v \<Rightarrow> if now < wn_resetAtMs v
         then w = v\<lparr>wn_count := wn_count v + 1\<rparr> \<and> (rl_allowed d \<longleftrightarrow> wn_count v < ceiling)
         else w = \<lparr>wn_count = 1, wn_resetAtMs = now + lm_windowMs l\<rparr>
     | None \<Rightarrow> w = \<lparr>wn_count = 1, wn_resetAtMs = now + lm_windowMs l\<rparr>"
    using check_windows [OF room c] True by blast
  have m: "map_of (lm_windows l') key = Some w" using w(1) by (simp add: update_conv')
  show ?thesis
  proof (cases "map_of (lm_windows l) key")
    case None
    then show ?thesis using w(2) m assms(3,4) by (auto simp: left_in_def counted_def)
  next
    case (Some v)
    have "1 \<le> wn_count v" using room map_of_SomeD [OF Some] by (auto simp: roomy_def)
    then show ?thesis using w(2) m Some assms(3,4) by (auto simp: left_in_def counted_def split: if_splits)
  qed
qed

lemma allowed_in_bounded:
  assumes "roomy l requests" and "sorted (map snd requests)" and "1 \<le> ceiling"
  shows "allowed_in key a (a + lm_windowMs l) requests (fst (check_all ceiling requests l))
    \<le> left_in ceiling a (a + lm_windowMs l) (map_of (lm_windows l) key)"
  using assms
proof (induction ceiling requests l rule: check_all.induct)
  case (1 ceiling l)
  then show ?case by (auto simp: allowed_in_def left_in_def split: option.split)
next
  case (2 ceiling k now requests l)
  obtain d l1 where c: "check ceiling k now l = (d, l1)" by (cases "check ceiling k now l")
  have w: "lm_windowMs l1 = lm_windowMs l" using check_windows [OF "2.prems"(1) c] by blast
  have f: "fst (check_all ceiling ((k, now) # requests) l) = d # fst (check_all ceiling requests l1)"
    using c by (simp split: prod.split)
  show ?case
  proof (cases "now < a + lm_windowMs l")
    case True
    have "allowed_in key a (a + lm_windowMs l) requests (fst (check_all ceiling requests l1))
        \<le> left_in ceiling a (a + lm_windowMs l) (map_of (lm_windows l1) key)"
      using "2.IH" [OF c [symmetric] check_roomy [OF "2.prems"(1) c]] "2.prems"(2,3) w by simp
    then show ?thesis
      using left_in_step [OF "2.prems"(1) c "2.prems"(3) True, of key] unfolding f allowed_in_Cons by linarith
  next
    case False
    then have "\<forall>r \<in> set ((k, now) # requests). a + lm_windowMs l \<le> snd r" using "2.prems"(2) by auto
    from allowed_in_late [OF this] show ?thesis
      using "2.prems"(3) by (auto simp: left_in_def split: option.split)
  qed
qed

section \<open>Rotation of keys\<close>

text \<open>
  A client that is pushed out of a full memory starts afresh. The forced eviction drops the oldest
  thousand of ten thousand windows, so a window that it drops has at least nine thousand behind it.
\<close>

definition behind :: "string \<Rightarrow> (string \<times> Window) list \<Rightarrow> nat" where
  "behind key windows = length (dropWhile (\<lambda>w. fst w \<noteq> key) windows)"

lemma behind_update_other: "k \<noteq> key \<Longrightarrow> behind key (AList.update k w ws) \<le> Suc (behind key ws)"
  by (induction ws) (auto simp: behind_def length_update)

lemma behind_update_same:
  "behind key (AList.update key w ws) = (if map_of ws key = None then 1 else behind key ws)"
  by (induction ws) (auto simp: behind_def)

lemma behind_filter: "behind key (filter P ws) \<le> behind key ws"
proof (induction ws)
  case (Cons w ws)
  show ?case
  proof (cases "fst w = key")
    case True
    have "behind key (filter P (w # ws)) \<le> length (filter P (w # ws))"
      unfolding behind_def by (rule length_dropWhile_le)
    also have "\<dots> \<le> length (w # ws)" by (rule length_filter_le)
    finally show ?thesis using True by (simp add: behind_def)
  next
    case False
    then show ?thesis using Cons.IH by (simp add: behind_def)
  qed
qed (simp add: behind_def)

lemma behind_drop: "behind key (drop n ws) \<le> behind key ws"
proof (induction ws arbitrary: n)
  case (Cons w ws)
  show ?case
  proof (cases n)
    case (Suc m)
    have "behind key ws \<le> behind key (w # ws)"
      using length_dropWhile_le [of "\<lambda>w. fst w \<noteq> key" ws] by (simp add: behind_def)
    then show ?thesis using Cons.IH [of m] Suc by simp
  qed simp
qed (simp add: behind_def)

lemma behind_dropped:
  "map_of ws key \<noteq> None \<Longrightarrow> map_of (drop n ws) key = None \<Longrightarrow> length ws < behind key ws + n"
proof (induction ws arbitrary: n)
  case (Cons w ws)
  then obtain m where m: "n = Suc m" by (cases n) auto
  show ?case
  proof (cases "fst w = key")
    case True
    then show ?thesis using m by (simp add: behind_def)
  next
    case False
    then have "length ws < behind key ws + m" using Cons.IH [of m] Cons.prems m by simp
    then show ?thesis using False m by (simp add: behind_def)
  qed
qed simp

lemma map_of_part:
  "distinct (map fst ws) \<Longrightarrow> set us \<subseteq> set ws \<Longrightarrow> map_of us key = Some v \<Longrightarrow> map_of ws key = Some v"
  by (meson map_of_SomeD map_of_is_SomeI subsetD)

definition kept_windows :: "FixedWindowRateLimiter \<Rightarrow> int \<Rightarrow> (string \<times> Window) list" where
  "kept_windows l now =
     (if lm_maxKeys l \<le> length (lm_windows l) then evictExpired (lm_maxKeys l) now (lm_windows l) else lm_windows l)"

definition limiter_inv :: "FixedWindowRateLimiter \<Rightarrow> bool" where
  "limiter_inv l \<longleftrightarrow> limiter_ok l \<and> lm_maxKeys l = 10000 \<and> (\<forall>w \<in> set (lm_windows l). 1 \<le> wn_count (snd w))"

lemma kept_windows_part: "set (kept_windows l now) \<subseteq> set (lm_windows l)"
  by (auto simp: kept_windows_def evictExpired_def Let_def dest: in_set_dropD split: if_splits)

lemma kept_windows_behind: "behind key (kept_windows l now) \<le> behind key (lm_windows l)"
proof -
  have "behind key (drop n (filter P (lm_windows l))) \<le> behind key (lm_windows l)" for n P
    by (rule le_trans [OF behind_drop behind_filter])
  then show ?thesis using behind_filter by (simp add: kept_windows_def evictExpired_def Let_def)
qed

lemma kept_windows_lost:
  assumes inv: "limiter_inv l" and v: "map_of (lm_windows l) key = Some v" "now < wn_resetAtMs v"
    and lost: "map_of (kept_windows l now) key = None"
  shows "9000 < behind key (lm_windows l)"
proof -
  let ?live = "filter (\<lambda>w. now < wn_resetAtMs (snd w)) (lm_windows l)"
  have "(key, v) \<in> set ?live" using map_of_SomeD [OF v(1)] v(2) by simp
  then have m: "map_of ?live key \<noteq> None" by (auto simp: map_of_eq_None_iff intro: rev_image_eqI)
  have d: "10000 \<le> length ?live" "map_of (drop 1000 ?live) key = None"
    using lost m v inv by (auto simp: kept_windows_def evictExpired_def Let_def limiter_inv_def split: if_splits)
  have "length ?live < behind key ?live + 1000" by (rule behind_dropped [OF m d(2)])
  then show ?thesis
    using d(1) behind_filter [of key "\<lambda>w. now < wn_resetAtMs (snd w)" "lm_windows l"] by linarith
qed

text \<open>What one request does to the windows.\<close>

lemma check_windows_cases:
  assumes "check ceiling k now l = (d, l')"
  obtains (counted) v where "map_of (lm_windows l) k = Some v" "now < wn_resetAtMs v"
      "lm_windows l' = AList.update k (v\<lparr>wn_count := wn_count v + 1\<rparr>) (lm_windows l)"
      "rl_allowed d \<longleftrightarrow> wn_count v < ceiling"
  | (restarted) "\<forall>v. map_of (lm_windows l) k = Some v \<longrightarrow> wn_resetAtMs v \<le> now"
      "lm_windows l' = AList.update k \<lparr>wn_count = 1, wn_resetAtMs = now + lm_windowMs l\<rparr> (kept_windows l now)"
proof (cases "\<exists>v. map_of (lm_windows l) k = Some v \<and> now < wn_resetAtMs v")
  case True
  then obtain v where v: "map_of (lm_windows l) k = Some v" "now < wn_resetAtMs v" by blast
  show thesis
    by (rule counted [OF v]) (use assms v in \<open>auto simp: check_def Let_def split: if_splits\<close>)
next
  case False
  show thesis
    by (rule restarted)
      (use assms False in \<open>auto simp: check_def Let_def kept_windows_def not_less split: option.splits if_splits\<close>)
qed

lemma check_inv:
  assumes inv: "limiter_inv l" and c: "check ceiling k now l = (d, l')"
  shows "limiter_inv l'" and "lm_windowMs l' = lm_windowMs l"
proof -
  have same: "lm_maxKeys l' = lm_maxKeys l" "lm_windowMs l' = lm_windowMs l"
    using c by (auto simp: check_def Let_def split: option.splits if_splits)
  show "lm_windowMs l' = lm_windowMs l" by (rule same)
  have ok: "limiter_ok l'" using check_ok [of l ceiling k now] inv c by (simp add: limiter_inv_def)
  have "1 \<le> wn_count (snd w)" if "w \<in> set (lm_windows l')" for w
    using c
  proof (rule check_windows_cases)
    fix v assume v: "map_of (lm_windows l) k = Some v"
      "lm_windows l' = AList.update k (v\<lparr>wn_count := wn_count v + 1\<rparr>) (lm_windows l)"
    then have "w = (k, v\<lparr>wn_count := wn_count v + 1\<rparr>) \<or> w \<in> set (lm_windows l)"
      using that set_update_subset by fastforce
    then show ?thesis using inv map_of_SomeD [OF v(1)] by (fastforce simp: limiter_inv_def)
  next
    assume "lm_windows l' = AList.update k \<lparr>wn_count = 1, wn_resetAtMs = now + lm_windowMs l\<rparr> (kept_windows l now)"
    then have "w = (k, \<lparr>wn_count = 1, wn_resetAtMs = now + lm_windowMs l\<rparr>) \<or> w \<in> set (lm_windows l)"
      using that set_update_subset kept_windows_part by fastforce
    then show ?thesis using inv by (auto simp: limiter_inv_def)
  qed
  then show "limiter_inv l'" using ok same inv by (simp add: limiter_inv_def)
qed

text \<open>
  How many requests of a key the interval up to \<open>b\<close> still admits when \<open>n\<close> requests of others are still to
  come: what its window leaves, one more window if this one ends in the interval, and one for each time
  that the others can push it out.
\<close>

definition admits :: "int \<Rightarrow> int \<Rightarrow> nat \<Rightarrow> string \<Rightarrow> (string \<times> Window) list \<Rightarrow> int" where
  "admits ceiling b n key windows =
     (case map_of windows key of
        None \<Rightarrow> ceiling * (1 + int (n div 9000))
      | Some v \<Rightarrow> max 0 (ceiling - wn_count v)
          + (if b \<le> wn_resetAtMs v then ceiling * int ((min (behind key windows - 1) 9000 + n) div 9000)
             else ceiling * (2 + int (n div 9000))))"

lemma admits_nonneg: "1 \<le> ceiling \<Longrightarrow> 0 \<le> admits ceiling b n key windows"
  by (auto simp: admits_def split: option.split)

lemma admits_room:
  assumes "1 \<le> ceiling" and "\<forall>w \<in> set windows. 1 \<le> wn_count (snd w)"
  shows "admits ceiling b n key windows \<le> (3 + int (n div 9000)) * ceiling"
proof (cases "map_of windows key")
  case None
  then show ?thesis using assms(1) by (simp add: admits_def algebra_simps)
next
  case (Some v)
  have "(min (behind key windows - 1) 9000 + n) div 9000 \<le> (9000 + n) div 9000" by (intro div_le_mono) simp
  then have "int ((min (behind key windows - 1) 9000 + n) div 9000) \<le> 1 + int (n div 9000)" by simp
  then have m: "ceiling * int ((min (behind key windows - 1) 9000 + n) div 9000) \<le> ceiling * (1 + int (n div 9000))"
    using assms(1) by (intro mult_left_mono) simp_all
  have "max 0 (ceiling - wn_count v) \<le> ceiling" using assms map_of_SomeD [OF Some] by fastforce
  then show ?thesis using Some m assms(1) by (auto simp: admits_def algebra_simps)
qed

lemma admits_more: "1 \<le> ceiling \<Longrightarrow> admits ceiling b n key windows \<le> admits ceiling b (Suc n) key windows"
  by (auto simp: admits_def div_le_mono intro!: mult_left_mono split: option.split)

text \<open>A request of another key.\<close>

lemma admits_other:
  assumes inv: "limiter_inv l" and c: "check ceiling k now l = (d, l')" and "1 \<le> ceiling" "now < b" "k \<noteq> key"
  shows "admits ceiling b n key (lm_windows l') \<le> admits ceiling b (Suc n) key (lm_windows l)"
proof -
  have step: "admits ceiling b n key (AList.update k w us) \<le> admits ceiling b (Suc n) key (lm_windows l)"
    if us: "set us \<subseteq> set (lm_windows l)" "behind key us \<le> behind key (lm_windows l)"
      "\<And>v. map_of (lm_windows l) key = Some v \<Longrightarrow> now < wn_resetAtMs v \<Longrightarrow> map_of us key = None \<Longrightarrow>
         9000 < behind key (lm_windows l)"
    for us w
  proof (cases "map_of us key")
    case None
    have m: "map_of (AList.update k w us) key = None" using None assms(5) by (simp add: update_conv')
    have le: "ceiling * (1 + int (n div 9000)) \<le> ceiling * (1 + int (Suc n div 9000))"
      using assms(3) by (intro mult_left_mono) (simp_all add: div_le_mono)
    show ?thesis
    proof (cases "map_of (lm_windows l) key")
      case n: None
      then show ?thesis using m le by (simp add: admits_def)
    next
      case (Some v)
      have "max 0 (ceiling - wn_count v) + ceiling * (1 + int (Suc n div 9000)) \<le> admits ceiling b (Suc n) key (lm_windows l)"
      proof (cases "b \<le> wn_resetAtMs v")
        case True
        then have "9000 < behind key (lm_windows l)" using us(3) [OF Some _ None] assms(4) by simp
        then have "min (behind key (lm_windows l) - 1) 9000 = 9000" by simp
        then show ?thesis using Some True by (simp add: admits_def div_add_self1 [of 9000 "Suc n", simplified])
      next
        case False
        have "ceiling * (1 + int (Suc n div 9000)) \<le> ceiling * (2 + int (Suc n div 9000))"
          using assms(3) by (intro mult_left_mono) simp_all
        then show ?thesis using Some False by (simp add: admits_def)
      qed
      moreover have "admits ceiling b n key (AList.update k w us) = ceiling * (1 + int (n div 9000))"
        using m by (simp add: admits_def)
      moreover have "0 \<le> max 0 (ceiling - wn_count v)" by simp
      ultimately show ?thesis using le by linarith
    qed
  next
    case (Some v)
    have v: "map_of (lm_windows l) key = Some v"
      using map_of_part [OF _ us(1) Some] inv by (simp add: limiter_inv_def limiter_ok_def)
    have m: "map_of (AList.update k w us) key = Some v" using Some assms(5) by (simp add: update_conv')
    have "behind key (AList.update k w us) \<le> Suc (behind key (lm_windows l))"
      using behind_update_other [OF assms(5), of w us] us(2) by simp
    then have "min (behind key (AList.update k w us) - 1) 9000 + n \<le> min (behind key (lm_windows l) - 1) 9000 + Suc n"
      using Some by (cases "behind key us") (auto simp: min_def)
    then have "(min (behind key (AList.update k w us) - 1) 9000 + n) div 9000
        \<le> (min (behind key (lm_windows l) - 1) 9000 + Suc n) div 9000" by (rule div_le_mono)
    then have "ceiling * int ((min (behind key (AList.update k w us) - 1) 9000 + n) div 9000)
        \<le> ceiling * int ((min (behind key (lm_windows l) - 1) 9000 + Suc n) div 9000)"
      using assms(3) by (intro mult_left_mono) simp_all
    moreover have "ceiling * (2 + int (n div 9000)) \<le> ceiling * (2 + int (Suc n div 9000))"
      using assms(3) by (intro mult_left_mono) (simp_all add: div_le_mono)
    ultimately show ?thesis using m v by (simp add: admits_def)
  qed
  show ?thesis
    using c
  proof (rule check_windows_cases)
    fix v assume "lm_windows l' = AList.update k (v\<lparr>wn_count := wn_count v + 1\<rparr>) (lm_windows l)"
    then show ?thesis using step [of "lm_windows l"] by simp
  next
    assume "lm_windows l' = AList.update k \<lparr>wn_count = 1, wn_resetAtMs = now + lm_windowMs l\<rparr> (kept_windows l now)"
    then show ?thesis
      using step [OF kept_windows_part kept_windows_behind kept_windows_lost [OF inv]] by simp
  qed
qed

text \<open>A request of the key itself.\<close>

lemma admits_own:
  assumes inv: "limiter_inv l" and c: "check ceiling key now l = (d, l')" and "1 \<le> ceiling" "a \<le> now"
    and b: "b = a + lm_windowMs l" "now < b"
  shows "admits ceiling b n key (lm_windows l') + (if rl_allowed d then 1 else 0) \<le> admits ceiling b n key (lm_windows l)"
  using c
proof (rule check_windows_cases)
  fix v assume v: "map_of (lm_windows l) key = Some v" "now < wn_resetAtMs v"
    "lm_windows l' = AList.update key (v\<lparr>wn_count := wn_count v + 1\<rparr>) (lm_windows l)"
    "rl_allowed d \<longleftrightarrow> wn_count v < ceiling"
  then show ?thesis by (auto simp: admits_def update_conv' behind_update_same)
next
  let ?w = "\<lparr>wn_count = 1, wn_resetAtMs = now + lm_windowMs l\<rparr>"
  assume r: "\<forall>v. map_of (lm_windows l) key = Some v \<longrightarrow> wn_resetAtMs v \<le> now"
    "lm_windows l' = AList.update key ?w (kept_windows l now)"
  have m: "map_of (lm_windows l') key = Some ?w" using r(2) by (simp add: update_conv')
  have "b \<le> wn_resetAtMs ?w" using b assms(4) by simp
  then have new: "admits ceiling b n key (lm_windows l')
      = ceiling - 1 + ceiling * int ((min (behind key (lm_windows l') - 1) 9000 + n) div 9000)"
    using m assms(3) by (simp add: admits_def)
  show ?thesis
  proof (cases "map_of (lm_windows l) key")
    case None
    then have "map_of (kept_windows l now) key = None"
      using kept_windows_part by (auto simp: map_of_eq_None_iff)
    then have "behind key (lm_windows l') = 1" using r(2) by (simp add: behind_update_same)
    then show ?thesis using None new assms(3) by (simp add: admits_def algebra_simps)
  next
    case (Some v)
    have "(min (behind key (lm_windows l') - 1) 9000 + n) div 9000 \<le> (9000 + n) div 9000" by (intro div_le_mono) simp
    then have "int ((min (behind key (lm_windows l') - 1) 9000 + n) div 9000) \<le> 1 + int (n div 9000)" by simp
    then have "ceiling * int ((min (behind key (lm_windows l') - 1) 9000 + n) div 9000) \<le> ceiling * (1 + int (n div 9000))"
      using assms(3) by (intro mult_left_mono) simp_all
    then have "admits ceiling b n key (lm_windows l') \<le> ceiling - 1 + ceiling * (1 + int (n div 9000))"
      using new by simp
    moreover have "wn_resetAtMs v < b" using r(1) Some b by fastforce
    then have "admits ceiling b n key (lm_windows l) = max 0 (ceiling - wn_count v) + ceiling * (2 + int (n div 9000))"
      using Some by (simp add: admits_def)
    moreover have "(if rl_allowed d then 1 else 0) \<le> (1 :: int)" and "0 \<le> max 0 (ceiling - wn_count v)" by simp_all
    ultimately show ?thesis unfolding distrib_left by linarith
  qed
qed

definition others_in :: "string \<Rightarrow> int \<Rightarrow> int \<Rightarrow> (string \<times> int) list \<Rightarrow> nat" where
  "others_in key a b requests = length (filter (\<lambda>(k, now). k \<noteq> key \<and> a \<le> now \<and> now < b) requests)"

lemma others_in_Cons:
  "others_in key a b ((k, now) # requests) = (if k \<noteq> key \<and> a \<le> now \<and> now < b then Suc else id) (others_in key a b requests)"
  by (simp add: others_in_def)

lemma allowed_in_admits:
  assumes "limiter_inv l" and "sorted (map snd requests)" and "\<forall>r \<in> set requests. a \<le> snd r" and "1 \<le> ceiling"
  shows "allowed_in key a (a + lm_windowMs l) requests (fst (check_all ceiling requests l))
    \<le> admits ceiling (a + lm_windowMs l) (others_in key a (a + lm_windowMs l) requests) key (lm_windows l)"
  using assms
proof (induction ceiling requests l rule: check_all.induct)
  case (1 ceiling l)
  then show ?case by (simp add: allowed_in_def admits_nonneg)
next
  case (2 ceiling k now requests l)
  obtain d l1 where c: "check ceiling k now l = (d, l1)" by (cases "check ceiling k now l")
  note i = check_inv [OF "2.prems"(1) c]
  have f: "fst (check_all ceiling ((k, now) # requests) l) = d # fst (check_all ceiling requests l1)"
    using c by (simp split: prod.split)
  show ?case
  proof (cases "now < a + lm_windowMs l")
    case True
    let ?b = "a + lm_windowMs l" and ?n = "others_in key a (a + lm_windowMs l) requests"
    have ih: "allowed_in key a ?b requests (fst (check_all ceiling requests l1)) \<le> admits ceiling ?b ?n key (lm_windows l1)"
      using "2.IH" [OF c [symmetric] i(1)] "2.prems"(2-4) i(2) by simp
    have now: "a \<le> now" using "2.prems"(3) by simp
    show ?thesis
    proof (cases "k = key")
      case k: True
      show ?thesis
        using ih admits_own [OF "2.prems"(1) c [unfolded k] "2.prems"(4) now refl True, of ?n] k now True
        unfolding f allowed_in_Cons others_in_Cons by (simp add: counted_def)
    next
      case k: False
      show ?thesis
        using ih admits_other [OF "2.prems"(1) c "2.prems"(4) True k, of ?n] k now True
        unfolding f allowed_in_Cons others_in_Cons by (simp add: counted_def)
    qed
  next
    case False
    then have "\<forall>r \<in> set ((k, now) # requests). a + lm_windowMs l \<le> snd r" using "2.prems"(2) by auto
    from allowed_in_late [OF this] show ?thesis using admits_nonneg [OF "2.prems"(4)] by simp
  qed
qed

lemma allowed_in_rotated:
  assumes "limiter_inv l" and "sorted (map snd requests)" and "1 \<le> ceiling"
  shows "allowed_in key a (a + lm_windowMs l) requests (fst (check_all ceiling requests l))
      \<le> (3 + int (others_in key a (a + lm_windowMs l) requests div 9000)) * ceiling
    \<and> (map_of (lm_windows l) key = None \<and> (\<forall>r \<in> set requests. snd r < a \<longrightarrow> fst r \<noteq> key) \<longrightarrow>
      allowed_in key a (a + lm_windowMs l) requests (fst (check_all ceiling requests l))
        \<le> (1 + int (others_in key a (a + lm_windowMs l) requests div 9000)) * ceiling)"
  using assms
proof (induction ceiling requests l rule: check_all.induct)
  case (1 ceiling l)
  then show ?case by (simp add: allowed_in_def)
next
  case (2 ceiling k now requests l)
  show ?case
  proof (cases "a \<le> now")
    case True
    then have "\<forall>r \<in> set ((k, now) # requests). a \<le> snd r" using "2.prems"(2) by auto
    note le = allowed_in_admits [OF "2.prems"(1,2) this "2.prems"(3), of key]
    have "admits ceiling b n key (lm_windows l) \<le> (3 + int (n div 9000)) * ceiling" for b n
      using "2.prems"(1,3) by (intro admits_room) (simp_all add: limiter_inv_def)
    then show ?thesis using le by (fastforce simp: admits_def algebra_simps intro: order_trans)
  next
    case False
    obtain d l1 where c: "check ceiling k now l = (d, l1)" by (cases "check ceiling k now l")
    note i = check_inv [OF "2.prems"(1) c]
    have f: "fst (check_all ceiling ((k, now) # requests) l) = d # fst (check_all ceiling requests l1)"
      using c by (simp split: prod.split)
    have absent: "map_of (lm_windows l1) key = None" if "map_of (lm_windows l) key = None" "k \<noteq> key"
      using c
    proof (rule check_windows_cases)
      fix v assume "lm_windows l1 = AList.update k (v\<lparr>wn_count := wn_count v + 1\<rparr>) (lm_windows l)"
      then show ?thesis using that by (simp add: update_conv')
    next
      assume "lm_windows l1 = AList.update k \<lparr>wn_count = 1, wn_resetAtMs = now + lm_windowMs l\<rparr> (kept_windows l now)"
      moreover have "map_of (kept_windows l now) key = None"
        using that(1) kept_windows_part by (auto simp: map_of_eq_None_iff)
      ultimately show ?thesis using that(2) by (simp add: update_conv')
    qed
    have "sorted (map snd requests)" using "2.prems"(2) by simp
    note ih = "2.IH" [OF c [symmetric] i(1) this "2.prems"(3), unfolded i(2)]
    show ?thesis
      unfolding f allowed_in_Cons others_in_Cons using ih absent False by (auto simp: counted_def)
  qed
qed

text \<open>
  C32. The limiter bounds a client in every interval, not only in its own windows, and also when its memory
  overflows. In any stretch of time as long as a window, wherever it begins, and whoever else asks: a client
  that had not asked before is admitted at most ceiling times, and once more ceiling times for each nine
  thousand requests of other keys in the stretch, which is what it costs to push its window out; a client
  that had asked before, at most two ceilings more. As long as fewer than ten thousand keys ever ask, it is
  at most twice the ceiling.
\<close>

theorem limiter_bounds_every_interval:
  assumes "sorted (map snd requests)" and "1 \<le> ceiling"
  shows "let got = allowed_in key a (a + windowMs) requests (fst (check_all ceiling requests (new_limiter windowMs)));
      rotations = int (others_in key a (a + windowMs) requests div 9000) in
    got \<le> (3 + rotations) * ceiling
    \<and> ((\<forall>r \<in> set requests. snd r < a \<longrightarrow> fst r \<noteq> key) \<longrightarrow> got \<le> (1 + rotations) * ceiling)
    \<and> (card (fst ` set requests) < 10000 \<longrightarrow> got \<le> 2 * ceiling)"
proof -
  have inv: "limiter_inv (new_limiter windowMs)"
    by (simp add: limiter_inv_def limiter_ok_def new_limiter_def)
  have "allowed_in key a (a + windowMs) requests (fst (check_all ceiling requests (new_limiter windowMs))) \<le> 2 * ceiling"
    if "card (fst ` set requests) < 10000"
  proof -
    have "roomy (new_limiter windowMs) requests" using that by (simp add: roomy_def new_limiter_def)
    from allowed_in_bounded [OF this assms, of key a] show ?thesis by (simp add: new_limiter_def left_in_def)
  qed
  then show ?thesis
    using allowed_in_rotated [OF inv assms, of key a] by (simp add: new_limiter_def Let_def)
qed

section \<open>The gate\<close>

text \<open>
  The gate of a mutation. A request that passes came over a secure transport in production, not from a
  foreign site, declares JSON, and was admitted by both limiters, of its user and of its client. A request
  that is refused before the limiters costs neither of them anything; any other is counted by both, even
  when one of them alone would have refused it.
\<close>

theorem gate_of_a_mutation:
  "(case checkSupportMutation env userId request limiters of
      (None, limiters') \<Rightarrow>
        (ge_production env \<longrightarrow> isSecureRequest request)
        \<and> checkRequestOrigin request (ge_allowedOrigins env) = Origin_allowed
        \<and> isJsonContentType (rq_headers request ''content-type'')
        \<and> rl_allowed (fst (check (ge_userLimit env) (userRateKey userId) (ge_nowMs env) (ml_perUser limiters)))
        \<and> rl_allowed (fst (check (ge_clientLimit env) (clientRateKey (ge_digest env) (ge_salt env) request)
             (ge_nowMs env) (ml_perClient limiters)))
    | (Some rejection, limiters') \<Rightarrow>
        (mr_status rejection \<noteq> 429 \<longrightarrow> limiters' = limiters)
        \<and> (mr_status rejection = 429 \<longleftrightarrow> mr_retryAfterSeconds rejection \<noteq> None)
        \<and> (\<forall>n. mr_retryAfterSeconds rejection = Some n \<longrightarrow> 1 \<le> n))
    \<and> (snd (checkSupportMutation env userId request limiters) = limiters
      \<or> snd (checkSupportMutation env userId request limiters)
        = \<lparr>ml_perUser = snd (check (ge_userLimit env) (userRateKey userId) (ge_nowMs env) (ml_perUser limiters)),
            ml_perClient = snd (check (ge_clientLimit env) (clientRateKey (ge_digest env) (ge_salt env) request)
              (ge_nowMs env) (ml_perClient limiters))\<rparr>)"
proof -
  have o: "x \<noteq> Origin_forbidden \<longleftrightarrow> x = Origin_allowed" for x by (cases x) simp_all
  have n: "1 \<le> rl_retryAfterSeconds (fst (check ceiling key now l))" if "\<not> rl_allowed (fst (check ceiling key now l))" for ceiling key now l
    using that by (auto simp: check_def Let_def split: option.splits if_splits)
  obtain user l1 client l2 where
    u: "check (ge_userLimit env) (userRateKey userId) (ge_nowMs env) (ml_perUser limiters) = (user, l1)" and
    c: "check (ge_clientLimit env) (clientRateKey (ge_digest env) (ge_salt env) request) (ge_nowMs env) (ml_perClient limiters) = (client, l2)"
    by (metis surj_pair)
  show ?thesis
    using n [of "ge_userLimit env" "userRateKey userId" "ge_nowMs env" "ml_perUser limiters"]
      n [of "ge_clientLimit env" "clientRateKey (ge_digest env) (ge_salt env) request" "ge_nowMs env" "ml_perClient limiters"]
    unfolding u c by (auto simp: checkSupportMutation_def u c o)
qed

section \<open>Cursors\<close>

text \<open>
  AES-GCM under one key, for the additional data of the four lists: the tag has sixteen bytes, the
  ciphertext the length of the text, decryption inverts encryption, and nothing decrypts but what was
  encrypted with the same additional data.
\<close>

definition aead_law :: "web_crypto \<Rightarrow> byte list \<Rightarrow> bool" where
  "aead_law cr key \<longleftrightarrow>
     (\<forall>iv resource text sealed tag. cr_encrypt cr key iv (cursor_aad resource) text = (sealed, tag)
        \<and> length iv = IV_BYTES \<longrightarrow>
        length tag = TAG_BYTES \<and> length sealed = length text
        \<and> (\<forall>resource'. cr_decrypt cr key iv (cursor_aad resource') sealed tag
            = (if resource' = resource then Some text else None)))"

lemma length_sextets: "length (b64_sextets bs) \<le> 2 * length bs"
  by (induction bs rule: b64_sextets.induct) (simp_all add: Let_def)

lemma b64_letters: "list_all b64url_letter (b64url_encode bs)"
proof -
  have "b64url_letter (b64_char n)" if "n < 64" for n
    using b64_value_char [OF that] that by (simp add: b64url_letter_def char_code_eq) (auto simp: b64_char_def char_code_def)
  then show ?thesis using sextets_small [of bs] by (simp add: b64url_encode_def list_all_iff)
qed

definition position_ok :: "keyset_cursor \<Rightarrow> bool" where
  "position_ok c \<longleftrightarrow> 0 < fst c \<and> fst c < 10 ^ 15 \<and> is_uuid_text (snd c)"

lemma dot_parts:
  assumes "CHR ''.'' \<notin> set x"
  shows "takeWhile (\<lambda>c. c \<noteq> CHR ''.'') (x @ CHR ''.'' # y) = x" "tl (dropWhile (\<lambda>c. c \<noteq> CHR ''.'') (x @ CHR ''.'' # y)) = y"
proof -
  have "\<forall>c \<in> set x. c \<noteq> CHR ''.''" using assms by metis
  then show "takeWhile (\<lambda>c. c \<noteq> CHR ''.'') (x @ CHR ''.'' # y) = x" "tl (dropWhile (\<lambda>c. c \<noteq> CHR ''.'') (x @ CHR ''.'' # y)) = y"
    by (simp_all add: takeWhile_tail dropWhile_append3 takeWhile_eq_all_conv dropWhile_eq_Nil_conv)
qed

lemma read_position_ok:
  assumes "position_ok c"
  shows "read_position (show_int (fst c) @ ''.'' @ snd c) = Some c"
    "length (show_int (fst c) @ ''.'' @ snd c) \<le> 52" "0 < length (show_int (fst c) @ ''.'' @ snd c)"
proof -
  have s: "show_int (fst c) = show_nat (nat (fst c))" "nat (fst c) < 10 ^ 15" "nat (fst c) \<noteq> 0"
    using assms by (auto simp: position_ok_def show_int_def nat_less_iff)
  show "read_position (show_int (fst c) @ ''.'' @ snd c) = Some c"
    using assms s show_nat_15 [OF s(2)] dot_parts [of "show_nat (nat (fst c))" "snd c"]
    by (auto simp: read_position_def Let_def position_ok_def)
  show "length (show_int (fst c) @ ''.'' @ snd c) \<le> 52" "0 < length (show_int (fst c) @ ''.'' @ snd c)"
    using assms s length_show_nat [of "nat (fst c)" 14] by (auto simp: position_ok_def is_uuid_text_def)
qed

lemma sealed_cursor:
  assumes "encodeCursor cr secret iv resource c = Some token" and "position_ok c" and "length iv = IV_BYTES"
    and "\<forall>key. cursorKey cr secret = Some key \<longrightarrow> aead_law cr key"
  shows "decodeCursor cr secret token resource' = (if resource' = resource then Some c else None)"
proof -
  let ?text = "show_int (fst c) @ ''.'' @ snd c"
  obtain key sealed tag where k: "cursorKey cr secret = Some key"
    and e: "cr_encrypt cr key iv (cursor_aad resource) ?text = (sealed, tag)"
    and t: "token = CURSOR_VERSION @ CHR ''.'' # b64url_encode (iv @ sealed @ tag)"
    using assms(1) by (auto simp: encodeCursor_def split: option.splits prod.splits)
  have law: "length tag = TAG_BYTES" "length sealed = length ?text"
    "cr_decrypt cr key iv (cursor_aad resource') sealed tag = (if resource' = resource then Some ?text else None)"
    using assms(3,4) k e unfolding aead_law_def by blast+
  have v: "CHR ''.'' \<notin> set CURSOR_VERSION" by (simp add: CURSOR_VERSION_def)
  note parts = dot_parts [OF v, of "b64url_encode (iv @ sealed @ tag)"]
  have n: "length (iv @ sealed @ tag) \<le> 80" "IV_BYTES + TAG_BYTES < length (iv @ sealed @ tag)"
    using law(1,2) assms(3) read_position_ok(2,3) [OF assms(2)] by (auto simp: IV_BYTES_def TAG_BYTES_def)
  have b: "b64url_encode (iv @ sealed @ tag) \<noteq> []" "length (b64url_encode (iv @ sealed @ tag)) \<le> 512"
    using length_sextets [of "iv @ sealed @ tag"] n b64url_roundtrip [of "iv @ sealed @ tag"]
    by (auto simp: b64url_encode_def b64url_decode_def List.map_filter_simps)
  have split: "take IV_BYTES (iv @ sealed @ tag) = iv"
    "drop IV_BYTES (take (length (iv @ sealed @ tag) - TAG_BYTES) (iv @ sealed @ tag)) = sealed"
    "drop (length (iv @ sealed @ tag) - TAG_BYTES) (iv @ sealed @ tag) = tag"
    using law(1) assms(3) by simp_all
  have "decodeCursor cr secret token resource' =
      (case cr_decrypt cr key iv (cursor_aad resource') sealed tag of None \<Rightarrow> None | Some plaintext \<Rightarrow> read_position plaintext)"
    using b n(2) k v
    unfolding decodeCursor_def t parts b64url_roundtrip Let_def split by (simp add: b64_letters)
  then show ?thesis using read_position_ok(1) [OF assms(2)] by (simp add: law(3))
qed

text \<open>
  A cursor opens for its list and for no other. What is sealed for a position in one list reads back as
  that position when it is presented to the same list, and as nothing when it is presented to another,
  whatever the random bytes of the seal.
\<close>

theorem cursor_opens_for_its_list:
  assumes "encodeCursor cr secret iv resource c = Some token" and "position_ok c" and "length iv = IV_BYTES"
    and "\<forall>key. cursorKey cr secret = Some key \<longrightarrow> aead_law cr key"
  shows "decodeCursor cr secret token resource' = (if resource' = resource then Some c else None)"
  using assms by (rule sealed_cursor)

end
