(* ===== verification/MiniAppAccessFacts.thy ===== *)
theory MiniAppAccessFacts
  imports MiniAppAccess MiniAppSessionFacts ForceJoinFacts MiniAppGuardsFacts
begin

text \<open>
  What the front door of the Mini App promises: access is earned at every gate and denied when a gate
  cannot be read, a session is minted for the user that Telegram signed and for no other, it follows the
  account of its user on every request, and the reads behind it see the rows of that user only.
\<close>

section \<open>Access\<close>

lemma readBooleanSetting_Some:
  "readBooleanSetting env r key s = Some b \<longleftrightarrow> \<not> ac_fails env r \<and> b = isTruthySetting (setting_value key s)"
  by (auto simp: readBooleanSetting_def isTruthySetting_def Let_def js_lower_def split: option.split)

lemma account_gate_Inr: "account_gate found = Inr user \<longleftrightarrow> found = Some user \<and> u_status user = UserStatus_ACTIVE"
  by (cases found) (auto simp: account_gate_def)

definition published :: "db \<Rightarrow> terms_row set" where
  "published s = {d \<in> set (terms_documents s). td_status d = Terms_PUBLISHED}"

lemma latest_document_newest:
  assumes "d \<in> published s" and "\<And>e. e \<in> published s \<Longrightarrow> e = d \<or> document_order d < document_order e"
  shows "latest_document s = Some d"
proof -
  let ?xs = "sort_key document_order (filter (\<lambda>d. td_status d = Terms_PUBLISHED) (terms_documents s))"
  have set: "set ?xs = published s" by (auto simp: published_def)
  with assms(1) have "?xs \<noteq> []" by (metis empty_iff list.set(1))
  then obtain h t where x: "?xs = h # t" by (cases ?xs) auto
  have "h \<in> published s" using set x by auto
  then have h: "h = d \<or> document_order d < document_order h" by (rule assms(2))
  have "document_order h \<le> document_order d"
    using sorted_sort_key [of document_order "filter (\<lambda>d. td_status d = Terms_PUBLISHED) (terms_documents s)"]
      assms(1) set unfolding x by auto
  with h have "h = d" by auto
  with x show ?thesis by (simp add: latest_document_def)
qed

lemma terms_gate_None:
  assumes "evaluateTermsGate env userId s = None"
  shows "\<not> ac_fails env Read_terms_switch"
    and "isTruthySetting (setting_value ''terms_required'' (db_at env 2 s)) \<Longrightarrow>
      \<not> ac_fails env Read_document \<and> (\<forall>d. latest_document (db_at env 3 s) = Some d \<longrightarrow>
        \<not> ac_fails env Read_acceptance \<and> accepted_document (db_at env 4 s) userId (td_id d))"
proof -
  let ?r = "readBooleanSetting env Read_terms_switch ''terms_required'' (db_at env 2 s)"
  obtain b where r: "?r = Some b"
    using assms by (cases ?r) (simp_all add: evaluateTermsGate_def)
  then show "\<not> ac_fails env Read_terms_switch" unfolding readBooleanSetting_Some by blast
  assume "isTruthySetting (setting_value ''terms_required'' (db_at env 2 s))"
  then have "?r = Some True" using r unfolding readBooleanSetting_Some by blast
  with assms show "\<not> ac_fails env Read_document \<and> (\<forall>d. latest_document (db_at env 3 s) = Some d \<longrightarrow>
      \<not> ac_fails env Read_acceptance \<and> accepted_document (db_at env 4 s) userId (td_id d))"
    by (cases "latest_document (db_at env 3 s)") (simp_all add: evaluateTermsGate_def split: if_splits)
qed

lemma active_channels: "set (listActiveChannels s) = {c \<in> set (channels s). fc_isActive c}"
  by (simp add: listActiveChannels_def)

lemma distinct_active: "distinct (map fc_id (channels s)) \<Longrightarrow> distinct (map fc_id (listActiveChannels s))"
  by (simp add: listActiveChannels_def distinct_map inj_on_def)

lemma join_gate_None:
  assumes "evaluateForceJoinGate env telegramId bypass st = (None, st')" and "\<not> bypass"
    and "distinct (map fc_id (channels (db_at env 6 (jn_db st))))"
  shows "\<not> ac_fails env Read_join_switch"
    and "isTruthySetting (setting_value ''force_join_enabled'' (db_at env 5 (jn_db st))) \<Longrightarrow>
      \<not> ac_fails env Read_channels \<and> (\<forall>c \<in> set (channels (db_at env 6 (jn_db st))). fc_isActive c \<longrightarrow>
        ac_botToken env \<notin> {None, Some ''''}
        \<and> channel_verdict (ac_join env) telegramId False (jn_redis st) c \<in> {JOINED, UNVERIFIABLE})"
proof -
  let ?s = "db_at env 6 (jn_db st)"
  let ?cs = "listActiveChannels ?s"
  let ?v = "channel_verdict (ac_join env) telegramId False (jn_redis st)"
  let ?r = "readBooleanSetting env Read_join_switch ''force_join_enabled'' (db_at env 5 (jn_db st))"
  obtain x where r: "?r = Some x"
    using assms(1,2) by (cases ?r) (simp_all add: evaluateForceJoinGate_def)
  then show "\<not> ac_fails env Read_join_switch" unfolding readBooleanSetting_Some by blast
  assume "isTruthySetting (setting_value ''force_join_enabled'' (db_at env 5 (jn_db st)))"
  then have b: "?r = Some True" using r unfolding readBooleanSetting_Some by blast
  have p: "fst (evaluateForceJoinMembership (ac_join env) telegramId ?cs False (st\<lparr>jn_db := ?s\<rparr>)) = PASS
      \<Longrightarrow> \<forall>c \<in> set ?cs. ?v c \<in> {JOINED, UNVERIFIABLE}"
  proof
    fix c assume g: "fst (evaluateForceJoinMembership (ac_join env) telegramId ?cs False (st\<lparr>jn_db := ?s\<rparr>)) = PASS"
      and c: "c \<in> set ?cs"
    have "?v c \<noteq> NOT_JOINED \<and> ?v c \<noteq> TEMP"
      using g c unfolding gate_verdicts [OF distinct_active [OF assms(3)]]
      by (auto simp: Let_def filter_empty_conv split: if_splits)
    then show "?v c \<in> {JOINED, UNVERIFIABLE}" by (cases "?v c") auto
  qed
  show "\<not> ac_fails env Read_channels \<and> (\<forall>c \<in> set (channels ?s). fc_isActive c \<longrightarrow>
        ac_botToken env \<notin> {None, Some ''''} \<and> ?v c \<in> {JOINED, UNVERIFIABLE})"
  proof (cases "?cs = []")
    case True
    then have "\<forall>c \<in> set (channels ?s). \<not> fc_isActive c" using active_channels [of ?s] by auto
    moreover have "\<not> ac_fails env Read_channels"
      using assms(1,2) b by (auto simp: evaluateForceJoinGate_def split: if_splits)
    ultimately show ?thesis by blast
  next
    case False
    have "\<not> ac_fails env Read_channels \<and> ac_botToken env \<notin> {None, Some ''''}
        \<and> fst (evaluateForceJoinMembership (ac_join env) telegramId ?cs False (st\<lparr>jn_db := ?s\<rparr>)) = PASS"
      using assms(1,2) b False
      by (auto simp: evaluateForceJoinGate_def Let_def split: if_splits prod.splits ForceJoinGateOutcome.splits)
    then show ?thesis using p active_channels [of ?s] by auto
  qed
qed

lemma access_Inr:
  assumes "evaluateMiniAppAccess env userId st = (Inr user, st')"
  shows "\<not> ac_fails env Read_maintenance"
    "\<not> isTruthySetting (setting_value ''maintenance_mode'' (db_at env 0 (jn_db st)))"
    "\<not> ac_fails env Read_user"
    "find (\<lambda>u. u_id u = userId) (users (db_at env 1 (jn_db st))) = Some user"
    "u_status user = UserStatus_ACTIVE"
    "evaluateTermsGate env (u_id user) (jn_db st) = None"
    "evaluateForceJoinGate env (u_telegramId user) (u_forceJoinBypass user) st = (None, st')"
proof -
  let ?r = "readBooleanSetting env Read_maintenance ''maintenance_mode'' (db_at env 0 (jn_db st))"
  let ?f = "find (\<lambda>u. u_id u = userId) (users (db_at env 1 (jn_db st)))"
  obtain b where r: "?r = Some b" "\<not> b"
    using assms by (cases ?r) (auto simp: evaluateMiniAppAccess_def split: bool.splits)
  then have m: "?r = Some False" by simp
  then show "\<not> ac_fails env Read_maintenance"
    "\<not> isTruthySetting (setting_value ''maintenance_mode'' (db_at env 0 (jn_db st)))"
    unfolding readBooleanSetting_Some by blast+
  show u: "\<not> ac_fails env Read_user"
    using assms m by (auto simp: evaluateMiniAppAccess_def)
  obtain v where v: "account_gate ?f = Inr v"
    using assms m u by (cases "account_gate ?f") (auto simp: evaluateMiniAppAccess_def)
  have t: "evaluateTermsGate env (u_id v) (jn_db st) = None"
    using assms m u v by (cases "evaluateTermsGate env (u_id v) (jn_db st)") (auto simp: evaluateMiniAppAccess_def)
  obtain d st1 where g: "evaluateForceJoinGate env (u_telegramId v) (u_forceJoinBypass v) st = (d, st1)"
    by (cases "evaluateForceJoinGate env (u_telegramId v) (u_forceJoinBypass v) st")
  have "v = user \<and> d = None \<and> st1 = st'"
    using assms m u v t g by (cases d) (auto simp: evaluateMiniAppAccess_def)
  then show "?f = Some user" "u_status user = UserStatus_ACTIVE" "evaluateTermsGate env (u_id user) (jn_db st) = None"
    "evaluateForceJoinGate env (u_telegramId user) (u_forceJoinBypass user) st = (None, st')"
    using v t g account_gate_Inr by auto
qed

text \<open>
  C27. Access is earned at every gate. Whoever is let in is the account that was asked for and is active;
  maintenance is off; if the terms are required, the newest published document is accepted by that user; if
  forced joins are on and the user is not exempt, every active channel is joined or cannot be checked, and
  the bot has a token to ask with. No gate was passed because it could not be read. Others may change the
  database between the reads: each condition holds at the moment of its read.
\<close>

theorem access_is_earned:
  assumes "evaluateMiniAppAccess env userId st = (Inr user, st')"
    and "distinct (map fc_id (channels (db_at env 6 (jn_db st))))"
  shows "let at = \<lambda>n. db_at env n (jn_db st) in user \<in> set (users (at 1)) \<and> u_id user = userId \<and> u_status user = UserStatus_ACTIVE
    \<and> \<not> isTruthySetting (setting_value ''maintenance_mode'' (at 0))
    \<and> (isTruthySetting (setting_value ''terms_required'' (at 2)) \<longrightarrow>
        (\<forall>d \<in> published (at 3). (\<forall>e \<in> published (at 3). e = d \<or> document_order d < document_order e)
          \<longrightarrow> accepted_document (at 4) userId (td_id d)))
    \<and> (isTruthySetting (setting_value ''force_join_enabled'' (at 5)) \<and> \<not> u_forceJoinBypass user \<longrightarrow>
        (\<forall>c \<in> set (channels (at 6)). fc_isActive c \<longrightarrow> ac_botToken env \<notin> {None, Some ''''}
          \<and> channel_verdict (ac_join env) (u_telegramId user) False (jn_redis st) c \<in> {JOINED, UNVERIFIABLE}))
    \<and> \<not> ac_fails env Read_maintenance \<and> \<not> ac_fails env Read_user \<and> \<not> ac_fails env Read_terms_switch
    \<and> (\<not> u_forceJoinBypass user \<longrightarrow> \<not> ac_fails env Read_join_switch)"
proof -
  define at where "at = (\<lambda>n. db_at env n (jn_db st))"
  note a = access_Inr [OF assms(1)]
  have u: "user \<in> set (users (at 1))" "u_id user = userId"
    using find_Some_in [OF a(4)] by (simp_all add: at_def)
  have t: "accepted_document (at 4) userId (td_id d)"
    if "isTruthySetting (setting_value ''terms_required'' (at 2))" "d \<in> published (at 3)"
      "\<forall>e \<in> published (at 3). e = d \<or> document_order d < document_order e" for d
    using terms_gate_None(2) [OF a(6)] that(1) latest_document_newest [of d "at 3"] that(2,3) u(2)
    unfolding at_def by blast
  have j: "u_forceJoinBypass user \<or> \<not> ac_fails env Read_join_switch"
    using join_gate_None(1) [OF a(7)] assms(2) by blast
  have c: "ac_botToken env \<notin> {None, Some ''''}
      \<and> channel_verdict (ac_join env) (u_telegramId user) False (jn_redis st) c \<in> {JOINED, UNVERIFIABLE}"
    if "isTruthySetting (setting_value ''force_join_enabled'' (at 5))" "\<not> u_forceJoinBypass user"
      "c \<in> set (channels (at 6))" "fc_isActive c" for c
    using join_gate_None(2) [OF a(7) that(2)] that assms(2) unfolding at_def by blast
  have m: "\<not> isTruthySetting (setting_value ''maintenance_mode'' (at 0))" using a(2) unfolding at_def by blast
  show ?thesis
    using u t c j m a(1,3,5) terms_gate_None(1) [OF a(6)] unfolding Let_def at_def [symmetric] by blast
qed

section \<open>Sessions\<close>

text \<open>What the browser sends back of a \<open>Set-Cookie\<close> header: the pair in front of the attributes.\<close>

definition browser_cookie :: "string \<Rightarrow> string" where
  "browser_cookie setCookie = takeWhile (\<lambda>c. c \<noteq> CHR '';'') setCookie"

lemma browser_cookie_pair:
  assumes "CHR '';'' \<notin> set token"
  shows "browser_cookie (serializeMiniAppSessionCookie token secure maxAge) = MINIAPP_SESSION_COOKIE_NAME @ ''='' @ token"
proof -
  let ?c = "MINIAPP_SESSION_COOKIE_NAME @ ''='' @ token"
  obtain r where r: "serializeMiniAppSessionCookie token secure maxAge = ?c @ CHR '';'' # r"
    by (simp add: serializeMiniAppSessionCookie_def)
  have c: "CHR '';'' \<notin> set ?c" using assms by (simp add: MINIAPP_SESSION_COOKIE_NAME_def)
  have "takeWhile (\<lambda>x. x \<noteq> CHR '';'') (?c @ CHR '';'' # r) = ?c @ takeWhile (\<lambda>x. x \<noteq> CHR '';'') (CHR '';'' # r)"
    by (rule takeWhile_append2) (use c in metis)
  then show ?thesis unfolding browser_cookie_def r by simp
qed

lemma browser_cookie_value:
  assumes "CHR '';'' \<notin> set token" and "\<forall>c \<in> set token. \<not> is_ws c"
  shows "readMiniAppSessionCookie (Some (browser_cookie (serializeMiniAppSessionCookie token secure maxAge))) = Some token"
proof -
  let ?c = "MINIAPP_SESSION_COOKIE_NAME @ ''='' @ token"
  have c: "CHR '';'' \<notin> set ?c" using assms(1) by (simp add: MINIAPP_SESSION_COOKIE_NAME_def)
  have n: "CHR ''='' \<notin> set MINIAPP_SESSION_COOKIE_NAME" "MINIAPP_SESSION_COOKIE_NAME \<noteq> []"
    "js_trim MINIAPP_SESSION_COOKIE_NAME = MINIAPP_SESSION_COOKIE_NAME"
    by code_simp+
  have "before_eq ?c = MINIAPP_SESSION_COOKIE_NAME" "after_eq ?c = token"
    using key_value [OF n(1)] by simp_all
  then have v: "cookie_in [?c] = Some token"
    using n js_trim_id [OF assms(2)] by simp
  have e: "?c \<noteq> []" by simp
  show ?thesis
    unfolding browser_cookie_pair [OF assms(1)] readMiniAppSessionCookie_def option.case js_split_single [OF c] using v e by (simp only: if_False)
qed

lemma session_reply_Sent:
  assumes "hr_body (session_reply env request nowMs userId user) = Sent b"
  obtains token where "issueMiniAppSession (dr_crypto env) (dr_secret env) userId (miniAppSessionTtlSeconds (dr_config env)) nowMs = Some token"
    and "hr_setCookie (session_reply env request nowMs userId user)
      = Some (serializeMiniAppSessionCookie token (isSecureRequest request) (miniAppSessionTtlSeconds (dr_config env)))"
  using assms by (auto simp: session_reply_def Let_def crash_def send_def split: option.splits)

lemma expiry_no_semicolon: "CHR '';'' \<notin> set (show_int n)"
  using show_int_chars [of n] by (auto simp: is_digit_def char_code_def)

lemma issued_clean: "issueMiniAppSession cr secret userId ttl nowMs = Some token \<Longrightarrow> CHR '';'' \<notin> set token"
  using expiry_no_semicolon by (auto simp: issue_Some issued_body_def session_body_def session_mac_def MINIAPP_SESSION_VERSION_def)

lemma refusals_send_nothing [simp]: "hr_body (fail n c) \<noteq> Sent b" "hr_body (denied_reply d) \<noteq> Sent b" "hr_body crash \<noteq> Sent b"
  by (simp_all add: fail_def denied_reply_def crash_def)

lemma post_auth_Sent:
  assumes "post_auth env request body st = (reply, st')" and "hr_body reply = Sent b"
  obtains botToken initData v found user where "ac_botToken (dr_access env) = Some botToken"
    and "initData_of body = Some initData"
    and "validateMiniAppInitData (dr_crypto env) botToken (miniAppInitDataMaxAgeSeconds (dr_config env))
        (now_of (ds_join st) div 1000) initData = Inr v"
    and "find (\<lambda>u. u_telegramId u = iu_telegramId v) (users (jn_db (ds_join st))) = Some found"
    and "evaluateMiniAppAccess (dr_access env) (u_id found) (ds_join st) = (Inr user, ds_join st')"
    and "reply = session_reply env request (now_of (ds_join st')) (u_id found) user"
    and "checkRequestOrigin request (dr_allowedOrigins env) = Origin_allowed"
    and "\<not> (dr_production env \<and> \<not> isSecureRequest request)"
proof -
  let ?j = "ds_join st"
  have o: "checkRequestOrigin request (dr_allowedOrigins env) = Origin_allowed"
    using assms by (cases "checkRequestOrigin request (dr_allowedOrigins env)") (auto simp: post_auth_def)
  have p: "\<not> (dr_production env \<and> \<not> isSecureRequest request)"
    and c: "checked_sign_in env request body ?j = (reply, ds_join st')"
    using assms o by (auto simp: post_auth_def Let_def split: prod.splits if_splits)
  obtain botToken where k: "ac_botToken (dr_access env) = Some botToken"
    using c assms(2) by (cases "ac_botToken (dr_access env)") (auto simp: checked_sign_in_def)
  obtain initData where i: "initData_of body = Some initData"
    using c k assms(2) by (cases "initData_of body") (auto simp: checked_sign_in_def)
  let ?v = "validateMiniAppInitData (dr_crypto env) botToken (miniAppInitDataMaxAgeSeconds (dr_config env))
        (now_of ?j div 1000) initData"
  obtain v where v: "?v = Inr v"
    using c k i assms(2) by (cases ?v) (auto simp: checked_sign_in_def split: if_splits)
  have s: "sign_in env request (iu_telegramId v) ?j = (reply, ds_join st')"
    using c k i v assms(2) by (auto simp: checked_sign_in_def split: if_splits)
  let ?f = "find (\<lambda>u. u_telegramId u = iu_telegramId v) (users (jn_db ?j))"
  obtain found where f: "?f = Some found"
    using s assms(2) by (cases ?f) (auto simp: sign_in_def split: if_splits)
  obtain user where "evaluateMiniAppAccess (dr_access env) (u_id found) ?j = (Inr user, ds_join st')"
    and "reply = session_reply env request (now_of (ds_join st')) (u_id found) user"
    using s f assms(2) by (auto simp: sign_in_def split: if_splits prod.splits sum.splits)
  with o p k i v f show ?thesis using that by blast
qed

lemma post_auth_user:
  assumes "post_auth env request body st = (reply, st')" and "hr_body reply = Sent b"
  obtains v :: init_data_user and found user where "find (\<lambda>u. u_telegramId u = iu_telegramId v) (users (jn_db (ds_join st))) = Some found"
    and "evaluateMiniAppAccess (dr_access env) (u_id found) (ds_join st) = (Inr user, ds_join st')"
    and "reply = session_reply env request (now_of (ds_join st')) (u_id found) user"
proof (rule post_auth_Sent [OF assms])
  fix botToken initData and v :: init_data_user and found user
  assume "find (\<lambda>u. u_telegramId u = iu_telegramId v) (users (jn_db (ds_join st))) = Some found"
    and "evaluateMiniAppAccess (dr_access env) (u_id found) (ds_join st) = (Inr user, ds_join st')"
    and "reply = session_reply env request (now_of (ds_join st')) (u_id found) user"
  then show thesis by (rule that)
qed

lemma authenticate_verified:
  assumes "readMiniAppSessionCookie (headerValue request ''cookie'') = Some raw" and "raw \<noteq> []"
    and "verifyMiniAppSession (dr_crypto env) (dr_secret env) (now_of st) raw = Some r"
  shows "authenticate env request st =
    (case r of
       Inl _ \<Rightarrow> (Inl ((fail 401 Err_NOT_AUTHENTICATED)\<lparr>hr_setCookie :=
          Some (serializeMiniAppSessionClearCookie (isSecureRequest request))\<rparr>), st)
     | Inr payload \<Rightarrow>
         (case evaluateMiniAppAccess (dr_access env) (ss_userId payload) st of
            (Inl denied, st1) \<Rightarrow> (Inl (denied_reply denied), st1) | (Inr user, st1) \<Rightarrow> (Inr user, st1)))"
  using assms by (cases r) (simp_all add: authenticate_def)

text \<open>
  C26. A session is minted for the user whom Telegram signed, and only through every gate. When signing in
  succeeds, the request came from an allowed origin, over TLS in production; its text was validated against
  the token of the bot; the account is the one registered for the signed Telegram identifier; that account
  passes the access policy now; and the cookie holds a token issued to that account.
\<close>

theorem session_is_minted_for_the_signed_user:
  assumes "post_auth env request body st = (reply, st')" and "hr_body reply = Sent b"
  shows "\<exists>botToken initData v user token.
    ac_botToken (dr_access env) = Some botToken \<and> initData_of body = Some initData
    \<and> validateMiniAppInitData (dr_crypto env) botToken (miniAppInitDataMaxAgeSeconds (dr_config env))
        (now_of (ds_join st) div 1000) initData = Inr v
    \<and> (\<exists>found \<in> set (users (jn_db (ds_join st))). u_telegramId found = iu_telegramId v \<and> u_id found = u_id user)
    \<and> evaluateMiniAppAccess (dr_access env) (u_id user) (ds_join st) = (Inr user, ds_join st')
    \<and> issueMiniAppSession (dr_crypto env) (dr_secret env) (u_id user) (miniAppSessionTtlSeconds (dr_config env))
        (now_of (ds_join st')) = Some token
    \<and> map_option browser_cookie (hr_setCookie reply) = Some (MINIAPP_SESSION_COOKIE_NAME @ ''='' @ token)
    \<and> checkRequestOrigin request (dr_allowedOrigins env) = Origin_allowed
    \<and> (dr_production env \<longrightarrow> isSecureRequest request)"
proof -
  obtain botToken initData v found user where p: "ac_botToken (dr_access env) = Some botToken" "initData_of body = Some initData"
    "validateMiniAppInitData (dr_crypto env) botToken (miniAppInitDataMaxAgeSeconds (dr_config env))
        (now_of (ds_join st) div 1000) initData = Inr v"
    and f: "find (\<lambda>u. u_telegramId u = iu_telegramId v) (users (jn_db (ds_join st))) = Some found"
    and a: "evaluateMiniAppAccess (dr_access env) (u_id found) (ds_join st) = (Inr user, ds_join st')"
    and r: "reply = session_reply env request (now_of (ds_join st')) (u_id found) user"
    and o: "checkRequestOrigin request (dr_allowedOrigins env) = Origin_allowed"
      "\<not> (dr_production env \<and> \<not> isSecureRequest request)"
    using post_auth_Sent [OF assms] by blast
  have "hr_body (session_reply env request (now_of (ds_join st')) (u_id found) user) = Sent b"
    using assms(2) r by simp
  then obtain token where
      t: "issueMiniAppSession (dr_crypto env) (dr_secret env) (u_id found) (miniAppSessionTtlSeconds (dr_config env)) (now_of (ds_join st')) = Some token"
    and c: "hr_setCookie (session_reply env request (now_of (ds_join st')) (u_id found) user)
      = Some (serializeMiniAppSessionCookie token (isSecureRequest request) (miniAppSessionTtlSeconds (dr_config env)))"
    by (rule session_reply_Sent)
  have u: "u_id found = u_id user" using find_Some_in [OF access_Inr(4) [OF a]] by simp
  have k: "map_option browser_cookie (hr_setCookie reply) = Some (MINIAPP_SESSION_COOKIE_NAME @ ''='' @ token)"
    using c r browser_cookie_pair [OF issued_clean [OF t]] by simp
  have "found \<in> set (users (jn_db (ds_join st)))" "u_telegramId found = iu_telegramId v"
    using find_Some_in [OF f] by simp_all
  then show ?thesis using p a [unfolded u] t [unfolded u] k o u by blast
qed

text \<open>
  C25. A session follows the account of its user. The cookie that signing in sets, sent back by the browser,
  authenticates every request until the session expires, on any server with the same secret, as the account
  that signed in, and only as far as that account passes the access policy at that request: an account that
  is blocked, or owes the terms or a channel, gets the refusal of its gate instead. After the expiry, which
  is within an hour, the request is not authenticated and the cookie is cleared.
\<close>

theorem session_follows_the_account:
  assumes "post_auth env request body st = (reply, st')" and "hr_body reply = Sent b"
    and "hr_setCookie reply = Some setCookie"
    and "\<forall>u \<in> set (users (jn_db (ds_join st))). u_id u \<noteq> [] \<and> utf8_valid (u_id u)"
    and "clock_ok (now_of (ds_join st'))"
    and "dr_crypto env' = dr_crypto env" and "dr_secret env' = dr_secret env"
    and "headerValue request' ''cookie'' = Some (browser_cookie setCookie)"
  shows "\<exists>user expiry. evaluateMiniAppAccess (dr_access env) (u_id user) (ds_join st) = (Inr user, ds_join st')
    \<and> expiry \<le> now_of (ds_join st') div 1000 + 3600
    \<and> authenticate env' request' later =
      (if expiry \<le> now_of later div 1000
       then (Inl ((fail 401 Err_NOT_AUTHENTICATED)\<lparr>hr_setCookie :=
          Some (serializeMiniAppSessionClearCookie (isSecureRequest request'))\<rparr>), later)
       else (case evaluateMiniAppAccess (dr_access env') (u_id user) later of
          (Inl denied, st1) \<Rightarrow> (Inl (denied_reply denied), st1) | (Inr user', st1) \<Rightarrow> (Inr user', st1)))"
proof -
  obtain v :: init_data_user and found user
    where f: "find (\<lambda>u. u_telegramId u = iu_telegramId v) (users (jn_db (ds_join st))) = Some found"
      and a: "evaluateMiniAppAccess (dr_access env) (u_id found) (ds_join st) = (Inr user, ds_join st')"
      and r: "reply = session_reply env request (now_of (ds_join st')) (u_id found) user"
    by (rule post_auth_user [OF assms(1,2)])
  have "hr_body (session_reply env request (now_of (ds_join st')) (u_id found) user) = Sent b"
    using assms(2) r by simp
  then obtain token where
      t: "issueMiniAppSession (dr_crypto env) (dr_secret env) (u_id found) (miniAppSessionTtlSeconds (dr_config env)) (now_of (ds_join st')) = Some token"
    and c: "hr_setCookie (session_reply env request (now_of (ds_join st')) (u_id found) user)
      = Some (serializeMiniAppSessionCookie token (isSecureRequest request) (miniAppSessionTtlSeconds (dr_config env)))"
    by (rule session_reply_Sent)
  have u: "u_id found = u_id user"
    using conjunct2 [OF find_Some_in [OF access_Inr(4) [OF a]]] by (rule sym)
  obtain key where k: "sessionKey (dr_crypto env) (dr_secret env) = Some key"
    and i: "token = issued_body (u_id found) (miniAppSessionTtlSeconds (dr_config env)) (now_of (ds_join st')) @ ''.''
        @ session_mac (dr_crypto env) key (issued_body (u_id found) (miniAppSessionTtlSeconds (dr_config env)) (now_of (ds_join st')))"
    using t unfolding issue_Some by (elim exE conjE) (rule that)
  have ok: "u_id found \<noteq> []" "utf8_valid (u_id found)"
    using bspec [OF assms(4) conjunct1 [OF find_Some_in [OF f]]] by simp_all
  let ?e = "now_of (ds_join st') div 1000 + session_ttl (miniAppSessionTtlSeconds (dr_config env))"
  have A: "readMiniAppSessionCookie (headerValue request' ''cookie'') = Some token"
  proof -
    have "setCookie = serializeMiniAppSessionCookie token (isSecureRequest request) (miniAppSessionTtlSeconds (dr_config env))"
      using c assms(3) unfolding r [symmetric] by simp
    then show ?thesis
      unfolding assms(8) i by (simp only: browser_cookie_value [OF token_clean [OF assms(5)]])
  qed
  have B: "token \<noteq> []" unfolding i by simp
  have C: "verifyMiniAppSession (dr_crypto env') (dr_secret env') (now_of later) token
      = Some (if ?e \<le> now_of later div 1000 then Inl Session_EXPIRED else Inr \<lparr>ss_userId = u_id found, ss_expiresAtSeconds = ?e\<rparr>)"
    unfolding assms(6,7) i verify_issued [OF k ok assms(5)] Let_def by (rule refl)
  have auth: "authenticate env' request' later = (if ?e \<le> now_of later div 1000
       then (Inl ((fail 401 Err_NOT_AUTHENTICATED)\<lparr>hr_setCookie :=
          Some (serializeMiniAppSessionClearCookie (isSecureRequest request'))\<rparr>), later)
       else (case evaluateMiniAppAccess (dr_access env') (u_id user) later of
          (Inl denied, st1) \<Rightarrow> (Inl (denied_reply denied), st1) | (Inr user', st1) \<Rightarrow> (Inr user', st1)))"
    unfolding authenticate_verified [OF A B C] u by (cases "?e \<le> now_of later div 1000") simp_all
  have "?e \<le> now_of (ds_join st') div 1000 + 3600" using session_ttl_bounds(2) by simp
  then show ?thesis
    by (intro exI [of _ user] exI [of _ ?e] conjI) (rule a [unfolded u], assumption, rule auth)
qed

section \<open>Reads\<close>

lemma take_two: "take 2 xs = [x] \<Longrightarrow> length xs = 1"
  by (cases xs; cases "tl xs") (auto simp: numeral_2_eq_2)

lemma detail_summary:
  "sd_id (toMiniAppServiceDetail nowMs sv) = serviceShortId (sv_id sv)"
  "sd_remainingDays (toMiniAppServiceDetail nowMs sv) = remainingDaysUntil (sv_expiresAt sv) nowMs"
  by (simp_all add: toMiniAppServiceDetail_def toMiniAppServiceSummary_def MiniAppServiceSummaryDto.defs MiniAppServiceDetailDto.defs)

lemma remaining_days:
  assumes "nowMs < t"
  shows "1 \<le> (t - nowMs + day_ms - 1) div day_ms" "t \<le> nowMs + (t - nowMs + day_ms - 1) div day_ms * day_ms"
    "nowMs + ((t - nowMs + day_ms - 1) div day_ms - 1) * day_ms < t"
  using assms by (simp_all add: day_ms_def)

text \<open>
  What the profile and the detail of a service answer depends on the rows of the session's user only:
  two databases that agree on the services of that user get the same answers, whatever the other accounts
  have. So an identifier of somebody else's service is answered like one that does not exist.
\<close>

theorem reads_are_scoped_to_the_user:
  assumes "filter (\<lambda>sv. sv_userId sv = u_id user) (services s) = filter (\<lambda>sv. sv_userId sv = u_id user) (services s')"
  shows "get_me broken user s = get_me broken user s'
    \<and> get_service broken publicId nowMs user s = get_service broken publicId nowMs user s'"
proof -
  have f: "filter (\<lambda>sv. P sv \<and> ownedVisibleServices (u_id user) sv) (services s)
      = filter (\<lambda>sv. P sv \<and> ownedVisibleServices (u_id user) sv) (services s')" for P
    using arg_cong [OF assms, of "filter (\<lambda>sv. P sv \<and> ownedVisibleServices (u_id user) sv)"]
    by (simp add: ownedVisibleServices_def conj_left_commute)
  show ?thesis
    using f [of "\<lambda>_. True"] f [of "\<lambda>sv. sv_status sv = ServiceStatus_ACTIVE"] f [of "\<lambda>sv. starts_with (sv_id sv) (js_lower publicId)"]
    by (simp add: get_me_def get_service_def count_where_def conj_commute)
qed

text \<open>
  The detail of a service is the detail of that service. An answer is sent exactly when one service of
  the user, neither deleted nor terminated, has an identifier that begins with what was asked; it shows that
  service; its days are the days left rounded up, none below zero; and every other question, malformed,
  unknown, ambiguous or foreign, has one answer.
\<close>

theorem service_detail_answers:
  "if isServicePublicId (JStr publicId) \<and> length (filter (\<lambda>sv. ownedVisibleServices (u_id user) sv
        \<and> take 8 (sv_id sv) = js_lower publicId) (services s)) = 1
   then \<exists>sv \<in> set (services s). ownedVisibleServices (u_id user) sv
      \<and> get_service False publicId nowMs user s = send (toMiniAppServiceDetail nowMs sv)
      \<and> sd_id (toMiniAppServiceDetail nowMs sv) = js_lower publicId
      \<and> (case sv_expiresAt sv of None \<Rightarrow> sd_remainingDays (toMiniAppServiceDetail nowMs sv) = None
        | Some t \<Rightarrow> \<exists>n \<ge> 0. sd_remainingDays (toMiniAppServiceDetail nowMs sv) = Some n
            \<and> (n = 0 \<longleftrightarrow> t \<le> nowMs) \<and> t \<le> nowMs + n * day_ms \<and> (nowMs < t \<longrightarrow> nowMs + (n - 1) * day_ms < t))
   else get_service False publicId nowMs user s = fail 404 Err_NOT_FOUND"
proof -
  let ?p = "js_lower publicId" and ?o = "ownedVisibleServices (u_id user)"
  let ?fs = "filter (\<lambda>sv. ?o sv \<and> take 8 (sv_id sv) = ?p) (services s)"
  show ?thesis
  proof (cases "isServicePublicId (JStr publicId)")
    case False
    then show ?thesis by (simp add: get_service_def)
  next
    case True
    then have n: "length publicId = 8" by (simp add: isServicePublicId_def hex8_def)
    have f: "filter (\<lambda>sv. starts_with (sv_id sv) ?p \<and> ?o sv) (services s) = ?fs"
      by (simp add: starts_with_def n conj_commute)
    show ?thesis
    proof (cases "length ?fs = 1")
      case one: True
      then obtain sv where sv: "?fs = [sv]" by (auto simp: length_Suc_conv)
      then have "sv \<in> set ?fs" by simp
      then have m: "sv \<in> set (services s)" "?o sv" "take 8 (sv_id sv) = ?p" by simp_all
      have "get_service False publicId nowMs user s = send (toMiniAppServiceDetail nowMs sv)"
        using True by (simp add: get_service_def f sv)
      moreover have "sd_id (toMiniAppServiceDetail nowMs sv) = ?p"
        using m(3) by (simp add: detail_summary serviceShortId_def SERVICE_SHORT_ID_LENGTH_def)
      moreover have "case sv_expiresAt sv of None \<Rightarrow> sd_remainingDays (toMiniAppServiceDetail nowMs sv) = None
        | Some t \<Rightarrow> \<exists>n \<ge> 0. sd_remainingDays (toMiniAppServiceDetail nowMs sv) = Some n
            \<and> (n = 0 \<longleftrightarrow> t \<le> nowMs) \<and> t \<le> nowMs + n * day_ms \<and> (nowMs < t \<longrightarrow> nowMs + (n - 1) * day_ms < t)"
      proof (cases "sv_expiresAt sv")
        case None
        then show ?thesis by (simp add: detail_summary remainingDaysUntil_def)
      next
        case (Some t)
        then have d: "sd_remainingDays (toMiniAppServiceDetail nowMs sv)
            = Some (if t \<le> nowMs then 0 else (t - nowMs + day_ms - 1) div day_ms)"
          by (simp add: detail_summary remainingDaysUntil_def Let_def)
        show ?thesis
        proof (cases "t \<le> nowMs")
          case True
          then show ?thesis using Some d by simp
        next
          case False
          then have "nowMs < t" by simp
          from remaining_days [OF this] False Some d show ?thesis by simp
        qed
      qed
      ultimately show ?thesis using True one m(1,2) by auto
    next
      case other: False
      have "get_service False publicId nowMs user s = fail 404 Err_NOT_FOUND"
        using True other take_two [of ?fs] by (auto simp: get_service_def f split: list.split)
      then show ?thesis using other by simp
    qed
  qed
qed

end
