(* ===== verification/MiniAppRoutesFacts.thy ===== *)
theory MiniAppRoutesFacts
  imports MiniAppRoutes MiniAppAccessFacts SupportTicketFacts
begin

text \<open>
  What the routes behind the session promise: a list that is read by following the sealed cursors is the
  whole list, and a mutation of the support desk acts for the user of the session, through the gate.
\<close>

section \<open>Sealed pages\<close>

lemma clampPageSize_bounds: "1 \<le> clampPageSize raw" "clampPageSize raw \<le> 50"
  by (auto simp: clampPageSize_def MINIAPP_PAGE_DEFAULT_SIZE_def MINIAPP_PAGE_MAX_SIZE_def split: option.splits)

text \<open>A client that follows the cursor of each reply; \<open>n\<close> bounds how many pages it asks for.\<close>

primrec follow :: "nat \<Rightarrow> (string option \<Rightarrow> 'a page_body http_reply) \<Rightarrow> string option \<Rightarrow> 'a list list" where
  "follow 0 get cursor = []"
| "follow (Suc n) get cursor =
     (case hr_body (get cursor) of
        Sent page \<Rightarrow> pg_items page #
          (case pg_nextCursor page of None \<Rightarrow> [] | Some sealed \<Rightarrow> follow n get (Some sealed))
      | _ \<Rightarrow> [])"

definition sealing :: "door_env \<Rightarrow> (string option \<Rightarrow> byte list) \<Rightarrow> bool" where
  "sealing env ivs \<longleftrightarrow> (\<forall>c. length (ivs c) = IV_BYTES)
     \<and> (\<exists>key. cursorKey (dr_crypto env) (dr_secret env) = Some key \<and> aead_law (dr_crypto env) key)"

definition cursor_query :: "string option \<Rightarrow> string option \<Rightarrow> page_query" where
  "cursor_query limit cursor = \<lparr>pq_limit = limit, pq_cursor = cursor\<rparr>"

lemma page_reply_seals:
  assumes "sealing env ivs" and "position_ok position"
  obtains sealed where "page_reply env (ivs c) resource items (Some position) = send \<lparr>pg_items = items, pg_nextCursor = Some sealed\<rparr>"
    and "read_cursor env (cursor_query limit (Some sealed)) resource = Some (Some position)"
proof -
  obtain key where k: "cursorKey (dr_crypto env) (dr_secret env) = Some key" "aead_law (dr_crypto env) key"
    and iv: "length (ivs c) = IV_BYTES"
    using assms(1) by (auto simp: sealing_def)
  obtain sealed where e: "encodeCursor (dr_crypto env) (dr_secret env) (ivs c) resource position = Some sealed"
  proof -
    have "encodeCursor (dr_crypto env) (dr_secret env) (ivs c) resource position \<noteq> None"
      using k(1) by (simp add: encodeCursor_def split: prod.split)
    then show ?thesis using that by blast
  qed
  have d: "decodeCursor (dr_crypto env) (dr_secret env) sealed resource = Some position"
    using sealed_cursor [OF e assms(2) iv, of resource] k by simp
  have "sealed \<noteq> []" using e k(1) by (auto simp: encodeCursor_def CURSOR_VERSION_def split: prod.splits)
  then show ?thesis
    using that e d by (simp add: page_reply_def read_cursor_def cursor_query_def)
qed

lemma follow_segments:
  assumes "sealing env ivs" and "\<forall>r \<in> set rows. position_ok (position r)"
    and get: "\<And>c before. read_cursor env (cursor_query limit c) resource = Some before \<Longrightarrow>
      get c = (let rs = keyset_rows position mine k before rows;
                   page = (if k < length rs then take k rs else rs)
               in page_reply env (ivs c) resource (f page) (page_end position (k < length rs) page))"
    and "read_cursor env (cursor_query limit c) resource = Some before"
  shows "follow n get c = map f (segments n position mine k rows before)"
  using assms(4)
proof (induction n arbitrary: c before)
  case 0
  then show ?case by simp
next
  case (Suc n)
  let ?rs = "keyset_rows position mine k before rows"
  let ?page = "if k < length ?rs then take k ?rs else ?rs"
  have g: "get c = page_reply env (ivs c) resource (f ?page) (page_end position (k < length ?rs) ?page)"
    using get [OF Suc.prems] by (simp only: Let_def)
  show ?case
  proof (cases "page_end position (k < length ?rs) ?page")
    case None
    then show ?thesis using g by (simp add: page_reply_def send_def Let_def)
  next
    case (Some p)
    then have more: "k < length ?rs" "?page \<noteq> []" "p = position (List.last ?page)"
      by (auto simp: page_end_def split: if_splits)
    have "List.last ?page \<in> set ?page" using more(2) by (rule last_in_set)
    then have "List.last ?page \<in> set ?rs" using set_take_subset [of k ?rs] by (auto split: if_splits)
    then have "List.last ?page \<in> set rows"
      unfolding keyset_rows_def using set_take_subset [of "k + 1"] by fastforce
    then have ok: "position_ok p" using assms(2) more(3) by blast
    obtain sealed where s: "page_reply env (ivs c) resource (f ?page) (Some p) = send \<lparr>pg_items = f ?page, pg_nextCursor = Some sealed\<rparr>"
      and r: "read_cursor env (cursor_query limit (Some sealed)) resource = Some (Some p)"
      by (rule page_reply_seals [OF assms(1) ok])
    have "follow (Suc n) get c = f ?page # follow n get (Some sealed)"
      using g Some s by (simp add: send_def)
    also have "\<dots> = f ?page # map f (segments n position mine k rows (Some p))"
      using Suc.IH [OF r] by simp
    finally show ?thesis using Some by (simp add: Let_def)
  qed
qed

lemma nextCursorFor_end:
  "nextCursorFor position rs (take k rs) k = page_end position (k < length rs) (if k < length rs then take k rs else rs)"
  by (auto simp: nextCursorFor_def page_end_def)

lemma first_page: "read_cursor env (cursor_query limit None) resource = Some None"
  by (simp add: read_cursor_def cursor_query_def)

lemma get_services_page:
  "read_cursor env (cursor_query limit c) Cursor_services = Some before \<Longrightarrow>
   get_services env False iv (cursor_query limit c) nowMs user s =
     (let rs = keyset_rows service_position (ownedVisibleServices (u_id user)) (clampPageSize limit) before (services s);
          page = (if clampPageSize limit < length rs then take (clampPageSize limit) rs else rs)
      in page_reply env iv Cursor_services (map (toMiniAppServiceSummary nowMs) page)
           (page_end service_position (clampPageSize limit < length rs) page))"
  by (simp add: get_services_def readPage_def Let_def nextCursorFor_end cursor_query_def)

lemma get_transactions_page:
  "read_cursor env (cursor_query limit c) Cursor_wallet_transactions = Some before \<Longrightarrow>
   get_transactions env False iv (cursor_query limit c) user s =
     (let rs = keyset_rows transaction_position (\<lambda>t. wt_userId t = u_id user) (clampPageSize limit) before (wallet_txs s);
          page = (if clampPageSize limit < length rs then take (clampPageSize limit) rs else rs)
      in page_reply env iv Cursor_wallet_transactions (map toMiniAppTransaction page)
           (page_end transaction_position (clampPageSize limit < length rs) page))"
  by (simp add: get_transactions_def readPage_def Let_def nextCursorFor_end cursor_query_def)

lemma segments_whole:
  assumes "unique_by k rows" and "\<And>r r'. position r = position r' \<Longrightarrow> k r = k r'" and "1 \<le> limit"
    and "length rows < n"
  shows "concat (segments n position mine limit rows None) = rev (sort_key position (filter mine rows))"
proof -
  have "distinct (map k (filter mine rows))" using assms(1) by (auto simp: unique_by_def distinct_map inj_on_def)
  then have "distinct (map position (filter mine rows))"
    unfolding distinct_map inj_on_def using assms(2) by blast
  moreover have "length (filter mine rows) < n" using assms(4) length_filter_le [of mine rows] by linarith
  ultimately show ?thesis
    using segments_all [of limit position mine rows n] assms(3) by (simp add: latest_first_def)
qed

lemma services_pages:
  assumes "sealing env ivs" and "\<forall>sv \<in> set (services s). position_ok (service_position sv)"
  shows "follow n (\<lambda>c. get_services env False (ivs c) (cursor_query limit c) nowMs user s) None
      = map (map (toMiniAppServiceSummary nowMs))
          (segments n service_position (ownedVisibleServices (u_id user)) (clampPageSize limit) (services s) None)"
proof (rule follow_segments [where resource = Cursor_services and limit = limit, OF assms(1,2)])
  fix c before assume "read_cursor env (cursor_query limit c) Cursor_services = Some before"
  then show "get_services env False (ivs c) (cursor_query limit c) nowMs user s =
     (let rs = keyset_rows service_position (ownedVisibleServices (u_id user)) (clampPageSize limit) before (services s);
          page = (if clampPageSize limit < length rs then take (clampPageSize limit) rs else rs)
      in page_reply env (ivs c) Cursor_services (map (toMiniAppServiceSummary nowMs) page)
           (page_end service_position (clampPageSize limit < length rs) page))"
    by (rule get_services_page)
qed (rule first_page)

lemma services_walk:
  assumes "sealing env ivs" and "unique_by sv_id (services s)"
    and "\<forall>sv \<in> set (services s). position_ok (service_position sv)" and "length (services s) < n"
  shows "concat (follow n (\<lambda>c. get_services env False (ivs c) (cursor_query limit c) nowMs user s) None)
      = map (toMiniAppServiceSummary nowMs)
          (rev (sort_key service_position (filter (ownedVisibleServices (u_id user)) (services s))))"
proof -
  have whole: "concat (segments n service_position (ownedVisibleServices (u_id user)) (clampPageSize limit) (services s) None)
      = rev (sort_key service_position (filter (ownedVisibleServices (u_id user)) (services s)))"
    by (rule segments_whole [OF assms(2) _ clampPageSize_bounds(1) assms(4)]) (simp add: service_position_def)
  show ?thesis unfolding services_pages [OF assms(1,3)] map_concat [symmetric] whole by (rule refl)
qed

lemma transactions_pages:
  assumes "sealing env ivs" and "\<forall>t \<in> set (wallet_txs s). position_ok (transaction_position t)"
  shows "follow n (\<lambda>c. get_transactions env False (ivs c) (cursor_query limit c) user s) None
      = map (map toMiniAppTransaction)
          (segments n transaction_position (\<lambda>t. wt_userId t = u_id user) (clampPageSize limit) (wallet_txs s) None)"
proof (rule follow_segments [where resource = Cursor_wallet_transactions and limit = limit, OF assms(1,2)])
  fix c before assume "read_cursor env (cursor_query limit c) Cursor_wallet_transactions = Some before"
  then show "get_transactions env False (ivs c) (cursor_query limit c) user s =
     (let rs = keyset_rows transaction_position (\<lambda>t. wt_userId t = u_id user) (clampPageSize limit) before (wallet_txs s);
          page = (if clampPageSize limit < length rs then take (clampPageSize limit) rs else rs)
      in page_reply env (ivs c) Cursor_wallet_transactions (map toMiniAppTransaction page)
           (page_end transaction_position (clampPageSize limit < length rs) page))"
    by (rule get_transactions_page)
qed (rule first_page)

lemma transactions_walk:
  assumes "sealing env ivs" and "unique_by wt_id (wallet_txs s)"
    and "\<forall>t \<in> set (wallet_txs s). position_ok (transaction_position t)" and "length (wallet_txs s) < n"
  shows "concat (follow n (\<lambda>c. get_transactions env False (ivs c) (cursor_query limit c) user s) None)
      = map toMiniAppTransaction
          (rev (sort_key transaction_position (filter (\<lambda>t. wt_userId t = u_id user) (wallet_txs s))))"
proof -
  have whole: "concat (segments n transaction_position (\<lambda>t. wt_userId t = u_id user) (clampPageSize limit) (wallet_txs s) None)
      = rev (sort_key transaction_position (filter (\<lambda>t. wt_userId t = u_id user) (wallet_txs s)))"
    by (rule segments_whole [OF assms(2) _ clampPageSize_bounds(1) assms(4)]) (simp add: transaction_position_def)
  show ?thesis unfolding transactions_pages [OF assms(1,3)] map_concat [symmetric] whole by (rule refl)
qed

lemma get_messages_page:
  assumes "read_cursor env (cursor_query limit c) Cursor_support_messages = Some before"
    and "resolveOwnedTicket s (u_id user) (JStr ticketId) = Some (t, label)"
  defines "k \<equiv> clampPageSize (Some (case limit of None \<Rightarrow> show_nat DEFAULT_MESSAGE_PAGE | Some l \<Rightarrow> l))"
  shows "get_messages env False (\<lambda>s. s) iv (cursor_query limit c) ticketId user s =
     (let rs = keyset_rows message_position (\<lambda>m. sm_ticketId m = tk_id t) k before (support_messages s);
          page = (if k < length rs then take k rs else rs)
      in page_reply env iv Cursor_support_messages (map toMiniAppMessage (rev page))
           (page_end message_position (k < length rs) page))"
  using assms(1,2) by (simp add: get_messages_def listOwnedTicketMessages_def Let_def cursor_query_def k_def)

lemma conversation_walk:
  assumes "sealing env ivs" and "resolveOwnedTicket s (u_id user) (JStr ticketId) = Some (t, label)"
    and "unique_by sm_id (support_messages s)" and "\<forall>m \<in> set (support_messages s). position_ok (message_position m)"
    and "length (support_messages s) < n"
  shows "concat (rev (follow n (\<lambda>c. get_messages env False (\<lambda>s. s) (ivs c) (cursor_query limit c) ticketId user s) None))
    = map toMiniAppMessage (sort_key message_position (conversation s (tk_id t)))"
proof -
  let ?k = "clampPageSize (Some (case limit of None \<Rightarrow> show_nat DEFAULT_MESSAGE_PAGE | Some l \<Rightarrow> l))"
  let ?mine = "\<lambda>m. sm_ticketId m = tk_id t"
  have "follow n (\<lambda>c. get_messages env False (\<lambda>s. s) (ivs c) (cursor_query limit c) ticketId user s) None
      = map (\<lambda>page. map toMiniAppMessage (rev page)) (segments n message_position ?mine ?k (support_messages s) None)"
    by (rule follow_segments [OF assms(1,4) _ first_page]) (rule get_messages_page [OF _ assms(2)])
  then have "concat (rev (follow n (\<lambda>c. get_messages env False (\<lambda>s. s) (ivs c) (cursor_query limit c) ticketId user s) None))
      = map toMiniAppMessage (rev (concat (segments n message_position ?mine ?k (support_messages s) None)))"
    by (simp add: rev_concat rev_map map_concat o_def)
  also have "concat (segments n message_position ?mine ?k (support_messages s) None)
      = rev (sort_key message_position (conversation s (tk_id t)))"
    unfolding conversation_def
    by (rule segments_whole [OF assms(3) _ clampPageSize_bounds(1) assms(5)]) (simp add: message_position_def)
  finally show ?thesis by simp
qed

text \<open>
  C33. A list that is read by following its sealed cursors is the whole list. A client that asks for its
  services, for the movements of its wallet, or for the conversation of a ticket of its own, and sends back
  the cursor of each reply, with any page size, gets every row exactly once and in order, and no row of
  anybody else: services and movements the newest first, the pages of a conversation from its end.
\<close>

theorem sealed_pages_are_the_lists:
  assumes "sealing env ivs"
    and "unique_by sv_id (services s)" and "\<forall>sv \<in> set (services s). position_ok (service_position sv)"
    and "unique_by wt_id (wallet_txs s)" and "\<forall>t \<in> set (wallet_txs s). position_ok (transaction_position t)"
    and "unique_by sm_id (support_messages s)" and "\<forall>m \<in> set (support_messages s). position_ok (message_position m)"
    and "resolveOwnedTicket s (u_id user) (JStr ticketId) = Some (t, label)"
    and "length (services s) < n" and "length (wallet_txs s) < n" and "length (support_messages s) < n"
  shows "concat (follow n (\<lambda>c. get_services env False (ivs c) (cursor_query limit c) nowMs user s) None)
      = map (toMiniAppServiceSummary nowMs)
          (rev (sort_key service_position (filter (ownedVisibleServices (u_id user)) (services s))))
    \<and> concat (follow n (\<lambda>c. get_transactions env False (ivs c) (cursor_query limit c) user s) None)
      = map toMiniAppTransaction
          (rev (sort_key transaction_position (filter (\<lambda>t. wt_userId t = u_id user) (wallet_txs s))))
    \<and> concat (rev (follow n (\<lambda>c. get_messages env False (\<lambda>s. s) (ivs c) (cursor_query limit c) ticketId user s) None))
      = map toMiniAppMessage (sort_key message_position (conversation s (tk_id t)))"
  using services_walk [OF assms(1-3,9)] transactions_walk [OF assms(1,4,5,10)]
    conversation_walk [OF assms(1,8,6,7,11)] by blast

section \<open>Writes\<close>

lemma created_owned:
  assumes "createTicket others sha now userId input s = (Answered (Inr (labelled, m)), s')"
  shows "\<exists>t \<in> set (support_tickets s'). tk_userId t = userId \<and> tk_id t = tk_id (fst labelled)"
proof -
  obtain c where c: "read_create_input input = Inr c"
    using assms by (cases "read_create_input input") (auto simp: createTicket_def)
  have r: ?thesis if "replayed o' userId r SUPPORT_TICKET_CREATE target fp (labelled, m) w s'" for o' r target fp w
    using that by (auto simp: replayed_def owned_ticket_def dest: find_Some_in)
  have "?thesis" if "created sha now userId c (labelled, m) w s'" for w
    using that by (auto simp: created_def create_effect_def after_message_def new_ticket_def)
  with r createTicket_Inr [OF assms c] show ?thesis by blast
qed

lemma replied_owned:
  assumes "replyToTicket others sha now userId input s = (Answered (Inr (labelled, m)), s')"
  shows "\<exists>t \<in> set (support_tickets s'). tk_userId t = userId \<and> tk_id t = tk_id (fst labelled)"
proof -
  obtain c where c: "read_reply_input input = Inr c"
    using assms by (cases "read_reply_input input") (auto simp: replyToTicket_def)
  have r: ?thesis if "replayed o' userId r SUPPORT_TICKET_REPLY target fp (labelled, m) w s'" for o' r target fp w
    using that by (auto simp: replayed_def owned_ticket_def dest: find_Some_in)
  have p: ?thesis if w: "replied_to sha now userId c i (labelled, m) w s'" for i w
  proof -
    obtain t where t: "t \<in> set (support_tickets w)" "open_for_reply userId i t" "tk_id (fst labelled) = i"
      "s' = reply_effect sha now userId (rc_requestId c) i (rc_message c) w"
      using w by (auto simp: replied_to_def)
    then have "answered_by_user now t \<in> set (support_tickets s')"
      by (auto simp: reply_effect_def after_message_def set_update_where image_iff)
    then show ?thesis using t(2,3) by (auto simp: answered_by_user_def open_for_reply_def intro!: bexI [of _ "answered_by_user now t"])
  qed
  from replyToTicket_Inr [OF assms c] r p show ?thesis by blast
qed

lemma guard_passes:
  assumes "checkSupportMutation env userId request limiters = (None, limiters')"
  shows "(ge_production env \<longrightarrow> isSecureRequest request)
    \<and> checkRequestOrigin request (ge_allowedOrigins env) = Origin_allowed
    \<and> isJsonContentType (rq_headers request ''content-type'')"
  using assms by (cases "checkRequestOrigin request (ge_allowedOrigins env)")
    (auto simp: checkSupportMutation_def split: if_splits prod.splits)

text \<open>
  What a call of the domain may leave behind: only what other processes did meanwhile, each of its steps
  \<open>others n\<close> once and in order; or that, and then exactly the rows of a new ticket or of a reply.
\<close>

definition meanwhile :: "(nat \<Rightarrow> db \<Rightarrow> db) \<Rightarrow> db \<Rightarrow> db \<Rightarrow> bool" where
  "meanwhile others s s' \<longleftrightarrow> (\<exists>ns. sorted_wrt (<) ns \<and> s' = fold others ns s)"

definition ticket_written ::
  "(nat \<Rightarrow> db \<Rightarrow> db) \<Rightarrow> (string \<Rightarrow> string) \<Rightarrow> json \<Rightarrow> string \<Rightarrow> int \<Rightarrow> db \<Rightarrow> IdempotentReplay \<Rightarrow> db \<Rightarrow> bool" where
  "ticket_written others sha body userId now s v s' \<longleftrightarrow>
     (\<exists>c w. read_create_input (ticket_input body) = Inr c \<and> meanwhile others s w \<and> created sha now userId c v w s')"

definition reply_written ::
  "(nat \<Rightarrow> db \<Rightarrow> db) \<Rightarrow> (string \<Rightarrow> string) \<Rightarrow> string \<Rightarrow> json \<Rightarrow> string \<Rightarrow> int \<Rightarrow> db \<Rightarrow> IdempotentReplay \<Rightarrow> db \<Rightarrow> bool" where
  "reply_written others sha ticketId body userId now s v s' \<longleftrightarrow>
     (\<exists>c ticket label w. read_reply_input (reply_input ticketId body) = Inr c
        \<and> resolveOwnedTicket (others 0 s) userId (JStr (rc_ticket c)) = Some (ticket, label)
        \<and> meanwhile others s w \<and> replied_to sha now userId c (tk_id ticket) v w s')"

lemma meanwhile_steps:
  "meanwhile others s s"
  "meanwhile others s (others a s)"
  "a < b \<Longrightarrow> meanwhile others s (others b (others a s))"
  "a < b \<Longrightarrow> b < c \<Longrightarrow> meanwhile others s (others c (others b (others a s)))"
  "a < b \<Longrightarrow> b < c \<Longrightarrow> c < d \<Longrightarrow> meanwhile others s (others d (others c (others b (others a s))))"
  "a < b \<Longrightarrow> b < c \<Longrightarrow> c < d \<Longrightarrow> d < e \<Longrightarrow> meanwhile others s (others e (others d (others c (others b (others a s)))))"
  unfolding meanwhile_def
  by (intro exI [of _ "[]"] exI [of _ "[a]"] exI [of _ "[a, b]"] exI [of _ "[a, b, c]"] exI [of _ "[a, b, c, d]"]
      exI [of _ "[a, b, c, d, e]"]; simp)+

lemma createTicket_writes:
  assumes "createTicket others sha now userId (ticket_input body) s = (out, s')"
  shows "meanwhile others s s' \<or> (\<exists>v. out = Answered (Inr v) \<and> ticket_written others sha body userId now s v s')"
  using createTicket_final [OF assms]
proof (elim disjE exE conjE)
  assume "s' \<in> {s, others 0 s, others 1 (others 0 s), others 2 (others 0 s), others 3 (others 2 (others 0 s)),
    others 4 (others 3 (others 2 (others 0 s)))}"
  then have "meanwhile others s s'" by (elim insertE emptyE) (simp_all add: meanwhile_steps)
  then show ?thesis ..
next
  fix v c
  assume "out = Answered (Inr v)" "read_create_input (ticket_input body) = Inr c"
    "created sha now userId c v (others 2 (others 0 s)) s'"
  moreover have "meanwhile others s (others 2 (others 0 s))" by (rule meanwhile_steps) simp
  ultimately show ?thesis unfolding ticket_written_def by blast
qed

lemma replyToTicket_writes:
  assumes "replyToTicket others sha now userId (reply_input ticketId body) s = (out, s')"
  shows "meanwhile others s s' \<or> (\<exists>v. out = Answered (Inr v) \<and> reply_written others sha ticketId body userId now s v s')"
  using replyToTicket_final [OF assms]
proof (elim disjE exE conjE)
  assume "s' \<in> {s, others 0 s, others 1 (others 0 s), others 2 (others 1 (others 0 s)), others 3 (others 1 (others 0 s)),
    others 4 (others 3 (others 1 (others 0 s))), others 5 (others 4 (others 3 (others 1 (others 0 s))))}"
  then have "meanwhile others s s'" by (elim insertE emptyE) (simp_all add: meanwhile_steps)
  then show ?thesis ..
next
  fix v c ticket label
  assume "out = Answered (Inr v)" "read_reply_input (reply_input ticketId body) = Inr c"
    "resolveOwnedTicket (others 0 s) userId (JStr (rc_ticket c)) = Some (ticket, label)"
    "replied_to sha now userId c (tk_id ticket) v (others 3 (others 1 (others 0 s))) s'"
  moreover have "meanwhile others s (others 3 (others 1 (others 0 s)))" by (rule meanwhile_steps) simp_all
  ultimately show ?thesis unfolding reply_written_def by blast
qed

text \<open>Both calls of the domain have the shape that the routes rely on.\<close>

definition domain_call ::
  "(nat \<Rightarrow> db \<Rightarrow> db) \<Rightarrow> (string \<Rightarrow> int \<Rightarrow> db \<Rightarrow> IdempotentReplay \<Rightarrow> db \<Rightarrow> bool) \<Rightarrow>
   (string \<Rightarrow> int \<Rightarrow> db \<Rightarrow> support_outcome \<times> db) \<Rightarrow> bool" where
  "domain_call others written act \<longleftrightarrow> (\<forall>userId now s out s'. act userId now s = (out, s') \<longrightarrow>
     (meanwhile others s s' \<or> (\<exists>v. out = Answered (Inr v) \<and> written userId now s v s'))
     \<and> (\<forall>labelled m. out = Answered (Inr (labelled, m)) \<longrightarrow>
         (\<exists>t \<in> set (support_tickets s'). tk_userId t = userId \<and> tk_id t = tk_id (fst labelled))))"

lemma createTicket_domain_call:
  "domain_call others (ticket_written others sha body) (\<lambda>userId now. createTicket others sha now userId (ticket_input body))"
  unfolding domain_call_def using createTicket_writes created_owned by blast

lemma replyToTicket_domain_call:
  "domain_call others (reply_written others sha ticketId body)
     (\<lambda>userId now. replyToTicket others sha now userId (reply_input ticketId body))"
  unfolding domain_call_def using replyToTicket_writes replied_owned by blast

lemma detail_id: "mt_id (ticket_detail labelled s) = take 8 (tk_id (fst labelled))"
  by (cases labelled) (simp add: ticket_detail_def toMiniAppTicketDetail_def toMiniAppTicketSummary_def
      MiniAppTicketSummaryDto.defs MiniAppTicketDetailDto.defs ticketShortId_def)

text \<open>
  What the client is told after the gate, when the domain left \<open>s'\<close> and \<open>wrote v\<close> says that it wrote the rows
  of the answer \<open>v\<close> and nothing else.
\<close>

definition told ::
  "bool \<Rightarrow> (db \<Rightarrow> db) \<Rightarrow> string \<Rightarrow> bool \<Rightarrow> (IdempotentReplay \<Rightarrow> bool) \<Rightarrow> db \<Rightarrow> MiniAppTicketDetailDto http_reply \<Rightarrow> bool" where
  "told broken between userId quiet wrote s' reply \<longleftrightarrow>
     (case hr_body reply of
        Sent dto \<Rightarrow> hr_status reply = 201 \<and> \<not> broken
          \<and> (\<exists>labelled m. dto = ticket_detail labelled (between s') \<and> (quiet \<or> wrote (labelled, m)))
          \<and> (\<exists>t \<in> set (support_tickets s'). tk_userId t = userId \<and> mt_id dto = ticketShortId t)
      | Support_refused e \<Rightarrow> hr_status reply = supportDomainErrorStatus e \<and> quiet
      | Refused code \<Rightarrow> code = Err_INTERNAL \<and> hr_status reply = 503 \<and> (quiet \<or> broken \<and> (\<exists>v. wrote v))
      | _ \<Rightarrow> False)"

lemma write_reply_told:
  assumes "quiet \<or> (\<exists>v. outcome = Answered (Inr v) \<and> wrote v)"
    and "\<And>labelled m. outcome = Answered (Inr (labelled, m)) \<Longrightarrow>
      \<exists>t \<in> set (support_tickets s'). tk_userId t = userId \<and> tk_id t = tk_id (fst labelled)"
  shows "told broken between userId quiet wrote s' (write_reply broken between outcome s')"
proof (cases outcome)
  case SupportThrows
  then show ?thesis using assms(1) by (simp add: told_def write_reply_def fail_def)
next
  case (Answered result)
  show ?thesis
  proof (cases result)
    case (Inl e)
    then show ?thesis using assms(1) Answered by (simp add: told_def write_reply_def)
  next
    case (Inr v)
    obtain labelled m where v: "v = (labelled, m)" by (cases v)
    have w: "quiet \<or> wrote (labelled, m)" using assms(1) Answered Inr v by auto
    show ?thesis
    proof (cases broken)
      case True
      then show ?thesis using w Answered Inr v by (cases labelled) (auto simp: told_def write_reply_def fail_def)
    next
      case False
      obtain t where "t \<in> set (support_tickets s')" "tk_userId t = userId" "tk_id t = tk_id (fst labelled)"
        using assms(2) Answered Inr v by blast
      then have "\<exists>t \<in> set (support_tickets s'). tk_userId t = userId
          \<and> mt_id (ticket_detail labelled (between s')) = ticketShortId t"
        by (auto simp: detail_id ticketShortId_def)
      moreover have "write_reply broken between outcome s' = (send (ticket_detail labelled (between s')))\<lparr>hr_status := 201\<rparr>"
        using False Answered Inr v by (simp add: write_reply_def)
      ultimately show ?thesis using False w by (cases labelled) (auto simp: told_def send_def)
    qed
  qed
qed

lemma guarded_write_acts:
  assumes "guarded_write env broken between request act st = (reply, st')" and "domain_call others written act"
  shows "case authenticate env request (rt_join st) of
      (Inl refusal, j) \<Rightarrow> reply = refusal \<and> st' = st\<lparr>rt_join := j\<rparr>
    | (Inr user, j) \<Rightarrow>
        (case checkSupportMutation (support_guard env (now_of j)) (u_id user) request (rt_limiters st) of
           (Some rejection, limiters) \<Rightarrow> reply = sendMutationRejection rejection \<and> st' = \<lparr>rt_limiters = limiters, rt_join = j\<rparr>
         | (None, limiters) \<Rightarrow>
             (dr_production env \<longrightarrow> isSecureRequest request)
             \<and> checkRequestOrigin request (dr_allowedOrigins env) = Origin_allowed
             \<and> isJsonContentType (rq_headers request ''content-type'')
             \<and> (\<exists>s'. st' = \<lparr>rt_limiters = limiters, rt_join = j\<lparr>jn_db := s'\<rparr>\<rparr>
               \<and> told broken between (u_id user) (meanwhile others (jn_db j) s')
                   (\<lambda>v. written (u_id user) (now_of j) (jn_db j) v s') s' reply))"
proof -
  obtain r j where a: "(authenticate env request (rt_join st) :: (MiniAppTicketDetailDto http_reply + user_row) \<times> join_state) = (r, j)"
    by (cases "authenticate env request (rt_join st) :: (MiniAppTicketDetailDto http_reply + user_row) \<times> join_state")
  show ?thesis
  proof (cases r)
    case (Inl refusal)
    then show ?thesis using assms(1) a by (auto simp: guarded_write_def)
  next
    case (Inr user)
    let ?c = "checkSupportMutation (support_guard env (now_of j)) (u_id user) request (rt_limiters st)"
    obtain rejection limiters where c: "?c = (rejection, limiters)" by (cases ?c)
    show ?thesis
    proof (cases rejection)
      case (Some x)
      then show ?thesis using assms(1) a Inr c by (auto simp: guarded_write_def)
    next
      case None
      obtain outcome s where o: "act (u_id user) (now_of j) (jn_db j) = (outcome, s)"
        by (cases "act (u_id user) (now_of j) (jn_db j)")
      have r: "reply = write_reply broken between outcome s" "st' = \<lparr>rt_limiters = limiters, rt_join = j\<lparr>jn_db := s\<rparr>\<rparr>"
        using assms(1) a Inr c None o by (auto simp: guarded_write_def)
      have g: "(dr_production env \<longrightarrow> isSecureRequest request)
          \<and> checkRequestOrigin request (dr_allowedOrigins env) = Origin_allowed
          \<and> isJsonContentType (rq_headers request ''content-type'')"
        using guard_passes [OF c [unfolded None]] by (simp add: support_guard_def)
      have "told broken between (u_id user) (meanwhile others (jn_db j) s)
          (\<lambda>v. written (u_id user) (now_of j) (jn_db j) v s) s reply"
        unfolding r(1) by (rule write_reply_told) (use assms(2) o in \<open>auto simp: domain_call_def\<close>)
      then show ?thesis using g a Inr c None r(2) by auto
    qed
  qed
qed

text \<open>
  C34. A mutation of the support desk acts for the user of the session, through the gate, or changes
  nothing. Without a session that passes the access policy, or when the gate refuses, the answer says so and
  the domain is not called: the database is as the hook left it. Past the gate the request came securely in
  production, from an allowed origin, as JSON, and the answer tells what happened to the database. When the
  domain refuses or throws, the database holds only what other processes did meanwhile. A 201 shows a
  ticket of the user of the session; either it was stored before, and nothing is written, or exactly the rows of
  this new ticket or reply were written for that user. Only when the read for the answer fails after the write,
  the client is told of a failure although the rows are there.
\<close>

theorem support_writes_act_for_the_session:
  assumes "((reply, st'), written) \<in>
    {(post_ticket env broken between others sha request body st, ticket_written others sha body),
     (post_reply env broken between others sha request ticketId body st, reply_written others sha ticketId body)}"
  shows "case authenticate env request (rt_join st) of
      (Inl refusal, j) \<Rightarrow> reply = refusal \<and> st' = st\<lparr>rt_join := j\<rparr>
    | (Inr user, j) \<Rightarrow>
        (case checkSupportMutation (support_guard env (now_of j)) (u_id user) request (rt_limiters st) of
           (Some rejection, limiters) \<Rightarrow> reply = sendMutationRejection rejection \<and> st' = \<lparr>rt_limiters = limiters, rt_join = j\<rparr>
         | (None, limiters) \<Rightarrow>
             (dr_production env \<longrightarrow> isSecureRequest request)
             \<and> checkRequestOrigin request (dr_allowedOrigins env) = Origin_allowed
             \<and> isJsonContentType (rq_headers request ''content-type'')
             \<and> (\<exists>s'. st' = \<lparr>rt_limiters = limiters, rt_join = j\<lparr>jn_db := s'\<rparr>\<rparr>
               \<and> (case hr_body reply of
                    Sent dto \<Rightarrow> hr_status reply = 201 \<and> \<not> broken
                      \<and> (\<exists>labelled m. dto = ticket_detail labelled (between s')
                        \<and> (meanwhile others (jn_db j) s' \<or> written (u_id user) (now_of j) (jn_db j) (labelled, m) s'))
                      \<and> (\<exists>t \<in> set (support_tickets s'). tk_userId t = u_id user \<and> mt_id dto = ticketShortId t)
                  | Support_refused e \<Rightarrow> hr_status reply = supportDomainErrorStatus e \<and> meanwhile others (jn_db j) s'
                  | Refused code \<Rightarrow> code = Err_INTERNAL \<and> hr_status reply = 503
                      \<and> (meanwhile others (jn_db j) s'
                        \<or> broken \<and> (\<exists>v. written (u_id user) (now_of j) (jn_db j) v s'))
                  | _ \<Rightarrow> False)))"
proof -
  obtain act where a: "guarded_write env broken between request act st = (reply, st')" "domain_call others written act"
    using assms createTicket_domain_call replyToTicket_domain_call unfolding post_ticket_def post_reply_def
    by (metis (no_types, lifting) Pair_inject insertE singletonD)
  show ?thesis using guarded_write_acts [OF a, unfolded told_def] .
qed

section \<open>What is stored\<close>

definition well_formed_ticket :: "ticket_row \<Rightarrow> bool" where
  "well_formed_ticket t \<longleftrightarrow>
     (\<forall>x. tk_subject t = Some x \<longrightarrow> 3 \<le> length x \<and> length x \<le> 100)
     \<and> (\<forall>x. tk_category t = Some x \<longrightarrow> x \<in> set SUPPORT_TICKET_CATEGORIES)
     \<and> (\<forall>x. tk_origin t = Some x \<longrightarrow> x \<in> set SUPPORT_TICKET_ORIGINS)
     \<and> (tk_status t = Ticket_CLOSED \<or> ticketWaitingParty (tk_status t) \<noteq> None)"

definition well_formed_message :: "message_row \<Rightarrow> bool" where
  "well_formed_message m \<longleftrightarrow>
     (sm_senderType m = Sender_USER \<longrightarrow> sm_senderUserId m \<noteq> None \<and> sm_senderAdminId m = None
       \<and> (\<exists>x. sm_text m = Some x \<and> 1 \<le> length x \<and> length x \<le> 3000))"

definition well_formed_request :: "idem_row \<Rightarrow> bool" where
  "well_formed_request r \<longleftrightarrow> request_id_pattern (ir_clientRequestId r)"

definition well_formed_support :: "db \<Rightarrow> bool" where
  "well_formed_support s \<longleftrightarrow> (\<forall>t \<in> set (support_tickets s). well_formed_ticket t)
     \<and> (\<forall>m \<in> set (support_messages s). well_formed_message m) \<and> (\<forall>r \<in> set (idem_rows s). well_formed_request r)"

lemma created_well_formed:
  assumes "created sha now userId c v w s'" and "read_create_input input = Inr c" and "well_formed_support w"
  shows "well_formed_support s'"
proof -
  have c: "request_id_pattern (cc_requestId c)" "3 \<le> length (cc_subject c)" "length (cc_subject c) \<le> 100"
    "1 \<le> length (cc_message c)" "length (cc_message c) \<le> 3000" "cc_category c \<in> set SUPPORT_TICKET_CATEGORIES"
    "cc_origin c \<in> set SUPPORT_TICKET_ORIGINS"
    using assms(2) by (auto simp: read_create_input_def chain_def normal_simps split: sum.splits)
  obtain serviceId where s': "s' = create_effect sha now userId c serviceId w" using assms(1) by (auto simp: created_def)
  have t: "well_formed_ticket (new_ticket userId c serviceId now i)" for i
    using c by (simp add: well_formed_ticket_def new_ticket_def TICKET_STATUS_AFTER_CREATE_def ticketWaitingParty_def
        WAITING_SUPPORT_STATUSES_def)
  have m: "well_formed_message (user_message userId i (cc_message c) now j)" for i j
    using c by (simp add: well_formed_message_def user_message_def)
  show ?thesis
    using assms(3) c(1) t m
    by (auto simp: s' create_effect_def after_message_def well_formed_support_def well_formed_request_def request_row_def)
qed

lemma replied_well_formed:
  assumes "replied_to sha now userId c i v w s'" and "read_reply_input input = Inr c" and "well_formed_support w"
  shows "well_formed_support s'"
proof -
  have c: "request_id_pattern (rc_requestId c)" "1 \<le> length (rc_message c)" "length (rc_message c) \<le> 3000"
    using assms(2) by (auto simp: read_reply_input_def chain_def normal_simps split: sum.splits)
  have s': "s' = reply_effect sha now userId (rc_requestId c) i (rc_message c) w" using assms(1) by (simp add: replied_to_def)
  have m: "well_formed_message (user_message userId i (rc_message c) now j)" for j
    using c by (simp add: well_formed_message_def user_message_def)
  have t: "well_formed_ticket (answered_by_user now t)" if "well_formed_ticket t" for t
    using that by (simp add: well_formed_ticket_def answered_by_user_def TICKET_STATUS_AFTER_USER_REPLY_def
        ticketWaitingParty_def WAITING_SUPPORT_STATUSES_def)
  show ?thesis
    using assms(3) c(1) t m
    by (auto simp: s' reply_effect_def after_message_def well_formed_support_def well_formed_request_def request_row_def
        set_update_where)
qed

text \<open>
  C35. What a client stores at the support desk is well typed. Whatever JSON it sends, a subject, a
  category, an origin and a message that are written are of the lengths and among the words of the
  contract, a message of a user names its user and no administrator, a status names who is waited for or is
  closed, and a stored request carries an identifier of the pattern: creating and replying keep all rows so,
  whatever others, who keep them so, do in between.
\<close>

theorem stored_support_rows_are_well_typed:
  assumes "well_formed_support s" and "\<forall>n s. well_formed_support s \<longrightarrow> well_formed_support (others n s)"
  shows "well_formed_support (snd (createTicket others sha now userId (ticket_input body) s))
    \<and> well_formed_support (snd (replyToTicket others sha now userId (reply_input ticketId body) s))"
proof
  have o: "well_formed_support (others n t)" if "well_formed_support t" for n t using assms(2) that by blast
  let ?c = "createTicket others sha now userId (ticket_input body) s"
    and ?r = "replyToTicket others sha now userId (reply_input ticketId body) s"
  show "well_formed_support (snd ?c)"
    using createTicket_final [OF surjective_pairing, of others sha now userId "ticket_input body" s]
    by (elim disjE exE conjE) (auto simp: o assms(1) intro: created_well_formed)
  show "well_formed_support (snd ?r)"
    using replyToTicket_final [OF surjective_pairing, of others sha now userId "reply_input ticketId body" s]
    by (elim disjE exE conjE) (auto simp: o assms(1) intro: replied_well_formed)
qed

end
