(* ===== verification/MiniAppDoorApplications.thy ===== *)
theory MiniAppDoorApplications
  imports SupportApplications MiniAppRoutesFacts
begin

text \<open>
  The theorems about the front door of the Mini App, applied to the small shop: a user known to Telegram,
  required terms that the user accepted, and one required channel that the user joined. The cryptography is
  a toy that satisfies the laws: a code that shows its text, and a seal whose tag tells the lists apart.
\<close>

section \<open>A front door\<close>

definition door_check :: string where
  "door_check = ''auth_date=1000'' @ [CHR 0x0A] @ ''user={'' @ [CHR 0x22] @ ''id'' @ [CHR 0x22] @ '':42}''"

definition door_crypto :: web_crypto where
  "door_crypto =
     \<lparr>cr_scrypt = (\<lambda>_ _. [1]),
      cr_encrypt = (\<lambda>_ _ aad text. (text_bytes text, replicate 16 (of_nat (length aad)))),
      cr_decrypt = (\<lambda>_ _ aad sealed tag. if tag = replicate 16 (of_nat (length aad)) then Some (text_of_bytes sealed) else None),
      cr_sha256 = (\<lambda>s. s),
      cr_hmac = (\<lambda>_ m. if m = door_check then replicate 32 7 else 0 # text_bytes m)\<rparr>"

definition door_initData :: string where
  "door_initData = ''auth_date=1000&hash='' @ concat (replicate 32 ''07'') @ ''&user=%7B%22id%22%3A42%7D''"

definition door_shop :: db where
  "door_shop = desk\<lparr>users := [sample_user\<lparr>u_id := ''u'', u_balanceToman := 1000, u_telegramId := 42\<rparr>],
     settings := [shop_setting ''terms_required'' ''true'', shop_setting ''force_join_enabled'' ''true''],
     terms_documents := [sample_terms\<lparr>td_id := ''t''\<rparr>],
     terms_acceptances := [sample_acceptance\<lparr>ta_userId := ''u'', ta_termsDocumentId := ''t''\<rparr>],
     channels := [sample_channel\<lparr>fc_id := ''c''\<rparr>]\<rparr>"

definition door_joins :: join_env where
  "door_joins = \<lparr>je_answer = (\<lambda>_. Member ''member'' None), je_configured = False, je_get = (\<lambda>_. Delivered),
     je_set = (\<lambda>_. Delivered), je_alert = (\<lambda>_. Delivered), je_broken = (\<lambda>_. False), je_others = (\<lambda>_ s. s)\<rparr>"

definition door_access :: access_env where
  "door_access = \<lparr>ac_fails = (\<lambda>_. False), ac_others = (\<lambda>_ s. s), ac_botToken = Some ''k'', ac_join = door_joins\<rparr>"

definition door :: door_env where
  "door = \<lparr>dr_crypto = door_crypto, dr_secret = ''s'', dr_config = (\<lambda>_. ''''), dr_allowedOrigins = [],
     dr_production = True, dr_digest = (\<lambda>s. s), dr_salt = ''x'', dr_lookupFails = False, dr_access = door_access\<rparr>"

definition door_join :: join_state where
  "door_join = \<lparr>jn_redis = \<lparr>rd_store = (\<lambda>_. None), rd_now = 1000000\<rparr>, jn_db = door_shop, jn_memAlerts = (\<lambda>_. None),
     jn_alerts = []\<rparr>"

definition door_at_rest :: door_state where
  "door_at_rest = \<lparr>ds_limiter = new_limiter 60000, ds_join = door_join\<rparr>"

definition door_request :: "string option \<Rightarrow> api_request" where
  "door_request cookie = \<lparr>rq_headers = (\<lambda>h. if h = ''content-type'' then Some (One ''application/json'')
      else if h = ''cookie'' then map_option One cookie else None), rq_protocol = ''https'', rq_ip = ''1''\<rparr>"

definition door_body :: json where "door_body = JObj [(''initData'', JStr door_initData)]"

definition let_in :: "MiniAppAccessDenied + user_row \<Rightarrow> bool" where
  "let_in r = (case r of Inr u \<Rightarrow> u_id u = ''u'' | Inl _ \<Rightarrow> False)"

lemma door_lets_in: "let_in (fst (evaluateMiniAppAccess door_access ''u'' door_join))"
  by code_simp

lemma door_validates: "validateMiniAppInitData door_crypto ''k'' 300 1000 door_initData
    = Inr \<lparr>iu_telegramId = 42, iu_authDateSeconds = 1000\<rparr>"
  by code_simp

lemma door_steps:
  "checkRequestOrigin (door_request None) (dr_allowedOrigins door) = Origin_allowed"
  "isSecureRequest (door_request None)"
  "miniAppInitDataMaxAgeSeconds (dr_config door) = 300"
  "sessionKey (dr_crypto door) (dr_secret door) = Some [1]"
  "find (\<lambda>u. u_telegramId u = 42) (users (jn_db door_join)) = Some (hd (users door_shop))"
  "u_id (hd (users door_shop)) = ''u''"
  "miniAppSessionTtlSeconds (dr_config door) = 900"
  by code_simp+

lemma door_initData_sent: "initData_of door_body = Some door_initData" "\<not> MINIAPP_INITDATA_MAX_BYTES < length door_initData"
proof -
  show "initData_of door_body = Some door_initData" by (simp add: initData_of_def door_body_def door_initData_def)
  show "\<not> MINIAPP_INITDATA_MAX_BYTES < length door_initData" by code_simp
qed

lemma door_user:
  obtains user st1 where "evaluateMiniAppAccess door_access ''u'' door_join = (Inr user, st1)" "u_id user = ''u''"
proof -
  obtain r st1 where e: "evaluateMiniAppAccess door_access ''u'' door_join = (r, st1)"
    by (cases "evaluateMiniAppAccess door_access ''u'' door_join")
  with door_lets_in have "let_in r" by simp
  then show ?thesis using that e by (cases r) (auto simp: let_in_def)
qed

lemma door_opens:
  obtains reply st' b token where "post_auth door (door_request None) door_body door_at_rest = (reply, st')" "hr_body reply = Sent b"
    "hr_setCookie reply = Some (serializeMiniAppSessionCookie token True 900)"
    "issueMiniAppSession door_crypto ''s'' ''u'' 900 (now_of (ds_join st')) = Some token"
proof -
  obtain user st1 where u: "evaluateMiniAppAccess door_access ''u'' door_join = (Inr user, st1)" by (rule door_user)
  have d: "dr_access door = door_access" "dr_crypto door = door_crypto" "dr_secret door = ''s''" "dr_production door"
    "dr_lookupFails door = False" "ac_botToken door_access = Some ''k''" "ds_join door_at_rest = door_join"
    "now_of door_join = 1000000"
    by (simp_all add: door_def door_access_def door_at_rest_def door_join_def now_of_def)
  obtain token where t: "issueMiniAppSession door_crypto ''s'' ''u'' 900 (now_of st1) = Some token"
    using door_steps(4) unfolding d by (simp add: issueMiniAppSession_def Let_def)
  have s: "sign_in door (door_request None) 42 door_join = (session_reply door (door_request None) (now_of st1) ''u'' user, st1)"
    by (simp add: sign_in_def d door_steps(5,6) u)
  have c: "checked_sign_in door (door_request None) door_body door_join
      = (session_reply door (door_request None) (now_of st1) ''u'' user, st1)"
    using door_validates by (simp add: checked_sign_in_def d door_steps(3) door_initData_sent s)
  obtain rate limiter where k: "check (miniAppAuthRateLimit (dr_config door)) (clientRateKey (dr_digest door) (dr_salt door) (door_request None))
      (now_of (ds_join door_at_rest)) (ds_limiter door_at_rest) = (rate, limiter)" "rl_allowed rate"
    by (simp add: check_def door_at_rest_def new_limiter_def Let_def)
  have "post_auth door (door_request None) door_body door_at_rest
      = (session_reply door (door_request None) (now_of st1) ''u'' user, door_at_rest\<lparr>ds_limiter := limiter, ds_join := st1\<rparr>)"
    using k c d(7) by (simp add: post_auth_def door_steps(1,2) Let_def)
  then show ?thesis
    using that t by (simp add: session_reply_def d door_steps(2,7) Let_def send_def)
qed

section \<open>Forced joins\<close>

theorem gate_is_pointwise_witness:
  "fst (evaluateForceJoinMembership door_joins 42 (channels door_shop) False door_join) = PASS"
proof -
  have "distinct (map fc_id (channels door_shop))" by (simp add: door_shop_def)
  from gate_is_pointwise [OF this, of door_joins 42 False door_join] show ?thesis
    by (simp add: door_shop_def channel_verdict_def door_joins_def isForceJoinMembershipActive_def Let_def)
qed

definition bad_days :: "health_event list" where
  "bad_days = map (Health_failed False ''c'' ''UNVERIFIABLE'') [0, 150000, 300000, 450000]"

theorem retirement_needs_sustained_failures_witness:
  "fst (recordChannelHealthFailure False ''c'' ''UNVERIFIABLE'' 600000 (fold health_step bad_days door_shop)) = RETIRED True
    \<and> (\<exists>ts. subseq ts (failures_since ''c'' bad_days []) \<and> 5 \<le> length (ts @ [600000]) \<and> 600000 \<le> 600000 - hd (ts @ [600000])
      \<and> spaced (ts @ [600000]))"
proof -
  have r: "fst (recordChannelHealthFailure False ''c'' ''UNVERIFIABLE'' 600000 (fold health_step bad_days door_shop)) = RETIRED True"
    by code_simp
  have "find (\<lambda>c. fc_id c = ''c'') (channels door_shop) = Some (hd (channels door_shop))"
    "fc_healthFailureCount (hd (channels door_shop)) = 0" "fc_healthFailureLastAt (hd (channels door_shop)) = None"
    by (simp_all add: door_shop_def sample_channel_def)
  from retirement_needs_sustained_failures [OF this r] r show ?thesis by blast
qed

section \<open>Limits\<close>

theorem limiter_bounds_every_interval_witness:
  "let requests = [(''a'', 0), (''a'', 1), (''b'', 2), (''a'', 60000), (''a'', 60001)];
      decisions = fst (check_all 1 requests (new_limiter 60000)) in
    allowed_in ''a'' 0 60000 requests decisions \<le> 1 \<and> allowed_in ''b'' 1 60001 requests decisions \<le> 1
    \<and> allowed_in ''a'' 1 60001 requests decisions \<le> 2"
proof -
  let ?requests = "[(''a'', 0 :: int), (''a'', 1), (''b'', 2), (''a'', 60000), (''a'', 60001)]"
  have s: "sorted (map snd ?requests)" by simp
  have o: "others_in ''a'' 0 60000 ?requests = 1" "others_in ''b'' 1 60001 ?requests = 2" by (simp_all add: others_in_def)
  have c: "card (fst ` set ?requests) < 10000" by (simp add: card_insert_if)
  note bound = limiter_bounds_every_interval [OF s, of 1, unfolded Let_def]
  show ?thesis
    using bound [of "''a''" 0 60000] bound [of "''b''" 1 60000] bound [of "''a''" 1 60000] o c
    unfolding Let_def by (simp del: check_all.simps)
qed

section \<open>Sessions\<close>

theorem session_is_minted_for_the_signed_user_witness:
  "\<exists>reply st' (user :: user_row) token. post_auth door (door_request None) door_body door_at_rest = (reply, st')
    \<and> (\<exists>found \<in> set (users door_shop). u_id found = u_id user)
    \<and> issueMiniAppSession door_crypto ''s'' (u_id user) 900 (now_of (ds_join st')) = Some token
    \<and> map_option browser_cookie (hr_setCookie reply) = Some (MINIAPP_SESSION_COOKIE_NAME @ ''='' @ token)"
proof -
  obtain reply st' b where p: "post_auth door (door_request None) door_body door_at_rest = (reply, st')" "hr_body reply = Sent b"
    by (rule door_opens)
  have d: "dr_crypto door = door_crypto" "dr_secret door = ''s''" "jn_db (ds_join door_at_rest) = door_shop"
    by (simp_all add: door_def door_at_rest_def door_join_def)
  from session_is_minted_for_the_signed_user [OF p] p(1) show ?thesis
    unfolding d door_steps(7) by blast
qed

lemma door_users: "\<forall>u \<in> set (users (jn_db (ds_join door_at_rest))). u_id u \<noteq> [] \<and> utf8_valid (u_id u)"
  by code_simp

lemma door_time: "now_of (snd (evaluateMiniAppAccess door_access ''u'' door_join)) = 1000000"
  by code_simp

lemma door_clock: "clock_ok (now_of (ds_join st'))"
  if "evaluateMiniAppAccess door_access (u_id user) door_join = (Inr user, ds_join st')" "u_id user = ''u''" for user st'
  using that door_time by (simp add: clock_ok_def)

lemma door_time_after:
  assumes "post_auth door (door_request None) door_body door_at_rest = (reply, st')" "hr_body reply = Sent b"
  shows "now_of (ds_join st') = 1000000"
proof -
  obtain v :: init_data_user and found user
    where "find (\<lambda>u. u_telegramId u = iu_telegramId v) (users (jn_db (ds_join door_at_rest))) = Some found"
      and e: "evaluateMiniAppAccess (dr_access door) (u_id found) (ds_join door_at_rest) = (Inr user, ds_join st')"
    by (rule post_auth_user [OF assms])
  then have "found = hd (users door_shop)"
    by (auto simp: door_at_rest_def door_join_def door_shop_def split: if_splits)
  then have "evaluateMiniAppAccess door_access ''u'' door_join = (Inr user, ds_join st')"
    using e door_steps(6) by (simp add: door_def door_at_rest_def)
  then show ?thesis using door_time by simp
qed

theorem session_follows_the_account_witness:
  "\<exists>reply st' setCookie (user :: user_row) expiry. post_auth door (door_request None) door_body door_at_rest = (reply, st')
    \<and> hr_setCookie reply = Some setCookie
    \<and> (authenticate door (door_request (Some (browser_cookie setCookie))) door_join :: (unit http_reply + user_row) \<times> join_state) =
      (if expiry \<le> now_of door_join div 1000
       then (Inl ((fail 401 Err_NOT_AUTHENTICATED)\<lparr>hr_setCookie :=
          Some (serializeMiniAppSessionClearCookie (isSecureRequest (door_request (Some (browser_cookie setCookie)))))\<rparr>), door_join)
       else (case evaluateMiniAppAccess (dr_access door) (u_id user) door_join of
          (Inl denied, st1) \<Rightarrow> (Inl (denied_reply denied), st1) | (Inr user', st1) \<Rightarrow> (Inr user', st1)))"
proof -
  obtain reply st' b token where p: "post_auth door (door_request None) door_body door_at_rest = (reply, st')" "hr_body reply = Sent b"
    and c: "hr_setCookie reply = Some (serializeMiniAppSessionCookie token True 900)"
    by (rule door_opens)
  have k: "clock_ok (now_of (ds_join st'))" using door_time_after [OF p] by (simp add: clock_ok_def)
  let ?c = "browser_cookie (serializeMiniAppSessionCookie token True 900)"
  have h: "headerValue (door_request (Some ?c)) ''cookie'' = Some ?c"
    by (simp add: headerValue_def door_request_def)
  from session_follows_the_account [where later = door_join and env' = door, OF p c door_users k refl refl h] p(1) c
  show ?thesis by blast
qed

theorem accepted_session_was_issued_witness:
  "\<exists>token p. verifyMiniAppSession door_crypto ''s'' 1000000 token = Some (Inr p) \<and> ss_userId p = ''u''
    \<and> (\<exists>ttl t. issueMiniAppSession door_crypto ''s'' (ss_userId p) ttl t = Some token
      \<and> ss_expiresAtSeconds p = t div 1000 + session_ttl ttl \<and> 1000000 div 1000 < ss_expiresAtSeconds p)"
proof -
  let ?body = "issued_body ''u'' 900 1000000"
  let ?token = "?body @ ''.'' @ session_mac door_crypto [1] ?body"
  have key: "sessionKey door_crypto ''s'' = Some [1]" by code_simp
  have clock: "clock_ok 1000000" by (simp add: clock_ok_def)
  have u: "utf8_valid ''u''" by code_simp
  have v: "verifyMiniAppSession door_crypto ''s'' 1000000 ?token = Some (Inr \<lparr>ss_userId = ''u'', ss_expiresAtSeconds = 1900\<rparr>)"
    using verify_issued [OF key _ u clock, of 1000000 900] by (simp add: session_ttl_def MINIAPP_SESSION_MIN_TTL_SECONDS_def
        MINIAPP_SESSION_MAX_TTL_SECONDS_def Let_def)
  have b: "?body \<noteq> door_check" by code_simp
  have s: "List.last (js_split CHR ''.'' ?token) = session_mac door_crypto [1] ?body"
    using split_token [of "b64url_encode (text_bytes ''u'')" "show_int (1000000 div 1000 + session_ttl 900)" door_crypto "[1]" ?body]
      expiry_digits(3) [OF clock, of 900] unfolding issued_body_def by simp
  have "m = ?body" if "session_mac door_crypto [1] ?body = session_mac door_crypto [1] m" for m
  proof -
    have "cr_hmac door_crypto [1] ?body = cr_hmac door_crypto [1] m"
      using that unfolding session_mac_def by (rule b64url_encode_inject)
    then have "0 # text_bytes ?body = (if m = door_check then replicate 32 7 else 0 # text_bytes m)"
      using b by (simp add: door_crypto_def)
    moreover have "(0 :: byte) # text_bytes ?body \<noteq> replicate 32 7"
    proof -
      have "hd (replicate 32 (7 :: byte)) = 7" "(0 :: byte) \<noteq> 7" by simp_all
      then show ?thesis by (metis list.sel(1))
    qed
    ultimately have "text_bytes ?body = text_bytes m" by (simp split: if_splits)
    then show ?thesis using text_bytes_inject by metis
  qed
  then have "\<forall>key m. sessionKey door_crypto ''s'' = Some key \<and> List.last (js_split CHR ''.'' ?token) = session_mac door_crypto key m
      \<longrightarrow> m \<in> {?body}"
    unfolding s using key by auto
  moreover have "\<forall>m \<in> {?body}. \<exists>userId ttl t. m = issued_body userId ttl t \<and> userId \<noteq> [] \<and> utf8_valid userId \<and> clock_ok t"
    using u clock by blast
  ultimately have "\<exists>ttl t. issueMiniAppSession door_crypto ''s'' (ss_userId \<lparr>ss_userId = ''u'', ss_expiresAtSeconds = 1900\<rparr>) ttl t = Some ?token
      \<and> ss_expiresAtSeconds \<lparr>ss_userId = ''u'', ss_expiresAtSeconds = 1900\<rparr> = t div 1000 + session_ttl ttl
      \<and> 1000000 div 1000 < ss_expiresAtSeconds \<lparr>ss_userId = ''u'', ss_expiresAtSeconds = 1900\<rparr>"
    by (rule accepted_session_was_issued [OF v])
  moreover have "ss_userId \<lparr>ss_userId = ''u'', ss_expiresAtSeconds = 1900\<rparr> = ''u''" by simp
  ultimately show ?thesis using v by blast
qed

section \<open>The signed text\<close>

definition door_pairs :: field_pairs where
  "door_pairs = [(''auth_date'', ''1000''), (''hash'', concat (replicate 32 ''07'')),
     (''user'', ''{'' @ [CHR 0x22] @ ''id'' @ [CHR 0x22] @ '':42}'')]"

lemma door_parse: "parseStrict door_initData = Inr door_pairs"
  by code_simp

theorem accepted_init_data_was_signed_witness:
  "\<exists>u. validateMiniAppInitData door_crypto ''k'' 300 1000 door_initData = Inr u
    \<and> iu_telegramId u = 42 \<and> 1000 - 300 \<le> iu_authDateSeconds u
    \<and> Option.bind (map_of door_pairs ''user'') extractTelegramId = Some (iu_telegramId u)"
proof -
  have p: "plain_fields door_pairs" by code_simp
  have b: "buildBotTokenCheckString door_pairs = door_check" by code_simp
  have h: "hex_bytes (the (map_of door_pairs ''hash'')) = replicate 32 7" by code_simp
  have n: "(0 :: byte) # x \<noteq> replicate 32 7" for x
  proof -
    have "hd (replicate 32 (7 :: byte)) = 7" "(0 :: byte) \<noteq> 7" by simp_all
    then show ?thesis by (metis list.sel(1))
  qed
  have "\<forall>m. cr_hmac door_crypto (cr_hmac door_crypto (text_bytes ''WebAppData'') ''k'') m = hex_bytes (the (map_of door_pairs ''hash''))
      \<longrightarrow> (\<exists>fields \<in> {door_pairs}. m = buildBotTokenCheckString fields)"
    unfolding h using b n by (simp add: door_crypto_def)
  moreover have "\<forall>fields \<in> {door_pairs}. plain_fields fields \<and> distinct (map fst fields)"
    using p by (simp add: door_pairs_def)
  ultimately show ?thesis
    using accepted_init_data_was_signed [OF door_validates door_parse p, of "{door_pairs}"] door_validates by simp
qed

section \<open>Access\<close>

theorem access_is_earned_witness:
  "\<exists>user st'. evaluateMiniAppAccess door_access ''u'' door_join = (Inr user, st') \<and> u_status user = UserStatus_ACTIVE
    \<and> accepted_document door_shop ''u'' ''t''
    \<and> (\<forall>c \<in> set (channels door_shop). channel_verdict door_joins 42 False (jn_redis door_join) c \<in> {JOINED, UNVERIFIABLE})"
proof -
  obtain user st1 where e: "evaluateMiniAppAccess door_access ''u'' door_join = (Inr user, st1)" by (rule door_user)
  have at: "db_at door_access n (jn_db door_join) = door_shop" for n
  proof -
    have "fold (\<lambda>_ s. s) ns t = t" for ns :: "nat list" and t :: db by (induction ns) simp_all
    then show ?thesis by (simp add: db_at_def door_access_def door_join_def)
  qed
  have d: "distinct (map fc_id (channels (db_at door_access 6 (jn_db door_join))))"
    unfolding at by (simp add: door_shop_def)
  have "isTruthySetting (setting_value ''terms_required'' door_shop)" "isTruthySetting (setting_value ''force_join_enabled'' door_shop)"
    by code_simp+
  moreover have "published door_shop = {sample_terms\<lparr>td_id := ''t''\<rparr>}"
    by (auto simp: published_def door_shop_def sample_terms_def)
  moreover have "\<forall>u \<in> set (users door_shop). \<not> u_forceJoinBypass u \<and> u_telegramId u = 42"
    by (simp add: door_shop_def sample_user_def)
  moreover have "\<forall>c \<in> set (channels door_shop). fc_isActive c" by (simp add: door_shop_def sample_channel_def)
  ultimately show ?thesis
    using access_is_earned [OF e d] e unfolding at Let_def by (auto simp: door_access_def)
qed

section \<open>Routes\<close>

definition page_id :: "char \<Rightarrow> string" where "page_id c = replicate 36 c"

definition paged_shop :: db where
  "paged_shop = door_shop\<lparr>
     services := map (\<lambda>c. sample_service\<lparr>sv_id := page_id c, sv_userId := ''u'', sv_createdAt := 5\<rparr>) ''ab'',
     wallet_txs := map (\<lambda>c. sample_wallet_tx\<lparr>wt_id := page_id c, wt_userId := ''u'', wt_createdAt := 7\<rparr>) ''ab'',
     support_tickets := [sample_ticket\<lparr>tk_id := page_id CHR ''c'', tk_userId := ''u''\<rparr>],
     support_messages := map (\<lambda>c. sample_message\<lparr>sm_id := page_id c, sm_ticketId := page_id CHR ''c'', sm_createdAt := 9\<rparr>) ''ab''\<rparr>"

lemma door_seals: "sealing door (\<lambda>_. replicate 12 0)"
proof -
  have "length (cursor_aad r') = length (cursor_aad r) \<longleftrightarrow> r' = r" for r r'
    by (cases r; cases r') (simp_all add: cursor_aad_def CURSOR_VERSION_def)
  moreover have "(of_nat (length (cursor_aad r')) :: byte) = of_nat (length (cursor_aad r)) \<longleftrightarrow> length (cursor_aad r') = length (cursor_aad r)" for r r'
    by (cases r; cases r') (simp_all add: cursor_aad_def CURSOR_VERSION_def)
  ultimately have "aead_law door_crypto key" for key
    by (auto simp: aead_law_def door_crypto_def TAG_BYTES_def) (simp add: text_bytes_def)
  moreover have "js_trim ''s'' \<noteq> []" by code_simp
  ultimately show ?thesis by (simp add: sealing_def door_def IV_BYTES_def cursorKey_def)
qed

theorem sealed_pages_are_the_lists_witness:
  "concat (follow 3 (\<lambda>c. get_services door False (replicate 12 0) (cursor_query (Some ''1'') c) 0 (hd (users door_shop)) paged_shop) None)
      = map (toMiniAppServiceSummary 0)
          (rev (sort_key service_position (filter (ownedVisibleServices ''u'') (services paged_shop))))
    \<and> concat (rev (follow 3 (\<lambda>c. get_messages door False (\<lambda>s. s) (replicate 12 0) (cursor_query (Some ''1'') c) ''cccccccc''
          (hd (users door_shop)) paged_shop) None))
      = map toMiniAppMessage (sort_key message_position (conversation paged_shop (page_id CHR ''c'')))"
proof -
  let ?u = "hd (users door_shop)"
  have u: "u_id ?u = ''u''" by (rule door_steps(6))
  have id: "is_uuid_text (page_id c)" if "c \<in> set ''ab''" for c
    using that by (auto simp: is_uuid_text_def page_id_def list_all_iff radix_digit_def char_code_def is_digit_def Let_def)
  have s: "unique_by sv_id (services paged_shop)" "\<forall>sv \<in> set (services paged_shop). position_ok (service_position sv)"
    "length (services paged_shop) < 3"
    using id by (simp_all add: paged_shop_def unique_by_def position_ok_def service_position_def page_id_def)
  have w: "unique_by wt_id (wallet_txs paged_shop)" "\<forall>t \<in> set (wallet_txs paged_shop). position_ok (transaction_position t)"
    "length (wallet_txs paged_shop) < 3"
    using id by (simp_all add: paged_shop_def unique_by_def position_ok_def transaction_position_def page_id_def)
  have m: "unique_by sm_id (support_messages paged_shop)" "\<forall>m \<in> set (support_messages paged_shop). position_ok (message_position m)"
    "length (support_messages paged_shop) < 3"
    using id by (simp_all add: paged_shop_def unique_by_def position_ok_def message_position_def page_id_def)
  have t: "resolveOwnedTicket paged_shop (u_id ?u) (JStr ''cccccccc'')
      = Some (sample_ticket\<lparr>tk_id := page_id CHR ''c'', tk_userId := ''u''\<rparr>, None)"
    by code_simp
  from sealed_pages_are_the_lists [OF door_seals s(1,2) w(1,2) m(1,2) t s(3) w(3) m(3), of "Some ''1''" 0]
  show ?thesis by (simp add: u)
qed

definition door_ticket :: json where
  "door_ticket = JObj [(''subject'', JStr ''no net''), (''message'', JStr ''help''), (''category'', JStr ''CONNECTION''),
     (''clientRequestId'', JStr ''0123456789abcdef'')]"

theorem stored_support_rows_are_well_typed_witness:
  "well_formed_support (snd (createTicket (\<lambda>_ s. s) desk_sha 100 ''u'' (ticket_input door_ticket) door_shop))"
proof -
  have "well_formed_support door_shop"
    by (simp add: well_formed_support_def door_shop_def desk_def shop_def empty_db_def)
  from stored_support_rows_are_well_typed [where others = "\<lambda>_ s. s", OF this] show ?thesis by blast
qed

text \<open>A desk with a valid session: the token that the shop issued to its user, in the cookie of the browser.\<close>

definition desk_state :: route_state where
  "desk_state = \<lparr>rt_limiters = createSupportMutationLimiters, rt_join = door_join\<rparr>"

definition desk_token :: string where
  "desk_token = issued_body ''u'' 900 1000000 @ ''.'' @ session_mac door_crypto [1] (issued_body ''u'' 900 1000000)"

definition desk_cookie :: string where
  "desk_cookie = browser_cookie (serializeMiniAppSessionCookie desk_token True 900)"

definition desk_post :: "string option \<Rightarrow> json \<Rightarrow> MiniAppTicketDetailDto http_reply \<times> route_state" where
  "desk_post cookie body = post_ticket door False (\<lambda>s. s) (\<lambda>_ s. s) desk_sha (door_request cookie) body desk_state"

definition desk_answers :: "support_outcome \<Rightarrow> bool" where
  "desk_answers outcome = (case outcome of Answered (Inr v) \<Rightarrow> True | _ \<Rightarrow> False)"

lemma desk_cookie_read: "readMiniAppSessionCookie (headerValue (door_request (Some desk_cookie)) ''cookie'') = Some desk_token"
  "desk_token \<noteq> []"
proof -
  have clock: "clock_ok 1000000" by (simp add: clock_ok_def)
  have "headerValue (door_request (Some desk_cookie)) ''cookie'' = Some desk_cookie"
    by (simp add: headerValue_def door_request_def)
  then show "readMiniAppSessionCookie (headerValue (door_request (Some desk_cookie)) ''cookie'') = Some desk_token"
    unfolding desk_cookie_def desk_token_def by (simp only: browser_cookie_value [OF token_clean [OF clock]])
  show "desk_token \<noteq> []" by (simp add: desk_token_def)
qed

lemma desk_token_verifies:
  "verifyMiniAppSession door_crypto ''s'' 1000000 desk_token = Some (Inr \<lparr>ss_userId = ''u'', ss_expiresAtSeconds = 1900\<rparr>)"
proof -
  have key: "sessionKey door_crypto ''s'' = Some [1]" by code_simp
  have clock: "clock_ok 1000000" by (simp add: clock_ok_def)
  have u: "utf8_valid ''u''" by code_simp
  show ?thesis
    using verify_issued [OF key _ u clock, of 1000000 900] unfolding desk_token_def
    by (simp add: session_ttl_def MINIAPP_SESSION_MIN_TTL_SECONDS_def MINIAPP_SESSION_MAX_TTL_SECONDS_def Let_def)
qed

lemma desk_refuses: "read_create_input (ticket_input JNull) = Inl INVALID_REQUEST_ID"
  by code_simp

lemma desk_accepts:
  "desk_answers (fst (createTicket (\<lambda>_ s. s) desk_sha 1000000 ''u'' (ticket_input door_ticket)
     (jn_db (snd (evaluateMiniAppAccess door_access ''u'' door_join)))))"
  by code_simp

lemma desk_gate: "fst (checkSupportMutation (support_guard door 1000000) ''u'' (door_request c) createSupportMutationLimiters) = None"
  by code_simp

lemma desk_opens:
  obtains user j limiters where "(authenticate door (door_request (Some desk_cookie)) door_join
        :: (MiniAppTicketDetailDto http_reply + user_row) \<times> join_state) = (Inr user, j)"
    "u_id user = ''u''" "now_of j = 1000000" "snd (evaluateMiniAppAccess door_access ''u'' door_join) = j"
    "checkSupportMutation (support_guard door (now_of j)) (u_id user) (door_request (Some desk_cookie)) (rt_limiters desk_state)
      = (None, limiters)"
proof -
  obtain user st1 where u: "evaluateMiniAppAccess door_access ''u'' door_join = (Inr user, st1)" "u_id user = ''u''" by (rule door_user)
  have now: "now_of st1 = 1000000" using door_time u(1) by simp
  have "now_of door_join = 1000000" by (simp add: door_join_def now_of_def)
  then have "(authenticate door (door_request (Some desk_cookie)) door_join
      :: (MiniAppTicketDetailDto http_reply + user_row) \<times> join_state) = (Inr user, st1)"
    using u(1) desk_cookie_read desk_token_verifies by (simp add: authenticate_def door_def)
  moreover obtain limiters where "checkSupportMutation (support_guard door (now_of st1)) (u_id user)
      (door_request (Some desk_cookie)) (rt_limiters desk_state) = (None, limiters)"
    using desk_gate [of "Some desk_cookie"] unfolding now u(2) desk_state_def
    by (cases "checkSupportMutation (support_guard door 1000000) ''u'' (door_request (Some desk_cookie)) createSupportMutationLimiters") simp
  ultimately show ?thesis using that u now by simp
qed

text \<open>No session, a request that the domain refuses, and one that it carries out.\<close>

theorem support_writes_act_for_the_session_witness:
  "hr_status (fst (desk_post None door_ticket)) = 401 \<and> rt_join (snd (desk_post None door_ticket)) = door_join
    \<and> hr_body (fst (desk_post (Some desk_cookie) JNull)) = Support_refused INVALID_REQUEST_ID
    \<and> rt_join (snd (desk_post (Some desk_cookie) JNull)) = snd (evaluateMiniAppAccess door_access ''u'' door_join)
    \<and> hr_status (fst (desk_post (Some desk_cookie) door_ticket)) = 201
    \<and> (\<exists>t \<in> set (support_tickets (jn_db (rt_join (snd (desk_post (Some desk_cookie) door_ticket))))). tk_userId t = ''u'')"
proof -
  have pair: "((fst (desk_post cookie body), snd (desk_post cookie body)), ticket_written (\<lambda>_ s. s) desk_sha body) \<in>
      {(post_ticket door False (\<lambda>s. s) (\<lambda>_ s. s) desk_sha (door_request cookie) body desk_state, ticket_written (\<lambda>_ s. s) desk_sha body),
       (post_reply door False (\<lambda>s. s) (\<lambda>_ s. s) desk_sha (door_request cookie) '''' body desk_state, reply_written (\<lambda>_ s. s) desk_sha '''' body)}"
    for cookie body by (simp add: desk_post_def)
  note session = support_writes_act_for_the_session [OF pair]
  have none: "fst (desk_post None door_ticket) = fail 401 Err_NOT_AUTHENTICATED \<and> rt_join (snd (desk_post None door_ticket)) = door_join"
    using session [of None door_ticket]
    by (simp add: authenticate_def headerValue_def door_request_def readMiniAppSessionCookie_def desk_state_def)
  obtain user j limiters where a: "(authenticate door (door_request (Some desk_cookie)) door_join
        :: (MiniAppTicketDetailDto http_reply + user_row) \<times> join_state) = (Inr user, j)"
    and u: "u_id user = ''u''" "now_of j = 1000000" "snd (evaluateMiniAppAccess door_access ''u'' door_join) = j"
    and c: "checkSupportMutation (support_guard door (now_of j)) (u_id user) (door_request (Some desk_cookie)) (rt_limiters desk_state)
      = (None, limiters)"
    by (rule desk_opens)
  have st: "rt_join desk_state = door_join" by (simp add: desk_state_def)
  have still: "meanwhile (\<lambda>_ s. s) s s' \<longleftrightarrow> s' = s" for s s' :: db
  proof -
    have "fold (\<lambda>_ s. s) ns s = s" for ns :: "nat list" by (induction ns) simp_all
    then show ?thesis by (auto simp: meanwhile_def intro: exI [of _ "[]"])
  qed
  have r: "hr_body (fst (desk_post (Some desk_cookie) JNull)) = Support_refused INVALID_REQUEST_ID"
    using desk_refuses by (simp add: desk_post_def post_ticket_def guarded_write_def st a c createTicket_def write_reply_def)
  have refused: "rt_join (snd (desk_post (Some desk_cookie) JNull)) = j"
    using session [of "Some desk_cookie" JNull] by (auto simp: st a c still r)
  obtain outcome s where o: "createTicket (\<lambda>_ s. s) desk_sha 1000000 ''u'' (ticket_input door_ticket) (jn_db j) = (outcome, s)"
    by (cases "createTicket (\<lambda>_ s. s) desk_sha 1000000 ''u'' (ticket_input door_ticket) (jn_db j)")
  then obtain v where v: "outcome = Answered (Inr v)"
    using desk_accepts u(3) by (auto simp: desk_answers_def split: support_outcome.splits sum.splits)
  obtain dto where d: "hr_body (fst (desk_post (Some desk_cookie) door_ticket)) = Sent dto"
    using o v by (cases v) (simp add: desk_post_def post_ticket_def guarded_write_def st a c [unfolded u(1,2)] u write_reply_def send_def)
  have written: "hr_status (fst (desk_post (Some desk_cookie) door_ticket)) = 201
      \<and> (\<exists>t \<in> set (support_tickets (jn_db (rt_join (snd (desk_post (Some desk_cookie) door_ticket))))). tk_userId t = ''u'')"
    using session [of "Some desk_cookie" door_ticket] by (auto simp: st a c [unfolded u(1,2)] u(1,2) d)
  show ?thesis using none r refused u(3) written by (simp add: fail_def)
qed

end
