(* ===== verification/Spec2Isabelle.thy ===== *)
theory Spec2Isabelle
  imports SettlementFacts Applications CommerceApplications ServiceLock ExecutionApplications
    MiniAppApplications SupportApplications MiniAppDoorApplications
begin

text \<open>
  The commerce core of the shop: what happens between a customer who chooses something to buy and the
  panel that delivers it, in packages/service-renewal, packages/shared and packages/database of the
  repository, with the callers of apps/bot and apps/api where they supply a part of it; and its support
  desk, in packages/support-tickets; and the door through which a customer of the Telegram Mini App
  reaches both, in packages/shared, packages/force-join and apps/api.

  The parts and the theories that model them, in the order of the imports:

  \<^item> Prelude: JSON values, the language's strings, numbers and printing of integers, option and list
    lemmas. Dates: \<open>toISOString\<close>. Codec: UTF-8, base64url and the JSON text of a sealed quote.
  \<^item> Database: the rows of packages/database/prisma/schema.prisma that the code uses, one list per
    table in the record \<open>db\<close>, with the INTEGER and BIGINT ranges, foreign keys and unique columns
    of the inserts. A \<open>$transaction\<close> body is a value of type \<open>tx\<close>: it returns a result and a
    database, or an exception, and \<open>run_transaction\<close> rolls back on an exception. \<open>post\<close> is the
    rule set that the frame and invariant lemmas use. Samples: one plain row of every table.
  \<^item> Contract (contract.ts, rollout.ts, public-ids.ts), PanelCapability (panel-capability.ts,
    resolve-service.ts), Catalog (catalog.ts, catalog-read.ts), Discount (discount.ts): vocabularies,
    rollout switches, the owner gate, the catalog tree, discount validation and its claim.
  \<^item> LowBalance (shared/low-balance.ts) and LowBalanceCore (database/low-balance-core.ts,
    service-renewal/low-balance.ts): amounts of money as typed and shown, the pure machine of the
    low-balance warning, and the observer that runs it in the transaction of a wallet mutation.
  \<^item> Username (shared/service-username.ts) and Reservation (username-reservation.ts): valid names,
    random names over given random bytes, and the life of a username hold from draft to service.
  \<^item> Options (options.ts), Quote (quote.ts), Checkout (checkout.ts): what may be bought for a
    service, the sealed price token, and the drafts of an operation or of a new subscription.
  \<^item> Settlement and SettlementFacts (settlement.ts and the callbacks of wallet-payment.service.ts and
    of miniapp/commerce/routes.ts): the payment from the wallet as one transaction, with replay,
    conflict and every refusal.
  \<^item> PanelAdapter (panel-adapter.ts), ServiceLock (service-lock.ts) and Execution (execution.ts): the
    client of a panel, the distributed lock, and the execution, refund and reconciliation of an order
    that was paid.
  \<^item> Idempotency (apps/api miniapp/commerce/idempotency.ts) and MiniApp (its routes.ts and
    serializers.ts): the envelope that runs a request once, and the routes that quote, show and pay a
    draft.
  \<^item> SupportContract, SupportTickets and SupportTicketFacts (contract.ts and tickets.ts of
    support-tickets, with the vocabularies of shared/support-tickets-v2.ts): what a request may contain,
    creating a ticket and replying to it, and the pages of a conversation.
  \<^item> SupportNotifications and SupportNotificationFacts (notifications.ts and the bot's
    support-notification.service.ts): the outbox that tells the administrators.
  \<^item> MiniAppSession and MiniAppSessionFacts (shared/miniapp-initdata.ts, shared/miniapp-session.ts):
    the signed launch data of Telegram and its validation, and the signed session token.
  \<^item> MiniAppGuards and MiniAppGuardsFacts (apps/api miniapp/config.ts, trusted-proxy.ts, security.ts,
    transport.ts, support-guards.ts and cursor.ts): configuration read from strings, the rate limiter,
    the origin and content type checks, and the sealed cursor of a list.
  \<^item> ForceJoin and ForceJoinFacts (packages/force-join membership.ts, channel-policy.ts and
    ops-outbox.ts, with shared/force-join.ts): what a failed question to Telegram means, the verdict of
    a user over all channels, the health record that retires a broken channel, and its reports.
  \<^item> MiniAppAccess and MiniAppAccessFacts (miniapp/access-policy.ts and the sign-in, sign-out, session
    hook, profile and service detail of miniapp/routes.ts), MiniAppRoutes and MiniAppRoutesFacts (the
    dashboard and the lists of routes.ts, serializers.ts and support-routes.ts): who gets a session,
    what each request checks again, and what the routes read and write for the session's user.
  \<^item> Applications, CommerceApplications, ExecutionApplications, MiniAppApplications,
    SupportApplications and MiniAppDoorApplications apply the theorems to one small shop.

  How they interact: Checkout prices an option that Options resolves for a service that the owner gate
  of PanelCapability found, binds a hold of Reservation, and issues a token of Quote. Settlement takes
  the draft, debits the wallet, claims the discount with Discount, binds the hold with Reservation and
  reports the mutation to LowBalanceCore, in one transaction. The routes of MiniApp quote through
  Idempotency and Checkout and pay through Quote and Settlement. SupportTickets writes a message and
  its intent together; SupportNotifications delivers the intents. A sign-in validates the launch data
  and mints a session with MiniAppSession; every later request verifies it, loads the account again
  and asks MiniAppAccess, which asks ForceJoin; the routes of MiniAppRoutes then read for the
  session's user, or write through SupportTickets, behind MiniAppGuards. Execution claims the paid
  order under the lock, asks the panel through an adapter, and stores the service or refunds through
  the same wallet.

  What the lemmas show. For every operation on the database there is a \<open>post\<close> fact or an \<open>_Inr\<close> fact
  that says what a success did, and a frame fact that says what it left alone; the invariants
  (exclusive usernames, bookkeeping of the wallet, one message per alert cycle, one refund per order,
  one holder of a lock confirmed within its lifetime, a message and an intent for every ticket) are proved
  operation by operation and lifted to sequences, to reachable states or to calls with interference. The locales state what a part promises to its clients and are
  interpreted on the definitions of the theory that provides it.

  Time, concurrency and failure. A transaction is atomic. What other processes do between two awaits of
  a call is an argument, a function on the database; theorems either hold for every such function, for
  those that keep the invariant, or, where the statement says so, for calls that are not interfered
  with. The clock is an integer of milliseconds; fresh identifiers come from a stream in the database
  record. A unique violation is an exception of its own, every other fault of the database another.
  Commands to the lock's backend may be lost, or carried out with their reply lost.

  Bounds. No definition uses fuel. The search for a random username is the bounded loop of the source,
  five attempts of two draws; the loop that waits for the lock is a partial function that is proved to
  return within the waiting time, whatever the backend does, when a sleep takes at least what was asked and
  exceeds it by a bounded lateness. The rate limiter keeps ten thousand windows; its bound counts the
  requests that others need to push one out.

  Parameters, for code that is not in the repository: SHA-256, AES-GCM and scrypt are the fields of a
  record with the laws of authenticated encryption as hypotheses, and the keyed hash HMAC-SHA-256 is a
  function on bytes; random bytes; the panel's answers; what Telegram answers about a member;
  the decryption of stored secrets; PostgreSQL and Redis as far as their statements are used.

  Not modelled, and why: message texts, keyboards and conversation state of the bot; the commerce
  routes take the verdict of the session hook as an argument, which MiniAppAccess computes; of the
  forced joins the parsing of a channel's link and the HTTP client that asks for a member; of the Mini
  App's pages the joining of names, formatted dates and the freshness timestamps; the user interface
  of the Mini App and the handling of its cookie by the browser; the HTTP clients of the panels and of
  payment gateways; the worker's other jobs and the installer. Logging has no counterpart, and a log
  line that a catch block writes is only the value the block returns.
\<close>

end
